(* ===== verification/Prelude.thy ===== *)
theory Prelude
  imports Main "HOL-Library.Word" "HOL-Library.Multiset" "HOL-Library.Monad_Syntax"
begin

text \<open>
  Shared ground of the development: the machine integers of the sources, the parts of
  the Rust standard library the components call (\<open>Iterator::position\<close>,
  \<open>Iterator::find_map\<close>, \<open>Vec::remove\<close>, \<open>str::strip_prefix\<close>, \<open>str::trim\<close>,
  \<open>u64::to_string\<close>, \<open>str::parse::<u64>\<close>), the collections of facts that the
  component proofs unfold with, and the two generic interfaces the components are
  instances of: a step function whose outputs follow a protocol, and an append-only log.
\<close>

section \<open>Collections of facts\<close>

named_theorems state_defs \<open>the handlers of the turn state machine\<close>
named_theorems mailbox_defs \<open>the operations of the mailbox\<close>
named_theorems context_defs \<open>the operations of the model context\<close>
named_theorems store_defs \<open>the operations of the transcript store\<close>
named_theorems session_defs \<open>the operations of the session shell\<close>

section \<open>Machine integers\<close>

text \<open>
  Rust's \<open>u64\<close> is a 64 bit word. The sources use the plain \<open>+\<close>, which wraps in the
  release profile (the workspace sets no overflow checks for it). A \<open>usize\<close> that only
  counts the elements of a vector is a \<open>nat\<close>.
\<close>

type_synonym u64 = "64 word"

lemma unat_Suc_u64: "unat (x :: u64) < 2 ^ 64 - 1 \<Longrightarrow> unat (x + 1) = Suc (unat x)"
  by (simp add: unat_word_ariths)

lemma unat_add_of_nat_u64:
  "unat (x :: u64) + k < 2 ^ 64 \<Longrightarrow> unat (x + of_nat k) = unat x + k"
  by (simp add: unat_word_ariths unat_of_nat)

section \<open>Iterators and vectors\<close>

text \<open>\<open>Iterator::position\<close>: the index of the first element that satisfies the predicate.\<close>

fun position :: "('a \<Rightarrow> bool) \<Rightarrow> 'a list \<Rightarrow> nat option" where
  "position P [] = None"
| "position P (x # xs) = (if P x then Some 0 else map_option Suc (position P xs))"

lemma position_None_iff: "position P xs = None \<longleftrightarrow> (\<forall>x \<in> set xs. \<not> P x)"
  by (induction xs) auto

lemma position_SomeD:
  "position P xs = Some i \<Longrightarrow> i < length xs \<and> P (xs ! i) \<and> (\<forall>j < i. \<not> P (xs ! j))"
proof (induction xs arbitrary: i)
  case Nil
  then show ?case by simp
next
  case (Cons x xs)
  show ?case
  proof (cases "P x")
    case True
    with Cons.prems show ?thesis by simp
  next
    case False
    with Cons.prems obtain k where k: "position P xs = Some k" "i = Suc k" by auto
    with Cons.IH [of k] False show ?thesis by (auto simp: less_Suc_eq_0_disj)
  qed
qed

lemma position_eqI:
  "i < length xs \<Longrightarrow> P (xs ! i) \<Longrightarrow> (\<And>j. j < i \<Longrightarrow> \<not> P (xs ! j)) \<Longrightarrow> position P xs = Some i"
proof (induction xs arbitrary: i)
  case Nil
  then show ?case by simp
next
  case (Cons x xs)
  show ?case
  proof (cases i)
    case 0
    with Cons.prems show ?thesis by simp
  next
    case (Suc k)
    have "\<not> P (xs ! j)" if "j < k" for j
      using Cons.prems(3) [of "Suc j"] Suc that by simp
    then have "position P xs = Some k"
      using Cons.prems(1,2) Suc by (intro Cons.IH) auto
    moreover have "\<not> P x" using Cons.prems(3) [of 0] Suc by simp
    ultimately show ?thesis using Suc by simp
  qed
qed

text \<open>\<open>Vec::remove\<close> and \<open>VecDeque::remove\<close> at an index found by \<open>position\<close>.\<close>

definition remove_at :: "nat \<Rightarrow> 'a list \<Rightarrow> 'a list" where
  "remove_at i xs = take i xs @ drop (Suc i) xs"

lemma remove_at_0 [simp]: "remove_at 0 (x # xs) = xs"
  by (simp add: remove_at_def)

lemma remove_at_Suc [simp]: "remove_at (Suc i) (x # xs) = x # remove_at i xs"
  by (simp add: remove_at_def)

lemma mset_remove_at: "i < length xs \<Longrightarrow> mset (remove_at i xs) = mset xs - {# xs ! i #}"
proof -
  assume i: "i < length xs"
  have "mset xs = mset (take i xs @ xs ! i # drop (Suc i) xs)"
    using i by (simp only: id_take_nth_drop [OF i, symmetric])
  then show ?thesis by (simp add: remove_at_def)
qed

lemma set_remove_at_subset: "set (remove_at i xs) \<subseteq> set xs"
  by (auto simp: remove_at_def dest: in_set_takeD in_set_dropD)

text \<open>\<open>Iterator::find_map\<close>.\<close>

fun find_map :: "('a \<Rightarrow> 'b option) \<Rightarrow> 'a list \<Rightarrow> 'b option" where
  "find_map f [] = None"
| "find_map f (x # xs) = (case f x of Some y \<Rightarrow> Some y | None \<Rightarrow> find_map f xs)"

lemma find_map_append:
  "find_map f (xs @ ys) = (case find_map f xs of Some y \<Rightarrow> Some y | None \<Rightarrow> find_map f ys)"
  by (induction xs) (auto split: option.splits)

section \<open>Strings\<close>

text \<open>
  A Rust \<open>str\<close> is the list of its UTF-8 bytes. Searching for and cutting off a
  valid UTF-8 string byte by byte agrees with doing so by code points.
\<close>

fun strip_prefix :: "'a list \<Rightarrow> 'a list \<Rightarrow> 'a list option" where
  "strip_prefix [] s = Some s"
| "strip_prefix (p # ps) [] = None"
| "strip_prefix (p # ps) (c # s) = (if p = c then strip_prefix ps s else None)"

lemma strip_prefix_Some_iff: "strip_prefix p s = Some r \<longleftrightarrow> s = p @ r"
  by (induction p s rule: strip_prefix.induct) auto

lemma strip_prefix_append [simp]: "strip_prefix p (p @ r) = Some r"
  by (simp add: strip_prefix_Some_iff)

lemma strip_prefix_None_iff: "strip_prefix p s = None \<longleftrightarrow> (\<forall>r. s \<noteq> p @ r)"
  using strip_prefix_Some_iff by (metis not_Some_eq)

definition starts_with :: "'a list \<Rightarrow> 'a list \<Rightarrow> bool" where
  "starts_with s p \<longleftrightarrow> strip_prefix p s \<noteq> None"

text \<open>\<open>str::find\<close> with a string pattern: the first index at which it occurs.\<close>

fun str_find :: "'a list \<Rightarrow> 'a list \<Rightarrow> nat option" where
  "str_find needle [] = (if needle = [] then Some 0 else None)"
| "str_find needle (c # s) =
     (if strip_prefix needle (c # s) \<noteq> None then Some 0 else map_option Suc (str_find needle s))"

lemma str_find_SomeD:
  "str_find needle s = Some i \<Longrightarrow> \<exists>a b. s = a @ needle @ b \<and> length a = i"
proof (induction s arbitrary: i)
  case Nil
  then show ?case by (simp split: if_splits)
next
  case (Cons c s)
  show ?case
  proof (cases "strip_prefix needle (c # s)")
    case None
    with Cons.prems obtain k where k: "str_find needle s = Some k" "i = Suc k" by auto
    with Cons.IH obtain a b where "s = a @ needle @ b" "length a = k" by blast
    with k have "c # s = (c # a) @ needle @ b \<and> length (c # a) = i" by simp
    then show ?thesis by blast
  next
    case (Some r)
    with Cons.prems have "c # s = [] @ needle @ r \<and> length [] = i"
      by (simp add: strip_prefix_Some_iff)
    then show ?thesis by blast
  qed
qed

lemma str_find_NoneD: "str_find needle s = None \<Longrightarrow> s \<noteq> a @ needle @ b"
proof (induction s arbitrary: a)
  case Nil
  then show ?case by (auto split: if_splits)
next
  case (Cons c s)
  from Cons.prems have no: "strip_prefix needle (c # s) = None" "str_find needle s = None"
    by (auto split: if_splits)
  show ?case
  proof (cases a)
    case Nil
    with no(1) show ?thesis by (simp add: strip_prefix_None_iff)
  next
    case (Cons x a')
    with Cons.IH [OF no(2), of a'] show ?thesis by auto
  qed
qed

lemma str_find_first:
  "str_find needle s = Some i \<Longrightarrow> s = a @ needle @ b \<Longrightarrow> i \<le> length a"
proof (induction s arbitrary: i a)
  case Nil
  then show ?case by (auto split: if_splits)
next
  case (Cons c s)
  show ?case
  proof (cases a)
    case Nil
    with Cons.prems(2) have "strip_prefix needle (c # s) = Some b" by simp
    with Cons.prems(1) show ?thesis by simp
  next
    case (Cons x a')
    with Cons.prems(2) have s: "s = a' @ needle @ b" by simp
    show ?thesis
    proof (cases "strip_prefix needle (c # s)")
      case None
      with Cons.prems(1) obtain k where "str_find needle s = Some k" "i = Suc k" by auto
      with Cons.IH [OF _ s, of k] Cons show ?thesis by simp
    next
      case (Some r)
      with Cons.prems(1) show ?thesis by simp
    qed
  qed
qed

text \<open>The character \<^verbatim>\<open>U+2026\<close> that marks what was left out.\<close>

definition ellipsis :: string where
  "ellipsis = [CHR 0xE2, CHR 0x80, CHR 0xA6]"

text \<open>
  \<open>str::trim\<close> removes leading and trailing \<open>White_Space\<close> code points; these are
  their UTF-8 encodings.
\<close>

definition white_space :: "string list" where
  "white_space = map (map char_of)
     ([[9], [10], [11], [12], [13], [32], [194, 133], [194, 160], [225, 154, 128]]
      @ map (\<lambda>k. [226, 128, k]) [128 ..< 139]
      @ [[226, 128, 168], [226, 128, 169], [226, 128, 175], [226, 129, 159], [227, 128, 128 :: nat]])"

function strip_all :: "'a list list \<Rightarrow> 'a list \<Rightarrow> 'a list" where
  "strip_all ws s =
     (case find_map (\<lambda>w. if w = [] then None else strip_prefix w s) ws of
        None \<Rightarrow> s
      | Some r \<Rightarrow> strip_all ws r)"
  by pat_completeness auto
termination
proof (relation "measure (\<lambda>(ws, s). length s)")
  show "wf (measure (\<lambda>(ws, s). length s))" by simp
next
  fix ws :: "'a list list" and s r
  assume "find_map (\<lambda>w. if w = [] then None else strip_prefix w s) ws = Some r"
  then have "length r < length s"
    by (induction ws) (auto simp: strip_prefix_Some_iff split: option.splits if_splits)
  then show "((ws, r), ws, s) \<in> measure (\<lambda>(ws, s). length s)" by simp
qed

declare strip_all.simps [simp del]

definition trim_start :: "string \<Rightarrow> string" where
  "trim_start s = strip_all white_space s"

definition trim_end :: "string \<Rightarrow> string" where
  "trim_end s = rev (strip_all (map rev white_space) (rev s))"

definition trim :: "string \<Rightarrow> string" where
  "trim s = trim_end (trim_start s)"

abbreviation nl :: char where
  "nl \<equiv> CHR 0x0A"

text \<open>\<open>str::split\<close> on the newline and \<open>join("\n")\<close>.\<close>

fun split_nl :: "string \<Rightarrow> string list" where
  "split_nl [] = [[]]"
| "split_nl (c # s) = (if c = nl then [] # split_nl s else (c # hd (split_nl s)) # tl (split_nl s))"

fun join_nl :: "string list \<Rightarrow> string" where
  "join_nl [] = []"
| "join_nl [l] = l"
| "join_nl (l # ls) = l @ nl # join_nl ls"

definition one_line :: "string \<Rightarrow> bool" where
  "one_line s \<longleftrightarrow> nl \<notin> set s"

lemma split_nl_not_Nil [simp]: "split_nl s \<noteq> []"
  by (cases s) auto

lemma split_nl_one_line: "one_line s \<Longrightarrow> split_nl s = [s]"
  by (induction s) (auto simp: one_line_def)

lemma split_nl_append: "one_line l \<Longrightarrow> split_nl (l @ nl # s) = l # split_nl s"
  by (induction l) (auto simp: one_line_def)

lemma split_join: "ls \<noteq> [] \<Longrightarrow> list_all one_line ls \<Longrightarrow> split_nl (join_nl ls) = ls"
  by (induction ls rule: join_nl.induct) (auto simp: split_nl_one_line split_nl_append)

lemma split_nl_snoc: "split_nl (s @ [nl]) = split_nl s @ [[]]"
  by (induction s) auto

lemma split_nl_lines: "list_all one_line (split_nl s)"
proof (induction s)
  case (Cons c s)
  then show ?case by (cases "split_nl s") (auto simp: one_line_def)
qed (simp add: one_line_def)

text \<open>Arithmetic on \<open>usize\<close> that stops at its bound.\<close>

definition saturating_add :: "nat \<Rightarrow> nat \<Rightarrow> nat" where
  "saturating_add a b = min (a + b) (2 ^ 64 - 1)"

definition saturating_mul :: "nat \<Rightarrow> nat \<Rightarrow> nat" where
  "saturating_mul a b = min (a * b) (2 ^ 64 - 1)"

text \<open>\<open>u64::to_string\<close> and \<open>str::parse::<u64>\<close>.\<close>

definition digit_char :: "nat \<Rightarrow> char" where
  "digit_char d = char_of (48 + d)"

definition digit_val :: "char \<Rightarrow> nat option" where
  "digit_val c = (let n = (of_char c :: nat) in if 48 \<le> n \<and> n \<le> 57 then Some (n - 48) else None)"

lemma digit_val_char [simp]: "d < 10 \<Longrightarrow> digit_val (digit_char d) = Some d"
  by (simp add: digit_val_def digit_char_def Let_def)

fun dec_string :: "nat \<Rightarrow> string" where
  "dec_string n =
     (if n < 10 then [digit_char n] else dec_string (n div 10) @ [digit_char (n mod 10)])"

declare dec_string.simps [simp del]

definition u64_to_string :: "u64 \<Rightarrow> string" where
  "u64_to_string x = dec_string (unat x)"

text \<open>One checked \<open>result * 10 + digit\<close> per character; overflow is an error.\<close>

fun parse_digits :: "nat \<Rightarrow> string \<Rightarrow> nat option" where
  "parse_digits acc [] = Some acc"
| "parse_digits acc (c # cs) =
     (case digit_val c of
        None \<Rightarrow> None
      | Some d \<Rightarrow> if acc * 10 + d < 2 ^ 64 then parse_digits (acc * 10 + d) cs else None)"

definition parse_u64 :: "string \<Rightarrow> u64 option" where
  "parse_u64 s =
     map_option of_nat
       (case s of
          [] \<Rightarrow> None
        | c # cs \<Rightarrow> if c = CHR ''+'' then (if cs = [] then None else parse_digits 0 cs)
                   else parse_digits 0 s)"

lemma parse_digits_append:
  "parse_digits acc (xs @ ys) = Option.bind (parse_digits acc xs) (\<lambda>a. parse_digits a ys)"
  by (induction xs arbitrary: acc) (auto split: option.splits)

lemma parse_digits_dec_string: "n < 2 ^ 64 \<Longrightarrow> parse_digits 0 (dec_string n) = Some n"
proof (induction n rule: dec_string.induct)
  case (1 n)
  show ?case
  proof (cases "n < 10")
    case True
    then show ?thesis by (simp add: dec_string.simps [of n])
  next
    case False
    with 1 have "parse_digits 0 (dec_string (n div 10)) = Some (n div 10)" by simp
    moreover have "n div 10 * 10 + n mod 10 < 2 ^ 64" using 1(2) by simp
    ultimately show ?thesis using False
      by (simp add: dec_string.simps [of n] parse_digits_append)
  qed
qed

lemma dec_string_nonempty: "dec_string n \<noteq> []"
  by (subst dec_string.simps) simp

lemma digit_char_not_plus: "d < 10 \<Longrightarrow> digit_char d \<noteq> CHR ''+''"
proof
  assume "d < 10" and "digit_char d = CHR ''+''"
  then have "digit_val (CHR ''+'') = Some d" by (metis digit_val_char)
  then show False by (simp add: digit_val_def)
qed

lemma hd_dec_string_not_plus: "hd (dec_string n) \<noteq> CHR ''+''"
proof (induction n rule: dec_string.induct)
  case (1 n)
  then show ?case
    by (cases "n < 10")
      (auto simp: dec_string.simps [of n] digit_char_not_plus hd_append dec_string_nonempty)
qed

lemma parse_u64_to_string: "parse_u64 (u64_to_string x) = Some x"
proof -
  obtain c cs where c: "dec_string (unat x) = c # cs"
    using dec_string_nonempty by (meson neq_Nil_conv)
  then have "c \<noteq> CHR ''+''" using hd_dec_string_not_plus [of "unat x"] by simp
  moreover have "unat x < 2 ^ 64" using unsigned_less [of x] by simp
  then have "parse_digits 0 (dec_string (unat x)) = Some (unat x)"
    by (rule parse_digits_dec_string)
  ultimately show ?thesis using c by (simp add: parse_u64_def u64_to_string_def)
qed

lemma u64_to_string_inject [simp]: "u64_to_string x = u64_to_string y \<longleftrightarrow> x = y"
  by (metis option.inject parse_u64_to_string)

section \<open>Outputs that follow a protocol\<close>

text \<open>
  A protocol is a partial function that consumes one output and gives the next
  protocol state; \<open>accepts\<close> consumes a sequence of them.
\<close>

fun accepts :: "('p \<Rightarrow> 'o \<Rightarrow> 'p option) \<Rightarrow> 'p \<Rightarrow> 'o list \<Rightarrow> 'p option" where
  "accepts d p [] = Some p"
| "accepts d p (x # xs) = (case d p x of None \<Rightarrow> None | Some p' \<Rightarrow> accepts d p' xs)"

lemma accepts_append:
  "accepts d p (xs @ ys) = (case accepts d p xs of None \<Rightarrow> None | Some p' \<Rightarrow> accepts d p' ys)"
  by (induction xs arbitrary: p) (auto split: option.splits)

lemma accepts_appendI:
  "accepts d p xs = Some q \<Longrightarrow> accepts d q ys = Some r \<Longrightarrow> accepts d p (xs @ ys) = Some r"
  by (simp add: accepts_append)

text \<open>A run of an operation over a list of commands, with the outputs collected.\<close>

fun run_ops :: "('s \<Rightarrow> 'c \<Rightarrow> 's \<times> 'o list) \<Rightarrow> 's \<Rightarrow> 'c list \<Rightarrow> 's \<times> 'o list" where
  "run_ops f s [] = (s, [])"
| "run_ops f s (c # cs) =
     (let (s1, o1) = f s c; (s2, o2) = run_ops f s1 cs in (s2, o1 @ o2))"

text \<open>
  The interface of a machine whose outputs follow a protocol: a relation between
  machine states and protocol states that every operation keeps.
\<close>

locale protocol_machine =
  fixes f :: "'s \<Rightarrow> 'c \<Rightarrow> 's \<times> 'o list"
    and d :: "'p \<Rightarrow> 'o \<Rightarrow> 'p option"
    and R :: "'s \<Rightarrow> 'p \<Rightarrow> bool"
  assumes op_sim: "R s p \<Longrightarrow> \<exists>p'. accepts d p (snd (f s c)) = Some p' \<and> R (fst (f s c)) p'"
begin

lemma run_sim: "R s p \<Longrightarrow> \<exists>p'. accepts d p (snd (run_ops f s cs)) = Some p' \<and> R (fst (run_ops f s cs)) p'"
proof (induction cs arbitrary: s p)
  case Nil
  then show ?case by simp
next
  case (Cons c cs)
  obtain s1 o1 where f: "f s c = (s1, o1)" by (cases "f s c")
  with op_sim [OF Cons.prems, of c] obtain p1 where p1: "accepts d p o1 = Some p1" "R s1 p1"
    by auto
  obtain s2 o2 where r: "run_ops f s1 cs = (s2, o2)" by (cases "run_ops f s1 cs")
  with Cons.IH [OF p1(2)] obtain p2 where "accepts d p1 o2 = Some p2" "R s2 p2" by auto
  with f r p1(1) show ?case by (auto intro: accepts_appendI)
qed

end

end
