(* ===== verification/Vocab.thy ===== *)
theory Vocab
  imports Prelude
begin

text \<open>
  The vocabulary crate (\<open>rust/crates/agent-vocab/src\<close>): identifiers, messages,
  transcript items, provider names and daemon observations. Structs are records, enums
  are datatypes with the variants of the source; a variant whose name is also the name
  of a struct carries the suffix \<open>Item\<close>. Fields carry a short prefix of their
  struct, since record fields share one name space.

  The JSON library is not part of the sources: \<open>Value\<close> has the documented shape of
  its value type, and its printers and parser are arguments of the definitions that
  call them.
\<close>

section \<open>Identifiers\<close>

datatype TurnId = TurnId (turn_id_0: u64)

definition TurnId_default :: TurnId where
  "TurnId_default = TurnId 0"

definition TurnId_first :: TurnId where
  "TurnId_first = TurnId 1"

definition TurnId_next :: "TurnId \<Rightarrow> TurnId" where
  "TurnId_next t = TurnId (turn_id_0 t + 1)"

datatype ActionId = ActionId (action_id_0: u64)

definition ActionId_first :: ActionId where
  "ActionId_first = ActionId 1"

text \<open>\<open>ActionId::take_next\<close> returns the current id and advances the counter.\<close>

definition ActionId_take_next :: "ActionId \<Rightarrow> ActionId \<times> ActionId" where
  "ActionId_take_next nxt = (nxt, ActionId (action_id_0 nxt + 1))"

instantiation TurnId :: linorder
begin
definition less_eq_TurnId :: "TurnId \<Rightarrow> TurnId \<Rightarrow> bool" where
  "less_eq_TurnId a b \<longleftrightarrow> turn_id_0 a \<le> turn_id_0 b"
definition less_TurnId :: "TurnId \<Rightarrow> TurnId \<Rightarrow> bool" where
  "less_TurnId a b \<longleftrightarrow> turn_id_0 a < turn_id_0 b"
instance
  by standard (auto simp: less_eq_TurnId_def less_TurnId_def TurnId.expand)
end

instantiation ActionId :: linorder
begin
definition less_eq_ActionId :: "ActionId \<Rightarrow> ActionId \<Rightarrow> bool" where
  "less_eq_ActionId a b \<longleftrightarrow> action_id_0 a \<le> action_id_0 b"
definition less_ActionId :: "ActionId \<Rightarrow> ActionId \<Rightarrow> bool" where
  "less_ActionId a b \<longleftrightarrow> action_id_0 a < action_id_0 b"
instance
  by standard (auto simp: less_eq_ActionId_def less_ActionId_def ActionId.expand)
end

datatype ToolCallId = ToolCallId (tool_call_id_0: string)

definition ToolCallId_first :: ToolCallId where
  "ToolCallId_first = ToolCallId ''1''"

definition ToolCallId_from_u64 :: "u64 \<Rightarrow> ToolCallId" where
  "ToolCallId_from_u64 n = ToolCallId (u64_to_string n)"

text \<open>\<open>ToolCallId::take_next\<close>: a text that is not a number counts as 0.\<close>

definition ToolCallId_take_next :: "ToolCallId \<Rightarrow> ToolCallId \<times> ToolCallId" where
  "ToolCallId_take_next nxt =
     (let parsed = (case parse_u64 (tool_call_id_0 nxt) of Some n \<Rightarrow> n | None \<Rightarrow> 0)
      in (nxt, ToolCallId (u64_to_string (parsed + 1))))"

section \<open>JSON values\<close>

text \<open>
  A number is kept as its literal text. \<open>serde_json\<close> keeps an object's entries sorted by key,
  which is how an object built by the code (\<open>json!\<close>, a parsed text) lists them here.
\<close>

datatype Value =
    JNull
  | JBool bool
  | JNumber string
  | JString string
  | JArray "Value list"
  | JObject "(string \<times> Value) list"

fun Value_get :: "Value \<Rightarrow> string \<Rightarrow> Value option" where
  "Value_get (JObject kvs) k = map_of kvs k"
| "Value_get _ k = None"

fun Value_as_str :: "Value \<Rightarrow> string option" where
  "Value_as_str (JString s) = Some s"
| "Value_as_str _ = None"

section \<open>Messages\<close>

datatype ImageSource = Base64 string | Url string

record ImageContent =
  ic_mime_type :: string
  ic_source :: ImageSource

datatype ContentBlock = TextBlock string | ImageBlock ImageContent

record UserMessage =
  um_content :: "ContentBlock list"
  um_replayed_after_compaction :: bool

definition UserMessage_text :: "string \<Rightarrow> UserMessage" where
  "UserMessage_text t = \<lparr>um_content = [TextBlock t], um_replayed_after_compaction = False\<rparr>"

definition UserMessage_from_parts :: "ContentBlock list \<Rightarrow> UserMessage" where
  "UserMessage_from_parts c = \<lparr>um_content = c, um_replayed_after_compaction = False\<rparr>"

definition UserMessage_as_text :: "UserMessage \<Rightarrow> string option" where
  "UserMessage_as_text m = (case um_content m of [TextBlock t] \<Rightarrow> Some t | _ \<Rightarrow> None)"

definition UserMessage_contains :: "UserMessage \<Rightarrow> string \<Rightarrow> bool" where
  "UserMessage_contains m needle =
     (case UserMessage_as_text m of Some t \<Rightarrow> str_find needle t \<noteq> None | None \<Rightarrow> False)"

record ToolCall =
  tc_id :: ToolCallId
  tc_tool_name :: string
  tc_args_json :: string

datatype AssistantItem = TextItem string | ToolCallItem ToolCall

record AssistantMessage =
  am_items :: "AssistantItem list"

definition AssistantMessage_tool_calls :: "AssistantMessage \<Rightarrow> ToolCall list" where
  "AssistantMessage_tool_calls m =
     List.map_filter (\<lambda>it. case it of ToolCallItem c \<Rightarrow> Some c | TextItem _ \<Rightarrow> None) (am_items m)"

definition AssistantMessage_text :: "AssistantMessage \<Rightarrow> string" where
  "AssistantMessage_text m =
     concat (List.map_filter (\<lambda>it. case it of TextItem t \<Rightarrow> Some t | ToolCallItem _ \<Rightarrow> None) (am_items m))"

text \<open>
  The hand-written serializer and deserializer of \<open>AssistantItem\<close>: an object as the
  list of its fields. The visitor keeps the last value of a repeated key, ignores
  unknown keys, and fails on a field that is not a string.
\<close>

definition AssistantItem_serialize :: "AssistantItem \<Rightarrow> (string \<times> Value) list" where
  "AssistantItem_serialize it =
     (case it of
        TextItem t \<Rightarrow> [(''type'', JString ''text''), (''text'', JString t)]
      | ToolCallItem c \<Rightarrow>
          [(''type'', JString ''tool_call''), (''id'', JString (tool_call_id_0 (tc_id c))),
           (''tool_name'', JString (tc_tool_name c)), (''args_json'', JString (tc_args_json c))])"

datatype de_error = InvalidType | MissingField string | UnknownVariant string

record item_fields =
  if_kind :: "string option"
  if_text :: "string option"
  if_id :: "ToolCallId option"
  if_tool_name :: "string option"
  if_args_json :: "string option"

definition no_item_fields :: item_fields where
  "no_item_fields =
     \<lparr>if_kind = None, if_text = None, if_id = None, if_tool_name = None, if_args_json = None\<rparr>"

fun AssistantItem_visit_fields :: "item_fields \<Rightarrow> (string \<times> Value) list \<Rightarrow> de_error + item_fields" where
  "AssistantItem_visit_fields fs [] = Inr fs"
| "AssistantItem_visit_fields fs ((key, v) # kvs) =
     (if key \<in> {''type'', ''text'', ''id'', ''tool_name'', ''args_json''} then
        (case Value_as_str v of
           None \<Rightarrow> Inl InvalidType
         | Some s \<Rightarrow>
             AssistantItem_visit_fields
               (if key = ''type'' then fs\<lparr>if_kind := Some s\<rparr>
                else if key = ''text'' then fs\<lparr>if_text := Some s\<rparr>
                else if key = ''id'' then fs\<lparr>if_id := Some (ToolCallId s)\<rparr>
                else if key = ''tool_name'' then fs\<lparr>if_tool_name := Some s\<rparr>
                else fs\<lparr>if_args_json := Some s\<rparr>) kvs)
      else AssistantItem_visit_fields fs kvs)"

definition AssistantItem_visit_map :: "(string \<times> Value) list \<Rightarrow> de_error + AssistantItem" where
  "AssistantItem_visit_map kvs =
     (case AssistantItem_visit_fields no_item_fields kvs of
        Inl e \<Rightarrow> Inl e
      | Inr fs \<Rightarrow>
          (case if_kind fs of
             None \<Rightarrow> Inl (MissingField ''type'')
           | Some k \<Rightarrow>
               if k = ''text'' then Inr (TextItem (case if_text fs of Some t \<Rightarrow> t | None \<Rightarrow> []))
               else if k = ''tool_call'' then
                 (case if_id fs of
                    None \<Rightarrow> Inl (MissingField ''id'')
                  | Some i \<Rightarrow>
                      (case if_tool_name fs of
                         None \<Rightarrow> Inl (MissingField ''tool_name'')
                       | Some n \<Rightarrow>
                           Inr (ToolCallItem
                             \<lparr>tc_id = i, tc_tool_name = n,
                              tc_args_json = (case if_args_json fs of Some a \<Rightarrow> a | None \<Rightarrow> ''{}'')\<rparr>)))
               else Inl (UnknownVariant k)))"

record ToolDefinition =
  td_name :: string
  td_description :: string
  td_input_schema :: Value

datatype ToolResultStatus = Success | Error | Interrupted | Crashed

record ToolResultMessage =
  tr_tool_call_id :: ToolCallId
  tr_tool_name :: string
  tr_output :: string
  tr_status :: ToolResultStatus

definition ToolResultMessage_success :: "ToolCallId \<Rightarrow> string \<Rightarrow> string \<Rightarrow> ToolResultMessage" where
  "ToolResultMessage_success i n out =
     \<lparr>tr_tool_call_id = i, tr_tool_name = n, tr_output = out, tr_status = Success\<rparr>"

definition ToolResultMessage_error :: "ToolCallId \<Rightarrow> string \<Rightarrow> string \<Rightarrow> ToolResultMessage" where
  "ToolResultMessage_error i n out =
     \<lparr>tr_tool_call_id = i, tr_tool_name = n, tr_output = out, tr_status = Error\<rparr>"

definition ToolResultMessage_interrupted :: "ToolCallId \<Rightarrow> string \<Rightarrow> ToolResultMessage" where
  "ToolResultMessage_interrupted i n =
     \<lparr>tr_tool_call_id = i, tr_tool_name = n, tr_output = ''interrupted'', tr_status = Interrupted\<rparr>"

definition ToolResultMessage_crashed :: "ToolCallId \<Rightarrow> string \<Rightarrow> ToolResultMessage" where
  "ToolResultMessage_crashed i n =
     \<lparr>tr_tool_call_id = i, tr_tool_name = n,
      tr_output = ''crashed before tool result was recorded'', tr_status = Crashed\<rparr>"

section \<open>Provider vocabulary\<close>

datatype ProviderKind = OpenAi | Claude

fun ProviderKind_as_str :: "ProviderKind \<Rightarrow> string" where
  "ProviderKind_as_str OpenAi = ''openai''"
| "ProviderKind_as_str Claude = ''claude''"

definition ProviderKind_from_str :: "string \<Rightarrow> string + ProviderKind" where
  "ProviderKind_from_str v =
     (if v = ''openai'' then Inr OpenAi
      else if v = ''claude'' then Inr Claude
      else Inl (''unsupported provider kind: '' @ v))"

datatype ReasoningEffort =
  EffortNone | EffortMinimal | EffortLow | EffortMedium | EffortHigh | EffortXHigh | EffortMax

fun ReasoningEffort_as_str :: "ReasoningEffort \<Rightarrow> string" where
  "ReasoningEffort_as_str EffortNone = ''none''"
| "ReasoningEffort_as_str EffortMinimal = ''minimal''"
| "ReasoningEffort_as_str EffortLow = ''low''"
| "ReasoningEffort_as_str EffortMedium = ''medium''"
| "ReasoningEffort_as_str EffortHigh = ''high''"
| "ReasoningEffort_as_str EffortXHigh = ''xhigh''"
| "ReasoningEffort_as_str EffortMax = ''max''"

text \<open>The \<open>from_str\<close> the macro \<open>text_enum!\<close> generates.\<close>

definition ReasoningEffort_from_str :: "string \<Rightarrow> string + ReasoningEffort" where
  "ReasoningEffort_from_str v =
     (if v = ''none'' then Inr EffortNone
      else if v = ''minimal'' then Inr EffortMinimal
      else if v = ''low'' then Inr EffortLow
      else if v = ''medium'' then Inr EffortMedium
      else if v = ''high'' then Inr EffortHigh
      else if v = ''xhigh'' then Inr EffortXHigh
      else if v = ''max'' then Inr EffortMax
      else Inl (''unknown ReasoningEffort: '' @ v))"

record ProviderConfig =
  pc_kind :: ProviderKind
  pc_model :: string
  pc_reasoning_effort :: ReasoningEffort
  pc_max_tokens :: "32 word option"
  pc_prompt_cache :: "Value option"

definition ProviderConfig_prompt_cache_key :: "ProviderConfig \<Rightarrow> string option" where
  "ProviderConfig_prompt_cache_key c = do {
     cache \<leftarrow> pc_prompt_cache c;
     key \<leftarrow> Value_get cache ''key'';
     Value_as_str key }"

datatype ReplayDisplayKind = LocalTool | HostedTool

record ReplayDisplay =
  rd_kind :: ReplayDisplayKind
  rd_pretty_name :: string
  rd_input_summary :: "string option"

record ProviderReplayItem =
  pr_provider :: ProviderKind
  pr_raw_json :: string
  pr_display :: "ReplayDisplay option"

definition ProviderReplayItem_new_with_display ::
  "(Value \<Rightarrow> 'e + string) \<Rightarrow> ProviderKind \<Rightarrow> Value \<Rightarrow> ReplayDisplay option \<Rightarrow> 'e + ProviderReplayItem" where
  "ProviderReplayItem_new_with_display to_string provider raw display =
     (case to_string raw of
        Inl e \<Rightarrow> Inl e
      | Inr s \<Rightarrow> Inr \<lparr>pr_provider = provider, pr_raw_json = s, pr_display = display\<rparr>)"

definition ProviderReplayItem_raw_type ::
  "(string \<Rightarrow> 'e + Value) \<Rightarrow> ProviderReplayItem \<Rightarrow> string option" where
  "ProviderReplayItem_raw_type from_str r =
     (case from_str (pr_raw_json r) of
        Inl _ \<Rightarrow> None
      | Inr v \<Rightarrow> Option.bind (Value_get v ''type'') Value_as_str)"

section \<open>Daemon observations\<close>

record DaemonToolObservation =
  do_tool_call_id :: ToolCallId
  do_tool_name :: string
  do_args_json :: string
  do_result_json :: Value
  do_status :: ToolResultStatus
  do_summary :: "string option"

definition DaemonToolObservation_inspect_delegation ::
  "(Value \<Rightarrow> string) \<Rightarrow> ToolCallId \<Rightarrow> string \<Rightarrow> string option \<Rightarrow> Value \<Rightarrow> DaemonToolObservation" where
  "DaemonToolObservation_inspect_delegation value_to_string i delegation_id summary snapshot =
     \<lparr>do_tool_call_id = i, do_tool_name = ''inspect_delegation'',
      do_args_json = value_to_string (JObject [(''delegation_id'', JString delegation_id)]),
      do_result_json = snapshot, do_status = Success, do_summary = summary\<rparr>"

definition newline :: string where
  "newline = [CHR 0x0A]"

definition daemon_observation_fallback_text ::
  "(Value \<Rightarrow> 'e + string) \<Rightarrow> (Value \<Rightarrow> 'e + string) \<Rightarrow> (string \<Rightarrow> 'e + Value)
     \<Rightarrow> string \<Rightarrow> string \<Rightarrow> string option \<Rightarrow> Value \<Rightarrow> 'e + string" where
  "daemon_observation_fallback_text to_string_pretty to_string from_str
       tool_name args_json summary result_json =
     (case to_string_pretty result_json of
        Inl e \<Rightarrow> Inl e
      | Inr result_text \<Rightarrow>
          let args_value = (case from_str args_json of Inr v \<Rightarrow> v | Inl _ \<Rightarrow> JString args_json)
          in (case to_string args_value of
                Inl e \<Rightarrow> Inl e
              | Inr args_inline \<Rightarrow>
                  Inr (''Daemon observation: '' @ tool_name @ newline
                    @ ''This message was authored by the pi-relay daemon, not by an assistant tool call.'' @ newline
                    @ ''It records daemon-observed state equivalent to `'' @ tool_name
                    @ ''('' @ args_inline @ '')` at observation time.'' @ newline
                    @ ''Full transcript contents and large prompts/messages are not inlined; artifact paths in the snapshot point to files to inspect only if needed.''
                    @ (case summary of
                         None \<Rightarrow> []
                       | Some s \<Rightarrow> if trim s = [] then []
                                  else newline @ newline @ ''Summary: '' @ trim s)
                    @ newline @ newline @ ''Snapshot JSON follows:'' @ newline @ ''```json'' @ newline
                    @ result_text @ newline @ ''```'')))"

definition DaemonToolObservation_render_text ::
  "(Value \<Rightarrow> 'e + string) \<Rightarrow> (Value \<Rightarrow> 'e + string) \<Rightarrow> (string \<Rightarrow> 'e + Value)
     \<Rightarrow> DaemonToolObservation \<Rightarrow> 'e + string" where
  "DaemonToolObservation_render_text to_string_pretty to_string from_str ob =
     daemon_observation_fallback_text to_string_pretty to_string from_str
       (do_tool_name ob) (do_args_json ob) (do_summary ob) (do_result_json ob)"

section \<open>Transcript items\<close>

datatype TurnOutcome = GracefulOutcome | InterruptedOutcome | CrashedOutcome

record CompactionSummary =
  cs_source_session_id :: string
  cs_source_leaf_id :: string
  cs_summary :: string
  cs_tokens_before :: "nat option"
  cs_last_turn_id :: TurnId
  cs_turn_started_at_ms :: "u64 option"

definition CompactionSummary_new ::
  "string \<Rightarrow> string \<Rightarrow> string \<Rightarrow> nat option \<Rightarrow> TurnId \<Rightarrow> CompactionSummary" where
  "CompactionSummary_new source_session source_leaf summary tokens_before last_turn =
     \<lparr>cs_source_session_id = source_session, cs_source_leaf_id = source_leaf, cs_summary = summary,
      cs_tokens_before = tokens_before, cs_last_turn_id = last_turn, cs_turn_started_at_ms = None\<rparr>"

datatype TranscriptItem =
    TurnStarted TurnId
  | UserMessageItem UserMessage
  | AssistantMessageItem AssistantMessage
  | ToolCallStarted TurnId ToolCall
  | ToolResultItem ToolResultMessage
  | TurnFinished TurnId TurnOutcome
  | CompactionSummaryItem CompactionSummary
  | DaemonToolObservationItem DaemonToolObservation

fun TranscriptItem_turn_id :: "TranscriptItem \<Rightarrow> TurnId option" where
  "TranscriptItem_turn_id (TurnStarted t) = Some t"
| "TranscriptItem_turn_id (ToolCallStarted t _) = Some t"
| "TranscriptItem_turn_id (TurnFinished t _) = Some t"
| "TranscriptItem_turn_id (CompactionSummaryItem s) = Some (cs_last_turn_id s)"
| "TranscriptItem_turn_id (UserMessageItem _) = None"
| "TranscriptItem_turn_id (AssistantMessageItem _) = None"
| "TranscriptItem_turn_id (ToolResultItem _) = None"
| "TranscriptItem_turn_id (DaemonToolObservationItem _) = None"

text \<open>A result answers a call when the id and the tool name agree.\<close>

abbreviation answers :: "ToolResultMessage \<Rightarrow> ToolCall \<Rightarrow> bool" where
  "answers r c \<equiv> tr_tool_call_id r = tc_id c \<and> tr_tool_name r = tc_tool_name c"

text \<open>
  The hand-written serializer and deserializer of assistant items are inverse; the text
  forms of provider kinds and reasoning efforts parse back, and nothing else parses to
  them; and numbered tool call ids are distinct and count up.
\<close>

lemma vocabulary_roundtrip:
  "AssistantItem_visit_map (AssistantItem_serialize it) = Inr it
   \<and> (ProviderKind_from_str v = Inr k \<longleftrightarrow> v = ProviderKind_as_str k)
   \<and> (ReasoningEffort_from_str v = Inr e \<longleftrightarrow> v = ReasoningEffort_as_str e)
   \<and> (ToolCallId_from_u64 m = ToolCallId_from_u64 n \<longleftrightarrow> m = n)
   \<and> ToolCallId_take_next (ToolCallId_from_u64 n) = (ToolCallId_from_u64 n, ToolCallId_from_u64 (n + 1))"
proof -
  have "AssistantItem_visit_map (AssistantItem_serialize it) = Inr it"
    by (cases it) (simp_all add: AssistantItem_visit_map_def AssistantItem_serialize_def no_item_fields_def)
  moreover have "(ProviderKind_from_str v = Inr k \<longleftrightarrow> v = ProviderKind_as_str k)
      \<and> (ReasoningEffort_from_str v = Inr e \<longleftrightarrow> v = ReasoningEffort_as_str e)"
    by (cases k; cases e) (auto simp: ProviderKind_from_str_def ReasoningEffort_from_str_def)
  ultimately show ?thesis
    by (simp add: ToolCallId_from_u64_def ToolCallId_take_next_def Let_def parse_u64_to_string u64_to_string_inject)
qed

end
