(* ===== verification/Turn_Protocol.thy ===== *)
theory Turn_Protocol
  imports Vocab
begin

text \<open>
  The abstract specification of a transcript: which item may follow which. It is what
  the turn loop promises to everything above it, stated without reference to its state.
  A turn is opened with the id after the last one, takes one input, and then alternates
  model replies with batches of tool calls; every call of a reply is started in the
  order the reply lists them, and every result answers the earliest call that still
  waits for one. A turn ends gracefully exactly after a reply with no tool calls.
\<close>

datatype phase =
    Quiet TurnId \<comment> \<open>between turns, after the turn with this id\<close>
  | Opened TurnId \<comment> \<open>a turn was started and has no input yet\<close>
  | AwaitModel TurnId bool \<comment> \<open>the model's move; the flag allows one more input first\<close>
  | Replied TurnId \<comment> \<open>a reply without tool calls was recorded\<close>
  | Starting TurnId "ToolCall list" "ToolCall list" \<comment> \<open>calls to start, calls of the reply\<close>
  | AwaitResults TurnId "ToolCall list" \<comment> \<open>calls without a result\<close>

fun turn_protocol :: "phase \<Rightarrow> TranscriptItem \<Rightarrow> phase option" where
  "turn_protocol (Quiet n) (TurnStarted t) = (if t = TurnId_next n then Some (Opened t) else None)"
| "turn_protocol (Opened t) (UserMessageItem _) = Some (AwaitModel t False)"
| "turn_protocol (Opened t) (DaemonToolObservationItem _) = Some (AwaitModel t False)"
| "turn_protocol (AwaitModel t again) (UserMessageItem _) = (if again then Some (AwaitModel t False) else None)"
| "turn_protocol (AwaitModel t again) (DaemonToolObservationItem _) =
     (if again then Some (AwaitModel t False) else None)"
| "turn_protocol (AwaitModel t again) (AssistantMessageItem m) =
     (let calls = AssistantMessage_tool_calls m
      in Some (if calls = [] then Replied t else Starting t calls calls))"
| "turn_protocol (AwaitModel t again) (TurnFinished t' out) =
     (if t' = t \<and> out \<noteq> GracefulOutcome then Some (Quiet t) else None)"
| "turn_protocol (Replied t) (TurnFinished t' out) =
     (if t' = t \<and> out = GracefulOutcome then Some (Quiet t) else None)"
| "turn_protocol (Starting t (c # cs) calls) (ToolCallStarted t' c') =
     (if t' = t \<and> c' = c then Some (if cs = [] then AwaitResults t calls else Starting t cs calls) else None)"
| "turn_protocol (AwaitResults t (c # cs)) (ToolResultItem r) =
     (if answers r c then Some (if cs = [] then AwaitModel t True else AwaitResults t cs) else None)"
| "turn_protocol _ _ = None"

abbreviation transcript_ok :: "phase \<Rightarrow> TranscriptItem list \<Rightarrow> phase option" where
  "transcript_ok \<equiv> accepts turn_protocol"

section \<open>What a well-formed transcript guarantees\<close>

text \<open>The calls the replies of a transcript make, and the calls its results answer.\<close>

definition call_key :: "ToolCall \<Rightarrow> ToolCallId \<times> string" where
  "call_key c = (tc_id c, tc_tool_name c)"

definition result_key :: "ToolResultMessage \<Rightarrow> ToolCallId \<times> string" where
  "result_key r = (tr_tool_call_id r, tr_tool_name r)"

lemma answers_iff_key: "answers r c \<longleftrightarrow> result_key r = call_key c"
  by (simp add: call_key_def result_key_def)

fun item_calls :: "TranscriptItem \<Rightarrow> ToolCall list" where
  "item_calls (AssistantMessageItem m) = AssistantMessage_tool_calls m"
| "item_calls _ = []"

fun item_results :: "TranscriptItem \<Rightarrow> ToolResultMessage list" where
  "item_results (ToolResultItem r) = [r]"
| "item_results _ = []"

fun item_starts :: "TranscriptItem \<Rightarrow> ToolCall list" where
  "item_starts (ToolCallStarted _ c) = [c]"
| "item_starts _ = []"

fun phase_waiting :: "phase \<Rightarrow> ToolCall list" where
  "phase_waiting (Starting t cs calls) = calls"
| "phase_waiting (AwaitResults t cs) = cs"
| "phase_waiting _ = []"

fun phase_unstarted :: "phase \<Rightarrow> ToolCall list" where
  "phase_unstarted (Starting t cs calls) = cs"
| "phase_unstarted _ = []"

lemma turn_protocol_waiting:
  "turn_protocol p it = Some q \<Longrightarrow>
     map call_key (phase_waiting p) @ map call_key (item_calls it)
       = map result_key (item_results it) @ map call_key (phase_waiting q)"
  by (induction p it rule: turn_protocol.induct)
    (auto simp: Let_def answers_iff_key split: if_splits)

lemma turn_protocol_unstarted:
  "turn_protocol p it = Some q \<Longrightarrow>
     phase_unstarted p @ item_calls it = item_starts it @ phase_unstarted q"
  by (induction p it rule: turn_protocol.induct) (auto simp: Let_def split: if_splits)

lemma transcript_waiting:
  "transcript_ok p its = Some q \<Longrightarrow>
     map call_key (phase_waiting p) @ map call_key (concat (map item_calls its))
       = map result_key (concat (map item_results its)) @ map call_key (phase_waiting q)"
proof (induction its arbitrary: p)
  case Nil
  then show ?case by simp
next
  case (Cons it its)
  then obtain p1 where p1: "turn_protocol p it = Some p1" "transcript_ok p1 its = Some q"
    by (auto split: option.splits)
  have "map call_key (phase_waiting p) @ map call_key (concat (map item_calls (it # its)))
      = (map call_key (phase_waiting p) @ map call_key (item_calls it))
          @ map call_key (concat (map item_calls its))"
    by simp
  also have "\<dots> = map result_key (item_results it) @ map call_key (phase_waiting p1)
          @ map call_key (concat (map item_calls its))"
    using turn_protocol_waiting [OF p1(1)] by simp
  also have "\<dots> = map result_key (item_results it)
          @ map result_key (concat (map item_results its)) @ map call_key (phase_waiting q)"
    using Cons.IH [OF p1(2)] by simp
  finally show ?case by simp
qed

lemma transcript_unstarted:
  "transcript_ok p its = Some q \<Longrightarrow>
     phase_unstarted p @ concat (map item_calls its) = concat (map item_starts its) @ phase_unstarted q"
proof (induction its arbitrary: p)
  case Nil
  then show ?case by simp
next
  case (Cons it its)
  then obtain p1 where p1: "turn_protocol p it = Some p1" "transcript_ok p1 its = Some q"
    by (auto split: option.splits)
  have "phase_unstarted p @ concat (map item_calls (it # its))
      = (phase_unstarted p @ item_calls it) @ concat (map item_calls its)"
    by simp
  also have "\<dots> = item_starts it @ phase_unstarted p1 @ concat (map item_calls its)"
    using turn_protocol_unstarted [OF p1(1)] by simp
  also have "\<dots> = item_starts it @ concat (map item_starts its) @ phase_unstarted q"
    using Cons.IH [OF p1(2)] by simp
  finally show ?case by simp
qed

text \<open>The last turn id a phase knows of, and the ids of the turns a transcript opens.\<close>

fun phase_turn :: "phase \<Rightarrow> TurnId" where
  "phase_turn (Quiet n) = n"
| "phase_turn (Opened t) = t"
| "phase_turn (AwaitModel t _) = t"
| "phase_turn (Replied t) = t"
| "phase_turn (Starting t _ _) = t"
| "phase_turn (AwaitResults t _) = t"

fun item_opens :: "TranscriptItem \<Rightarrow> TurnId list" where
  "item_opens (TurnStarted t) = [t]"
| "item_opens _ = []"

fun turns_after :: "TurnId \<Rightarrow> nat \<Rightarrow> TurnId list" where
  "turns_after n 0 = []"
| "turns_after n (Suc k) = TurnId_next n # turns_after (TurnId_next n) k"

lemma turn_protocol_opens:
  "turn_protocol p it = Some q \<Longrightarrow>
     (case item_opens it of [] \<Rightarrow> phase_turn q = phase_turn p
      | t # ts \<Rightarrow> ts = [] \<and> t = TurnId_next (phase_turn p) \<and> phase_turn q = t)"
  by (induction p it rule: turn_protocol.induct) (auto simp: Let_def split: if_splits)

lemma transcript_opens:
  "transcript_ok p its = Some q \<Longrightarrow>
     concat (map item_opens its) = turns_after (phase_turn p) (length (concat (map item_opens its)))"
proof (induction its arbitrary: p)
  case Nil
  then show ?case by simp
next
  case (Cons it its)
  then obtain p1 where p1: "turn_protocol p it = Some p1" "transcript_ok p1 its = Some q"
    by (auto split: option.splits)
  from turn_protocol_opens [OF p1(1)] Cons.IH [OF p1(2)] show ?case
    by (cases "item_opens it") auto
qed

lemma transcript_last_turn:
  "transcript_ok p its = Some q \<Longrightarrow>
     phase_turn q = last (phase_turn p # concat (map item_opens its))"
proof (induction its arbitrary: p)
  case Nil
  then show ?case by simp
next
  case (Cons it its)
  then obtain p1 where p1: "turn_protocol p it = Some p1" "transcript_ok p1 its = Some q"
    by (auto split: option.splits)
  from turn_protocol_opens [OF p1(1)] Cons.IH [OF p1(2)] show ?case
    by (cases "item_opens it") auto
qed

end
