(* ===== verification/Core_State.thy ===== *)
theory Core_State
  imports Turn_Protocol
begin

text \<open>
  The turn state machine (\<open>agent-core/src/state.rs\<close>) with its inputs and actions
  (\<open>agent-core/src/event.rs\<close>, \<open>agent-core/src/action.rs\<close>). One function per handler; a
  handler takes the state and the action counter and returns both with the transcript
  items and the actions it emits.
\<close>

section \<open>Inputs, events, actions\<close>

datatype TurnInput = TurnInput (turn_input_0: UserMessage)

definition TurnInput_into_transcript_item :: "TurnInput \<Rightarrow> TranscriptItem" where
  "TurnInput_into_transcript_item i = UserMessageItem (turn_input_0 i)"

datatype AgentInput =
    Interrupt
  | Steer TurnInput
  | FollowUp TurnInput
  | DaemonObservation DaemonToolObservation
  | ModelCompleted ActionId TurnId AssistantMessage
  | ModelFailed ActionId TurnId string
  | ToolCompleted ActionId TurnId ToolResultMessage

definition AgentInput_steer :: "string \<Rightarrow> AgentInput" where
  "AgentInput_steer c = Steer (TurnInput (UserMessage_text c))"

definition AgentInput_follow_up :: "string \<Rightarrow> AgentInput" where
  "AgentInput_follow_up c = FollowUp (TurnInput (UserMessage_text c))"

datatype AgentEvent =
    EvInterrupt
  | EvStartTurn TurnId TurnInput
  | EvStartDaemonObservationTurn TurnId DaemonToolObservation
  | EvSteer TurnInput
  | EvDaemonObservation DaemonToolObservation
  | EvModelCompleted ActionId TurnId AssistantMessage
  | EvModelFailed ActionId TurnId string
  | EvToolCompleted ActionId TurnId ToolResultMessage
  | EvContinueModel

datatype AgentAction =
    RequestModel ActionId TurnId
  | RequestTool ActionId TurnId ToolCall
  | CancelTurn TurnId

section \<open>States and handlers\<close>

record RunningTool =
  rt_call :: ToolCall
  rt_action_id :: ActionId
  rt_result :: "ToolResultMessage option"

datatype AgentState =
    Idle
  | RunningModel TurnId ActionId
  | RunningTools TurnId "RunningTool list" nat
  | ReadyToContinue TurnId

type_synonym transition = "AgentState \<times> ActionId \<times> TranscriptItem list \<times> AgentAction list"

definition empty_transition :: "AgentState \<Rightarrow> ActionId \<Rightarrow> transition" where
  [state_defs]: "empty_transition s nxt = (s, nxt, [], [])"

fun on_start_turn :: "AgentState \<Rightarrow> TurnId \<Rightarrow> TurnInput \<Rightarrow> ActionId \<Rightarrow> transition" where
  "on_start_turn Idle turn_id input nxt =
     (let (action_id, nxt') = ActionId_take_next nxt
      in (RunningModel turn_id action_id, nxt',
          [TurnStarted turn_id, TurnInput_into_transcript_item input],
          [RequestModel action_id turn_id]))"
| "on_start_turn s turn_id input nxt = empty_transition s nxt"

fun on_steer :: "AgentState \<Rightarrow> TurnInput \<Rightarrow> ActionId \<Rightarrow> transition" where
  "on_steer (ReadyToContinue turn_id) input nxt =
     (let (action_id, nxt') = ActionId_take_next nxt
      in (RunningModel turn_id action_id, nxt',
          [TurnInput_into_transcript_item input], [RequestModel action_id turn_id]))"
| "on_steer s input nxt = empty_transition s nxt"

fun on_start_daemon_observation_turn ::
  "AgentState \<Rightarrow> TurnId \<Rightarrow> DaemonToolObservation \<Rightarrow> ActionId \<Rightarrow> transition" where
  "on_start_daemon_observation_turn Idle turn_id observation nxt =
     (let (action_id, nxt') = ActionId_take_next nxt
      in (RunningModel turn_id action_id, nxt',
          [TurnStarted turn_id, DaemonToolObservationItem observation],
          [RequestModel action_id turn_id]))"
| "on_start_daemon_observation_turn s turn_id observation nxt = empty_transition s nxt"

fun on_daemon_observation :: "AgentState \<Rightarrow> DaemonToolObservation \<Rightarrow> ActionId \<Rightarrow> transition" where
  "on_daemon_observation (ReadyToContinue turn_id) observation nxt =
     (let (action_id, nxt') = ActionId_take_next nxt
      in (RunningModel turn_id action_id, nxt',
          [DaemonToolObservationItem observation], [RequestModel action_id turn_id]))"
| "on_daemon_observation s observation nxt = empty_transition s nxt"

text \<open>The guard shared by the two model handlers.\<close>

fun is_active_model :: "AgentState \<Rightarrow> TurnId \<Rightarrow> ActionId \<Rightarrow> bool" where
  "is_active_model (RunningModel active_turn_id active_action_id) turn_id action_id \<longleftrightarrow>
     active_turn_id = turn_id \<and> active_action_id = action_id"
| "is_active_model _ _ _ \<longleftrightarrow> False"

text \<open>The loop over the tool calls of a reply.\<close>

fun start_tools ::
  "TurnId \<Rightarrow> ActionId \<Rightarrow> ToolCall list \<Rightarrow> ActionId \<times> RunningTool list \<times> TranscriptItem list \<times> AgentAction list" where
  "start_tools turn_id nxt [] = (nxt, [], [], [])"
| "start_tools turn_id nxt (tool_call # calls) =
     (let (action_id, nxt1) = ActionId_take_next nxt;
          (nxt2, tools, items, actions) = start_tools turn_id nxt1 calls
      in (nxt2,
          \<lparr>rt_call = tool_call, rt_action_id = action_id, rt_result = None\<rparr> # tools,
          ToolCallStarted turn_id tool_call # items,
          RequestTool action_id turn_id tool_call # actions))"

definition on_model_completed ::
  "AgentState \<Rightarrow> ActionId \<Rightarrow> TurnId \<Rightarrow> AssistantMessage \<Rightarrow> ActionId \<Rightarrow> transition" where
  "on_model_completed s action_id turn_id assistant nxt =
     (if \<not> is_active_model s turn_id action_id then empty_transition s nxt
      else let tool_calls = AssistantMessage_tool_calls assistant
           in if tool_calls = [] then
                (Idle, nxt, [AssistantMessageItem assistant, TurnFinished turn_id GracefulOutcome], [])
              else
                let (nxt', tools, items, actions) = start_tools turn_id nxt tool_calls
                in (RunningTools turn_id tools 0, nxt', AssistantMessageItem assistant # items, actions))"

definition on_model_failed ::
  "AgentState \<Rightarrow> ActionId \<Rightarrow> TurnId \<Rightarrow> string \<Rightarrow> ActionId \<Rightarrow> transition" where
  "on_model_failed s action_id turn_id error nxt =
     (if \<not> is_active_model s turn_id action_id then empty_transition s nxt
      else (Idle, nxt, [TurnFinished turn_id CrashedOutcome], []))"

text \<open>The loop that moves finished results, from the next expected one on, to the transcript.\<close>

function flush_results ::
  "RunningTool list \<Rightarrow> nat \<Rightarrow> RunningTool list \<times> nat \<times> TranscriptItem list" where
  "flush_results tools i =
     (if i < length tools then
        (case rt_result (tools ! i) of
           None \<Rightarrow> (tools, i, [])
         | Some r \<Rightarrow>
             (let (tools', i', items) = flush_results (tools[i := (tools ! i)\<lparr>rt_result := None\<rparr>]) (Suc i)
              in (tools', i', ToolResultItem r # items)))
      else (tools, i, []))"
  by pat_completeness auto
termination
  by (relation "measure (\<lambda>(tools, i). length tools - i)") auto

declare flush_results.simps [simp del]

fun on_tool_completed ::
  "AgentState \<Rightarrow> ActionId \<Rightarrow> TurnId \<Rightarrow> ToolResultMessage \<Rightarrow> ActionId \<Rightarrow> transition" where
  "on_tool_completed (RunningTools active_turn_id tools next_result_index) action_id turn_id result nxt =
     (let s = RunningTools active_turn_id tools next_result_index
      in if active_turn_id \<noteq> turn_id then empty_transition s nxt
         else (case position (\<lambda>tool. tc_id (rt_call tool) = tr_tool_call_id result
                                 \<and> tc_tool_name (rt_call tool) = tr_tool_name result) tools of
                 None \<Rightarrow> empty_transition s nxt
               | Some result_index \<Rightarrow>
                   if rt_action_id (tools ! result_index) \<noteq> action_id then empty_transition s nxt
                   else if result_index < next_result_index \<or> rt_result (tools ! result_index) \<noteq> None
                     then empty_transition s nxt
                   else
                     let tools1 = tools[result_index := (tools ! result_index)\<lparr>rt_result := Some result\<rparr>];
                         (tools2, i, items) = flush_results tools1 next_result_index
                     in (if i = length tools2 then ReadyToContinue turn_id
                         else RunningTools active_turn_id tools2 i, nxt, items, [])))"
| "on_tool_completed s action_id turn_id result nxt = empty_transition s nxt"

fun on_continue_model :: "AgentState \<Rightarrow> ActionId \<Rightarrow> transition" where
  "on_continue_model (ReadyToContinue turn_id) nxt =
     (let (action_id, nxt') = ActionId_take_next nxt
      in (RunningModel turn_id action_id, nxt', [], [RequestModel action_id turn_id]))"
| "on_continue_model s nxt = empty_transition s nxt"

text \<open>A tool cut short by an interrupt contributes the result it has, or a crashed one.\<close>

definition closing_result :: "RunningTool \<Rightarrow> ToolResultMessage" where
  "closing_result tool =
     (case rt_result tool of
        Some r \<Rightarrow> r
      | None \<Rightarrow> ToolResultMessage_crashed (tc_id (rt_call tool)) (tc_tool_name (rt_call tool)))"

fun on_interrupt :: "AgentState \<Rightarrow> ActionId \<Rightarrow> transition" where
  "on_interrupt Idle nxt = empty_transition Idle nxt"
| "on_interrupt (ReadyToContinue turn_id) nxt =
     (Idle, nxt, [TurnFinished turn_id InterruptedOutcome], [])"
| "on_interrupt (RunningModel turn_id action_id) nxt =
     (Idle, nxt, [TurnFinished turn_id InterruptedOutcome], [CancelTurn turn_id])"
| "on_interrupt (RunningTools turn_id tools next_result_index) nxt =
     (Idle, nxt,
      map (\<lambda>tool. ToolResultItem (closing_result tool)) (drop next_result_index tools)
        @ [TurnFinished turn_id InterruptedOutcome],
      [CancelTurn turn_id])"

fun step :: "AgentState \<Rightarrow> AgentEvent \<Rightarrow> ActionId \<Rightarrow> transition" where
  "step s EvInterrupt nxt = on_interrupt s nxt"
| "step s (EvStartTurn turn_id input) nxt = on_start_turn s turn_id input nxt"
| "step s (EvSteer input) nxt = on_steer s input nxt"
| "step s (EvStartDaemonObservationTurn turn_id observation) nxt =
     on_start_daemon_observation_turn s turn_id observation nxt"
| "step s (EvDaemonObservation observation) nxt = on_daemon_observation s observation nxt"
| "step s (EvModelCompleted action_id turn_id assistant) nxt =
     on_model_completed s action_id turn_id assistant nxt"
| "step s (EvModelFailed action_id turn_id error) nxt = on_model_failed s action_id turn_id error nxt"
| "step s (EvToolCompleted action_id turn_id result) nxt =
     on_tool_completed s action_id turn_id result nxt"
| "step s EvContinueModel nxt = on_continue_model s nxt"

section \<open>The invariant of the tool batch\<close>

text \<open>
  While a batch runs, the next expected result is missing, everything before it was
  already moved to the transcript, and a stored result answers the call it is stored with.
\<close>

definition tools_ok :: "RunningTool list \<Rightarrow> nat \<Rightarrow> bool" where
  "tools_ok tools i \<longleftrightarrow>
     i < length tools \<and> rt_result (tools ! i) = None \<and> (\<forall>j < i. rt_result (tools ! j) = None)
     \<and> (\<forall>tool \<in> set tools. \<forall>r. rt_result tool = Some r \<longrightarrow> answers r (rt_call tool))"

fun state_ok :: "AgentState \<Rightarrow> bool" where
  "state_ok (RunningTools t tools i) = tools_ok tools i"
| "state_ok _ = True"

section \<open>Simulation of the transcript protocol\<close>

fun sim :: "AgentState \<Rightarrow> phase \<Rightarrow> bool" where
  "sim Idle p \<longleftrightarrow> (\<exists>n. p = Quiet n)"
| "sim (RunningModel t a) p \<longleftrightarrow> (\<exists>again. p = AwaitModel t again)"
| "sim (RunningTools t tools i) p \<longleftrightarrow> p = AwaitResults t (map rt_call (drop i tools))"
| "sim (ReadyToContinue t) p \<longleftrightarrow> p = AwaitModel t True"

text \<open>The only demand on an event: a new turn has the id after the last one.\<close>

fun event_ok :: "TurnId \<Rightarrow> AgentEvent \<Rightarrow> bool" where
  "event_ok n (EvStartTurn t _) \<longleftrightarrow> t = TurnId_next n"
| "event_ok n (EvStartDaemonObservationTurn t _) \<longleftrightarrow> t = TurnId_next n"
| "event_ok n _ \<longleftrightarrow> True"

lemma ActionId_take_next_simps [simp]:
  "fst (ActionId_take_next n) = n"
  "snd (ActionId_take_next n) = ActionId (action_id_0 n + 1)"
  by (simp_all add: ActionId_take_next_def)

text \<open>The batch a reply starts: one entry per call, with consecutive action ids.\<close>

fun batch :: "ActionId \<Rightarrow> ToolCall list \<Rightarrow> RunningTool list" where
  "batch nxt [] = []"
| "batch nxt (c # cs) =
     \<lparr>rt_call = c, rt_action_id = nxt, rt_result = None\<rparr> # batch (ActionId (action_id_0 nxt + 1)) cs"

lemma start_tools_batch:
  "start_tools t nxt calls =
     (ActionId (action_id_0 nxt + of_nat (length calls)), batch nxt calls,
      map (ToolCallStarted t) calls,
      map (\<lambda>tool. RequestTool (rt_action_id tool) t (rt_call tool)) (batch nxt calls))"
  by (induction calls arbitrary: nxt) (simp_all add: ActionId_take_next_def algebra_simps)

lemma batch_calls [simp]: "map rt_call (batch nxt calls) = calls"
  by (induction calls arbitrary: nxt) simp_all

lemma length_batch [simp]: "length (batch nxt calls) = length calls"
  by (induction calls arbitrary: nxt) simp_all

lemma batch_no_results: "tool \<in> set (batch nxt calls) \<Longrightarrow> rt_result tool = None"
  by (induction calls arbitrary: nxt) auto

lemma batch_action_ids:
  "map rt_action_id (batch nxt calls) = map (\<lambda>k. ActionId (action_id_0 nxt + of_nat k)) [0..<length calls]"
proof (induction calls arbitrary: nxt)
  case (Cons c calls)
  have "[0..<length (c # calls)] = 0 # map Suc [0..<length calls]"
    by (simp add: upt_conv_Cons map_Suc_upt del: upt_Suc)
  then show ?case using Cons [of "ActionId (action_id_0 nxt + 1)"]
    by (simp add: o_def algebra_simps)
qed simp

lemma tools_ok_batch: "calls \<noteq> [] \<Longrightarrow> tools_ok (batch nxt calls) 0"
  by (cases calls) (auto simp: tools_ok_def dest: batch_no_results)

lemma starting_accepts:
  "cs \<noteq> [] \<Longrightarrow> transcript_ok (Starting t cs calls) (map (ToolCallStarted t) cs) = Some (AwaitResults t calls)"
  by (induction cs) auto

lemma drop_Cons_nth: "i < length xs \<Longrightarrow> drop i xs = xs ! i # drop (Suc i) xs"
  by (simp add: Cons_nth_drop_Suc)

text \<open>
  Flushing from index \<open>i\<close> emits results that answer the calls from \<open>i\<close> on, stops at the
  first missing result, and leaves the calls and the action ids alone.
\<close>

lemma flush_results_facts:
  assumes "flush_results tools i = (tools', i', items)"
    and "i \<le> length tools" and "\<forall>j < i. rt_result (tools ! j) = None"
    and "\<forall>tool \<in> set tools. \<forall>r. rt_result tool = Some r \<longrightarrow> answers r (rt_call tool)"
  shows "i \<le> i' \<and> i' \<le> length tools \<and> length tools' = length tools
    \<and> map rt_call tools' = map rt_call tools \<and> map rt_action_id tools' = map rt_action_id tools
    \<and> (\<forall>j < i'. rt_result (tools' ! j) = None)
    \<and> (\<forall>tool \<in> set tools'. \<forall>r. rt_result tool = Some r \<longrightarrow> answers r (rt_call tool))
    \<and> (i' < length tools \<longrightarrow> rt_result (tools' ! i') = None)
    \<and> (\<exists>rs. items = map ToolResultItem rs
         \<and> list_all2 answers rs (take (i' - i) (drop i (map rt_call tools))))"
  using assms
proof (induction tools i arbitrary: tools' i' items rule: flush_results.induct)
  case (1 tools i)
  show ?case
  proof (cases "i < length tools \<and> rt_result (tools ! i) \<noteq> None")
    case False
    with "1.prems" show ?thesis
      by (auto simp: flush_results.simps [of tools i] split: if_splits)
  next
    case True
    then obtain r where i: "i < length tools" and r: "rt_result (tools ! i) = Some r" by auto
    let ?ts = "tools[i := (tools ! i)\<lparr>rt_result := None\<rparr>]"
    obtain tools2 i2 items2 where f: "flush_results ?ts (Suc i) = (tools2, i2, items2)"
      by (metis prod_cases3)
    with "1.prems"(1) i r have eq: "tools' = tools2" "i' = i2" "items = ToolResultItem r # items2"
      by (auto simp: flush_results.simps [of tools i])
    have calls: "map rt_call ?ts = map rt_call tools"
      using i by (simp add: map_update list_update_same_conv)
    have ids: "map rt_action_id ?ts = map rt_action_id tools"
      using i by (simp add: map_update list_update_same_conv)
    have none: "\<forall>j < Suc i. rt_result (?ts ! j) = None"
      using "1.prems"(3) i by (auto simp: less_Suc_eq nth_list_update)
    have ans: "\<forall>tool \<in> set ?ts. \<forall>r. rt_result tool = Some r \<longrightarrow> answers r (rt_call tool)"
      using "1.prems"(4) set_update_subset_insert by fastforce
    have len: "Suc i \<le> length ?ts" using i by simp
    note ih = "1.IH" [OF i r f len none ans]
    from ih obtain rs where rs: "items2 = map ToolResultItem rs"
      "list_all2 answers rs (take (i2 - Suc i) (drop (Suc i) (map rt_call tools)))"
      using calls by auto
    have "answers r (rt_call (tools ! i))" using "1.prems"(4) i r by auto
    moreover have "take (i2 - i) (drop i (map rt_call tools))
        = rt_call (tools ! i) # take (i2 - Suc i) (drop (Suc i) (map rt_call tools))"
      using ih i by (simp add: drop_Cons_nth Suc_diff_Suc [symmetric] del: drop_map)
    ultimately have "list_all2 answers (r # rs) (take (i2 - i) (drop i (map rt_call tools)))"
      using rs(2) by simp
    moreover have "items = map ToolResultItem (r # rs)" using eq rs(1) by simp
    ultimately have "\<exists>rs. items = map ToolResultItem rs
        \<and> list_all2 answers rs (take (i' - i) (drop i (map rt_call tools)))"
      using eq by blast
    with ih eq calls ids show ?thesis by auto
  qed
qed

lemma results_accepted:
  assumes "list_all2 answers rs cs"
  shows "transcript_ok (AwaitResults t (cs @ rest)) (map ToolResultItem rs)
       = Some (if cs = [] then AwaitResults t rest
               else if rest = [] then AwaitModel t True else AwaitResults t rest)"
  using assms by (induction rs cs rule: list_all2_induct) auto

lemma closing_result_answers:
  "tools_ok tools i \<Longrightarrow> tool \<in> set tools \<Longrightarrow> answers (closing_result tool) (rt_call tool)"
  by (auto simp: tools_ok_def closing_result_def ToolResultMessage_crashed_def split: option.splits)

lemma closing_results_accepted:
  assumes "tools_ok tools i"
  shows "transcript_ok (AwaitResults t (map rt_call (drop i tools)))
           (map (\<lambda>tool. ToolResultItem (closing_result tool)) (drop i tools))
         = Some (AwaitModel t True)"
proof -
  have "list_all2 answers (map closing_result (drop i tools)) (map rt_call (drop i tools))"
    using closing_result_answers [OF assms]
    by (auto simp: list_all2_map1 list_all2_map2 list_all2_same dest: in_set_dropD)
  moreover have "drop i tools \<noteq> []" using assms by (simp add: tools_ok_def)
  ultimately show ?thesis
    using results_accepted [of "map closing_result (drop i tools)" "map rt_call (drop i tools)" t "[]"]
    by (simp add: o_def)
qed

text \<open>The invariant after a result was stored at a free position.\<close>

lemma stored_result_facts:
  assumes ok: "tools_ok tools i" and ri: "i \<le> ri" "ri < length tools"
    and ans: "answers r (rt_call (tools ! ri))"
    and flush: "flush_results (tools[ri := (tools ! ri)\<lparr>rt_result := Some r\<rparr>]) i = (tools', i', items)"
  shows "i \<le> i'" "i' \<le> length tools" "length tools' = length tools"
    "map rt_call tools' = map rt_call tools" "map rt_action_id tools' = map rt_action_id tools"
    "i' < length tools \<Longrightarrow> tools_ok tools' i'"
    "\<exists>rs. items = map ToolResultItem rs
       \<and> list_all2 answers rs (take (i' - i) (drop i (map rt_call tools)))"
proof -
  let ?ts = "tools[ri := (tools ! ri)\<lparr>rt_result := Some r\<rparr>]"
  have calls: "map rt_call ?ts = map rt_call tools" "map rt_action_id ?ts = map rt_action_id tools"
    using ri by (simp_all add: map_update list_update_same_conv)
  have "\<forall>j < i. rt_result (?ts ! j) = None"
    using ok ri by (auto simp: tools_ok_def)
  moreover have "\<forall>tool \<in> set ?ts. \<forall>r. rt_result tool = Some r \<longrightarrow> answers r (rt_call tool)"
    using ok ans set_update_subset_insert [of tools ri] by (fastforce simp: tools_ok_def)
  moreover have "i \<le> length ?ts" using ri by simp
  ultimately have facts: "i \<le> i' \<and> i' \<le> length ?ts \<and> length tools' = length ?ts
    \<and> map rt_call tools' = map rt_call ?ts \<and> map rt_action_id tools' = map rt_action_id ?ts
    \<and> (\<forall>j < i'. rt_result (tools' ! j) = None)
    \<and> (\<forall>tool \<in> set tools'. \<forall>r. rt_result tool = Some r \<longrightarrow> answers r (rt_call tool))
    \<and> (i' < length ?ts \<longrightarrow> rt_result (tools' ! i') = None)
    \<and> (\<exists>rs. items = map ToolResultItem rs
         \<and> list_all2 answers rs (take (i' - i) (drop i (map rt_call ?ts))))"
    using flush_results_facts [OF flush] by blast
  then show "i \<le> i'" "i' \<le> length tools" "length tools' = length tools"
    "map rt_call tools' = map rt_call tools" "map rt_action_id tools' = map rt_action_id tools"
    "i' < length tools \<Longrightarrow> tools_ok tools' i'"
    "\<exists>rs. items = map ToolResultItem rs
       \<and> list_all2 answers rs (take (i' - i) (drop i (map rt_call tools)))"
    using calls by (auto simp: tools_ok_def)
qed

text \<open>One completed tool: the accepted and the ignored case of the handler.\<close>

definition tool_match :: "RunningTool list \<Rightarrow> nat \<Rightarrow> ActionId \<Rightarrow> ToolResultMessage \<Rightarrow> nat option" where
  "tool_match tools i action_id r =
     (case position (\<lambda>tool. answers r (rt_call tool)) tools of
        None \<Rightarrow> None
      | Some ri \<Rightarrow> if rt_action_id (tools ! ri) = action_id \<and> i \<le> ri \<and> rt_result (tools ! ri) = None
                  then Some ri else None)"

lemma on_tool_completed_eq:
  "on_tool_completed (RunningTools t tools i) action_id turn_id r nxt =
     (case (if t = turn_id then tool_match tools i action_id r else None) of
        None \<Rightarrow> (RunningTools t tools i, nxt, [], [])
      | Some ri \<Rightarrow>
          (let (tools', i', items) =
                 flush_results (tools[ri := (tools ! ri)\<lparr>rt_result := Some r\<rparr>]) i
           in (if i' = length tools' then ReadyToContinue t else RunningTools t tools' i',
               nxt, items, [])))"
proof -
  have "position (\<lambda>tool. tc_id (rt_call tool) = tr_tool_call_id r
          \<and> tc_tool_name (rt_call tool) = tr_tool_name r) tools
      = position (\<lambda>tool. answers r (rt_call tool)) tools"
    by (rule arg_cong2 [where f = position]) auto
  then show ?thesis
    by (auto simp: tool_match_def empty_transition_def Let_def split: option.splits)
qed

declare on_tool_completed.simps(1) [simp del]

lemma tool_matchD:
  assumes "tool_match tools i action_id r = Some ri"
  shows "i \<le> ri" "ri < length tools" "answers r (rt_call (tools ! ri))"
    "rt_action_id (tools ! ri) = action_id" "rt_result (tools ! ri) = None"
  using assms position_SomeD [of "\<lambda>tool. answers r (rt_call tool)" tools]
  by (auto simp: tool_match_def split: option.splits if_splits)

lemma tool_completed_sim:
  assumes ok: "tools_ok tools i"
    and "on_tool_completed (RunningTools t tools i) action_id turn_id r nxt = (s', nxt', items, actions)"
  shows "state_ok s' \<and> (\<exists>p'. transcript_ok (AwaitResults t (map rt_call (drop i tools))) items = Some p' \<and> sim s' p')"
proof (cases "if t = turn_id then tool_match tools i action_id r else None")
  case None
  with assms show ?thesis by (auto simp: on_tool_completed_eq)
next
  case (Some ri)
  then have m: "tool_match tools i action_id r = Some ri" by (auto split: if_splits)
  obtain tools' i' its where
    f: "flush_results (tools[ri := (tools ! ri)\<lparr>rt_result := Some r\<rparr>]) i = (tools', i', its)"
    by (metis prod_cases3)
  note facts = stored_result_facts [OF ok tool_matchD(1,2,3) [OF m] f]
  have s': "s' = (if i' = length tools then ReadyToContinue t else RunningTools t tools' i')"
    and items: "items = its"
    using assms(2) Some f facts(3) by (auto simp: on_tool_completed_eq)
  from facts(7) obtain rs where rs: "its = map ToolResultItem rs"
    "list_all2 answers rs (take (i' - i) (drop i (map rt_call tools)))" by blast
  have split: "map rt_call (drop i tools)
      = take (i' - i) (drop i (map rt_call tools)) @ map rt_call (drop i' tools)"
    using append_take_drop_id [of "i' - i" "drop i (map rt_call tools)"] facts(1)
    by (simp add: drop_map)
  have lt: "i < length tools" using ok by (simp add: tools_ok_def)
  have eq: "map rt_call (drop i' tools') = map rt_call (drop i' tools)"
    using facts(4) by (metis drop_map)
  have "transcript_ok (AwaitResults t (map rt_call (drop i tools))) items
      = Some (if i' = length tools then AwaitModel t True
              else AwaitResults t (map rt_call (drop i' tools)))"
    using results_accepted [OF rs(2), of t "map rt_call (drop i' tools)"] facts(1,2) lt
    unfolding split items rs(1) by auto
  with s' eq facts(2,3,6) show ?thesis by auto
qed

lemma step_sim:
  assumes ok: "state_ok s" and sim: "sim s p" and ev: "event_ok (phase_turn p) e"
    and step: "step s e nxt = (s', nxt', items, actions)"
  shows "state_ok s' \<and> (\<exists>p'. transcript_ok p items = Some p' \<and> sim s' p')"
proof (cases e)
  case EvInterrupt
  show ?thesis
  proof (cases s)
    case (RunningTools t tools i)
    with ok sim step EvInterrupt show ?thesis
      by (auto simp: accepts_append closing_results_accepted)
  qed (use sim step EvInterrupt in \<open>auto simp: empty_transition_def\<close>)
next
  case (EvModelCompleted a t m)
  show ?thesis
  proof (cases "is_active_model s t a")
    case True
    then have s: "s = RunningModel t a" by (cases s) auto
    show ?thesis
    proof (cases "AssistantMessage_tool_calls m")
      case Nil
      with s sim step EvModelCompleted show ?thesis by (auto simp: on_model_completed_def)
    next
      case (Cons c cs)
      with s sim step EvModelCompleted show ?thesis
        by (auto simp: on_model_completed_def start_tools_batch Let_def tools_ok_batch
            starting_accepts simp del: start_tools.simps batch.simps)
    qed
  next
    case False
    with ok sim step EvModelCompleted show ?thesis
      by (auto simp: on_model_completed_def empty_transition_def)
  qed
next
  case (EvModelFailed a t err)
  with ok sim step show ?thesis
    by (cases "is_active_model s t a"; cases s)
      (auto simp: on_model_failed_def empty_transition_def)
next
  case (EvToolCompleted a t r)
  show ?thesis
  proof (cases s)
    case (RunningTools t' tools i)
    with ok sim step EvToolCompleted tool_completed_sim show ?thesis by (auto simp: Let_def)
  qed (use sim step EvToolCompleted in \<open>auto simp: empty_transition_def\<close>)
qed (use assms in \<open>cases s; auto simp: empty_transition_def ActionId_take_next_def
      TurnInput_into_transcript_item_def\<close>)+

section \<open>Action ids, stale completions, interrupts\<close>

fun requested_id :: "AgentAction \<Rightarrow> ActionId option" where
  "requested_id (RequestModel a _) = Some a"
| "requested_id (RequestTool a _ _) = Some a"
| "requested_id (CancelTurn _) = None"

definition requested_ids :: "AgentAction list \<Rightarrow> ActionId list" where
  "requested_ids = List.map_filter requested_id"

definition ids_from :: "ActionId \<Rightarrow> nat \<Rightarrow> ActionId list" where
  "ids_from a n = map (\<lambda>k. ActionId (action_id_0 a + of_nat k)) [0..<n]"

lemma requested_ids_simps [simp]:
  "requested_ids [] = []"
  "requested_ids (act # acts) =
     (case requested_id act of None \<Rightarrow> requested_ids acts | Some a \<Rightarrow> a # requested_ids acts)"
  "requested_ids (xs @ ys) = requested_ids xs @ requested_ids ys"
  by (auto simp: requested_ids_def List.map_filter_def split: option.splits)

lemma requested_ids_tools [simp]:
  "requested_ids (map (\<lambda>tool. RequestTool (rt_action_id tool) t (rt_call tool)) ts) = map rt_action_id ts"
  by (induction ts) auto

lemma ids_from_simps [simp]: "ids_from a 0 = []" "ids_from a (Suc 0) = [a]"
  by (simp_all add: ids_from_def)

lemma step_requested_ids:
  assumes "step s e nxt = (s', nxt', items, actions)"
  shows "requested_ids actions = ids_from nxt (length (requested_ids actions))
     \<and> nxt' = ActionId (action_id_0 nxt + of_nat (length (requested_ids actions)))"
proof (cases e)
  case (EvModelCompleted a t m)
  with assms show ?thesis
    by (cases "is_active_model s t a")
      (auto simp: on_model_completed_def empty_transition_def start_tools_batch
        batch_action_ids ids_from_def Let_def split: if_splits)
next
  case (EvToolCompleted a t r)
  with assms show ?thesis
    by (cases s) (auto simp: on_tool_completed_eq empty_transition_def Let_def
        split: option.splits prod.splits)
qed (use assms in \<open>cases s; auto simp: on_model_failed_def empty_transition_def
      ActionId_take_next_def split: if_splits\<close>)+

lemma distinct_ids_from: "n \<le> 2 ^ 64 \<Longrightarrow> distinct (ids_from a n)"
proof -
  assume n: "n \<le> 2 ^ 64"
  have "inj_on (\<lambda>k. ActionId (action_id_0 a + of_nat k)) {0..<n}"
  proof (rule inj_onI)
    fix x y
    assume "x \<in> {0..<n}" and "y \<in> {0..<n}"
      and "ActionId (action_id_0 a + of_nat x) = ActionId (action_id_0 a + of_nat y)"
    with n have "(of_nat x :: u64) = of_nat y" "x < 2 ^ 64" "y < 2 ^ 64" by auto
    then have "unat (of_nat x :: u64) = unat (of_nat y :: u64)" by simp
    with \<open>x < 2 ^ 64\<close> \<open>y < 2 ^ 64\<close> show "x = y" by (simp add: unat_of_nat)
  qed
  then show ?thesis by (simp add: ids_from_def distinct_map)
qed

text \<open>The completions a state waits for.\<close>

fun awaits :: "AgentState \<Rightarrow> AgentEvent \<Rightarrow> bool" where
  "awaits s (EvModelCompleted a t _) \<longleftrightarrow> s = RunningModel t a"
| "awaits s (EvModelFailed a t _) \<longleftrightarrow> s = RunningModel t a"
| "awaits s (EvToolCompleted a t r) \<longleftrightarrow>
     (\<exists>tools i. s = RunningTools t tools i \<and> tool_match tools i a r \<noteq> None)"
| "awaits _ _ \<longleftrightarrow> False"

fun is_completion :: "AgentEvent \<Rightarrow> bool" where
  "is_completion (EvModelCompleted _ _ _) = True"
| "is_completion (EvModelFailed _ _ _) = True"
| "is_completion (EvToolCompleted _ _ _) = True"
| "is_completion _ = False"

lemma is_active_model_iff: "is_active_model s t a \<longleftrightarrow> s = RunningModel t a"
  by (cases s) auto

lemma stale_completion_ignored:
  "is_completion e \<Longrightarrow> \<not> awaits s e \<Longrightarrow> step s e nxt = (s, nxt, [], [])"
proof (cases e)
  case (EvToolCompleted a t r)
  moreover assume "\<not> awaits s e"
  ultimately show ?thesis
    by (cases s) (auto simp: on_tool_completed_eq empty_transition_def)
qed (auto simp: on_model_completed_def on_model_failed_def empty_transition_def is_active_model_iff)

lemma flush_results_no_items:
  "flush_results tools i = (tools', i', items) \<Longrightarrow> items = [] \<longleftrightarrow> i' = i"
proof (induction tools i arbitrary: tools' i' items rule: flush_results.induct)
  case (1 tools i)
  have mono: "i \<le> j" if "flush_results ts i = (ts', j, its)" for ts i ts' j its
    using that
  proof (induction ts i arbitrary: ts' j its rule: flush_results.induct)
    case (1 ts i)
    then show ?case
      by (subst (asm) (2) flush_results.simps)
        (fastforce split: if_splits option.splits prod.splits dest: Suc_leD)
  qed
  from 1(2) show ?case
    by (subst (asm) flush_results.simps)
      (fastforce split: if_splits option.splits prod.splits dest: mono)
qed

lemma awaited_completion_effective:
  assumes ok: "state_ok s" and "awaits s e" and step: "step s e nxt = (s', nxt', items, actions)"
  shows "s' \<noteq> s"
proof (cases e)
  case (EvModelCompleted a t m)
  with assms show ?thesis by (auto simp: on_model_completed_def Let_def split: if_splits prod.splits)
next
  case (EvModelFailed a t err)
  with assms show ?thesis by (auto simp: on_model_failed_def)
next
  case (EvToolCompleted a t r)
  with assms(2) obtain tools i ri where s: "s = RunningTools t tools i"
    and m: "tool_match tools i a r = Some ri" by auto
  obtain tools' i' its where
    f: "flush_results (tools[ri := (tools ! ri)\<lparr>rt_result := Some r\<rparr>]) i = (tools', i', its)"
    by (metis prod_cases3)
  have s': "s' = (if i' = length tools' then ReadyToContinue t else RunningTools t tools' i')"
    and items: "items = its"
    using step s m f EvToolCompleted by (auto simp: on_tool_completed_eq)
  show ?thesis
  proof (cases "i' = i")
    case False
    with s s' show ?thesis by auto
  next
    case True
    let ?ts = "tools[ri := (tools ! ri)\<lparr>rt_result := Some r\<rparr>]"
    have "its = []" using flush_results_no_items [OF f] True by simp
    with f have "tools' = ?ts"
      by (subst (asm) flush_results.simps) (auto split: if_splits option.splits prod.splits)
    moreover have "?ts ! ri \<noteq> tools ! ri"
      using tool_matchD [OF m] by (auto dest: arg_cong [where f = rt_result])
    ultimately show ?thesis using s s' by auto
  qed
qed (use assms in auto)

lemma interrupt_goes_idle: "step s EvInterrupt nxt = (s', nxt', items, actions) \<Longrightarrow> s' = Idle"
  by (cases s) (auto simp: empty_transition_def)

text \<open>Two calls of a batch with one id: the later one is never found.\<close>

lemma duplicate_call_stuck:
  assumes "j < k" and "k < length tools" and same: "call_key (rt_call (tools ! j)) = call_key (rt_call (tools ! k))"
    and r: "result_key r = call_key (rt_call (tools ! k))"
    and ids: "\<forall>l < k. rt_action_id (tools ! l) \<noteq> rt_action_id (tools ! k)"
  shows "on_tool_completed (RunningTools t tools i) (rt_action_id (tools ! k)) t r nxt
    = (RunningTools t tools i, nxt, [], [])"
proof -
  have j: "answers r (rt_call (tools ! j))" using same r by (simp add: answers_iff_key)
  have "tool_match tools i (rt_action_id (tools ! k)) r = None"
  proof (cases "position (\<lambda>tool. answers r (rt_call tool)) tools")
    case None
    then show ?thesis by (simp add: tool_match_def)
  next
    case (Some ri)
    from position_SomeD [OF Some] j assms(1) have "ri \<le> j" by (meson not_le_imp_less)
    with assms(1) ids Some show ?thesis by (simp add: tool_match_def)
  qed
  then show ?thesis by (simp add: on_tool_completed_eq)
qed

text \<open>
  A completion has an effect on the turn state machine exactly when the state waits
  for it.
\<close>

lemma completion_effective_iff_awaited:
  assumes "state_ok s" and "is_completion e"
  shows "fst (step s e nxt) \<noteq> s \<longleftrightarrow> awaits s e"
  using assms stale_completion_ignored [of e s nxt] awaited_completion_effective [of s e nxt]
  by (metis fst_conv prod_cases4)

end
