(* ===== verification/Core_Mailbox.thy ===== *)
theory Core_Mailbox
  imports Core_State
begin

text \<open>
  The mailbox (\<open>agent-core/src/mailbox.rs\<close>): volatile priority queues in front of the
  turn state machine. A deque is a list whose head is the front.
\<close>

record UserInputEntry =
  uie_content :: TurnInput

record DaemonObservationEntry =
  doe_observation :: DaemonToolObservation

record Mailbox =
  mb_notifications :: "AgentEvent list"
  mb_steer :: "UserInputEntry list"
  mb_follow_up :: "UserInputEntry list"
  mb_daemon_observations :: "DaemonObservationEntry list"
  mb_interrupt_requested :: bool

definition Mailbox_default :: Mailbox where
  "Mailbox_default =
     \<lparr>mb_notifications = [], mb_steer = [], mb_follow_up = [], mb_daemon_observations = [],
      mb_interrupt_requested = False\<rparr>"

definition push_notification_back :: "AgentEvent \<Rightarrow> Mailbox \<Rightarrow> Mailbox" where
  [mailbox_defs]: "push_notification_back n m = m\<lparr>mb_notifications := mb_notifications m @ [n]\<rparr>"

definition request_interrupt :: "Mailbox \<Rightarrow> Mailbox" where
  [mailbox_defs]: "request_interrupt m = m\<lparr>mb_interrupt_requested := True\<rparr>"

fun push_input :: "Mailbox \<Rightarrow> AgentInput \<Rightarrow> Mailbox" where
  "push_input m Interrupt = request_interrupt m"
| "push_input m (Steer content) = m\<lparr>mb_steer := mb_steer m @ [\<lparr>uie_content = content\<rparr>]\<rparr>"
| "push_input m (FollowUp content) = m\<lparr>mb_follow_up := mb_follow_up m @ [\<lparr>uie_content = content\<rparr>]\<rparr>"
| "push_input m (DaemonObservation observation) =
     m\<lparr>mb_daemon_observations := mb_daemon_observations m @ [\<lparr>doe_observation = observation\<rparr>]\<rparr>"
| "push_input m (ModelCompleted action_id turn_id assistant) =
     push_notification_back (EvModelCompleted action_id turn_id assistant) m"
| "push_input m (ModelFailed action_id turn_id error) =
     push_notification_back (EvModelFailed action_id turn_id error) m"
| "push_input m (ToolCompleted action_id turn_id result) =
     push_notification_back (EvToolCompleted action_id turn_id result) m"

definition pop_steer_input_entry :: "Mailbox \<Rightarrow> UserInputEntry option \<times> Mailbox" where
  [mailbox_defs]: "pop_steer_input_entry m =
     (case mb_steer m of [] \<Rightarrow> (None, m) | e # es \<Rightarrow> (Some e, m\<lparr>mb_steer := es\<rparr>))"

text \<open>Steer before follow-up.\<close>

definition pop_user_input_entry :: "Mailbox \<Rightarrow> UserInputEntry option \<times> Mailbox" where
  [mailbox_defs]: "pop_user_input_entry m =
     (case mb_steer m of
        e # es \<Rightarrow> (Some e, m\<lparr>mb_steer := es\<rparr>)
      | [] \<Rightarrow> (case mb_follow_up m of
                 e # es \<Rightarrow> (Some e, m\<lparr>mb_follow_up := es\<rparr>)
               | [] \<Rightarrow> (None, m)))"

definition pop_daemon_observation_entry :: "Mailbox \<Rightarrow> DaemonObservationEntry option \<times> Mailbox" where
  [mailbox_defs]: "pop_daemon_observation_entry m =
     (case mb_daemon_observations m of
        [] \<Rightarrow> (None, m)
      | e # es \<Rightarrow> (Some e, m\<lparr>mb_daemon_observations := es\<rparr>))"

definition drain_pending_inputs :: "Mailbox \<Rightarrow> AgentInput list \<times> Mailbox" where
  "drain_pending_inputs m =
     (map (\<lambda>e. Steer (uie_content e)) (mb_steer m)
        @ map (\<lambda>e. FollowUp (uie_content e)) (mb_follow_up m)
        @ map (\<lambda>e. DaemonObservation (doe_observation e)) (mb_daemon_observations m),
      m\<lparr>mb_steer := [], mb_follow_up := [], mb_daemon_observations := []\<rparr>)"

fun interruptible :: "AgentState \<Rightarrow> bool" where
  "interruptible (RunningModel _ _) = True"
| "interruptible (RunningTools _ _ _) = True"
| "interruptible (ReadyToContinue _) = True"
| "interruptible Idle = False"

definition next_input_event :: "Mailbox \<Rightarrow> AgentState \<Rightarrow> TurnId \<Rightarrow> AgentEvent option \<times> Mailbox" where
  [mailbox_defs]: "next_input_event m s next_turn_id =
     (case s of
        ReadyToContinue _ \<Rightarrow>
          (case pop_steer_input_entry m of
             (Some entry, m') \<Rightarrow> (Some (EvSteer (uie_content entry)), m')
           | (None, m') \<Rightarrow>
               (case pop_daemon_observation_entry m' of
                  (Some entry, m'') \<Rightarrow> (Some (EvDaemonObservation (doe_observation entry)), m'')
                | (None, m'') \<Rightarrow> (Some EvContinueModel, m'')))
      | Idle \<Rightarrow>
          (case pop_user_input_entry m of
             (Some entry, m') \<Rightarrow> (Some (EvStartTurn next_turn_id (uie_content entry)), m')
           | (None, m') \<Rightarrow>
               (case pop_daemon_observation_entry m' of
                  (Some entry, m'') \<Rightarrow>
                    (Some (EvStartDaemonObservationTurn next_turn_id (doe_observation entry)), m'')
                | (None, m'') \<Rightarrow> (None, m'')))
      | RunningModel _ _ \<Rightarrow> (None, m)
      | RunningTools _ _ _ \<Rightarrow> (None, m))"

definition next_event :: "Mailbox \<Rightarrow> AgentState \<Rightarrow> TurnId \<Rightarrow> AgentEvent option \<times> Mailbox" where
  "next_event m s next_turn_id =
     (let m1 = m\<lparr>mb_interrupt_requested := False\<rparr>
      in if mb_interrupt_requested m \<and> interruptible s then (Some EvInterrupt, m1)
         else (case mb_notifications m1 of
                 n # ns \<Rightarrow> (Some n, m1\<lparr>mb_notifications := ns\<rparr>)
               | [] \<Rightarrow> next_input_event m1 s next_turn_id))"

section \<open>Facts the core loop relies on\<close>

text \<open>The inputs a mailbox holds, as the transcript items they will become.\<close>

definition mailbox_inputs :: "Mailbox \<Rightarrow> TranscriptItem multiset" where
  "mailbox_inputs m =
     mset (map (\<lambda>e. TurnInput_into_transcript_item (uie_content e)) (mb_steer m))
     + mset (map (\<lambda>e. TurnInput_into_transcript_item (uie_content e)) (mb_follow_up m))
     + mset (map (\<lambda>e. DaemonToolObservationItem (doe_observation e)) (mb_daemon_observations m))"

fun event_inputs :: "AgentEvent \<Rightarrow> TranscriptItem multiset" where
  "event_inputs (EvStartTurn _ i) = {# TurnInput_into_transcript_item i #}"
| "event_inputs (EvSteer i) = {# TurnInput_into_transcript_item i #}"
| "event_inputs (EvStartDaemonObservationTurn _ ob) = {# DaemonToolObservationItem ob #}"
| "event_inputs (EvDaemonObservation ob) = {# DaemonToolObservationItem ob #}"
| "event_inputs _ = {#}"

fun input_items :: "AgentInput \<Rightarrow> TranscriptItem multiset" where
  "input_items (Steer i) = {# TurnInput_into_transcript_item i #}"
| "input_items (FollowUp i) = {# TurnInput_into_transcript_item i #}"
| "input_items (DaemonObservation ob) = {# DaemonToolObservationItem ob #}"
| "input_items _ = {#}"

definition mailbox_ok :: "Mailbox \<Rightarrow> bool" where
  "mailbox_ok m \<longleftrightarrow> list_all is_completion (mb_notifications m)"

definition mailbox_size :: "Mailbox \<Rightarrow> nat" where
  "mailbox_size m =
     length (mb_notifications m) + length (mb_steer m) + length (mb_follow_up m)
     + length (mb_daemon_observations m) + (if mb_interrupt_requested m then 1 else 0)"

text \<open>An event that fits the state it is delivered in.\<close>

fun event_fits :: "AgentState \<Rightarrow> AgentEvent \<Rightarrow> bool" where
  "event_fits s (EvStartTurn _ _) \<longleftrightarrow> s = Idle"
| "event_fits s (EvStartDaemonObservationTurn _ _) \<longleftrightarrow> s = Idle"
| "event_fits s (EvSteer _) \<longleftrightarrow> (\<exists>t. s = ReadyToContinue t)"
| "event_fits s (EvDaemonObservation _) \<longleftrightarrow> (\<exists>t. s = ReadyToContinue t)"
| "event_fits s EvContinueModel \<longleftrightarrow> (\<exists>t. s = ReadyToContinue t)"
| "event_fits s EvInterrupt \<longleftrightarrow> s \<noteq> Idle"
| "event_fits s _ \<longleftrightarrow> True"

lemmas next_event_unfold = next_event_def next_input_event_def pop_steer_input_entry_def
  pop_user_input_entry_def pop_daemon_observation_entry_def Let_def

lemma push_input_inputs: "mailbox_inputs (push_input m i) = mailbox_inputs m + input_items i"
  by (cases i) (auto simp: mailbox_inputs_def mailbox_defs)

lemma push_input_ok: "mailbox_ok m \<Longrightarrow> mailbox_ok (push_input m i)"
  by (cases i) (auto simp: mailbox_ok_def mailbox_defs)

lemma next_event_inputs:
  assumes "mailbox_ok m" and "next_event m s t = (e, m')"
  shows "mailbox_inputs m = (case e of None \<Rightarrow> {#} | Some ev \<Rightarrow> event_inputs ev) + mailbox_inputs m'"
proof -
  have no: "event_inputs n = {#}" if "is_completion n" for n
    using that by (cases n) auto
  show ?thesis using assms
    by (auto simp: next_event_unfold mailbox_inputs_def mailbox_ok_def no
        split: if_splits list.splits AgentState.splits)
qed

lemma next_event_ok:
  assumes "mailbox_ok m" and "next_event m s t = (e, m')"
  shows "mailbox_ok m' \<and> (\<forall>ev. e = Some ev \<longrightarrow> event_fits s ev \<and> (\<forall>n. t = TurnId_next n \<longrightarrow> event_ok n ev))"
proof -
  have no: "event_fits s n \<and> event_ok k n" if "is_completion n" for n k
    using that by (cases n) auto
  show ?thesis using assms
    by (auto simp: next_event_unfold mailbox_ok_def no
        split: if_splits list.splits AgentState.splits)
qed

lemma next_event_size:
  assumes "next_event m s t = (Some ev, m')"
  shows "mailbox_size m' < mailbox_size m
    \<or> ev = EvContinueModel \<and> (\<exists>u. s = ReadyToContinue u) \<and> mailbox_size m' \<le> mailbox_size m"
  using assms
  by (auto simp: next_event_unfold mailbox_size_def split: if_splits list.splits AgentState.splits)

lemma next_event_None:
  assumes "next_event m s t = (None, m')"
  shows "m' = m\<lparr>mb_interrupt_requested := False\<rparr> \<and> mb_notifications m' = []
     \<and> (mb_interrupt_requested m \<longrightarrow> s = Idle)
     \<and> (s = Idle \<and> mb_steer m' = [] \<and> mb_follow_up m' = [] \<and> mb_daemon_observations m' = []
        \<or> (\<exists>u a. s = RunningModel u a) \<or> (\<exists>u tools i. s = RunningTools u tools i))"
  using assms
  by (cases s) (auto simp: next_event_unfold split: if_splits list.splits)

text \<open>Pushing drained inputs back appends them to the queues they came from.\<close>

lemma push_drained:
  "foldl push_input b (fst (drain_pending_inputs m)) =
     b\<lparr>mb_steer := mb_steer b @ mb_steer m, mb_follow_up := mb_follow_up b @ mb_follow_up m,
       mb_daemon_observations := mb_daemon_observations b @ mb_daemon_observations m\<rparr>"
proof -
  have steer: "foldl push_input b (map (\<lambda>e. Steer (uie_content e)) es) = b\<lparr>mb_steer := mb_steer b @ es\<rparr>" for b es
    by (induction es arbitrary: b) auto
  have follow: "foldl push_input b (map (\<lambda>e. FollowUp (uie_content e)) es)
      = b\<lparr>mb_follow_up := mb_follow_up b @ es\<rparr>" for b es
    by (induction es arbitrary: b) auto
  have obs: "foldl push_input b (map (\<lambda>e. DaemonObservation (doe_observation e)) es)
      = b\<lparr>mb_daemon_observations := mb_daemon_observations b @ es\<rparr>" for b es
    by (induction es arbitrary: b) auto
  show ?thesis by (simp add: drain_pending_inputs_def steer follow obs)
qed

lemma drain_restore: "drain_pending_inputs m = (inputs, m') \<Longrightarrow> foldl push_input m' inputs = m"
  using push_drained [of m' m] by (auto simp: drain_pending_inputs_def)

lemma drain_refilled:
  "fst (drain_pending_inputs (foldl push_input Mailbox_default (fst (drain_pending_inputs m))))
     = fst (drain_pending_inputs m)"
  unfolding push_drained by (simp add: drain_pending_inputs_def Mailbox_default_def)

end
