(* ===== verification/Core_Loop.thy ===== *)
theory Core_Loop
  imports Core_Mailbox
begin

text \<open>
  The core loop (\<open>agent-core/src/loop.rs\<close>): the mailbox, the state machine, the turn
  and action counters and the two outboxes, driven to quiescence. The loop of \<open>drive\<close>
  is a total function: every iteration either takes something out of the mailbox or
  leaves the state that continues by itself.
\<close>

record AgentCoreLoop =
  cl_mailbox :: Mailbox
  cl_state :: AgentState
  cl_last_turn_id :: TurnId
  cl_next_action_id :: ActionId
  cl_action_outbox :: "AgentAction list"
  cl_transcript_item_outbox :: "TranscriptItem list"

definition AgentCoreLoop_new :: AgentCoreLoop where
  "AgentCoreLoop_new =
     \<lparr>cl_mailbox = Mailbox_default, cl_state = Idle, cl_last_turn_id = TurnId_default,
      cl_next_action_id = ActionId_first, cl_action_outbox = [], cl_transcript_item_outbox = []\<rparr>"

definition resume_at :: "TurnId \<Rightarrow> ActionId \<Rightarrow> AgentCoreLoop" where
  "resume_at last_turn_id next_action_id =
     \<lparr>cl_mailbox = Mailbox_default, cl_state = Idle, cl_last_turn_id = last_turn_id,
      cl_next_action_id = next_action_id, cl_action_outbox = [], cl_transcript_item_outbox = []\<rparr>"

definition resume_running_model :: "TurnId \<Rightarrow> ActionId \<Rightarrow> AgentCoreLoop" where
  "resume_running_model turn_id action_id =
     \<lparr>cl_mailbox = Mailbox_default, cl_state = RunningModel turn_id action_id,
      cl_last_turn_id = turn_id, cl_next_action_id = ActionId (action_id_0 action_id + 1),
      cl_action_outbox = [], cl_transcript_item_outbox = []\<rparr>"

definition resume_ready_to_continue :: "TurnId \<Rightarrow> ActionId \<Rightarrow> AgentCoreLoop" where
  "resume_ready_to_continue turn_id next_action_id =
     \<lparr>cl_mailbox = Mailbox_default, cl_state = ReadyToContinue turn_id,
      cl_last_turn_id = turn_id, cl_next_action_id = next_action_id,
      cl_action_outbox = [], cl_transcript_item_outbox = []\<rparr>"

definition core_enqueue_input :: "AgentCoreLoop \<Rightarrow> AgentInput \<Rightarrow> AgentCoreLoop" where
  "core_enqueue_input l input = l\<lparr>cl_mailbox := push_input (cl_mailbox l) input\<rparr>"

definition core_is_idle :: "AgentCoreLoop \<Rightarrow> bool" where
  "core_is_idle l \<longleftrightarrow> cl_state l = Idle"

fun ready_state :: "AgentState \<Rightarrow> bool" where
  "ready_state (ReadyToContinue _) = True"
| "ready_state _ = False"

definition core_is_ready_to_continue :: "AgentCoreLoop \<Rightarrow> bool" where
  "core_is_ready_to_continue l \<longleftrightarrow> ready_state (cl_state l)"

definition core_drain_actions :: "AgentCoreLoop \<Rightarrow> AgentAction list \<times> AgentCoreLoop" where
  "core_drain_actions l = (cl_action_outbox l, l\<lparr>cl_action_outbox := []\<rparr>)"

definition core_drain_transcript_items :: "AgentCoreLoop \<Rightarrow> TranscriptItem list \<times> AgentCoreLoop" where
  "core_drain_transcript_items l =
     (cl_transcript_item_outbox l, l\<lparr>cl_transcript_item_outbox := []\<rparr>)"

definition core_drain_pending_inputs :: "AgentCoreLoop \<Rightarrow> AgentInput list \<times> AgentCoreLoop" where
  "core_drain_pending_inputs l =
     (let (inputs, m) = drain_pending_inputs (cl_mailbox l) in (inputs, l\<lparr>cl_mailbox := m\<rparr>))"

definition started_turn_id :: "TranscriptItem list \<Rightarrow> TurnId option" where
  "started_turn_id items =
     find_map (\<lambda>item. case item of TurnStarted t \<Rightarrow> Some t | _ \<Rightarrow> None) items"

text \<open>The body of the loop of \<open>drive\<close>; the flag says whether the loop goes on.\<close>

definition drive_iteration :: "AgentCoreLoop \<Rightarrow> AgentCoreLoop \<times> bool" where
  "drive_iteration l =
     (let next_turn_id = TurnId_next (cl_last_turn_id l)
      in case next_event (cl_mailbox l) (cl_state l) next_turn_id of
           (None, m) \<Rightarrow> (l\<lparr>cl_mailbox := m\<rparr>, False)
         | (Some event, m) \<Rightarrow>
             (let (s, nxt, items, actions) = step (cl_state l) event (cl_next_action_id l);
                  l1 = l\<lparr>cl_mailbox := m, cl_state := s, cl_next_action_id := nxt\<rparr>
              in if items = [] \<and> actions = [] then (l1, True)
                 else
                   let l2 = (case started_turn_id items of
                               Some turn_id \<Rightarrow> l1\<lparr>cl_last_turn_id := turn_id\<rparr>
                             | None \<Rightarrow> l1);
                       l3 = l2\<lparr>cl_transcript_item_outbox := cl_transcript_item_outbox l2 @ items,
                               cl_action_outbox := cl_action_outbox l2 @ actions\<rparr>
                   in (l3, \<not> core_is_ready_to_continue l3)))"

definition loop_measure :: "AgentCoreLoop \<Rightarrow> nat" where
  "loop_measure l = 2 * mailbox_size (cl_mailbox l) + (if ready_state (cl_state l) then 1 else 0)"

lemma drive_iteration_decreases:
  assumes "drive_iteration l = (l', True)"
  shows "loop_measure l' < loop_measure l"
proof -
  obtain e m where ev: "next_event (cl_mailbox l) (cl_state l) (TurnId_next (cl_last_turn_id l)) = (Some e, m)"
    using assms
    by (cases "next_event (cl_mailbox l) (cl_state l) (TurnId_next (cl_last_turn_id l))")
      (auto simp: drive_iteration_def split: option.splits)
  obtain s nxt items actions where
    st: "step (cl_state l) e (cl_next_action_id l) = (s, nxt, items, actions)"
    by (metis prod_cases4)
  have l': "cl_mailbox l' = m" "cl_state l' = s"
    using assms ev st by (auto simp: drive_iteration_def Let_def split: if_splits option.splits)
  from next_event_size [OF ev] show ?thesis
  proof
    assume "mailbox_size m < mailbox_size (cl_mailbox l)"
    with l' show ?thesis by (simp add: loop_measure_def)
  next
    assume "e = EvContinueModel \<and> (\<exists>u. cl_state l = ReadyToContinue u)
      \<and> mailbox_size m \<le> mailbox_size (cl_mailbox l)"
    with st have "ready_state (cl_state l)" "\<not> ready_state s" "mailbox_size m \<le> mailbox_size (cl_mailbox l)"
      by (auto simp: ActionId_take_next_def)
    with l' show ?thesis by (simp add: loop_measure_def)
  qed
qed

function drive :: "AgentCoreLoop \<Rightarrow> AgentCoreLoop" where
  "drive l = (let (l', go_on) = drive_iteration l in if go_on then drive l' else l')"
  by pat_completeness auto
termination
  by (relation "measure loop_measure") (auto dest: sym intro: drive_iteration_decreases)

declare drive.simps [simp del]

section \<open>Rules for driving\<close>

lemma drive_invariant:
  assumes "\<And>l. P l \<Longrightarrow> P (fst (drive_iteration l))" and "P l"
  shows "P (drive l)"
  using assms(2)
proof (induction l rule: drive.induct)
  case (1 l)
  obtain l' c where it: "drive_iteration l = (l', c)" by (cases "drive_iteration l")
  with assms(1) [OF "1.prems"] have "P l'" by simp
  with 1(1) [OF it [symmetric] refl] it show ?case by (cases c) (simp_all add: drive.simps [of l])
qed

lemma drive_relation:
  assumes step: "\<And>k. Q l k \<Longrightarrow> Q l (fst (drive_iteration k))" and "Q l l"
  shows "Q l (drive l)"
  using drive_invariant [of "Q l" l] assms by blast

text \<open>The state in which the loop stops.\<close>

lemma drive_stops:
  "\<exists>k. drive_iteration k = (drive l, False)"
proof (induction l rule: drive.induct)
  case (1 l)
  obtain l' c where it: "drive_iteration l = (l', c)" by (cases "drive_iteration l")
  with 1 [OF it [symmetric] refl] show ?case by (cases c) (auto simp: drive.simps [of l])
qed

text \<open>One iteration, by the event it delivers.\<close>

lemma drive_iteration_cases:
  obtains (quiet) m where "next_event (cl_mailbox l) (cl_state l) (TurnId_next (cl_last_turn_id l)) = (None, m)"
      and "drive_iteration l = (l\<lparr>cl_mailbox := m\<rparr>, False)"
  | (event) e m s nxt items actions where
      "next_event (cl_mailbox l) (cl_state l) (TurnId_next (cl_last_turn_id l)) = (Some e, m)"
      and "step (cl_state l) e (cl_next_action_id l) = (s, nxt, items, actions)"
      and "drive_iteration l =
        (l\<lparr>cl_mailbox := m, cl_state := s, cl_next_action_id := nxt,
           cl_last_turn_id := (case started_turn_id items of Some t \<Rightarrow> t | None \<Rightarrow> cl_last_turn_id l),
           cl_transcript_item_outbox := cl_transcript_item_outbox l @ items,
           cl_action_outbox := cl_action_outbox l @ actions\<rparr>,
         items = [] \<and> actions = [] \<or> \<not> ready_state s)"
proof -
  obtain e m where ev: "next_event (cl_mailbox l) (cl_state l) (TurnId_next (cl_last_turn_id l)) = (e, m)"
    by (cases "next_event (cl_mailbox l) (cl_state l) (TurnId_next (cl_last_turn_id l))")
  show ?thesis
  proof (cases e)
    case None
    with ev show ?thesis by (intro quiet) (auto simp: drive_iteration_def)
  next
    case (Some event)
    obtain s nxt items actions where
      st: "step (cl_state l) event (cl_next_action_id l) = (s, nxt, items, actions)"
      by (metis prod_cases4)
    show ?thesis
    proof (rule that(2))
      show "next_event (cl_mailbox l) (cl_state l) (TurnId_next (cl_last_turn_id l)) = (Some event, m)"
        using ev Some by simp
      show "step (cl_state l) event (cl_next_action_id l) = (s, nxt, items, actions)" by (rule st)
      show "drive_iteration l =
        (l\<lparr>cl_mailbox := m, cl_state := s, cl_next_action_id := nxt,
           cl_last_turn_id := (case started_turn_id items of Some t \<Rightarrow> t | None \<Rightarrow> cl_last_turn_id l),
           cl_transcript_item_outbox := cl_transcript_item_outbox l @ items,
           cl_action_outbox := cl_action_outbox l @ actions\<rparr>,
         items = [] \<and> actions = [] \<or> \<not> ready_state s)"
        using ev Some st
        by (auto simp: drive_iteration_def Let_def started_turn_id_def core_is_ready_to_continue_def
            split: option.splits)
    qed
  qed
qed

section \<open>The loop follows the transcript protocol\<close>

lemma started_turn_id_opens:
  "started_turn_id items = (case concat (map item_opens items) of [] \<Rightarrow> None | t # ts \<Rightarrow> Some t)"
proof (induction items)
  case (Cons it items)
  then show ?case by (cases it) (auto simp: started_turn_id_def)
qed (simp add: started_turn_id_def)

lemma flush_results_items:
  "flush_results tools i = (tools', i', items) \<Longrightarrow> \<exists>rs. items = map ToolResultItem rs"
proof (induction tools i arbitrary: tools' i' items rule: flush_results.induct)
  case (1 tools i)
  show ?case
  proof (cases "i < length tools \<and> rt_result (tools ! i) \<noteq> None")
    case True
    then obtain r where i: "i < length tools" and r: "rt_result (tools ! i) = Some r" by auto
    obtain ts j its where f: "flush_results (tools[i := (tools ! i)\<lparr>rt_result := None\<rparr>]) (Suc i) = (ts, j, its)"
      by (metis prod_cases3)
    from 1(1) [OF i r f] obtain rs where "its = map ToolResultItem rs" by blast
    with 1(2) i r f have "items = map ToolResultItem (r # rs)" by (simp add: flush_results.simps [of tools i])
    then show ?thesis by blast
  next
    case False
    with 1(2) show ?thesis by (auto simp: flush_results.simps [of tools i] split: if_splits)
  qed
qed

lemma step_opens:
  assumes "step s e nxt = (s', nxt', items, actions)"
  shows "length (concat (map item_opens items)) \<le> 1"
proof (cases e)
  case (EvModelCompleted a t m)
  have none: "concat (map (item_opens \<circ> ToolCallStarted t) cs) = []" for cs by (induction cs) auto
  from EvModelCompleted assms show ?thesis
    by (auto simp: none on_model_completed_def empty_transition_def start_tools_batch Let_def split: if_splits)
next
  case (EvToolCompleted a t r)
  have none: "concat (map (item_opens \<circ> ToolResultItem) rs) = []" for rs by (induction rs) auto
  from EvToolCompleted assms show ?thesis
    by (cases s) (auto simp: none on_tool_completed_eq empty_transition_def Let_def
        dest!: flush_results_items split: option.splits prod.splits)
next
  case EvInterrupt
  have none: "concat (map (item_opens \<circ> (\<lambda>tool. ToolResultItem (closing_result tool))) ts) = []" for ts
    by (induction ts) auto
  from EvInterrupt assms show ?thesis by (cases s) (auto simp: none empty_transition_def)
qed (use assms in \<open>cases s; auto simp: on_model_failed_def empty_transition_def
      ActionId_take_next_def TurnInput_into_transcript_item_def split: if_splits\<close>)+

definition loop_ok :: "AgentCoreLoop \<Rightarrow> phase \<Rightarrow> bool" where
  "loop_ok l p0 \<longleftrightarrow>
     (\<exists>p. transcript_ok p0 (cl_transcript_item_outbox l) = Some p \<and> sim (cl_state l) p
        \<and> phase_turn p = cl_last_turn_id l)
     \<and> state_ok (cl_state l) \<and> mailbox_ok (cl_mailbox l)"

lemma drive_iteration_loop_ok:
  assumes "loop_ok l p0"
  shows "loop_ok (fst (drive_iteration l)) p0"
proof -
  from assms obtain p where p: "transcript_ok p0 (cl_transcript_item_outbox l) = Some p"
    "sim (cl_state l) p" "phase_turn p = cl_last_turn_id l"
    and ok: "state_ok (cl_state l)" "mailbox_ok (cl_mailbox l)"
    by (auto simp: loop_ok_def)
  show ?thesis
  proof (cases rule: drive_iteration_cases [of l])
    case (quiet m)
    with next_event_ok [OF ok(2) quiet(1)] assms show ?thesis by (auto simp: loop_ok_def)
  next
    case (event e m s nxt items actions)
    from next_event_ok [OF ok(2) event(1)] have m: "mailbox_ok m"
      and e: "event_ok (phase_turn p) e" by (auto simp: p(3))
    from step_sim [OF ok(1) p(2) e event(2)] obtain p' where s: "state_ok s"
      and p': "transcript_ok p items = Some p'" "sim s p'" by blast
    obtain os where os: "concat (map item_opens items) = os" by blast
    have "phase_turn p' = (case started_turn_id items of Some t \<Rightarrow> t | None \<Rightarrow> cl_last_turn_id l)"
      using transcript_last_turn [OF p'(1)] step_opens [OF event(2)] p(3)
      unfolding started_turn_id_opens os by (cases os) auto
    with event(3) m s p' accepts_appendI [OF p(1) p'(1)] show ?thesis
      by (auto simp: loop_ok_def)
  qed
qed

lemma drive_loop_ok: "loop_ok l p \<Longrightarrow> loop_ok (drive l) p"
  using drive_invariant [of "\<lambda>l. loop_ok l p"] drive_iteration_loop_ok by blast

text \<open>Every public operation of the core loop, with the transcript items it hands out.\<close>

datatype core_op =
    CoreEnqueue AgentInput
  | CoreDrive
  | CoreDrainItems
  | CoreDrainActions
  | CoreDrainPendingInputs

fun core_op_items :: "AgentCoreLoop \<Rightarrow> core_op \<Rightarrow> AgentCoreLoop \<times> TranscriptItem list" where
  "core_op_items l (CoreEnqueue i) = (core_enqueue_input l i, [])"
| "core_op_items l CoreDrive = (drive l, [])"
| "core_op_items l CoreDrainItems =
     (let (items, l') = core_drain_transcript_items l in (l', items))"
| "core_op_items l CoreDrainActions = (snd (core_drain_actions l), [])"
| "core_op_items l CoreDrainPendingInputs = (snd (core_drain_pending_inputs l), [])"

lemma drain_pending_ok: "mailbox_ok m \<Longrightarrow> mailbox_ok (snd (drain_pending_inputs m))"
  by (simp add: mailbox_ok_def drain_pending_inputs_def)

interpretation core_items: protocol_machine core_op_items turn_protocol loop_ok
proof
  fix l p c
  assume l: "loop_ok l p"
  show "\<exists>p'. transcript_ok p (snd (core_op_items l c)) = Some p' \<and> loop_ok (fst (core_op_items l c)) p'"
  proof (cases c)
    case (CoreEnqueue i)
    with l show ?thesis by (auto simp: loop_ok_def core_enqueue_input_def push_input_ok)
  next
    case CoreDrive
    with l show ?thesis by (auto simp: drive_loop_ok)
  next
    case CoreDrainItems
    with l show ?thesis by (auto simp: loop_ok_def core_drain_transcript_items_def)
  next
    case CoreDrainActions
    with l show ?thesis by (auto simp: loop_ok_def core_drain_actions_def)
  next
    case CoreDrainPendingInputs
    with l show ?thesis
      by (auto simp: loop_ok_def core_drain_pending_inputs_def Let_def drain_pending_ok split_beta)
  qed
qed

lemma loop_ok_new: "loop_ok AgentCoreLoop_new (Quiet TurnId_default)"
  by (simp add: loop_ok_def AgentCoreLoop_new_def mailbox_ok_def Mailbox_default_def)

section \<open>Requested action ids are consecutive\<close>

fun action_protocol :: "ActionId \<Rightarrow> AgentAction \<Rightarrow> ActionId option" where
  "action_protocol n (RequestModel a _) = (if a = n then Some (ActionId (action_id_0 n + 1)) else None)"
| "action_protocol n (RequestTool a _ _) = (if a = n then Some (ActionId (action_id_0 n + 1)) else None)"
| "action_protocol n (CancelTurn _) = Some n"

lemma ids_from_Suc: "ids_from a (Suc n) = a # ids_from (ActionId (action_id_0 a + 1)) n"
proof -
  have "[0..<Suc n] = 0 # map Suc [0..<n]" by (simp add: upt_conv_Cons map_Suc_upt del: upt_Suc)
  then show ?thesis by (simp add: ids_from_def o_def algebra_simps)
qed

lemma action_protocol_ids:
  "accepts action_protocol n acts = Some n' \<longleftrightarrow>
     requested_ids acts = ids_from n (length (requested_ids acts))
     \<and> n' = ActionId (action_id_0 n + of_nat (length (requested_ids acts)))"
proof (induction acts arbitrary: n)
  case (Cons act acts)
  show ?case
  proof (cases act)
    case (CancelTurn t)
    with Cons show ?thesis by simp
  qed (auto simp: Cons ids_from_Suc algebra_simps)
qed auto

definition loop_ids :: "AgentCoreLoop \<Rightarrow> ActionId \<Rightarrow> bool" where
  "loop_ids l n \<longleftrightarrow> accepts action_protocol n (cl_action_outbox l) = Some (cl_next_action_id l)"

lemma drive_iteration_loop_ids:
  assumes "loop_ids l n"
  shows "loop_ids (fst (drive_iteration l)) n"
proof (cases rule: drive_iteration_cases [of l])
  case (quiet m)
  with assms show ?thesis by (simp add: loop_ids_def)
next
  case (event e m s nxt items actions)
  from step_requested_ids [OF event(2)]
  have "accepts action_protocol (cl_next_action_id l) actions = Some nxt"
    by (simp add: action_protocol_ids)
  with assms event(3) show ?thesis by (auto simp: loop_ids_def intro: accepts_appendI)
qed

fun core_op_actions :: "AgentCoreLoop \<Rightarrow> core_op \<Rightarrow> AgentCoreLoop \<times> AgentAction list" where
  "core_op_actions l CoreDrainActions = (let (actions, l') = core_drain_actions l in (l', actions))"
| "core_op_actions l c = (fst (core_op_items l c), [])"

interpretation core_actions: protocol_machine core_op_actions action_protocol loop_ids
proof
  fix l n c
  assume l: "loop_ids l n"
  show "\<exists>n'. accepts action_protocol n (snd (core_op_actions l c)) = Some n'
      \<and> loop_ids (fst (core_op_actions l c)) n'"
  proof (cases c)
    case CoreDrive
    with drive_invariant [of "\<lambda>k. loop_ids k n", OF drive_iteration_loop_ids l] show ?thesis by auto
  qed (use l in \<open>auto simp: loop_ids_def core_enqueue_input_def core_drain_transcript_items_def
        core_drain_actions_def core_drain_pending_inputs_def split_beta Let_def\<close>)
qed

section \<open>Quiescence, interrupts, conservation of inputs\<close>

lemma drive_quiescent:
  "core_is_ready_to_continue (drive l)
   \<or> mb_notifications (cl_mailbox (drive l)) = [] \<and> \<not> mb_interrupt_requested (cl_mailbox (drive l))
     \<and> (core_is_idle (drive l) \<longrightarrow>
          mb_steer (cl_mailbox (drive l)) = [] \<and> mb_follow_up (cl_mailbox (drive l)) = []
          \<and> mb_daemon_observations (cl_mailbox (drive l)) = [])"
proof -
  obtain k where k: "drive_iteration k = (drive l, False)" using drive_stops by blast
  show ?thesis
  proof (cases rule: drive_iteration_cases [of k])
    case (quiet m)
    with k next_event_None [OF quiet(1)] have d: "drive l = k\<lparr>cl_mailbox := m\<rparr>" by simp
    from next_event_None [OF quiet(1)] show ?thesis by (auto simp: d core_is_idle_def)
  next
    case (event e m s nxt items actions)
    have "drive l = fst (drive_iteration k)" "\<not> snd (drive_iteration k)" using k by simp_all
    then have "ready_state (cl_state (drive l))" by (simp add: event(3))
    then show ?thesis by (simp add: core_is_ready_to_continue_def)
  qed
qed

lemma drive_outbox_grows:
  "\<exists>items actions. cl_transcript_item_outbox (drive l) = cl_transcript_item_outbox l @ items
     \<and> cl_action_outbox (drive l) = cl_action_outbox l @ actions"
proof (rule drive_relation [where Q = "\<lambda>l k. \<exists>items actions.
    cl_transcript_item_outbox k = cl_transcript_item_outbox l @ items
    \<and> cl_action_outbox k = cl_action_outbox l @ actions"])
  fix k :: AgentCoreLoop
  assume "\<exists>items actions. cl_transcript_item_outbox k = cl_transcript_item_outbox l @ items
      \<and> cl_action_outbox k = cl_action_outbox l @ actions"
  then show "\<exists>items actions.
      cl_transcript_item_outbox (fst (drive_iteration k)) = cl_transcript_item_outbox l @ items
      \<and> cl_action_outbox (fst (drive_iteration k)) = cl_action_outbox l @ actions"
    by (cases rule: drive_iteration_cases [of k]) auto
qed simp

lemma interrupt_handled_first:
  assumes "cl_state l \<noteq> Idle"
    and "on_interrupt (cl_state l) (cl_next_action_id l) = (s, nxt, items, actions)"
  shows "\<exists>more_items more_actions.
     cl_transcript_item_outbox (drive (core_enqueue_input l Interrupt))
       = cl_transcript_item_outbox l @ items @ more_items
     \<and> cl_action_outbox (drive (core_enqueue_input l Interrupt))
       = cl_action_outbox l @ actions @ more_actions"
proof -
  let ?l = "core_enqueue_input l Interrupt"
  have ev: "next_event (cl_mailbox ?l) (cl_state ?l) (TurnId_next (cl_last_turn_id ?l))
      = (Some EvInterrupt, (cl_mailbox ?l)\<lparr>mb_interrupt_requested := False\<rparr>)"
    using assms(1)
    by (cases "cl_state l") (auto simp: core_enqueue_input_def next_event_def request_interrupt_def)
  have "s = Idle" using assms(2) by (cases "cl_state l") (auto simp: empty_transition_def)
  obtain l' c where it: "drive_iteration ?l = (l', c)" by (cases "drive_iteration ?l")
  have l': "cl_transcript_item_outbox l' = cl_transcript_item_outbox l @ items"
    "cl_action_outbox l' = cl_action_outbox l @ actions" and c: "c"
  proof -
    show "cl_transcript_item_outbox l' = cl_transcript_item_outbox l @ items"
      "cl_action_outbox l' = cl_action_outbox l @ actions" c
      using it ev assms(2) \<open>s = Idle\<close>
      by (cases rule: drive_iteration_cases [of ?l]; auto simp: core_enqueue_input_def)+
  qed
  then have "drive ?l = drive l'" using it by (simp add: drive.simps [of ?l])
  with l' drive_outbox_grows [of l'] show ?thesis by (metis append.assoc)
qed

fun is_input_item :: "TranscriptItem \<Rightarrow> bool" where
  "is_input_item (UserMessageItem _) = True"
| "is_input_item (DaemonToolObservationItem _) = True"
| "is_input_item _ = False"

definition items_inputs :: "TranscriptItem list \<Rightarrow> TranscriptItem multiset" where
  "items_inputs items = filter_mset is_input_item (mset items)"

lemma items_inputs_simps [simp]:
  "items_inputs [] = {#}"
  "items_inputs (it # items) = (if is_input_item it then {# it #} else {#}) + items_inputs items"
  "items_inputs (xs @ ys) = items_inputs xs + items_inputs ys"
  by (simp_all add: items_inputs_def)

lemma items_inputs_no: "list_all (\<lambda>it. \<not> is_input_item it) items \<Longrightarrow> items_inputs items = {#}"
  by (induction items) auto

lemma step_inputs:
  assumes "event_fits s e" and "step s e nxt = (s', nxt', items, actions)"
  shows "items_inputs items = event_inputs e"
proof (cases e)
  case (EvModelCompleted a t m)
  have "items_inputs (map (ToolCallStarted t) cs) = {#}" for cs by (rule items_inputs_no) (induction cs, auto)
  with EvModelCompleted assms show ?thesis
    by (auto simp: on_model_completed_def empty_transition_def start_tools_batch Let_def split: if_splits)
next
  case (EvToolCompleted a t r)
  have none: "items_inputs (map ToolResultItem rs) = {#}" for rs by (induction rs) auto
  from EvToolCompleted assms show ?thesis
    by (cases s) (auto simp: none on_tool_completed_eq empty_transition_def Let_def
        dest!: flush_results_items split: option.splits prod.splits)
next
  case EvInterrupt
  have "items_inputs (map (\<lambda>tool. ToolResultItem (closing_result tool)) ts) = {#}" for ts
    by (rule items_inputs_no) (induction ts, auto)
  with EvInterrupt assms show ?thesis by (cases s) (auto simp: empty_transition_def)
qed (use assms in \<open>cases s; auto simp: on_model_failed_def empty_transition_def
      ActionId_take_next_def TurnInput_into_transcript_item_def split: if_splits\<close>)+

definition loop_inputs :: "AgentCoreLoop \<Rightarrow> TranscriptItem multiset" where
  "loop_inputs l = mailbox_inputs (cl_mailbox l) + items_inputs (cl_transcript_item_outbox l)"

lemma drive_iteration_inputs:
  assumes "mailbox_ok (cl_mailbox l)"
  shows "mailbox_ok (cl_mailbox (fst (drive_iteration l)))
     \<and> loop_inputs (fst (drive_iteration l)) = loop_inputs l"
proof (cases rule: drive_iteration_cases [of l])
  case (quiet m)
  with next_event_ok [OF assms quiet(1)] next_event_inputs [OF assms quiet(1)] show ?thesis
    by (simp add: loop_inputs_def)
next
  case (event e m s nxt items actions)
  with next_event_ok [OF assms event(1)] have "mailbox_ok m" "event_fits (cl_state l) e" by auto
  with event step_inputs [OF _ event(2)] next_event_inputs [OF assms event(1)] show ?thesis
    by (auto simp: loop_inputs_def)
qed

lemma drive_inputs:
  assumes "mailbox_ok (cl_mailbox l)"
  shows "loop_inputs (drive l) = loop_inputs l"
  using drive_invariant [of "\<lambda>k. mailbox_ok (cl_mailbox k) \<and> loop_inputs k = loop_inputs l" l]
    drive_iteration_inputs assms by metis

text \<open>
  An interrupt comes before everything queued: what it writes to the transcript and
  the actions it emits are the first outputs of the drive that follows.
\<close>

lemma interrupt_comes_first:
  assumes "cl_state l \<noteq> Idle"
    and "on_interrupt (cl_state l) (cl_next_action_id l) = (s, nxt, items, actions)"
  shows "\<exists>later_items later_actions.
     cl_transcript_item_outbox (drive (core_enqueue_input l Interrupt))
       = cl_transcript_item_outbox l @ items @ later_items
     \<and> cl_action_outbox (drive (core_enqueue_input l Interrupt))
       = cl_action_outbox l @ actions @ later_actions"
  using interrupt_handled_first [OF assms] .

text \<open>
  Driving stops only with nothing left to do: the loop rests before it continues a
  turn by itself, or no completion and no interrupt is queued and the loop is idle
  without any input, or it waits for a model reply or for tools.
\<close>

lemma drive_reaches_quiescence:
  "core_is_ready_to_continue (drive l)
   \<or> mb_notifications (cl_mailbox (drive l)) = [] \<and> \<not> mb_interrupt_requested (cl_mailbox (drive l))
     \<and> (if core_is_idle (drive l)
        then mb_steer (cl_mailbox (drive l)) = [] \<and> mb_follow_up (cl_mailbox (drive l)) = []
          \<and> mb_daemon_observations (cl_mailbox (drive l)) = []
        else \<exists>t. (\<exists>a. cl_state (drive l) = RunningModel t a) \<or> (\<exists>tools i. cl_state (drive l) = RunningTools t tools i))"
  using drive_quiescent [of l]
  by (cases "cl_state (drive l)") (auto simp: core_is_idle_def core_is_ready_to_continue_def)

text \<open>
  The turns a core loop opens are numbered consecutively from 1, and the model and tool
  requests it hands out carry consecutive action ids, so that no id is used twice within
  2^64 requests.
\<close>

lemma core_ids_consecutive:
  "concat (map item_opens (snd (run_ops core_op_items AgentCoreLoop_new ops))) =
     turns_after TurnId_default (length (concat (map item_opens (snd (run_ops core_op_items AgentCoreLoop_new ops)))))
   \<and> requested_ids (snd (run_ops core_op_actions AgentCoreLoop_new ops)) =
     ids_from ActionId_first (length (requested_ids (snd (run_ops core_op_actions AgentCoreLoop_new ops))))"
proof -
  obtain p where p: "transcript_ok (Quiet TurnId_default) (snd (run_ops core_op_items AgentCoreLoop_new ops)) = Some p"
    using core_items.run_sim [OF loop_ok_new] by blast
  have "loop_ids AgentCoreLoop_new ActionId_first" by (simp add: loop_ids_def AgentCoreLoop_new_def)
  from core_actions.run_sim [OF this] transcript_opens [OF p] show ?thesis by (auto simp: action_protocol_ids)
qed

text \<open>
  In those items every tool call is started in the order the replies list the calls,
  and the results answer the calls in that order: what has no result yet is a suffix.
\<close>

lemma core_results_in_order:
  "\<exists>unstarted waiting.
     concat (map item_calls (snd (run_ops core_op_items AgentCoreLoop_new ops)))
       = concat (map item_starts (snd (run_ops core_op_items AgentCoreLoop_new ops))) @ unstarted
   \<and> map call_key (concat (map item_calls (snd (run_ops core_op_items AgentCoreLoop_new ops))))
       = map result_key (concat (map item_results (snd (run_ops core_op_items AgentCoreLoop_new ops))))
         @ map call_key waiting"
proof -
  obtain p where p: "transcript_ok (Quiet TurnId_default) (snd (run_ops core_op_items AgentCoreLoop_new ops)) = Some p"
    using core_items.run_sim [OF loop_ok_new] by blast
  from transcript_unstarted [OF p] transcript_waiting [OF p] show ?thesis by auto
qed

end
