(* ===== verification/Model_Context.thy ===== *)
theory Model_Context
  imports Core_Loop
begin

text \<open>
  The model context (\<open>agent-session/src/model_context.rs\<close>): the items of one transcript
  path with their provider sidecars, and the repair of a turn that was left open. The
  slices of \<open>open_turn_slices\<close> and \<open>split_before_open_turn\<close> are in range because
  every constructor keeps one sidecar per item (\<open>context_ok\<close> below).
\<close>

record ModelContextEntry =
  mce_item :: TranscriptItem
  mce_provider_replay :: "ProviderReplayItem list"

record ModelContext =
  mc_items :: "TranscriptItem list"
  mc_provider_replay :: "ProviderReplayItem list list"

definition ModelContext_new :: ModelContext where
  "ModelContext_new = \<lparr>mc_items = [], mc_provider_replay = []\<rparr>"

definition from_transcript_items :: "TranscriptItem list \<Rightarrow> ModelContext" where
  "from_transcript_items items =
     \<lparr>mc_items = items, mc_provider_replay = replicate (length items) []\<rparr>"

definition from_entries :: "ModelContextEntry list \<Rightarrow> ModelContext" where
  "from_entries entries =
     \<lparr>mc_items = map mce_item entries, mc_provider_replay = map mce_provider_replay entries\<rparr>"

definition into_entries :: "ModelContext \<Rightarrow> ModelContextEntry list" where
  "into_entries c =
     map (\<lambda>(item, replay). \<lparr>mce_item = item, mce_provider_replay = replay\<rparr>)
       (zip (mc_items c) (mc_provider_replay c))"

definition is_turn_boundary_items :: "TranscriptItem list \<Rightarrow> bool" where
  "is_turn_boundary_items items =
     (if items = [] then True
      else case last items of
             TurnFinished _ _ \<Rightarrow> True
           | CompactionSummaryItem _ \<Rightarrow> True
           | _ \<Rightarrow> False)"

definition context_is_turn_boundary :: "ModelContext \<Rightarrow> bool" where
  "context_is_turn_boundary c = is_turn_boundary_items (mc_items c)"

definition last_turn_id :: "ModelContext \<Rightarrow> TurnId" where
  "last_turn_id c =
     (case find_map TranscriptItem_turn_id (rev (mc_items c)) of Some t \<Rightarrow> t | None \<Rightarrow> TurnId_default)"

text \<open>The backward scan: the item list is reversed, so the rest's length is the index.\<close>

fun scan_open_turn :: "bool \<Rightarrow> TranscriptItem list \<Rightarrow> (TurnId \<times> nat) option" where
  "scan_open_turn saw_open_tail [] = None"
| "scan_open_turn saw_open_tail (TurnStarted turn_id # rest) = Some (turn_id, length rest)"
| "scan_open_turn saw_open_tail (TurnFinished _ _ # rest) = None"
| "scan_open_turn saw_open_tail (CompactionSummaryItem summary # rest) =
     (if saw_open_tail then Some (cs_last_turn_id summary, length rest) else None)"
| "scan_open_turn saw_open_tail (_ # rest) = scan_open_turn True rest"

definition open_turn_start :: "TranscriptItem list \<Rightarrow> (TurnId \<times> nat) option" where
  "open_turn_start items = scan_open_turn False (rev items)"

definition open_turn_slices ::
  "ModelContext \<Rightarrow> (TranscriptItem list \<times> ProviderReplayItem list list) option" where
  "open_turn_slices c =
     (case open_turn_start (mc_items c) of
        None \<Rightarrow> None
      | Some (_, turn_start) \<Rightarrow>
          Some (drop turn_start (mc_items c), drop turn_start (mc_provider_replay c)))"

definition open_turn_entries ::
  "ModelContext \<Rightarrow> (TranscriptItem \<times> ProviderReplayItem list) list option" where
  "open_turn_entries c = map_option (\<lambda>(items, replay). zip items replay) (open_turn_slices c)"

definition split_before_open_turn :: "ModelContext \<Rightarrow> (ModelContext \<times> ModelContextEntry list) option" where
  "split_before_open_turn c =
     (case open_turn_slices c of
        None \<Rightarrow> None
      | Some (open_items, open_replay) \<Rightarrow>
          let turn_start = length (mc_items c) - length open_items
          in Some (\<lparr>mc_items = take turn_start (mc_items c),
                    mc_provider_replay = take turn_start (mc_provider_replay c)\<rparr>,
                   map (\<lambda>(item, replay). \<lparr>mce_item = item, mce_provider_replay = replay\<rparr>)
                     (zip open_items open_replay)))"

text \<open>The loop of \<open>complete_open_tool_calls\<close>, as the list of the items it pushes.\<close>

fun complete_calls ::
  "TurnId \<Rightarrow> ToolCall list \<Rightarrow> ToolCall list \<Rightarrow> ToolResultMessage list \<Rightarrow> TranscriptItem list" where
  "complete_calls turn_id [] started completed = []"
| "complete_calls turn_id (tool_call # calls) started completed =
     (let (new_starts, started') =
            (case position (\<lambda>s. tc_id s = tc_id tool_call \<and> tc_tool_name s = tc_tool_name tool_call) started of
               Some i \<Rightarrow> ([], remove_at i started)
             | None \<Rightarrow> ([ToolCallStarted turn_id tool_call], started));
          (new_results, completed') =
            (case position (\<lambda>r. answers r tool_call) completed of
               Some i \<Rightarrow> ([], remove_at i completed)
             | None \<Rightarrow> ([ToolResultItem (ToolResultMessage_crashed (tc_id tool_call) (tc_tool_name tool_call))], completed))
      in new_starts @ new_results @ complete_calls turn_id calls started' completed')"

definition complete_open_tool_calls :: "TranscriptItem list \<Rightarrow> nat \<Rightarrow> TurnId \<Rightarrow> TranscriptItem list" where
  "complete_open_tool_calls items turn_start turn_id =
     (let turn = drop turn_start items
      in items @ complete_calls turn_id (concat (map item_calls turn)) (concat (map item_starts turn))
                   (concat (map item_results turn)))"

definition open_turn_ready_to_continue_items :: "TranscriptItem list \<Rightarrow> TurnId option" where
  "open_turn_ready_to_continue_items items =
     (case open_turn_start items of
        None \<Rightarrow> None
      | Some (turn_id, turn_start) \<Rightarrow>
          let turn = drop turn_start items;
              tool_calls = concat (map item_calls turn);
              tool_results = concat (map item_results turn)
          in if tool_calls = [] then None
             else if list_all (\<lambda>c. list_ex (\<lambda>r. answers r c) tool_results) tool_calls
               then Some turn_id else None)"

definition open_turn_ready_to_continue :: "ModelContext \<Rightarrow> TurnId option" where
  "open_turn_ready_to_continue c = open_turn_ready_to_continue_items (mc_items c)"

definition close_open_turn_items :: "TranscriptItem list \<Rightarrow> TranscriptItem list" where
  "close_open_turn_items items =
     (case open_turn_start items of
        None \<Rightarrow> items
      | Some (turn_id, turn_start) \<Rightarrow>
          let items' = complete_open_tool_calls items turn_start turn_id
          in if open_turn_ready_to_continue_items items' \<noteq> None then items'
             else items' @ [TurnFinished turn_id CrashedOutcome])"

definition close_open_turn_items_to_boundary :: "TranscriptItem list \<Rightarrow> TurnOutcome \<Rightarrow> TranscriptItem list" where
  "close_open_turn_items_to_boundary items out =
     (case open_turn_start items of
        None \<Rightarrow> items
      | Some (turn_id, turn_start) \<Rightarrow>
          let items' = complete_open_tool_calls items turn_start turn_id
          in if is_turn_boundary_items items' then items' else items' @ [TurnFinished turn_id out])"

text \<open>\<open>Vec::resize_with(n, Vec::new)\<close>.\<close>

definition resize_with_empty :: "nat \<Rightarrow> 'a list list \<Rightarrow> 'a list list" where
  "resize_with_empty n xs = take n xs @ replicate (n - length xs) []"

definition close_open_turn :: "ModelContext \<Rightarrow> ModelContext" where
  "close_open_turn c =
     (let items = close_open_turn_items (mc_items c)
      in \<lparr>mc_items = items, mc_provider_replay = resize_with_empty (length items) (mc_provider_replay c)\<rparr>)"

definition close_open_turn_to_boundary :: "ModelContext \<Rightarrow> ModelContext" where
  "close_open_turn_to_boundary c =
     (let items = close_open_turn_items_to_boundary (mc_items c) CrashedOutcome
      in \<lparr>mc_items = items, mc_provider_replay = resize_with_empty (length items) (mc_provider_replay c)\<rparr>)"

definition close_open_turn_to_interrupted_boundary :: "ModelContext \<Rightarrow> ModelContext" where
  "close_open_turn_to_interrupted_boundary c =
     (let items = close_open_turn_items_to_boundary (mc_items c) InterruptedOutcome
      in \<lparr>mc_items = items, mc_provider_replay = resize_with_empty (length items) (mc_provider_replay c)\<rparr>)"

section \<open>One sidecar per item\<close>

definition context_ok :: "ModelContext \<Rightarrow> bool" where
  "context_ok c \<longleftrightarrow> length (mc_provider_replay c) = length (mc_items c)"

lemma resize_with_empty_length [simp]: "length (resize_with_empty n xs) = n"
  by (simp add: resize_with_empty_def)

lemma context_ok_constructors:
  "context_ok ModelContext_new" "context_ok (from_transcript_items items)"
  "context_ok (from_entries entries)" "context_ok (close_open_turn c)"
  "context_ok (close_open_turn_to_boundary c)" "context_ok (close_open_turn_to_interrupted_boundary c)"
  by (simp_all add: context_ok_def ModelContext_new_def from_transcript_items_def from_entries_def
      close_open_turn_def close_open_turn_to_boundary_def close_open_turn_to_interrupted_boundary_def
      Let_def)

lemma from_into_entries: "context_ok c \<Longrightarrow> from_entries (into_entries c) = c"
  by (simp add: context_ok_def from_entries_def into_entries_def o_def split_def)

lemma into_from_entries: "into_entries (from_entries es) = es"
  by (auto simp: from_entries_def into_entries_def zip_map_map zip_same_conv_map o_def intro!: map_idI)

section \<open>The repaired turn\<close>

lemma scan_open_turn_bound: "scan_open_turn b items = Some (t, i) \<Longrightarrow> i < length items"
  by (induction b items rule: scan_open_turn.induct) (auto split: if_splits)

lemma open_turn_start_bound: "open_turn_start items = Some (t, i) \<Longrightarrow> i < length items"
  using scan_open_turn_bound [of False "rev items"] by (simp add: open_turn_start_def)

lemma open_turn_start_not_boundary:
  assumes "open_turn_start items = Some (t, i)"
  shows "\<not> is_turn_boundary_items items"
proof (cases items rule: rev_cases)
  case Nil
  with assms show ?thesis by (simp add: open_turn_start_def)
next
  case (snoc xs x)
  with assms show ?thesis
    by (cases x) (auto simp: open_turn_start_def is_turn_boundary_items_def)
qed

lemma complete_calls_no_boundary:
  "it \<in> set (complete_calls t calls started completed) \<Longrightarrow>
     (\<exists>c. it = ToolCallStarted t c) \<or> (\<exists>r. it = ToolResultItem r)"
proof (induction calls arbitrary: started completed)
  case (Cons c calls)
  then show ?case by (auto simp: Let_def split: option.splits)
qed simp

lemma boundary_append_iff:
  "is_turn_boundary_items (items @ complete_calls t calls started completed) \<longleftrightarrow>
     is_turn_boundary_items items \<and> complete_calls t calls started completed = []"
proof (cases "complete_calls t calls started completed = []")
  case False
  then have "last (complete_calls t calls started completed) \<in> set (complete_calls t calls started completed)"
    by simp
  from complete_calls_no_boundary [OF this] False show ?thesis
    by (auto simp: is_turn_boundary_items_def)
qed simp

lemma close_to_boundary_eq:
  assumes "open_turn_start items = Some (t, i)"
  shows "close_open_turn_items_to_boundary items out
      = complete_open_tool_calls items i t @ [TurnFinished t out]"
  using assms open_turn_start_not_boundary [OF assms]
  by (simp add: close_open_turn_items_to_boundary_def complete_open_tool_calls_def Let_def
      boundary_append_iff)

lemma close_to_boundary_prefix: "\<exists>suffix. close_open_turn_items_to_boundary items out = items @ suffix"
  by (cases "open_turn_start items")
    (auto simp: close_to_boundary_eq complete_open_tool_calls_def Let_def
      close_open_turn_items_to_boundary_def)

lemma close_to_boundary_last:
  "open_turn_start items \<noteq> None \<Longrightarrow> is_turn_boundary_items (close_open_turn_items_to_boundary items out)"
  by (auto simp: close_to_boundary_eq is_turn_boundary_items_def)

lemma open_turn_start_finished [simp]: "open_turn_start (items @ [TurnFinished t out]) = None"
  by (simp add: open_turn_start_def)

lemma close_to_boundary_idem:
  "close_open_turn_items_to_boundary (close_open_turn_items_to_boundary items out) out'
     = close_open_turn_items_to_boundary items out"
proof (cases "open_turn_start items")
  case None
  then show ?thesis by (simp add: close_open_turn_items_to_boundary_def)
next
  case (Some a)
  obtain t i where "open_turn_start items = Some (t, i)" using Some by (cases a) auto
  then show ?thesis
    by (simp add: close_to_boundary_eq) (simp add: close_open_turn_items_to_boundary_def)
qed

text \<open>Every call of the repaired turn has a result: counted by id and tool name.\<close>

lemma mset_remove_at_key:
  "position (\<lambda>x. f x = k) xs = Some i \<Longrightarrow> mset (map f xs) = add_mset k (mset (map f (remove_at i xs)))"
proof (induction xs arbitrary: i)
  case (Cons x xs)
  then show ?case by (cases "f x = k") auto
qed simp

lemma complete_calls_results_Cons:
  "\<exists>started'. concat (map item_results (complete_calls t (c # calls) started completed)) =
     (case position (\<lambda>r. result_key r = call_key c) completed of
        None \<Rightarrow> ToolResultMessage_crashed (tc_id c) (tc_tool_name c)
                  # concat (map item_results (complete_calls t calls started' completed))
      | Some i \<Rightarrow> concat (map item_results (complete_calls t calls started' (remove_at i completed))))"
proof -
  have "position (\<lambda>r. answers r c) completed = position (\<lambda>r. result_key r = call_key c) completed"
    by (simp add: answers_iff_key)
  then show ?thesis
    by (cases "position (\<lambda>s. tc_id s = tc_id c \<and> tc_tool_name s = tc_tool_name c) started")
      (auto simp: Let_def split: option.splits)
qed

lemma complete_calls_results:
  "mset (map call_key calls) \<subseteq># mset (map result_key (completed
      @ concat (map item_results (complete_calls t calls started completed))))"
proof (induction calls arbitrary: started completed)
  case (Cons c calls)
  obtain st where st: "concat (map item_results (complete_calls t (c # calls) started completed)) =
     (case position (\<lambda>r. result_key r = call_key c) completed of
        None \<Rightarrow> ToolResultMessage_crashed (tc_id c) (tc_tool_name c)
                  # concat (map item_results (complete_calls t calls st completed))
      | Some i \<Rightarrow> concat (map item_results (complete_calls t calls st (remove_at i completed))))"
    using complete_calls_results_Cons by blast
  have key: "result_key (ToolResultMessage_crashed (tc_id c) (tc_tool_name c)) = call_key c"
    by (simp add: result_key_def call_key_def ToolResultMessage_crashed_def)
  show ?case
  proof (cases "position (\<lambda>r. result_key r = call_key c) completed")
    case None
    with Cons [of completed st] show ?thesis
      unfolding map_append mset_append st by (simp add: key)
  next
    case (Some i)
    with Cons [of "remove_at i completed" st] mset_remove_at_key [OF Some] show ?thesis
      unfolding map_append mset_append st by simp
  qed
qed simp

lemma complete_open_results:
  "mset (map call_key (concat (map item_calls (drop i its))))
     \<subseteq># mset (map result_key (concat (map item_results (drop i (complete_open_tool_calls its i t)))))"
proof (cases "i \<le> length its")
  case True
  with complete_calls_results [of "concat (map item_calls (drop i its))" "concat (map item_results (drop i its))" t
      "concat (map item_starts (drop i its))"]
  show ?thesis by (simp add: complete_open_tool_calls_def Let_def)
qed simp

section \<open>Repair of a transcript that follows the protocol\<close>

text \<open>Where the open turn of such a transcript starts.\<close>

fun inner_item :: "TranscriptItem \<Rightarrow> bool" where
  "inner_item (TurnStarted _) = False"
| "inner_item (TurnFinished _ _) = False"
| "inner_item (CompactionSummaryItem _) = False"
| "inner_item _ = True"

lemma scan_open_turn_inner:
  "list_all inner_item suf \<Longrightarrow> scan_open_turn b (suf @ TurnStarted t # rest) = Some (t, length rest)"
proof (induction suf arbitrary: b)
  case (Cons x suf)
  then show ?case by (cases x) auto
qed simp

lemma open_turn_start_inner:
  "list_all inner_item suf \<Longrightarrow> open_turn_start (pre @ TurnStarted t # suf) = Some (t, length pre)"
  by (simp add: open_turn_start_def scan_open_turn_inner list_all_rev)

fun is_quiet :: "phase \<Rightarrow> bool" where
  "is_quiet (Quiet _) = True"
| "is_quiet _ = False"

lemma turn_protocol_open_step:
  assumes "turn_protocol q x = Some p" and "\<not> is_quiet q" and "\<not> is_quiet p"
  shows "inner_item x \<and> phase_turn p = phase_turn q"
  using assms by (induction q x rule: turn_protocol.induct) (auto simp: Let_def split: if_splits)

lemma turn_protocol_from_quiet:
  "turn_protocol (Quiet m) x = Some p \<Longrightarrow> x = TurnStarted (TurnId_next m) \<and> p = Opened (TurnId_next m)"
  by (cases x) (auto split: if_splits)

lemma transcript_open_turn:
  assumes "transcript_ok (Quiet n) its = Some p" and "\<not> is_quiet p"
  shows "\<exists>pre suf m. its = pre @ TurnStarted (phase_turn p) # suf \<and> list_all inner_item suf
     \<and> transcript_ok (Quiet n) pre = Some (Quiet m) \<and> transcript_ok (Opened (phase_turn p)) suf = Some p"
  using assms
proof (induction its arbitrary: p rule: rev_induct)
  case (snoc x its)
  then obtain q where q: "transcript_ok (Quiet n) its = Some q" "turn_protocol q x = Some p"
    by (auto simp: accepts_append split: option.splits)
  show ?case
  proof (cases "is_quiet q")
    case True
    then obtain m where m: "q = Quiet m" by (cases q) auto
    with q(2) have "x = TurnStarted (TurnId_next m)" "p = Opened (TurnId_next m)"
      by (auto dest: turn_protocol_from_quiet)
    with q(1) m show ?thesis by (intro exI [of _ its] exI [of _ "[]"] exI [of _ m]) simp
  next
    case False
    from snoc.IH [OF q(1) False] obtain pre suf m where
      ih: "its = pre @ TurnStarted (phase_turn q) # suf" "list_all inner_item suf"
        "transcript_ok (Quiet n) pre = Some (Quiet m)" "transcript_ok (Opened (phase_turn q)) suf = Some q"
      by blast
    from turn_protocol_open_step [OF q(2) False snoc.prems(2)]
    have "inner_item x" "phase_turn p = phase_turn q" by auto
    with ih q(2) show ?thesis
      by (intro exI [of _ pre] exI [of _ "suf @ [x]"] exI [of _ m]) (auto simp: accepts_append)
  qed
qed simp

text \<open>Phases a transcript can rest in while its turn is open: between two drives of the core.\<close>

fun resting :: "phase \<Rightarrow> bool" where
  "resting (AwaitModel _ _) = True"
| "resting (AwaitResults _ _) = True"
| "resting _ = False"

fun phase_wf :: "phase \<Rightarrow> bool" where
  "phase_wf (Starting _ cs calls) = (cs \<noteq> [] \<and> calls \<noteq> [])"
| "phase_wf (AwaitResults _ cs) = (cs \<noteq> [])"
| "phase_wf _ = True"

lemma turn_protocol_wf: "turn_protocol p x = Some q \<Longrightarrow> phase_wf p \<Longrightarrow> phase_wf q"
  by (induction p x rule: turn_protocol.induct) (auto simp: Let_def split: if_splits)

lemma transcript_wf: "transcript_ok p its = Some q \<Longrightarrow> phase_wf p \<Longrightarrow> phase_wf q"
  by (induction its arbitrary: p) (auto split: option.splits dest: turn_protocol_wf)

definition crashed_items :: "ToolCall list \<Rightarrow> TranscriptItem list" where
  "crashed_items cs = map (\<lambda>c. ToolResultItem (ToolResultMessage_crashed (tc_id c) (tc_tool_name c))) cs"

lemma crashed_items_eq:
  "crashed_items cs = map (\<lambda>(i, n). ToolResultItem (ToolResultMessage_crashed i n)) (map call_key cs)"
  by (simp add: crashed_items_def call_key_def)

lemma crashed_items_key: "map call_key cs = map call_key ds \<Longrightarrow> crashed_items cs = crashed_items ds"
  by (simp only: crashed_items_eq)

lemma complete_calls_conformant:
  "map call_key calls = map result_key completed @ ks \<Longrightarrow>
     complete_calls t calls calls completed = crashed_items (drop (length completed) calls)"
proof (induction calls arbitrary: completed ks)
  case (Cons c calls)
  show ?case
  proof (cases completed)
    case Nil
    with Cons.IH [of "[]" "map call_key calls"] show ?thesis by (simp add: crashed_items_def)
  next
    case (Cons r rs)
    with Cons.prems have "answers r c" "map call_key calls = map result_key rs @ ks"
      by (auto simp: answers_iff_key)
    with Cons.IH [of rs] Cons show ?thesis by simp
  qed
qed (simp add: crashed_items_def)

text \<open>The calls, starts and results of the open turn of a transcript at rest.\<close>

lemma resting_turn:
  assumes tr: "transcript_ok (Quiet n) its = Some p" and rest: "resting p"
  obtains i where "open_turn_start its = Some (phase_turn p, i)"
    and "concat (map item_starts (drop i its)) = concat (map item_calls (drop i its))"
    and "map call_key (concat (map item_calls (drop i its)))
      = map result_key (concat (map item_results (drop i its))) @ map call_key (phase_waiting p)"
proof -
  have "\<not> is_quiet p" using rest by (cases p) auto
  from transcript_open_turn [OF tr this] obtain pre suf m where
    its: "its = pre @ TurnStarted (phase_turn p) # suf" "list_all inner_item suf"
      "transcript_ok (Opened (phase_turn p)) suf = Some p" by blast
  have "phase_unstarted p = []" using rest by (cases p) auto
  with transcript_unstarted [OF its(3)] transcript_waiting [OF its(3)]
  have "concat (map item_starts suf) = concat (map item_calls suf)"
    "map call_key (concat (map item_calls suf))
      = map result_key (concat (map item_results suf)) @ map call_key (phase_waiting p)"
    by auto
  with its open_turn_start_inner [OF its(2)] that show thesis by auto
qed

lemma complete_conformant:
  assumes tr: "transcript_ok (Quiet n) its = Some p" and rest: "resting p"
    and i: "open_turn_start its = Some (t, i)"
  shows "complete_open_tool_calls its i t = its @ crashed_items (phase_waiting p)"
proof -
  obtain j where j: "open_turn_start its = Some (phase_turn p, j)"
    and turn: "concat (map item_starts (drop j its)) = concat (map item_calls (drop j its))"
      "map call_key (concat (map item_calls (drop j its)))
        = map result_key (concat (map item_results (drop j its))) @ map call_key (phase_waiting p)"
    by (rule resting_turn [OF tr rest])
  define calls where "calls = concat (map item_calls (drop j its))"
  define res where "res = concat (map item_results (drop j its))"
  have keys: "map call_key calls = map result_key res @ map call_key (phase_waiting p)"
    using turn(2) unfolding calls_def res_def .
  have "map call_key (drop (length res) calls) = map call_key (phase_waiting p)"
    using arg_cong [OF keys, of "drop (length res)"] by (simp add: drop_map)
  then have "crashed_items (drop (length res) calls) = crashed_items (phase_waiting p)"
    by (rule crashed_items_key)
  with complete_calls_conformant [OF keys, of t] have
    "complete_calls t calls calls res = crashed_items (phase_waiting p)" by (simp only:)
  moreover have "i = j" "t = phase_turn p" using i j by auto
  ultimately show ?thesis
    unfolding complete_open_tool_calls_def Let_def turn(1) calls_def [symmetric] res_def [symmetric]
    by (simp add: turn(1) flip: calls_def res_def)
qed

lemma crashed_accepted:
  assumes "resting p" and "phase_wf p"
  shows "\<exists>again. transcript_ok p (crashed_items (phase_waiting p)) = Some (AwaitModel (phase_turn p) again)"
proof (cases p)
  case (AwaitResults t cs)
  have "list_all2 answers (map (\<lambda>c. ToolResultMessage_crashed (tc_id c) (tc_tool_name c)) cs) cs"
    by (simp add: list_all2_map1 list_all2_same ToolResultMessage_crashed_def)
  from results_accepted [OF this, of t "[]"] AwaitResults assms(2) show ?thesis
    by (intro exI [of _ True]) (simp add: crashed_items_def o_def)
qed (use assms in \<open>auto simp: crashed_items_def\<close>)

lemma close_conformant:
  assumes tr: "transcript_ok (Quiet n) its = Some p" and rest: "resting p"
    and out: "out \<noteq> GracefulOutcome"
  shows "close_open_turn_items_to_boundary its out
      = its @ crashed_items (phase_waiting p) @ [TurnFinished (phase_turn p) out]"
    and "transcript_ok (Quiet n) (close_open_turn_items_to_boundary its out) = Some (Quiet (phase_turn p))"
proof -
  obtain i where i: "open_turn_start its = Some (phase_turn p, i)" by (rule resting_turn [OF tr rest])
  show eq: "close_open_turn_items_to_boundary its out
      = its @ crashed_items (phase_waiting p) @ [TurnFinished (phase_turn p) out]"
    by (simp add: close_to_boundary_eq [OF i] complete_conformant [OF tr rest i])
  have "phase_wf p" using transcript_wf [OF tr] by simp
  from crashed_accepted [OF rest this] tr out show
    "transcript_ok (Quiet n) (close_open_turn_items_to_boundary its out) = Some (Quiet (phase_turn p))"
    by (auto simp: eq accepts_append)
qed

lemma ready_conformant:
  assumes tr: "transcript_ok (Quiet n) its = Some p" and rest: "resting p"
    and i: "open_turn_start its = Some (t, i)"
    and dist: "distinct (map call_key (concat (map item_calls (drop i its))))"
  shows "open_turn_ready_to_continue_items its
    = (if phase_waiting p = [] \<and> concat (map item_calls (drop i its)) \<noteq> [] then Some (phase_turn p) else None)"
proof -
  obtain j where j: "open_turn_start its = Some (phase_turn p, j)"
    and turn: "map call_key (concat (map item_calls (drop j its)))
        = map result_key (concat (map item_results (drop j its))) @ map call_key (phase_waiting p)"
    by (rule resting_turn [OF tr rest])
  define calls where "calls = concat (map item_calls (drop j its))"
  define res where "res = concat (map item_results (drop j its))"
  have keys: "map call_key calls = map result_key res @ map call_key (phase_waiting p)"
    using turn unfolding calls_def res_def .
  have ij: "i = j" "t = phase_turn p" using i j by auto
  have dist': "distinct (map call_key calls)" using dist unfolding ij calls_def .
  have "list_all (\<lambda>c. list_ex (\<lambda>r. answers r c) res) calls \<longleftrightarrow> call_key ` set calls \<subseteq> result_key ` set res"
    unfolding list_all_iff list_ex_iff answers_iff_key image_subset_iff image_iff by metis
  also have "\<dots> \<longleftrightarrow> set (map call_key calls) \<subseteq> set (map result_key res)" by simp
  also have "\<dots> \<longleftrightarrow> phase_waiting p = []"
    using dist' unfolding keys by (cases "phase_waiting p") auto
  finally have ready: "list_all (\<lambda>c. list_ex (\<lambda>r. answers r c) res) calls \<longleftrightarrow> phase_waiting p = []" .
  show ?thesis
    unfolding open_turn_ready_to_continue_items_def j option.case prod.case Let_def ij
      calls_def [symmetric] res_def [symmetric] ready by simp
qed

text \<open>
  Repairing any item list, conforming or not: nothing is removed, an open turn ends
  at a boundary, a second repair changes nothing, and counted by id and tool name every
  call of the repaired turn has a result.
\<close>

lemma close_open_turn_repairs:
  "(\<exists>added. close_open_turn_items_to_boundary its out = its @ added)
   \<and> (open_turn_start its = None \<or> is_turn_boundary_items (close_open_turn_items_to_boundary its out))
   \<and> close_open_turn_items_to_boundary (close_open_turn_items_to_boundary its out) out'
       = close_open_turn_items_to_boundary its out
   \<and> mset (map call_key (concat (map item_calls (drop i its))))
       \<subseteq># mset (map result_key (concat (map item_results (drop i (complete_open_tool_calls its i t)))))"
  using close_to_boundary_prefix close_to_boundary_last close_to_boundary_idem complete_open_results by blast

end
