(* ===== verification/Transcript_Store.thy ===== *)
theory Transcript_Store
  imports Model_Context "HOL-Library.List_Lexorder" "HOL-Library.Char_ord"
begin

text \<open>
  The transcript store (\<open>agent-session/src/transcript_store.rs\<close>) and the stored records
  (\<open>agent-session/src/storage.rs\<close>): an append-only forest of entries with its indexes
  and one active leaf. The two outside sources an append reads, the version 4 UUID and the
  system clock, are the argument \<open>stamp\<close>: what they yield when the store is in a given
  state. The hash maps are maps, the leaf set is a set whose iteration is sorted, and
  the parent walk is a partial function: \<open>None\<close> means that it does not return.
\<close>

record TranscriptStorageNode =
  node_id :: string
  node_parent_id :: "string option"
  node_timestamp_ms :: u64
  node_item :: TranscriptItem
  node_provider_replay :: "ProviderReplayItem list"

record TranscriptStore =
  ts_entries_by_id :: "string \<rightharpoonup> TranscriptStorageNode"
  ts_parent_by_id :: "string \<rightharpoonup> string option"
  ts_children_by_parent :: "string option \<rightharpoonup> string list"
  ts_leaf_ids :: "string set"
  ts_insertion_order :: "string list"
  ts_active_leaf_id :: "string option"

datatype TranscriptStoreError = EntryNotFound | NotTurnBoundary | DuplicateEntry | MissingParent

record StoredTranscriptEntry =
  ste_id :: string
  ste_parent_id :: "string option"
  ste_timestamp_ms :: u64
  ste_item :: TranscriptItem
  ste_provider_replay :: "ProviderReplayItem list"

record StoredSession =
  ss_session_id :: string
  ss_active_leaf_id :: "string option"
  ss_metadata :: "string \<rightharpoonup> string"
  ss_entries :: "StoredTranscriptEntry list"

definition StoredSession_new :: "string \<Rightarrow> StoredSession" where
  "StoredSession_new session_id =
     \<lparr>ss_session_id = session_id, ss_active_leaf_id = None, ss_metadata = Map.empty, ss_entries = []\<rparr>"

definition stored_of_node :: "TranscriptStorageNode \<Rightarrow> StoredTranscriptEntry" where
  "stored_of_node n =
     \<lparr>ste_id = node_id n, ste_parent_id = node_parent_id n, ste_timestamp_ms = node_timestamp_ms n,
      ste_item = node_item n, ste_provider_replay = node_provider_replay n\<rparr>"

definition node_of_stored :: "StoredTranscriptEntry \<Rightarrow> TranscriptStorageNode" where
  "node_of_stored e =
     \<lparr>node_id = ste_id e, node_parent_id = ste_parent_id e, node_timestamp_ms = ste_timestamp_ms e,
      node_item = ste_item e, node_provider_replay = ste_provider_replay e\<rparr>"

definition TranscriptStore_new :: TranscriptStore where
  "TranscriptStore_new =
     \<lparr>ts_entries_by_id = Map.empty, ts_parent_by_id = Map.empty, ts_children_by_parent = Map.empty,
      ts_leaf_ids = {}, ts_insertion_order = [], ts_active_leaf_id = None\<rparr>"

text \<open>
  The clock: milliseconds since the epoch, \<open>None\<close> when the clock is before it.
\<close>

definition now_ms :: "nat option \<Rightarrow> u64" where
  "now_ms duration =
     (case map_option (\<lambda>millis. word_of_int (min (int millis) (2 ^ 64 - 1))) duration of Some t \<Rightarrow> t | None \<Rightarrow> 0)"

type_synonym stamp = "TranscriptStore \<Rightarrow> string \<times> nat option"

definition entries :: "TranscriptStore \<Rightarrow> TranscriptStorageNode list" where
  "entries s = List.map_filter (ts_entries_by_id s) (ts_insertion_order s)"

definition all_leaf_ids :: "TranscriptStore \<Rightarrow> string list" where
  "all_leaf_ids s = sorted_list_of_set (ts_leaf_ids s)"

definition parent_id :: "TranscriptStore \<Rightarrow> string \<Rightarrow> string option option" where
  "parent_id s entry_id = ts_parent_by_id s entry_id"

definition child_ids :: "TranscriptStore \<Rightarrow> string option \<Rightarrow> string list" where
  "child_ids s key = (case ts_children_by_parent s key of None \<Rightarrow> [] | Some ids \<Rightarrow> ids)"

definition contains_entry :: "TranscriptStore \<Rightarrow> string \<Rightarrow> bool" where
  "contains_entry s i \<longleftrightarrow> ts_entries_by_id s i \<noteq> None"

definition get_entry :: "TranscriptStore \<Rightarrow> string \<Rightarrow> TranscriptStorageNode option" where
  "get_entry s i = ts_entries_by_id s i"

definition is_turn_boundary_at :: "TranscriptStore \<Rightarrow> string option \<Rightarrow> bool" where
  "is_turn_boundary_at s entry_id =
     (case entry_id of
        None \<Rightarrow> True
      | Some i \<Rightarrow>
          (case get_entry s i of
             None \<Rightarrow> False
           | Some entry \<Rightarrow>
               (case node_item entry of
                  TurnFinished _ _ \<Rightarrow> True
                | CompactionSummaryItem _ \<Rightarrow> True
                | _ \<Rightarrow> False)))"

definition store_is_turn_boundary :: "TranscriptStore \<Rightarrow> bool" where
  "store_is_turn_boundary s = is_turn_boundary_at s (ts_active_leaf_id s)"

definition append_entry :: "TranscriptStorageNode \<Rightarrow> TranscriptStore \<Rightarrow> string \<times> TranscriptStore" where
  "append_entry entry s =
     (let i = node_id entry;
          parent = node_parent_id entry;
          leaves = (case parent of Some p \<Rightarrow> ts_leaf_ids s - {p} | None \<Rightarrow> ts_leaf_ids s)
      in (i, s\<lparr>ts_parent_by_id := (ts_parent_by_id s)(i \<mapsto> parent),
               ts_children_by_parent := (ts_children_by_parent s)(parent \<mapsto> child_ids s parent @ [i]),
               ts_leaf_ids := insert i leaves,
               ts_insertion_order := ts_insertion_order s @ [i],
               ts_active_leaf_id := Some i,
               ts_entries_by_id := (ts_entries_by_id s)(i \<mapsto> entry)\<rparr>))"

definition append_storage_node :: "TranscriptStorageNode \<Rightarrow> TranscriptStore \<Rightarrow> string \<times> TranscriptStore" where
  "append_storage_node entry s = append_entry entry s"

definition append_item ::
  "stamp \<Rightarrow> TranscriptItem \<Rightarrow> ProviderReplayItem list \<Rightarrow> TranscriptStore \<Rightarrow> string \<times> TranscriptStore" where
  "append_item stamp item replay s =
     append_entry \<lparr>node_id = fst (stamp s), node_parent_id = ts_active_leaf_id s,
       node_timestamp_ms = now_ms (snd (stamp s)), node_item = item, node_provider_replay = replay\<rparr> s"

definition append_root_item ::
  "stamp \<Rightarrow> TranscriptItem \<Rightarrow> ProviderReplayItem list \<Rightarrow> TranscriptStore \<Rightarrow> string \<times> TranscriptStore" where
  "append_root_item stamp item replay s =
     append_entry \<lparr>node_id = fst (stamp s), node_parent_id = None,
       node_timestamp_ms = now_ms (snd (stamp s)), node_item = item, node_provider_replay = replay\<rparr> s"

definition append_transcript_item :: "stamp \<Rightarrow> TranscriptItem \<Rightarrow> TranscriptStore \<Rightarrow> string \<times> TranscriptStore" where
  "append_transcript_item stamp item s = append_item stamp item [] s"

fun append_transcript_items ::
  "stamp \<Rightarrow> TranscriptItem list \<Rightarrow> TranscriptStore \<Rightarrow> string list \<times> TranscriptStore" where
  "append_transcript_items stamp [] s = ([], s)"
| "append_transcript_items stamp (item # items) s =
     (let (i, s') = append_transcript_item stamp item s;
          (is, s'') = append_transcript_items stamp items s'
      in (i # is, s''))"

definition from_model_context :: "stamp \<Rightarrow> ModelContext \<Rightarrow> TranscriptStore" where
  "from_model_context stamp c = snd (append_transcript_items stamp (mc_items c) TranscriptStore_new)"

definition set_active_leaf_to_boundary ::
  "string \<Rightarrow> TranscriptStore \<Rightarrow> (TranscriptStoreError + unit) \<times> TranscriptStore" where
  "set_active_leaf_to_boundary entry_id s =
     (if \<not> contains_entry s entry_id then (Inl EntryNotFound, s)
      else if \<not> is_turn_boundary_at s (Some entry_id) then (Inl NotTurnBoundary, s)
      else (Inr (), s\<lparr>ts_active_leaf_id := Some entry_id\<rparr>))"

definition set_active_leaf_to_entry ::
  "string \<Rightarrow> TranscriptStore \<Rightarrow> (TranscriptStoreError + unit) \<times> TranscriptStore" where
  "set_active_leaf_to_entry entry_id s =
     (if \<not> contains_entry s entry_id then (Inl EntryNotFound, s)
      else (Inr (), s\<lparr>ts_active_leaf_id := Some entry_id\<rparr>))"

definition reset_active_leaf :: "TranscriptStore \<Rightarrow> TranscriptStore" where
  "reset_active_leaf s = s\<lparr>ts_active_leaf_id := None\<rparr>"

text \<open>The parent walk.\<close>

partial_function (option) path_loop ::
  "(string \<rightharpoonup> TranscriptStorageNode) \<Rightarrow> TranscriptStorageNode option \<Rightarrow> TranscriptStorageNode list
     \<Rightarrow> TranscriptStorageNode list option" where
  "path_loop m current path =
     (case current of
        None \<Rightarrow> Some (rev path)
      | Some entry \<Rightarrow> path_loop m (Option.bind (node_parent_id entry) m) (path @ [entry]))"

declare path_loop.simps [code]

definition path_entries :: "TranscriptStore \<Rightarrow> string option \<Rightarrow> TranscriptStorageNode list option" where
  "path_entries s entry_id = path_loop (ts_entries_by_id s) (Option.bind entry_id (ts_entries_by_id s)) []"

definition active_path_entries :: "TranscriptStore \<Rightarrow> TranscriptStorageNode list option" where
  "active_path_entries s = path_entries s (ts_active_leaf_id s)"

definition path_entries_to :: "TranscriptStore \<Rightarrow> string \<Rightarrow> TranscriptStorageNode list option" where
  "path_entries_to s entry_id = path_entries s (Some entry_id)"

definition model_context :: "TranscriptStore \<Rightarrow> ModelContext option" where
  "model_context s =
     map_option (\<lambda>path. from_entries
         (map (\<lambda>e. \<lparr>mce_item = node_item e, mce_provider_replay = node_provider_replay e\<rparr>) path))
       (active_path_entries s)"

text \<open>Loading: the three validation passes, then the index rebuild.\<close>

fun collect_ids :: "TranscriptStorageNode list \<Rightarrow> string set \<Rightarrow> TranscriptStoreError + string set" where
  "collect_ids [] ids = Inr ids"
| "collect_ids (entry # es) ids =
     (if node_id entry \<in> ids then Inl DuplicateEntry else collect_ids es (insert (node_id entry) ids))"

fun check_parents :: "string set \<Rightarrow> TranscriptStorageNode list \<Rightarrow> TranscriptStoreError + unit" where
  "check_parents ids [] = Inr ()"
| "check_parents ids (entry # es) =
     (case node_parent_id entry of
        Some p \<Rightarrow> if p \<notin> ids then Inl MissingParent else check_parents ids es
      | None \<Rightarrow> check_parents ids es)"

definition index_entry :: "TranscriptStorageNode \<Rightarrow> TranscriptStore \<Rightarrow> TranscriptStore" where
  "index_entry entry ctx =
     (let i = node_id entry; parent = node_parent_id entry
      in ctx\<lparr>ts_parent_by_id := (ts_parent_by_id ctx)(i \<mapsto> parent),
             ts_children_by_parent := (ts_children_by_parent ctx)(parent \<mapsto> child_ids ctx parent @ [i]),
             ts_leaf_ids := insert i (ts_leaf_ids ctx),
             ts_insertion_order := ts_insertion_order ctx @ [i],
             ts_entries_by_id := (ts_entries_by_id ctx)(i \<mapsto> entry)\<rparr>)"

text \<open>
  The second loop runs over the values of \<open>parent_by_id\<close>; its keys are the ids of
  \<open>insertion_order\<close>, and the order of the removals does not matter.
\<close>

definition remove_parent_leaf :: "TranscriptStore \<Rightarrow> string \<Rightarrow> string set \<Rightarrow> string set" where
  "remove_parent_leaf ctx i leaves =
     (case ts_parent_by_id ctx i of Some (Some p) \<Rightarrow> leaves - {p} | _ \<Rightarrow> leaves)"

definition from_trusted_entries :: "TranscriptStorageNode list \<Rightarrow> string option \<Rightarrow> TranscriptStore" where
  "from_trusted_entries es active =
     (let ctx = fold index_entry es TranscriptStore_new
      in ctx\<lparr>ts_leaf_ids := fold (remove_parent_leaf ctx) (ts_insertion_order ctx) (ts_leaf_ids ctx),
             ts_active_leaf_id := active\<rparr>)"

definition from_storage_entries ::
  "TranscriptStorageNode list \<Rightarrow> string option \<Rightarrow> TranscriptStoreError + TranscriptStore" where
  "from_storage_entries es active =
     (case collect_ids es {} of
        Inl err \<Rightarrow> Inl err
      | Inr ids \<Rightarrow>
          (case check_parents ids es of
             Inl err \<Rightarrow> Inl err
           | Inr _ \<Rightarrow>
               (case active of
                  Some a \<Rightarrow> if a \<notin> ids then Inl EntryNotFound else Inr (from_trusted_entries es active)
                | None \<Rightarrow> Inr (from_trusted_entries es active))))"

section \<open>The parent path\<close>

text \<open>The chain of ancestors of an entry, root first.\<close>

inductive chain ::
  "(string \<rightharpoonup> TranscriptStorageNode) \<Rightarrow> TranscriptStorageNode option \<Rightarrow> TranscriptStorageNode list \<Rightarrow> bool"
  for m where
  chain_root: "chain m None []"
| chain_step: "chain m (Option.bind (node_parent_id e) m) p \<Longrightarrow> chain m (Some e) (p @ [e])"

inductive_simps chain_None [simp]: "chain m None p"
inductive_simps chain_Some: "chain m (Some e) p"

lemma chain_path_loop: "chain m cur p \<Longrightarrow> path_loop m cur acc = Some (p @ rev acc)"
proof (induction arbitrary: acc rule: chain.induct)
  case chain_root
  then show ?case by (simp add: path_loop.simps)
next
  case (chain_step e p)
  then show ?case by (subst path_loop.simps) simp
qed

lemma path_loop_chain:
  assumes "path_loop m cur acc = Some r"
  shows "\<exists>p. chain m cur p \<and> r = p @ rev acc"
proof (rule path_loop.raw_induct [OF _ assms, where P = "\<lambda>m cur acc r. \<exists>p. chain m cur p \<and> r = p @ rev acc"])
  fix loop m cur acc r
  assume ih: "\<And>m cur acc r. loop m cur acc = Some r \<Longrightarrow> \<exists>p. chain m cur p \<and> r = p @ rev acc"
    and eq: "(case cur of None \<Rightarrow> Some (rev acc)
        | Some entry \<Rightarrow> loop m (Option.bind (node_parent_id entry) m) (acc @ [entry])) = Some r"
  show "\<exists>p. chain m cur p \<and> r = p @ rev acc"
  proof (cases cur)
    case (Some e)
    with eq ih obtain p where "chain m (Option.bind (node_parent_id e) m) p" "r = p @ rev (acc @ [e])"
      by fastforce
    with Some show ?thesis by (auto intro: chain.chain_step)
  qed (use eq in simp)
qed

lemma path_loop_iff: "path_loop m cur [] = Some p \<longleftrightarrow> chain m cur p"
  using chain_path_loop [of m cur p "[]"] path_loop_chain [of m cur "[]" p] by auto

section \<open>The indexes\<close>

text \<open>
  What the store keeps: every index is determined by the entries and their order, parents
  exist, the active leaf exists, and every entry has a finite chain of ancestors.
\<close>

definition parents_exist :: "(string \<rightharpoonup> TranscriptStorageNode) \<Rightarrow> bool" where
  "parents_exist m \<longleftrightarrow> (\<forall>i e p. m i = Some e \<longrightarrow> node_parent_id e = Some p \<longrightarrow> m p \<noteq> None)"

definition rooted :: "(string \<rightharpoonup> TranscriptStorageNode) \<Rightarrow> bool" where
  "rooted m \<longleftrightarrow> (\<forall>i e. m i = Some e \<longrightarrow> (\<exists>p. chain m (Some e) p))"

definition children_of :: "(string \<rightharpoonup> TranscriptStorageNode) \<Rightarrow> string list \<Rightarrow> string option \<Rightarrow> string list" where
  "children_of m order k = filter (\<lambda>i. map_option node_parent_id (m i) = Some k) order"

definition leaves_of :: "(string \<rightharpoonup> TranscriptStorageNode) \<Rightarrow> string set" where
  "leaves_of m = {i \<in> dom m. \<forall>j e. m j = Some e \<longrightarrow> node_parent_id e \<noteq> Some i}"

definition base_ok :: "TranscriptStore \<Rightarrow> bool" where
  "base_ok s \<longleftrightarrow>
     distinct (ts_insertion_order s)
   \<and> dom (ts_entries_by_id s) = set (ts_insertion_order s)
   \<and> (\<forall>i e. ts_entries_by_id s i = Some e \<longrightarrow> node_id e = i)
   \<and> ts_parent_by_id s = map_option node_parent_id \<circ> ts_entries_by_id s
   \<and> (\<forall>k. ts_children_by_parent s k =
          (let c = children_of (ts_entries_by_id s) (ts_insertion_order s) k in if c = [] then None else Some c))"

definition indexes_ok :: "TranscriptStore \<Rightarrow> bool" where
  "indexes_ok s \<longleftrightarrow>
     base_ok s
   \<and> ts_leaf_ids s = leaves_of (ts_entries_by_id s)
   \<and> parents_exist (ts_entries_by_id s)
   \<and> (\<forall>a. ts_active_leaf_id s = Some a \<longrightarrow> ts_entries_by_id s a \<noteq> None)"

definition store_ok :: "TranscriptStore \<Rightarrow> bool" where
  "store_ok s \<longleftrightarrow> indexes_ok s \<and> rooted (ts_entries_by_id s)"

lemma base_okD:
  assumes "base_ok s"
  shows "distinct (ts_insertion_order s)"
    and "dom (ts_entries_by_id s) = set (ts_insertion_order s)"
    and "ts_entries_by_id s i = Some e \<Longrightarrow> node_id e = i"
    and "ts_parent_by_id s = map_option node_parent_id \<circ> ts_entries_by_id s"
    and "ts_children_by_parent s k =
          (let c = children_of (ts_entries_by_id s) (ts_insertion_order s) k in if c = [] then None else Some c)"
  using assms unfolding base_ok_def by blast+

lemma indexes_okD:
  assumes "indexes_ok s"
  shows "base_ok s"
    and "ts_leaf_ids s = leaves_of (ts_entries_by_id s)"
    and "parents_exist (ts_entries_by_id s)"
    and "ts_active_leaf_id s = Some a \<Longrightarrow> ts_entries_by_id s a \<noteq> None"
  using assms unfolding indexes_ok_def by blast+

lemma child_ids_eq:
  "base_ok s \<Longrightarrow> child_ids s k = children_of (ts_entries_by_id s) (ts_insertion_order s) k"
  by (simp add: child_ids_def base_okD(5) Let_def)

lemma chain_update:
  assumes "chain m cur p" and fresh: "m i = None" and par: "parents_exist m"
    and "\<And>e. cur = Some e \<Longrightarrow> e \<in> ran m"
  shows "chain (m(i \<mapsto> x)) cur p"
  using assms(1,4)
proof (induction rule: chain.induct)
  case (chain_step e p)
  obtain k where k: "m k = Some e" using chain_step.prems by (auto simp: ran_def)
  have "node_parent_id e \<noteq> Some i" using par k fresh unfolding parents_exist_def by metis
  then have bind: "Option.bind (node_parent_id e) (m(i \<mapsto> x)) = Option.bind (node_parent_id e) m"
    by (cases "node_parent_id e") auto
  have "chain (m(i \<mapsto> x)) (Option.bind (node_parent_id e) m) p"
    by (rule chain_step.IH) (cases "node_parent_id e"; auto intro: ranI)
  then show ?case by (intro chain.chain_step) (simp only: bind)
qed (auto intro: chain.intros)

lemma rooted_update:
  assumes "rooted m" and "m i = None" and "parents_exist m"
    and par: "\<And>p. node_parent_id x = Some p \<Longrightarrow> m p \<noteq> None"
  shows "rooted (m(i \<mapsto> x))"
  unfolding rooted_def
proof (intro allI impI)
  fix j e
  assume j: "(m(i \<mapsto> x)) j = Some e"
  show "\<exists>p. chain (m(i \<mapsto> x)) (Some e) p"
  proof (cases "j = i")
    case False
    then have je: "m j = Some e" using j by simp
    then obtain p where "chain m (Some e) p" using assms(1) by (auto simp: rooted_def)
    then show ?thesis using chain_update assms(2,3) je by (metis option.inject ranI)
  next
    case True
    have bind: "Option.bind (node_parent_id x) (m(i \<mapsto> x)) = Option.bind (node_parent_id x) m"
      using par assms(2) by (cases "node_parent_id x") auto
    obtain p where "chain m (Option.bind (node_parent_id x) m) p"
      using par assms(1) unfolding rooted_def by (cases "node_parent_id x") (simp, fastforce)
    then have "chain (m(i \<mapsto> x)) (Option.bind (node_parent_id x) m) p"
      by (rule chain_update) (use assms in \<open>cases "node_parent_id x"; auto intro: ranI\<close>)+
    moreover have "e = x" using True j by simp
    ultimately show ?thesis using chain.chain_step [of "m(i \<mapsto> x)" x p] bind by metis
  qed
qed

lemma children_of_update:
  assumes "i \<notin> set order"
  shows "children_of (m(i \<mapsto> e)) (order @ [i]) k =
     children_of m order k @ (if node_parent_id e = k then [i] else [])"
proof -
  have "children_of (m(i \<mapsto> e)) order k = children_of m order k"
    unfolding children_of_def by (rule filter_cong) (use assms in auto)
  then show ?thesis by (simp add: children_of_def)
qed

lemma leaves_of_update:
  assumes "m i = None" and "parents_exist m" and "node_parent_id e \<noteq> Some i"
  shows "leaves_of (m(i \<mapsto> e)) =
     insert i (case node_parent_id e of Some p \<Rightarrow> leaves_of m - {p} | None \<Rightarrow> leaves_of m)"
proof (rule set_eqI)
  fix j
  have none: "m k = Some x \<Longrightarrow> node_parent_id x \<noteq> Some i" for k x
    using assms(1,2) unfolding parents_exist_def by metis
  have "j \<in> leaves_of (m(i \<mapsto> e)) \<longleftrightarrow>
      (j = i \<or> m j \<noteq> None) \<and> node_parent_id e \<noteq> Some j \<and> (\<forall>k x. k \<noteq> i \<longrightarrow> m k = Some x \<longrightarrow> node_parent_id x \<noteq> Some j)"
    by (auto simp: leaves_of_def)
  also have "\<dots> \<longleftrightarrow> (j = i \<or> m j \<noteq> None) \<and> node_parent_id e \<noteq> Some j \<and> (\<forall>k x. m k = Some x \<longrightarrow> node_parent_id x \<noteq> Some j)"
    using assms(1) by (metis option.distinct(1))
  also have "\<dots> \<longleftrightarrow> j = i \<or> j \<in> leaves_of m \<and> node_parent_id e \<noteq> Some j"
    using none assms(3) by (auto simp: leaves_of_def)
  also have "\<dots> \<longleftrightarrow> j \<in> insert i (case node_parent_id e of Some p \<Rightarrow> leaves_of m - {p} | None \<Rightarrow> leaves_of m)"
    by (cases "node_parent_id e") auto
  finally show "j \<in> leaves_of (m(i \<mapsto> e)) \<longleftrightarrow>
      j \<in> insert i (case node_parent_id e of Some p \<Rightarrow> leaves_of m - {p} | None \<Rightarrow> leaves_of m)" .
qed

lemma index_entry_base:
  assumes ok: "base_ok s" and fresh: "ts_entries_by_id s (node_id e) = None"
  shows "base_ok (index_entry e s)"
proof -
  note D = base_okD [OF ok]
  have new: "node_id e \<notin> set (ts_insertion_order s)" using fresh D(2) by (metis domIff)
  show ?thesis
    unfolding base_ok_def
  proof (intro conjI)
    show "\<forall>k. ts_children_by_parent (index_entry e s) k =
        (let c = children_of (ts_entries_by_id (index_entry e s)) (ts_insertion_order (index_entry e s)) k
         in if c = [] then None else Some c)"
      using new D(5) by (auto simp: index_entry_def Let_def children_of_update child_ids_eq [OF ok])
    show "ts_parent_by_id (index_entry e s) = map_option node_parent_id \<circ> ts_entries_by_id (index_entry e s)"
      using D(4) by (auto simp: index_entry_def Let_def)
  qed (use new D(1-3) in \<open>auto simp: index_entry_def Let_def\<close>)
qed

lemma append_entry_index:
  "snd (append_entry e s) = (index_entry e s)
     \<lparr>ts_leaf_ids := insert (node_id e)
        (case node_parent_id e of Some p \<Rightarrow> ts_leaf_ids s - {p} | None \<Rightarrow> ts_leaf_ids s),
      ts_active_leaf_id := Some (node_id e)\<rparr>"
  by (simp add: append_entry_def index_entry_def Let_def)

lemma base_ok_update [simp]:
  "base_ok (s\<lparr>ts_leaf_ids := l\<rparr>) = base_ok s" "base_ok (s\<lparr>ts_active_leaf_id := a\<rparr>) = base_ok s"
  by (simp_all add: base_ok_def)

lemma append_entry_entries [simp]:
  "ts_entries_by_id (snd (append_entry e s)) = (ts_entries_by_id s)(node_id e \<mapsto> e)"
  "ts_active_leaf_id (snd (append_entry e s)) = Some (node_id e)"
  "ts_insertion_order (snd (append_entry e s)) = ts_insertion_order s @ [node_id e]"
  by (simp_all add: append_entry_def Let_def)

lemma append_entry_indexes:
  assumes ok: "indexes_ok s" and fresh: "ts_entries_by_id s (node_id e) = None"
    and par: "\<And>p. node_parent_id e = Some p \<Longrightarrow> ts_entries_by_id s p \<noteq> None"
  shows "indexes_ok (snd (append_entry e s))"
proof -
  note D = indexes_okD [OF ok]
  have self: "node_parent_id e \<noteq> Some (node_id e)" using par fresh by auto
  have "base_ok (snd (append_entry e s))"
    by (simp add: append_entry_index index_entry_base [OF D(1) fresh])
  moreover have "ts_leaf_ids (snd (append_entry e s)) = leaves_of (ts_entries_by_id (snd (append_entry e s)))"
    unfolding append_entry_entries leaves_of_update [OF fresh D(3) self]
    by (simp add: append_entry_index D(2) cong: option.case_cong)
  moreover have "parents_exist (ts_entries_by_id (snd (append_entry e s)))"
    using D(3) par by (auto simp: parents_exist_def)
  ultimately show ?thesis by (simp add: indexes_ok_def)
qed

lemma append_entry_ok:
  assumes "store_ok s" and "ts_entries_by_id s (node_id e) = None"
    and "\<And>p. node_parent_id e = Some p \<Longrightarrow> ts_entries_by_id s p \<noteq> None"
  shows "store_ok (snd (append_entry e s))"
  using assms append_entry_indexes [of s e] rooted_update [of "ts_entries_by_id s" "node_id e" e]
  by (simp add: store_ok_def indexes_okD(3))

section \<open>Appending to the active path\<close>

text \<open>
  The contract of an append-only log with a partial view: an append that keeps the
  invariant and extends the view by the element it was given.
\<close>

locale append_log =
  fixes append :: "'x \<Rightarrow> 's \<Rightarrow> 's"
    and view :: "'s \<Rightarrow> 'x list option"
    and inv :: "'s \<Rightarrow> bool"
  assumes append_inv: "inv s \<Longrightarrow> inv (append x s)"
    and append_view: "inv s \<Longrightarrow> view s = Some xs \<Longrightarrow> view (append x s) = Some (xs @ [x])"
begin

lemma append_all_inv: "inv s \<Longrightarrow> inv (fold append ys s)"
  by (induction ys arbitrary: s) (auto intro: append_inv)

lemma append_all_view: "inv s \<Longrightarrow> view s = Some xs \<Longrightarrow> view (fold append ys s) = Some (xs @ ys)"
  by (induction ys arbitrary: s xs) (auto simp: append_view append_inv)

end

text \<open>
  UUIDs do not repeat: what the stamp yields is not the id of an entry of the store.
\<close>

definition fresh_ids :: "stamp \<Rightarrow> bool" where
  "fresh_ids stamp \<longleftrightarrow> (\<forall>s. fst (stamp s) \<notin> set (ts_insertion_order s))"

definition path_items :: "TranscriptStore \<Rightarrow> TranscriptItem list option" where
  "path_items s = map_option mc_items (model_context s)"

lemma path_items_eq: "path_items s = map_option (map node_item) (active_path_entries s)"
  by (cases "active_path_entries s") (simp_all add: path_items_def model_context_def from_entries_def)

lemma fresh_stamp: "fresh_ids stamp \<Longrightarrow> indexes_ok s \<Longrightarrow> ts_entries_by_id s (fst (stamp s)) = None"
  unfolding fresh_ids_def by (metis domIff base_okD(2) indexes_okD(1))

lemma active_exists: "indexes_ok s \<Longrightarrow> ts_active_leaf_id s = Some p \<Longrightarrow> ts_entries_by_id s p \<noteq> None"
  by (rule indexes_okD(4))

lemma path_entries_total:
  assumes "store_ok s"
  shows "\<exists>p. path_entries s i = Some p \<and> chain (ts_entries_by_id s) (Option.bind i (ts_entries_by_id s)) p"
proof (cases "Option.bind i (ts_entries_by_id s)")
  case None
  then show ?thesis by (simp add: path_entries_def path_loop_iff)
next
  case (Some e)
  then have "ts_entries_by_id s (the i) = Some e" by (cases i) auto
  with assms obtain p where "chain (ts_entries_by_id s) (Some e) p" by (auto simp: store_ok_def rooted_def)
  with Some show ?thesis by (auto simp: path_entries_def path_loop_iff)
qed

text \<open>An appended entry leaves every earlier path as it was and extends its parent's.\<close>

lemma append_entry_old_path:
  assumes "indexes_ok s" and "ts_entries_by_id s (node_id e) = None" and "i \<noteq> Some (node_id e)"
    and "path_entries s i = Some p"
  shows "path_entries (snd (append_entry e s)) i = Some p"
proof -
  let ?m = "ts_entries_by_id s"
  have "chain ?m (Option.bind i ?m) p" using assms(4) by (simp add: path_entries_def path_loop_iff)
  then have "chain (?m(node_id e \<mapsto> e)) (Option.bind i ?m) p"
    by (rule chain_update) (use assms in \<open>cases i; auto simp: indexes_okD(3) intro: ranI\<close>)+
  moreover have "Option.bind i (?m(node_id e \<mapsto> e)) = Option.bind i ?m"
    using assms(3) by (cases i) auto
  ultimately show ?thesis unfolding path_entries_def path_loop_iff append_entry_entries by simp
qed

lemma append_entry_path:
  assumes "indexes_ok s" and "ts_entries_by_id s (node_id e) = None"
    and "node_parent_id e \<noteq> Some (node_id e)"
    and "path_entries s (node_parent_id e) = Some p"
  shows "active_path_entries (snd (append_entry e s)) = Some (p @ [e])"
proof -
  have "path_entries (snd (append_entry e s)) (node_parent_id e) = Some p"
    by (rule append_entry_old_path [OF assms(1,2,3,4)])
  then show ?thesis
    unfolding active_path_entries_def path_entries_def path_loop_iff
    unfolding append_entry_entries by (auto intro: chain.chain_step)
qed

lemma append_item_ok: "fresh_ids stamp \<Longrightarrow> store_ok s \<Longrightarrow> store_ok (snd (append_item stamp item replay s))"
  unfolding append_item_def
  by (rule append_entry_ok) (auto simp: store_ok_def fresh_stamp dest: active_exists)

lemma append_root_item_ok:
  "fresh_ids stamp \<Longrightarrow> store_ok s \<Longrightarrow> store_ok (snd (append_root_item stamp item replay s))"
  unfolding append_root_item_def
  by (rule append_entry_ok) (auto simp: store_ok_def fresh_stamp)

lemma append_item_path:
  assumes "fresh_ids stamp" and "store_ok s" and "path_items s = Some xs"
  shows "path_items (snd (append_item stamp item replay s)) = Some (xs @ [item])"
proof -
  have ok: "indexes_ok s" using assms(2) by (simp add: store_ok_def)
  obtain p where p: "active_path_entries s = Some p" "xs = map node_item p"
    using assms(3) by (auto simp: path_items_eq)
  have "ts_active_leaf_id s \<noteq> Some (fst (stamp s))"
    using active_exists [OF ok] fresh_stamp [OF assms(1) ok] by auto
  with append_entry_path [of s "\<lparr>node_id = fst (stamp s), node_parent_id = ts_active_leaf_id s,
       node_timestamp_ms = now_ms (snd (stamp s)), node_item = item, node_provider_replay = replay\<rparr>" p]
    p fresh_stamp [OF assms(1) ok] ok
  show ?thesis by (simp add: path_items_eq append_item_def active_path_entries_def)
qed

lemma append_transcript_items_fold:
  "snd (append_transcript_items stamp items s) = fold (\<lambda>x s. snd (append_transcript_item stamp x s)) items s"
  by (induction items arbitrary: s) (auto simp: Let_def split_def)

interpretation store_log: append_log "\<lambda>item s. snd (append_transcript_item stamp item s)" path_items
    "\<lambda>s. fresh_ids stamp \<and> store_ok s" for stamp
  by unfold_locales (simp_all add: append_transcript_item_def append_item_ok append_item_path)

lemma append_items_ok:
  "fresh_ids stamp \<Longrightarrow> store_ok s \<Longrightarrow> store_ok (snd (append_transcript_items stamp items s))"
  unfolding append_transcript_items_fold using store_log.append_all_inv by blast

lemma append_items_path:
  "fresh_ids stamp \<Longrightarrow> store_ok s \<Longrightarrow> path_items s = Some xs \<Longrightarrow>
     path_items (snd (append_transcript_items stamp items s)) = Some (xs @ items)"
  unfolding append_transcript_items_fold using store_log.append_all_view by blast

lemma store_ok_new: "store_ok TranscriptStore_new"
  by (simp add: store_ok_def indexes_ok_def base_ok_def TranscriptStore_new_def children_of_def
      leaves_of_def parents_exist_def rooted_def)

lemma path_items_new: "path_items TranscriptStore_new = Some []"
  by (simp add: path_items_eq active_path_entries_def path_entries_def TranscriptStore_new_def path_loop_iff)

lemma path_items_total: "store_ok s \<Longrightarrow> \<exists>xs. path_items s = Some xs"
  using path_entries_total [of s "ts_active_leaf_id s"] by (auto simp: path_items_eq active_path_entries_def)

section \<open>Loading\<close>

lemma collect_ids_eq:
  "collect_ids es ids =
     (if distinct (map node_id es) \<and> node_id ` set es \<inter> ids = {} then Inr (ids \<union> node_id ` set es)
      else Inl DuplicateEntry)"
  by (induction es arbitrary: ids) auto

lemma check_parents_eq:
  "check_parents ids es =
     (if \<forall>e\<in>set es. \<forall>p. node_parent_id e = Some p \<longrightarrow> p \<in> ids then Inr () else Inl MissingParent)"
  by (induction es) (auto split: option.splits)

text \<open>The ids a list of entries declares, and whether all its parents are among them.\<close>

definition parents_closed :: "TranscriptStorageNode list \<Rightarrow> bool" where
  "parents_closed es \<longleftrightarrow> (\<forall>e\<in>set es. \<forall>p. node_parent_id e = Some p \<longrightarrow> p \<in> node_id ` set es)"

definition leaf_known :: "TranscriptStorageNode list \<Rightarrow> string option \<Rightarrow> bool" where
  "leaf_known es active \<longleftrightarrow> (\<forall>a. active = Some a \<longrightarrow> a \<in> node_id ` set es)"

lemma from_storage_entries_eq:
  "from_storage_entries es active =
     (if \<not> distinct (map node_id es) then Inl DuplicateEntry
      else if \<not> parents_closed es then Inl MissingParent
      else if \<not> leaf_known es active then Inl EntryNotFound
      else Inr (from_trusted_entries es active))"
  by (cases active)
    (simp_all add: from_storage_entries_def collect_ids_eq check_parents_eq leaf_known_def
      flip: parents_closed_def)

lemma index_entry_simps [simp]:
  "ts_entries_by_id (index_entry e s) = (ts_entries_by_id s)(node_id e \<mapsto> e)"
  "ts_insertion_order (index_entry e s) = ts_insertion_order s @ [node_id e]"
  "ts_leaf_ids (index_entry e s) = insert (node_id e) (ts_leaf_ids s)"
  by (simp_all add: index_entry_def Let_def)

lemma fold_index_entry:
  assumes "base_ok s" and "distinct (ts_insertion_order s @ map node_id es)"
  shows "base_ok (fold index_entry es s)
    \<and> ts_insertion_order (fold index_entry es s) = ts_insertion_order s @ map node_id es
    \<and> ts_entries_by_id (fold index_entry es s) = ts_entries_by_id s ++ map_of (map (\<lambda>e. (node_id e, e)) es)
    \<and> ts_leaf_ids (fold index_entry es s) = ts_leaf_ids s \<union> node_id ` set es"
  using assms
proof (induction es arbitrary: s)
  case (Cons e es)
  have fresh: "ts_entries_by_id s (node_id e) = None"
    using Cons.prems(2) base_okD(2) [OF Cons.prems(1)] by (auto simp: domIff set_eq_iff)
  have upd: "(ts_entries_by_id s)(node_id e \<mapsto> e) ++ map_of (map (\<lambda>e. (node_id e, e)) es)
      = (ts_entries_by_id s ++ map_of (map (\<lambda>e. (node_id e, e)) es))(node_id e \<mapsto> e)"
    by (rule map_add_upd_left) (use Cons.prems(2) in \<open>auto simp: dom_map_of_conv_image_fst\<close>)
  note ih = Cons.IH [OF index_entry_base [OF Cons.prems(1) fresh]]
  show ?case
  proof (intro conjI)
    show "ts_entries_by_id (fold index_entry (e # es) s)
        = ts_entries_by_id s ++ map_of (map (\<lambda>e. (node_id e, e)) (e # es))"
      unfolding list.map map_of.simps fst_conv snd_conv map_add_upd upd [symmetric]
      using ih Cons.prems(2) by (simp del: fun_upd_apply)
  qed (use ih Cons.prems(2) in simp_all)
qed simp

lemma fold_remove_parent_leaf:
  "fold (remove_parent_leaf ctx) order leaves = leaves - {p. \<exists>i\<in>set order. ts_parent_by_id ctx i = Some (Some p)}"
  by (induction order arbitrary: leaves) (auto simp: remove_parent_leaf_def split: option.splits)

lemma leaves_of_alt:
  "leaves_of m = dom m - {p. \<exists>i\<in>dom m. (map_option node_parent_id \<circ> m) i = Some (Some p)}"
  unfolding leaves_of_def dom_def by fastforce

lemma map_of_by_id:
  "distinct (map node_id es) \<Longrightarrow> map_of (map (\<lambda>e. (node_id e, e)) es) i = Some e \<longleftrightarrow> e \<in> set es \<and> node_id e = i"
  by (subst map_of_eq_Some_iff) (auto simp: o_def)

lemma from_trusted_entries_ok:
  assumes d: "distinct (map node_id es)"
    and par: "parents_closed es" and act: "leaf_known es active"
  shows "indexes_ok (from_trusted_entries es active)"
    and "ts_entries_by_id (from_trusted_entries es active) = map_of (map (\<lambda>e. (node_id e, e)) es)"
    and "ts_insertion_order (from_trusted_entries es active) = map node_id es"
    and "ts_active_leaf_id (from_trusted_entries es active) = active"
proof -
  define ctx where "ctx = fold index_entry es TranscriptStore_new"
  let ?m = "map_of (map (\<lambda>e. (node_id e, e)) es)"
  have "base_ok TranscriptStore_new" using store_ok_new by (simp add: store_ok_def indexes_ok_def)
  from fold_index_entry [OF this, of es] d have ctx: "base_ok ctx" "ts_insertion_order ctx = map node_id es"
    "ts_entries_by_id ctx = ?m" "ts_leaf_ids ctx = node_id ` set es"
    by (simp_all add: ctx_def TranscriptStore_new_def)
  have s: "from_trusted_entries es active = ctx\<lparr>ts_leaf_ids :=
      node_id ` set es - {p. \<exists>i\<in>node_id ` set es. ts_parent_by_id ctx i = Some (Some p)}, ts_active_leaf_id := active\<rparr>"
    by (simp add: from_trusted_entries_def Let_def ctx_def [symmetric] ctx fold_remove_parent_leaf)
  show "ts_entries_by_id (from_trusted_entries es active) = ?m"
    "ts_insertion_order (from_trusted_entries es active) = map node_id es"
    "ts_active_leaf_id (from_trusted_entries es active) = active"
    by (simp_all add: s ctx)
  have dom: "dom ?m = node_id ` set es" by (simp add: dom_map_of_conv_image_fst image_image)
  have at: "?m i = Some e \<longleftrightarrow> e \<in> set es \<and> node_id e = i" for i e by (rule map_of_by_id [OF d])
  have "node_id ` set es - {p. \<exists>i\<in>node_id ` set es. ts_parent_by_id ctx i = Some (Some p)} = leaves_of ?m"
    unfolding leaves_of_alt dom base_okD(4) [OF ctx(1)] ctx(3) ..
  moreover have "parents_exist ?m"
    using par unfolding parents_exist_def at parents_closed_def dom [symmetric] dom_def by blast
  moreover have "?m a \<noteq> None" if "active = Some a" for a
    using act that unfolding leaf_known_def dom [symmetric] dom_def by blast
  ultimately show "indexes_ok (from_trusted_entries es active)"
    by (simp add: indexes_ok_def s ctx)
qed

lemma map_ext_Some: "(\<And>i x. f i = Some x \<longleftrightarrow> g i = Some x) \<Longrightarrow> f = g"
proof (rule ext)
  fix i
  assume "\<And>i x. f i = Some x \<longleftrightarrow> g i = Some x"
  from this [of i] show "f i = g i" by (cases "f i") (metis not_Some_eq, metis)
qed

lemma base_ok_unique:
  assumes "base_ok s" "base_ok s'" "ts_entries_by_id s = ts_entries_by_id s'"
    "ts_insertion_order s = ts_insertion_order s'"
  shows "ts_parent_by_id s = ts_parent_by_id s'" "ts_children_by_parent s = ts_children_by_parent s'"
  using assms by (simp_all add: base_okD(4) ext [OF base_okD(5)])

lemma entries_eq: "base_ok s \<Longrightarrow> entries s = map (\<lambda>i. the (ts_entries_by_id s i)) (ts_insertion_order s)"
proof -
  assume "base_ok s"
  then have "\<forall>i\<in>set (ts_insertion_order s). ts_entries_by_id s i \<noteq> None"
    using base_okD(2) by (metis domIff)
  then have "List.map_filter (ts_entries_by_id s) xs = map (\<lambda>i. the (ts_entries_by_id s i)) xs"
    if "set xs \<subseteq> set (ts_insertion_order s)" for xs
    using that by (induction xs) (auto simp: List.map_filter_def)
  then show ?thesis by (simp add: entries_def)
qed

lemma entries_by_id:
  assumes "base_ok s"
  shows "map node_id (entries s) = ts_insertion_order s"
    and "map_of (map (\<lambda>e. (node_id e, e)) (entries s)) = ts_entries_by_id s"
    and "e \<in> set (entries s) \<longleftrightarrow> (\<exists>i. ts_entries_by_id s i = Some e)"
proof -
  note D = base_okD [OF assms]
  have some: "\<exists>e. ts_entries_by_id s i = Some e \<and> node_id e = i" if "i \<in> set (ts_insertion_order s)" for i
    using that D(2,3) by (metis domD)
  show ids: "map node_id (entries s) = ts_insertion_order s"
    unfolding entries_eq [OF assms] map_map by (rule map_idI) (use some in fastforce)
  show mem: "e \<in> set (entries s) \<longleftrightarrow> (\<exists>i. ts_entries_by_id s i = Some e)" for e
    unfolding entries_eq [OF assms] using D(2) by (force simp: dom_def)
  have "map_of (map (\<lambda>e. (node_id e, e)) (entries s)) i = Some e \<longleftrightarrow> ts_entries_by_id s i = Some e" for i e
    using map_of_by_id [of "entries s" i e] D(1,3) unfolding ids mem by blast
  then show "map_of (map (\<lambda>e. (node_id e, e)) (entries s)) = ts_entries_by_id s"
    by (rule map_ext_Some)
qed

lemma from_storage_entries_entries:
  assumes ok: "indexes_ok s"
  shows "from_storage_entries (entries s) (ts_active_leaf_id s) = Inr s"
proof -
  note D = indexes_okD [OF ok] and B = base_okD [OF indexes_okD(1) [OF ok]]
  note E = entries_by_id [OF D(1)]
  have ids: "node_id ` set (entries s) = dom (ts_entries_by_id s)"
    using E(1) B(2) by (metis set_map)
  have d: "distinct (map node_id (entries s))" using E(1) B(1) by simp
  have par: "parents_closed (entries s)"
    unfolding parents_closed_def ids using D(3) E(3) unfolding parents_exist_def by (metis domIff)
  have act: "leaf_known (entries s) (ts_active_leaf_id s)"
    unfolding leaf_known_def ids using D(4) by auto
  note T = from_trusted_entries_ok [OF d par act]
  let ?t = "from_trusted_entries (entries s) (ts_active_leaf_id s)"
  have same: "ts_entries_by_id ?t = ts_entries_by_id s" "ts_insertion_order ?t = ts_insertion_order s"
    using T(2,3) E(1,2) by simp_all
  have "?t = s"
    using base_ok_unique [OF indexes_okD(1) [OF T(1)] D(1) same] same T(4) indexes_okD(2) [OF T(1)] D(2)
    by (intro TranscriptStore.equality) simp_all
  then show ?thesis using d par act by (simp add: from_storage_entries_eq)
qed

lemma stored_roundtrip [simp]: "node_of_stored (stored_of_node n) = n" "stored_of_node (node_of_stored e) = e"
  by (simp_all add: node_of_stored_def stored_of_node_def)

section \<open>Cyclic parents\<close>

text \<open>A walk that meets itself does not return: a chain is longer than the chain of the parent.\<close>

lemma chain_unique: "chain m cur p \<Longrightarrow> chain m cur q \<Longrightarrow> p = q"
  using chain_path_loop [of m cur p "[]"] chain_path_loop [of m cur q "[]"] by simp

lemma cyclic_walk:
  assumes "m i = Some a" "m j = Some b" "node_parent_id a = Some j" "node_parent_id b = Some i"
  shows "path_loop m (Some a) acc = None"
proof (rule ccontr)
  assume "path_loop m (Some a) acc \<noteq> None"
  then obtain p where p: "chain m (Some a) p" using path_loop_chain by blast
  then obtain q where q: "chain m (Some b) q" "p = q @ [a]"
    by (rule chain.cases) (use assms in auto)
  from q(1) obtain r where r: "chain m (Some a) r" "q = r @ [b]"
    by (rule chain.cases) (use assms in auto)
  from chain_unique [OF p r(1)] q(2) r(2) show False by simp
qed

text \<open>
  Loading entries reports a duplicate id first, then a missing parent, then an unknown
  active leaf, and otherwise gives a store whose indexes agree with the entries.
\<close>

lemma from_storage_entries_result:
  "from_storage_entries es active =
     (if \<not> distinct (map node_id es) then Inl DuplicateEntry
      else if \<not> parents_closed es then Inl MissingParent
      else if \<not> leaf_known es active then Inl EntryNotFound
      else Inr (from_trusted_entries es active))
   \<and> (case from_storage_entries es active of Inl e \<Rightarrow> True | Inr st \<Rightarrow> indexes_ok st)"
  using from_trusted_entries_ok(1) [of es active] by (simp add: from_storage_entries_eq)

end
