(* ===== verification/Outstanding_Actions.thy ===== *)
theory Outstanding_Actions
  imports Transcript_Store
begin

text \<open>
  Session actions and events (\<open>agent-session/src/action.rs\<close>, \<open>event.rs\<close>) and the ledger
  of outstanding work (\<open>agent-session/src/outstanding_actions.rs\<close>). A deque is a list
  whose head is the front.
\<close>

section \<open>Actions, completion targets, events\<close>

datatype SessionAction =
    SessionRequestModel ActionId TurnId ModelContext "string option"
  | SessionRequestTool ActionId TurnId ToolCall
  | CancelSessionWork

record CompletionToolTarget =
  ctt_id :: ToolCallId
  ctt_name :: string

record CompletionTarget =
  ct_action_id :: ActionId
  ct_turn_id :: TurnId
  ct_tool :: "CompletionToolTarget option"

definition from_tool_request :: "ActionId \<Rightarrow> TurnId \<Rightarrow> ToolCall \<Rightarrow> CompletionTarget" where
  "from_tool_request action_id turn_id tool_call =
     \<lparr>ct_action_id = action_id, ct_turn_id = turn_id,
      ct_tool = Some \<lparr>ctt_id = tc_id tool_call, ctt_name = tc_tool_name tool_call\<rparr>\<rparr>"

fun target_from_input :: "AgentInput \<Rightarrow> CompletionTarget option" where
  "target_from_input (ModelCompleted action_id turn_id _) =
     Some \<lparr>ct_action_id = action_id, ct_turn_id = turn_id, ct_tool = None\<rparr>"
| "target_from_input (ModelFailed action_id turn_id _) =
     Some \<lparr>ct_action_id = action_id, ct_turn_id = turn_id, ct_tool = None\<rparr>"
| "target_from_input (ToolCompleted action_id turn_id result) =
     Some \<lparr>ct_action_id = action_id, ct_turn_id = turn_id,
           ct_tool = Some \<lparr>ctt_id = tr_tool_call_id result, ctt_name = tr_tool_name result\<rparr>\<rparr>"
| "target_from_input _ = None"

fun target_from_core_action :: "AgentAction \<Rightarrow> CompletionTarget option" where
  "target_from_core_action (RequestModel action_id turn_id) =
     Some \<lparr>ct_action_id = action_id, ct_turn_id = turn_id, ct_tool = None\<rparr>"
| "target_from_core_action (RequestTool action_id turn_id tool_call) =
     Some (from_tool_request action_id turn_id tool_call)"
| "target_from_core_action (CancelTurn _) = None"

fun target_from_session_action :: "SessionAction \<Rightarrow> CompletionTarget option" where
  "target_from_session_action (SessionRequestModel action_id turn_id _ _) =
     Some \<lparr>ct_action_id = action_id, ct_turn_id = turn_id, ct_tool = None\<rparr>"
| "target_from_session_action (SessionRequestTool action_id turn_id tool_call) =
     Some (from_tool_request action_id turn_id tool_call)"
| "target_from_session_action CancelSessionWork = None"

definition matches_completion :: "SessionAction \<Rightarrow> AgentInput \<Rightarrow> bool" where
  "matches_completion action input =
     (case (target_from_session_action action, target_from_input input) of
        (Some a, Some i) \<Rightarrow> a = i
      | _ \<Rightarrow> False)"

datatype SessionActionKind = ModelKind | ToolKind

datatype SessionEvent =
    TranscriptItemAppended string TranscriptItem
  | ActionRequested SessionAction
  | ActionCompleted SessionActionKind string
  | ActionFailed SessionActionKind string string

section \<open>The ledger\<close>

datatype RecordedCompletion =
    RecordedModelCompleted ActionId TurnId
  | RecordedModelFailed ActionId TurnId string
  | RecordedToolCompleted ActionId TurnId ToolCallId string

record OutstandingActions =
  oa_pending :: "CompletionTarget list"
  oa_completion_events_pending_transcript :: "RecordedCompletion list"

definition OutstandingActions_default :: OutstandingActions where
  "OutstandingActions_default = \<lparr>oa_pending = [], oa_completion_events_pending_transcript = []\<rparr>"

fun recorded_from_input :: "AgentInput \<Rightarrow> RecordedCompletion option" where
  "recorded_from_input (ModelCompleted action_id turn_id _) = Some (RecordedModelCompleted action_id turn_id)"
| "recorded_from_input (ModelFailed action_id turn_id error) = Some (RecordedModelFailed action_id turn_id error)"
| "recorded_from_input (ToolCompleted action_id turn_id result) =
     Some (RecordedToolCompleted action_id turn_id (tr_tool_call_id result) (tr_tool_name result))"
| "recorded_from_input _ = None"

fun recorded_target :: "RecordedCompletion \<Rightarrow> CompletionTarget" where
  "recorded_target (RecordedModelCompleted action_id turn_id) =
     \<lparr>ct_action_id = action_id, ct_turn_id = turn_id, ct_tool = None\<rparr>"
| "recorded_target (RecordedModelFailed action_id turn_id _) =
     \<lparr>ct_action_id = action_id, ct_turn_id = turn_id, ct_tool = None\<rparr>"
| "recorded_target (RecordedToolCompleted action_id turn_id tool_call_id tool_name) =
     \<lparr>ct_action_id = action_id, ct_turn_id = turn_id,
      ct_tool = Some \<lparr>ctt_id = tool_call_id, ctt_name = tool_name\<rparr>\<rparr>"

fun is_assistant_item :: "TranscriptItem \<Rightarrow> bool" where
  "is_assistant_item (AssistantMessageItem _) = True"
| "is_assistant_item _ = False"

fun is_crash_of :: "TurnId \<Rightarrow> TranscriptItem \<Rightarrow> bool" where
  "is_crash_of turn_id (TurnFinished t CrashedOutcome) = (t = turn_id)"
| "is_crash_of turn_id _ = False"

fun is_result_of :: "ToolCallId \<Rightarrow> string \<Rightarrow> TranscriptItem \<Rightarrow> bool" where
  "is_result_of tool_call_id tool_name (ToolResultItem r) =
     (tr_tool_call_id r = tool_call_id \<and> tr_tool_name r = tool_name)"
| "is_result_of tool_call_id tool_name _ = False"

fun is_finish_of :: "TurnId \<Rightarrow> TranscriptItem \<Rightarrow> bool" where
  "is_finish_of turn_id (TurnFinished t _) = (t = turn_id)"
| "is_finish_of turn_id _ = False"

fun accepted_by :: "RecordedCompletion \<Rightarrow> TranscriptItem list \<Rightarrow> bool" where
  "accepted_by (RecordedModelCompleted _ turn_id) items =
     (case position is_assistant_item items of
        None \<Rightarrow> False
      | Some assistant_index \<Rightarrow>
          find_map TranscriptItem_turn_id (drop (assistant_index + 1) items) = Some turn_id)"
| "accepted_by (RecordedModelFailed _ turn_id _) items = list_ex (is_crash_of turn_id) items"
| "accepted_by (RecordedToolCompleted _ _ tool_call_id tool_name) items =
     list_ex (is_result_of tool_call_id tool_name) items"

fun should_wait_for_more_items ::
  "RecordedCompletion \<Rightarrow> TranscriptItem list \<Rightarrow> CompletionTarget list \<Rightarrow> bool" where
  "should_wait_for_more_items (RecordedToolCompleted _ turn_id _ _) items pending =
     (\<not> list_ex (is_finish_of turn_id) items \<and> list_ex (\<lambda>a. ct_turn_id a = turn_id) pending)"
| "should_wait_for_more_items _ items pending = False"

fun push_session_event :: "RecordedCompletion \<Rightarrow> SessionEvent list \<Rightarrow> SessionEvent list" where
  "push_session_event (RecordedModelCompleted action_id _) outbox =
     outbox @ [ActionCompleted ModelKind (u64_to_string (action_id_0 action_id))]"
| "push_session_event (RecordedModelFailed action_id _ error) outbox =
     outbox @ [ActionFailed ModelKind (u64_to_string (action_id_0 action_id)) error]"
| "push_session_event (RecordedToolCompleted action_id _ _ _) outbox =
     outbox @ [ActionCompleted ToolKind (u64_to_string (action_id_0 action_id))]"

definition outstanding_is_empty :: "OutstandingActions \<Rightarrow> bool" where
  "outstanding_is_empty led \<longleftrightarrow> oa_pending led = []"

definition outstanding_clear :: "OutstandingActions \<Rightarrow> OutstandingActions" where
  "outstanding_clear led = led\<lparr>oa_pending := [], oa_completion_events_pending_transcript := []\<rparr>"

definition track_request :: "AgentAction \<Rightarrow> OutstandingActions \<Rightarrow> OutstandingActions" where
  "track_request action led =
     (case target_from_core_action action of
        Some t \<Rightarrow> led\<lparr>oa_pending := oa_pending led @ [t]\<rparr>
      | None \<Rightarrow> led)"

definition track_session_action :: "SessionAction \<Rightarrow> OutstandingActions \<Rightarrow> OutstandingActions" where
  "track_session_action action led =
     (case target_from_session_action action of
        Some t \<Rightarrow> led\<lparr>oa_pending := oa_pending led @ [t]\<rparr>
      | None \<Rightarrow> led)"

definition accept_completion :: "AgentInput \<Rightarrow> OutstandingActions \<Rightarrow> bool \<times> OutstandingActions" where
  "accept_completion input led =
     (case recorded_from_input input of
        None \<Rightarrow> (False, led)
      | Some completion \<Rightarrow>
          (case position (\<lambda>action. action = recorded_target completion) (oa_pending led) of
             None \<Rightarrow> (False, led)
           | Some i \<Rightarrow>
               (True, led\<lparr>oa_pending := remove_at i (oa_pending led),
                        oa_completion_events_pending_transcript :=
                          oa_completion_events_pending_transcript led @ [completion]\<rparr>)))"

text \<open>The loop that pops the recorded completions: what still waits, and the outbox.\<close>

fun emit_loop ::
  "TranscriptItem list \<Rightarrow> CompletionTarget list \<Rightarrow> RecordedCompletion list \<Rightarrow> RecordedCompletion list
     \<Rightarrow> SessionEvent list \<Rightarrow> RecordedCompletion list \<times> SessionEvent list" where
  "emit_loop items pending still_waiting [] outbox = (still_waiting, outbox)"
| "emit_loop items pending still_waiting (completion # rest) outbox =
     (if accepted_by completion items
      then emit_loop items pending still_waiting rest (push_session_event completion outbox)
      else if should_wait_for_more_items completion items pending
      then emit_loop items pending (still_waiting @ [completion]) rest outbox
      else emit_loop items pending still_waiting rest outbox)"

definition emit_events_after_core_accepts ::
  "TranscriptItem list \<Rightarrow> OutstandingActions \<Rightarrow> SessionEvent list \<Rightarrow> OutstandingActions \<times> SessionEvent list" where
  "emit_events_after_core_accepts items led outbox =
     (let (still_waiting, outbox') =
            emit_loop items (oa_pending led) [] (oa_completion_events_pending_transcript led) outbox
      in (led\<lparr>oa_completion_events_pending_transcript := still_waiting\<rparr>, outbox'))"

section \<open>What the ledger promises\<close>

lemma recorded_target_eq: "map_option recorded_target (recorded_from_input i) = target_from_input i"
  by (cases i) auto

text \<open>A completion is accepted exactly when its target is outstanding, and consumes it.\<close>

lemma accept_completion_iff:
  "fst (accept_completion i led) \<longleftrightarrow> (\<exists>t. target_from_input i = Some t \<and> t \<in> set (oa_pending led))"
  using recorded_target_eq [of i]
  by (auto simp: accept_completion_def position_None_iff split: option.splits dest!: position_SomeD)
    (metis nth_mem)

lemma accept_completion_pending:
  assumes "target_from_input i = Some t" and "accept_completion i led = (True, led')"
  shows "mset (oa_pending led) = add_mset t (mset (oa_pending led'))"
proof -
  obtain c where c: "recorded_from_input i = Some c" "recorded_target c = t"
    using recorded_target_eq [of i] assms(1) by (cases "recorded_from_input i") auto
  obtain j where j: "position (\<lambda>a. a = t) (oa_pending led) = Some j" "led' = led\<lparr>oa_pending := remove_at j (oa_pending led),
      oa_completion_events_pending_transcript := oa_completion_events_pending_transcript led @ [c]\<rparr>"
    using assms(2) c by (auto simp: accept_completion_def split: option.splits)
  with mset_remove_at_key [of "\<lambda>x. x" t "oa_pending led" j] show ?thesis by simp
qed

lemma accept_completion_reject: "accept_completion i led = (False, led') \<Longrightarrow> led' = led"
  by (auto simp: accept_completion_def split: option.splits)

text \<open>
  The loop in closed form: the accepted completions are announced in the order they were
  recorded, and the others that are still of use wait, in order.
\<close>

definition session_event_of :: "RecordedCompletion \<Rightarrow> SessionEvent" where
  "session_event_of c = hd (push_session_event c [])"

lemma push_session_event_eq: "push_session_event c outbox = outbox @ [session_event_of c]"
  by (cases c) (simp_all add: session_event_of_def)

lemma emit_loop_eq:
  "emit_loop items pending w cs outbox =
     (w @ filter (\<lambda>c. \<not> accepted_by c items \<and> should_wait_for_more_items c items pending) cs,
      outbox @ map session_event_of (filter (\<lambda>c. accepted_by c items) cs))"
  by (induction cs arbitrary: w outbox) (auto simp: push_session_event_eq)

lemma emit_events_eq:
  "emit_events_after_core_accepts items led outbox =
     (led\<lparr>oa_completion_events_pending_transcript :=
          filter (\<lambda>c. \<not> accepted_by c items \<and> should_wait_for_more_items c items (oa_pending led))
            (oa_completion_events_pending_transcript led)\<rparr>,
      outbox @ map session_event_of
        (filter (\<lambda>c. accepted_by c items) (oa_completion_events_pending_transcript led)))"
  by (simp add: emit_events_after_core_accepts_def emit_loop_eq)

end
