(* ===== verification/Session.thy ===== *)
theory Session
  imports Outstanding_Actions
begin

text \<open>
  The session shell (\<open>agent-session/src/session.rs\<close>, \<open>input.rs\<close>) around the core loop,
  the transcript store and the ledger of outstanding work. An operation that materialises
  the active path returns an option: \<open>None\<close> when the parent walk does not return.
\<close>

section \<open>Data\<close>

datatype HistoryOperationError = Busy | StoreError TranscriptStoreError

datatype SessionInput =
    SessionModelCompleted ActionId TurnId AssistantMessage
  | SessionModelMaxOutputTokens ActionId TurnId AssistantMessage "ProviderReplayItem list" string

datatype SessionInputError = ModelCompletionRequiresSessionInput

fun SessionInputError_fmt :: "SessionInputError \<Rightarrow> string" where
  "SessionInputError_fmt ModelCompletionRequiresSessionInput =
     ''model completions must use SessionInput::ModelCompleted''"

record AgentSession =
  as_core :: AgentCoreLoop
  as_transcript_store :: TranscriptStore
  as_outstanding_actions :: OutstandingActions
  as_action_outbox :: "SessionAction list"
  as_event_outbox :: "SessionEvent list"

definition AgentSession_new :: AgentSession where
  "AgentSession_new =
     \<lparr>as_core = resume_at TurnId_default ActionId_first, as_transcript_store = TranscriptStore_new,
      as_outstanding_actions = OutstandingActions_default, as_action_outbox = [], as_event_outbox = []\<rparr>"

section \<open>Work in flight\<close>

fun is_start_action :: "SessionAction \<Rightarrow> bool" where
  "is_start_action (SessionRequestModel _ _ _ _) = True"
| "is_start_action (SessionRequestTool _ _ _) = True"
| "is_start_action CancelSessionWork = False"

definition is_cancel_action :: "SessionAction \<Rightarrow> bool" where
  "is_cancel_action a \<longleftrightarrow> a = CancelSessionWork"

definition queue_session_action :: "SessionAction \<Rightarrow> AgentSession \<Rightarrow> AgentSession" where
  "queue_session_action action s =
     s\<lparr>as_event_outbox := as_event_outbox s @ [ActionRequested action],
       as_action_outbox := as_action_outbox s @ [action]\<rparr>"

definition invalidate_session_work :: "AgentSession \<Rightarrow> AgentSession" where
  "invalidate_session_work s =
     (let had_tracked_work = \<not> outstanding_is_empty (as_outstanding_actions s);
          had_active_core_work = \<not> core_is_idle (as_core s);
          had_start_action = list_ex is_start_action (as_action_outbox s);
          had_existing_cancel = list_ex is_cancel_action (as_action_outbox s);
          s1 = s\<lparr>as_outstanding_actions := outstanding_clear (as_outstanding_actions s),
                 as_action_outbox := filter is_cancel_action (as_action_outbox s)\<rparr>
      in if (had_active_core_work \<or> had_tracked_work \<or> had_start_action) \<and> \<not> had_existing_cancel
         then queue_session_action CancelSessionWork s1
         else s1)"

definition drop_completed_action_from_outbox :: "AgentInput \<Rightarrow> AgentSession \<Rightarrow> AgentSession" where
  "drop_completed_action_from_outbox input s =
     (case position (\<lambda>action. matches_completion action input) (as_action_outbox s) of
        Some i \<Rightarrow> s\<lparr>as_action_outbox := remove_at i (as_action_outbox s)\<rparr>
      | None \<Rightarrow> s)"

definition session_model_context :: "AgentSession \<Rightarrow> ModelContext option" where
  "session_model_context s = model_context (as_transcript_store s)"

definition queue_core_action :: "AgentAction \<Rightarrow> AgentSession \<Rightarrow> AgentSession option" where
  "queue_core_action action s =
     (let s1 = s\<lparr>as_outstanding_actions := track_request action (as_outstanding_actions s)\<rparr>
      in case action of
           RequestModel action_id turn_id \<Rightarrow>
             (case session_model_context s1 of
                None \<Rightarrow> None
              | Some ctx \<Rightarrow>
                  Some (queue_session_action
                    (SessionRequestModel action_id turn_id ctx (ts_active_leaf_id (as_transcript_store s1))) s1))
         | RequestTool action_id turn_id tool_call \<Rightarrow>
             Some (queue_session_action (SessionRequestTool action_id turn_id tool_call) s1)
         | CancelTurn _ \<Rightarrow> Some (queue_session_action CancelSessionWork s1))"

fun queue_core_actions :: "AgentAction list \<Rightarrow> AgentSession \<Rightarrow> AgentSession option" where
  "queue_core_actions [] s = Some s"
| "queue_core_actions (action # actions) s =
     (case action of
        CancelTurn _ \<Rightarrow> queue_core_actions actions (invalidate_session_work s)
      | _ \<Rightarrow> Option.bind (queue_core_action action s) (queue_core_actions actions))"

definition drain_core_actions :: "AgentSession \<Rightarrow> AgentSession option" where
  "drain_core_actions s =
     (let (actions, core) = core_drain_actions (as_core s);
          s1 = s\<lparr>as_core := core\<rparr>
      in if actions = [] then Some s1 else queue_core_actions actions s1)"

definition drain_core_transcript_items :: "stamp \<Rightarrow> AgentSession \<Rightarrow> AgentSession" where
  "drain_core_transcript_items stamp s =
     (let (items, core) = core_drain_transcript_items (as_core s);
          s1 = s\<lparr>as_core := core\<rparr>
      in if items = []
         then let (led, events) = emit_events_after_core_accepts items (as_outstanding_actions s1) (as_event_outbox s1)
              in s1\<lparr>as_outstanding_actions := led, as_event_outbox := events\<rparr>
         else let (entry_ids, store) = append_transcript_items stamp items (as_transcript_store s1);
                  events = as_event_outbox s1
                    @ map (\<lambda>(entry_id, item). TranscriptItemAppended entry_id item) (zip entry_ids items);
                  (led, events') = emit_events_after_core_accepts items (as_outstanding_actions s1) events
              in s1\<lparr>as_transcript_store := store, as_outstanding_actions := led, as_event_outbox := events'\<rparr>)"

definition session_drive :: "stamp \<Rightarrow> AgentSession \<Rightarrow> AgentSession option" where
  "session_drive stamp s =
     drain_core_actions (drain_core_transcript_items stamp (s\<lparr>as_core := drive (as_core s)\<rparr>))"

section \<open>Inputs and outboxes\<close>

fun completion_input :: "AgentInput \<Rightarrow> bool" where
  "completion_input (ModelCompleted _ _ _) = True"
| "completion_input (ModelFailed _ _ _) = True"
| "completion_input (ToolCompleted _ _ _) = True"
| "completion_input _ = False"

definition accept_agent_input :: "AgentInput \<Rightarrow> AgentSession \<Rightarrow> bool \<times> AgentSession" where
  "accept_agent_input input s =
     (let s1 = (if input = Interrupt then invalidate_session_work s else s)
      in if completion_input input
         then case accept_completion input (as_outstanding_actions s1) of
                (False, led) \<Rightarrow> (False, s1\<lparr>as_outstanding_actions := led\<rparr>)
              | (True, led) \<Rightarrow>
                  (True, drop_completed_action_from_outbox input (s1\<lparr>as_outstanding_actions := led\<rparr>))
         else (True, s1))"

definition enqueue_input :: "AgentInput \<Rightarrow> AgentSession \<Rightarrow> (SessionInputError + unit) \<times> AgentSession" where
  "enqueue_input input s =
     (case input of
        ModelCompleted _ _ _ \<Rightarrow> (Inl ModelCompletionRequiresSessionInput, s)
      | _ \<Rightarrow>
          (case accept_agent_input input s of
             (False, s1) \<Rightarrow> (Inr (), s1)
           | (True, s1) \<Rightarrow> (Inr (), s1\<lparr>as_core := core_enqueue_input (as_core s1) input\<rparr>)))"

definition accept_model_max_output_tokens ::
  "stamp \<Rightarrow> ActionId \<Rightarrow> TurnId \<Rightarrow> AssistantMessage \<Rightarrow> ProviderReplayItem list \<Rightarrow> string
     \<Rightarrow> AgentSession \<Rightarrow> bool \<times> AgentSession" where
  "accept_model_max_output_tokens stamp action_id turn_id assistant provider_replay error s =
     (let input = ModelCompleted action_id turn_id assistant
      in case accept_completion input (as_outstanding_actions s) of
           (False, led) \<Rightarrow> (False, s\<lparr>as_outstanding_actions := led\<rparr>)
         | (True, led) \<Rightarrow>
             let s1 = drop_completed_action_from_outbox input (s\<lparr>as_outstanding_actions := led\<rparr>);
                 assistant_item = AssistantMessageItem assistant;
                 (id1, store1) = append_item stamp assistant_item provider_replay (as_transcript_store s1);
                 finish = TurnFinished turn_id CrashedOutcome;
                 (id2, store2) = append_item stamp finish [] store1
             in (True, s1\<lparr>as_transcript_store := store2,
                          as_event_outbox := as_event_outbox s1
                            @ [TranscriptItemAppended id1 assistant_item,
                               TranscriptItemAppended id2 finish,
                               ActionFailed ModelKind (u64_to_string (action_id_0 action_id)) error]\<rparr>))"

definition enqueue_session_input ::
  "stamp \<Rightarrow> SessionInput \<Rightarrow> AgentSession \<Rightarrow> (SessionInputError + unit) \<times> AgentSession" where
  "enqueue_session_input stamp input s =
     (case input of
        SessionModelCompleted action_id turn_id assistant \<Rightarrow>
          (let i = ModelCompleted action_id turn_id assistant
           in case accept_agent_input i s of
                (True, s1) \<Rightarrow> (Inr (), s1\<lparr>as_core := core_enqueue_input (as_core s1) i\<rparr>)
              | (False, s1) \<Rightarrow> (Inr (), s1))
      | SessionModelMaxOutputTokens action_id turn_id assistant provider_replay error \<Rightarrow>
          (Inr (), snd (accept_model_max_output_tokens stamp action_id turn_id assistant provider_replay error s)))"

definition session_is_ready_to_continue :: "AgentSession \<Rightarrow> bool" where
  "session_is_ready_to_continue s = core_is_ready_to_continue (as_core s)"

definition session_drain_pending_inputs :: "AgentSession \<Rightarrow> AgentInput list \<times> AgentSession" where
  "session_drain_pending_inputs s =
     (let (inputs, core) = core_drain_pending_inputs (as_core s) in (inputs, s\<lparr>as_core := core\<rparr>))"

definition session_drain_actions :: "AgentSession \<Rightarrow> SessionAction list \<times> AgentSession" where
  "session_drain_actions s = (as_action_outbox s, s\<lparr>as_action_outbox := []\<rparr>)"

definition session_drain_events :: "AgentSession \<Rightarrow> SessionEvent list \<times> AgentSession" where
  "session_drain_events s = (as_event_outbox s, s\<lparr>as_event_outbox := []\<rparr>)"

section \<open>History operations\<close>

definition restore_queued_user_inputs :: "AgentInput list \<Rightarrow> AgentSession \<Rightarrow> AgentSession" where
  "restore_queued_user_inputs inputs s = s\<lparr>as_core := foldl core_enqueue_input (as_core s) inputs\<rparr>"

definition prepare_for_history_operation ::
  "stamp \<Rightarrow> AgentSession \<Rightarrow> ((HistoryOperationError + AgentInput list) \<times> AgentSession) option" where
  "prepare_for_history_operation stamp s =
     (let (queued, core) = core_drain_pending_inputs (as_core s);
          s1 = invalidate_session_work (s\<lparr>as_core := core\<rparr>);
          s2 = (if \<not> core_is_idle (as_core s1)
                then drain_core_actions (drain_core_transcript_items stamp
                       (s1\<lparr>as_core := drive (core_enqueue_input (as_core s1) Interrupt)\<rparr>))
                else Some s1)
      in case s2 of
           None \<Rightarrow> None
         | Some s3 \<Rightarrow>
             if \<not> store_is_turn_boundary (as_transcript_store s3)
             then Some (Inl Busy, restore_queued_user_inputs queued s3)
             else Some (Inr queued, s3))"

definition reset_runtime_to_active_leaf :: "AgentSession \<Rightarrow> AgentSession option" where
  "reset_runtime_to_active_leaf s =
     (case model_context (as_transcript_store s) of
        None \<Rightarrow> None
      | Some ctx \<Rightarrow>
          Some (s\<lparr>as_core := resume_at (last_turn_id ctx) (cl_next_action_id (as_core s)),
                  as_outstanding_actions := outstanding_clear (as_outstanding_actions s),
                  as_action_outbox := filter is_cancel_action (as_action_outbox s)\<rparr>))"

definition set_active_leaf_for_rewind ::
  "string option \<Rightarrow> TranscriptStore \<Rightarrow> (TranscriptStoreError + unit) \<times> TranscriptStore" where
  "set_active_leaf_for_rewind leaf_id store =
     (case leaf_id of
        Some i \<Rightarrow> set_active_leaf_to_boundary i store
      | None \<Rightarrow> (Inr (), reset_active_leaf store))"

definition rewind ::
  "stamp \<Rightarrow> string option \<Rightarrow> AgentSession \<Rightarrow> ((HistoryOperationError + unit) \<times> AgentSession) option" where
  "rewind stamp leaf_id s =
     (if (case leaf_id of Some i \<Rightarrow> \<not> contains_entry (as_transcript_store s) i | None \<Rightarrow> False)
      then Some (Inl (StoreError EntryNotFound), s)
      else if \<not> is_turn_boundary_at (as_transcript_store s) leaf_id
      then Some (Inl (StoreError NotTurnBoundary), s)
      else case prepare_for_history_operation stamp s of
             None \<Rightarrow> None
           | Some (Inl error, s1) \<Rightarrow> Some (Inl error, s1)
           | Some (Inr queued, s1) \<Rightarrow>
               (case set_active_leaf_for_rewind leaf_id (as_transcript_store s1) of
                  (Inl error, store) \<Rightarrow>
                    Some (Inl (StoreError error),
                      restore_queued_user_inputs queued (s1\<lparr>as_transcript_store := store\<rparr>))
                | (Inr _, store) \<Rightarrow>
                    (case reset_runtime_to_active_leaf (s1\<lparr>as_transcript_store := store\<rparr>) of
                       None \<Rightarrow> None
                     | Some s2 \<Rightarrow> Some (Inr (), restore_queued_user_inputs queued s2))))"

definition restore_compacted_runtime ::
  "string \<Rightarrow> TurnId \<Rightarrow> ActionId \<Rightarrow> AgentSession \<Rightarrow> ((HistoryOperationError + unit) \<times> AgentSession) option" where
  "restore_compacted_runtime active_leaf turn_id action_id s =
     (case set_active_leaf_to_entry active_leaf (as_transcript_store s) of
        (Inl error, store) \<Rightarrow> Some (Inl (StoreError error), s\<lparr>as_transcript_store := store\<rparr>)
      | (Inr _, store) \<Rightarrow>
          let s1 = s\<lparr>as_transcript_store := store, as_core := resume_running_model turn_id action_id,
                     as_outstanding_actions := outstanding_clear (as_outstanding_actions s),
                     as_action_outbox := []\<rparr>
          in case session_model_context s1 of
               None \<Rightarrow> None
             | Some ctx \<Rightarrow>
                 Some (Inr (), s1\<lparr>as_outstanding_actions := track_session_action
                     (SessionRequestModel action_id turn_id ctx (Some active_leaf)) (as_outstanding_actions s1)\<rparr>))"

definition resume_model_turn ::
  "stamp \<Rightarrow> string \<Rightarrow> TurnId \<Rightarrow> ActionId \<Rightarrow> AgentSession
     \<Rightarrow> ((HistoryOperationError + unit) \<times> AgentSession) option" where
  "resume_model_turn stamp checkpoint turn_id action_id s =
     (if \<not> contains_entry (as_transcript_store s) checkpoint
      then Some (Inl (StoreError EntryNotFound), s)
      else case prepare_for_history_operation stamp s of
             None \<Rightarrow> None
           | Some (Inl error, s1) \<Rightarrow> Some (Inl error, s1)
           | Some (Inr queued, s1) \<Rightarrow>
               (case set_active_leaf_to_entry checkpoint (as_transcript_store s1) of
                  (Inl error, store) \<Rightarrow>
                    Some (Inl (StoreError error),
                      restore_queued_user_inputs queued (s1\<lparr>as_transcript_store := store\<rparr>))
                | (Inr _, store) \<Rightarrow>
                    let s2 = s1\<lparr>as_transcript_store := store,
                                as_core := resume_running_model turn_id action_id,
                                as_outstanding_actions := outstanding_clear (as_outstanding_actions s1),
                                as_action_outbox := filter is_cancel_action (as_action_outbox s1)\<rparr>
                    in case session_model_context s2 of
                         None \<Rightarrow> None
                       | Some ctx \<Rightarrow>
                           let action = SessionRequestModel action_id turn_id ctx (Some checkpoint);
                               s3 = s2\<lparr>as_outstanding_actions :=
                                         track_session_action action (as_outstanding_actions s2)\<rparr>
                           in Some (Inr (), restore_queued_user_inputs queued (queue_session_action action s3))))"

section \<open>Loading and saving\<close>

definition close_store_to_boundary ::
  "stamp \<Rightarrow> (ModelContext \<Rightarrow> ModelContext) \<Rightarrow> TranscriptStore
     \<Rightarrow> ((HistoryOperationError + unit) \<times> TranscriptStore) option" where
  "close_store_to_boundary stamp close_context store =
     (if store_is_turn_boundary store then Some (Inr (), store)
      else case model_context store of
             None \<Rightarrow> None
           | Some ctx \<Rightarrow>
               let items = mc_items ctx;
                   recovered = mc_items (close_context (from_transcript_items items))
               in if length recovered = length items
                  then Some (Inl (StoreError NotTurnBoundary), store)
                  else let store' = snd (append_transcript_items stamp (drop (length items) recovered) store)
                       in if store_is_turn_boundary store' then Some (Inr (), store')
                          else Some (Inl (StoreError NotTurnBoundary), store'))"

definition close_transcript_store_open_turn ::
  "stamp \<Rightarrow> TranscriptStore \<Rightarrow> ((HistoryOperationError + unit) \<times> TranscriptStore) option" where
  "close_transcript_store_open_turn stamp store = close_store_to_boundary stamp close_open_turn_to_boundary store"

definition close_transcript_store_open_turn_as_interrupted ::
  "stamp \<Rightarrow> TranscriptStore \<Rightarrow> ((HistoryOperationError + unit) \<times> TranscriptStore) option" where
  "close_transcript_store_open_turn_as_interrupted stamp store =
     close_store_to_boundary stamp close_open_turn_to_interrupted_boundary store"

definition resumed_core :: "ModelContext \<Rightarrow> AgentCoreLoop" where
  "resumed_core ctx =
     (case open_turn_ready_to_continue ctx of
        Some turn_id \<Rightarrow> resume_ready_to_continue turn_id ActionId_first
      | None \<Rightarrow> resume_at (last_turn_id ctx) ActionId_first)"

definition session_from_model_context :: "stamp \<Rightarrow> ModelContext \<Rightarrow> AgentSession" where
  "session_from_model_context stamp ctx =
     (let ctx' = close_open_turn ctx
      in AgentSession_new\<lparr>as_core := resumed_core ctx', as_transcript_store := from_model_context stamp ctx'\<rparr>)"

definition from_transcript_store ::
  "stamp \<Rightarrow> TranscriptStore \<Rightarrow> (HistoryOperationError + AgentSession) option" where
  "from_transcript_store stamp store =
     (case close_transcript_store_open_turn stamp store of
        None \<Rightarrow> None
      | Some (Inl error, _) \<Rightarrow> Some (Inl error)
      | Some (Inr _, store') \<Rightarrow>
          (case model_context store' of
             None \<Rightarrow> None
           | Some ctx \<Rightarrow>
               Some (Inr (AgentSession_new\<lparr>as_core := resumed_core ctx, as_transcript_store := store'\<rparr>))))"

definition from_stored_session ::
  "stamp \<Rightarrow> StoredSession \<Rightarrow> (HistoryOperationError + AgentSession) option" where
  "from_stored_session stamp stored =
     (case from_storage_entries (map node_of_stored (ss_entries stored)) (ss_active_leaf_id stored) of
        Inl error \<Rightarrow> Some (Inl (StoreError error))
      | Inr store \<Rightarrow> from_transcript_store stamp store)"

definition from_stored_session_interrupted ::
  "stamp \<Rightarrow> StoredSession \<Rightarrow> (HistoryOperationError + AgentSession) option" where
  "from_stored_session_interrupted stamp stored =
     (let existing_entry_count = length (ss_entries stored)
      in case from_storage_entries (map node_of_stored (ss_entries stored)) (ss_active_leaf_id stored) of
           Inl error \<Rightarrow> Some (Inl (StoreError error))
         | Inr store \<Rightarrow>
             (case close_transcript_store_open_turn_as_interrupted stamp store of
                None \<Rightarrow> None
              | Some (Inl error, _) \<Rightarrow> Some (Inl error)
              | Some (Inr _, store') \<Rightarrow>
                  (case model_context store' of
                     None \<Rightarrow> None
                   | Some ctx \<Rightarrow>
                       Some (Inr (AgentSession_new
                         \<lparr>as_core := resume_at (last_turn_id ctx) ActionId_first,
                          as_event_outbox :=
                            map (\<lambda>e. TranscriptItemAppended (node_id e) (node_item e))
                              (drop existing_entry_count (entries store')),
                          as_transcript_store := store'\<rparr>)))))"

definition from_stored_session_preserving_open_turn ::
  "StoredSession \<Rightarrow> (HistoryOperationError + AgentSession) option" where
  "from_stored_session_preserving_open_turn stored =
     (case from_storage_entries (map node_of_stored (ss_entries stored)) (ss_active_leaf_id stored) of
        Inl error \<Rightarrow> Some (Inl (StoreError error))
      | Inr store \<Rightarrow>
          (case model_context store of
             None \<Rightarrow> None
           | Some ctx \<Rightarrow>
               Some (Inr (AgentSession_new\<lparr>as_core := resumed_core ctx, as_transcript_store := store\<rparr>))))"

definition to_stored_session :: "AgentSession \<Rightarrow> string \<Rightarrow> StoredSession" where
  "to_stored_session s session_id =
     (StoredSession_new session_id)
       \<lparr>ss_active_leaf_id := ts_active_leaf_id (as_transcript_store s),
        ss_entries := map stored_of_node (entries (as_transcript_store s))\<rparr>"

end
