(* ===== verification/Session_Machine.thy ===== *)
theory Session_Machine
  imports Session
begin

text \<open>
  The session as a state machine: which sessions the public operations can reach, and
  what holds of all of them.
\<close>

section \<open>The action outbox\<close>

lemma filter_tl: "CancelSessionWork \<notin> set (tl xs) \<Longrightarrow>
    filter is_cancel_action xs = (if xs \<noteq> [] \<and> hd xs = CancelSessionWork then [CancelSessionWork] else [])"
  by (cases xs) (auto simp: is_cancel_action_def filter_empty_conv)

text \<open>
  A cancellation is the first of the undrained actions, and every undrained start action
  is outstanding.
\<close>

definition outbox_ok :: "AgentSession \<Rightarrow> bool" where
  "outbox_ok s \<longleftrightarrow>
     CancelSessionWork \<notin> set (tl (as_action_outbox s))
   \<and> mset (List.map_filter target_from_session_action (as_action_outbox s))
       \<subseteq># mset (oa_pending (as_outstanding_actions s))"

lemma map_filter_cancel [simp]: "List.map_filter target_from_session_action (filter is_cancel_action xs) = []"
  by (induction xs) (auto simp: List.map_filter_def is_cancel_action_def)

lemma map_filter_append [simp]: "List.map_filter f (xs @ ys) = List.map_filter f xs @ List.map_filter f ys"
  by (simp add: List.map_filter_def)

lemma map_filter_Cons [simp]:
  "List.map_filter f (x # xs) = (case f x of None \<Rightarrow> [] | Some y \<Rightarrow> [y]) @ List.map_filter f xs"
  by (simp add: List.map_filter_def split: option.splits)

lemma map_filter_Nil [simp]: "List.map_filter f [] = []"
  by (simp add: List.map_filter_def)

lemma queue_session_action_simps [simp]:
  "as_core (queue_session_action a s) = as_core s"
  "as_transcript_store (queue_session_action a s) = as_transcript_store s"
  "as_outstanding_actions (queue_session_action a s) = as_outstanding_actions s"
  "as_action_outbox (queue_session_action a s) = as_action_outbox s @ [a]"
  "as_event_outbox (queue_session_action a s) = as_event_outbox s @ [ActionRequested a]"
  by (simp_all add: queue_session_action_def)

lemma outstanding_clear_simps [simp]:
  "oa_pending (outstanding_clear led) = []"
  "oa_completion_events_pending_transcript (outstanding_clear led) = []"
  by (simp_all add: outstanding_clear_def)

lemma invalidate_simps [simp]:
  "as_core (invalidate_session_work s) = as_core s"
  "as_transcript_store (invalidate_session_work s) = as_transcript_store s"
  "as_outstanding_actions (invalidate_session_work s) = outstanding_clear (as_outstanding_actions s)"
  by (simp_all add: invalidate_session_work_def Let_def)

lemma invalidate_outbox:
  "as_action_outbox (invalidate_session_work s) =
     (if CancelSessionWork \<in> set (as_action_outbox s) then filter is_cancel_action (as_action_outbox s)
      else if as_action_outbox s \<noteq> [] \<or> oa_pending (as_outstanding_actions s) \<noteq> [] \<or> cl_state (as_core s) \<noteq> Idle
        then [CancelSessionWork] else [])"
proof -
  have cancel: "list_ex is_cancel_action (as_action_outbox s) \<longleftrightarrow> CancelSessionWork \<in> set (as_action_outbox s)"
    by (auto simp: list_ex_iff is_cancel_action_def)
  have start: "list_ex is_start_action xs \<longleftrightarrow> xs \<noteq> []" if "CancelSessionWork \<notin> set xs" for xs
  proof (cases xs)
    case (Cons a ys)
    with that show ?thesis by (cases a) auto
  qed simp
  have none: "filter is_cancel_action xs = []" if "CancelSessionWork \<notin> set xs" for xs
    using that by (auto simp: filter_empty_conv is_cancel_action_def)
  show ?thesis
    by (auto simp: invalidate_session_work_def Let_def cancel start none outstanding_is_empty_def core_is_idle_def)
qed

lemma invalidate_outbox_ok: "CancelSessionWork \<notin> set (tl (as_action_outbox s)) \<Longrightarrow> outbox_ok (invalidate_session_work s)"
  by (auto simp: outbox_ok_def invalidate_outbox filter_tl [of "as_action_outbox s"])

lemma drop_completed_simps [simp]:
  "as_core (drop_completed_action_from_outbox i s) = as_core s"
  "as_transcript_store (drop_completed_action_from_outbox i s) = as_transcript_store s"
  "as_outstanding_actions (drop_completed_action_from_outbox i s) = as_outstanding_actions s"
  "as_event_outbox (drop_completed_action_from_outbox i s) = as_event_outbox s"
  by (simp_all add: drop_completed_action_from_outbox_def split: option.splits)

lemma tl_remove_at:
  assumes "x \<notin> set (tl xs)"
  shows "x \<notin> set (tl (remove_at i xs))"
proof (cases xs)
  case Nil
  then show ?thesis by (simp add: remove_at_def)
next
  case (Cons y ys)
  show ?thesis
  proof (cases i)
    case 0
    with Cons assms show ?thesis by (cases ys) auto
  next
    case (Suc k)
    with Cons assms show ?thesis using set_remove_at_subset [of k ys] by auto
  qed
qed

lemma matches_completion_iff:
  "matches_completion a i \<longleftrightarrow> target_from_input i \<noteq> None \<and> target_from_session_action a = target_from_input i"
  by (auto simp: matches_completion_def split: option.splits)

lemma position_map_filter:
  "position (\<lambda>a. f a = Some t) xs = Some i \<Longrightarrow>
     mset (List.map_filter f xs) = add_mset t (mset (List.map_filter f (remove_at i xs)))"
proof (induction xs arbitrary: i)
  case (Cons x xs)
  then show ?case by (cases "f x = Some t") (auto split: option.splits)
qed simp

lemma position_map_filter_None:
  "position (\<lambda>a. f a = Some t) xs = None \<longleftrightarrow> t \<notin># mset (List.map_filter f xs)"
  by (induction xs) (auto split: option.splits)

lemma subseteq_mset_add_notin: "B \<subseteq># add_mset t A \<Longrightarrow> t \<notin># B \<Longrightarrow> B \<subseteq># A"
  using subset_eq_diff_conv [of B "{#t#}" A] by (simp add: diff_single_trivial)

lemma accepted_outbox_ok:
  assumes ok: "outbox_ok s" and acc: "accept_completion i (as_outstanding_actions s) = (True, led)"
  shows "outbox_ok (drop_completed_action_from_outbox i (s\<lparr>as_outstanding_actions := led\<rparr>))"
proof -
  obtain t where t: "target_from_input i = Some t"
    using accept_completion_iff [of i "as_outstanding_actions s"] acc by auto
  note p = accept_completion_pending [OF t acc]
  have eq: "position (\<lambda>a. matches_completion a i) xs = position (\<lambda>a. target_from_session_action a = Some t) xs" for xs
    by (simp add: matches_completion_iff t)
  show ?thesis
  proof (cases "position (\<lambda>a. target_from_session_action a = Some t) (as_action_outbox s)")
    case None
    then have "t \<notin># mset (List.map_filter target_from_session_action (as_action_outbox s))"
      by (simp add: position_map_filter_None)
    with ok p None show ?thesis
      by (auto simp: outbox_ok_def drop_completed_action_from_outbox_def eq intro: subseteq_mset_add_notin)
  next
    case (Some j)
    with ok p position_map_filter [OF Some] show ?thesis
      by (auto simp: outbox_ok_def drop_completed_action_from_outbox_def eq tl_remove_at)
  qed
qed

section \<open>Paths that follow the turn protocol\<close>

definition conforms :: "TranscriptStore \<Rightarrow> string option \<Rightarrow> phase \<Rightarrow> bool" where
  "conforms st i p \<longleftrightarrow>
     (\<exists>es. path_entries st i = Some es \<and> transcript_ok (Quiet TurnId_default) (map node_item es) = Some p)"

definition all_conform :: "TranscriptStore \<Rightarrow> bool" where
  "all_conform st \<longleftrightarrow> (\<forall>i e. ts_entries_by_id st i = Some e \<longrightarrow> (\<exists>p. conforms st (Some i) p))"

lemma conforms_active:
  "conforms st (ts_active_leaf_id st) p \<longleftrightarrow>
     (\<exists>its. path_items st = Some its \<and> transcript_ok (Quiet TurnId_default) its = Some p)"
  by (auto simp: conforms_def path_items_eq active_path_entries_def)

lemma append_item_conforms:
  fixes replay
  assumes fresh: "fresh_ids stamp" and ok: "store_ok st" and all: "all_conform st"
    and act: "conforms st (ts_active_leaf_id st) p" and step: "turn_protocol p item = Some q"
  defines "st' \<equiv> snd (append_item stamp item replay st)"
  shows "store_ok st' \<and> all_conform st' \<and> conforms st' (ts_active_leaf_id st') q"
proof -
  let ?e = "\<lparr>node_id = fst (stamp st), node_parent_id = ts_active_leaf_id st,
       node_timestamp_ms = now_ms (snd (stamp st)), node_item = item, node_provider_replay = replay\<rparr>"
  have st': "st' = snd (append_entry ?e st)" by (simp add: st'_def append_item_def)
  have idx: "indexes_ok st" using ok by (simp add: store_ok_def)
  have new: "ts_entries_by_id st (node_id ?e) = None" using fresh_stamp [OF fresh idx] by simp
  have q: "conforms st' (ts_active_leaf_id st') q"
    using append_item_path [OF fresh ok, of _ item replay] act step
    by (auto simp: conforms_active st'_def accepts_append)
  have "\<exists>p. conforms st' (Some i) p" if "ts_entries_by_id st' i = Some e" for i e
  proof (cases "i = node_id ?e")
    case True
    with q st' show ?thesis by (auto simp: append_entry_def Let_def)
  next
    case False
    with that have "ts_entries_by_id st i = Some e" by (simp add: st')
    with all obtain p' where "conforms st (Some i) p'" by (auto simp: all_conform_def)
    with append_entry_old_path [OF idx new, of "Some i"] False show ?thesis
      by (auto simp: conforms_def st')
  qed
  with q append_item_ok [OF fresh ok, of item replay] show ?thesis
    by (auto simp: all_conform_def st'_def)
qed

lemma append_items_conform:
  assumes "fresh_ids stamp" and "store_ok st" and "all_conform st"
    and "conforms st (ts_active_leaf_id st) p" and "transcript_ok p items = Some q"
  shows "store_ok (snd (append_transcript_items stamp items st))
    \<and> all_conform (snd (append_transcript_items stamp items st))
    \<and> conforms (snd (append_transcript_items stamp items st))
         (ts_active_leaf_id (snd (append_transcript_items stamp items st))) q"
  using assms(2-5)
proof (induction items arbitrary: st p)
  case (Cons it items)
  then obtain p1 where p1: "turn_protocol p it = Some p1" "transcript_ok p1 items = Some q"
    by (auto split: option.splits)
  from append_item_conforms [OF assms(1) Cons.prems(1-3) p1(1), of "[]"]
  show ?case
    using Cons.IH [of "snd (append_transcript_item stamp it st)" p1] p1(2)
    by (simp add: append_transcript_item_def Let_def split_def)
qed simp

section \<open>Boundaries\<close>

lemma turn_protocol_quiet_iff:
  "turn_protocol p it = Some q \<Longrightarrow> is_quiet q \<longleftrightarrow> (\<exists>t out. it = TurnFinished t out)"
  by (induction p it rule: turn_protocol.induct) (auto simp: Let_def split: if_splits)

lemma turn_protocol_no_summary: "turn_protocol p it = Some q \<Longrightarrow> it \<noteq> CompactionSummaryItem c"
  by (induction p it rule: turn_protocol.induct) auto

lemma quiet_boundary:
  assumes "transcript_ok (Quiet n) its = Some p"
  shows "is_turn_boundary_items its \<longleftrightarrow> is_quiet p"
proof (cases its rule: rev_cases)
  case Nil
  with assms show ?thesis by (auto simp: is_turn_boundary_items_def)
next
  case (snoc xs x)
  with assms obtain q where q: "turn_protocol q x = Some p" by (auto simp: accepts_append split: option.splits)
  from turn_protocol_quiet_iff [OF q] turn_protocol_no_summary [OF q] snoc show ?thesis
    by (auto simp: is_turn_boundary_items_def split: TranscriptItem.splits)
qed

lemma path_entries_last:
  assumes "ts_entries_by_id st i = Some e" and "path_entries st (Some i) = Some es"
  shows "\<exists>es'. es = es' @ [e]"
  using assms by (auto simp: path_entries_def path_loop_iff chain_Some)

lemma boundary_at_items:
  assumes "ts_entries_by_id st i = Some e" and "path_entries st (Some i) = Some es"
  shows "is_turn_boundary_at st (Some i) = is_turn_boundary_items (map node_item es)"
  using path_entries_last [OF assms] assms(1)
  by (auto simp: is_turn_boundary_at_def get_entry_def is_turn_boundary_items_def)

lemma boundary_at_quiet:
  assumes "conforms st i p" and "i = None \<or> (\<exists>e. Option.bind i (ts_entries_by_id st) = Some e)"
  shows "is_turn_boundary_at st i \<longleftrightarrow> is_quiet p"
proof (cases i)
  case None
  with assms(1) show ?thesis
    by (auto simp: conforms_def is_turn_boundary_at_def path_entries_def path_loop_iff)
next
  case (Some j)
  with assms(2) obtain e where "ts_entries_by_id st j = Some e" by auto
  with assms(1) Some quiet_boundary boundary_at_items show ?thesis by (fastforce simp: conforms_def)
qed

lemma store_boundary_quiet:
  assumes "indexes_ok st" and "conforms st (ts_active_leaf_id st) p"
  shows "store_is_turn_boundary st \<longleftrightarrow> is_quiet p"
  unfolding store_is_turn_boundary_def
  by (rule boundary_at_quiet [OF assms(2)])
    (use active_exists [OF assms(1)] in \<open>cases "ts_active_leaf_id st"; auto\<close>)

lemma turn_protocol_turn_id:
  "turn_protocol p it = Some q \<Longrightarrow>
     (case TranscriptItem_turn_id it of None \<Rightarrow> phase_turn q = phase_turn p | Some t \<Rightarrow> t = phase_turn q)"
  by (induction p it rule: turn_protocol.induct) (auto simp: Let_def split: if_splits)

lemma transcript_last_turn_id:
  "transcript_ok (Quiet TurnId_default) its = Some p \<Longrightarrow>
     (case find_map TranscriptItem_turn_id (rev its) of Some t \<Rightarrow> t | None \<Rightarrow> TurnId_default) = phase_turn p"
proof (induction its arbitrary: p rule: rev_induct)
  case (snoc x xs)
  then obtain q where q: "transcript_ok (Quiet TurnId_default) xs = Some q" "turn_protocol q x = Some p"
    by (auto simp: accepts_append split: option.splits)
  from snoc.IH [OF q(1)] turn_protocol_turn_id [OF q(2)] show ?case
    by (cases "TranscriptItem_turn_id x") auto
qed auto

section \<open>The session invariant\<close>

definition core_fits :: "TranscriptStore \<Rightarrow> AgentCoreLoop \<Rightarrow> bool" where
  "core_fits st core \<longleftrightarrow> (\<exists>p. conforms st (ts_active_leaf_id st) p \<and> loop_ok core p)"

definition drained :: "AgentCoreLoop \<Rightarrow> bool" where
  "drained core \<longleftrightarrow> cl_transcript_item_outbox core = [] \<and> cl_action_outbox core = []"

definition session_ok :: "AgentSession \<Rightarrow> bool" where
  "session_ok s \<longleftrightarrow>
     store_ok (as_transcript_store s) \<and> all_conform (as_transcript_store s)
   \<and> core_fits (as_transcript_store s) (as_core s) \<and> drained (as_core s) \<and> outbox_ok s"

lemma new_store_simps:
  "ts_active_leaf_id TranscriptStore_new = None" "ts_entries_by_id TranscriptStore_new i = None"
  by (simp_all add: TranscriptStore_new_def)

lemma conforms_new: "conforms TranscriptStore_new None (Quiet TurnId_default)"
  by (simp add: conforms_def path_entries_def path_loop_iff)

lemma session_ok_new: "session_ok AgentSession_new"
proof -
  have "core_fits TranscriptStore_new (resume_at TurnId_default ActionId_first)"
    using conforms_new
    by (auto simp: core_fits_def resume_at_def loop_ok_def mailbox_ok_def Mailbox_default_def new_store_simps)
  moreover have "all_conform TranscriptStore_new" by (simp add: all_conform_def new_store_simps)
  ultimately show ?thesis
    by (auto simp: session_ok_def AgentSession_new_def store_ok_new drained_def resume_at_def outbox_ok_def)
qed

lemma core_enqueue_simps [simp]:
  "cl_transcript_item_outbox (core_enqueue_input l i) = cl_transcript_item_outbox l"
  "cl_action_outbox (core_enqueue_input l i) = cl_action_outbox l"
  "cl_state (core_enqueue_input l i) = cl_state l"
  "cl_next_action_id (core_enqueue_input l i) = cl_next_action_id l"
  by (simp_all add: core_enqueue_input_def)

lemma core_fits_enqueue: "core_fits st core \<Longrightarrow> core_fits st (core_enqueue_input core i)"
  by (auto simp: core_fits_def loop_ok_def core_enqueue_input_def push_input_ok)

lemma drained_enqueue [simp]: "drained (core_enqueue_input core i) = drained core"
  by (simp add: drained_def)

lemma core_fits_drive: "core_fits st core \<Longrightarrow> core_fits st (drive core)"
  by (auto simp: core_fits_def drive_loop_ok)

lemma core_fits_drain_pending: "core_fits st core \<Longrightarrow> core_fits st (snd (core_drain_pending_inputs core))"
  by (auto simp: core_fits_def loop_ok_def core_drain_pending_inputs_def Let_def drain_pending_ok split_beta)

lemma drain_pending_simps [simp]:
  "drained (snd (core_drain_pending_inputs core)) = drained core"
  "cl_state (snd (core_drain_pending_inputs core)) = cl_state core"
  "cl_next_action_id (snd (core_drain_pending_inputs core)) = cl_next_action_id core"
  by (simp_all add: core_drain_pending_inputs_def drained_def Let_def split_beta)

text \<open>Inputs.\<close>

lemma accept_agent_input_simps [simp]:
  "as_core (snd (accept_agent_input i s)) = as_core s"
  "as_transcript_store (snd (accept_agent_input i s)) = as_transcript_store s"
  by (auto simp: accept_agent_input_def Let_def split: prod.splits bool.splits)

lemma accept_agent_input_outbox:
  assumes "outbox_ok s"
  shows "outbox_ok (snd (accept_agent_input i s))"
proof (cases "completion_input i")
  case True
  then have ni: "i \<noteq> Interrupt" by auto
  show ?thesis
  proof (cases "accept_completion i (as_outstanding_actions s)")
    case (Pair b led)
    show ?thesis
    proof (cases b)
      case True
      with Pair ni \<open>completion_input i\<close> accepted_outbox_ok [OF assms, of i led] show ?thesis
        by (simp add: accept_agent_input_def Let_def)
    next
      case False
      with Pair ni \<open>completion_input i\<close> accept_completion_reject [of i "as_outstanding_actions s" led] assms
      show ?thesis by (simp add: accept_agent_input_def Let_def)
    qed
  qed
next
  case False
  with assms invalidate_outbox_ok [of s] show ?thesis
    by (auto simp: accept_agent_input_def Let_def outbox_ok_def)
qed

lemma outbox_ok_core [simp]: "outbox_ok (s\<lparr>as_core := c\<rparr>) = outbox_ok s"
  by (simp add: outbox_ok_def)

lemma enqueue_input_eq:
  "snd (enqueue_input i s) =
     (case i of ModelCompleted _ _ _ \<Rightarrow> s
      | _ \<Rightarrow> (let (ok, s1) = accept_agent_input i s
              in if ok then s1\<lparr>as_core := core_enqueue_input (as_core s1) i\<rparr> else s1))"
  by (auto simp: enqueue_input_def split: AgentInput.splits prod.splits bool.splits)

lemma accepted_session_ok:
  assumes "session_ok s"
  shows "session_ok (let (ok, s1) = accept_agent_input i s
            in if ok then s1\<lparr>as_core := core_enqueue_input (as_core s1) i\<rparr> else s1)"
proof -
  obtain ok s1 where s1: "accept_agent_input i s = (ok, s1)" by (cases "accept_agent_input i s")
  have eqs: "as_core s1 = as_core s" "as_transcript_store s1 = as_transcript_store s"
    using accept_agent_input_simps [of i s] s1 by simp_all
  with assms accept_agent_input_outbox [of s i] s1 show ?thesis
    by (auto simp: session_ok_def core_fits_enqueue)
qed

lemma enqueue_input_ok: "session_ok s \<Longrightarrow> session_ok (snd (enqueue_input i s))"
  using accepted_session_ok [of s i] unfolding enqueue_input_eq by (cases i) simp_all

lemma enqueue_completed_ok:
  "session_ok s \<Longrightarrow> session_ok (snd (enqueue_session_input stamp (SessionModelCompleted a t m) s))"
  using accepted_session_ok [of s "ModelCompleted a t m"]
  by (auto simp: enqueue_session_input_def Let_def split: prod.splits bool.splits)

text \<open>Driving.\<close>

lemma outbox_ok_queue:
  assumes "outbox_ok s" and "target_from_session_action a = Some t"
    and "oa_pending led = oa_pending (as_outstanding_actions s) @ [t]"
  shows "outbox_ok (queue_session_action a (s\<lparr>as_outstanding_actions := led\<rparr>))"
proof -
  have "a \<noteq> CancelSessionWork" using assms(2) by auto
  moreover have "set (tl (xs @ [a])) \<subseteq> insert a (set (tl xs))" for xs by (cases xs) auto
  ultimately show ?thesis using assms by (auto simp: outbox_ok_def)
qed

lemma queue_core_actions_ok:
  assumes "store_ok (as_transcript_store s)" and "outbox_ok s"
  shows "\<exists>s'. queue_core_actions actions s = Some s' \<and> as_core s' = as_core s
     \<and> as_transcript_store s' = as_transcript_store s \<and> outbox_ok s'"
  using assms
proof (induction actions arbitrary: s)
  case (Cons a actions)
  obtain ctx where ctx: "model_context (as_transcript_store s) = Some ctx"
    using path_items_total [OF Cons.prems(1)] by (auto simp: path_items_def)
  show ?case
  proof (cases a)
    case (CancelTurn t)
    have "outbox_ok (invalidate_session_work s)"
      using Cons.prems(2) by (intro invalidate_outbox_ok) (simp add: outbox_ok_def)
    with CancelTurn Cons.prems Cons.IH [of "invalidate_session_work s"] show ?thesis by simp
  next
    case (RequestModel i t)
    let ?s = "queue_session_action (SessionRequestModel i t ctx (ts_active_leaf_id (as_transcript_store s)))
        (s\<lparr>as_outstanding_actions := track_request a (as_outstanding_actions s)\<rparr>)"
    have "queue_core_action a s = Some ?s"
      using RequestModel ctx by (simp add: queue_core_action_def session_model_context_def Let_def)
    moreover have "outbox_ok ?s"
      using RequestModel by (intro outbox_ok_queue [OF Cons.prems(2)]) (simp_all add: track_request_def)
    ultimately show ?thesis using RequestModel Cons.IH [of ?s] Cons.prems by simp
  next
    case (RequestTool i t c)
    let ?s = "queue_session_action (SessionRequestTool i t c)
        (s\<lparr>as_outstanding_actions := track_request a (as_outstanding_actions s)\<rparr>)"
    have "queue_core_action a s = Some ?s"
      using RequestTool by (simp add: queue_core_action_def Let_def)
    moreover have "outbox_ok ?s"
      using RequestTool by (intro outbox_ok_queue [OF Cons.prems(2)]) (simp_all add: track_request_def)
    ultimately show ?thesis using RequestTool Cons.IH [of ?s] Cons.prems by simp
  qed
qed simp

text \<open>A store grows: its entries and their paths stay.\<close>

definition grows :: "TranscriptStore \<Rightarrow> TranscriptStore \<Rightarrow> bool" where
  "grows st st' \<longleftrightarrow> (\<forall>i e. ts_entries_by_id st i = Some e \<longrightarrow>
     ts_entries_by_id st' i = Some e \<and> path_entries st' (Some i) = path_entries st (Some i))"

lemma grows_refl [simp]: "grows st st"
  by (simp add: grows_def)

lemma grows_trans: "grows st st' \<Longrightarrow> grows st' st'' \<Longrightarrow> grows st st''"
  by (simp add: grows_def)

lemma grows_conforms:
  "grows st st' \<Longrightarrow> ts_entries_by_id st i = Some e \<Longrightarrow> conforms st (Some i) p \<Longrightarrow> conforms st' (Some i) p"
  by (simp add: grows_def conforms_def)

lemma append_item_grows:
  assumes fresh: "fresh_ids stamp" and ok: "store_ok st"
  shows "grows st (snd (append_item stamp item replay st))"
  unfolding grows_def
proof (intro allI impI)
  let ?x = "\<lparr>node_id = fst (stamp st), node_parent_id = ts_active_leaf_id st,
       node_timestamp_ms = now_ms (snd (stamp st)), node_item = item, node_provider_replay = replay\<rparr>"
  fix i e
  assume i: "ts_entries_by_id st i = Some e"
  have idx: "indexes_ok st" using ok by (simp add: store_ok_def)
  have new: "ts_entries_by_id st (node_id ?x) = None" using fresh_stamp [OF fresh idx] by simp
  with i have "i \<noteq> node_id ?x" by auto
  moreover obtain es where "path_entries st (Some i) = Some es" using path_entries_total [OF ok] by blast
  ultimately show "ts_entries_by_id (snd (append_item stamp item replay st)) i = Some e
      \<and> path_entries (snd (append_item stamp item replay st)) (Some i) = path_entries st (Some i)"
    using append_entry_old_path [OF idx new, of "Some i"] i by (simp add: append_item_def)
qed

lemma append_items_grows:
  "fresh_ids stamp \<Longrightarrow> store_ok st \<Longrightarrow> grows st (snd (append_transcript_items stamp items st))"
proof (induction items arbitrary: st)
  case (Cons it items)
  have "store_ok (snd (append_item stamp it [] st))" by (rule append_item_ok [OF Cons.prems])
  with Cons.IH [of "snd (append_item stamp it [] st)"] append_item_grows [OF Cons.prems, of it "[]"] Cons.prems(1)
  show ?case by (auto simp: append_transcript_item_def Let_def split_def intro: grows_trans)
qed simp

lemma drain_items_eq:
  fixes stamp s
  defines "s' \<equiv> drain_core_transcript_items stamp s"
  shows "as_core s' = (as_core s)\<lparr>cl_transcript_item_outbox := []\<rparr>"
    and "as_transcript_store s' =
      snd (append_transcript_items stamp (cl_transcript_item_outbox (as_core s)) (as_transcript_store s))"
    and "outbox_ok s' = outbox_ok s"
  by (auto simp: s'_def drain_core_transcript_items_def core_drain_transcript_items_def emit_events_eq
      outbox_ok_def Let_def split: prod.splits)

lemma drive_and_drain_ok:
  assumes fresh: "fresh_ids stamp" and st: "store_ok (as_transcript_store s)" "all_conform (as_transcript_store s)"
    and fits: "core_fits (as_transcript_store s) core" and out: "outbox_ok s"
  shows "\<exists>s'. drain_core_actions (drain_core_transcript_items stamp (s\<lparr>as_core := drive core\<rparr>)) = Some s'
     \<and> session_ok s' \<and> cl_state (as_core s') = cl_state (drive core)
     \<and> as_transcript_store s'
         = snd (append_transcript_items stamp (cl_transcript_item_outbox (drive core)) (as_transcript_store s))"
proof -
  let ?d = "drive core"
  let ?s1 = "drain_core_transcript_items stamp (s\<lparr>as_core := ?d\<rparr>)"
  let ?s2 = "?s1\<lparr>as_core := (as_core ?s1)\<lparr>cl_action_outbox := []\<rparr>\<rparr>"
  obtain p where p: "conforms (as_transcript_store s) (ts_active_leaf_id (as_transcript_store s)) p" "loop_ok ?d p"
    using core_fits_drive [OF fits] by (auto simp: core_fits_def)
  then obtain q where q: "transcript_ok p (cl_transcript_item_outbox ?d) = Some q" "sim (cl_state ?d) q"
    "phase_turn q = cl_last_turn_id ?d" "state_ok (cl_state ?d)" "mailbox_ok (cl_mailbox ?d)"
    by (auto simp: loop_ok_def)
  note eqs = drain_items_eq [of stamp "s\<lparr>as_core := ?d\<rparr>", simplified]
  from append_items_conform [OF fresh st p(1) q(1)] q(2-5)
  have fits2: "store_ok (as_transcript_store ?s2)" "all_conform (as_transcript_store ?s2)"
    "core_fits (as_transcript_store ?s2) (as_core ?s2)" "drained (as_core ?s2)"
    by (auto simp: eqs core_fits_def drained_def loop_ok_def)
  have drain: "drain_core_actions ?s1 = queue_core_actions (cl_action_outbox ?d) ?s2"
    by (simp add: drain_core_actions_def core_drain_actions_def eqs Let_def)
  have "outbox_ok ?s2" using out by (simp add: eqs)
  from queue_core_actions_ok [OF fits2(1) this, of "cl_action_outbox ?d"] obtain s' where
    s': "queue_core_actions (cl_action_outbox ?d) ?s2 = Some s'" "as_core s' = as_core ?s2"
      "as_transcript_store s' = as_transcript_store ?s2" "outbox_ok s'" by blast
  with fits2 have "session_ok s'" by (simp add: session_ok_def)
  with s' show ?thesis by (simp add: drain eqs)
qed

lemma session_drive_ok:
  assumes "fresh_ids stamp" and "session_ok s"
  shows "\<exists>s'. session_drive stamp s = Some s' \<and> session_ok s' \<and> cl_state (as_core s') = cl_state (drive (as_core s))
     \<and> as_transcript_store s' = snd (append_transcript_items stamp
           (cl_transcript_item_outbox (drive (as_core s))) (as_transcript_store s))"
  using drive_and_drain_ok [OF assms(1), of s "as_core s"] assms(2)
  by (simp add: session_drive_def session_ok_def)

section \<open>History operations\<close>

definition no_inputs :: "Mailbox \<Rightarrow> bool" where
  "no_inputs m \<longleftrightarrow> mb_steer m = [] \<and> mb_follow_up m = [] \<and> mb_daemon_observations m = []"

definition at_rest :: "AgentCoreLoop \<Rightarrow> bool" where
  "at_rest l \<longleftrightarrow> cl_state l = Idle \<and> mailbox_ok (cl_mailbox l) \<and> no_inputs (cl_mailbox l)"

lemma interruptible_iff: "interruptible st \<longleftrightarrow> st \<noteq> Idle"
  by (cases st) auto

lemma at_rest_iteration:
  assumes "mailbox_ok (cl_mailbox l)" and "no_inputs (cl_mailbox l)"
    and "cl_state l = Idle \<or> mb_interrupt_requested (cl_mailbox l)"
  shows "at_rest (fst (drive_iteration l))"
proof (cases rule: drive_iteration_cases [of l])
  case (quiet m)
  with assms next_event_None [OF quiet(1)] show ?thesis
    by (auto simp: at_rest_def no_inputs_def mailbox_ok_def)
next
  case (event e m s nxt items actions)
  have m: "mailbox_ok m" using next_event_ok [OF assms(1) event(1)] by simp
  have n: "no_inputs m" and e: "e = EvInterrupt \<or> cl_state l = Idle \<and> is_completion e"
    using event(1) assms
    by (auto simp: next_event_unfold no_inputs_def mailbox_ok_def interruptible_iff
        split: if_splits list.splits AgentState.splits)
  from e have "s = Idle"
  proof
    assume "cl_state l = Idle \<and> is_completion e"
    moreover have "\<not> awaits Idle e" by (cases e) auto
    ultimately show ?thesis using stale_completion_ignored [of e Idle "cl_next_action_id l"] event(2) by simp
  qed (use event(2) interrupt_goes_idle in blast)
  with m n event(3) show ?thesis by (simp add: at_rest_def)
qed

lemma interrupt_drive_idle:
  assumes "mailbox_ok (cl_mailbox l)" and "no_inputs (cl_mailbox l)"
  shows "cl_state (drive (core_enqueue_input l Interrupt)) = Idle"
proof -
  let ?l = "core_enqueue_input l Interrupt"
  obtain l' c where it: "drive_iteration ?l = (l', c)" by (cases "drive_iteration ?l")
  have "at_rest (fst (drive_iteration ?l))"
    by (rule at_rest_iteration)
      (use assms in \<open>auto simp: core_enqueue_input_def request_interrupt_def mailbox_ok_def no_inputs_def\<close>)
  then have r: "at_rest l'" using it by simp
  have "at_rest (drive l')"
    by (rule drive_invariant [where P = at_rest]) (use r at_rest_iteration in \<open>auto simp: at_rest_def\<close>)
  with r it show ?thesis by (cases c) (auto simp: drive.simps [of ?l] at_rest_def)
qed

lemma session_ok_quiet:
  assumes "session_ok s" and "cl_state (as_core s) = Idle"
  shows "store_is_turn_boundary (as_transcript_store s)"
proof -
  obtain p where p: "conforms (as_transcript_store s) (ts_active_leaf_id (as_transcript_store s)) p"
    "loop_ok (as_core s) p" using assms(1) by (auto simp: session_ok_def core_fits_def)
  with assms have "is_quiet p" by (auto simp: session_ok_def drained_def loop_ok_def)
  with store_boundary_quiet [OF _ p(1)] assms(1) show ?thesis by (simp add: session_ok_def store_ok_def)
qed

lemma prepare_ok:
  assumes fresh: "fresh_ids stamp" and ok: "session_ok s"
  shows "\<exists>s'. prepare_for_history_operation stamp s = Some (Inr (fst (core_drain_pending_inputs (as_core s))), s')
     \<and> session_ok s' \<and> cl_state (as_core s') = Idle \<and> grows (as_transcript_store s) (as_transcript_store s')"
proof -
  let ?core = "snd (core_drain_pending_inputs (as_core s))"
  let ?q = "fst (core_drain_pending_inputs (as_core s))"
  let ?s1 = "invalidate_session_work (s\<lparr>as_core := ?core\<rparr>)"
  have st: "store_ok (as_transcript_store s)" "all_conform (as_transcript_store s)"
    and fits: "core_fits (as_transcript_store s) ?core"
    using ok core_fits_drain_pending by (auto simp: session_ok_def)
  have out: "outbox_ok ?s1"
    using ok by (intro invalidate_outbox_ok) (simp add: session_ok_def outbox_ok_def)
  show ?thesis
  proof (cases "cl_state (as_core s) = Idle")
    case True
    have "session_ok ?s1" using ok st fits out by (simp add: session_ok_def)
    with True session_ok_quiet [OF this] show ?thesis
      by (simp add: prepare_for_history_operation_def core_is_idle_def Let_def split_beta)
  next
    case False
    have mb: "mailbox_ok (cl_mailbox ?core)" "no_inputs (cl_mailbox ?core)"
      using fits by (auto simp: core_fits_def loop_ok_def no_inputs_def core_drain_pending_inputs_def
          drain_pending_inputs_def)
    have "core_fits (as_transcript_store ?s1) (core_enqueue_input ?core Interrupt)"
      using core_fits_enqueue [OF fits] by simp
    from drive_and_drain_ok [OF fresh _ _ this out] st
    obtain s' where s': "drain_core_actions (drain_core_transcript_items stamp
          (?s1\<lparr>as_core := drive (core_enqueue_input ?core Interrupt)\<rparr>)) = Some s'" "session_ok s'"
        "cl_state (as_core s') = cl_state (drive (core_enqueue_input ?core Interrupt))"
        "as_transcript_store s' = snd (append_transcript_items stamp
          (cl_transcript_item_outbox (drive (core_enqueue_input ?core Interrupt))) (as_transcript_store s))"
      by auto
    have idle: "cl_state (as_core s') = Idle" using s'(3) interrupt_drive_idle [OF mb] by simp
    from False s'(1) idle session_ok_quiet [OF s'(2) idle] s'(2) append_items_grows [OF fresh st(1)] s'(4)
    show ?thesis
      by (simp add: prepare_for_history_operation_def core_is_idle_def Let_def split_beta)
  qed
qed

text \<open>Moving the active leaf.\<close>

lemma set_leaf_simps [simp]:
  "path_entries (st\<lparr>ts_active_leaf_id := x\<rparr>) i = path_entries st i"
  "conforms (st\<lparr>ts_active_leaf_id := x\<rparr>) i p = conforms st i p"
  "all_conform (st\<lparr>ts_active_leaf_id := x\<rparr>) = all_conform st"
  by (simp_all add: path_entries_def conforms_def all_conform_def)

lemma set_leaf_ok:
  "store_ok st \<Longrightarrow> (\<And>i. x = Some i \<Longrightarrow> ts_entries_by_id st i \<noteq> None) \<Longrightarrow> store_ok (st\<lparr>ts_active_leaf_id := x\<rparr>)"
  by (auto simp: store_ok_def indexes_ok_def)

lemma restore_queued_simps [simp]:
  "as_transcript_store (restore_queued_user_inputs q s) = as_transcript_store s"
  "outbox_ok (restore_queued_user_inputs q s) = outbox_ok s"
  "as_core (restore_queued_user_inputs q s) = foldl core_enqueue_input (as_core s) q"
  "as_outstanding_actions (restore_queued_user_inputs q s) = as_outstanding_actions s"
  by (simp_all add: restore_queued_user_inputs_def)

lemma core_fits_restore: "core_fits st core \<Longrightarrow> core_fits st (foldl core_enqueue_input core q)"
  by (induction q arbitrary: core) (auto simp: core_fits_enqueue)

lemma drained_restore [simp]: "drained (foldl core_enqueue_input core q) = drained core"
  by (induction q arbitrary: core) auto

lemma session_ok_restore: "session_ok s \<Longrightarrow> session_ok (restore_queued_user_inputs q s)"
  by (auto simp: session_ok_def core_fits_restore)

lemma loop_ok_resume_at: "loop_ok (resume_at n a) (Quiet n)"
  by (simp add: loop_ok_def resume_at_def mailbox_ok_def Mailbox_default_def)

lemma loop_ok_resume_running_model: "loop_ok (resume_running_model t a) (AwaitModel t again)"
  by (simp add: loop_ok_def resume_running_model_def mailbox_ok_def Mailbox_default_def)

lemma drained_resume [simp]: "drained (resume_at n a)" "drained (resume_running_model t a)"
  by (simp_all add: drained_def resume_at_def resume_running_model_def)

lemma model_context_items: "conforms st (ts_active_leaf_id st) p \<Longrightarrow>
    \<exists>ctx. model_context st = Some ctx \<and> transcript_ok (Quiet TurnId_default) (mc_items ctx) = Some p
      \<and> last_turn_id ctx = phase_turn p"
  by (auto simp: conforms_active path_items_def last_turn_id_def transcript_last_turn_id)

lemma conforms_None [simp]: "conforms st None p \<longleftrightarrow> p = Quiet TurnId_default"
  by (auto simp: conforms_def path_entries_def path_loop_iff)

text \<open>A boundary is an entry (or none), its path is quiet, and it stays so when the store grows.\<close>

lemma boundary_quiet_path:
  assumes "session_ok s" and "is_turn_boundary_at (as_transcript_store s) leaf"
    and "grows (as_transcript_store s) st"
  obtains n where "conforms st leaf (Quiet n)" and "is_turn_boundary_at st leaf"
    and "\<forall>i. leaf = Some i \<longrightarrow> ts_entries_by_id st i \<noteq> None"
proof (cases leaf)
  case None
  then show ?thesis using that [of TurnId_default] by (simp add: is_turn_boundary_at_def)
next
  case (Some i)
  then obtain e where e: "ts_entries_by_id (as_transcript_store s) i = Some e"
    using assms(2) by (auto simp: is_turn_boundary_at_def get_entry_def split: option.splits)
  with assms(1) obtain p where p: "conforms (as_transcript_store s) (Some i) p"
    by (auto simp: session_ok_def all_conform_def)
  with boundary_at_quiet [OF p] e assms(2) Some obtain n where "p = Quiet n" by (cases p) auto
  moreover have "conforms st (Some i) p" by (rule grows_conforms [OF assms(3) e p])
  moreover have "ts_entries_by_id st i = Some e" using assms(3) e by (simp add: grows_def)
  ultimately show ?thesis
    using that [of n] Some assms(2) e by (simp add: is_turn_boundary_at_def get_entry_def)
qed

lemma set_leaf_rewind:
  "is_turn_boundary_at st leaf \<Longrightarrow> \<forall>i. leaf = Some i \<longrightarrow> ts_entries_by_id st i \<noteq> None \<Longrightarrow>
     set_active_leaf_for_rewind leaf st = (Inr (), st\<lparr>ts_active_leaf_id := leaf\<rparr>)"
  by (cases leaf) (simp_all add: set_active_leaf_for_rewind_def reset_active_leaf_def
      set_active_leaf_to_boundary_def contains_entry_def)

lemma reset_runtime_ok:
  assumes ok: "session_ok s" and st: "st = (as_transcript_store s)\<lparr>ts_active_leaf_id := leaf\<rparr>"
    and n: "conforms (as_transcript_store s) leaf (Quiet n)"
    and known: "\<forall>i. leaf = Some i \<longrightarrow> ts_entries_by_id (as_transcript_store s) i \<noteq> None"
  shows "\<exists>s'. reset_runtime_to_active_leaf (s\<lparr>as_transcript_store := st\<rparr>) = Some s' \<and> session_ok s'
     \<and> as_transcript_store s' = st \<and> cl_mailbox (as_core s') = Mailbox_default"
proof -
  from model_context_items [of st "Quiet n"] n st obtain ctx where
    ctx: "model_context st = Some ctx" "last_turn_id ctx = n" by auto
  let ?s' = "s\<lparr>as_transcript_store := st, as_core := resume_at n (cl_next_action_id (as_core s)),
    as_outstanding_actions := outstanding_clear (as_outstanding_actions s),
    as_action_outbox := filter is_cancel_action (as_action_outbox s)\<rparr>"
  have "store_ok st" "all_conform st" using ok known by (auto simp: st session_ok_def intro!: set_leaf_ok)
  moreover have "core_fits st (resume_at n a)" for a
    using n loop_ok_resume_at by (auto simp: core_fits_def st)
  moreover have "outbox_ok ?s'" using ok by (auto simp: session_ok_def outbox_ok_def filter_tl)
  ultimately have "session_ok ?s'" by (simp add: session_ok_def)
  with ctx show ?thesis by (simp add: reset_runtime_to_active_leaf_def resume_at_def)
qed

lemma mailbox_restore: "cl_mailbox (foldl core_enqueue_input core q) = foldl push_input (cl_mailbox core) q"
  by (induction q arbitrary: core) (auto simp: core_enqueue_input_def)

lemma rewind_ok:
  assumes fresh: "fresh_ids stamp" and ok: "session_ok s"
    and bound: "is_turn_boundary_at (as_transcript_store s) leaf"
  shows "\<exists>s'. rewind stamp leaf s = Some (Inr (), s') \<and> session_ok s'
     \<and> ts_active_leaf_id (as_transcript_store s') = leaf
     \<and> cl_mailbox (as_core s') = foldl push_input Mailbox_default (fst (core_drain_pending_inputs (as_core s)))"
proof -
  let ?q = "fst (core_drain_pending_inputs (as_core s))"
  from prepare_ok [OF fresh ok] obtain s1 where
    s1: "prepare_for_history_operation stamp s = Some (Inr ?q, s1)" "session_ok s1"
      "grows (as_transcript_store s) (as_transcript_store s1)" by blast
  obtain n where n: "conforms (as_transcript_store s1) leaf (Quiet n)"
    "is_turn_boundary_at (as_transcript_store s1) leaf"
    "\<forall>i. leaf = Some i \<longrightarrow> ts_entries_by_id (as_transcript_store s1) i \<noteq> None"
    by (rule boundary_quiet_path [OF ok bound s1(3)])
  let ?st = "(as_transcript_store s1)\<lparr>ts_active_leaf_id := leaf\<rparr>"
  from reset_runtime_ok [OF s1(2) refl n(1,3)] obtain s2 where
    s2: "reset_runtime_to_active_leaf (s1\<lparr>as_transcript_store := ?st\<rparr>) = Some s2" "session_ok s2"
      "as_transcript_store s2 = ?st" "cl_mailbox (as_core s2) = Mailbox_default" by blast
  have "\<not> (case leaf of Some i \<Rightarrow> \<not> contains_entry (as_transcript_store s) i | None \<Rightarrow> False)"
    using bound by (auto simp: is_turn_boundary_at_def get_entry_def contains_entry_def split: option.splits)
  then have "rewind stamp leaf s = Some (Inr (), restore_queued_user_inputs ?q s2)"
    using bound s1(1) set_leaf_rewind [OF n(2,3)] s2(1) by (simp add: rewind_def)
  with s2 show ?thesis by (simp add: session_ok_restore mailbox_restore)
qed

lemma rewind_rejected:
  "\<not> is_turn_boundary_at (as_transcript_store s) leaf \<Longrightarrow>
     \<exists>error. rewind stamp leaf s = Some (Inl (StoreError error), s)"
  by (simp add: rewind_def)

text \<open>
  Resuming a model turn at a checkpoint: the request the checkpoint belongs to must have
  been made for the turn that is resumed.
\<close>

lemma resume_model_turn_ok:
  assumes fresh: "fresh_ids stamp" and ok: "session_ok s"
    and e: "ts_entries_by_id (as_transcript_store s) c = Some e"
    and p: "conforms (as_transcript_store s) (Some c) (AwaitModel t again)"
  shows "\<exists>s'. resume_model_turn stamp c t a s = Some (Inr (), s') \<and> session_ok s'
     \<and> ts_active_leaf_id (as_transcript_store s') = Some c
     \<and> cl_state (as_core s') = RunningModel t a
     \<and> oa_pending (as_outstanding_actions s') = [\<lparr>ct_action_id = a, ct_turn_id = t, ct_tool = None\<rparr>]
     \<and> cl_mailbox (as_core s') = foldl push_input Mailbox_default (fst (core_drain_pending_inputs (as_core s)))"
proof -
  let ?q = "fst (core_drain_pending_inputs (as_core s))"
  from prepare_ok [OF fresh ok] obtain s1 where
    s1: "prepare_for_history_operation stamp s = Some (Inr ?q, s1)" "session_ok s1"
      "grows (as_transcript_store s) (as_transcript_store s1)" by blast
  have e1: "ts_entries_by_id (as_transcript_store s1) c = Some e" using s1(3) e by (simp add: grows_def)
  have p1: "conforms (as_transcript_store s1) (Some c) (AwaitModel t again)" by (rule grows_conforms [OF s1(3) e p])
  let ?st = "(as_transcript_store s1)\<lparr>ts_active_leaf_id := Some c\<rparr>"
  let ?s2 = "s1\<lparr>as_transcript_store := ?st, as_core := resume_running_model t a,
      as_outstanding_actions := outstanding_clear (as_outstanding_actions s1),
      as_action_outbox := filter is_cancel_action (as_action_outbox s1)\<rparr>"
  from model_context_items [of ?st] p1 obtain ctx where ctx: "model_context ?st = Some ctx" by auto
  let ?a = "SessionRequestModel a t ctx (Some c)"
  let ?s3 = "queue_session_action ?a (?s2\<lparr>as_outstanding_actions :=
      track_session_action ?a (as_outstanding_actions ?s2)\<rparr>)"
  have run: "resume_model_turn stamp c t a s = Some (Inr (), restore_queued_user_inputs ?q ?s3)"
    using s1(1) e e1 ctx
    by (simp add: resume_model_turn_def contains_entry_def set_active_leaf_to_entry_def
        session_model_context_def Let_def)
  have "store_ok ?st" "all_conform ?st" using s1(2) e1 by (auto simp: session_ok_def intro!: set_leaf_ok)
  moreover have "core_fits ?st (resume_running_model t a)"
    using p1 loop_ok_resume_running_model by (auto simp: core_fits_def)
  moreover have "outbox_ok ?s2" using s1(2) by (auto simp: session_ok_def outbox_ok_def filter_tl)
  then have "outbox_ok ?s3" by (rule outbox_ok_queue) (simp_all add: track_session_action_def)
  ultimately have "session_ok ?s3" by (simp add: session_ok_def)
  moreover have "cl_state (foldl core_enqueue_input core q) = cl_state core" for core q
    by (induction q arbitrary: core) auto
  ultimately show ?thesis
    using run by (simp add: session_ok_restore mailbox_restore resume_running_model_def track_session_action_def)
qed

section \<open>Crash recovery\<close>

definition closes_with :: "(ModelContext \<Rightarrow> ModelContext) \<Rightarrow> TurnOutcome \<Rightarrow> bool" where
  "closes_with f out \<longleftrightarrow> out \<noteq> GracefulOutcome
     \<and> (\<forall>its. mc_items (f (from_transcript_items its)) = close_open_turn_items_to_boundary its out)"

lemma closes_with_recovery:
  "closes_with close_open_turn_to_boundary CrashedOutcome"
  "closes_with close_open_turn_to_interrupted_boundary InterruptedOutcome"
  by (simp_all add: closes_with_def close_open_turn_to_boundary_def
      close_open_turn_to_interrupted_boundary_def from_transcript_items_def Let_def)

lemma close_store_ok:
  assumes fresh: "fresh_ids stamp" and f: "closes_with f out"
    and st: "store_ok st" "all_conform st" and p: "conforms st (ts_active_leaf_id st) p"
    and rest: "is_quiet p \<or> resting p"
  shows "\<exists>st'. close_store_to_boundary stamp f st = Some (Inr (), st') \<and> store_ok st' \<and> all_conform st'
     \<and> conforms st' (ts_active_leaf_id st') (Quiet (phase_turn p)) \<and> grows st st'
     \<and> (resting p \<longrightarrow> st' = snd (append_transcript_items stamp
          (crashed_items (phase_waiting p) @ [TurnFinished (phase_turn p) out]) st))"
proof -
  have idx: "indexes_ok st" using st(1) by (simp add: store_ok_def)
  show ?thesis
  proof (cases "is_quiet p")
    case True
    then obtain n where "p = Quiet n" by (cases p) auto
    with True p st store_boundary_quiet [OF idx p] show ?thesis
      by (simp add: close_store_to_boundary_def)
  next
    case False
    with rest have r: "resting p" by simp
    obtain ctx where ctx: "model_context st = Some ctx" "transcript_ok (Quiet TurnId_default) (mc_items ctx) = Some p"
      using model_context_items [OF p] by blast
    let ?new = "crashed_items (phase_waiting p) @ [TurnFinished (phase_turn p) out]"
    let ?st' = "snd (append_transcript_items stamp ?new st)"
    have closed: "mc_items (f (from_transcript_items (mc_items ctx))) = mc_items ctx @ ?new"
      using close_conformant(1) [OF ctx(2) r, of out] f by (simp add: closes_with_def)
    have "transcript_ok p ?new = Some (Quiet (phase_turn p))"
      using close_conformant [OF ctx(2) r, of out] f ctx(2) by (simp add: closes_with_def accepts_append)
    from append_items_conform [OF fresh st p this] have st': "store_ok ?st'" "all_conform ?st'"
      "conforms ?st' (ts_active_leaf_id ?st') (Quiet (phase_turn p))" by auto
    have "store_is_turn_boundary ?st'"
      using store_boundary_quiet [OF _ st'(3)] st'(1) by (simp add: store_ok_def)
    with False ctx(1) closed store_boundary_quiet [OF idx p] r st' append_items_grows [OF fresh st(1), of ?new]
    show ?thesis by (simp add: close_store_to_boundary_def Let_def)
  qed
qed

lemma sim_resting: "sim s p \<Longrightarrow> is_quiet p \<or> resting p"
  by (cases s) auto

lemma session_phase:
  assumes "session_ok s"
  obtains p where "conforms (as_transcript_store s) (ts_active_leaf_id (as_transcript_store s)) p"
    and "sim (cl_state (as_core s)) p" and "is_quiet p \<or> resting p"
  using assms sim_resting by (fastforce simp: session_ok_def core_fits_def loop_ok_def drained_def)

lemma stored_entries_roundtrip:
  "session_ok s \<Longrightarrow> from_storage_entries (map node_of_stored (ss_entries (to_stored_session s sid)))
      (ss_active_leaf_id (to_stored_session s sid)) = Inr (as_transcript_store s)"
  by (simp add: to_stored_session_def o_def from_storage_entries_entries session_ok_def store_ok_def)

lemma resumed_session_ok:
  assumes "store_ok st" and "all_conform st" and "conforms st (ts_active_leaf_id st) (Quiet n)"
    and "s = AgentSession_new\<lparr>as_core := resume_at n a, as_event_outbox := ev, as_transcript_store := st\<rparr>"
  shows "session_ok s"
  using assms loop_ok_resume_at
  by (auto simp: session_ok_def core_fits_def outbox_ok_def AgentSession_new_def)

lemma resumed_core_quiet:
  assumes "transcript_ok (Quiet TurnId_default) (mc_items ctx) = Some (Quiet n)" and "last_turn_id ctx = n"
  shows "resumed_core ctx = resume_at n ActionId_first"
proof -
  have "is_turn_boundary_items (mc_items ctx)" using quiet_boundary [OF assms(1)] by simp
  then have "open_turn_start (mc_items ctx) = None"
    using open_turn_start_not_boundary by (cases "open_turn_start (mc_items ctx)") auto
  with assms(2) show ?thesis
    by (simp add: resumed_core_def open_turn_ready_to_continue_def open_turn_ready_to_continue_items_def)
qed

text \<open>
  Loading what was saved: the stored entries come back, the open turn is closed after
  them, and the session is idle.
\<close>

lemma from_stored_session_ok:
  assumes fresh: "fresh_ids stamp" and ok: "session_ok s"
  shows "\<exists>s'. from_stored_session stamp (to_stored_session s sid) = Some (Inr s') \<and> session_ok s'
     \<and> cl_state (as_core s') = Idle \<and> grows (as_transcript_store s) (as_transcript_store s')
     \<and> (cl_state (as_core s) = Idle \<longrightarrow> as_transcript_store s' = as_transcript_store s)"
proof -
  obtain p where p: "conforms (as_transcript_store s) (ts_active_leaf_id (as_transcript_store s)) p"
    "sim (cl_state (as_core s)) p" "is_quiet p \<or> resting p" by (rule session_phase [OF ok])
  have st: "store_ok (as_transcript_store s)" "all_conform (as_transcript_store s)"
    using ok by (auto simp: session_ok_def)
  from close_store_ok [OF fresh closes_with_recovery(1) st p(1,3)] obtain st' where
    st': "close_store_to_boundary stamp close_open_turn_to_boundary (as_transcript_store s) = Some (Inr (), st')"
      "store_ok st'" "all_conform st'" "conforms st' (ts_active_leaf_id st') (Quiet (phase_turn p))"
      "grows (as_transcript_store s) st'" by blast
  from model_context_items [OF st'(4)] obtain ctx where ctx: "model_context st' = Some ctx"
    "resumed_core ctx = resume_at (phase_turn p) ActionId_first"
    using resumed_core_quiet by auto
  let ?s' = "AgentSession_new\<lparr>as_core := resume_at (phase_turn p) ActionId_first, as_transcript_store := st'\<rparr>"
  have "from_stored_session stamp (to_stored_session s sid) = Some (Inr ?s')"
    unfolding from_stored_session_def stored_entries_roundtrip [OF ok] using st'(1) ctx
    by (simp add: from_transcript_store_def close_transcript_store_open_turn_def)
  moreover have "session_ok ?s'" by (rule resumed_session_ok [OF st'(2-4)]) (simp add: AgentSession_new_def)
  moreover have "st' = as_transcript_store s" if "cl_state (as_core s) = Idle"
    using st'(1) session_ok_quiet [OF ok that] by (simp add: close_store_to_boundary_def)
  ultimately show ?thesis using st'(5) by (simp add: resume_at_def)
qed

lemma from_stored_session_interrupted_ok:
  assumes fresh: "fresh_ids stamp" and ok: "session_ok s"
  shows "\<exists>s'. from_stored_session_interrupted stamp (to_stored_session s sid) = Some (Inr s') \<and> session_ok s'
     \<and> cl_state (as_core s') = Idle \<and> grows (as_transcript_store s) (as_transcript_store s')"
proof -
  obtain p where p: "conforms (as_transcript_store s) (ts_active_leaf_id (as_transcript_store s)) p"
    "sim (cl_state (as_core s)) p" "is_quiet p \<or> resting p" by (rule session_phase [OF ok])
  have st: "store_ok (as_transcript_store s)" "all_conform (as_transcript_store s)"
    using ok by (auto simp: session_ok_def)
  from close_store_ok [OF fresh closes_with_recovery(2) st p(1,3)] obtain st' where
    st': "close_store_to_boundary stamp close_open_turn_to_interrupted_boundary (as_transcript_store s) = Some (Inr (), st')"
      "store_ok st'" "all_conform st'" "conforms st' (ts_active_leaf_id st') (Quiet (phase_turn p))"
      "grows (as_transcript_store s) st'" by blast
  from model_context_items [OF st'(4)] obtain ctx where ctx: "model_context st' = Some ctx"
    "last_turn_id ctx = phase_turn p" by auto
  let ?n = "length (ss_entries (to_stored_session s sid))"
  let ?s' = "AgentSession_new\<lparr>as_core := resume_at (phase_turn p) ActionId_first,
      as_event_outbox := map (\<lambda>e. TranscriptItemAppended (node_id e) (node_item e)) (drop ?n (entries st')),
      as_transcript_store := st'\<rparr>"
  have "from_stored_session_interrupted stamp (to_stored_session s sid) = Some (Inr ?s')"
    unfolding from_stored_session_interrupted_def Let_def stored_entries_roundtrip [OF ok] using st'(1) ctx
    by (simp add: close_transcript_store_open_turn_as_interrupted_def)
  moreover have "session_ok ?s'" by (rule resumed_session_ok [OF st'(2-4) refl])
  ultimately show ?thesis using st'(5) by (simp add: resume_at_def)
qed

section \<open>Reachable sessions\<close>

text \<open>
  One step of a session: a public operation, or a crash followed by a load of what was
  stored. A model turn is resumed where a request for it was made.
\<close>

inductive session_step :: "stamp \<Rightarrow> AgentSession \<Rightarrow> AgentSession \<Rightarrow> bool" for stamp where
  step_enqueue: "session_step stamp s (snd (enqueue_input i s))"
| step_model_completed:
    "session_step stamp s (snd (enqueue_session_input stamp (SessionModelCompleted a t m) s))"
| step_drive: "session_drive stamp s = Some s' \<Longrightarrow> session_step stamp s s'"
| step_drain_actions: "session_step stamp s (snd (session_drain_actions s))"
| step_drain_events: "session_step stamp s (snd (session_drain_events s))"
| step_drain_pending: "session_step stamp s (snd (session_drain_pending_inputs s))"
| step_rewind: "rewind stamp leaf s = Some (r, s') \<Longrightarrow> session_step stamp s s'"
| step_resume:
    "conforms (as_transcript_store s) (Some c) (AwaitModel t again) \<Longrightarrow>
       resume_model_turn stamp c t a s = Some (r, s') \<Longrightarrow> session_step stamp s s'"
| step_crash: "from_stored_session stamp (to_stored_session s sid) = Some (Inr s') \<Longrightarrow> session_step stamp s s'"
| step_crash_interrupted:
    "from_stored_session_interrupted stamp (to_stored_session s sid) = Some (Inr s') \<Longrightarrow> session_step stamp s s'"

inductive session_reachable :: "stamp \<Rightarrow> AgentSession \<Rightarrow> bool" for stamp where
  reachable_new: "session_reachable stamp AgentSession_new"
| reachable_step: "session_reachable stamp s \<Longrightarrow> session_step stamp s s' \<Longrightarrow> session_reachable stamp s'"

lemma drain_ok:
  "session_ok s \<Longrightarrow> session_ok (snd (session_drain_actions s))"
  "session_ok s \<Longrightarrow> session_ok (snd (session_drain_events s))"
  "session_ok s \<Longrightarrow> session_ok (snd (session_drain_pending_inputs s))"
  by (auto simp: session_ok_def session_drain_actions_def session_drain_events_def outbox_ok_def
      session_drain_pending_inputs_def split_beta Let_def core_fits_drain_pending)

lemma resume_missing: "ts_entries_by_id (as_transcript_store s) c = None \<Longrightarrow>
    resume_model_turn stamp c t a s = Some (Inl (StoreError EntryNotFound), s)"
  by (simp add: resume_model_turn_def contains_entry_def)

lemma session_step_ok:
  assumes "session_step stamp s s'" and fresh: "fresh_ids stamp" and ok: "session_ok s"
  shows "session_ok s'"
  using assms(1)
proof cases
  case step_drive
  then show ?thesis using session_drive_ok [OF fresh ok] by auto
next
  case (step_rewind leaf r)
  then show ?thesis
    using rewind_ok [OF fresh ok, of leaf] rewind_rejected [of s leaf stamp] ok
    by (cases "is_turn_boundary_at (as_transcript_store s) leaf") auto
next
  case (step_resume c t again a r)
  then show ?thesis
    using resume_model_turn_ok [OF fresh ok _ step_resume(1), of _ a] resume_missing [of s c stamp t a] ok
    by (cases "ts_entries_by_id (as_transcript_store s) c") auto
next
  case (step_crash sid)
  then show ?thesis using from_stored_session_ok [OF fresh ok, of sid] by auto
next
  case (step_crash_interrupted sid)
  then show ?thesis using from_stored_session_interrupted_ok [OF fresh ok, of sid] by auto
qed (use ok in \<open>simp_all add: enqueue_input_ok enqueue_completed_ok drain_ok\<close>)

lemma reachable_session_ok: "session_reachable stamp s \<Longrightarrow> fresh_ids stamp \<Longrightarrow> session_ok s"
  by (induction rule: session_reachable.induct) (auto simp: session_ok_new intro: session_step_ok)

lemma crash_recovery_path:
  assumes "session_reachable stamp s" and fresh: "fresh_ids stamp"
  shows "\<exists>s' old p. from_stored_session stamp (to_stored_session s sid) = Some (Inr s')
    \<and> session_reachable stamp s' \<and> cl_state (as_core s') = Idle
    \<and> path_items (as_transcript_store s) = Some old
    \<and> transcript_ok (Quiet TurnId_default) old = Some p
    \<and> path_items (as_transcript_store s') = Some (old @
         (if is_quiet p then [] else crashed_items (phase_waiting p) @ [TurnFinished (phase_turn p) CrashedOutcome]))"
proof -
  have ok: "session_ok s" by (rule reachable_session_ok [OF assms])
  have st: "store_ok (as_transcript_store s)" "all_conform (as_transcript_store s)"
    using ok by (auto simp: session_ok_def)
  obtain p where p: "conforms (as_transcript_store s) (ts_active_leaf_id (as_transcript_store s)) p"
    "is_quiet p \<or> resting p" by (rule session_phase [OF ok]) 
  then obtain old where old: "path_items (as_transcript_store s) = Some old"
    "transcript_ok (Quiet TurnId_default) old = Some p" by (auto simp: conforms_active)
  from from_stored_session_ok [OF fresh ok, of sid] obtain s' where
    s': "from_stored_session stamp (to_stored_session s sid) = Some (Inr s')" "cl_state (as_core s') = Idle" by blast
  have store: "\<exists>r. close_transcript_store_open_turn stamp (as_transcript_store s) = Some (Inr r, as_transcript_store s')"
    using s'(1) unfolding from_stored_session_def stored_entries_roundtrip [OF ok]
    by (auto simp: from_transcript_store_def split: option.splits sum.splits)
  from close_store_ok [OF fresh closes_with_recovery(1) st p] store
  have "resting p \<Longrightarrow> as_transcript_store s' = snd (append_transcript_items stamp
      (crashed_items (phase_waiting p) @ [TurnFinished (phase_turn p) CrashedOutcome]) (as_transcript_store s))"
    by (auto simp: close_transcript_store_open_turn_def)
  moreover have "as_transcript_store s' = as_transcript_store s" if "is_quiet p"
    using store that store_boundary_quiet [OF _ p(1)] st(1)
    by (auto simp: close_transcript_store_open_turn_def close_store_to_boundary_def store_ok_def)
  ultimately have "path_items (as_transcript_store s') = Some (old @
         (if is_quiet p then [] else crashed_items (phase_waiting p) @ [TurnFinished (phase_turn p) CrashedOutcome]))"
    using p(2) old(1) append_items_path [OF fresh st(1) old(1)] by (cases p) auto
  moreover have "session_reachable stamp s'" by (rule reachable_step [OF assms(1) step_crash [OF s'(1)]])
  ultimately show ?thesis using s' old by blast
qed


lemma drain_pending_refilled:
  "cl_mailbox (as_core s') = foldl push_input Mailbox_default (fst (core_drain_pending_inputs (as_core s))) \<Longrightarrow>
     fst (session_drain_pending_inputs s') = fst (session_drain_pending_inputs s)"
  using drain_refilled [of "cl_mailbox (as_core s)"]
  by (simp add: session_drain_pending_inputs_def core_drain_pending_inputs_def Let_def split_beta)

lemma stale_input_rejected:
  assumes "completion_input i" and "\<forall>t. target_from_input i = Some t \<longrightarrow> t \<notin> set (oa_pending (as_outstanding_actions s))"
  shows "accept_agent_input i s = (False, s)"
proof -
  obtain b led where acc: "accept_completion i (as_outstanding_actions s) = (b, led)" by fastforce
  then have "\<not> b" using accept_completion_iff [of i "as_outstanding_actions s"] assms(2) by auto
  with acc accept_completion_reject [of i "as_outstanding_actions s" led] assms(1)
  show ?thesis by (auto simp: accept_agent_input_def Let_def)
qed

lemma interrupt_invalidates_ok:
  assumes "session_ok s" and "enqueue_input Interrupt s = (r, s')"
  shows "r = Inr () \<and> oa_pending (as_outstanding_actions s') = []
    \<and> oa_completion_events_pending_transcript (as_outstanding_actions s') = []
    \<and> as_action_outbox s' =
        (if as_action_outbox s = [] \<and> oa_pending (as_outstanding_actions s) = [] \<and> cl_state (as_core s) = Idle
         then [] else [CancelSessionWork])
    \<and> (completion_input i \<longrightarrow> accept_agent_input i s' = (False, s'))"
proof -
  let ?s = "invalidate_session_work s"
  have tl: "CancelSessionWork \<notin> set (tl (as_action_outbox s))"
    using assms(1) by (simp add: session_ok_def outbox_ok_def)
  have out: "as_action_outbox ?s = (if as_action_outbox s = [] \<and> oa_pending (as_outstanding_actions s) = []
      \<and> cl_state (as_core s) = Idle then [] else [CancelSessionWork])"
    using tl by (cases "as_action_outbox s") (auto simp: invalidate_outbox filter_tl is_cancel_action_def filter_empty_conv)
  have "r = Inr () \<and> s' = ?s\<lparr>as_core := core_enqueue_input (as_core s) Interrupt\<rparr>"
    using assms(2) by (auto simp: enqueue_input_def accept_agent_input_def Let_def)
  with out stale_input_rejected [of i s'] show ?thesis by auto
qed

text \<open>
  Appending keeps the store's invariant, leaves every entry and every earlier path as
  they were, and extends the active path by the new item.
\<close>

lemma append_extends_path:
  assumes "fresh_ids stamp" and "store_ok st" and "append_item stamp item replay st = (i, st')"
  shows "store_ok st' \<and> ts_active_leaf_id st' = Some i \<and> grows st st'
    \<and> (\<exists>xs. path_items st = Some xs \<and> path_items st' = Some (xs @ [item]))"
  using append_item_ok [OF assms(1,2), of item replay] append_item_grows [OF assms(1,2), of item replay]
    append_item_path [OF assms(1,2), of _ item replay] path_items_total [OF assms(2)] assms(3)
  by (auto simp: append_item_def append_entry_def Let_def)

text \<open>
  Resuming a model turn at the entry its request was made from: the session runs
  that model request again as its only outstanding work, on a branch below the
  checkpoint, and keeps the queued inputs.
\<close>

lemma resume_model_turn_succeeds:
  assumes "session_reachable stamp s" and "fresh_ids stamp"
    and "conforms (as_transcript_store s) (Some c) (AwaitModel t again)"
    and "contains_entry (as_transcript_store s) c"
  shows "\<exists>s'. resume_model_turn stamp c t a s = Some (Inr (), s') \<and> session_reachable stamp s'
    \<and> ts_active_leaf_id (as_transcript_store s') = Some c \<and> cl_state (as_core s') = RunningModel t a
    \<and> oa_pending (as_outstanding_actions s') = [\<lparr>ct_action_id = a, ct_turn_id = t, ct_tool = None\<rparr>]
    \<and> fst (session_drain_pending_inputs s') = fst (session_drain_pending_inputs s)"
proof -
  obtain e where e: "ts_entries_by_id (as_transcript_store s) c = Some e"
    using assms(4) by (auto simp: contains_entry_def)
  from resume_model_turn_ok [OF assms(2) reachable_session_ok [OF assms(1,2)] e assms(3), of a] obtain s' where
    s': "resume_model_turn stamp c t a s = Some (Inr (), s')"
      "ts_active_leaf_id (as_transcript_store s') = Some c" "cl_state (as_core s') = RunningModel t a"
      "oa_pending (as_outstanding_actions s') = [\<lparr>ct_action_id = a, ct_turn_id = t, ct_tool = None\<rparr>]"
      "cl_mailbox (as_core s') = foldl push_input Mailbox_default (fst (core_drain_pending_inputs (as_core s)))"
    by blast
  with drain_pending_refilled [OF s'(5)] reachable_step [OF assms(1) step_resume [OF assms(3) s'(1)]]
  show ?thesis by blast
qed

text \<open>
  A history edit is never refused as busy: rewinding a reachable session to a turn
  boundary succeeds from any state, closes the turn that was running, makes the boundary
  the active leaf, and keeps the queued inputs.
\<close>

lemma rewind_succeeds:
  assumes "session_reachable stamp s" and "fresh_ids stamp"
    and "is_turn_boundary_at (as_transcript_store s) leaf"
  shows "\<exists>s'. rewind stamp leaf s = Some (Inr (), s') \<and> session_reachable stamp s'
    \<and> ts_active_leaf_id (as_transcript_store s') = leaf
    \<and> fst (session_drain_pending_inputs s') = fst (session_drain_pending_inputs s)"
proof -
  from rewind_ok [OF assms(2) reachable_session_ok [OF assms(1,2)] assms(3)] obtain s' where
    s': "rewind stamp leaf s = Some (Inr (), s')" "ts_active_leaf_id (as_transcript_store s') = leaf"
      "cl_mailbox (as_core s') = foldl push_input Mailbox_default (fst (core_drain_pending_inputs (as_core s)))"
    by blast
  with drain_pending_refilled [OF s'(3)] reachable_step [OF assms(1) step_rewind [OF s'(1)]]
  show ?thesis by blast
qed

end
