(* ===== verification/Apply_Patch.thy ===== *)
theory Apply_Patch
  imports Vocab
begin

text \<open>
  The patch tool (\<open>agent-tools/src/tools/apply_patch.rs\<close>, \<open>agent-tools/src/context.rs\<close>):
  parsing a patch, the files it locks, and applying it to the file system. Strings are
  byte lists. The file system is a map from paths to contents; the argument \<open>fault\<close>
  says which of its operations the operating system refuses, and with what message.
\<close>

section \<open>Patches\<close>

record LineHunk =
  lh_old :: string
  lh_new :: string

datatype PatchOp =
    Add string "string list"
  | Delete string
  | Update string "string option" "LineHunk list"

record FileChange =
  fc_marker :: string
  fc_path :: string

definition push_hunk :: "LineHunk list \<Rightarrow> string \<Rightarrow> string \<Rightarrow> LineHunk list \<times> string \<times> string" where
  "push_hunk hunks old new =
     (if old = [] \<and> new = [] then (hunks, old, new)
      else (hunks @ [\<lparr>lh_old = old, lh_new = new\<rparr>], [], []))"

definition is_patch_boundary :: "string \<Rightarrow> bool" where
  "is_patch_boundary line \<longleftrightarrow>
     line = ''*** End Patch'' \<or> starts_with line ''*** Add File: ''
     \<or> starts_with line ''*** Delete File: '' \<or> starts_with line ''*** Update File: ''"

text \<open>The loop over the lines of an added file: the lines and what follows them.\<close>

fun parse_add_lines :: "string list \<Rightarrow> string + string list \<times> string list" where
  "parse_add_lines [] = Inr ([], [])"
| "parse_add_lines (line # rest) =
     (if is_patch_boundary line then Inr ([], line # rest)
      else case strip_prefix ''+'' line of
             None \<Rightarrow> Inl (''add file line must start with +: '' @ line)
           | Some content \<Rightarrow>
               (case parse_add_lines rest of
                  Inl e \<Rightarrow> Inl e
                | Inr (add_lines, rest') \<Rightarrow> Inr (content # add_lines, rest')))"

text \<open>The loop over the lines of an update.\<close>

fun parse_update_lines ::
  "string list \<Rightarrow> LineHunk list \<Rightarrow> string \<Rightarrow> string \<Rightarrow> string + LineHunk list \<times> string list" where
  "parse_update_lines [] hunks old new = Inr (fst (push_hunk hunks old new), [])"
| "parse_update_lines (line # rest) hunks old new =
     (if is_patch_boundary line then Inr (fst (push_hunk hunks old new), line # rest)
      else if line = ''@@'' \<or> starts_with line ''@@ ''
        then (let (hunks', old', new') = push_hunk hunks old new in parse_update_lines rest hunks' old' new')
      else if line = ''*** End of File'' then parse_update_lines rest hunks old new
      else case line of
             [] \<Rightarrow> Inl ''empty update line''
           | prefix # content \<Rightarrow>
               if prefix = CHR '' '' then parse_update_lines rest hunks (old @ content @ [nl]) (new @ content @ [nl])
               else if prefix = CHR ''-'' then parse_update_lines rest hunks (old @ content @ [nl]) new
               else if prefix = CHR ''+'' then parse_update_lines rest hunks old (new @ content @ [nl])
               else Inl (''invalid update line: '' @ line))"

definition parse_move_to :: "string list \<Rightarrow> string option \<times> string list" where
  "parse_move_to ls =
     (case ls of
        [] \<Rightarrow> (None, ls)
      | line # rest \<Rightarrow>
          (case strip_prefix ''*** Move to: '' line of Some target \<Rightarrow> (Some target, rest) | None \<Rightarrow> (None, ls)))"

lemma parse_add_lines_length: "parse_add_lines ls = Inr (xs, rest) \<Longrightarrow> length rest \<le> length ls"
  by (induction ls arbitrary: xs rest) (auto split: if_splits option.splits sum.splits intro: le_SucI)

lemma parse_update_lines_length:
  "parse_update_lines ls hunks old new = Inr (hs, rest) \<Longrightarrow> length rest \<le> length ls"
proof (induction ls arbitrary: hunks old new)
  case (Cons line ls)
  have "parse_update_lines ls hunks' old' new' = Inr (hs, rest) \<Longrightarrow> length rest \<le> Suc (length ls)"
    for hunks' old' new' using Cons.IH [of hunks' old' new'] by simp
  with Cons.prems show ?case
    by (cases line) (auto simp: Let_def split: if_splits prod.splits)
qed simp

lemma parse_move_to_length: "parse_move_to ls = (m, rest) \<Longrightarrow> length rest \<le> length ls"
  by (auto simp: parse_move_to_def split: list.splits option.splits)

text \<open>The main loop over the remaining lines.\<close>

function parse_ops :: "string list \<Rightarrow> string + PatchOp list" where
  "parse_ops [] = Inl ''patch must end with *** End Patch''"
| "parse_ops (line # rest) =
     (if line = ''*** End Patch'' then
        (if rest \<noteq> [] then Inl ''unexpected content after *** End Patch'' else Inr [])
      else case strip_prefix ''*** Add File: '' line of
        Some path \<Rightarrow>
          (case parse_add_lines rest of
             Inl e \<Rightarrow> Inl e
           | Inr (add_lines, rest') \<Rightarrow>
               if add_lines = [] then Inl (''add file has no content: '' @ path)
               else (case parse_ops rest' of Inl e \<Rightarrow> Inl e | Inr ops \<Rightarrow> Inr (Add path add_lines # ops)))
      | None \<Rightarrow>
      case strip_prefix ''*** Delete File: '' line of
        Some path \<Rightarrow> (case parse_ops rest of Inl e \<Rightarrow> Inl e | Inr ops \<Rightarrow> Inr (Delete path # ops))
      | None \<Rightarrow>
      case strip_prefix ''*** Update File: '' line of
        Some path \<Rightarrow>
          (case parse_move_to rest of
             (move_to, rest1) \<Rightarrow>
               (case parse_update_lines rest1 [] [] [] of
                  Inl e \<Rightarrow> Inl e
                | Inr (hunks, rest2) \<Rightarrow>
                    if hunks = [] \<and> move_to = None then Inl (''update file has no changes: '' @ path)
                    else (case parse_ops rest2 of
                            Inl e \<Rightarrow> Inl e
                          | Inr ops \<Rightarrow> Inr (Update path move_to hunks # ops))))
      | None \<Rightarrow> Inl (''unknown patch line: '' @ line))"
  by pat_completeness auto
termination
  by (relation "measure length")
    (auto dest!: parse_add_lines_length parse_update_lines_length parse_move_to_length [OF sym])

declare parse_ops.simps(2) [simp del]

definition parse_patch :: "string \<Rightarrow> string + PatchOp list" where
  "parse_patch input =
     (let ls = split_nl input;
          ls' = (if last ls = [] then butlast ls else ls)
      in case ls' of
           [] \<Rightarrow> Inl ''patch must start with *** Begin Patch''
         | line # rest \<Rightarrow>
             if line \<noteq> ''*** Begin Patch'' then Inl ''patch must start with *** Begin Patch''
             else parse_ops rest)"

definition lines_to_text :: "string list \<Rightarrow> string" where
  "lines_to_text ls = join_nl ls @ [nl]"

fun changes_text :: "FileChange list \<Rightarrow> string" where
  "changes_text [] = []"
| "changes_text (change # changes) = fc_marker change @ '' '' @ fc_path change @ [nl] @ changes_text changes"

definition success_message :: "FileChange list \<Rightarrow> string" where
  "success_message changes = ''Success. Updated the following files:'' @ [nl] @ changes_text changes"

section \<open>Applying\<close>

text \<open>Unix paths: joining a relative path to the working directory.\<close>

definition path_join :: "string \<Rightarrow> string \<Rightarrow> string" where
  "path_join base path =
     (if base = [] \<or> last base = CHR ''/'' then base @ path else base @ ''/'' @ path)"

definition workspace_path :: "string \<Rightarrow> string \<Rightarrow> string" where
  "workspace_path cwd path = (if starts_with path ''/'' then path else path_join cwd path)"

fun patch_lock_paths :: "string \<Rightarrow> PatchOp list \<Rightarrow> string list" where
  "patch_lock_paths cwd [] = []"
| "patch_lock_paths cwd (Add path _ # ops) = workspace_path cwd path # patch_lock_paths cwd ops"
| "patch_lock_paths cwd (Delete path # ops) = workspace_path cwd path # patch_lock_paths cwd ops"
| "patch_lock_paths cwd (Update path move_to _ # ops) =
     workspace_path cwd path
       # (case move_to of Some target \<Rightarrow> [workspace_path cwd target] | None \<Rightarrow> []) @ patch_lock_paths cwd ops"

type_synonym fs = "string \<rightharpoonup> string"

datatype io_op = IoRead | IoWrite | IoRemove

type_synonym fault = "io_op \<Rightarrow> string \<Rightarrow> fs \<Rightarrow> string option"

definition not_found :: string where
  "not_found = ''No such file or directory (os error 2)''"

definition read_to_string :: "fault \<Rightarrow> string \<Rightarrow> fs \<Rightarrow> string + string" where
  "read_to_string fault path fs =
     (case fault IoRead path fs of
        Some e \<Rightarrow> Inl e
      | None \<Rightarrow> (case fs path of None \<Rightarrow> Inl not_found | Some content \<Rightarrow> Inr content))"

definition write_file :: "fault \<Rightarrow> string \<Rightarrow> string \<Rightarrow> fs \<Rightarrow> (string + unit) \<times> fs" where
  "write_file fault path content fs =
     (case fault IoWrite path fs of
        Some e \<Rightarrow> (Inl e, fs)
      | None \<Rightarrow> (Inr (), fs(path \<mapsto> content)))"

definition remove_file :: "fault \<Rightarrow> string \<Rightarrow> fs \<Rightarrow> (string + unit) \<times> fs" where
  "remove_file fault path fs =
     (case fault IoRemove path fs of
        Some e \<Rightarrow> (Inl e, fs)
      | None \<Rightarrow> if fs path = None then (Inl not_found, fs) else (Inr (), fs(path := None)))"

fun apply_hunks :: "string \<Rightarrow> LineHunk list \<Rightarrow> string \<Rightarrow> string + string" where
  "apply_hunks path [] content = Inr content"
| "apply_hunks path (hunk # hunks) content =
     (if lh_old hunk = [] then Inl (path @ '': update hunk has no context or removed lines'')
      else case str_find (lh_old hunk) content of
             None \<Rightarrow> Inl (path @ '': update hunk did not match file contents'')
           | Some offset \<Rightarrow>
               apply_hunks path hunks
                 (take offset content @ lh_new hunk @ drop (offset + length (lh_old hunk)) content))"

definition apply_op :: "fault \<Rightarrow> string \<Rightarrow> PatchOp \<Rightarrow> fs \<Rightarrow> (string + FileChange) \<times> fs" where
  "apply_op fault cwd op fs =
     (case op of
        Add path ls \<Rightarrow>
          let full_path = workspace_path cwd path
          in if fs full_path \<noteq> None then (Inl (''file already exists: '' @ path), fs)
             else (case write_file fault full_path (lines_to_text ls) fs of
                     (Inl e, fs1) \<Rightarrow> (Inl (path @ '': '' @ e), fs1)
                   | (Inr _, fs1) \<Rightarrow> (Inr \<lparr>fc_marker = ''A'', fc_path = path\<rparr>, fs1))
      | Delete path \<Rightarrow>
          (case remove_file fault (workspace_path cwd path) fs of
             (Inl e, fs1) \<Rightarrow> (Inl (path @ '': '' @ e), fs1)
           | (Inr _, fs1) \<Rightarrow> (Inr \<lparr>fc_marker = ''D'', fc_path = path\<rparr>, fs1))
      | Update path move_to hunks \<Rightarrow>
          let source_path = workspace_path cwd path
          in case read_to_string fault source_path fs of
               Inl e \<Rightarrow> (Inl (path @ '': '' @ e), fs)
             | Inr content0 \<Rightarrow>
                 (case apply_hunks path hunks content0 of
                    Inl e \<Rightarrow> (Inl e, fs)
                  | Inr content \<Rightarrow>
                      (case move_to of
                         Some target \<Rightarrow>
                           (case write_file fault (workspace_path cwd target) content fs of
                              (Inl e, fs1) \<Rightarrow> (Inl (target @ '': '' @ e), fs1)
                            | (Inr _, fs1) \<Rightarrow>
                                (case remove_file fault source_path fs1 of
                                   (Inl e, fs2) \<Rightarrow> (Inl (path @ '': '' @ e), fs2)
                                 | (Inr _, fs2) \<Rightarrow>
                                     (Inr \<lparr>fc_marker = ''R'', fc_path = path @ '' -> '' @ target\<rparr>, fs2)))
                       | None \<Rightarrow>
                           (case write_file fault source_path content fs of
                              (Inl e, fs1) \<Rightarrow> (Inl (path @ '': '' @ e), fs1)
                            | (Inr _, fs1) \<Rightarrow> (Inr \<lparr>fc_marker = ''M'', fc_path = path\<rparr>, fs1)))))"

fun apply_ops :: "fault \<Rightarrow> string \<Rightarrow> PatchOp list \<Rightarrow> fs \<Rightarrow> (string + FileChange list) \<times> fs" where
  "apply_ops fault cwd [] fs = (Inr [], fs)"
| "apply_ops fault cwd (op # ops) fs =
     (case apply_op fault cwd op fs of
        (Inl e, fs1) \<Rightarrow> (Inl e, fs1)
      | (Inr change, fs1) \<Rightarrow>
          (case apply_ops fault cwd ops fs1 of
             (Inl e, fs2) \<Rightarrow> (Inl e, fs2)
           | (Inr changes, fs2) \<Rightarrow> (Inr (change # changes), fs2)))"

section \<open>Printing a patch\<close>

text \<open>A reference printer: one removed block and one added block per hunk.\<close>

definition text_lines :: "string \<Rightarrow> string list" where
  "text_lines s = butlast (split_nl s)"

definition render_hunk :: "LineHunk \<Rightarrow> string list" where
  "render_hunk h = ''@@'' # map ((#) CHR ''-'') (text_lines (lh_old h)) @ map ((#) CHR ''+'') (text_lines (lh_new h))"

fun render_op :: "PatchOp \<Rightarrow> string list" where
  "render_op (Add path ls) = (''*** Add File: '' @ path) # map ((#) CHR ''+'') ls"
| "render_op (Delete path) = [''*** Delete File: '' @ path]"
| "render_op (Update path move_to hunks) =
     (''*** Update File: '' @ path)
       # (case move_to of Some target \<Rightarrow> [''*** Move to: '' @ target] | None \<Rightarrow> [])
       @ concat (map render_hunk hunks)"

definition render_patch :: "PatchOp list \<Rightarrow> string" where
  "render_patch ops = join_nl (''*** Begin Patch'' # concat (map render_op ops) @ [''*** End Patch''])"

definition whole_lines :: "string \<Rightarrow> bool" where
  "whole_lines s \<longleftrightarrow> s = [] \<or> last s = nl"

definition hunk_ok :: "LineHunk \<Rightarrow> bool" where
  "hunk_ok h \<longleftrightarrow> whole_lines (lh_old h) \<and> whole_lines (lh_new h) \<and> (lh_old h \<noteq> [] \<or> lh_new h \<noteq> [])"

fun op_ok :: "PatchOp \<Rightarrow> bool" where
  "op_ok (Add path ls) \<longleftrightarrow> one_line path \<and> ls \<noteq> [] \<and> list_all one_line ls"
| "op_ok (Delete path) \<longleftrightarrow> one_line path"
| "op_ok (Update path move_to hunks) \<longleftrightarrow>
     one_line path \<and> pred_option one_line move_to \<and> list_all hunk_ok hunks \<and> (hunks \<noteq> [] \<or> move_to \<noteq> None)"

lemma text_lines_join: "whole_lines s \<Longrightarrow> concat (map (\<lambda>l. l @ [nl]) (text_lines s)) = s"
proof -
  have join: "concat (map (\<lambda>l. l @ [nl]) (butlast (split_nl t))) @ last (split_nl t) = t" for t
  proof (induction t)
    case (Cons c t)
    then show ?case by (cases "split_nl t") (auto split: if_splits)
  qed simp
  assume "whole_lines s"
  then consider "s = []" | t where "s = t @ [nl]"
    unfolding whole_lines_def by (metis append_butlast_last_id)
  then show ?thesis
  proof cases
    case 2
    with join [of s] show ?thesis by (simp add: text_lines_def split_nl_snoc butlast_append)
  qed (simp add: text_lines_def)
qed

lemma text_lines_one_line: "list_all one_line (text_lines s)"
  using split_nl_lines [of s] unfolding text_lines_def list_all_iff by (meson in_set_butlastD)

lemma boundary_first [simp]:
  "c \<noteq> CHR ''*'' \<Longrightarrow> \<not> is_patch_boundary (c # l)"
  by (simp add: is_patch_boundary_def starts_with_def)

lemma boundary_lines [simp]:
  "is_patch_boundary ''*** End Patch''"
  "is_patch_boundary (''*** Add File: '' @ path)"
  "is_patch_boundary (''*** Delete File: '' @ path)"
  "is_patch_boundary (''*** Update File: '' @ path)"
  unfolding is_patch_boundary_def starts_with_def strip_prefix_append by blast+

definition at_boundary :: "string list \<Rightarrow> bool" where
  "at_boundary ls \<longleftrightarrow> ls = [] \<or> is_patch_boundary (hd ls)"

lemma parse_add_render:
  "at_boundary rest \<Longrightarrow> parse_add_lines (map ((#) CHR ''+'') ls @ rest) = Inr (ls, rest)"
proof (induction ls)
  case Nil
  then show ?case by (cases rest) (auto simp: at_boundary_def)
qed simp

lemma parse_removed:
  "parse_update_lines (map ((#) CHR ''-'') ls @ rest) hunks old new
     = parse_update_lines rest hunks (old @ concat (map (\<lambda>l. l @ [nl]) ls)) new"
  by (induction ls arbitrary: old) (auto simp: starts_with_def)

lemma parse_added:
  "parse_update_lines (map ((#) CHR ''+'') ls @ rest) hunks old new
     = parse_update_lines rest hunks old (new @ concat (map (\<lambda>l. l @ [nl]) ls))"
  by (induction ls arbitrary: new) (auto simp: starts_with_def)

lemma parse_hunks_render:
  "list_all hunk_ok hunks \<Longrightarrow> at_boundary rest \<Longrightarrow>
     parse_update_lines (concat (map render_hunk hunks) @ rest) hs old new
       = Inr (fst (push_hunk hs old new) @ hunks, rest)"
proof (induction hunks arbitrary: hs old new)
  case Nil
  then show ?case by (cases rest) (auto simp: at_boundary_def)
next
  case (Cons h hunks)
  have flush: "push_hunk hs old new = (fst (push_hunk hs old new), [], [])" by (simp add: push_hunk_def)
  have "parse_update_lines (concat (map render_hunk (h # hunks)) @ rest) hs old new
      = parse_update_lines (concat (map render_hunk hunks) @ rest) (fst (push_hunk hs old new)) (lh_old h) (lh_new h)"
    using Cons.prems(1) unfolding render_hunk_def
    by (simp add: parse_removed parse_added text_lines_join hunk_ok_def starts_with_def) (subst flush, simp add: parse_removed parse_added text_lines_join)
  also have "\<dots> = Inr (fst (push_hunk (fst (push_hunk hs old new)) (lh_old h) (lh_new h)) @ hunks, rest)"
    using Cons by simp
  also have "fst (push_hunk (fst (push_hunk hs old new)) (lh_old h) (lh_new h)) = fst (push_hunk hs old new) @ [h]"
    using Cons.prems(1) by (simp add: push_hunk_def hunk_ok_def)
  finally show ?case by simp
qed

lemma parse_ops_Add:
  "at_boundary rest \<Longrightarrow> ls \<noteq> [] \<Longrightarrow>
     parse_ops (render_op (Add path ls) @ rest) = map_sum id ((#) (Add path ls)) (parse_ops rest)"
  by (simp add: parse_ops.simps(2) parse_add_render split: sum.split)

lemma parse_ops_Delete:
  "parse_ops (render_op (Delete path) @ rest) = map_sum id ((#) (Delete path)) (parse_ops rest)"
  by (simp add: parse_ops.simps(2) split: sum.split)

lemma parse_move_to_render:
  "hunks \<noteq> [] \<or> move_to \<noteq> None \<Longrightarrow>
     parse_move_to ((case move_to of Some t \<Rightarrow> [''*** Move to: '' @ t] | None \<Rightarrow> [])
        @ concat (map render_hunk hunks) @ rest) = (move_to, concat (map render_hunk hunks) @ rest)"
proof (cases move_to)
  case None
  moreover assume "hunks \<noteq> [] \<or> move_to \<noteq> None"
  ultimately show ?thesis
    unfolding parse_move_to_def by (cases hunks) (simp_all add: render_hunk_def)
qed (simp add: parse_move_to_def)

lemma parse_ops_Update:
  assumes "at_boundary rest" and "list_all hunk_ok hunks" and "hunks \<noteq> [] \<or> move_to \<noteq> None"
  shows "parse_ops (render_op (Update path move_to hunks) @ rest)
    = map_sum id ((#) (Update path move_to hunks)) (parse_ops rest)"
proof -
  have hunks: "parse_update_lines (concat (map render_hunk hunks) @ rest) [] [] [] = Inr (hunks, rest)"
    using parse_hunks_render [OF assms(2,1), of "[]" "[]" "[]"] by (simp add: push_hunk_def)
  have no: "(hunks = [] \<and> move_to = None) = False" using assms(3) by auto
  show ?thesis
    using parse_move_to_render [OF assms(3), of rest] hunks no
    by (simp add: parse_ops.simps(2) split: sum.split) auto
qed

lemma render_op_boundary: "at_boundary (render_op op @ rest)"
  by (cases op) (simp_all add: at_boundary_def is_patch_boundary_def starts_with_def)

lemma parse_ops_render:
  assumes "list_all op_ok ops"
  shows "parse_ops (concat (map render_op ops) @ [''*** End Patch'']) = Inr ops"
  using assms
proof (induction ops)
  case Nil
  then show ?case by (simp add: parse_ops.simps(2))
next
  case (Cons op ops)
  let ?rest = "concat (map render_op ops) @ [''*** End Patch'']"
  have rest: "at_boundary ?rest"
  proof (cases ops)
    case Nil
    then show ?thesis by (simp add: at_boundary_def)
  next
    case (Cons op' ops')
    then show ?thesis using render_op_boundary [of op' "concat (map render_op ops') @ [''*** End Patch'']"] by simp
  qed
  have ih: "parse_ops ?rest = Inr ops" using Cons by simp
  have "parse_ops (render_op op @ ?rest) = map_sum id ((#) op) (parse_ops ?rest)"
    using Cons.prems rest
    by (cases op) (simp_all del: render_op.simps add: parse_ops_Add parse_ops_Delete parse_ops_Update)
  with ih show ?case by simp
qed

lemma render_op_lines: "op_ok op \<Longrightarrow> list_all one_line (render_op op)"
proof (cases op)
  case (Update path move_to hunks)
  moreover assume "op_ok op"
  moreover have "list_all one_line (render_hunk h)" for h
    using text_lines_one_line [of "lh_old h"] text_lines_one_line [of "lh_new h"]
    by (auto simp: render_hunk_def list_all_iff one_line_def)
  ultimately show ?thesis by (cases move_to) (auto simp: list_all_iff one_line_def)
qed (auto simp: list_all_iff one_line_def)

lemma parse_render_patch:
  assumes "list_all op_ok ops"
  shows "parse_patch (render_patch ops @ (if final_newline then [nl] else [])) = Inr ops"
proof -
  let ?ls = "''*** Begin Patch'' # concat (map render_op ops) @ [''*** End Patch'']"
  have "list_all one_line ?ls"
    using assms render_op_lines by (fastforce simp: list_all_iff one_line_def)
  then have "split_nl (render_patch ops) = ?ls" unfolding render_patch_def by (intro split_join) auto
  then have "(let ls = split_nl (render_patch ops @ (if final_newline then [nl] else []))
      in if last ls = [] then butlast ls else ls) = ?ls"
    by (simp add: split_nl_snoc butlast_append)
  then show ?thesis
    using parse_ops_render [OF assms] by (simp add: parse_patch_def Let_def)
qed

section \<open>What applying a patch changes\<close>

lemma patch_lock_paths_Cons:
  "patch_lock_paths cwd (op # ops) = patch_lock_paths cwd [op] @ patch_lock_paths cwd ops"
  by (cases op) (auto split: option.splits)

lemmas io_defs = write_file_def remove_file_def read_to_string_def

lemma apply_op_frame:
  "p \<notin> set (patch_lock_paths cwd [op]) \<Longrightarrow> apply_op fault cwd op fs = (r, fs') \<Longrightarrow> fs' p = fs p"
  by (cases op) (auto simp: apply_op_def io_defs Let_def split: if_splits option.splits sum.splits prod.splits)

lemma apply_ops_frame:
  "p \<notin> set (patch_lock_paths cwd ops) \<Longrightarrow> apply_ops fault cwd ops fs = (r, fs') \<Longrightarrow> fs' p = fs p"
proof (induction ops arbitrary: fs r)
  case (Cons op ops)
  obtain r1 fs1 where op: "apply_op fault cwd op fs = (r1, fs1)" by (cases "apply_op fault cwd op fs")
  have p: "p \<notin> set (patch_lock_paths cwd [op])" "p \<notin> set (patch_lock_paths cwd ops)"
    using Cons.prems(1) by (auto simp: patch_lock_paths_Cons [of cwd op ops])
  have "fs' p = fs1 p"
    using Cons.prems(2) Cons.IH [OF p(2)] op by (auto split: sum.splits prod.splits)
  with apply_op_frame [OF p(1) op] show ?case by simp
qed simp

lemma apply_ops_changes:
  "apply_ops fault cwd ops fs = (Inr changes, fs') \<Longrightarrow> length changes = length ops"
  by (induction ops arbitrary: fs changes) (auto split: sum.splits prod.splits)

text \<open>A hunk replaces the first occurrence of its old text.\<close>

lemma apply_hunk_first:
  assumes "lh_old h \<noteq> []" and "content = a @ lh_old h @ b" and "\<And>a' b'. content = a' @ lh_old h @ b' \<Longrightarrow> length a \<le> length a'"
  shows "apply_hunks path (h # hunks) content = apply_hunks path hunks (a @ lh_new h @ b)"
proof (cases "str_find (lh_old h) content")
  case None
  with str_find_NoneD [OF None, of a b] assms(2) show ?thesis by simp
next
  case (Some i)
  from str_find_SomeD [OF Some] obtain a' b' where "content = a' @ lh_old h @ b'" "length a' = i" by blast
  with assms(3) str_find_first [OF Some assms(2)] have "i = length a" by fastforce
  with Some assms(1,2) show ?thesis by simp
qed

text \<open>
  An update in place replaces the first occurrence of the hunk's old text and keeps
  everything else of the file.
\<close>

lemma update_replaces_first_occurrence:
  assumes "lh_old h \<noteq> []" and "fs (workspace_path cwd path) = Some (a @ lh_old h @ b)"
    and "\<And>a' b'. a @ lh_old h @ b = a' @ lh_old h @ b' \<Longrightarrow> length a \<le> length a'"
    and "fault IoRead (workspace_path cwd path) fs = None" and "fault IoWrite (workspace_path cwd path) fs = None"
  shows "apply_ops fault cwd [Update path None [h]] fs =
    (Inr [\<lparr>fc_marker = ''M'', fc_path = path\<rparr>], fs(workspace_path cwd path \<mapsto> a @ lh_new h @ b))"
proof -
  have "apply_hunks path [h] (a @ lh_old h @ b) = Inr (a @ lh_new h @ b)"
    using apply_hunk_first [OF assms(1) refl assms(3), where path = path and hunks = "[]"] by simp
  with assms show ?thesis by (simp add: apply_op_def io_defs)
qed

end
