(* ===== verification/Provider_Stream.thy ===== *)
theory Provider_Stream
  imports Vocab
begin

text \<open>
  Reading a provider's event stream (\<open>agent-provider/src/sse.rs\<close>) and the provider errors
  (\<open>agent-provider/src/lib.rs\<close>). Bytes are characters. The JSON parser and the HTTP client
  are not part of the repository: the parser is the argument \<open>json\<close>, a response is its
  status and body or the chunks the client yields with the way the stream ends, and the
  client's and the parser's errors are type variables. The event callback is a function
  on a state of its own.
\<close>

section \<open>Errors\<close>

datatype NativeCompactionErrorKind =
    Unsupported | MalformedStream | UnexpectedStopReason | NullBlock | EmptyBlock | UnexpectedContent

datatype ('http, 'json) ProviderError =
    Http 'http
  | Timeout string
  | Transient string
  | Provider string
  | ModelCatalog "16 word option" string
  | Status "16 word" string
  | Incomplete string string
  | Json 'json
  | NativeCompaction NativeCompactionErrorKind string

definition native_compaction :: "NativeCompactionErrorKind \<Rightarrow> string \<Rightarrow> ('http, 'json) ProviderError" where
  "native_compaction kind message = NativeCompaction kind message"

text \<open>The argument \<open>http_status\<close> reads the status of a client error.\<close>

fun status_code :: "('http \<Rightarrow> 16 word option) \<Rightarrow> ('http, 'json) ProviderError \<Rightarrow> 16 word option" where
  "status_code http_status (Status status _) = Some status"
| "status_code http_status (ModelCatalog status _) = status"
| "status_code http_status (Http error) = http_status error"
| "status_code http_status _ = None"

definition str_contains :: "string \<Rightarrow> string \<Rightarrow> bool" where
  "str_contains s needle \<longleftrightarrow> str_find needle s \<noteq> None"

definition ascii_lowercase :: "string \<Rightarrow> string" where
  "ascii_lowercase s =
     map (\<lambda>c. let n = (of_char c :: nat) in if 65 \<le> n \<and> n \<le> 90 then char_of (n + 32) else c) s"

text \<open>The argument \<open>http_text\<close> displays a client error.\<close>

definition is_context_overflow ::
  "('http \<Rightarrow> 16 word option) \<Rightarrow> ('http \<Rightarrow> string) \<Rightarrow> ('http, 'json) ProviderError \<Rightarrow> bool" where
  "is_context_overflow http_status http_text error =
     (let status = status_code http_status error;
          message = (case error of
              Status _ message \<Rightarrow> Some message
            | Transient message \<Rightarrow> Some message
            | Provider message \<Rightarrow> Some message
            | Http e \<Rightarrow> Some (http_text e)
            | _ \<Rightarrow> None)
      in case message of
           None \<Rightarrow> False
         | Some m \<Rightarrow>
             let lower = ascii_lowercase m
             in if status = Some 413 then True
                else if str_contains lower ''prompt is too long'' then True
                else if str_contains lower ''context_length_exceeded'' then True
                else str_contains lower ''context''
                  \<and> (str_contains lower ''length'' \<or> str_contains lower ''window''
                     \<or> str_contains lower ''too large'' \<or> str_contains lower ''exceed''
                     \<or> str_contains lower ''maximum''))"

section \<open>Text\<close>

text \<open>
  \<open>String::from_utf8_lossy\<close>: every maximal invalid part becomes U+FFFD. The head of
  a byte string is a valid encoding of the given length, or an invalid part of it.
\<close>

definition byte :: "char \<Rightarrow> nat" where
  "byte c = of_char c"

definition continuation :: "char \<Rightarrow> bool" where
  "continuation c \<longleftrightarrow> 128 \<le> byte c \<and> byte c \<le> 191"

definition second_of_3 :: "nat \<Rightarrow> char \<Rightarrow> bool" where
  "second_of_3 b c \<longleftrightarrow>
     (if b = 224 then 160 \<le> byte c \<and> byte c \<le> 191
      else if b = 237 then 128 \<le> byte c \<and> byte c \<le> 159
      else continuation c)"

definition second_of_4 :: "nat \<Rightarrow> char \<Rightarrow> bool" where
  "second_of_4 b c \<longleftrightarrow>
     (if b = 240 then 144 \<le> byte c \<and> byte c \<le> 191
      else if b = 244 then 128 \<le> byte c \<and> byte c \<le> 143
      else continuation c)"

text \<open>How many of the conditions hold on the bytes, in order.\<close>

fun matched :: "(char \<Rightarrow> bool) list \<Rightarrow> string \<Rightarrow> nat" where
  "matched (p # ps) (c # s) = (if p c then Suc (matched ps s) else 0)"
| "matched _ _ = 0"

definition utf8_tail :: "nat \<Rightarrow> (char \<Rightarrow> bool) list option" where
  "utf8_tail b =
     (if b < 128 then Some []
      else if 194 \<le> b \<and> b \<le> 223 then Some [continuation]
      else if 224 \<le> b \<and> b \<le> 239 then Some [second_of_3 b, continuation]
      else if 240 \<le> b \<and> b \<le> 244 then Some [second_of_4 b, continuation, continuation]
      else None)"

definition utf8_head :: "char \<Rightarrow> string \<Rightarrow> bool \<times> nat" where
  "utf8_head c s =
     (case utf8_tail (byte c) of
        None \<Rightarrow> (False, 0)
      | Some ps \<Rightarrow> (matched ps s = length ps, matched ps s))"

definition replacement_character :: string where
  "replacement_character = map char_of [239, 191, 189 :: nat]"

function from_utf8_lossy :: "string \<Rightarrow> string" where
  "from_utf8_lossy [] = []"
| "from_utf8_lossy (c # s) =
     (let (valid, n) = utf8_head c s
      in (if valid then c # take n s else replacement_character) @ from_utf8_lossy (drop n s))"
  by pat_completeness auto
termination
  by (relation "measure length") auto

text \<open>\<open>str::from_utf8\<close> accepts a byte string that needs no replacement.\<close>

function utf8_valid :: "string \<Rightarrow> bool" where
  "utf8_valid [] \<longleftrightarrow> True"
| "utf8_valid (c # s) \<longleftrightarrow> (let (valid, n) = utf8_head c s in valid \<and> utf8_valid (drop n s))"
  by pat_completeness auto
termination
  by (relation "measure length") auto

text \<open>The characters of a UTF-8 string, each as its bytes.\<close>

function utf8_chars :: "string \<Rightarrow> string list" where
  "utf8_chars [] = []"
| "utf8_chars (c # cs) = (c # takeWhile continuation cs) # utf8_chars (dropWhile continuation cs)"
  by pat_completeness auto
termination
  by (relation "measure length") (auto simp: le_imp_less_Suc length_dropWhile_le)

lemma concat_utf8_chars [simp]: "concat (utf8_chars s) = s"
  by (induction s rule: utf8_chars.induct) simp_all

text \<open>\<open>str::lines\<close>: a line that ends in a newline loses one carriage return before it.\<close>

definition strip_cr :: "string \<Rightarrow> string" where
  "strip_cr l = (if l \<noteq> [] \<and> last l = CHR 0x0D then butlast l else l)"

definition str_lines :: "string \<Rightarrow> string list" where
  "str_lines s =
     (let parts = split_nl s
      in map strip_cr (butlast parts) @ (if last parts = [] then [] else [last parts]))"

definition is_ascii_whitespace :: "char \<Rightarrow> bool" where
  "is_ascii_whitespace c \<longleftrightarrow> byte c \<in> {9, 10, 12, 13, 32}"

section \<open>Frames\<close>

datatype SseEvent = SseJson Value | SseMalformedJson | SseDone
datatype SseControl = Continue | Stop
datatype SseStreamEnd = Terminal | Eof
datatype SseFrame = FrameJson string | FrameDone

definition sse_frame_boundary :: "string \<Rightarrow> (nat \<times> nat) option" where
  "sse_frame_boundary buffer =
     (let lf = str_find [CHR 0x0A, CHR 0x0A] buffer;
          crlf = str_find [CHR 0x0D, CHR 0x0A, CHR 0x0D, CHR 0x0A] buffer
      in case (lf, crlf) of
           (Some l, Some c) \<Rightarrow> if l < c then Some (l, 2) else Some (c, 4)
         | (Some l, None) \<Rightarrow> Some (l, 2)
         | (None, Some c) \<Rightarrow> Some (c, 4)
         | (None, None) \<Rightarrow> None)"

definition sse_frame_data :: "string \<Rightarrow> SseFrame option" where
  "sse_frame_data frame =
     (let data = trim (join_nl (List.map_filter (\<lambda>line. map_option trim (strip_prefix ''data:'' line))
                   (str_lines (from_utf8_lossy frame))))
      in if data = [] then None
         else if data = ''[DONE]'' then Some FrameDone
         else Some (FrameJson data))"

type_synonym ('st, 'e) on_event = "SseEvent \<Rightarrow> 'st \<Rightarrow> ('e + SseControl) \<times> 'st"

definition process_sse_frame ::
  "(string \<Rightarrow> Value option) \<Rightarrow> ('st, 'e) on_event \<Rightarrow> string \<Rightarrow> 'st \<Rightarrow> ('e + SseControl) \<times> 'st" where
  "process_sse_frame json on_event frame st =
     (case sse_frame_data frame of
        Some (FrameJson data) \<Rightarrow>
          (case json data of
             None \<Rightarrow> on_event SseMalformedJson st
           | Some event \<Rightarrow> on_event (SseJson event) st)
      | Some FrameDone \<Rightarrow> on_event SseDone st
      | None \<Rightarrow> (Inr Continue, st))"

lemma str_find_bound: "str_find needle s = Some i \<Longrightarrow> i + length needle \<le> length s"
  using str_find_SomeD by fastforce

lemma sse_frame_boundary_bound:
  assumes "sse_frame_boundary buffer = Some (e, n)"
  shows "0 < n \<and> e + n \<le> length buffer"
  using assms str_find_bound [of "[CHR 0x0A, CHR 0x0A]" buffer]
    str_find_bound [of "[CHR 0x0D, CHR 0x0A, CHR 0x0D, CHR 0x0A]" buffer]
  by (auto simp: sse_frame_boundary_def Let_def split: option.splits if_splits)

function process_complete_sse_frames ::
  "(string \<Rightarrow> Value option) \<Rightarrow> ('st, 'e) on_event \<Rightarrow> string \<Rightarrow> 'st \<Rightarrow> ('e + SseControl) \<times> string \<times> 'st" where
  "process_complete_sse_frames json on_event buffer st =
     (case sse_frame_boundary buffer of
        None \<Rightarrow> (Inr Continue, buffer, st)
      | Some (frame_end, separator_len) \<Rightarrow>
          (let frame = take frame_end buffer;
               buffer' = drop (frame_end + separator_len) buffer
           in case process_sse_frame json on_event frame st of
                (Inl e, st') \<Rightarrow> (Inl e, buffer', st')
              | (Inr Stop, st') \<Rightarrow> (Inr Stop, buffer', st')
              | (Inr Continue, st') \<Rightarrow> process_complete_sse_frames json on_event buffer' st'))"
  by pat_completeness auto
termination
  by (relation "measure (\<lambda>(_, _, buffer, _). length buffer)") (auto dest: sse_frame_boundary_bound)

declare process_complete_sse_frames.simps [simp del]

definition process_final_sse_frame ::
  "(string \<Rightarrow> Value option) \<Rightarrow> ('st, 'e) on_event \<Rightarrow> string \<Rightarrow> 'st \<Rightarrow> ('e + SseControl) \<times> 'st" where
  "process_final_sse_frame json on_event frame st =
     (if list_all is_ascii_whitespace frame then (Inr Continue, st)
      else process_sse_frame json on_event frame st)"

section \<open>The stream\<close>

text \<open>How the chunks end: the body is complete, the client fails, or the stream idles.\<close>

datatype 'http stream_tail = TailEof | TailError 'http | TailIdle

type_synonym ('st, 'http, 'json) sse_callback = "('st, ('http, 'json) ProviderError) on_event"

fun read_chunks ::
  "(string \<Rightarrow> Value option) \<Rightarrow> ('st, 'http, 'json) sse_callback \<Rightarrow> string \<Rightarrow> string list \<Rightarrow> 'http stream_tail
     \<Rightarrow> string \<Rightarrow> 'st \<Rightarrow> (('http, 'json) ProviderError + SseStreamEnd) \<times> 'st" where
  "read_chunks json on_event idle_error_message [] tail buffer st =
     (case tail of
        TailIdle \<Rightarrow> (Inl (Timeout idle_error_message), st)
      | TailError e \<Rightarrow> (Inl (Http e), st)
      | TailEof \<Rightarrow>
          (case process_final_sse_frame json on_event buffer st of
             (Inl e, st') \<Rightarrow> (Inl e, st')
           | (Inr Stop, st') \<Rightarrow> (Inr Terminal, st')
           | (Inr Continue, st') \<Rightarrow> (Inr Eof, st')))"
| "read_chunks json on_event idle_error_message (chunk # chunks) tail buffer st =
     (case process_complete_sse_frames json on_event (buffer @ chunk) st of
        (Inl e, _, st') \<Rightarrow> (Inl e, st')
      | (Inr Stop, _, st') \<Rightarrow> (Inr Terminal, st')
      | (Inr Continue, buffer', st') \<Rightarrow> read_chunks json on_event idle_error_message chunks tail buffer' st')"

text \<open>
  A response: the status with the whole body, or the chunks of a successful one. Reading
  the body of a failed response can itself fail.
\<close>

record 'http response =
  rsp_status :: "16 word"
  rsp_is_success :: bool
  rsp_body :: "'http + string"
  rsp_chunks :: "string list"
  rsp_tail :: "'http stream_tail"

definition read_provider_json_sse_response ::
  "(string \<Rightarrow> Value option) \<Rightarrow> 'http response \<Rightarrow> string \<Rightarrow> (string \<Rightarrow> string) \<Rightarrow> ('st, 'http, 'json) sse_callback
     \<Rightarrow> 'st \<Rightarrow> (('http, 'json) ProviderError + SseStreamEnd) \<times> 'st" where
  "read_provider_json_sse_response json response stream_name response_error_message on_event st =
     (if \<not> rsp_is_success response then
        (case rsp_body response of
           Inl e \<Rightarrow> (Inl (Http e), st)
         | Inr bytes \<Rightarrow>
             (Inl (Status (rsp_status response) (response_error_message (from_utf8_lossy bytes))), st))
      else read_chunks json on_event (stream_name @ '' was idle for 300 seconds'') (rsp_chunks response)
             (rsp_tail response) [] st)"

definition read_json_sse_text ::
  "(string \<Rightarrow> Value option) \<Rightarrow> string \<Rightarrow> ('st, 'e) on_event \<Rightarrow> 'st \<Rightarrow> ('e + SseStreamEnd) \<times> 'st" where
  "read_json_sse_text json text on_event st =
     (case process_complete_sse_frames json on_event text st of
        (Inl e, _, st') \<Rightarrow> (Inl e, st')
      | (Inr Stop, _, st') \<Rightarrow> (Inr Terminal, st')
      | (Inr Continue, buffer', st') \<Rightarrow>
          (case process_final_sse_frame json on_event buffer' st' of
             (Inl e, st'') \<Rightarrow> (Inl e, st'')
           | (Inr Stop, st'') \<Rightarrow> (Inr Terminal, st'')
           | (Inr Continue, st'') \<Rightarrow> (Inr Eof, st'')))"

section \<open>Chunking does not matter\<close>

text \<open>Occurrences by index.\<close>

definition occurs_at :: "'a list \<Rightarrow> 'a list \<Rightarrow> nat \<Rightarrow> bool" where
  "occurs_at needle s i \<longleftrightarrow> i + length needle \<le> length s \<and> (\<forall>k < length needle. s ! (i + k) = needle ! k)"

lemma occurs_at_iff: "occurs_at needle s i \<longleftrightarrow> (\<exists>a b. s = a @ needle @ b \<and> length a = i)"
proof
  assume o: "occurs_at needle s i"
  then have "take (length needle) (drop i s) = needle"
    by (intro nth_equalityI) (auto simp: occurs_at_def)
  then have "s = take i s @ needle @ drop (i + length needle) s"
    by (metis append_take_drop_id drop_drop add.commute)
  with o show "\<exists>a b. s = a @ needle @ b \<and> length a = i"
    by (metis length_take min.absorb2 occurs_at_def add_leD1)
qed (auto simp: occurs_at_def nth_append)

lemma str_find_occurs:
  "str_find needle s = Some i \<longleftrightarrow> occurs_at needle s i \<and> (\<forall>j < i. \<not> occurs_at needle s j)"
proof
  assume "str_find needle s = Some i"
  then show "occurs_at needle s i \<and> (\<forall>j < i. \<not> occurs_at needle s j)"
    using str_find_SomeD [of needle s i] str_find_first [of needle s i]
    unfolding occurs_at_iff by (metis leD)
next
  assume r: "occurs_at needle s i \<and> (\<forall>j < i. \<not> occurs_at needle s j)"
  then obtain j where j: "str_find needle s = Some j"
    using str_find_NoneD [of needle s] unfolding occurs_at_iff by blast
  from str_find_SomeD [OF j] str_find_first [OF j] r have "j = i"
    unfolding occurs_at_iff by (metis leD linorder_neqE_nat)
  with j show "str_find needle s = Some i" by simp
qed

lemma str_find_None_occurs: "str_find needle s = None \<longleftrightarrow> (\<forall>i. \<not> occurs_at needle s i)"
  using str_find_NoneD [of needle s] str_find_SomeD [of needle s] unfolding occurs_at_iff
  by (metis not_Some_eq)

lemma occurs_at_append: "i + length needle \<le> length s \<Longrightarrow> occurs_at needle (s @ x) i = occurs_at needle s i"
  by (auto simp: occurs_at_def nth_append)

lemma str_find_append: "str_find needle s = Some i \<Longrightarrow> str_find needle (s @ x) = Some i"
proof -
  assume i: "str_find needle s = Some i"
  then have b: "i + length needle \<le> length s" by (rule str_find_bound)
  with i show ?thesis by (simp add: str_find_occurs occurs_at_append)
qed

abbreviation lf2 :: string where
  "lf2 \<equiv> [CHR 0x0A, CHR 0x0A]"

abbreviation crlf2 :: string where
  "crlf2 \<equiv> [CHR 0x0D, CHR 0x0A, CHR 0x0D, CHR 0x0A]"

text \<open>A separator that is complete in the buffer stays the first when more bytes arrive.\<close>

lemma crlf_after_lf:
  assumes lf: "str_find lf2 s = Some l" and crlf: "str_find crlf2 (s @ x) = Some c" and "c \<le> l"
  shows "str_find crlf2 s = Some c"
proof -
  have o: "occurs_at crlf2 (s @ x) c" and least: "\<And>j. j < c \<Longrightarrow> \<not> occurs_at crlf2 (s @ x) j"
    using crlf by (auto simp: str_find_occurs)
  have "occurs_at lf2 s l" and b: "l + 2 \<le> length s" using lf str_find_bound [OF lf] by (auto simp: str_find_occurs)
  then have l: "(s @ x) ! l = CHR 0x0A" "(s @ x) ! (l + 1) = CHR 0x0A"
    by (auto simp: occurs_at_def nth_append less_Suc_eq)
  have r: "(s @ x) ! c = CHR 0x0D" "(s @ x) ! (c + 2) = CHR 0x0D"
    using o by (auto simp: occurs_at_def numeral_eq_Suc less_Suc_eq)
  have "c \<noteq> l" using l r by auto
  moreover have "c + 1 \<noteq> l" using l r by (auto simp: add.commute)
  ultimately have "c + length crlf2 \<le> length s" using assms(3) b by simp
  with o least show ?thesis by (simp add: str_find_occurs occurs_at_append)
qed

lemma lf_before_crlf:
  assumes crlf: "str_find crlf2 s = Some c" and lf: "str_find lf2 (s @ x) = Some l" and "l < c"
  shows "str_find lf2 s = Some l"
proof -
  have "l + length lf2 \<le> length s" using str_find_bound [OF crlf] assms(3) by simp
  with lf show ?thesis by (simp add: str_find_occurs occurs_at_append)
qed

lemma sse_frame_boundary_append:
  assumes "sse_frame_boundary s = Some b"
  shows "sse_frame_boundary (s @ x) = Some b"
proof (cases "str_find lf2 s")
  case None
  with assms obtain c where c: "str_find crlf2 s = Some c" and b: "b = (c, 4)"
    by (auto simp: sse_frame_boundary_def Let_def split: option.splits)
  have "\<not> l < c" if "str_find lf2 (s @ x) = Some l" for l using lf_before_crlf [OF c that] None by auto
  with str_find_append [OF c, of x] b show ?thesis
    by (cases "str_find lf2 (s @ x)") (simp_all add: sse_frame_boundary_def)
next
  case (Some l)
  note l = str_find_append [OF Some, of x]
  show ?thesis
  proof (cases "str_find crlf2 s")
    case None
    with Some assms have b: "b = (l, 2)" by (simp add: sse_frame_boundary_def)
    have "l < c" if "str_find crlf2 (s @ x) = Some c" for c
      using crlf_after_lf [OF Some that] None by (cases "c \<le> l") auto
    with l b show ?thesis by (cases "str_find crlf2 (s @ x)") (simp_all add: sse_frame_boundary_def)
  next
    case (Some c)
    with l assms str_find_append [OF Some, of x] \<open>str_find lf2 s = Some l\<close> show ?thesis
      by (simp add: sse_frame_boundary_def)
  qed
qed

lemma process_unfold:
  "sse_frame_boundary s = Some (e, n) \<Longrightarrow> process_sse_frame json on_event (take e s) st = (r, st') \<Longrightarrow>
     process_complete_sse_frames json on_event s st =
       (if r = Inr Continue then process_complete_sse_frames json on_event (drop (e + n) s) st'
        else (r, drop (e + n) s, st'))"
  by (subst process_complete_sse_frames.simps) (auto simp: Let_def split: sum.splits SseControl.splits)

lemma process_quiet:
  "sse_frame_boundary s = None \<Longrightarrow> process_complete_sse_frames json on_event s st = (Inr Continue, s, st)"
  by (simp add: process_complete_sse_frames.simps)

text \<open>Bytes that arrive later are processed after the frames that are complete already.\<close>

lemma process_append:
  "process_complete_sse_frames json on_event (s @ x) st =
     (let (r, s', st') = process_complete_sse_frames json on_event s st
      in if r = Inr Continue then process_complete_sse_frames json on_event (s' @ x) st' else (r, s' @ x, st'))"
proof (induction "length s" arbitrary: s st rule: less_induct)
  case less
  show ?case
  proof (cases "sse_frame_boundary s")
    case None
    then show ?thesis by (simp add: process_quiet)
  next
    case (Some b)
    obtain e n where b: "b = (e, n)" by (cases b)
    obtain r st' where fr: "process_sse_frame json on_event (take e s) st = (r, st')"
      by (cases "process_sse_frame json on_event (take e s) st")
    have s: "sse_frame_boundary s = Some (e, n)" "sse_frame_boundary (s @ x) = Some (e, n)"
      using Some b sse_frame_boundary_append [OF Some, of x] by auto
    have bd: "0 < n" "e + n \<le> length s" using sse_frame_boundary_bound [OF s(1)] by auto
    have fr': "process_sse_frame json on_event (take e (s @ x)) st = (r, st')" using fr bd by simp
    have dr: "drop (e + n) (s @ x) = drop (e + n) s @ x" using bd by simp
    show ?thesis
      unfolding process_unfold [OF s(1) fr] process_unfold [OF s(2) fr'] dr
      using less [of "drop (e + n) s" st'] bd by simp
  qed
qed

lemma process_no_boundary:
  "process_complete_sse_frames json on_event s st = (Inr Continue, s', st') \<Longrightarrow> sse_frame_boundary s' = None"
proof (induction "length s" arbitrary: s st rule: less_induct)
  case less
  show ?case
  proof (cases "sse_frame_boundary s")
    case None
    with less.prems show ?thesis by (simp add: process_quiet)
  next
    case (Some b)
    obtain e n where b: "b = (e, n)" by (cases b)
    obtain r st1 where fr: "process_sse_frame json on_event (take e s) st = (r, st1)"
      by (cases "process_sse_frame json on_event (take e s) st")
    have s: "sse_frame_boundary s = Some (e, n)" using Some b by simp
    have "process_complete_sse_frames json on_event (drop (e + n) s) st1 = (Inr Continue, s', st')"
      using less.prems unfolding process_unfold [OF s fr] by (simp split: if_splits)
    with less.hyps [of "drop (e + n) s" st1] sse_frame_boundary_bound [OF s] show ?thesis by auto
  qed
qed

lemma read_chunks_concat:
  assumes "sse_frame_boundary buffer = None"
  shows "read_chunks json on_event msg chunks tail buffer st =
    read_chunks json on_event msg [concat chunks] tail buffer st"
  using assms
proof (induction chunks arbitrary: buffer st)
  case Nil
  then show ?case by (simp add: process_complete_sse_frames.simps [of json on_event buffer])
next
  case (Cons c cs)
  obtain r b' st' where p: "process_complete_sse_frames json on_event (buffer @ c) st = (r, b', st')"
    by (metis prod_cases3)
  note whole = process_append [of json on_event "buffer @ c" "concat cs" st, unfolded p]
  show ?case
  proof (cases "r = Inr Continue")
    case True
    with Cons.IH [OF process_no_boundary [of json on_event "buffer @ c" st b' st']] p whole show ?thesis by simp
  next
    case False
    then consider err where "r = Inl err" | "r = Inr Stop" by (metis SseControl.exhaust sum.exhaust)
    then show ?thesis using p whole by cases simp_all
  qed
qed

end
