(* ===== verification/Btree_Map.thy ===== *)
theory Btree_Map
  imports Prelude "HOL-Library.List_Lexorder" "HOL-Library.Char_ord"
begin

text \<open>
  Rust's \<open>BTreeMap\<close> as a list of entries with ascending keys: insertion replaces the value
  of a key that is present, iteration visits the entries in key order. The locale
  \<open>ordered_map\<close> is the contract the clients use.
\<close>

section \<open>Entries in key order\<close>

fun btree_insert :: "'k::linorder \<Rightarrow> 'v \<Rightarrow> ('k \<times> 'v) list \<Rightarrow> ('k \<times> 'v) list" where
  "btree_insert k v [] = [(k, v)]"
| "btree_insert k v (e # es) =
     (if k < fst e then (k, v) # e # es
      else if k = fst e then (k, v) # es
      else e # btree_insert k v es)"

definition btree_ok :: "('k::linorder \<times> 'v) list \<Rightarrow> bool" where
  "btree_ok m \<longleftrightarrow> sorted_wrt (<) (map fst m)"

text \<open>Collecting an iterator of entries: later entries replace earlier ones.\<close>

definition btree_of :: "('k::linorder \<times> 'v) list \<Rightarrow> ('k \<times> 'v) list" where
  "btree_of kvs = foldl (\<lambda>m kv. btree_insert (fst kv) (snd kv) m) [] kvs"

section \<open>The contract of an ordered map\<close>

locale ordered_map =
  fixes empty_map :: 'm
    and insert_entry :: "'k::linorder \<Rightarrow> 'v \<Rightarrow> 'm \<Rightarrow> 'm"
    and lookup :: "'m \<Rightarrow> 'k \<Rightarrow> 'v option"
    and listing :: "'m \<Rightarrow> ('k \<times> 'v) list"
    and wf :: "'m \<Rightarrow> bool"
  assumes wf_empty: "wf empty_map"
    and wf_insert: "wf m \<Longrightarrow> wf (insert_entry k v m)"
    and lookup_empty: "lookup empty_map = (\<lambda>_. None)"
    and lookup_insert: "wf m \<Longrightarrow> lookup (insert_entry k v m) = (lookup m)(k \<mapsto> v)"
    and lookup_listing: "wf m \<Longrightarrow> lookup m = map_of (listing m)"
    and listing_sorted: "wf m \<Longrightarrow> sorted_wrt (<) (map fst (listing m))"
    and wf_ext: "wf m \<Longrightarrow> wf m' \<Longrightarrow> listing m = listing m' \<Longrightarrow> m = m'"
begin

definition insert_all :: "('k \<times> 'v) list \<Rightarrow> 'm \<Rightarrow> 'm" where
  "insert_all kvs m = foldl (\<lambda>m kv. insert_entry (fst kv) (snd kv) m) m kvs"

lemma insert_all_simps [simp]:
  "insert_all [] m = m"
  "insert_all (kv # kvs) m = insert_all kvs (insert_entry (fst kv) (snd kv) m)"
  by (simp_all add: insert_all_def)

lemma wf_insert_all: "wf m \<Longrightarrow> wf (insert_all kvs m)"
  by (induction kvs arbitrary: m) (auto intro: wf_insert)

lemma lookup_insert_all: "wf m \<Longrightarrow> lookup (insert_all kvs m) = lookup m ++ map_of (rev kvs)"
  by (induction kvs arbitrary: m) (auto simp: wf_insert lookup_insert)

lemma lookup_ext: "wf m \<Longrightarrow> wf m' \<Longrightarrow> lookup m = lookup m' \<Longrightarrow> m = m'"
proof (rule wf_ext)
  have same: "xs = ys"
    if "sorted_wrt (<) (map fst xs)" "sorted_wrt (<) (map fst ys)" "map_of xs = map_of ys"
    for xs ys :: "('k \<times> 'v) list"
  proof -
    have keys: "set (map fst xs) = set (map fst ys)" using that(3) by (metis dom_map_of_conv_image_fst list.set_map)
    then have "map fst xs = map fst ys" using that(1,2) by (simp add: strict_sorted_equal)
    moreover have "map snd xs = map snd ys"
    proof -
      have "map snd zs = map (the \<circ> map_of zs) (map fst zs)" if "sorted_wrt (<) (map fst zs)" for zs :: "('k \<times> 'v) list"
        using that by (auto simp: strict_sorted_iff map_of_is_SomeI)
      from this [OF that(1)] this [OF that(2)] that(3) \<open>map fst xs = map fst ys\<close> show ?thesis by simp
    qed
    ultimately show ?thesis by (metis zip_map_fst_snd)
  qed
  assume "wf m" "wf m'" "lookup m = lookup m'"
  then show "listing m = listing m'" by (intro same) (simp_all add: listing_sorted flip: lookup_listing)
qed

lemma insert_all_perm:
  assumes "wf m" "distinct (map fst kvs)" "mset kvs = mset kvs'"
  shows "insert_all kvs m = insert_all kvs' m"
proof (rule lookup_ext)
  have "distinct (map fst kvs')" using assms(2,3) by (metis mset_eq_imp_distinct_iff mset_map)
  moreover have "set kvs = set kvs'" using assms(3) by (rule mset_eq_setD)
  ultimately have "map_of (rev kvs) = map_of (rev kvs')"
    using assms(2) by (simp add: map_of_inject_set rev_map [symmetric])
  with assms(1) show "lookup (insert_all kvs m) = lookup (insert_all kvs' m)" by (simp add: lookup_insert_all)
qed (simp_all add: wf_insert_all assms(1))

end

section \<open>The list satisfies it\<close>

lemma btree_insert_keys [simp]: "fst ` set (btree_insert k v m) = insert k (fst ` set m)"
  by (induction m) auto

lemma btree_insert_map_of [simp]: "map_of (btree_insert k v m) = (map_of m)(k \<mapsto> v)"
  by (induction m) (auto simp: fun_eq_iff)

lemma btree_insert_ok: "btree_ok m \<Longrightarrow> btree_ok (btree_insert k v m)"
proof (induction m)
  case (Cons e es)
  then show ?case using btree_insert_keys [of k v es]
    by (fastforce simp: btree_ok_def simp del: btree_insert_keys)
qed (simp add: btree_ok_def)

lemma btree_ok_Nil [simp]: "btree_ok []"
  by (simp add: btree_ok_def)

interpretation btree: ordered_map "[]" btree_insert map_of "\<lambda>m. m" btree_ok
  by unfold_locales (auto simp: btree_insert_ok btree_ok_def [THEN iffD1])

lemma btree_of_insert_all: "btree_of kvs = btree.insert_all kvs []"
  by (simp add: btree_of_def btree.insert_all_def)

lemma btree_of_ok [simp]: "btree_ok (btree_of kvs)"
  by (simp add: btree_of_insert_all btree.wf_insert_all)

lemma btree_of_map_of: "map_of (btree_of kvs) = map_of (rev kvs)"
  by (simp add: btree_of_insert_all btree.lookup_insert_all)

lemma btree_ok_distinct: "btree_ok m \<Longrightarrow> distinct (map fst m)"
  by (simp add: btree_ok_def strict_sorted_iff)

lemma btree_of_id [simp]: "btree_ok m \<Longrightarrow> btree_of m = m"
  using btree_ok_distinct [of m]
  by (intro btree.lookup_ext) (simp_all add: btree_of_map_of map_of_inject_set rev_map [symmetric])

lemma btree_of_perm: "distinct (map fst kvs) \<Longrightarrow> mset kvs = mset kvs' \<Longrightarrow> btree_of kvs = btree_of kvs'"
  unfolding btree_of_insert_all by (rule btree.insert_all_perm) simp_all

lemma btree_insert_set: "set (btree_insert k v m) \<subseteq> insert (k, v) (set m)"
  by (induction m) auto

lemma btree_of_set: "set (btree_of kvs) \<subseteq> set kvs"
proof -
  have "set (foldl (\<lambda>m kv. btree_insert (fst kv) (snd kv) m) m kvs) \<subseteq> set m \<union> set kvs" for m
  proof (induction kvs arbitrary: m)
    case (Cons kv kvs)
    have "set (btree_insert (fst kv) (snd kv) m) \<subseteq> insert kv (set m)"
      using btree_insert_set [of "fst kv" "snd kv" m] by simp
    with Cons.IH [of "btree_insert (fst kv) (snd kv) m"] show ?case by auto
  qed simp
  from this [of "[]"] show ?thesis by (simp add: btree_of_def)
qed

lemma btree_map_ok: "btree_ok m \<Longrightarrow> btree_ok (map (\<lambda>kv. (fst kv, f (snd kv))) m)"
  by (simp add: btree_ok_def o_def)

end
