(* ===== verification/Json_Value.thy ===== *)
theory Json_Value
  imports Provider_Stream Btree_Map
begin

text \<open>
  What the sources use of \<open>Result\<close>, \<open>Option\<close> and \<open>serde_json::Value\<close>. The text parser and
  printer of JSON and the \<open>Debug\<close> text of a string are the fields of a record that the
  definitions take as an argument.
\<close>

section \<open>Results\<close>

definition and_then :: "'e + 'a \<Rightarrow> ('a \<Rightarrow> 'e + 'b) \<Rightarrow> 'e + 'b" where
  "and_then r f = (case r of Inl e \<Rightarrow> Inl e | Inr x \<Rightarrow> f x)"

definition ok_or :: "'a option \<Rightarrow> 'e \<Rightarrow> 'e + 'a" where
  "ok_or x e = (case x of Some v \<Rightarrow> Inr v | None \<Rightarrow> Inl e)"

definition unwrap_or :: "'a option \<Rightarrow> 'a \<Rightarrow> 'a" where
  "unwrap_or x d = (case x of Some v \<Rightarrow> v | None \<Rightarrow> d)"

definition map_err :: "('e \<Rightarrow> 'f) \<Rightarrow> 'e + 'a \<Rightarrow> 'f + 'a" where
  "map_err f r = (case r of Inl e \<Rightarrow> Inl (f e) | Inr x \<Rightarrow> Inr x)"

definition option_filter :: "('a \<Rightarrow> bool) \<Rightarrow> 'a option \<Rightarrow> 'a option" where
  "option_filter P x = (case x of Some v \<Rightarrow> if P v then Some v else None | None \<Rightarrow> None)"

lemma and_then_simps [simp]:
  "and_then (Inl e) f = Inl e" "and_then (Inr x) f = f x"
  by (simp_all add: and_then_def)

lemma and_then_Inr_iff: "and_then r f = Inr y \<longleftrightarrow> (\<exists>x. r = Inr x \<and> f x = Inr y)"
  by (cases r) simp_all

lemma ok_or_simps [simp]:
  "ok_or None e = Inl e" "ok_or (Some v) e = Inr v"
  by (simp_all add: ok_or_def)

lemma ok_or_Inr_iff [simp]: "ok_or x e = Inr v \<longleftrightarrow> x = Some v"
  by (cases x) simp_all

lemma unwrap_or_simps [simp]: "unwrap_or None d = d" "unwrap_or (Some v) d = v"
  by (simp_all add: unwrap_or_def)

lemma map_err_simps [simp]: "map_err f (Inl e) = Inl (f e)" "map_err f (Inr x) = Inr x"
  by (simp_all add: map_err_def)

lemma map_err_Inr_iff [simp]: "map_err f r = Inr x \<longleftrightarrow> r = Inr x"
  by (cases r) simp_all

lemma option_filter_simps [simp]:
  "option_filter P None = None" "option_filter P (Some v) = (if P v then Some v else None)"
  by (simp_all add: option_filter_def)

text \<open>\<open>collect\<close> into a \<open>Result\<close>: the first error, or all the values.\<close>

fun try_map :: "('a \<Rightarrow> 'e + 'b) \<Rightarrow> 'a list \<Rightarrow> 'e + 'b list" where
  "try_map f [] = Inr []"
| "try_map f (x # xs) = and_then (f x) (\<lambda>y. and_then (try_map f xs) (\<lambda>ys. Inr (y # ys)))"

lemma try_map_Inr_iff: "try_map f xs = Inr ys \<longleftrightarrow> list_all2 (\<lambda>x y. f x = Inr y) xs ys"
  by (induction xs arbitrary: ys) (auto simp: and_then_Inr_iff list_all2_Cons1)

text \<open>\<open>slice::join\<close>.\<close>

fun join_with :: "string \<Rightarrow> string list \<Rightarrow> string" where
  "join_with sep [] = []"
| "join_with sep [x] = x"
| "join_with sep (x # y # ys) = x @ sep @ join_with sep (y # ys)"

section \<open>Values\<close>

record json_codec =
  jc_from_str :: "string \<Rightarrow> string + Value"
  jc_to_string :: "Value \<Rightarrow> string"
  jc_to_string_pretty :: "Value \<Rightarrow> string"
  jc_debug_str :: "string \<Rightarrow> string"

definition codec_parser :: "json_codec \<Rightarrow> string \<Rightarrow> Value option" where
  "codec_parser codec text = (case jc_from_str codec text of Inr v \<Rightarrow> Some v | Inl _ \<Rightarrow> None)"

fun Value_as_object :: "Value \<Rightarrow> (string \<times> Value) list option" where
  "Value_as_object (JObject kvs) = Some kvs"
| "Value_as_object _ = None"

fun Value_as_array :: "Value \<Rightarrow> Value list option" where
  "Value_as_array (JArray vs) = Some vs"
| "Value_as_array _ = None"

text \<open>An integer literal without sign, fraction and exponent that fits 64 bits.\<close>

fun Value_as_u64 :: "Value \<Rightarrow> u64 option" where
  "Value_as_u64 (JNumber n) = parse_u64 n"
| "Value_as_u64 _ = None"

definition get_str :: "Value \<Rightarrow> string \<Rightarrow> string option" where
  "get_str v k = Option.bind (Value_get v k) Value_as_str"

definition get_u64 :: "Value \<Rightarrow> string \<Rightarrow> u64 option" where
  "get_u64 v k = Option.bind (Value_get v k) Value_as_u64"

definition get_object :: "Value \<Rightarrow> string \<Rightarrow> (string \<times> Value) list option" where
  "get_object v k = Option.bind (Value_get v k) Value_as_object"

definition get_array :: "Value \<Rightarrow> string \<Rightarrow> Value list option" where
  "get_array v k = Option.bind (Value_get v k) Value_as_array"

lemmas get_defs = get_str_def get_u64_def get_object_def get_array_def

text \<open>\<open>Value::pointer\<close> for a path of keys; numeric steps into arrays do not occur.\<close>

fun Value_pointer :: "Value \<Rightarrow> string list \<Rightarrow> Value option" where
  "Value_pointer v [] = Some v"
| "Value_pointer v (k # ks) = Option.bind (Value_get v k) (\<lambda>w. Value_pointer w ks)"

text \<open>An object as \<open>json!\<close> builds it: entries sorted by key.\<close>

definition json_object :: "(string \<times> Value) list \<Rightarrow> Value" where
  "json_object kvs = JObject (btree_of kvs)"

definition json_u64 :: "u64 \<Rightarrow> Value" where
  "json_u64 n = JNumber (u64_to_string n)"

definition json_nat :: "nat \<Rightarrow> Value" where
  "json_nat n = JNumber (dec_string n)"

text \<open>
  Assignment to \<open>v[k]\<close>. It makes an object of \<open>null\<close> and panics on the other values; the
  sources assign to fields of objects only.
\<close>

fun Value_set :: "Value \<Rightarrow> string \<Rightarrow> Value \<Rightarrow> Value" where
  "Value_set (JObject kvs) k x = JObject (btree_insert k x kvs)"
| "Value_set JNull k x = JObject [(k, x)]"
| "Value_set v k x = v"

lemma Value_as_u64_json [simp]: "Value_as_u64 (json_u64 n) = Some n"
  by (simp add: json_u64_def parse_u64_to_string)

lemma Value_get_json_object [simp]: "Value_get (json_object kvs) k = map_of (rev kvs) k"
  by (simp add: json_object_def btree_of_map_of)

lemma Value_get_set [simp]:
  "Value_get (Value_set (JObject kvs) k x) j = (if j = k then Some x else Value_get (JObject kvs) j)"
  by simp

end
