(* ===== verification/Mcp_Catalog.thy ===== *)
theory Mcp_Catalog
  imports Json_Value "HOL-Library.Product_Lexorder"
begin

text \<open>
  The catalog of tools that servers of the model context protocol offer
  (\<open>agent-mcp-types/src/catalog.rs\<close>, with \<open>ProviderTool\<close> of \<open>agent-tools/src/registry.rs\<close>):
  canonical JSON, exposed names, the inventory, the selection a session makes, and the
  validation of a stored selection. \<open>serde_json\<close>'s compact printer and the hexadecimal
  SHA-256 digest are the parameters \<open>to_vec\<close> and \<open>sha256_hex\<close>.
\<close>

section \<open>Data\<close>

type_synonym json_printer = "Value \<Rightarrow> string"
type_synonym digest = "string \<Rightarrow> string"

text \<open>An error of \<open>anyhow\<close>, or a slice out of bounds.\<close>

datatype mcp_error = Bail string | Panic

record DiscoveredTool =
  dt_server_id :: string
  dt_server_config_fingerprint :: string
  dt_raw_name :: string
  dt_description :: string
  dt_input_schema :: Value

record McpManifestTool =
  mt_server_id :: string
  mt_server_config_fingerprint :: string
  mt_raw_name :: string
  mt_exposed_name :: string
  mt_description :: string
  mt_input_schema :: Value
  mt_contract_fingerprint :: string

datatype ToolExecution = LocalJson | LocalFreeformText

record ProviderTool =
  pt_canonical_name :: string
  pt_prompt_alias :: "string option"
  pt_name :: string
  pt_description :: string
  pt_input_schema :: Value
  pt_declaration :: Value
  pt_execution :: ToolExecution

record McpSessionManifest =
  mm_version :: "32 word"
  mm_inventory_revision :: string
  mm_server_revisions :: "(string \<times> string) list"
  mm_manifest_fingerprint :: string
  mm_tools :: "McpManifestTool list"
  mm_openai_tools :: "ProviderTool list"
  mm_anthropic_tools :: "ProviderTool list"

definition MANIFEST_VERSION :: "32 word" where "MANIFEST_VERSION = 2"
definition MAX_TOOLS :: nat where "MAX_TOOLS = 512"
definition MAX_DESCRIPTION_BYTES :: nat where "MAX_DESCRIPTION_BYTES = 8 * 1024"
definition MAX_SCHEMA_BYTES :: nat where "MAX_SCHEMA_BYTES = 24 * 1024"
definition MAX_SCHEMA_DEPTH :: nat where "MAX_SCHEMA_DEPTH = 32"
definition MAX_CATALOG_BYTES :: nat where "MAX_CATALOG_BYTES = 2 * 1024 * 1024"
definition MAX_MODEL_DECLARATION_BYTES :: nat where "MAX_MODEL_DECLARATION_BYTES = 32 * 1024"
definition MAX_PROVIDER_MCP_DECLARATIONS_BYTES :: nat where "MAX_PROVIDER_MCP_DECLARATIONS_BYTES = 512 * 1024"
definition MAX_PROVIDER_NAME_BYTES :: nat where "MAX_PROVIDER_NAME_BYTES = 64"
definition HASH_SUFFIX_HEX_BYTES :: nat where "HASH_SUFFIX_HEX_BYTES = 10"

lemmas limit_defs = MAX_TOOLS_def MAX_DESCRIPTION_BYTES_def MAX_SCHEMA_BYTES_def MAX_SCHEMA_DEPTH_def
  MAX_CATALOG_BYTES_def MAX_MODEL_DECLARATION_BYTES_def MAX_PROVIDER_MCP_DECLARATIONS_BYTES_def
  MAX_PROVIDER_NAME_BYTES_def HASH_SUFFIX_HEX_BYTES_def

section \<open>Canonical JSON\<close>

fun canonical_json :: "Value \<Rightarrow> Value" where
  "canonical_json (JArray vs) = JArray (map canonical_json vs)"
| "canonical_json (JObject kvs) =
     (let sorted_entries = btree_of (map (\<lambda>kv. (fst kv, canonical_json (snd kv))) kvs)
      in JObject (btree_of sorted_entries))"
| "canonical_json v = v"

definition max_or :: "nat \<Rightarrow> nat list \<Rightarrow> nat" where
  "max_or d xs = (case xs of [] \<Rightarrow> d | x # ys \<Rightarrow> foldl max x ys)"

fun json_depth :: "Value \<Rightarrow> nat \<Rightarrow> nat" where
  "json_depth (JArray vs) depth = max_or depth (map (\<lambda>v. json_depth v (depth + 1)) vs)"
| "json_depth (JObject kvs) depth = max_or depth (map (\<lambda>kv. json_depth (snd kv) (depth + 1)) kvs)"
| "json_depth v depth = depth"

definition fingerprint_json :: "json_printer \<Rightarrow> digest \<Rightarrow> Value \<Rightarrow> string" where
  "fingerprint_json to_vec sha256_hex v = sha256_hex (to_vec (canonical_json v))"

section \<open>Names\<close>

definition is_ascii_alphanumeric :: "char \<Rightarrow> bool" where
  "is_ascii_alphanumeric c \<longleftrightarrow>
     (CHR ''0'' \<le> c \<and> c \<le> CHR ''9'') \<or> (CHR ''A'' \<le> c \<and> c \<le> CHR ''Z'') \<or> (CHR ''a'' \<le> c \<and> c \<le> CHR ''z'')"

definition is_name_byte :: "char \<Rightarrow> bool" where
  "is_name_byte c \<longleftrightarrow> is_ascii_alphanumeric c \<or> c = CHR ''_'' \<or> c = CHR ''-''"

fun sanitize_loop :: "bool \<Rightarrow> string \<Rightarrow> string" where
  "sanitize_loop replacing [] = []"
| "sanitize_loop replacing (b # bs) =
     (if is_name_byte b then b # sanitize_loop False bs
      else if \<not> replacing then CHR ''_'' # sanitize_loop True bs
      else sanitize_loop replacing bs)"

definition sanitized_component :: "string \<Rightarrow> string" where
  "sanitized_component v = (let result = sanitize_loop False v in if result = [] then ''_'' else result)"

definition preliminary_name :: "string \<Rightarrow> string \<Rightarrow> string" where
  "preliminary_name server_id raw_name =
     ''mcp__'' @ sanitized_component server_id @ ''__'' @ sanitized_component raw_name"

text \<open>Slicing a fingerprint that is too short panics.\<close>

definition name_with_hash :: "string \<Rightarrow> string \<Rightarrow> mcp_error + string" where
  "name_with_hash base fingerprint =
     (if length fingerprint < HASH_SUFFIX_HEX_BYTES then Inl Panic
      else let suffix = ''__'' @ take HASH_SUFFIX_HEX_BYTES fingerprint;
               prefix_bytes = MAX_PROVIDER_NAME_BYTES - length suffix
           in Inr (take (min (length base) prefix_bytes) base @ suffix))"

section \<open>Tools\<close>

definition ProviderTool_new :: "string \<Rightarrow> string \<Rightarrow> Value \<Rightarrow> Value \<Rightarrow> ToolExecution \<Rightarrow> ProviderTool" where
  "ProviderTool_new name description input_schema declaration execution =
     \<lparr>pt_canonical_name = [], pt_prompt_alias = None, pt_name = name, pt_description = description,
      pt_input_schema = input_schema, pt_declaration = declaration, pt_execution = execution\<rparr>"

definition openai_function :: "ToolDefinition \<Rightarrow> ProviderTool" where
  "openai_function d =
     ProviderTool_new (td_name d) (td_description d) (td_input_schema d)
       (json_object [(''type'', JString ''function''), (''name'', JString (td_name d)),
          (''description'', JString (td_description d)), (''strict'', JBool False),
          (''parameters'', td_input_schema d)])
       LocalJson"

definition anthropic_client :: "ToolDefinition \<Rightarrow> ProviderTool" where
  "anthropic_client d =
     ProviderTool_new (td_name d) (td_description d) (td_input_schema d)
       (json_object [(''name'', JString (td_name d)), (''description'', JString (td_description d)),
          (''input_schema'', td_input_schema d)])
       LocalJson"

definition function_json_named :: "ProviderKind \<Rightarrow> string \<Rightarrow> string \<Rightarrow> Value \<Rightarrow> ProviderTool" where
  "function_json_named provider name description input_schema =
     (let d = \<lparr>td_name = name, td_description = description, td_input_schema = input_schema\<rparr>
      in case provider of OpenAi \<Rightarrow> openai_function d | Claude \<Rightarrow> anthropic_client d)"

definition provider_tool :: "McpManifestTool \<Rightarrow> ProviderKind \<Rightarrow> ProviderTool" where
  "provider_tool tool provider =
     (function_json_named provider (mt_exposed_name tool) (mt_description tool) (mt_input_schema tool))
       \<lparr>pt_canonical_name := mt_exposed_name tool, pt_execution := LocalJson\<rparr>"

definition canonical_candidate :: "json_printer \<Rightarrow> digest \<Rightarrow> DiscoveredTool \<Rightarrow> mcp_error + McpManifestTool" where
  "canonical_candidate to_vec sha256_hex tool =
     (if dt_server_id tool = [] \<or> dt_raw_name tool = [] \<or> length (dt_raw_name tool) > 256
      then Inl (Bail ''MCP server and tool names must be nonempty and tool names at most 256 bytes'')
      else if length (dt_description tool) > MAX_DESCRIPTION_BYTES
      then Inl (Bail (''MCP tool '' @ dt_raw_name tool @ '' description is too large''))
      else if json_depth (dt_input_schema tool) 0 > MAX_SCHEMA_DEPTH
      then Inl (Bail (''MCP tool '' @ dt_raw_name tool @ '' schema is too deep''))
      else
        let input_schema = canonical_json (dt_input_schema tool)
        in if length (to_vec input_schema) > MAX_SCHEMA_BYTES
           then Inl (Bail (''MCP tool '' @ dt_raw_name tool @ '' schema is too large''))
           else Inr
             \<lparr>mt_server_id = dt_server_id tool,
              mt_server_config_fingerprint = dt_server_config_fingerprint tool,
              mt_raw_name = dt_raw_name tool, mt_exposed_name = [], mt_description = dt_description tool,
              mt_input_schema = input_schema,
              mt_contract_fingerprint = fingerprint_json to_vec sha256_hex
                (json_object [(''server_id'', JString (dt_server_id tool)), (''raw_name'', JString (dt_raw_name tool)),
                   (''description'', JString (dt_description tool)), (''input_schema'', input_schema)])\<rparr>)"

definition tool_sort_key :: "McpManifestTool \<Rightarrow> string \<times> string \<times> string \<times> string" where
  "tool_sort_key tool = (mt_exposed_name tool, mt_server_id tool, mt_raw_name tool, mt_contract_fingerprint tool)"

definition contract_key :: "McpManifestTool \<Rightarrow> string \<times> string \<times> string" where
  "contract_key tool = (mt_server_id tool, mt_raw_name tool, mt_contract_fingerprint tool)"

section \<open>The serialized manifest\<close>

fun ToolExecution_json :: "ToolExecution \<Rightarrow> Value" where
  "ToolExecution_json LocalJson = JString ''local_json''"
| "ToolExecution_json LocalFreeformText = JString ''local_freeform_text''"

definition McpManifestTool_json :: "McpManifestTool \<Rightarrow> Value" where
  "McpManifestTool_json t =
     json_object [(''server_id'', JString (mt_server_id t)),
       (''server_config_fingerprint'', JString (mt_server_config_fingerprint t)),
       (''raw_name'', JString (mt_raw_name t)), (''exposed_name'', JString (mt_exposed_name t)),
       (''description'', JString (mt_description t)), (''input_schema'', mt_input_schema t),
       (''contract_fingerprint'', JString (mt_contract_fingerprint t))]"

definition ProviderTool_json :: "ProviderTool \<Rightarrow> Value" where
  "ProviderTool_json t =
     json_object ([(''canonical_name'', JString (pt_canonical_name t))]
       @ (case pt_prompt_alias t of Some a \<Rightarrow> [(''prompt_alias'', JString a)] | None \<Rightarrow> [])
       @ [(''name'', JString (pt_name t)), (''description'', JString (pt_description t)),
          (''input_schema'', pt_input_schema t), (''declaration'', pt_declaration t),
          (''execution'', ToolExecution_json (pt_execution t))])"

definition revisions_json :: "(string \<times> string) list \<Rightarrow> Value" where
  "revisions_json revisions = json_object (map (\<lambda>kv. (fst kv, JString (snd kv))) revisions)"

definition manifest_json :: "McpSessionManifest \<Rightarrow> Value" where
  "manifest_json m =
     json_object [(''version'', JNumber (dec_string (unat (mm_version m)))),
       (''inventory_revision'', JString (mm_inventory_revision m)),
       (''server_revisions'', revisions_json (mm_server_revisions m)),
       (''tools'', JArray (map McpManifestTool_json (mm_tools m))),
       (''openai_tools'', JArray (map ProviderTool_json (mm_openai_tools m))),
       (''anthropic_tools'', JArray (map ProviderTool_json (mm_anthropic_tools m)))]"

definition manifest_fingerprint :: "json_printer \<Rightarrow> digest \<Rightarrow> McpSessionManifest \<Rightarrow> string" where
  "manifest_fingerprint to_vec sha256_hex m = fingerprint_json to_vec sha256_hex (manifest_json m)"

definition provider_tools :: "McpSessionManifest \<Rightarrow> ProviderKind \<Rightarrow> ProviderTool list" where
  "provider_tools m provider = (case provider of OpenAi \<Rightarrow> mm_openai_tools m | Claude \<Rightarrow> mm_anthropic_tools m)"

definition manifest_tool :: "McpSessionManifest \<Rightarrow> string \<Rightarrow> McpManifestTool option" where
  "manifest_tool m exposed_name = List.find (\<lambda>tool. mt_exposed_name tool = exposed_name) (mm_tools m)"

section \<open>Size limits\<close>

definition declaration_bytes :: "json_printer \<Rightarrow> ProviderTool \<Rightarrow> nat" where
  "declaration_bytes to_vec tool = length (to_vec (canonical_json (pt_declaration tool)))"

definition declaration_token_estimate :: "json_printer \<Rightarrow> ProviderTool \<Rightarrow> nat" where
  "declaration_token_estimate to_vec tool = (declaration_bytes to_vec tool + 3) div 4"

fun declarations_total :: "json_printer \<Rightarrow> nat \<Rightarrow> ProviderTool list \<Rightarrow> mcp_error + nat" where
  "declarations_total to_vec sofar [] = Inr sofar"
| "declarations_total to_vec sofar (tool # tools) =
     (let bytes = declaration_bytes to_vec tool
      in if bytes > MAX_MODEL_DECLARATION_BYTES
         then Inl (Bail (''MCP provider declaration '' @ pt_name tool @ '' exceeds ''
                    @ dec_string MAX_MODEL_DECLARATION_BYTES @ '' bytes''))
         else declarations_total to_vec (saturating_add sofar bytes) tools)"

definition validate_declarations :: "json_printer \<Rightarrow> ProviderTool list \<Rightarrow> mcp_error + unit" where
  "validate_declarations to_vec tools =
     (case declarations_total to_vec 0 tools of
        Inl e \<Rightarrow> Inl e
      | Inr sofar \<Rightarrow>
          if sofar > MAX_PROVIDER_MCP_DECLARATIONS_BYTES
          then Inl (Bail (''MCP provider declarations exceed '' @ dec_string MAX_PROVIDER_MCP_DECLARATIONS_BYTES
                      @ '' bytes''))
          else Inr ())"

definition validate_mcp_declaration_bounds :: "json_printer \<Rightarrow> McpSessionManifest \<Rightarrow> mcp_error + unit" where
  "validate_mcp_declaration_bounds to_vec m =
     (case validate_declarations to_vec (mm_openai_tools m) of
        Inl e \<Rightarrow> Inl e
      | Inr _ \<Rightarrow> validate_declarations to_vec (mm_anthropic_tools m))"

definition validate_catalog_bytes :: "json_printer \<Rightarrow> McpSessionManifest \<Rightarrow> mcp_error + unit" where
  "validate_catalog_bytes to_vec m =
     (if length (to_vec (canonical_json (manifest_json m))) > MAX_CATALOG_BYTES
      then Inl (Bail (''MCP inventory exceeds '' @ dec_string MAX_CATALOG_BYTES @ '' bytes''))
      else validate_mcp_declaration_bounds to_vec m)"

section \<open>The inventory\<close>

fun canonical_candidates ::
  "json_printer \<Rightarrow> digest \<Rightarrow> DiscoveredTool list \<Rightarrow> mcp_error + McpManifestTool list" where
  "canonical_candidates to_vec sha256_hex [] = Inr []"
| "canonical_candidates to_vec sha256_hex (t # ts) =
     (case canonical_candidate to_vec sha256_hex t of
        Inl e \<Rightarrow> Inl e
      | Inr c \<Rightarrow>
          (case canonical_candidates to_vec sha256_hex ts of Inl e \<Rightarrow> Inl e | Inr cs \<Rightarrow> Inr (c # cs)))"

fun conflicting_pair :: "McpManifestTool list \<Rightarrow> bool" where
  "conflicting_pair (a # b # ts) \<longleftrightarrow>
     (mt_server_id a = mt_server_id b \<and> mt_raw_name a = mt_raw_name b
        \<and> mt_contract_fingerprint a \<noteq> mt_contract_fingerprint b)
     \<or> conflicting_pair (b # ts)"
| "conflicting_pair _ \<longleftrightarrow> False"

text \<open>\<open>Vec::dedup_by\<close>: an element is dropped when it equals the last one kept.\<close>

fun dedup_contracts :: "McpManifestTool list \<Rightarrow> McpManifestTool list" where
  "dedup_contracts (a # b # ts) =
     (if contract_key b = contract_key a then dedup_contracts (a # ts) else a # dedup_contracts (b # ts))"
| "dedup_contracts ts = ts"

fun count_preliminary :: "(string \<times> nat) list \<Rightarrow> McpManifestTool list \<Rightarrow> (string \<times> nat) list" where
  "count_preliminary counts [] = counts"
| "count_preliminary counts (t # ts) =
     (let name = preliminary_name (mt_server_id t) (mt_raw_name t);
          n = (case map_of counts name of Some n \<Rightarrow> n | None \<Rightarrow> 0)
      in count_preliminary (btree_insert name (n + 1) counts) ts)"

definition exposed_name_of :: "(string \<times> nat) list \<Rightarrow> McpManifestTool \<Rightarrow> mcp_error + string" where
  "exposed_name_of counts t =
     (let preliminary = preliminary_name (mt_server_id t) (mt_raw_name t);
          needs_hash = length preliminary > MAX_PROVIDER_NAME_BYTES
            \<or> (case map_of counts preliminary of Some n \<Rightarrow> n | None \<Rightarrow> 0) > 1
      in if needs_hash then name_with_hash preliminary (mt_contract_fingerprint t) else Inr preliminary)"

fun assign_names ::
  "string set \<Rightarrow> (string \<times> nat) list \<Rightarrow> string set \<Rightarrow> McpManifestTool list \<Rightarrow> mcp_error + McpManifestTool list" where
  "assign_names builtin_names counts used [] = Inr []"
| "assign_names builtin_names counts used (t # ts) =
     (case exposed_name_of counts t of
        Inl e \<Rightarrow> Inl e
      | Inr name \<Rightarrow>
          if name \<in> builtin_names then Inl (Bail (''MCP tool '' @ name @ '' collides with a first-party tool''))
          else if name \<in> used then Inl (Bail (''MCP exposed-name collision remains for '' @ name))
          else (case assign_names builtin_names counts (insert name used) ts of
                  Inl e \<Rightarrow> Inl e
                | Inr ts' \<Rightarrow> Inr (t\<lparr>mt_exposed_name := name\<rparr> # ts')))"

definition server_revision :: "json_printer \<Rightarrow> digest \<Rightarrow> McpManifestTool list \<Rightarrow> string \<Rightarrow> string \<Rightarrow> string" where
  "server_revision to_vec sha256_hex tools server_id config_fingerprint =
     (let contracts = map (\<lambda>t. json_object [(''raw_name'', JString (mt_raw_name t)),
                              (''contract_fingerprint'', JString (mt_contract_fingerprint t))])
            (filter (\<lambda>t. mt_server_id t = server_id) tools)
      in fingerprint_json to_vec sha256_hex
           (json_object [(''server'', JString server_id), (''config_fingerprint'', JString config_fingerprint),
              (''contracts'', JArray contracts)]))"

definition inventory_manifest ::
  "json_printer \<Rightarrow> digest \<Rightarrow> (string \<times> string) list \<Rightarrow> McpManifestTool list \<Rightarrow> McpSessionManifest" where
  "inventory_manifest to_vec sha256_hex server_config_fingerprints tools =
     (let server_revisions = btree_of (map (\<lambda>kv. (fst kv,
            server_revision to_vec sha256_hex tools (fst kv) (snd kv))) server_config_fingerprints);
          inventory_revision = fingerprint_json to_vec sha256_hex
            (json_object [(''version'', JNumber (dec_string (unat MANIFEST_VERSION))),
               (''servers'', revisions_json server_revisions)])
      in \<lparr>mm_version = MANIFEST_VERSION, mm_inventory_revision = inventory_revision,
          mm_server_revisions = server_revisions, mm_manifest_fingerprint = [],
          mm_tools = tools, mm_openai_tools = map (\<lambda>t. provider_tool t OpenAi) tools,
          mm_anthropic_tools = map (\<lambda>t. provider_tool t Claude) tools\<rparr>)"

definition build_inventory_catalog ::
  "json_printer \<Rightarrow> digest \<Rightarrow> (string \<times> string) list \<Rightarrow> DiscoveredTool list \<Rightarrow> string set
     \<Rightarrow> mcp_error + McpSessionManifest" where
  "build_inventory_catalog to_vec sha256_hex server_config_fingerprints discovered builtin_names =
     (if length discovered > MAX_TOOLS
      then Inl (Bail (''MCP inventory has more than '' @ dec_string MAX_TOOLS @ '' tools''))
      else case canonical_candidates to_vec sha256_hex discovered of
        Inl e \<Rightarrow> Inl e
      | Inr candidates \<Rightarrow>
          let sorted_candidates = sort_key contract_key candidates
          in if conflicting_pair sorted_candidates
             then Inl (Bail ''MCP inventory contains conflicting duplicate raw tool names'')
             else let unique = dedup_contracts sorted_candidates;
                      counts = count_preliminary [] unique
                  in case assign_names builtin_names counts {} unique of
                       Inl e \<Rightarrow> Inl e
                     | Inr named \<Rightarrow>
                         let manifest = inventory_manifest to_vec sha256_hex server_config_fingerprints
                               (sort_key tool_sort_key named)
                         in case validate_catalog_bytes to_vec manifest of
                              Inl e \<Rightarrow> Inl e
                            | Inr _ \<Rightarrow> Inr manifest)"

section \<open>The selection\<close>

text \<open>A selection maps servers to sets of raw names, each in order.\<close>

fun selected_revisions ::
  "(string \<times> string) list \<Rightarrow> (string \<times> string list) list \<Rightarrow> mcp_error + (string \<times> string) list" where
  "selected_revisions revisions [] = Inr []"
| "selected_revisions revisions (sel # sels) =
     (case map_of revisions (fst sel) of
        None \<Rightarrow> Inl (Bail (''unknown MCP server '' @ fst sel))
      | Some revision \<Rightarrow>
          (case selected_revisions revisions sels of
             Inl e \<Rightarrow> Inl e
           | Inr rs \<Rightarrow> Inr ((fst sel, revision) # rs)))"

definition is_selected :: "(string \<times> string list) list \<Rightarrow> McpManifestTool \<Rightarrow> bool" where
  "is_selected selection t =
     (case map_of selection (mt_server_id t) of Some names \<Rightarrow> mt_raw_name t \<in> set names | None \<Rightarrow> False)"

definition first_unknown ::
  "McpManifestTool list \<Rightarrow> (string \<times> string list) list \<Rightarrow> (string \<times> string) option" where
  "first_unknown tools selection =
     List.find (\<lambda>sn. \<not> list_ex (\<lambda>t. mt_server_id t = fst sn \<and> mt_raw_name t = snd sn) tools)
       (concat (map (\<lambda>sel. map (Pair (fst sel)) (snd sel)) selection))"

definition select_manifest ::
  "McpSessionManifest \<Rightarrow> (string \<times> string list) list \<Rightarrow> mcp_error + McpSessionManifest" where
  "select_manifest inventory selection =
     (case selected_revisions (mm_server_revisions inventory) selection of
        Inl e \<Rightarrow> Inl e
      | Inr revisions \<Rightarrow>
          let tools = filter (is_selected selection) (mm_tools inventory)
          in case first_unknown tools selection of
               Some sn \<Rightarrow> Inl (Bail (''unknown MCP tool '' @ fst sn @ ''/'' @ snd sn))
             | None \<Rightarrow> Inr
                 \<lparr>mm_version = MANIFEST_VERSION, mm_inventory_revision = mm_inventory_revision inventory,
                  mm_server_revisions = btree_of revisions, mm_manifest_fingerprint = [],
                  mm_tools = tools, mm_openai_tools = map (\<lambda>t. provider_tool t OpenAi) tools,
                  mm_anthropic_tools = map (\<lambda>t. provider_tool t Claude) tools\<rparr>)"

section \<open>Validation of a stored manifest\<close>

definition discovered_of :: "McpManifestTool \<Rightarrow> DiscoveredTool" where
  "discovered_of t =
     \<lparr>dt_server_id = mt_server_id t, dt_server_config_fingerprint = mt_server_config_fingerprint t,
      dt_raw_name = mt_raw_name t, dt_description = mt_description t, dt_input_schema = mt_input_schema t\<rparr>"

definition is_ascii :: "char \<Rightarrow> bool" where
  "is_ascii c \<longleftrightarrow> c < CHR 0x80"

definition name_invalid :: "string \<Rightarrow> bool" where
  "name_invalid name \<longleftrightarrow> name = [] \<or> length name > MAX_PROVIDER_NAME_BYTES
     \<or> \<not> list_all is_ascii name \<or> \<not> list_all is_name_byte name"

fun validate_tools ::
  "json_printer \<Rightarrow> digest \<Rightarrow> (string \<times> string) list \<Rightarrow> string set \<Rightarrow> (string \<times> string) set
     \<Rightarrow> (string \<times> string \<times> string \<times> string) option \<Rightarrow> McpManifestTool list \<Rightarrow> mcp_error + unit" where
  "validate_tools to_vec sha256_hex revisions exposed_names raw_names prior [] = Inr ()"
| "validate_tools to_vec sha256_hex revisions exposed_names raw_names prior (t # ts) =
     (if map_of revisions (mt_server_id t) = None
      then Inl (Bail ''persisted MCP tool has no selected server revision'')
      else case canonical_candidate to_vec sha256_hex (discovered_of t) of
        Inl e \<Rightarrow> Inl e
      | Inr canonical \<Rightarrow>
          if mt_contract_fingerprint canonical \<noteq> mt_contract_fingerprint t
             \<or> mt_input_schema canonical \<noteq> mt_input_schema t
          then Inl (Bail ''persisted MCP tool contract fingerprint does not match'')
          else if name_invalid (mt_exposed_name t) \<or> mt_exposed_name t \<in> exposed_names
             \<or> (mt_server_id t, mt_raw_name t) \<in> raw_names
          then Inl (Bail ''persisted MCP tool identity is invalid or duplicated'')
          else if (case prior of Some k \<Rightarrow> k \<ge> tool_sort_key t | None \<Rightarrow> False)
          then Inl (Bail ''persisted MCP tools are not in deterministic order'')
          else validate_tools to_vec sha256_hex revisions (insert (mt_exposed_name t) exposed_names)
                 (insert (mt_server_id t, mt_raw_name t) raw_names) (Some (tool_sort_key t)) ts)"

definition validate_provider_pairings :: "McpSessionManifest \<Rightarrow> ProviderKind \<Rightarrow> mcp_error + unit" where
  "validate_provider_pairings m provider =
     (if provider_tools m provider \<noteq> map (\<lambda>t. provider_tool t provider) (mm_tools m)
      then Inl (Bail ''persisted MCP provider declarations do not match the manifest'')
      else Inr ())"

definition validate_persisted_manifest ::
  "json_printer \<Rightarrow> digest \<Rightarrow> McpSessionManifest \<Rightarrow> bool \<Rightarrow> mcp_error + unit" where
  "validate_persisted_manifest to_vec sha256_hex m check_fingerprint =
     (if mm_version m \<noteq> MANIFEST_VERSION
      then Inl (Bail (''unsupported persisted MCP manifest version '' @ dec_string (unat (mm_version m))))
      else if mm_inventory_revision m = [] \<or> length (mm_tools m) > MAX_TOOLS
         \<or> list_ex (\<lambda>kv. fst kv = [] \<or> snd kv = []) (mm_server_revisions m)
      then Inl (Bail ''persisted MCP manifest contains invalid inventory metadata'')
      else case validate_tools to_vec sha256_hex (mm_server_revisions m) {} {} None (mm_tools m) of
        Inl e \<Rightarrow> Inl e
      | Inr _ \<Rightarrow>
          if list_ex (\<lambda>kv. \<not> list_ex (\<lambda>t. mt_server_id t = fst kv) (mm_tools m)) (mm_server_revisions m)
          then Inl (Bail ''persisted MCP manifest contains an empty selected server'')
          else case validate_provider_pairings m OpenAi of
            Inl e \<Rightarrow> Inl e
          | Inr _ \<Rightarrow>
          (case validate_provider_pairings m Claude of
            Inl e \<Rightarrow> Inl e
          | Inr _ \<Rightarrow>
          (case validate_catalog_bytes to_vec m of
            Inl e \<Rightarrow> Inl e
          | Inr _ \<Rightarrow>
              if check_fingerprint \<and> manifest_fingerprint to_vec sha256_hex m \<noteq> mm_manifest_fingerprint m
              then Inl (Bail ''persisted MCP manifest fingerprint does not match'')
              else Inr ())))"

section \<open>Snapshots\<close>

record McpSessionSnapshot =
  ss_manifest :: McpSessionManifest

definition McpSessionSnapshot_new ::
  "json_printer \<Rightarrow> digest \<Rightarrow> McpSessionManifest \<Rightarrow> mcp_error + McpSessionSnapshot" where
  "McpSessionSnapshot_new to_vec sha256_hex m =
     (case validate_persisted_manifest to_vec sha256_hex m False of
        Inl e \<Rightarrow> Inl e
      | Inr _ \<Rightarrow> Inr \<lparr>ss_manifest = m\<lparr>mm_manifest_fingerprint := manifest_fingerprint to_vec sha256_hex m\<rparr>\<rparr>)"

definition from_persisted :: "json_printer \<Rightarrow> digest \<Rightarrow> McpSessionManifest \<Rightarrow> mcp_error + McpSessionSnapshot" where
  "from_persisted to_vec sha256_hex m =
     (case validate_persisted_manifest to_vec sha256_hex m True of
        Inl e \<Rightarrow> Inl e
      | Inr _ \<Rightarrow> Inr \<lparr>ss_manifest = m\<rparr>)"

definition empty_manifest :: "json_printer \<Rightarrow> digest \<Rightarrow> McpSessionManifest" where
  "empty_manifest to_vec sha256_hex =
     \<lparr>mm_version = MANIFEST_VERSION,
      mm_inventory_revision = fingerprint_json to_vec sha256_hex (json_object [(''servers'', json_object [])]),
      mm_server_revisions = [], mm_manifest_fingerprint = [], mm_tools = [], mm_openai_tools = [],
      mm_anthropic_tools = []\<rparr>"

text \<open>\<open>expect\<close> turns an error into a panic.\<close>

definition McpSessionSnapshot_empty :: "json_printer \<Rightarrow> digest \<Rightarrow> mcp_error + McpSessionSnapshot" where
  "McpSessionSnapshot_empty to_vec sha256_hex =
     (case McpSessionSnapshot_new to_vec sha256_hex (empty_manifest to_vec sha256_hex) of
        Inl _ \<Rightarrow> Inl Panic
      | Inr s \<Rightarrow> Inr s)"

end
