(* ===== verification/File_Tools.thy ===== *)
theory File_Tools
  imports Apply_Patch Provider_Stream "HOL-Library.List_Lexorder" "HOL-Library.Char_ord"
begin

text \<open>
  The tools a model calls on files and the shell (\<open>agent-tools/src\<close>: \<open>error.rs\<close>, \<open>output.rs\<close>,
  \<open>tools/text_editor.rs\<close>, \<open>tools/shell.rs\<close> and the entry point of \<open>tools/apply_patch.rs\<close>):
  truncation of long outputs, and what each call reports and does to the files. The JSON
  parser of the arguments, the entries of directories and the outcome of a command are
  parameters.
\<close>

section \<open>Errors\<close>

datatype ToolError =
    UnknownTool string
  | InvalidArguments string
  | Io string
  | Timeout
  | EditTargetNotFound
  | InvalidInput string

fun ToolError_fmt :: "ToolError \<Rightarrow> string" where
  "ToolError_fmt (UnknownTool name) = ''unknown tool: '' @ name"
| "ToolError_fmt (InvalidArguments e) = ''invalid arguments: '' @ e"
| "ToolError_fmt (Io e) = ''io error: '' @ e"
| "ToolError_fmt Timeout = ''command timed out''"
| "ToolError_fmt EditTargetNotFound = ''edit target text was not found''"
| "ToolError_fmt (InvalidInput e) = e"

section \<open>Limiting an output\<close>

definition DEFAULT_MAX_TOOL_OUTPUT_TOKENS :: nat where
  "DEFAULT_MAX_TOOL_OUTPUT_TOKENS = 10000"

definition truncation_notice :: "nat \<Rightarrow> string" where
  "truncation_notice omitted = ''[tool output truncated: '' @ dec_string omitted @ '' characters omitted]''"

definition limit_tool_output_chars :: "string \<Rightarrow> nat \<Rightarrow> string" where
  "limit_tool_output_chars output max_chars =
     (let chars = utf8_chars output;
          n = length chars
      in if n \<le> max_chars then output
         else if max_chars = 0 then truncation_notice n
         else let head_chars = saturating_mul max_chars 3 div 5;
                  tail_chars_count = max_chars - head_chars;
                  head = concat (take head_chars chars);
                  tail = concat (rev (take tail_chars_count (rev chars)));
                  omitted = n - (head_chars + tail_chars_count)
              in head @ [nl, nl] @ truncation_notice omitted @ [nl, nl] @ tail)"

definition limit_tool_output_with_max_tokens :: "string \<Rightarrow> nat option \<Rightarrow> string" where
  "limit_tool_output_with_max_tokens output max_output_tokens =
     (let max_tokens = (case max_output_tokens of Some n \<Rightarrow> n | None \<Rightarrow> DEFAULT_MAX_TOOL_OUTPUT_TOKENS)
      in limit_tool_output_chars output (saturating_mul max_tokens 4))"

definition limit_tool_output :: "string \<Rightarrow> string" where
  "limit_tool_output output = limit_tool_output_with_max_tokens output None"

section \<open>The text editor\<close>

record TextEditorArgs =
  te_command :: string
  te_path :: string
  te_file_text :: "string option"
  te_old_str :: "string option"
  te_new_str :: "string option"
  te_insert_line :: "nat option"
  te_view_range :: "nat list option"

definition numbered_lines :: "nat \<Rightarrow> nat \<Rightarrow> string list \<Rightarrow> string list" where
  "numbered_lines first last_line ls =
     concat (map (\<lambda>(index, line). let line_number = index + 1
                    in if line_number \<ge> first \<and> line_number \<le> last_line
                       then [dec_string line_number @ '': '' @ line] else []) (enumerate 0 ls))"

definition text_editor_view ::
  "fault \<Rightarrow> (string \<Rightarrow> string list option) \<Rightarrow> string \<Rightarrow> nat list option \<Rightarrow> fs \<Rightarrow> ToolError + string" where
  "text_editor_view fault list_dir path view_range fs =
     (case list_dir path of
        Some names \<Rightarrow> Inr (join_nl (sort names))
      | None \<Rightarrow>
          (case read_to_string fault path fs of
             Inl e \<Rightarrow> Inl (Io e)
           | Inr text \<Rightarrow>
               (case view_range of
                  Some [r0, r1] \<Rightarrow>
                    let first = max r0 1; last_line = max r1 first
                    in Inr (join_nl (numbered_lines first last_line (str_lines text)))
                | _ \<Rightarrow> Inr text)))"

definition replace_first :: "string \<Rightarrow> string \<Rightarrow> string \<Rightarrow> string option" where
  "replace_first old new text =
     (case str_find old text of
        None \<Rightarrow> None
      | Some offset \<Rightarrow> Some (take offset text @ new @ drop (offset + length old) text))"

definition insert_text_line :: "nat \<Rightarrow> string \<Rightarrow> string \<Rightarrow> string" where
  "insert_text_line insert_line new text =
     (let ls = str_lines text; index = min insert_line (length ls)
      in join_nl (take index ls @ [new] @ drop index ls) @ [nl])"

definition write_text :: "fault \<Rightarrow> string \<Rightarrow> string \<Rightarrow> string \<Rightarrow> fs \<Rightarrow> (ToolError + string) \<times> fs" where
  "write_text fault path text reply fs =
     (case write_file fault path text fs of (Inl e, fs1) \<Rightarrow> (Inl (Io e), fs1) | (Inr _, fs1) \<Rightarrow> (Inr reply, fs1))"

definition text_editor_command ::
  "fault \<Rightarrow> (string \<Rightarrow> string list option) \<Rightarrow> string \<Rightarrow> TextEditorArgs \<Rightarrow> fs \<Rightarrow> (ToolError + string) \<times> fs" where
  "text_editor_command fault list_dir path args fs =
     (if te_command args = ''view'' then (text_editor_view fault list_dir path (te_view_range args) fs, fs)
      else if te_command args = ''create'' then
        (case te_file_text args of
           None \<Rightarrow> (Inl (InvalidInput ''create requires file_text''), fs)
         | Some file_text \<Rightarrow> write_text fault path file_text ''created'' fs)
      else if te_command args = ''str_replace'' then
        (case te_old_str args of
           None \<Rightarrow> (Inl (InvalidInput ''str_replace requires old_str''), fs)
         | Some old_str \<Rightarrow>
             (case read_to_string fault path fs of
                Inl e \<Rightarrow> (Inl (Io e), fs)
              | Inr original \<Rightarrow>
                  (case replace_first old_str (case te_new_str args of Some new_str \<Rightarrow> new_str | None \<Rightarrow> []) original of
                     None \<Rightarrow> (Inl EditTargetNotFound, fs)
                   | Some text \<Rightarrow> write_text fault path text ''edited'' fs)))
      else if te_command args = ''insert'' then
        (case te_insert_line args of
           None \<Rightarrow> (Inl (InvalidInput ''insert requires insert_line''), fs)
         | Some insert_line \<Rightarrow>
             (case te_new_str args of
                None \<Rightarrow> (Inl (InvalidInput ''insert requires new_str''), fs)
              | Some new_str \<Rightarrow>
                  (case read_to_string fault path fs of
                     Inl e \<Rightarrow> (Inl (Io e), fs)
                   | Inr original \<Rightarrow> write_text fault path (insert_text_line insert_line new_str original) ''inserted'' fs)))
      else (Inl (InvalidInput (''unsupported text editor command: '' @ te_command args)), fs))"

definition text_editor_execute ::
  "(string \<Rightarrow> string + TextEditorArgs) \<Rightarrow> fault \<Rightarrow> (string \<Rightarrow> string list option) \<Rightarrow> string \<Rightarrow> ToolCall \<Rightarrow> fs
     \<Rightarrow> (ToolError + ToolResultMessage) \<times> fs" where
  "text_editor_execute parse_args fault list_dir cwd call fs =
     (case parse_args (tc_args_json call) of
        Inl e \<Rightarrow> (Inl (InvalidArguments e), fs)
      | Inr args \<Rightarrow>
          (case text_editor_command fault list_dir (workspace_path cwd (te_path args)) args fs of
             (Inl e, fs1) \<Rightarrow> (Inl e, fs1)
           | (Inr output, fs1) \<Rightarrow>
               (Inr (ToolResultMessage_success (tc_id call) (tc_tool_name call) (limit_tool_output output)), fs1)))"

section \<open>The patch tool and the shell\<close>

definition apply_patch_execute ::
  "(string \<Rightarrow> string + string) \<Rightarrow> fault \<Rightarrow> string \<Rightarrow> ToolCall \<Rightarrow> fs \<Rightarrow> (ToolError + ToolResultMessage) \<times> fs" where
  "apply_patch_execute parse_args fault cwd call fs =
     (case parse_args (tc_args_json call) of
        Inl e \<Rightarrow> (Inl (InvalidArguments e), fs)
      | Inr input \<Rightarrow>
          (case parse_patch input of
             Inl e \<Rightarrow> (Inl (InvalidInput e), fs)
           | Inr ops \<Rightarrow>
               (case apply_ops fault cwd ops fs of
                  (Inr changes, fs1) \<Rightarrow>
                    (Inr (ToolResultMessage_success (tc_id call) (tc_tool_name call)
                            (limit_tool_output (success_message changes))), fs1)
                | (Inl e, fs1) \<Rightarrow> (Inr (ToolResultMessage_error (tc_id call) (tc_tool_name call) e), fs1))))"

record BashArgs =
  ba_command :: string
  ba_timeout_ms :: "u64 option"
  ba_max_output_tokens :: "nat option"

record process_output =
  po_status :: string
  po_success :: bool
  po_stdout :: string
  po_stderr :: string

text \<open>What a command does within its time limit.\<close>

datatype process_outcome = ProcessDone process_output | ProcessError string | ProcessTimeout

definition bash_text :: "process_output \<Rightarrow> string" where
  "bash_text out =
     ''exit: '' @ po_status out @ [nl] @ ''stdout:'' @ [nl] @ from_utf8_lossy (po_stdout out) @ [nl]
       @ ''stderr:'' @ [nl] @ from_utf8_lossy (po_stderr out)"

definition run_bash ::
  "(string \<Rightarrow> u64 \<Rightarrow> process_outcome) \<Rightarrow> u64 \<Rightarrow> ToolCall \<Rightarrow> BashArgs \<Rightarrow> ToolError + ToolResultMessage" where
  "run_bash run default_timeout call args =
     (let timeout = (case ba_timeout_ms args of Some ms \<Rightarrow> ms | None \<Rightarrow> default_timeout)
      in case run (ba_command args) timeout of
           ProcessError e \<Rightarrow> Inl (Io e)
         | ProcessTimeout \<Rightarrow>
             Inr (ToolResultMessage_error (tc_id call) (tc_tool_name call)
                    (''command timed out after '' @ u64_to_string timeout @ '' ms''))
         | ProcessDone out \<Rightarrow>
             (let text = limit_tool_output_with_max_tokens (bash_text out) (ba_max_output_tokens args)
              in Inr (if po_success out then ToolResultMessage_success (tc_id call) (tc_tool_name call) text
                      else ToolResultMessage_error (tc_id call) (tc_tool_name call) text)))"

section \<open>What the tools guarantee\<close>

lemma head_le: "saturating_mul n 3 div 5 \<le> n"
proof -
  have "saturating_mul n 3 div 5 \<le> n * 3 div 5" by (simp add: saturating_mul_def div_le_mono)
  also have "\<dots> \<le> n" by presburger
  finally show ?thesis .
qed

lemma limit_cases:
  assumes "0 < max_chars" and "max_chars < length (utf8_chars output)"
  shows "\<exists>hd_chars mid tl_chars. utf8_chars output = hd_chars @ mid @ tl_chars
    \<and> length hd_chars + length tl_chars = max_chars
    \<and> limit_tool_output_chars output max_chars =
        concat hd_chars @ [nl, nl] @ truncation_notice (length mid) @ [nl, nl] @ concat tl_chars"
proof -
  let ?cs = "utf8_chars output" and ?h = "saturating_mul max_chars 3 div 5"
  let ?t = "max_chars - ?h"
  have h: "?h \<le> max_chars" by (rule head_le)
  have tail: "rev (take ?t (rev ?cs)) = drop (length ?cs - ?t) ?cs" by (simp add: take_rev)
  have "?cs = take ?h ?cs @ take (length ?cs - max_chars) (drop ?h ?cs) @ drop (length ?cs - ?t) ?cs"
  proof -
    have "drop (length ?cs - ?t) ?cs = drop (length ?cs - max_chars) (drop ?h ?cs)" using h assms(2) by (simp add: add.commute)
    then show ?thesis by (simp only: append_take_drop_id)
  qed
  moreover have "length (take ?h ?cs) + length (drop (length ?cs - ?t) ?cs) = max_chars" using h assms(2) by simp
  moreover have "length (take (length ?cs - max_chars) (drop ?h ?cs)) = length ?cs - (?h + ?t)" using h assms(2) by simp
  ultimately show ?thesis using assms unfolding limit_tool_output_chars_def Let_def tail by (metis not_le not_gr_zero)
qed

lemma write_text_frame:
  "write_text fault path text reply fs = (r, fs') \<Longrightarrow>
     (case r of Inl e \<Rightarrow> fs' = fs | Inr m \<Rightarrow> \<forall>p. p \<noteq> path \<longrightarrow> fs' p = fs p)"
  by (auto simp: write_text_def write_file_def split: option.splits)

lemma text_editor_command_frame:
  assumes "text_editor_command fault list_dir path args fs = (r, fs')"
  shows "case r of Inl e \<Rightarrow> fs' = fs
    | Inr m \<Rightarrow> (\<forall>p. p \<noteq> path \<longrightarrow> fs' p = fs p) \<and> (te_command args = ''view'' \<longrightarrow> fs' = fs)"
proof (cases "te_command args = ''view''")
  case True
  with assms show ?thesis by (auto simp: text_editor_command_def split: sum.splits)
next
  case False
  with assms have "(\<exists>text reply. write_text fault path text reply fs = (r, fs')) \<or> (\<exists>e. r = Inl e) \<and> fs' = fs"
    by (auto simp: text_editor_command_def split: option.splits sum.splits if_splits)
  with False show ?thesis by (auto dest: write_text_frame split: sum.splits)
qed

lemma text_editor_frame:
  assumes "text_editor_execute parse_args fault list_dir cwd call fs = (r, fs')"
  shows "case r of
      Inl e \<Rightarrow> fs' = fs
    | Inr m \<Rightarrow> (\<exists>args. parse_args (tc_args_json call) = Inr args
        \<and> (\<forall>p. p \<noteq> workspace_path cwd (te_path args) \<longrightarrow> fs' p = fs p) \<and> (te_command args = ''view'' \<longrightarrow> fs' = fs))"
proof (cases "parse_args (tc_args_json call)")
  case (Inr args)
  obtain q fs1 where c: "text_editor_command fault list_dir (workspace_path cwd (te_path args)) args fs = (q, fs1)" by fastforce
  with assms Inr text_editor_command_frame [OF c] show ?thesis
    by (cases q) (auto simp: text_editor_execute_def)
qed (use assms in \<open>auto simp: text_editor_execute_def\<close>)

text \<open>
  The part of a tool's output that is passed on: an output within the limit is unchanged;
  of a longer one exactly the limit's number of characters is kept, from both ends, and the
  notice between them counts the characters left out.
\<close>

lemma output_limited:
  assumes "0 < max_chars"
  shows "\<exists>hd_chars mid tl_chars. utf8_chars output = hd_chars @ mid @ tl_chars
    \<and> limit_tool_output_chars output max_chars =
        (if length (utf8_chars output) \<le> max_chars then output
         else concat hd_chars @ [nl, nl] @ truncation_notice (length mid) @ [nl, nl] @ concat tl_chars)
    \<and> length hd_chars + length tl_chars = min max_chars (length (utf8_chars output))"
proof (cases "length (utf8_chars output) \<le> max_chars")
  case True
  then show ?thesis
    by (intro exI [of _ "utf8_chars output"] exI [of _ "[]"]) (simp add: limit_tool_output_chars_def)
next
  case False
  then have "max_chars < length (utf8_chars output)" by simp
  with limit_cases [OF assms this] show ?thesis by (auto simp: min_def)
qed

end
