(* ===== verification/Provider_Types.thy ===== *)
theory Provider_Types
  imports Mcp_Catalog File_Tools
begin

text \<open>
  What both provider adapters share: the data of requests and responses
  (\<open>agent-provider/src/lib.rs\<close>), helpers (\<open>common.rs\<close>), the normalization of a transcript
  (\<open>transcript.rs\<close>), the display texts and the descriptions of tool calls
  (\<open>agent-tools/src/display.rs\<close>, \<open>call_description.rs\<close>).
\<close>

section \<open>Responses\<close>

datatype ModelStopReason = StopComplete | StopMaxOutputTokens | StopRefusal | StopCompaction

record ModelStopDetails =
  sd_category :: "string option"
  sd_explanation :: "string option"

definition ModelStopDetails_default :: ModelStopDetails where
  "ModelStopDetails_default = \<lparr>sd_category = None, sd_explanation = None\<rparr>"

record ProviderUsage =
  pu_input_tokens :: "nat option"
  pu_output_tokens :: "nat option"
  pu_total_tokens :: "nat option"
  pu_cache_read_input_tokens :: "nat option"
  pu_cache_creation_input_tokens :: "nat option"
  pu_raw_provider_usage :: "Value option"
  pu_upstream_request_id :: "string option"
  pu_cf_ray :: "string option"
  pu_server_model :: "string option"
  pu_codex_turn_state :: "string option"
  pu_reasoning_included :: "bool option"

definition ProviderUsage_default :: ProviderUsage where
  "ProviderUsage_default =
     \<lparr>pu_input_tokens = None, pu_output_tokens = None, pu_total_tokens = None, pu_cache_read_input_tokens = None,
      pu_cache_creation_input_tokens = None, pu_raw_provider_usage = None, pu_upstream_request_id = None,
      pu_cf_ray = None, pu_server_model = None, pu_codex_turn_state = None, pu_reasoning_included = None\<rparr>"

record ModelResponse =
  mr_assistant :: AssistantMessage
  mr_provider_replay :: "ProviderReplayItem list"
  mr_usage :: "ProviderUsage option"
  mr_stop_reason :: ModelStopReason
  mr_stop_details :: "ModelStopDetails option"

definition refusal_error :: "ModelResponse \<Rightarrow> string option" where
  "refusal_error r =
     (if mr_stop_reason r = StopRefusal
      then Some (case mr_stop_details r of
          None \<Rightarrow> ''provider refused the request''
        | Some details \<Rightarrow>
            (case (sd_category details, sd_explanation details) of
               (Some category, Some explanation) \<Rightarrow>
                 ''provider refused the request ('' @ category @ ''): '' @ explanation
             | (Some category, None) \<Rightarrow> ''provider refused the request ('' @ category @ '')''
             | (None, Some explanation) \<Rightarrow> ''provider refused the request: '' @ explanation
             | (None, None) \<Rightarrow> ''provider refused the request''))
      else None)"

record ProviderCompactionResponse =
  cr_summary :: "string option"
  cr_provider_replay :: "ProviderReplayItem list"
  cr_usage :: "ProviderUsage option"

section \<open>Prompts and transcripts\<close>

record PromptSections =
  ps_stable_prefix :: "string option"
  ps_dynamic_context :: "string option"

definition normalize_prompt_section :: "string option \<Rightarrow> string option" where
  "normalize_prompt_section v =
     Option.bind v (\<lambda>s. let trimmed = trim s in if trimmed = [] then None else Some trimmed)"

definition PromptSections_new :: "string option \<Rightarrow> string option \<Rightarrow> PromptSections" where
  "PromptSections_new stable_prefix dynamic_context =
     \<lparr>ps_stable_prefix = normalize_prompt_section stable_prefix,
      ps_dynamic_context = normalize_prompt_section dynamic_context\<rparr>"

definition render_joined :: "PromptSections \<Rightarrow> string option" where
  "render_joined p =
     (case (ps_stable_prefix p, ps_dynamic_context p) of
        (Some stable_text, Some dynamic) \<Rightarrow> Some (stable_text @ [nl, nl] @ dynamic)
      | (Some stable_text, None) \<Rightarrow> Some stable_text
      | (None, Some dynamic) \<Rightarrow> Some dynamic
      | (None, None) \<Rightarrow> None)"

record ModelTranscriptEntry =
  me_item :: TranscriptItem
  me_provider_replay :: "ProviderReplayItem list"

text \<open>\<open>raw_value\<close> of every record of the provider, up to the first that does not parse.\<close>

definition provider_replay_values_for ::
  "json_codec \<Rightarrow> ProviderKind \<Rightarrow> ModelTranscriptEntry \<Rightarrow> string + Value list" where
  "provider_replay_values_for codec provider entry =
     try_map (\<lambda>record. jc_from_str codec (pr_raw_json record))
       (filter (\<lambda>record. pr_provider record = provider) (me_provider_replay entry))"

definition canonical_tool_name_for_provider :: "ProviderKind \<Rightarrow> string \<Rightarrow> string" where
  "canonical_tool_name_for_provider provider name =
     (case provider of
        OpenAi \<Rightarrow>
          if name = ''apply_patch'' then ''Edit''
          else if name = ''web_search'' then ''WebSearch''
          else if name = ''web_fetch'' then ''WebFetch''
          else name
      | Claude \<Rightarrow>
          if name = ''str_replace_based_edit_tool'' then ''Edit''
          else if name = ''web_search'' then ''WebSearch''
          else if name = ''web_fetch'' then ''WebFetch''
          else name)"

definition canonical_tool_call_for_provider :: "ProviderKind \<Rightarrow> ToolCall \<Rightarrow> ToolCall" where
  "canonical_tool_call_for_provider provider call =
     (let tool_name = canonical_tool_name_for_provider provider (tc_tool_name call)
      in if tool_name = tc_tool_name call then call
         else \<lparr>tc_id = tc_id call, tc_tool_name = tool_name, tc_args_json = tc_args_json call\<rparr>)"

fun limit_transcript_tool_output :: "TranscriptItem \<Rightarrow> TranscriptItem" where
  "limit_transcript_tool_output (ToolResultItem result) =
     ToolResultItem (result\<lparr>tr_output := limit_tool_output (tr_output result)\<rparr>)"
| "limit_transcript_tool_output item = item"

fun normalize_for :: "ProviderKind \<Rightarrow> TranscriptItem \<Rightarrow> TranscriptItem" where
  "normalize_for provider (AssistantMessageItem message) =
     AssistantMessageItem (message\<lparr>am_items := map (\<lambda>item. case item of
         ToolCallItem call \<Rightarrow> ToolCallItem (canonical_tool_call_for_provider provider call)
       | TextItem text \<Rightarrow> TextItem text) (am_items message)\<rparr>)"
| "normalize_for provider (ToolCallStarted turn_id tool_call) =
     ToolCallStarted turn_id (canonical_tool_call_for_provider provider tool_call)"
| "normalize_for provider item = item"

definition normalize_transcript_item_for_provider :: "TranscriptItem \<Rightarrow> ProviderReplayItem list \<Rightarrow> TranscriptItem" where
  "normalize_transcript_item_for_provider item provider_replay =
     (case provider_replay of [] \<Rightarrow> item | record # _ \<Rightarrow> normalize_for (pr_provider record) item)"

definition normalize_transcript_for_provider :: "ModelTranscriptEntry list \<Rightarrow> ModelTranscriptEntry list" where
  "normalize_transcript_for_provider transcript =
     map (\<lambda>entry. \<lparr>me_item = normalize_transcript_item_for_provider
              (limit_transcript_tool_output (me_item entry)) (me_provider_replay entry),
            me_provider_replay = me_provider_replay entry\<rparr>) transcript"

section \<open>Tools of a request\<close>

datatype ProviderToolProfile = NoTools | CustomDefinitions | OpenAiCoding | AnthropicCoding

fun ProviderToolProfile_for_provider :: "ProviderKind \<Rightarrow> ProviderToolProfile" where
  "ProviderToolProfile_for_provider OpenAi = OpenAiCoding"
| "ProviderToolProfile_for_provider Claude = AnthropicCoding"

text \<open>The argument \<open>builtin\<close> is the table of built-in tools of each provider.\<close>

definition effective_provider_tools ::
  "(ProviderKind \<Rightarrow> ProviderTool list) \<Rightarrow> ProviderToolProfile \<Rightarrow> ProviderTool list \<Rightarrow> ProviderTool list" where
  "effective_provider_tools builtin profile tools =
     (if tools \<noteq> [] then tools
      else case profile of
          OpenAiCoding \<Rightarrow> builtin OpenAi
        | AnthropicCoding \<Rightarrow> builtin Claude
        | NoTools \<Rightarrow> []
        | CustomDefinitions \<Rightarrow> [])"

section \<open>Requests\<close>

type_synonym u32 = "32 word"

record ModelRequest =
  rq_model :: string
  rq_prompt :: PromptSections
  rq_transcript_cache_prefix_len :: "nat option"
  rq_transcript :: "ModelTranscriptEntry list"
  rq_tool_profile :: ProviderToolProfile
  rq_tools :: "ProviderTool list"
  rq_max_tokens :: "u32 option"
  rq_reasoning_effort :: ReasoningEffort
  rq_prompt_cache_key :: "string option"
  rq_session_id :: "string option"
  rq_turn_id :: "TurnId option"

record ProviderTokenCountRequest =
  tq_model :: string
  tq_prompt :: PromptSections
  tq_transcript :: "ModelTranscriptEntry list"
  tq_tool_profile :: ProviderToolProfile
  tq_tools :: "ProviderTool list"
  tq_max_tokens :: "u32 option"
  tq_reasoning_effort :: ReasoningEffort
  tq_prompt_cache_key :: "string option"
  tq_session_id :: "string option"

record ProviderCompactionRequest =
  pq_model :: string
  pq_prompt :: PromptSections
  pq_transcript :: "ModelTranscriptEntry list"
  pq_tool_profile :: ProviderToolProfile
  pq_tools :: "ProviderTool list"
  pq_reasoning_effort :: ReasoningEffort
  pq_prompt_cache_key :: "string option"
  pq_session_id :: "string option"
  pq_compaction_instructions :: "string option"

record ProviderModelMetadata =
  pm_max_input_tokens :: "u64 option"
  pm_recommended_auto_compact_tokens :: "u64 option"

section \<open>Helpers\<close>

definition provider_error :: "string \<Rightarrow> ('http, string) ProviderError + 'a" where
  "provider_error message = Inl (Provider message)"

definition response_excerpt :: "string \<Rightarrow> string" where
  "response_excerpt body =
     (let trimmed = trim body;
          chars = utf8_chars trimmed;
          excerpt = concat (take 1200 chars) @ (if length chars > 1200 then ''...'' else [])
      in if excerpt = [] then ''empty response body'' else excerpt)"

definition push_text_item :: "string \<Rightarrow> AssistantItem list \<Rightarrow> AssistantItem list" where
  "push_text_item text items =
     (if text = [] then items
      else if items = [] then [TextItem text]
      else case last items of
          TextItem previous \<Rightarrow> butlast items @ [TextItem (previous @ text)]
        | ToolCallItem _ \<Rightarrow> items @ [TextItem text])"

lemma push_text_item_text:
  "AssistantMessage_text \<lparr>am_items = push_text_item t items\<rparr> = AssistantMessage_text \<lparr>am_items = items\<rparr> @ t"
  "AssistantMessage_tool_calls \<lparr>am_items = push_text_item t items\<rparr> = AssistantMessage_tool_calls \<lparr>am_items = items\<rparr>"
  by (cases items rule: rev_cases;
      auto simp: push_text_item_def AssistantMessage_text_def AssistantMessage_tool_calls_def List.map_filter_def
        split: AssistantItem.split)+

definition compaction_summary_text :: "CompactionSummary \<Rightarrow> PromptSections \<Rightarrow> string" where
  "compaction_summary_text summary prompt =
     (let intro = ''The conversation history before this point was compacted into this summary:'' @ [nl, nl]
            @ cs_summary summary
      in case ps_stable_prefix prompt of
           Some pi_prompt \<Rightarrow>
             if trim pi_prompt \<noteq> []
             then ''The active PI.md system prompt is included below because it still applies after this compaction.''
               @ [nl, nl] @ pi_prompt @ [nl, nl] @ intro
             else intro
         | None \<Rightarrow> intro)"

section \<open>Display of tool calls\<close>

datatype ToolSummary = Field string | ShellCommand | TextEditor | SkillName | WebSearchQuery

record ToolDisplaySpec =
  ds_name :: string
  ds_kind :: ReplayDisplayKind
  ds_display_name :: string
  ds_summary :: ToolSummary

definition TOOL_DISPLAY_SPECS :: "ToolDisplaySpec list" where
  "TOOL_DISPLAY_SPECS =
     [\<lparr>ds_name = ''LoadSkill'', ds_kind = LocalTool, ds_display_name = ''LoadSkill'', ds_summary = SkillName\<rparr>,
      \<lparr>ds_name = ''Edit'', ds_kind = LocalTool, ds_display_name = ''Edit'', ds_summary = TextEditor\<rparr>,
      \<lparr>ds_name = ''Bash'', ds_kind = LocalTool, ds_display_name = ''Bash'', ds_summary = ShellCommand\<rparr>,
      \<lparr>ds_name = ''WebFetch'', ds_kind = LocalTool, ds_display_name = ''WebFetch'', ds_summary = Field ''url''\<rparr>,
      \<lparr>ds_name = ''WebSearch'', ds_kind = LocalTool, ds_display_name = ''WebSearch'', ds_summary = WebSearchQuery\<rparr>,
      \<lparr>ds_name = ''OpenPage'', ds_kind = HostedTool, ds_display_name = ''OpenPage'', ds_summary = Field ''url''\<rparr>,
      \<lparr>ds_name = ''WebFetch'', ds_kind = HostedTool, ds_display_name = ''WebFetch'', ds_summary = Field ''url''\<rparr>,
      \<lparr>ds_name = ''WebSearch'', ds_kind = HostedTool, ds_display_name = ''WebSearch'', ds_summary = WebSearchQuery\<rparr>]"

definition tool_display_spec :: "string \<Rightarrow> ReplayDisplayKind \<Rightarrow> ToolDisplaySpec option" where
  "tool_display_spec name kind = List.find (\<lambda>spec. ds_name spec = name \<and> ds_kind spec = kind) TOOL_DISPLAY_SPECS"

definition nonempty_summary :: "string \<Rightarrow> string option" where
  "nonempty_summary text = (if text = [] then None else Some text)"

definition first_line :: "string \<Rightarrow> string" where
  "first_line text = (case str_lines text of [] \<Rightarrow> text | line # _ \<Rightarrow> line)"

definition shell_command_summary :: "Value \<Rightarrow> string option" where
  "shell_command_summary input =
     Option.bind (Value_get input ''command'') (\<lambda>command.
       case Value_as_str command of
         Some text \<Rightarrow> Some text
       | None \<Rightarrow> map_option (\<lambda>argv. join_with '' '' (List.map_filter Value_as_str argv)) (Value_as_array command))"

definition joined_fields :: "Value \<Rightarrow> string list \<Rightarrow> string option" where
  "joined_fields input keys = nonempty_summary (join_with '' '' (List.map_filter (get_str input) keys))"

definition web_search_query :: "Value \<Rightarrow> string option" where
  "web_search_query input =
     (case get_str input ''query'' of
        Some query \<Rightarrow> Some query
      | None \<Rightarrow> map_option (\<lambda>queries. join_with '', '' (List.map_filter Value_as_str queries)) (get_array input ''queries''))"

definition tool_summary :: "ToolSummary \<Rightarrow> Value option \<Rightarrow> string option" where
  "tool_summary summary input =
     Option.bind input (\<lambda>v.
       Option.bind (case summary of
           Field key \<Rightarrow> get_str v key
         | ShellCommand \<Rightarrow> shell_command_summary v
         | TextEditor \<Rightarrow> joined_fields v [''command'', ''path'']
         | SkillName \<Rightarrow> get_str v ''name''
         | WebSearchQuery \<Rightarrow> web_search_query v)
         (\<lambda>text. nonempty_summary (first_line text)))"

definition tool_display :: "string \<Rightarrow> ReplayDisplayKind \<Rightarrow> Value option \<Rightarrow> ReplayDisplay option" where
  "tool_display name kind input =
     map_option (\<lambda>spec. \<lparr>rd_kind = kind, rd_pretty_name = ds_display_name spec,
                         rd_input_summary = tool_summary (ds_summary spec) input\<rparr>)
       (tool_display_spec name kind)"

section \<open>Descriptions of calls\<close>

definition CALL_DESCRIPTION_KEY :: string where
  "CALL_DESCRIPTION_KEY = ''call_description''"

datatype CallDescriptionError =
    ArgumentsNotObject string string
  | DescriptionMissing string string
  | DescriptionNotString string string
  | DescriptionBlank string string
  | DescriptionMultiline string string
  | InvalidArgumentsJson string string string

definition validate_description :: "string \<Rightarrow> string \<Rightarrow> string \<Rightarrow> CallDescriptionError + string" where
  "validate_description tool call_id description =
     (if CHR 0x0D \<in> set description \<or> nl \<in> set description then Inl (DescriptionMultiline tool call_id)
      else let description = trim description
           in if description = [] then Inl (DescriptionBlank tool call_id) else Inr description)"

definition admit_call :: "json_codec \<Rightarrow> ToolCall \<Rightarrow> CallDescriptionError + ToolCall" where
  "admit_call codec call =
     (let tool = tc_tool_name call; call_id = tool_call_id_0 (tc_id call)
      in if tool \<noteq> ''Bash'' then Inr call
         else and_then (map_err (InvalidArgumentsJson tool call_id) (jc_from_str codec (tc_args_json call))) (\<lambda>arguments.
           and_then (ok_or (Value_as_object arguments) (ArgumentsNotObject tool call_id)) (\<lambda>object.
           and_then (ok_or (map_of object CALL_DESCRIPTION_KEY) (DescriptionMissing tool call_id)) (\<lambda>v.
           and_then (ok_or (Value_as_str v) (DescriptionNotString tool call_id)) (\<lambda>description.
           and_then (validate_description tool call_id description) (\<lambda>description.
             Inr (call\<lparr>tc_args_json := jc_to_string codec
               (JObject (btree_insert CALL_DESCRIPTION_KEY (JString description) object))\<rparr>)))))))"

fun admit_items :: "json_codec \<Rightarrow> AssistantItem list \<Rightarrow> CallDescriptionError + AssistantItem list" where
  "admit_items codec [] = Inr []"
| "admit_items codec (TextItem text # items) =
     and_then (admit_items codec items) (\<lambda>rest. Inr (TextItem text # rest))"
| "admit_items codec (ToolCallItem call # items) =
     and_then (admit_call codec call) (\<lambda>call. and_then (admit_items codec items) (\<lambda>rest. Inr (ToolCallItem call # rest)))"

definition admit_new_tool_calls :: "json_codec \<Rightarrow> AssistantMessage \<Rightarrow> CallDescriptionError + AssistantMessage" where
  "admit_new_tool_calls codec assistant =
     and_then (admit_items codec (am_items assistant)) (\<lambda>items. Inr (assistant\<lparr>am_items := items\<rparr>))"

definition bash_call_for_execution :: "json_codec \<Rightarrow> ToolCall \<Rightarrow> ToolCall" where
  "bash_call_for_execution codec call =
     (if tc_tool_name call \<noteq> ''Bash'' then call
      else case jc_from_str codec (tc_args_json call) of
          Inr (JObject arguments) \<Rightarrow>
            if map_of arguments CALL_DESCRIPTION_KEY = None then call
            else call\<lparr>tc_args_json := jc_to_string codec
              (JObject (filter (\<lambda>kv. fst kv \<noteq> CALL_DESCRIPTION_KEY) arguments))\<rparr>
        | _ \<Rightarrow> call)"

end
