(* ===== verification/Anthropic_Stream.thy ===== *)
theory Anthropic_Stream
  imports Provider_Types
begin

text \<open>
  Reading a response of the Anthropic Messages API (\<open>agent-provider/src/anthropic.rs\<close>): the
  state machine of an ordinary response stream, and the stricter one of a compaction stream.
  An error ends the reading and drops the state, so an event yields an error or the control
  value with the new state.
\<close>

section \<open>Errors and blocks\<close>

definition anthropic_error_message :: "json_codec \<Rightarrow> string option \<Rightarrow> string option \<Rightarrow> Value \<Rightarrow> string" where
  "anthropic_error_message codec error_type message event =
     (let message = unwrap_or message (jc_to_string codec event)
      in case error_type of
           Some t \<Rightarrow> if \<not> str_contains message t then t @ '': '' @ message else message
         | None \<Rightarrow> message)"

definition anthropic_stream_provider_error :: "string option \<Rightarrow> string \<Rightarrow> ('http, string) ProviderError" where
  "anthropic_stream_provider_error error_type message =
     (if error_type = Some ''rate_limit_error'' then Status 429 message
      else if error_type = Some ''api_error'' then Status 500 message
      else if error_type = Some ''overloaded_error'' then Status 529 message
      else Provider (''Anthropic error: '' @ message))"

definition stream_error_event :: "json_codec \<Rightarrow> Value \<Rightarrow> ('http, string) ProviderError" where
  "stream_error_event codec event =
     (let error_type = Option.bind (Value_pointer event [''error'', ''type'']) Value_as_str;
          raw = (case Value_pointer event [''error'', ''message''] of Some v \<Rightarrow> Some v | None \<Rightarrow> Value_get event ''message'')
      in anthropic_stream_provider_error error_type
           (anthropic_error_message codec error_type (Option.bind raw Value_as_str) event))"

definition anthropic_block_type :: "Value \<Rightarrow> string \<Rightarrow> ('http, string) ProviderError + string" where
  "anthropic_block_type block context_text =
     and_then (ok_or (Value_as_object block) (Provider (context_text @ '' was not an object''))) (\<lambda>object.
       ok_or (option_filter (\<lambda>t. t \<noteq> []) (Option.bind (map_of object ''type'') Value_as_str))
         (Provider (context_text @ '' missing nonempty string type'')))"

definition anthropic_stream_index :: "Value \<Rightarrow> string \<Rightarrow> ('http, string) ProviderError + nat" where
  "anthropic_stream_index event event_type =
     ok_or (map_option unat (get_u64 event ''index''))
       (Provider (''Anthropic '' @ event_type @ '' missing valid representable index''))"

fun validate_web_search_results :: "Value list \<Rightarrow> ('http, string) ProviderError + unit" where
  "validate_web_search_results [] = Inr ()"
| "validate_web_search_results (result # results) =
     and_then (anthropic_block_type result ''Anthropic web search result'') (\<lambda>t.
       if t \<noteq> ''web_search_result''
       then provider_error ''Anthropic web_search_tool_result contained unsupported result type''
       else validate_web_search_results results)"

definition validate_anthropic_hosted_tool_result :: "string \<Rightarrow> Value \<Rightarrow> ('http, string) ProviderError + unit" where
  "validate_anthropic_hosted_tool_result block_type content =
     (case content of
        JArray results \<Rightarrow>
          if block_type = ''web_search_tool_result'' then validate_web_search_results results
          else provider_error (''Anthropic '' @ block_type @ '' content had invalid type'')
      | JObject _ \<Rightarrow>
          if block_type = ''web_search_tool_result''
          then and_then (anthropic_block_type content ''Anthropic web search result error'') (\<lambda>t.
                 if t \<noteq> ''web_search_tool_result_error''
                 then provider_error ''Anthropic web_search_tool_result contained malformed error'' else Inr ())
          else if block_type = ''web_fetch_tool_result''
          then and_then (anthropic_block_type content ''Anthropic web fetch result'') (\<lambda>t.
                 if t = ''web_fetch_result'' \<or> t = ''web_fetch_tool_result_error'' then Inr ()
                 else provider_error ''Anthropic web_fetch_tool_result contained malformed error'')
          else provider_error (''Anthropic '' @ block_type @ '' content had invalid type'')
      | _ \<Rightarrow> provider_error (''Anthropic '' @ block_type @ '' content had invalid type''))"

definition required_string :: "string \<Rightarrow> Value \<Rightarrow> string \<Rightarrow> ('http, string) ProviderError + string" where
  "required_string block_type block field =
     ok_or (get_str block field) (Provider (''Anthropic '' @ block_type @ '' content block missing string '' @ field))"

definition required_nonempty_string :: "string \<Rightarrow> Value \<Rightarrow> string \<Rightarrow> ('http, string) ProviderError + string" where
  "required_nonempty_string block_type block field =
     and_then (required_string block_type block field) (\<lambda>s.
       if s = [] then provider_error (''Anthropic '' @ block_type @ '' content block had empty '' @ field) else Inr s)"

definition validate_anthropic_stream_content_start :: "Value \<Rightarrow> ('http, string) ProviderError + unit" where
  "validate_anthropic_stream_content_start block =
     and_then (anthropic_block_type block ''Anthropic content_block_start content_block'') (\<lambda>block_type.
       if block_type = ''text''
       then and_then (required_string block_type block ''text'') (\<lambda>text.
              if text \<noteq> [] then provider_error ''Anthropic streamed text content block had pre-populated text''
              else case Value_get block ''citations'' of
                  None \<Rightarrow> Inr ()
                | Some JNull \<Rightarrow> Inr ()
                | Some (JArray citations) \<Rightarrow>
                    if citations \<noteq> []
                    then provider_error ''Anthropic streamed text content block had pre-populated citations'' else Inr ()
                | Some _ \<Rightarrow> provider_error ''Anthropic text content block citations was not an array or null'')
       else if block_type = ''thinking''
       then and_then (required_string block_type block ''thinking'') (\<lambda>thinking.
              if thinking \<noteq> []
              then provider_error ''Anthropic streamed thinking content block had pre-populated content''
              else and_then (required_string block_type block ''signature'') (\<lambda>signature.
                if signature \<noteq> []
                then provider_error ''Anthropic streamed thinking content block had pre-populated content'' else Inr ()))
       else if block_type = ''redacted_thinking''
       then and_then (required_nonempty_string block_type block ''data'') (\<lambda>_. Inr ())
       else if block_type = ''tool_use'' \<or> block_type = ''server_tool_use''
       then and_then (required_nonempty_string block_type block ''id'') (\<lambda>_.
              and_then (required_nonempty_string block_type block ''name'') (\<lambda>_.
                case get_object block ''input'' of
                  Some input \<Rightarrow>
                    if input = [] then Inr ()
                    else provider_error (''Anthropic streamed '' @ block_type @ '' content block had pre-populated input'')
                | None \<Rightarrow> provider_error (''Anthropic '' @ block_type @ '' content block missing input object'')))
       else if block_type = ''web_search_tool_result'' \<or> block_type = ''web_fetch_tool_result''
       then and_then (required_nonempty_string block_type block ''tool_use_id'') (\<lambda>_.
              and_then (ok_or (Value_get block ''content'')
                  (Provider (''Anthropic '' @ block_type @ '' content block missing content'')))
                (validate_anthropic_hosted_tool_result block_type))
       else provider_error (''Anthropic content_block_start had unsupported content block type '' @ block_type))"

section \<open>Usage\<close>

definition token_field :: "Value \<Rightarrow> string \<Rightarrow> nat option" where
  "token_field v field = map_option unat (get_u64 v field)"

definition total_input :: "nat option \<Rightarrow> nat option \<Rightarrow> nat option \<Rightarrow> nat option" where
  "total_input provider_input cache_read cache_creation =
     map_option (\<lambda>input. saturating_add (saturating_add input (unwrap_or cache_read 0)) (unwrap_or cache_creation 0))
       provider_input"

definition total_tokens :: "nat option \<Rightarrow> nat option \<Rightarrow> nat option" where
  "total_tokens input_tokens output_tokens =
     (case (input_tokens, output_tokens) of
        (Some input, Some out) \<Rightarrow> Some (saturating_add input out)
      | _ \<Rightarrow> None)"

definition anthropic_usage :: "Value \<Rightarrow> ProviderUsage option" where
  "anthropic_usage v =
     (let output_tokens = token_field v ''output_tokens'';
          cache_read = token_field v ''cache_read_input_tokens'';
          cache_creation = token_field v ''cache_creation_input_tokens'';
          input_tokens = total_input (token_field v ''input_tokens'') cache_read cache_creation
      in Some (ProviderUsage_default
           \<lparr>pu_input_tokens := input_tokens, pu_output_tokens := output_tokens,
            pu_total_tokens := total_tokens input_tokens output_tokens,
            pu_cache_read_input_tokens := cache_read, pu_cache_creation_input_tokens := cache_creation,
            pu_raw_provider_usage := Some v\<rparr>))"

definition usage_fields :: "string list" where
  "usage_fields = [''input_tokens'', ''output_tokens'', ''cache_read_input_tokens'', ''cache_creation_input_tokens'']"

fun check_usage_fields :: "(string \<times> Value) list \<Rightarrow> bool \<Rightarrow> string list \<Rightarrow> ('http, string) ProviderError + bool" where
  "check_usage_fields usage has_token_count [] = Inr has_token_count"
| "check_usage_fields usage has_token_count (field # more_fields) =
     (case map_of usage field of
        None \<Rightarrow> check_usage_fields usage has_token_count more_fields
      | Some v \<Rightarrow>
          and_then (ok_or (Value_as_u64 v)
              (Provider (''Anthropic message_delta usage.'' @ field @ '' was not an unsigned integer'')))
            (\<lambda>_. check_usage_fields usage True more_fields))"

definition anthropic_message_delta_usage :: "Value option \<Rightarrow> ('http, string) ProviderError + ProviderUsage option" where
  "anthropic_message_delta_usage v =
     (case v of
        None \<Rightarrow> Inr None
      | Some usage \<Rightarrow>
          and_then (ok_or (Value_as_object usage) (Provider ''Anthropic message_delta usage was not an object'')) (\<lambda>object.
          and_then (check_usage_fields object False usage_fields) (\<lambda>has_token_count.
            if \<not> has_token_count
            then provider_error ''Anthropic message_delta usage contained no cumulative token counts''
            else Inr (anthropic_usage usage))))"

text \<open>The merged value of an update: objects key by key, everything else replaced.\<close>

fun merge_json_value :: "Value \<Rightarrow> Value \<Rightarrow> Value" where
  "merge_json_value current (JObject update) =
     (case current of
        JObject kvs \<Rightarrow>
          JObject (foldl (\<lambda>kvs kv. case map_of kvs (fst kv) of
                Some v \<Rightarrow> btree_insert (fst kv) (merge_json_value v (snd kv)) kvs
              | None \<Rightarrow> btree_insert (fst kv) (snd kv) kvs) kvs update)
      | _ \<Rightarrow> JObject update)"
| "merge_json_value current update = update"

definition merge_json_object :: "Value option \<Rightarrow> Value \<Rightarrow> Value" where
  "merge_json_object current update = merge_json_value (unwrap_or current (JObject [])) update"

text \<open>A zero in a later fragment does not erase a count that was reported before.\<close>

definition restore_count :: "Value option \<Rightarrow> Value option \<Rightarrow> (string \<times> Value) list \<Rightarrow> string \<Rightarrow> (string \<times> Value) list" where
  "restore_count previous_raw update_raw raw key =
     (case (Option.bind previous_raw (\<lambda>v. get_u64 v key), Option.bind update_raw (\<lambda>v. get_u64 v key)) of
        (Some previous, Some update) \<Rightarrow>
          if update = 0 \<and> previous > 0 then btree_insert key (json_u64 previous) raw else raw
      | _ \<Rightarrow> raw)"

definition merge_anthropic_usage :: "ProviderUsage option \<Rightarrow> ProviderUsage \<Rightarrow> ProviderUsage" where
  "merge_anthropic_usage current update =
     (let current = unwrap_or current ProviderUsage_default;
          previous_raw = pu_raw_provider_usage current;
          update_raw = pu_raw_provider_usage update;
          merged = (case update_raw of Some v \<Rightarrow> Some (merge_json_object previous_raw v) | None \<Rightarrow> previous_raw);
          current = current\<lparr>pu_raw_provider_usage := merged\<rparr>;
          current = (case Option.bind merged Value_as_object of
              None \<Rightarrow> current
            | Some raw \<Rightarrow>
                let raw = foldl (restore_count previous_raw update_raw) raw
                      [''input_tokens'', ''cache_read_input_tokens'', ''cache_creation_input_tokens''];
                    v = JObject raw;
                    cache_read = token_field v ''cache_read_input_tokens'';
                    cache_creation = token_field v ''cache_creation_input_tokens''
                in current
                  \<lparr>pu_raw_provider_usage := Some v, pu_output_tokens := token_field v ''output_tokens'',
                   pu_cache_read_input_tokens := cache_read, pu_cache_creation_input_tokens := cache_creation,
                   pu_input_tokens := total_input (token_field v ''input_tokens'') cache_read cache_creation\<rparr>)
      in current\<lparr>pu_total_tokens := total_tokens (pu_input_tokens current) (pu_output_tokens current)\<rparr>)"

section \<open>Stop details\<close>

definition optional_detail :: "json_codec \<Rightarrow> (string \<times> Value) list \<Rightarrow> string \<Rightarrow> ('http, string) ProviderError + string option" where
  "optional_detail codec object field =
     (case map_of object field of
        None \<Rightarrow> Inr None
      | Some JNull \<Rightarrow> Inr None
      | Some (JString v) \<Rightarrow> Inr (Some v)
      | Some v \<Rightarrow> provider_error (''Anthropic message_delta stop_details.'' @ field @ '' was not a string or null: ''
          @ jc_to_string codec v))"

definition anthropic_stop_details ::
  "json_codec \<Rightarrow> Value option \<Rightarrow> ('http, string) ProviderError + ModelStopDetails option" where
  "anthropic_stop_details codec v =
     (case v of
        None \<Rightarrow> Inr None
      | Some JNull \<Rightarrow> Inr None
      | Some details \<Rightarrow>
          and_then (ok_or (Value_as_object details) (Provider ''Anthropic message_delta stop_details was not an object or null''))
            (\<lambda>object. and_then (optional_detail codec object ''category'') (\<lambda>category.
               and_then (optional_detail codec object ''explanation'') (\<lambda>explanation.
                 Inr (Some \<lparr>sd_category = category, sd_explanation = explanation\<rparr>)))))"

definition merge_detail :: "string \<Rightarrow> string option \<Rightarrow> string option \<Rightarrow> ('http, string) ProviderError + string option" where
  "merge_detail field current update =
     (case (current, update) of
        (Some existing, Some u) \<Rightarrow>
          if existing \<noteq> u
          then provider_error (''Anthropic response stream contained conflicting terminal stop_details.'' @ field)
          else Inr current
      | (None, Some u) \<Rightarrow> Inr (Some u)
      | _ \<Rightarrow> Inr current)"

definition merge_anthropic_stop_details ::
  "ModelStopDetails option \<Rightarrow> ModelStopDetails \<Rightarrow> ('http, string) ProviderError + ModelStopDetails" where
  "merge_anthropic_stop_details current update =
     (let current = unwrap_or current ModelStopDetails_default
      in and_then (merge_detail ''category'' (sd_category current) (sd_category update)) (\<lambda>category.
         and_then (merge_detail ''explanation'' (sd_explanation current) (sd_explanation update)) (\<lambda>explanation.
           Inr \<lparr>sd_category = category, sd_explanation = explanation\<rparr>)))"

section \<open>Content blocks\<close>

definition reject_ordinary_anthropic_compaction :: "('http, string) ProviderError" where
  "reject_ordinary_anthropic_compaction = Provider
     ''Anthropic ordinary response unexpectedly contained inline compaction; refusing to persist partial or opaque response content''"

definition is_compaction_event :: "Value \<Rightarrow> bool" where
  "is_compaction_event event =
     (case get_str event ''type'' of
        None \<Rightarrow> False
      | Some t \<Rightarrow>
          if t = ''message_start''
          then (case Option.bind (Value_pointer event [''message'', ''content'']) Value_as_array of
                  Some content \<Rightarrow> list_ex (\<lambda>block. get_str block ''type'' = Some ''compaction'') content
                | None \<Rightarrow> False)
          else if t = ''content_block_start''
          then Option.bind (Value_pointer event [''content_block'', ''type'']) Value_as_str = Some ''compaction''
          else if t = ''content_block_delta''
          then Option.bind (Value_pointer event [''delta'', ''type'']) Value_as_str = Some ''compaction_delta''
          else if t = ''message_delta''
          then Option.bind (Value_pointer event [''delta'', ''stop_reason'']) Value_as_str = Some ''compaction''
          else False)"

definition reject_ordinary_compaction_event :: "Value \<Rightarrow> ('http, string) ProviderError + unit" where
  "reject_ordinary_compaction_event event =
     (if is_compaction_event event then Inl reject_ordinary_anthropic_compaction else Inr ())"

definition normalize_stream_content_start :: "Value \<Rightarrow> Value" where
  "normalize_stream_content_start block =
     (case get_str block ''type'' of
        None \<Rightarrow> block
      | Some t \<Rightarrow>
          if t = ''tool_use'' \<or> t = ''server_tool_use'' then Value_set block ''input'' (JString [])
          else if t = ''text'' then Value_set block ''text'' (JString [])
          else if t = ''thinking'' then Value_set (Value_set block ''thinking'' (JString [])) ''signature'' (JString [])
          else block)"

definition parse_streamed_json_object :: "json_codec \<Rightarrow> string \<Rightarrow> ('http, string) ProviderError + Value" where
  "parse_streamed_json_object codec input =
     (if input = [] then Inr (JObject [])
      else and_then (map_err (\<lambda>e. Provider (''Anthropic streamed tool input was malformed JSON: '' @ e)) (jc_from_str codec input))
        (\<lambda>v. if Value_as_object v = None then provider_error ''Anthropic streamed tool input was not a JSON object''
             else Inr v))"

definition finalize_tool_input :: "json_codec \<Rightarrow> Value \<Rightarrow> ('http, string) ProviderError + Value" where
  "finalize_tool_input codec block =
     (if get_str block ''type'' = Some ''tool_use'' \<or> get_str block ''type'' = Some ''server_tool_use''
      then and_then (ok_or (get_str block ''input'') (Provider ''Anthropic streamed tool content block input was not a string''))
        (\<lambda>input. and_then (parse_streamed_json_object codec input) (\<lambda>v. Inr (Value_set block ''input'' v)))
      else Inr block)"

definition finalize_stream_content_block :: "json_codec \<Rightarrow> Value \<Rightarrow> ('http, string) ProviderError + Value" where
  "finalize_stream_content_block codec block =
     and_then (finalize_tool_input codec block) (\<lambda>block.
       if get_str block ''type'' = Some ''thinking'' \<and> unwrap_or (get_str block ''signature'') [] = []
       then provider_error ''Anthropic thinking content block ended without signature_delta''
       else Inr block)"

definition required_anthropic_delta_string :: "Value \<Rightarrow> string \<Rightarrow> ('http, string) ProviderError + string" where
  "required_anthropic_delta_string delta field =
     ok_or (get_str delta field)
       (Provider (''Anthropic '' @ unwrap_or (get_str delta ''type'') ''content block delta''
          @ '' missing string '' @ field))"

definition append_required_json_string_field ::
  "Value \<Rightarrow> string \<Rightarrow> Value \<Rightarrow> string \<Rightarrow> ('http, string) ProviderError + Value" where
  "append_required_json_string_field block block_field delta delta_field =
     and_then (required_anthropic_delta_string delta delta_field) (\<lambda>v.
       case Value_get block block_field of
         Some (JString current) \<Rightarrow> Inr (Value_set block block_field (JString (current @ v)))
       | _ \<Rightarrow> Inr (Value_set block block_field (JString v)))"

definition canonical_anthropic_tool_name :: "string \<Rightarrow> string" where
  "canonical_anthropic_tool_name name =
     (if name = ''str_replace_based_edit_tool'' then ''Edit''
      else if name = ''web_search'' then ''WebSearch''
      else if name = ''web_fetch'' then ''WebFetch''
      else name)"

definition anthropic_provider_replay_display :: "Value \<Rightarrow> ReplayDisplay option" where
  "anthropic_provider_replay_display block =
     Option.bind (get_str block ''name'') (\<lambda>wire_name.
       let name = canonical_anthropic_tool_name wire_name
       in Option.bind (get_str block ''type'') (\<lambda>t.
            if t = ''server_tool_use'' then tool_display name HostedTool (Value_get block ''input'')
            else if t = ''tool_use'' then tool_display name LocalTool (Value_get block ''input'')
            else None))"

definition block_tool_call :: "json_codec \<Rightarrow> Value \<Rightarrow> ('http, string) ProviderError + ToolCall" where
  "block_tool_call codec block =
     and_then (ok_or (get_str block ''id'') (Provider ''Claude tool_use missing id'')) (\<lambda>i.
     and_then (ok_or (get_str block ''name'') (Provider ''Claude tool_use missing name'')) (\<lambda>name.
     and_then (ok_or (Value_get block ''input'') (Provider ''Claude tool_use missing input'')) (\<lambda>input.
       Inr \<lparr>tc_id = ToolCallId i, tc_tool_name = canonical_anthropic_tool_name name,
            tc_args_json = jc_to_string codec input\<rparr>)))"

definition push_anthropic_content_block ::
  "json_codec \<Rightarrow> Value \<Rightarrow> AssistantItem list \<Rightarrow> ProviderReplayItem list
     \<Rightarrow> ('http, string) ProviderError + AssistantItem list \<times> ProviderReplayItem list" where
  "push_anthropic_content_block codec block items provider_replay =
     and_then (anthropic_block_type block ''Anthropic response content block'') (\<lambda>block_type.
     and_then (ProviderReplayItem_new_with_display (\<lambda>v. Inr (jc_to_string codec v)) Claude block
         (anthropic_provider_replay_display block)) (\<lambda>record.
       let provider_replay = provider_replay @ [record]
       in if block_type = ''text''
          then (case get_str block ''text'' of
                  Some text \<Rightarrow> Inr (push_text_item text items, provider_replay)
                | None \<Rightarrow> Inr (items, provider_replay))
          else if block_type = ''tool_use''
          then and_then (block_tool_call codec block) (\<lambda>call. Inr (items @ [ToolCallItem call], provider_replay))
          else Inr (items, provider_replay)))"

section \<open>An ordinary response\<close>

record AnthropicStreamState =
  an_active_content_block :: "(nat \<times> Value) option"
  an_next_content_block_index :: nat
  an_provider_replay :: "ProviderReplayItem list"
  an_items :: "AssistantItem list"
  an_usage :: "ProviderUsage option"
  an_stop_reason :: ModelStopReason
  an_stop_details :: "ModelStopDetails option"
  an_message_started :: bool
  an_terminal_stop_reason :: "string option"
  an_message_stopped :: bool

definition AnthropicStreamState_default :: AnthropicStreamState where
  "AnthropicStreamState_default =
     \<lparr>an_active_content_block = None, an_next_content_block_index = 0, an_provider_replay = [], an_items = [],
      an_usage = None, an_stop_reason = StopComplete, an_stop_details = None, an_message_started = False,
      an_terminal_stop_reason = None, an_message_stopped = False\<rparr>"

definition require_content_phase :: "string \<Rightarrow> AnthropicStreamState \<Rightarrow> ('http, string) ProviderError + unit" where
  "require_content_phase event_type st =
     (if \<not> an_message_started st then provider_error (''Anthropic '' @ event_type @ '' arrived before message_start'')
      else if an_terminal_stop_reason st \<noteq> None
      then provider_error (''Anthropic '' @ event_type @ '' arrived after terminal stop_reason'')
      else Inr ())"

definition start_content_block ::
  "nat \<Rightarrow> Value \<Rightarrow> AnthropicStreamState \<Rightarrow> ('http, string) ProviderError + AnthropicStreamState" where
  "start_content_block index block st =
     (case an_active_content_block st of
        Some (active_index, _) \<Rightarrow>
          provider_error (''Anthropic content_block_start for index '' @ dec_string index
            @ '' arrived before content_block_stop for index '' @ dec_string active_index)
      | None \<Rightarrow>
          if index \<noteq> an_next_content_block_index st
          then provider_error (''Anthropic content_block_start index was not contiguous: expected ''
            @ dec_string (an_next_content_block_index st) @ '', found '' @ dec_string index)
          else and_then (validate_anthropic_stream_content_start block) (\<lambda>_.
            Inr (st\<lparr>an_active_content_block := Some (index, normalize_stream_content_start block)\<rparr>)))"

definition has_signature :: "Value \<Rightarrow> bool" where
  "has_signature block \<longleftrightarrow> unwrap_or (get_str block ''signature'') [] \<noteq> []"

definition append_citation :: "Value \<Rightarrow> Value \<Rightarrow> ('http, string) ProviderError + Value" where
  "append_citation block delta =
     and_then (ok_or (get_object delta ''citation'') (Provider ''Anthropic citations_delta missing citation object''))
       (\<lambda>citation. and_then (anthropic_block_type (JObject citation) ''Anthropic citations_delta citation'') (\<lambda>_.
          case Value_get block ''citations'' of
            Some (JArray citations) \<Rightarrow> Inr (Value_set block ''citations'' (JArray (citations @ [JObject citation])))
          | Some JNull \<Rightarrow> Inr (Value_set block ''citations'' (JArray [JObject citation]))
          | None \<Rightarrow> Inr (Value_set block ''citations'' (JArray [JObject citation]))
          | Some _ \<Rightarrow> provider_error ''Anthropic text content block citations was not an array or null''))"

definition delta_block :: "string \<Rightarrow> string \<Rightarrow> Value \<Rightarrow> Value \<Rightarrow> ('http, string) ProviderError + Value" where
  "delta_block block_type delta_type block delta =
     (if delta_type = ''input_json_delta'' \<and> (block_type = ''tool_use'' \<or> block_type = ''server_tool_use'')
      then append_required_json_string_field block ''input'' delta ''partial_json''
      else if delta_type = ''text_delta'' \<and> block_type = ''text''
      then append_required_json_string_field block ''text'' delta ''text''
      else if delta_type = ''thinking_delta'' \<and> block_type = ''thinking''
      then if has_signature block then provider_error ''Anthropic thinking_delta arrived after signature_delta''
           else append_required_json_string_field block ''thinking'' delta ''thinking''
      else if delta_type = ''signature_delta'' \<and> block_type = ''thinking''
      then and_then (required_anthropic_delta_string delta ''signature'') (\<lambda>signature.
             if signature = [] then provider_error ''Anthropic signature_delta contained an empty signature''
             else if has_signature block
             then provider_error ''Anthropic thinking block received duplicate signature_delta''
             else Inr (Value_set block ''signature'' (JString signature)))
      else if delta_type = ''citations_delta'' \<and> block_type = ''text'' then append_citation block delta
      else if delta_type \<in> {''input_json_delta'', ''text_delta'', ''thinking_delta'', ''signature_delta'', ''citations_delta''}
      then provider_error (''Anthropic '' @ delta_type @ '' was invalid for content block type '' @ block_type)
      else provider_error (''Anthropic content_block_delta had unsupported delta type '' @ delta_type))"

definition apply_content_delta ::
  "nat \<Rightarrow> Value \<Rightarrow> AnthropicStreamState \<Rightarrow> ('http, string) ProviderError + AnthropicStreamState" where
  "apply_content_delta index delta st =
     (case an_active_content_block st of
        None \<Rightarrow> provider_error (''Anthropic content_block_delta referenced nonexistent block index '' @ dec_string index)
      | Some (active_index, block) \<Rightarrow>
          if index \<noteq> active_index
          then provider_error (''Anthropic content_block_delta index '' @ dec_string index
            @ '' did not match active block index '' @ dec_string active_index)
          else and_then (anthropic_block_type block ''Anthropic streamed content block'') (\<lambda>block_type.
            and_then (ok_or (option_filter (\<lambda>t. t \<noteq> []) (get_str delta ''type''))
                (Provider ''Anthropic content_block_delta missing nonempty delta type'')) (\<lambda>delta_type.
              and_then (delta_block block_type delta_type block delta) (\<lambda>block.
                Inr (st\<lparr>an_active_content_block := Some (active_index, block)\<rparr>)))))"

definition finish_content_block ::
  "json_codec \<Rightarrow> nat \<Rightarrow> AnthropicStreamState \<Rightarrow> ('http, string) ProviderError + AnthropicStreamState" where
  "finish_content_block codec index st =
     (case an_active_content_block st of
        None \<Rightarrow> provider_error (''Anthropic content_block_stop referenced nonexistent block index '' @ dec_string index)
      | Some (active_index, block) \<Rightarrow>
          if index \<noteq> active_index
          then provider_error (''Anthropic content_block_stop index '' @ dec_string index
            @ '' did not match active block index '' @ dec_string active_index)
          else and_then (finalize_stream_content_block codec block) (\<lambda>block.
            and_then (push_anthropic_content_block codec block (an_items st) (an_provider_replay st)) (\<lambda>pushed.
              Inr (st\<lparr>an_active_content_block := None, an_items := fst pushed, an_provider_replay := snd pushed,
                     an_next_content_block_index := an_next_content_block_index st + 1\<rparr>))))"

definition stop_reason_of :: "string \<Rightarrow> ('http, string) ProviderError + ModelStopReason" where
  "stop_reason_of reason =
     (if reason \<in> {''end_turn'', ''stop_sequence'', ''tool_use''} then Inr StopComplete
      else if reason = ''max_tokens'' then Inr StopMaxOutputTokens
      else if reason = ''refusal'' then Inr StopRefusal
      else if reason \<in> {''pause_turn'', ''model_context_window_exceeded''} then Inl (Incomplete ''incomplete'' reason)
      else Inl (Incomplete ''unknown_stop_reason'' reason))"

definition terminal_stop ::
  "json_codec \<Rightarrow> string \<Rightarrow> ModelStopDetails option \<Rightarrow> AnthropicStreamState
     \<Rightarrow> ('http, string) ProviderError + AnthropicStreamState" where
  "terminal_stop codec reason details st =
     (if reason = [] then provider_error ''Anthropic message_delta stop_reason was empty''
      else if (case an_terminal_stop_reason st of Some existing \<Rightarrow> existing \<noteq> reason | None \<Rightarrow> False)
      then provider_error (''Anthropic response stream contained conflicting terminal stop reasons: ''
        @ jc_debug_str codec (unwrap_or (an_terminal_stop_reason st) []) @ '' and '' @ jc_debug_str codec reason)
      else and_then (case details of
            Some update \<Rightarrow> and_then (merge_anthropic_stop_details (an_stop_details st) update) (\<lambda>d. Inr (Some d))
          | None \<Rightarrow> Inr (an_stop_details st)) (\<lambda>details.
        and_then (stop_reason_of reason) (\<lambda>stop_reason.
          Inr (st\<lparr>an_stop_details := details, an_stop_reason := stop_reason,
                 an_terminal_stop_reason :=
                   (if an_terminal_stop_reason st = None then Some reason else an_terminal_stop_reason st)\<rparr>))))"

definition message_delta ::
  "json_codec \<Rightarrow> Value \<Rightarrow> AnthropicStreamState \<Rightarrow> ('http, string) ProviderError + AnthropicStreamState" where
  "message_delta codec event st =
     (if \<not> an_message_started st then provider_error ''Anthropic message_delta arrived before message_start''
      else case an_active_content_block st of
        Some (index, _) \<Rightarrow>
          provider_error (''Anthropic message_delta arrived before content_block_stop for index '' @ dec_string index)
      | None \<Rightarrow>
          and_then (ok_or (get_object event ''delta'') (Provider ''Anthropic message_delta missing delta object'')) (\<lambda>delta.
          and_then (anthropic_message_delta_usage (Value_get event ''usage'')) (\<lambda>usage.
          let st = (case usage of
                Some u \<Rightarrow> st\<lparr>an_usage := Some (merge_anthropic_usage (an_usage st) u)\<rparr>
              | None \<Rightarrow> st)
          in and_then (anthropic_stop_details codec (map_of delta ''stop_details'')) (\<lambda>details.
            case map_of delta ''stop_reason'' of
              None \<Rightarrow>
                if details \<noteq> None
                then provider_error ''Anthropic message_delta had stop_details without a terminal stop_reason''
                else if Value_get event ''usage'' = None
                then provider_error ''Anthropic message_delta had neither stop_reason nor usage''
                else Inr st
            | Some JNull \<Rightarrow>
                if details \<noteq> None
                then provider_error ''Anthropic message_delta had stop_details without a terminal stop_reason''
                else Inr st
            | Some (JString reason) \<Rightarrow> terminal_stop codec reason details st
            | Some other \<Rightarrow> provider_error (''Anthropic message_delta stop_reason was not a string or null: ''
                @ jc_to_string codec other)))))"

definition message_start :: "Value \<Rightarrow> AnthropicStreamState \<Rightarrow> ('http, string) ProviderError + AnthropicStreamState" where
  "message_start event st =
     (if an_message_started st then provider_error ''Anthropic response stream contained duplicate message_start''
      else Inr (st\<lparr>an_message_started := True,
                  an_usage := Option.bind (Option.bind (Value_get event ''message'') (\<lambda>m. Value_get m ''usage'')) anthropic_usage\<rparr>))"

definition message_stop :: "AnthropicStreamState \<Rightarrow> ('http, string) ProviderError + AnthropicStreamState" where
  "message_stop st =
     (if \<not> an_message_started st then provider_error ''Anthropic message_stop arrived before message_start''
      else case an_active_content_block st of
        Some (index, _) \<Rightarrow>
          provider_error (''Anthropic message_stop arrived before content_block_stop for index '' @ dec_string index)
      | None \<Rightarrow>
          if an_terminal_stop_reason st = None
          then provider_error ''Anthropic message_stop arrived without a recognized terminal stop_reason''
          else Inr (st\<lparr>an_message_stopped := True\<rparr>))"

definition block_start_event :: "Value \<Rightarrow> AnthropicStreamState \<Rightarrow> ('http, string) ProviderError + AnthropicStreamState" where
  "block_start_event event st =
     and_then (require_content_phase ''content_block_start'' st) (\<lambda>_.
     and_then (anthropic_stream_index event ''content_block_start'') (\<lambda>index.
     and_then (ok_or (get_object event ''content_block'') (Provider ''Anthropic content_block_start missing content_block object''))
       (\<lambda>block. start_content_block index (JObject block) st)))"

definition block_delta_event :: "Value \<Rightarrow> AnthropicStreamState \<Rightarrow> ('http, string) ProviderError + AnthropicStreamState" where
  "block_delta_event event st =
     and_then (require_content_phase ''content_block_delta'' st) (\<lambda>_.
     and_then (anthropic_stream_index event ''content_block_delta'') (\<lambda>index.
     and_then (ok_or (get_object event ''delta'') (Provider ''Anthropic content_block_delta missing delta object''))
       (\<lambda>delta. apply_content_delta index (JObject delta) st)))"

definition block_stop_event ::
  "json_codec \<Rightarrow> Value \<Rightarrow> AnthropicStreamState \<Rightarrow> ('http, string) ProviderError + AnthropicStreamState" where
  "block_stop_event codec event st =
     and_then (require_content_phase ''content_block_stop'' st) (\<lambda>_.
     and_then (anthropic_stream_index event ''content_block_stop'') (\<lambda>index. finish_content_block codec index st))"

definition process_event ::
  "json_codec \<Rightarrow> Value \<Rightarrow> AnthropicStreamState \<Rightarrow> ('http, string) ProviderError + SseControl \<times> AnthropicStreamState" where
  "process_event codec event st =
     and_then (reject_ordinary_compaction_event event) (\<lambda>_.
       let continue = (\<lambda>r. and_then r (\<lambda>st. Inr (Continue, st)))
       in case get_str event ''type'' of
            None \<Rightarrow> Inr (Continue, st)
          | Some t \<Rightarrow>
              if t = ''message_start'' then continue (message_start event st)
              else if t = ''content_block_start'' then continue (block_start_event event st)
              else if t = ''content_block_delta'' then continue (block_delta_event event st)
              else if t = ''content_block_stop'' then continue (block_stop_event codec event st)
              else if t = ''message_delta'' then continue (message_delta codec event st)
              else if t = ''message_stop'' then and_then (message_stop st) (\<lambda>st. Inr (Stop, st))
              else if t = ''error'' then Inl (stream_error_event codec event)
              else Inr (Continue, st))"

definition process_sse_event ::
  "json_codec \<Rightarrow> SseEvent \<Rightarrow> AnthropicStreamState \<Rightarrow> ('http, string) ProviderError + SseControl \<times> AnthropicStreamState" where
  "process_sse_event codec event st =
     (case event of
        SseJson v \<Rightarrow> process_event codec v st
      | SseMalformedJson \<Rightarrow> provider_error ''Anthropic response stream contained malformed JSON event data''
      | SseDone \<Rightarrow> Inr (Continue, st))"

definition stream_finish :: "json_codec \<Rightarrow> AnthropicStreamState \<Rightarrow> ('http, string) ProviderError + ModelResponse" where
  "stream_finish codec st =
     (if \<not> an_message_started st then provider_error ''Anthropic response stream ended without message_start''
      else if \<not> an_message_stopped st then provider_error ''Anthropic response stream ended before message_stop''
      else if an_terminal_stop_reason st = None
      then provider_error ''Anthropic response stream ended without a recognized stop_reason''
      else
        let refused = an_stop_reason st = StopRefusal;
            items = (if refused then [] else an_items st);
            provider_replay = (if refused then [] else an_provider_replay st)
        in if an_stop_reason st = StopCompaction
             \<or> list_ex (\<lambda>record. ProviderReplayItem_raw_type (jc_from_str codec) record = Some ''compaction'') provider_replay
           then Inl reject_ordinary_anthropic_compaction
           else Inr \<lparr>mr_assistant = \<lparr>am_items = items\<rparr>, mr_provider_replay = provider_replay,
                     mr_usage = an_usage st, mr_stop_reason = an_stop_reason st, mr_stop_details = an_stop_details st\<rparr>)"

text \<open>The callback of the reader: an error leaves nothing of the state to be seen.\<close>

definition on_stream_event :: "json_codec \<Rightarrow> (AnthropicStreamState, ('http, string) ProviderError) on_event" where
  "on_stream_event codec event st =
     (case process_sse_event codec event st of
        Inl e \<Rightarrow> (Inl e, st)
      | Inr (control, st') \<Rightarrow> (Inr control, st'))"

text \<open>The message of an error response, with its type and request id when it has them.\<close>

definition response_error_message :: "json_codec \<Rightarrow> string \<Rightarrow> string" where
  "response_error_message codec body =
     (case jc_from_str codec body of
        Inl _ \<Rightarrow> response_excerpt body
      | Inr v \<Rightarrow>
          let raw = (case Value_pointer v [''error'', ''message''] of
                Some m \<Rightarrow> Some m
              | None \<Rightarrow> Value_pointer v [''message''])
          in case Option.bind raw Value_as_str of
               None \<Rightarrow> response_excerpt body
             | Some message \<Rightarrow>
                 (case (Option.bind (Value_pointer v [''error'', ''type'']) Value_as_str, get_str v ''request_id'') of
                    (Some error_type, Some request_id) \<Rightarrow>
                      error_type @ '': '' @ message @ '' ('' @ request_id @ '')''
                  | (Some error_type, None) \<Rightarrow> error_type @ '': '' @ message
                  | (None, Some request_id) \<Rightarrow> message @ '' ('' @ request_id @ '')''
                  | (None, None) \<Rightarrow> message))"

definition parse_anthropic_stream ::
  "json_codec \<Rightarrow> 'http response \<Rightarrow> ('http, string) ProviderError + ModelResponse" where
  "parse_anthropic_stream codec response =
     (case read_provider_json_sse_response (codec_parser codec) response ''Anthropic response stream''
             (response_error_message codec) (on_stream_event codec) AnthropicStreamState_default of
        (Inl e, _) \<Rightarrow> Inl e
      | (Inr _, st) \<Rightarrow> stream_finish codec st)"

section \<open>A compaction\<close>

text \<open>
  The block exists when its deltas and the end of the stream are expected, so the calls of
  \<open>expect\<close> on it do not panic; the defaults that stand for them here are never used.
\<close>

datatype AnthropicCompactionBlockError =
    WrongType | MissingContent | NullContent | EmptyContent | NonStringContent | InvalidEncryptedContent

fun AnthropicCompactionBlockError_message :: "AnthropicCompactionBlockError \<Rightarrow> string" where
  "AnthropicCompactionBlockError_message WrongType = ''type was not compaction''"
| "AnthropicCompactionBlockError_message MissingContent = ''content was missing''"
| "AnthropicCompactionBlockError_message NullContent = ''content was null''"
| "AnthropicCompactionBlockError_message EmptyContent = ''content was empty''"
| "AnthropicCompactionBlockError_message NonStringContent = ''content was not a string''"
| "AnthropicCompactionBlockError_message InvalidEncryptedContent = ''encrypted_content was not string or null''"

fun string_or_null :: "Value \<Rightarrow> bool" where
  "string_or_null JNull = True"
| "string_or_null (JString _) = True"
| "string_or_null _ = False"

definition validate_anthropic_compaction_block :: "Value \<Rightarrow> AnthropicCompactionBlockError + unit" where
  "validate_anthropic_compaction_block block =
     (if get_str block ''type'' \<noteq> Some ''compaction'' then Inl WrongType
      else and_then (ok_or (Value_get block ''content'') MissingContent) (\<lambda>content.
        if content = JNull then Inl NullContent
        else and_then (ok_or (Value_as_str content) NonStringContent) (\<lambda>text.
          if text = [] then Inl EmptyContent
          else if (case Value_get block ''encrypted_content'' of Some v \<Rightarrow> \<not> string_or_null v | None \<Rightarrow> False)
          then Inl InvalidEncryptedContent
          else Inr ())))"

datatype AnthropicCompactionFrame =
  CfMessageStart | CfContentBlockStart | CfContentBlockDelta | CfContentBlockStop | CfMessageDelta | CfTerminal

fun AnthropicCompactionFrame_debug :: "AnthropicCompactionFrame \<Rightarrow> string" where
  "AnthropicCompactionFrame_debug CfMessageStart = ''MessageStart''"
| "AnthropicCompactionFrame_debug CfContentBlockStart = ''ContentBlockStart''"
| "AnthropicCompactionFrame_debug CfContentBlockDelta = ''ContentBlockDelta''"
| "AnthropicCompactionFrame_debug CfContentBlockStop = ''ContentBlockStop''"
| "AnthropicCompactionFrame_debug CfMessageDelta = ''MessageDelta''"
| "AnthropicCompactionFrame_debug CfTerminal = ''Terminal''"

record AnthropicCompactionStreamState =
  cf_expected :: AnthropicCompactionFrame
  cf_block_index :: "nat option"
  cf_compaction_block :: "Value option"
  cf_usage :: "ProviderUsage option"
  cf_saw_compaction_stop_reason :: bool

definition AnthropicCompactionStreamState_default :: AnthropicCompactionStreamState where
  "AnthropicCompactionStreamState_default =
     \<lparr>cf_expected = CfMessageStart, cf_block_index = None, cf_compaction_block = None, cf_usage = None,
      cf_saw_compaction_stop_reason = False\<rparr>"

definition malformed :: "string \<Rightarrow> ('http, string) ProviderError" where
  "malformed message = native_compaction MalformedStream message"

definition debug_index :: "nat option \<Rightarrow> string" where
  "debug_index index = (case index of Some i \<Rightarrow> ''Some('' @ dec_string i @ '')'' | None \<Rightarrow> ''None'')"

definition require_matching_index ::
  "Value \<Rightarrow> string \<Rightarrow> AnthropicCompactionStreamState \<Rightarrow> ('http, string) ProviderError + unit" where
  "require_matching_index event event_type st =
     and_then (ok_or (map_option unat (get_u64 event ''index'')) (malformed (event_type @ '' missing valid index''))) (\<lambda>index.
       if Some index \<noteq> cf_block_index st
       then Inl (malformed (event_type @ '' index '' @ dec_string index @ '' did not match content_block_start index ''
              @ debug_index (cf_block_index st)))
       else Inr ())"

definition compaction_message_start ::
  "Value \<Rightarrow> AnthropicCompactionStreamState \<Rightarrow> ('http, string) ProviderError + AnthropicCompactionStreamState" where
  "compaction_message_start event st =
     and_then (ok_or (get_object event ''message'') (malformed ''message_start missing message object'')) (\<lambda>message.
       Inr (st\<lparr>cf_usage := Option.bind (map_of message ''usage'') anthropic_usage, cf_expected := CfContentBlockStart\<rparr>))"

definition compaction_block_start ::
  "Value \<Rightarrow> AnthropicCompactionStreamState \<Rightarrow> ('http, string) ProviderError + AnthropicCompactionStreamState" where
  "compaction_block_start event st =
     and_then (ok_or (map_option unat (get_u64 event ''index''))
         (malformed ''compaction content_block_start missing valid index'')) (\<lambda>index.
       if index \<noteq> 0
       then Inl (malformed (''sole compaction content block must use index 0, received '' @ dec_string index))
       else and_then (ok_or (get_object event ''content_block'')
           (malformed ''compaction content_block_start missing content_block'')) (\<lambda>block.
         if Option.bind (map_of block ''type'') Value_as_str \<noteq> Some ''compaction''
         then Inl (native_compaction UnexpectedContent ''compaction stream started a non-compaction content block'')
         else if map_of block ''content'' \<notin> {None, Some JNull, Some (JString [])}
         then Inl (malformed ''compaction content_block_start contained pre-populated content'')
         else if (case map_of block ''encrypted_content'' of Some v \<Rightarrow> \<not> string_or_null v | None \<Rightarrow> False)
         then Inl (malformed ''compaction content_block_start encrypted_content was not string or null'')
         else Inr (st\<lparr>cf_block_index := Some index, cf_compaction_block := Some (JObject block),
                     cf_expected := CfContentBlockDelta\<rparr>)))"

definition merge_delta_fields :: "(string \<times> Value) list \<Rightarrow> (string \<times> Value) list \<Rightarrow> (string \<times> Value) list" where
  "merge_delta_fields delta block =
     foldl (\<lambda>block kv. if fst kv \<in> {''type'', ''content'', ''encrypted_content''} then block
                       else btree_insert (fst kv) (snd kv) block) block delta"

definition compaction_block_delta ::
  "Value \<Rightarrow> AnthropicCompactionStreamState \<Rightarrow> ('http, string) ProviderError + AnthropicCompactionStreamState" where
  "compaction_block_delta event st =
     and_then (require_matching_index event ''content_block_delta'' st) (\<lambda>_.
     and_then (ok_or (get_object event ''delta'') (malformed ''compaction delta missing delta object'')) (\<lambda>delta.
       if Option.bind (map_of delta ''type'') Value_as_str \<noteq> Some ''compaction_delta''
       then Inl (malformed ''compaction stream contained a non-compaction or unknown delta type'')
       else
         let block = unwrap_or (Option.bind (cf_compaction_block st) Value_as_object) []
         in and_then (ok_or (map_of delta ''content'') (malformed ''compaction_delta missing required content'')) (\<lambda>content.
           if \<not> string_or_null content then Inl (malformed ''compaction_delta content was not string or null'')
           else
             let block = btree_insert ''content'' content block
             in and_then (case map_of delta ''encrypted_content'' of
                   None \<Rightarrow> Inr block
                 | Some v \<Rightarrow>
                     if \<not> string_or_null v then Inl (malformed ''compaction_delta encrypted_content was not string or null'')
                     else Inr (btree_insert ''encrypted_content'' v block)) (\<lambda>block.
               Inr (st\<lparr>cf_compaction_block := Some (JObject (merge_delta_fields delta block)),
                      cf_expected := CfContentBlockStop\<rparr>)))))"

definition compaction_message_delta ::
  "json_codec \<Rightarrow> Value \<Rightarrow> AnthropicCompactionStreamState
     \<Rightarrow> ('http, string) ProviderError + AnthropicCompactionStreamState" where
  "compaction_message_delta codec event st =
     and_then (ok_or (get_object event ''delta'') (malformed ''message_delta missing delta object'')) (\<lambda>delta.
     and_then (case map_of delta ''stop_reason'' of
           None \<Rightarrow> Inr st
         | Some JNull \<Rightarrow> Inr st
         | Some (JString reason) \<Rightarrow>
             if reason = ''compaction'' \<and> \<not> cf_saw_compaction_stop_reason st
             then Inr (st\<lparr>cf_saw_compaction_stop_reason := True\<rparr>)
             else Inl (native_compaction UnexpectedStopReason
                    (''conflicting or duplicate message_delta stop_reason '' @ jc_debug_str codec reason))
         | Some other \<Rightarrow> Inl (malformed (''message_delta stop_reason was not string or null: '' @ jc_to_string codec other)))
       (\<lambda>st. case Option.bind (Value_get event ''usage'') anthropic_usage of
               Some usage \<Rightarrow> Inr (st\<lparr>cf_usage := Some (merge_anthropic_usage (cf_usage st) usage)\<rparr>)
             | None \<Rightarrow> Inr st))"

definition structural_types :: "string list" where
  "structural_types =
     [''message_start'', ''content_block_start'', ''content_block_delta'', ''content_block_stop'', ''message_delta'', ''message_stop'']"

definition compaction_step ::
  "json_codec \<Rightarrow> string \<Rightarrow> Value \<Rightarrow> AnthropicCompactionStreamState
     \<Rightarrow> ('http, string) ProviderError + AnthropicCompactionStreamState" where
  "compaction_step codec t event st =
     (case cf_expected st of
        CfTerminal \<Rightarrow> Inl (malformed (''stream contained trailing '' @ t @ '' after message_stop''))
      | expected \<Rightarrow>
          if expected = CfMessageStart \<and> t = ''message_start'' then compaction_message_start event st
          else if expected = CfContentBlockStart \<and> t = ''content_block_start'' then compaction_block_start event st
          else if expected = CfContentBlockDelta \<and> t = ''content_block_delta'' then compaction_block_delta event st
          else if expected = CfContentBlockStop \<and> t = ''content_block_stop''
          then and_then (require_matching_index event ''content_block_stop'' st) (\<lambda>_. Inr (st\<lparr>cf_expected := CfMessageDelta\<rparr>))
          else if expected = CfMessageDelta \<and> t = ''message_delta'' then compaction_message_delta codec event st
          else if expected = CfMessageDelta \<and> t = ''message_stop''
          then if cf_saw_compaction_stop_reason st then Inr (st\<lparr>cf_expected := CfTerminal\<rparr>)
               else Inl (native_compaction UnexpectedStopReason ''compaction stream ended without stop_reason compaction'')
          else Inl (malformed (''expected '' @ AnthropicCompactionFrame_debug expected @ '', received '' @ t)))"

definition compaction_process_event ::
  "json_codec \<Rightarrow> Value \<Rightarrow> AnthropicCompactionStreamState
     \<Rightarrow> ('http, string) ProviderError + SseControl \<times> AnthropicCompactionStreamState" where
  "compaction_process_event codec event st =
     and_then (ok_or (get_str event ''type'') (malformed ''stream event missing string type'')) (\<lambda>t.
       if t = ''error'' then Inl (stream_error_event codec event)
       else if t \<notin> set structural_types then Inr (Continue, st)
       else and_then (compaction_step codec t event st) (\<lambda>st. Inr (Continue, st)))"

definition compaction_process_sse_event ::
  "json_codec \<Rightarrow> SseEvent \<Rightarrow> AnthropicCompactionStreamState
     \<Rightarrow> ('http, string) ProviderError + SseControl \<times> AnthropicCompactionStreamState" where
  "compaction_process_sse_event codec event st =
     (case event of
        SseJson v \<Rightarrow> compaction_process_event codec v st
      | SseMalformedJson \<Rightarrow> Inl (malformed ''stream contained malformed JSON event data'')
      | SseDone \<Rightarrow> Inl (malformed ''stream used [DONE] instead of the required message_stop event''))"

fun compaction_error_kind :: "AnthropicCompactionBlockError \<Rightarrow> NativeCompactionErrorKind" where
  "compaction_error_kind NullContent = NullBlock"
| "compaction_error_kind EmptyContent = EmptyBlock"
| "compaction_error_kind _ = MalformedStream"

definition compaction_finish ::
  "json_codec \<Rightarrow> AnthropicCompactionStreamState \<Rightarrow> ('http, string) ProviderError + ProviderCompactionResponse" where
  "compaction_finish codec st =
     (if cf_expected st \<noteq> CfTerminal
      then Inl (malformed (''truncated compaction stream; expected '' @ AnthropicCompactionFrame_debug (cf_expected st)))
      else
        let block = unwrap_or (cf_compaction_block st) JNull
        in and_then (map_err (\<lambda>e. native_compaction (compaction_error_kind e)
               (''invalid Anthropic compaction block: '' @ AnthropicCompactionBlockError_message e))
             (validate_anthropic_compaction_block block)) (\<lambda>_.
           and_then (ProviderReplayItem_new_with_display (\<lambda>v. Inr (jc_to_string codec v)) Claude block None) (\<lambda>replay.
             Inr \<lparr>cr_summary = None, cr_provider_replay = [replay], cr_usage = cf_usage st\<rparr>)))"

definition on_compaction_event ::
  "json_codec \<Rightarrow> (AnthropicCompactionStreamState, ('http, string) ProviderError) on_event" where
  "on_compaction_event codec event st =
     (case compaction_process_sse_event codec event st of
        Inl e \<Rightarrow> (Inl e, st)
      | Inr (control, st') \<Rightarrow> (Inr control, st'))"

definition parse_anthropic_compaction_stream ::
  "json_codec \<Rightarrow> 'http response \<Rightarrow> ('http, string) ProviderError + ProviderCompactionResponse" where
  "parse_anthropic_compaction_stream codec response =
     (case read_provider_json_sse_response (codec_parser codec) response ''Anthropic native compaction response stream''
             (response_error_message codec) (on_compaction_event codec) AnthropicCompactionStreamState_default of
        (Inl e, _) \<Rightarrow> Inl e
      | (Inr _, st) \<Rightarrow> compaction_finish codec st)"

end
