(* ===== verification/Event_Readers.thy ===== *)
theory Event_Readers
  imports Json_Value
begin

text \<open>
  How the readers of event streams run: a handler is given the events in order until it fails or
  says to stop. Reading the bytes of a response is the same as running the handler on the events
  of the whole body, and what holds of the events consumed so far is proved once for all readers.
\<close>

section \<open>Running a reader\<close>

text \<open>The events a reader hands to its callback, until it is told to stop.\<close>

fun run_events :: "('ev \<Rightarrow> 'st \<Rightarrow> 'e + SseControl \<times> 'st) \<Rightarrow> 'ev list \<Rightarrow> 'st \<Rightarrow> 'e + 'st" where
  "run_events f [] st = Inr st"
| "run_events f (ev # evs) st =
     and_then (f ev st) (\<lambda>r. if fst r = Stop then Inr (snd r) else run_events f evs (snd r))"

lemma run_events_filter:
  "(\<And>ev st. ign ev \<Longrightarrow> f ev st = Inr (Continue, st)) \<Longrightarrow>
     run_events f evs st = run_events f (filter (\<lambda>ev. \<not> ign ev) evs) st"
  by (induction evs arbitrary: st) (auto simp: and_then_def split: sum.split)

lemma run_events_step: "f ev st = Inr (Continue, st') \<Longrightarrow> run_events f (ev # evs) st = run_events f evs st'"
  by simp

text \<open>
  A reader's contract: an invariant of the events it has consumed and its state, and the states
  in which it has told its caller to stop.
\<close>

locale event_reader =
  fixes handle :: "'ev \<Rightarrow> 'st \<Rightarrow> 'e + SseControl \<times> 'st"
    and inv :: "'ev list \<Rightarrow> 'st \<Rightarrow> bool"
    and halted :: "'st \<Rightarrow> bool"
  assumes handle_inv: "inv seen st \<Longrightarrow> \<not> halted st \<Longrightarrow> handle ev st = Inr (control, st') \<Longrightarrow> inv (seen @ [ev]) st'"
    and handle_stop: "inv seen st \<Longrightarrow> \<not> halted st \<Longrightarrow> handle ev st = Inr (control, st') \<Longrightarrow> halted st' = (control = Stop)"
begin

lemma run_inv:
  "inv seen st \<Longrightarrow> \<not> halted st \<Longrightarrow> run_events handle evs st = Inr st' \<Longrightarrow>
     \<exists>pre post. evs = pre @ post \<and> inv (seen @ pre) st' \<and> (post = [] \<or> halted st')"
proof (induction evs arbitrary: seen st)
  case Nil
  then show ?case by (intro exI [of _ "[]"]) simp
next
  case (Cons ev evs)
  from Cons.prems(3) obtain control st1 where h: "handle ev st = Inr (control, st1)"
    by (auto simp: and_then_def split: sum.splits)
  then have i: "inv (seen @ [ev]) st1" and c: "halted st1 = (control = Stop)"
    using handle_inv [OF Cons.prems(1,2)] handle_stop [OF Cons.prems(1,2)] by simp_all
  show ?case
  proof (cases "control = Stop")
    case True
    with h i c Cons.prems(3) show ?thesis by (intro exI [of _ "[ev]"] exI [of _ evs]) simp
  next
    case False
    with h Cons.prems(3) have "run_events handle evs st1 = Inr st'" by simp
    from Cons.IH [OF i _ this] c False obtain pre post where
      "evs = pre @ post" "inv ((seen @ [ev]) @ pre) st'" "post = [] \<or> halted st'" by blast
    then show ?thesis by (intro exI [of _ "ev # pre"] exI [of _ post]) simp
  qed
qed

end

section \<open>From bytes to events\<close>

text \<open>The events of a whole body: those of its frames, the unterminated last one included.\<close>

definition frame_events :: "(string \<Rightarrow> Value option) \<Rightarrow> string \<Rightarrow> SseEvent list" where
  "frame_events json frame =
     (case sse_frame_data frame of
        Some (FrameJson data) \<Rightarrow> [case json data of None \<Rightarrow> SseMalformedJson | Some v \<Rightarrow> SseJson v]
      | Some FrameDone \<Rightarrow> [SseDone]
      | None \<Rightarrow> [])"

function body_events :: "(string \<Rightarrow> Value option) \<Rightarrow> string \<Rightarrow> SseEvent list" where
  "body_events json body =
     (case sse_frame_boundary body of
        None \<Rightarrow> if list_all is_ascii_whitespace body then [] else frame_events json body
      | Some (e, n) \<Rightarrow> frame_events json (take e body) @ body_events json (drop (e + n) body))"
  by pat_completeness auto
termination
  by (relation "measure (\<lambda>(_, body). length body)") (auto dest: sse_frame_boundary_bound)

declare body_events.simps [simp del]

lemma from_utf8_lossy_ascii: "list_all (\<lambda>c. byte c < 128) s \<Longrightarrow> from_utf8_lossy s = s"
  by (induction s) (simp_all add: utf8_head_def utf8_tail_def)

lemma trim_space: "trim (CHR '' '' # t) = trim t"
proof -
  have "find_map (\<lambda>w. if w = [] then None else strip_prefix w (CHR '' '' # t)) white_space = Some t"
    by (simp add: white_space_def char_of_def bit_0)
  then show ?thesis by (simp add: trim_def trim_start_def strip_all.simps [of white_space "CHR '' '' # t"])
qed

lemma trim_char:
  assumes "c \<notin> set [CHR 0x09, CHR 0x0A, CHR 0x0B, CHR 0x0C, CHR 0x0D, CHR '' '']"
  shows "trim [c] = [c]"
proof -
  have "find_map (\<lambda>w. if w = [] then None else strip_prefix w [c]) white_space = None"
    "find_map (\<lambda>w. if w = [] then None else strip_prefix w [c]) (map rev white_space) = None"
    using assms by (auto simp: white_space_def char_of_def bit_0 upt_rec)
  then show ?thesis by (simp add: trim_def trim_start_def trim_end_def strip_all.simps [of _ "[c]"])
qed

lemma sse_frame_data_line:
  assumes "list_all (\<lambda>c. byte c < 128) t" and "one_line t" and "trim t = t" and "t \<noteq> []" and "t \<noteq> ''[DONE]''"
  shows "sse_frame_data (''data: '' @ t) = Some (FrameJson t)"
proof -
  have "from_utf8_lossy (''data: '' @ t) = ''data: '' @ t"
    using assms(1) by (intro from_utf8_lossy_ascii) (simp add: byte_def)
  moreover have "split_nl (''data: '' @ t) = [''data: '' @ t]" using assms(2) by (intro split_nl_one_line) (simp add: one_line_def)
  ultimately have "str_lines (from_utf8_lossy (''data: '' @ t)) = [''data: '' @ t]" by (simp add: str_lines_def)
  moreover have "trim (CHR '' '' # t) = t" using assms(3) by (simp add: trim_space)
  ultimately show ?thesis using assms(3-5) by (simp add: sse_frame_data_def List.map_filter_def)
qed

text \<open>A frame of one line, ended by an empty line.\<close>

lemma body_events_line:
  assumes "CHR 0x0A \<notin> set line"
  shows "body_events json (line @ CHR 0x0A # CHR 0x0A # rest) = frame_events json line @ body_events json rest"
proof -
  let ?s = "line @ lf2"
  have line: "?s ! i = CHR 0x0A \<Longrightarrow> length line \<le> i" for i
    using assms by (metis leI nth_append nth_mem)
  have "occurs_at lf2 ?s (length line)" unfolding occurs_at_iff by (intro exI [of _ line] exI [of _ "[]"]) simp
  moreover have "\<not> occurs_at lf2 ?s j" if "j < length line" for j
  proof
    assume "occurs_at lf2 ?s j"
    then have "?s ! j = CHR 0x0A" unfolding occurs_at_def by (auto dest: spec [of _ 0])
    with line that show False by fastforce
  qed
  ultimately have lf: "str_find lf2 ?s = Some (length line)" unfolding str_find_occurs by blast
  have "\<not> occurs_at crlf2 ?s j" for j
  proof
    assume "occurs_at crlf2 ?s j"
    then have "?s ! (j + 1) = CHR 0x0A" "j + 4 \<le> length ?s" unfolding occurs_at_def by (auto dest: spec [of _ "1 :: nat"])
    with line [of "j + 1"] show False by simp
  qed
  then have "str_find crlf2 ?s = None" by (simp add: str_find_None_occurs)
  with lf have "sse_frame_boundary ?s = Some (length line, 2)" by (simp add: sse_frame_boundary_def)
  from sse_frame_boundary_append [OF this, of rest] show ?thesis
    by (simp add: body_events.simps [of json "line @ CHR 0x0A # CHR 0x0A # rest"])
qed

text \<open>A callback made of a handler that returns the new state with its answer.\<close>

definition callback :: "('ev \<Rightarrow> 'st \<Rightarrow> 'e + SseControl \<times> 'st) \<Rightarrow> 'ev \<Rightarrow> 'st \<Rightarrow> ('e + SseControl) \<times> 'st" where
  "callback handle ev st = (case handle ev st of Inl e \<Rightarrow> (Inl e, st) | Inr (control, st') \<Rightarrow> (Inr control, st'))"

fun read_outcome :: "'e + 'st \<Rightarrow> ('e + SseStreamEnd) \<times> 'st \<Rightarrow> bool" where
  "read_outcome (Inl e) (r, st) \<longleftrightarrow> r = Inl e"
| "read_outcome (Inr st') (r, st) \<longleftrightarrow> (\<exists>end. r = Inr end) \<and> st = st'"

lemma process_sse_frame_events:
  "process_sse_frame json (callback handle) frame st =
     (case frame_events json frame of [] \<Rightarrow> (Inr Continue, st) | ev # _ \<Rightarrow> callback handle ev st)"
  by (simp add: process_sse_frame_def frame_events_def split: option.split SseFrame.split)

lemma frame_events_short: "frame_events json frame = [] \<or> (\<exists>ev. frame_events json frame = [ev])"
  by (simp add: frame_events_def split: option.split SseFrame.split)

lemma read_json_sse_text_run:
  "read_outcome (run_events handle (body_events json body) st) (read_json_sse_text json body (callback handle) st)"
proof (induction "length body" arbitrary: body st rule: less_induct)
  case less
  show ?case
  proof (cases "sse_frame_boundary body")
    case None
    then show ?thesis
      using frame_events_short [of json body]
      by (auto simp: body_events.simps [of json body] read_json_sse_text_def process_quiet process_final_sse_frame_def
          process_sse_frame_events callback_def and_then_def split: sum.split SseControl.split)
  next
    case (Some b)
    obtain e n where b: "sse_frame_boundary body = Some (e, n)" using Some by (cases b) simp
    let ?rest = "drop (e + n) body"
    have shorter: "length ?rest < length body" using sse_frame_boundary_bound [OF b] by auto
    obtain r st' where fr: "process_sse_frame json (callback handle) (take e body) st = (r, st')" by fastforce
    have events: "body_events json body = frame_events json (take e body) @ body_events json ?rest"
      using b by (simp add: body_events.simps [of json body])
    have read: "read_json_sse_text json body (callback handle) st =
        (case r of Inl x \<Rightarrow> (Inl x, st') | Inr Stop \<Rightarrow> (Inr Terminal, st')
           | Inr Continue \<Rightarrow> read_json_sse_text json ?rest (callback handle) st')"
      by (simp add: read_json_sse_text_def process_unfold [OF b fr] split: sum.split SseControl.split)
    show ?thesis
      using less [OF shorter, of st'] fr frame_events_short [of json "take e body"]
      by (auto simp: events read process_sse_frame_events callback_def and_then_def split: sum.splits SseControl.splits)
  qed
qed

definition complete_response :: "'http response \<Rightarrow> bool" where
  "complete_response response \<longleftrightarrow> rsp_is_success response \<and> rsp_tail response = TailEof"

lemma read_complete_response:
  assumes "complete_response response"
  shows "read_outcome (run_events handle (body_events json (concat (rsp_chunks response))) st)
     (read_provider_json_sse_response json response name message (callback handle) st)"
proof -
  have "sse_frame_boundary [] = None" by (simp add: sse_frame_boundary_def)
  from read_chunks_concat [OF this, of json "callback handle" _ "rsp_chunks response" TailEof st]
  have "read_chunks json (callback handle) msg (rsp_chunks response) TailEof [] st
      = read_json_sse_text json (concat (rsp_chunks response)) (callback handle) st" for msg
    by (auto simp: read_json_sse_text_def split: prod.split sum.split SseControl.split)
  with assms have "read_provider_json_sse_response json response name message (callback handle) st
      = read_json_sse_text json (concat (rsp_chunks response)) (callback handle) st"
    unfolding complete_response_def read_provider_json_sse_response_def by simp
  then show ?thesis using read_json_sse_text_run by metis
qed

lemma read_outcome_case:
  "read_outcome run read \<Longrightarrow> (case read of (Inl e, _) \<Rightarrow> Inl e | (Inr _, st) \<Rightarrow> finish st) = and_then run finish"
  by (cases run; cases read) (auto split: sum.splits)

definition response_events :: "json_codec \<Rightarrow> 'http response \<Rightarrow> SseEvent list" where
  "response_events codec response = body_events (codec_parser codec) (concat (rsp_chunks response))"

fun json_events :: "SseEvent list \<Rightarrow> Value list" where
  "json_events [] = []"
| "json_events (SseJson v # evs) = v # json_events evs"
| "json_events (_ # evs) = json_events evs"

lemma json_events_map [simp]: "json_events (map SseJson vs) = vs"
  by (induction vs) simp_all

lemma json_events_append [simp]: "json_events (xs @ ys) = json_events xs @ json_events ys"
  by (induction xs rule: json_events.induct) simp_all

text \<open>A handler of JSON values, and the handler of events that refuses malformed ones before it.\<close>

locale json_reader =
  fixes on_sse :: "SseEvent \<Rightarrow> 'st \<Rightarrow> 'e + SseControl \<times> 'st"
    and on_json :: "Value \<Rightarrow> 'st \<Rightarrow> 'e + SseControl \<times> 'st"
  assumes json: "on_sse (SseJson v) st = on_json v st"
    and malformed: "\<exists>e. on_sse SseMalformedJson st = Inl e"
    and finished: "on_sse SseDone st = Inr (Continue, st)"
begin

lemma run_json:
  "SseMalformedJson \<notin> set evs \<Longrightarrow> run_events on_sse evs st = run_events on_json (json_events evs) st"
  by (induction evs arbitrary: st rule: json_events.induct) (simp_all add: json finished and_then_def split: sum.split)

lemma run_json_prefix:
  "run_events on_sse evs st = Inr st' \<Longrightarrow>
     \<exists>pre post. evs = pre @ post \<and> run_events on_json (json_events pre) st = Inr st'"
proof (induction evs arbitrary: st)
  case Nil
  then show ?case by simp
next
  case (Cons ev evs)
  from Cons.prems obtain control st1 where p: "on_sse ev st = Inr (control, st1)"
    by (auto simp: and_then_def split: sum.splits)
  then have step: "run_events on_json (json_events (ev # rest)) st
      = (if control = Stop then Inr st1 else run_events on_json (json_events rest) st1)" for rest
    using malformed [of st] by (cases ev) (auto simp: json finished)
  show ?case
  proof (cases "control = Stop")
    case True
    with p Cons.prems step [of "[]"] show ?thesis by (intro exI [of _ "[ev]"] exI [of _ evs]) simp
  next
    case False
    with p Cons.prems Cons.IH [of st1] obtain pre post where
      "evs = pre @ post" "run_events on_json (json_events pre) st1 = Inr st'"
      by auto
    with False step [of pre] show ?thesis by (intro exI [of _ "ev # pre"] exI [of _ post]) simp
  qed
qed

end

end
