(* ===== verification/Anthropic_Decode.thy ===== *)
theory Anthropic_Decode
  imports Anthropic_Stream Event_Readers
begin

text \<open>
  An ordinary stream decodes to the content it was made of, however that was cut into deltas and
  whatever events of other types come between.
\<close>

section \<open>Events that are passed over\<close>

definition ignorable :: "Value \<Rightarrow> bool" where
  "ignorable event \<longleftrightarrow>
     (case get_str event ''type'' of None \<Rightarrow> True | Some t \<Rightarrow> t \<notin> set structural_types \<and> t \<noteq> ''error'')"

lemma process_ignorable: "ignorable event \<Longrightarrow> process_event codec event st = Inr (Continue, st)"
  by (auto simp: ignorable_def process_event_def reject_ordinary_compaction_event_def is_compaction_event_def
      structural_types_def split: option.splits)

section \<open>Blocks as a stream\<close>

lemma btree_insert_twice [simp]: "btree_insert k v (btree_insert k w m) = btree_insert k v m"
  by (induction m) auto

datatype content =
    TextContent "string list"
  | ThinkingContent "string list" string
  | ToolContent string string "string list"

definition typed :: "string \<Rightarrow> (string \<times> Value) list \<Rightarrow> Value" where
  "typed t kvs = json_object ((''type'', JString t) # kvs)"

fun content_start :: "content \<Rightarrow> Value" where
  "content_start (TextContent ps) = typed ''text'' [(''text'', JString [])]"
| "content_start (ThinkingContent ps sig) = typed ''thinking'' [(''thinking'', JString []), (''signature'', JString [])]"
| "content_start (ToolContent i name ps) =
     typed ''tool_use'' [(''id'', JString i), (''name'', JString name), (''input'', JObject [])]"

fun content_deltas :: "content \<Rightarrow> Value list" where
  "content_deltas (TextContent ps) = map (\<lambda>p. typed ''text_delta'' [(''text'', JString p)]) ps"
| "content_deltas (ThinkingContent ps sig) =
     map (\<lambda>p. typed ''thinking_delta'' [(''thinking'', JString p)]) ps
       @ [typed ''signature_delta'' [(''signature'', JString sig)]]"
| "content_deltas (ToolContent i name ps) = map (\<lambda>p. typed ''input_json_delta'' [(''partial_json'', JString p)]) ps"

definition tool_input :: "json_codec \<Rightarrow> string list \<Rightarrow> Value" where
  "tool_input codec ps =
     (case jc_from_str codec (concat ps) of
        Inr v \<Rightarrow> if concat ps = [] then JObject [] else v
      | Inl _ \<Rightarrow> JObject [])"

fun content_block :: "json_codec \<Rightarrow> content \<Rightarrow> Value" where
  "content_block codec (TextContent ps) = typed ''text'' [(''text'', JString (concat ps))]"
| "content_block codec (ThinkingContent ps sig) =
     typed ''thinking'' [(''thinking'', JString (concat ps)), (''signature'', JString sig)]"
| "content_block codec (ToolContent i name ps) =
     typed ''tool_use'' [(''id'', JString i), (''name'', JString name), (''input'', tool_input codec ps)]"

fun content_ok :: "json_codec \<Rightarrow> content \<Rightarrow> bool" where
  "content_ok codec (TextContent ps) \<longleftrightarrow> True"
| "content_ok codec (ThinkingContent ps sig) \<longleftrightarrow> sig \<noteq> []"
| "content_ok codec (ToolContent i name ps) \<longleftrightarrow>
     i \<noteq> [] \<and> name \<noteq> [] \<and> (concat ps = [] \<or> (case jc_from_str codec (concat ps) of Inr (JObject _) \<Rightarrow> True | _ \<Rightarrow> False))"

definition block_event :: "string \<Rightarrow> nat \<Rightarrow> (string \<times> Value) list \<Rightarrow> Value" where
  "block_event t i kvs = typed t ((''index'', json_u64 (of_nat i)) # kvs)"

definition block_events :: "nat \<Rightarrow> content \<Rightarrow> Value list" where
  "block_events i c =
     block_event ''content_block_start'' i [(''content_block'', content_start c)]
       # map (\<lambda>d. block_event ''content_block_delta'' i [(''delta'', d)]) (content_deltas c)
       @ [block_event ''content_block_stop'' i []]"

fun blocks_events :: "nat \<Rightarrow> content list \<Rightarrow> Value list" where
  "blocks_events i [] = []"
| "blocks_events i (c # cs) = block_events i c @ blocks_events (Suc i) cs"

definition message_events :: "content list \<Rightarrow> string \<Rightarrow> Value list" where
  "message_events cs reason =
     typed ''message_start'' [(''message'', json_object [])] # blocks_events 0 cs
       @ [typed ''message_delta'' [(''delta'', json_object [(''stop_reason'', JString reason)])], typed ''message_stop'' []]"

fun content_item :: "json_codec \<Rightarrow> AssistantItem list \<Rightarrow> content \<Rightarrow> AssistantItem list" where
  "content_item codec items (TextContent ps) = push_text_item (concat ps) items"
| "content_item codec items (ThinkingContent ps sig) = items"
| "content_item codec items (ToolContent i name ps) =
     items @ [ToolCallItem \<lparr>tc_id = ToolCallId i, tc_tool_name = canonical_anthropic_tool_name name,
                tc_args_json = jc_to_string codec (tool_input codec ps)\<rparr>]"

lemma typed_object: "\<exists>kvs'. typed t kvs = JObject kvs' \<and> map_of kvs' = map_of (rev ((''type'', JString t) # kvs))"
  by (simp add: typed_def json_object_def btree_of_map_of del: rev.simps)

lemma get_typed [simp]:
  "Value_get (typed t kvs) k = map_of (rev ((''type'', JString t) # kvs)) k"
  by (simp add: typed_def)

section \<open>Steps\<close>

definition content_phase :: "AnthropicStreamState \<Rightarrow> bool" where
  "content_phase st \<longleftrightarrow> an_message_started st \<and> an_terminal_stop_reason st = None"

lemma content_phase_ok: "content_phase st \<Longrightarrow> require_content_phase t st = Inr ()"
  by (simp add: content_phase_def require_content_phase_def)

lemma block_event_get:
  assumes "fst ` set kvs \<inter> {''type'', ''index''} = {}"
  shows "get_str (block_event t i kvs) ''type'' = Some t"
    and "i < 2 ^ 64 \<Longrightarrow> anthropic_stream_index (block_event t i kvs) u = Inr i"
    and "k \<noteq> ''type'' \<Longrightarrow> k \<noteq> ''index'' \<Longrightarrow> Value_get (block_event t i kvs) k = map_of (rev kvs) k"
proof -
  have none: "map_of (rev kvs) ''type'' = None" "map_of (rev kvs) ''index'' = None"
    using assms by (auto simp: map_of_eq_None_iff)
  show "get_str (block_event t i kvs) ''type'' = Some t"
    using none by (simp add: block_event_def get_str_def map_add_def)
  show "Value_get (block_event t i kvs) k = map_of (rev kvs) k" if "k \<noteq> ''type''" "k \<noteq> ''index''"
    using that by (simp add: block_event_def map_add_def split: option.split)
  show "anthropic_stream_index (block_event t i kvs) u = Inr i" if "i < 2 ^ 64"
    using none that
    by (simp add: anthropic_stream_index_def get_u64_def block_event_def map_add_def unat_of_nat take_bit_nat_eq_self)
qed

lemma process_start:
  assumes "content_phase st" and "an_active_content_block st = None" and "i = an_next_content_block_index st"
    and "i < 2 ^ 64" and "b = JObject kvs" and "validate_anthropic_stream_content_start b = (Inr () :: ('http, string) ProviderError + unit)"
    and "get_str b ''type'' \<noteq> Some ''compaction''"
  shows "process_event codec (block_event ''content_block_start'' i [(''content_block'', b)]) st
    = (Inr (Continue, st\<lparr>an_active_content_block := Some (i, normalize_stream_content_start b)\<rparr>)
        :: ('http, string) ProviderError + SseControl \<times> AnthropicStreamState)"
proof -
  let ?e = "block_event ''content_block_start'' i [(''content_block'', b)]"
  have get: "get_str ?e ''type'' = Some ''content_block_start''" "Value_get ?e ''content_block'' = Some b"
    "anthropic_stream_index ?e u = (Inr i :: ('http, string) ProviderError + nat)" for u
    using block_event_get [of "[(''content_block'', b)]"] assms(4) by simp_all
  have "\<not> is_compaction_event ?e" using get(1,2) assms(7) by (simp add: is_compaction_event_def get_str_def)
  then show ?thesis
    using get assms by (simp add: process_event_def reject_ordinary_compaction_event_def block_start_event_def
      content_phase_ok start_content_block_def get_object_def)
qed

lemma process_delta:
  assumes "content_phase st" and "an_active_content_block st = Some (i, block)" and "i < 2 ^ 64"
    and "anthropic_block_type block ''Anthropic streamed content block'' = (Inr bt :: ('http, string) ProviderError + string)"
    and "d = typed dt kvs" and "dt \<noteq> []" and "''type'' \<notin> fst ` set kvs" and "dt \<noteq> ''compaction_delta''"
    and "delta_block bt dt block d = (Inr block' :: ('http, string) ProviderError + Value)"
  shows "process_event codec (block_event ''content_block_delta'' i [(''delta'', d)]) st
    = (Inr (Continue, st\<lparr>an_active_content_block := Some (i, block')\<rparr>)
        :: ('http, string) ProviderError + SseControl \<times> AnthropicStreamState)"
proof -
  let ?e = "block_event ''content_block_delta'' i [(''delta'', d)]"
  have get: "get_str ?e ''type'' = Some ''content_block_delta''" "Value_get ?e ''delta'' = Some d"
    "anthropic_stream_index ?e u = (Inr i :: ('http, string) ProviderError + nat)" for u
    using block_event_get [of "[(''delta'', d)]"] assms(3) by simp_all
  have "map_of (rev kvs) ''type'' = None" using assms(7) by (simp add: map_of_eq_None_iff)
  then have dtype: "get_str d ''type'' = Some dt" using assms(5) by (simp add: get_str_def map_add_def)
  obtain dkvs where d: "d = JObject dkvs" using typed_object assms(5) by blast
  have "\<not> is_compaction_event ?e"
    using get(1,2) assms(8) dtype by (simp add: is_compaction_event_def get_str_def)
  then show ?thesis
    using get assms(1-4,6,9) dtype d
    by (simp add: process_event_def reject_ordinary_compaction_event_def block_delta_event_def
      content_phase_ok apply_content_delta_def get_object_def)
qed

lemma process_stop:
  assumes "content_phase st" and "an_active_content_block st = Some (i, block)" and "i < 2 ^ 64"
    and "finalize_stream_content_block codec block = (Inr block' :: ('http, string) ProviderError + Value)"
    and "push_anthropic_content_block codec block' (an_items st) (an_provider_replay st)
       = (Inr (items, replay) :: ('http, string) ProviderError + AssistantItem list \<times> ProviderReplayItem list)"
  shows "process_event codec (block_event ''content_block_stop'' i []) st
    = (Inr (Continue, st\<lparr>an_active_content_block := None, an_items := items, an_provider_replay := replay,
          an_next_content_block_index := an_next_content_block_index st + 1\<rparr>)
        :: ('http, string) ProviderError + SseControl \<times> AnthropicStreamState)"
proof -
  let ?e = "block_event ''content_block_stop'' i []"
  have get: "get_str ?e ''type'' = Some ''content_block_stop''"
    "anthropic_stream_index ?e u = (Inr i :: ('http, string) ProviderError + nat)" for u
    using block_event_get [of "[]"] assms(3) by simp_all
  have "\<not> is_compaction_event ?e" using get(1) by (simp add: is_compaction_event_def)
  then show ?thesis
    using get assms by (simp add: process_event_def reject_ordinary_compaction_event_def block_stop_event_def
      content_phase_ok finish_content_block_def)
qed
section \<open>Whole blocks\<close>

lemma typed_lists:
  "typed ''text'' [(''text'', x)] = JObject [(''text'', x), (''type'', JString ''text'')]"
  "typed ''thinking'' [(''thinking'', x), (''signature'', y)] =
     JObject [(''signature'', y), (''thinking'', x), (''type'', JString ''thinking'')]"
  "typed ''tool_use'' [(''id'', x), (''name'', y), (''input'', z)] =
     JObject [(''id'', x), (''input'', z), (''name'', y), (''type'', JString ''tool_use'')]"
  by (simp_all add: typed_def json_object_def btree_of_def less_char_def)

lemma block_type_object:
  "map_of kvs ''type'' = Some (JString t) \<Longrightarrow> t \<noteq> [] \<Longrightarrow> anthropic_block_type (JObject kvs) context_text = Inr t"
  by (simp add: anthropic_block_type_def)

text \<open>Deltas that all append to one field of the active block.\<close>

lemma appending_deltas:
  fixes codec :: json_codec
  assumes "content_phase st" and "i < 2 ^ 64" and "an_active_content_block st = Some (i, block acc)"
    and "\<And>acc. anthropic_block_type (block acc) ''Anthropic streamed content block'' = (Inr bt :: ('http, string) ProviderError + string)"
    and "dt \<noteq> []" and "dt \<noteq> ''compaction_delta''" and "field \<noteq> ''type''"
    and "\<And>acc p. delta_block bt dt (block acc) (typed dt [(field, JString p)]) = (Inr (block (acc @ p)) :: ('http, string) ProviderError + Value)"
  shows "run_events (process_event codec)
      (map (\<lambda>d. block_event ''content_block_delta'' i [(''delta'', d)]) (map (\<lambda>p. typed dt [(field, JString p)]) ps) @ rest) st
    = (run_events (process_event codec) rest (st\<lparr>an_active_content_block := Some (i, block (acc @ concat ps))\<rparr>)
        :: ('http, string) ProviderError + AnthropicStreamState)"
  using assms(1,3)
proof (induction ps arbitrary: st acc)
  case Nil
  then have "st\<lparr>an_active_content_block := Some (i, block acc)\<rparr> = st" by simp
  then show ?case by simp
next
  case (Cons p ps)
  let ?st = "st\<lparr>an_active_content_block := Some (i, block (acc @ p))\<rparr>"
  have "process_event codec (block_event ''content_block_delta'' i [(''delta'', typed dt [(field, JString p)])]) st
      = (Inr (Continue, ?st) :: ('http, string) ProviderError + SseControl \<times> AnthropicStreamState)"
    using Cons.prems assms(2,4-8) by (intro process_delta [where bt = bt]) auto
  moreover have "content_phase ?st" using Cons.prems(1) by (simp add: content_phase_def)
  ultimately show ?case using Cons.IH [of ?st "acc @ p"] by simp
qed

lemma run_block:
  assumes "process_event codec (block_event ''content_block_start'' i [(''content_block'', content_start c)]) st
      = (Inr (Continue, s1) :: ('http, string) ProviderError + SseControl \<times> AnthropicStreamState)"
    and "\<And>rest. run_events (process_event codec)
        (map (\<lambda>d. block_event ''content_block_delta'' i [(''delta'', d)]) (content_deltas c) @ rest) s1
      = (run_events (process_event codec) rest s2 :: ('http, string) ProviderError + AnthropicStreamState)"
    and "process_event codec (block_event ''content_block_stop'' i []) s2
      = (Inr (Continue, s3) :: ('http, string) ProviderError + SseControl \<times> AnthropicStreamState)"
  shows "run_events (process_event codec) (block_events i c @ rest) st
      = (run_events (process_event codec) rest s3 :: ('http, string) ProviderError + AnthropicStreamState)"
  unfolding block_events_def using assms by simp

definition after_block :: "json_codec \<Rightarrow> content \<Rightarrow> AnthropicStreamState \<Rightarrow> AnthropicStreamState" where
  "after_block codec c st = st
     \<lparr>an_active_content_block := None, an_items := content_item codec (an_items st) c,
      an_provider_replay := an_provider_replay st @ [\<lparr>pr_provider = Claude,
        pr_raw_json = jc_to_string codec (content_block codec c),
        pr_display = anthropic_provider_replay_display (content_block codec c)\<rparr>],
      an_next_content_block_index := an_next_content_block_index st + 1\<rparr>"

lemma run_text_block:
  assumes "content_phase st" and "an_active_content_block st = None" and "i = an_next_content_block_index st" and "i < 2 ^ 64"
  shows "run_events (process_event codec) (block_events i (TextContent ps) @ rest) st
    = (run_events (process_event codec) rest (after_block codec (TextContent ps) st)
        :: ('http, string) ProviderError + AnthropicStreamState)"
proof -
  let ?b = "\<lambda>acc. JObject [(''text'', JString acc), (''type'', JString ''text'')]"
  let ?s1 = "st\<lparr>an_active_content_block := Some (i, ?b [])\<rparr>"
  let ?s2 = "st\<lparr>an_active_content_block := Some (i, ?b (concat ps))\<rparr>"
  have "validate_anthropic_stream_content_start (?b []) = (Inr () :: ('http, string) ProviderError + unit)"
    by (simp add: validate_anthropic_stream_content_start_def block_type_object required_string_def get_str_def)
  moreover have "normalize_stream_content_start (?b []) = ?b []"
    by (simp add: normalize_stream_content_start_def get_str_def less_char_def)
  ultimately have start: "process_event codec
      (block_event ''content_block_start'' i [(''content_block'', content_start (TextContent ps))]) st
      = (Inr (Continue, ?s1) :: ('http, string) ProviderError + SseControl \<times> AnthropicStreamState)"
    using process_start [OF assms, of "?b []" _ codec] by (simp add: typed_lists get_str_def)
  have p1: "content_phase ?s1" "content_phase ?s2" using assms(1) by (simp_all add: content_phase_def)
  have d: "delta_block ''text'' ''text_delta'' (?b acc) (typed ''text_delta'' [(''text'', JString p)])
      = (Inr (?b (acc @ p)) :: ('http, string) ProviderError + Value)" for acc p
    by (simp add: delta_block_def append_required_json_string_field_def required_anthropic_delta_string_def get_str_def less_char_def)
  have bt: "anthropic_block_type (?b acc) ''Anthropic streamed content block'' = (Inr ''text'' :: ('http, string) ProviderError + string)"
    for acc by (simp add: block_type_object)
  have deltas: "run_events (process_event codec)
      (map (\<lambda>d. block_event ''content_block_delta'' i [(''delta'', d)]) (content_deltas (TextContent ps)) @ rest') ?s1
      = (run_events (process_event codec) rest' ?s2 :: ('http, string) ProviderError + AnthropicStreamState)" for rest'
    using appending_deltas [OF p1(1) assms(4) _ bt _ _ _ d, where acc = "[]" and ps = ps and codec = codec and rest = rest']
    by simp
  have fin: "finalize_stream_content_block codec (?b (concat ps)) = (Inr (?b (concat ps)) :: ('http, string) ProviderError + Value)"
    by (simp add: finalize_stream_content_block_def finalize_tool_input_def get_str_def)
  have push: "push_anthropic_content_block codec (?b (concat ps)) (an_items ?s2) (an_provider_replay ?s2)
      = (Inr (an_items (after_block codec (TextContent ps) st), an_provider_replay (after_block codec (TextContent ps) st))
         :: ('http, string) ProviderError + AssistantItem list \<times> ProviderReplayItem list)"
    by (simp add: push_anthropic_content_block_def block_type_object ProviderReplayItem_new_with_display_def
        after_block_def typed_lists get_str_def)
  have stop: "process_event codec (block_event ''content_block_stop'' i []) ?s2
      = (Inr (Continue, after_block codec (TextContent ps) st) :: ('http, string) ProviderError + SseControl \<times> AnthropicStreamState)"
    using process_stop [OF p1(2) _ assms(4) fin push] by (simp add: after_block_def)
  from start deltas stop show ?thesis by (rule run_block)
qed

lemma run_thinking_block:
  assumes "content_phase st" and "an_active_content_block st = None" and "i = an_next_content_block_index st" and "i < 2 ^ 64"
    and "sig \<noteq> []"
  shows "run_events (process_event codec) (block_events i (ThinkingContent ps sig) @ rest) st
    = (run_events (process_event codec) rest (after_block codec (ThinkingContent ps sig) st)
        :: ('http, string) ProviderError + AnthropicStreamState)"
proof -
  let ?b = "\<lambda>sg acc. JObject [(''signature'', JString sg), (''thinking'', JString acc), (''type'', JString ''thinking'')]"
  let ?s1 = "st\<lparr>an_active_content_block := Some (i, ?b [] [])\<rparr>"
  let ?s2 = "st\<lparr>an_active_content_block := Some (i, ?b [] (concat ps))\<rparr>"
  let ?s3 = "st\<lparr>an_active_content_block := Some (i, ?b sig (concat ps))\<rparr>"
  have "validate_anthropic_stream_content_start (?b [] []) = (Inr () :: ('http, string) ProviderError + unit)"
    by (simp add: validate_anthropic_stream_content_start_def block_type_object required_string_def get_str_def)
  moreover have "normalize_stream_content_start (?b [] []) = ?b [] []"
    by (simp add: normalize_stream_content_start_def get_str_def less_char_def)
  ultimately have start: "process_event codec
      (block_event ''content_block_start'' i [(''content_block'', content_start (ThinkingContent ps sig))]) st
      = (Inr (Continue, ?s1) :: ('http, string) ProviderError + SseControl \<times> AnthropicStreamState)"
    using process_start [OF assms(1-4), of "?b [] []" _ codec] by (simp add: typed_lists get_str_def)
  have p: "content_phase ?s1" "content_phase ?s2" "content_phase ?s3" using assms(1) by (simp_all add: content_phase_def)
  have bt: "anthropic_block_type (?b sg acc) ''Anthropic streamed content block''
      = (Inr ''thinking'' :: ('http, string) ProviderError + string)" for sg acc by (simp add: block_type_object)
  have d: "delta_block ''thinking'' ''thinking_delta'' (?b [] acc) (typed ''thinking_delta'' [(''thinking'', JString p)])
      = (Inr (?b [] (acc @ p)) :: ('http, string) ProviderError + Value)" for acc p
    by (simp add: delta_block_def append_required_json_string_field_def required_anthropic_delta_string_def get_str_def
        has_signature_def less_char_def)
  have "delta_block ''thinking'' ''signature_delta'' (?b [] (concat ps)) (typed ''signature_delta'' [(''signature'', JString sig)])
      = (Inr (?b sig (concat ps)) :: ('http, string) ProviderError + Value)"
    using assms(5) by (simp add: delta_block_def required_anthropic_delta_string_def get_str_def has_signature_def)
  then have signature: "process_event codec (block_event ''content_block_delta'' i
        [(''delta'', typed ''signature_delta'' [(''signature'', JString sig)])]) ?s2
      = (Inr (Continue, ?s3) :: ('http, string) ProviderError + SseControl \<times> AnthropicStreamState)"
    using process_delta [OF p(2) _ assms(4) bt refl, where kvs = "[(''signature'', JString sig)]"
        and dt = "''signature_delta''" and codec = codec] by simp
  have deltas: "run_events (process_event codec)
      (map (\<lambda>d. block_event ''content_block_delta'' i [(''delta'', d)]) (content_deltas (ThinkingContent ps sig)) @ rest') ?s1
      = (run_events (process_event codec) rest' ?s3 :: ('http, string) ProviderError + AnthropicStreamState)" for rest'
    using appending_deltas [OF p(1) assms(4) _ bt _ _ _ d, where acc = "[]" and ps = ps and codec = codec] signature
    by simp
  have fin: "finalize_stream_content_block codec (?b sig (concat ps)) = (Inr (?b sig (concat ps)) :: ('http, string) ProviderError + Value)"
    using assms(5) by (simp add: finalize_stream_content_block_def finalize_tool_input_def get_str_def)
  have push: "push_anthropic_content_block codec (?b sig (concat ps)) (an_items ?s3) (an_provider_replay ?s3)
      = (Inr (an_items (after_block codec (ThinkingContent ps sig) st), an_provider_replay (after_block codec (ThinkingContent ps sig) st))
         :: ('http, string) ProviderError + AssistantItem list \<times> ProviderReplayItem list)"
    by (simp add: push_anthropic_content_block_def block_type_object ProviderReplayItem_new_with_display_def
        after_block_def typed_lists get_str_def)
  have stop: "process_event codec (block_event ''content_block_stop'' i []) ?s3
      = (Inr (Continue, after_block codec (ThinkingContent ps sig) st)
         :: ('http, string) ProviderError + SseControl \<times> AnthropicStreamState)"
    using process_stop [OF p(3) _ assms(4) fin push] by (simp add: after_block_def)
  from start deltas stop show ?thesis by (rule run_block)
qed

lemma parse_tool_input:
  "content_ok codec (ToolContent u name ps) \<Longrightarrow>
     parse_streamed_json_object codec (concat ps) = (Inr (tool_input codec ps) :: ('http, string) ProviderError + Value)"
  by (auto simp: parse_streamed_json_object_def tool_input_def split: sum.splits Value.splits)

lemma run_tool_block:
  assumes "content_phase st" and "an_active_content_block st = None" and "i = an_next_content_block_index st" and "i < 2 ^ 64"
    and "content_ok codec (ToolContent u name ps)"
  shows "run_events (process_event codec) (block_events i (ToolContent u name ps) @ rest) st
    = (run_events (process_event codec) rest (after_block codec (ToolContent u name ps) st)
        :: ('http, string) ProviderError + AnthropicStreamState)"
proof -
  let ?b = "\<lambda>inp. JObject [(''id'', JString u), (''input'', inp), (''name'', JString name), (''type'', JString ''tool_use'')]"
  let ?s1 = "st\<lparr>an_active_content_block := Some (i, ?b (JString []))\<rparr>"
  let ?s2 = "st\<lparr>an_active_content_block := Some (i, ?b (JString (concat ps)))\<rparr>"
  have "validate_anthropic_stream_content_start (?b (JObject [])) = (Inr () :: ('http, string) ProviderError + unit)"
    using assms(5) by (simp add: validate_anthropic_stream_content_start_def block_type_object required_nonempty_string_def
        required_string_def get_str_def get_object_def)
  moreover have "normalize_stream_content_start (?b (JObject [])) = ?b (JString [])"
    by (simp add: normalize_stream_content_start_def get_str_def less_char_def)
  ultimately have start: "process_event codec
      (block_event ''content_block_start'' i [(''content_block'', content_start (ToolContent u name ps))]) st
      = (Inr (Continue, ?s1) :: ('http, string) ProviderError + SseControl \<times> AnthropicStreamState)"
    using process_start [OF assms(1-4), of "?b (JObject [])" _ codec] by (simp add: typed_lists get_str_def)
  have p: "content_phase ?s1" "content_phase ?s2" using assms(1) by (simp_all add: content_phase_def)
  have bt: "anthropic_block_type (?b (JString acc)) ''Anthropic streamed content block''
      = (Inr ''tool_use'' :: ('http, string) ProviderError + string)" for acc by (simp add: block_type_object)
  have d: "delta_block ''tool_use'' ''input_json_delta'' (?b (JString acc)) (typed ''input_json_delta'' [(''partial_json'', JString p)])
      = (Inr (?b (JString (acc @ p))) :: ('http, string) ProviderError + Value)" for acc p
    by (simp add: delta_block_def append_required_json_string_field_def required_anthropic_delta_string_def get_str_def less_char_def)
  have deltas: "run_events (process_event codec)
      (map (\<lambda>d. block_event ''content_block_delta'' i [(''delta'', d)]) (content_deltas (ToolContent u name ps)) @ rest') ?s1
      = (run_events (process_event codec) rest' ?s2 :: ('http, string) ProviderError + AnthropicStreamState)" for rest'
    using appending_deltas [OF p(1) assms(4) _ bt _ _ _ d, where acc = "[]" and ps = ps and codec = codec and rest = rest']
    by simp
  have fin: "finalize_stream_content_block codec (?b (JString (concat ps)))
      = (Inr (?b (tool_input codec ps)) :: ('http, string) ProviderError + Value)"
    by (simp add: finalize_stream_content_block_def finalize_tool_input_def get_str_def parse_tool_input [OF assms(5)] less_char_def)
  have push: "push_anthropic_content_block codec (?b (tool_input codec ps)) (an_items ?s2) (an_provider_replay ?s2)
      = (Inr (an_items (after_block codec (ToolContent u name ps) st), an_provider_replay (after_block codec (ToolContent u name ps) st))
         :: ('http, string) ProviderError + AssistantItem list \<times> ProviderReplayItem list)"
    by (simp add: push_anthropic_content_block_def block_type_object ProviderReplayItem_new_with_display_def
        after_block_def typed_lists get_str_def block_tool_call_def)
  have stop: "process_event codec (block_event ''content_block_stop'' i []) ?s2
      = (Inr (Continue, after_block codec (ToolContent u name ps) st)
         :: ('http, string) ProviderError + SseControl \<times> AnthropicStreamState)"
    using process_stop [OF p(2) _ assms(4) fin push] by (simp add: after_block_def)
  from start deltas stop show ?thesis by (rule run_block)
qed

lemma run_blocks:
  assumes "content_phase st" and "an_active_content_block st = None"
    and "an_next_content_block_index st + length cs < 2 ^ 64" and "list_all (content_ok codec) cs"
  shows "run_events (process_event codec) (blocks_events (an_next_content_block_index st) cs @ rest) st
    = (run_events (process_event codec) rest (fold (after_block codec) cs st)
        :: ('http, string) ProviderError + AnthropicStreamState)"
  using assms
proof (induction cs arbitrary: st)
  case (Cons c cs)
  let ?i = "an_next_content_block_index st"
  have i: "?i < 2 ^ 64" using Cons.prems(3) by simp
  have "run_events (process_event codec) (block_events ?i c @ rest') st
      = (run_events (process_event codec) rest' (after_block codec c st) :: ('http, string) ProviderError + AnthropicStreamState)" for rest'
    using Cons.prems(4) run_text_block [OF Cons.prems(1,2) refl i] run_thinking_block [OF Cons.prems(1,2) refl i]
      run_tool_block [OF Cons.prems(1,2) refl i] by (cases c) (auto simp del: content_ok.simps(3))
  moreover have "content_phase (after_block codec c st)" "an_active_content_block (after_block codec c st) = None"
    "an_next_content_block_index (after_block codec c st) = Suc ?i"
    using Cons.prems(1) by (simp_all add: after_block_def content_phase_def)
  ultimately show ?case using Cons.IH [of "after_block codec c st"] Cons.prems(3,4) by simp
qed simp
section \<open>Whole messages\<close>

fun content_text :: "content \<Rightarrow> string" where
  "content_text (TextContent ps) = concat ps"
| "content_text _ = []"

fun content_calls :: "json_codec \<Rightarrow> content \<Rightarrow> ToolCall list" where
  "content_calls codec (ToolContent i name ps) =
     [\<lparr>tc_id = ToolCallId i, tc_tool_name = canonical_anthropic_tool_name name,
       tc_args_json = jc_to_string codec (tool_input codec ps)\<rparr>]"
| "content_calls codec _ = []"

lemma content_item_parts:
  "AssistantMessage_text \<lparr>am_items = content_item codec items c\<rparr> = AssistantMessage_text \<lparr>am_items = items\<rparr> @ content_text c"
  "AssistantMessage_tool_calls \<lparr>am_items = content_item codec items c\<rparr>
     = AssistantMessage_tool_calls \<lparr>am_items = items\<rparr> @ content_calls codec c"
  by (cases c; simp add: push_text_item_text;
      simp add: AssistantMessage_text_def AssistantMessage_tool_calls_def List.map_filter_def)+

lemma after_blocks_fields:
  "an_items (fold (after_block codec) cs st) = foldl (content_item codec) (an_items st) cs"
  "map pr_raw_json (an_provider_replay (fold (after_block codec) cs st))
     = map pr_raw_json (an_provider_replay st) @ map (jc_to_string codec \<circ> content_block codec) cs"
  "an_message_started (fold (after_block codec) cs st) = an_message_started st"
  "an_terminal_stop_reason (fold (after_block codec) cs st) = an_terminal_stop_reason st"
  "an_stop_reason (fold (after_block codec) cs st) = an_stop_reason st"
  "an_stop_details (fold (after_block codec) cs st) = an_stop_details st"
  "an_usage (fold (after_block codec) cs st) = an_usage st"
  "an_active_content_block st = None \<Longrightarrow> an_active_content_block (fold (after_block codec) cs st) = None"
  by (induction cs arbitrary: st) (simp_all add: after_block_def)

lemma items_parts:
  "AssistantMessage_text \<lparr>am_items = foldl (content_item codec) items cs\<rparr>
     = AssistantMessage_text \<lparr>am_items = items\<rparr> @ concat (map content_text cs)"
  "AssistantMessage_tool_calls \<lparr>am_items = foldl (content_item codec) items cs\<rparr>
     = AssistantMessage_tool_calls \<lparr>am_items = items\<rparr> @ concat (map (content_calls codec) cs)"
  by (induction cs arbitrary: items) (simp_all add: content_item_parts)

text \<open>Parsing a printed block again yields its type, or fails.\<close>

definition reparse_keeps_type :: "json_codec \<Rightarrow> bool" where
  "reparse_keeps_type codec \<longleftrightarrow>
     (\<forall>v w. jc_from_str codec (jc_to_string codec v) = Inr w \<longrightarrow> get_str w ''type'' = get_str v ''type'')"

lemma content_block_type: "get_str (content_block codec c) ''type'' \<noteq> Some ''compaction''"
  by (cases c) (simp_all add: get_str_def)

lemma replay_not_compaction:
  assumes "reparse_keeps_type codec" and "map pr_raw_json records = map (jc_to_string codec \<circ> content_block codec) cs"
  shows "\<not> list_ex (\<lambda>record. ProviderReplayItem_raw_type (jc_from_str codec) record = Some ''compaction'') records"
proof
  assume "list_ex (\<lambda>record. ProviderReplayItem_raw_type (jc_from_str codec) record = Some ''compaction'') records"
  then obtain r where r: "r \<in> set records" "ProviderReplayItem_raw_type (jc_from_str codec) r = Some ''compaction''"
    by (auto simp: list_ex_iff)
  then have "pr_raw_json r \<in> set (map (jc_to_string codec \<circ> content_block codec) cs)"
    unfolding assms(2) [symmetric] by simp
  then obtain c where "pr_raw_json r = jc_to_string codec (content_block codec c)" by auto
  with r(2) obtain w where "jc_from_str codec (jc_to_string codec (content_block codec c)) = Inr w"
    "get_str w ''type'' = Some ''compaction''"
    by (auto simp: ProviderReplayItem_raw_type_def get_str_def split: sum.splits)
  with assms(1) content_block_type show False unfolding reparse_keeps_type_def by metis
qed

lemma run_message:
  assumes "list_all (content_ok codec) cs" and "length cs < 2 ^ 64"
    and "stop_reason_of reason = (Inr stop :: ('http, string) ProviderError + ModelStopReason)"
  shows "\<exists>st. run_events (process_event codec) (message_events cs reason) AnthropicStreamState_default
      = (Inr st :: ('http, string) ProviderError + AnthropicStreamState)
    \<and> an_message_started st \<and> an_message_stopped st \<and> an_terminal_stop_reason st = Some reason \<and> an_stop_reason st = stop
    \<and> an_items st = foldl (content_item codec) [] cs
    \<and> map pr_raw_json (an_provider_replay st) = map (jc_to_string codec \<circ> content_block codec) cs"
proof -
  let ?s0 = "AnthropicStreamState_default\<lparr>an_message_started := True\<rparr>"
  let ?s1 = "fold (after_block codec) cs ?s0"
  let ?s2 = "?s1\<lparr>an_stop_reason := stop, an_terminal_stop_reason := Some reason\<rparr>"
  let ?s3 = "?s2\<lparr>an_message_stopped := True\<rparr>"
  note d = AnthropicStreamState_default_def
  have start: "process_event codec (typed ''message_start'' [(''message'', json_object [])]) AnthropicStreamState_default
      = (Inr (Continue, ?s0) :: ('http, string) ProviderError + SseControl \<times> AnthropicStreamState)"
    by (simp add: process_event_def reject_ordinary_compaction_event_def is_compaction_event_def get_str_def message_start_def d)
  have blocks: "run_events (process_event codec) (blocks_events 0 cs @ rest) ?s0
      = (run_events (process_event codec) rest ?s1 :: ('http, string) ProviderError + AnthropicStreamState)" for rest
    using run_blocks [of ?s0 cs codec] assms(1,2) by (simp add: content_phase_def d)
  have f: "an_message_started ?s1" "an_terminal_stop_reason ?s1 = None" "an_active_content_block ?s1 = None"
    "an_stop_details ?s1 = None"
    by (simp_all add: after_blocks_fields d)
  have ne: "reason \<noteq> []" "reason \<noteq> ''compaction''" using assms(3) by (auto simp: stop_reason_of_def)
  let ?delta = "typed ''message_delta'' [(''delta'', json_object [(''stop_reason'', JString reason)])]"
  have "json_object [(''stop_reason'', JString reason)] = JObject [(''stop_reason'', JString reason)]"
    by (simp add: json_object_def btree_of_def)
  then have md: "message_delta codec ?delta ?s1 = (Inr ?s2 :: ('http, string) ProviderError + AnthropicStreamState)"
    using f ne assms(3) by (simp add: message_delta_def get_object_def anthropic_message_delta_usage_def anthropic_stop_details_def
        terminal_stop_def)
  have delta: "process_event codec ?delta ?s1 = (Inr (Continue, ?s2) :: ('http, string) ProviderError + SseControl \<times> AnthropicStreamState)"
    using md ne by (simp add: process_event_def reject_ordinary_compaction_event_def is_compaction_event_def get_str_def)
  have stop: "process_event codec (typed ''message_stop'' []) ?s2
      = (Inr (Stop, ?s3) :: ('http, string) ProviderError + SseControl \<times> AnthropicStreamState)"
    using f by (simp add: process_event_def reject_ordinary_compaction_event_def is_compaction_event_def get_str_def message_stop_def)
  have run: "run_events (process_event codec) (message_events cs reason) AnthropicStreamState_default
      = (Inr ?s3 :: ('http, string) ProviderError + AnthropicStreamState)"
    unfolding message_events_def using start blocks delta stop by simp
  have items: "an_items ?s1 = foldl (content_item codec) [] cs"
    "map pr_raw_json (an_provider_replay ?s1) = map (jc_to_string codec \<circ> content_block codec) cs"
    by (simp_all add: after_blocks_fields d)
  show ?thesis
  proof (intro exI conjI)
    show "run_events (process_event codec) (message_events cs reason) AnthropicStreamState_default
      = (Inr ?s3 :: ('http, string) ProviderError + AnthropicStreamState)" by (rule run)
  qed (use f items in simp_all)
qed

lemma message_decodes:
  assumes "list_all (content_ok codec) cs" and "length cs < 2 ^ 64" and "reparse_keeps_type codec"
    and "stop_reason_of reason = (Inr stop :: ('http, string) ProviderError + ModelStopReason)" and "stop \<noteq> StopRefusal"
    and "filter (\<lambda>ev. \<not> ignorable ev) events = message_events cs reason"
  shows "\<exists>r. and_then (run_events (process_event codec) events AnthropicStreamState_default) (stream_finish codec)
      = (Inr r :: ('http, string) ProviderError + ModelResponse)
    \<and> AssistantMessage_text (mr_assistant r) = concat (map content_text cs)
    \<and> AssistantMessage_tool_calls (mr_assistant r) = concat (map (content_calls codec) cs)
    \<and> map pr_raw_json (mr_provider_replay r) = map (jc_to_string codec \<circ> content_block codec) cs
    \<and> mr_stop_reason r = stop"
proof -
  have same: "run_events (process_event codec) events AnthropicStreamState_default
      = (run_events (process_event codec) (message_events cs reason) AnthropicStreamState_default
          :: ('http, string) ProviderError + AnthropicStreamState)"
    unfolding assms(6) [symmetric] by (rule run_events_filter) (rule process_ignorable)
  from run_message [OF assms(1,2,4)] obtain st where
    st: "run_events (process_event codec) events AnthropicStreamState_default
          = (Inr st :: ('http, string) ProviderError + AnthropicStreamState)"
      "an_message_started st" "an_message_stopped st" "an_terminal_stop_reason st = Some reason" "an_stop_reason st = stop"
      "an_items st = foldl (content_item codec) [] cs"
      "map pr_raw_json (an_provider_replay st) = map (jc_to_string codec \<circ> content_block codec) cs"
    unfolding same by blast
  have "stop \<noteq> StopCompaction" using assms(4) by (auto simp: stop_reason_of_def split: if_splits)
  then have "stream_finish codec st = (Inr \<lparr>mr_assistant = \<lparr>am_items = an_items st\<rparr>, mr_provider_replay = an_provider_replay st,
      mr_usage = an_usage st, mr_stop_reason = stop, mr_stop_details = an_stop_details st\<rparr> :: ('http, string) ProviderError + ModelResponse)"
    using st assms(5) replay_not_compaction [OF assms(3) st(7)] by (simp add: stream_finish_def Let_def)
  with st show ?thesis
    by (simp add: items_parts) (simp add: AssistantMessage_text_def AssistantMessage_tool_calls_def List.map_filter_def)
qed
end
