(* ===== verification/Anthropic_Order.thy ===== *)
theory Anthropic_Order
  imports Anthropic_Decode
begin

text \<open>
  Every ordinary stream that is accepted follows the order of the protocol, and a compaction
  stream has exactly the prescribed frames.
\<close>

section \<open>The order of events\<close>

subsection \<open>Ordinary streams\<close>

datatype stream_phase = AwaitStart | BetweenBlocks nat | InsideBlock nat | AfterReason nat | StreamClosed nat

definition block_event_of :: "string \<Rightarrow> nat \<Rightarrow> Value \<Rightarrow> bool" where
  "block_event_of t n ev \<longleftrightarrow> get_str ev ''type'' = Some t \<and> map_option unat (get_u64 ev ''index'') = Some n"

text \<open>The order the protocol prescribes; the phases count the finished blocks.\<close>

inductive stream_next :: "stream_phase \<Rightarrow> Value \<Rightarrow> stream_phase \<Rightarrow> bool" where
  start: "get_str ev ''type'' = Some ''message_start'' \<Longrightarrow> stream_next AwaitStart ev (BetweenBlocks 0)"
| block_start: "block_event_of ''content_block_start'' n ev \<Longrightarrow> stream_next (BetweenBlocks n) ev (InsideBlock n)"
| block_delta: "block_event_of ''content_block_delta'' n ev \<Longrightarrow> stream_next (InsideBlock n) ev (InsideBlock n)"
| block_stop: "block_event_of ''content_block_stop'' n ev \<Longrightarrow> stream_next (InsideBlock n) ev (BetweenBlocks (Suc n))"
| usage: "get_str ev ''type'' = Some ''message_delta'' \<Longrightarrow> p \<in> {BetweenBlocks n, AfterReason n} \<Longrightarrow> stream_next p ev p"
| reason: "get_str ev ''type'' = Some ''message_delta'' \<Longrightarrow> stream_next (BetweenBlocks n) ev (AfterReason n)"
| stop: "get_str ev ''type'' = Some ''message_stop'' \<Longrightarrow> stream_next (AfterReason n) ev (StreamClosed n)"
| other: "ignorable ev \<Longrightarrow> stream_next p ev p"

inductive stream_path :: "stream_phase \<Rightarrow> Value list \<Rightarrow> stream_phase \<Rightarrow> bool" where
  path_none: "stream_path p [] p"
| path_snoc: "stream_path p evs q \<Longrightarrow> stream_next q ev r \<Longrightarrow> stream_path p (evs @ [ev]) r"

definition phase_of :: "AnthropicStreamState \<Rightarrow> stream_phase" where
  "phase_of st =
     (if an_message_stopped st then StreamClosed (an_next_content_block_index st)
      else if \<not> an_message_started st then AwaitStart
      else if an_terminal_stop_reason st \<noteq> None then AfterReason (an_next_content_block_index st)
      else case an_active_content_block st of
        Some (n, _) \<Rightarrow> InsideBlock n
      | None \<Rightarrow> BetweenBlocks (an_next_content_block_index st))"

definition stream_wf :: "AnthropicStreamState \<Rightarrow> bool" where
  "stream_wf st \<longleftrightarrow>
     (\<not> an_message_started st \<longrightarrow> an_terminal_stop_reason st = None \<and> an_active_content_block st = None
        \<and> an_next_content_block_index st = 0 \<and> \<not> an_message_stopped st)
     \<and> (\<forall>n b. an_active_content_block st = Some (n, b) \<longrightarrow>
          n = an_next_content_block_index st \<and> an_terminal_stop_reason st = None)
     \<and> length (an_provider_replay st) = an_next_content_block_index st"

text \<open>After \<open>message_stop\<close> no event is handed over, so the steps are those of an unstopped stream.\<close>

lemma step_start:
  assumes "stream_wf st" and "message_start ev st = (Inr st' :: ('http, string) ProviderError + AnthropicStreamState)" and "get_str ev ''type'' = Some ''message_start''"
  shows "stream_wf st' \<and> stream_next (phase_of st) ev (phase_of st') \<and> \<not> an_message_stopped st'"
proof -
  from assms(2) obtain u where s: "\<not> an_message_started st" "st' = st\<lparr>an_message_started := True, an_usage := u\<rparr>"
    by (auto simp: message_start_def provider_error_def split: if_splits)
  with assms(1) have "an_terminal_stop_reason st = None" "an_active_content_block st = None"
    "an_next_content_block_index st = 0" "\<not> an_message_stopped st" "an_provider_replay st = []"
    by (auto simp: stream_wf_def)
  with s stream_next.start [OF assms(3)] show ?thesis by (simp add: stream_wf_def phase_of_def)
qed

lemma anthropic_stream_index_Inr:
  "anthropic_stream_index ev t = Inr n \<Longrightarrow> map_option unat (get_u64 ev ''index'') = Some n"
  by (auto simp: anthropic_stream_index_def ok_or_def split: option.splits)

lemma step_block_start:
  assumes "stream_wf st" "\<not> an_message_stopped st" and "block_start_event ev st = (Inr st' :: ('http, string) ProviderError + AnthropicStreamState)"
    and "get_str ev ''type'' = Some ''content_block_start''"
  shows "stream_wf st' \<and> stream_next (phase_of st) ev (phase_of st') \<and> \<not> an_message_stopped st'"
proof -
  from assms(3) obtain n b where b: "an_message_started st" "an_terminal_stop_reason st = None"
    "anthropic_stream_index ev ''content_block_start'' = (Inr n :: ('http, string) ProviderError + nat)" "n = an_next_content_block_index st"
    "an_active_content_block st = None" "st' = st\<lparr>an_active_content_block := Some (n, b)\<rparr>"
    by (auto simp: block_start_event_def require_content_phase_def start_content_block_def and_then_def provider_error_def
        split: sum.splits if_splits option.splits)
  then have "block_event_of ''content_block_start'' n ev"
    using assms(4) anthropic_stream_index_Inr by (auto simp: block_event_of_def)
  from stream_next.block_start [OF this] assms(1,2) b show ?thesis by (simp add: stream_wf_def phase_of_def)
qed

lemma step_block_delta:
  assumes "stream_wf st" "\<not> an_message_stopped st" and "block_delta_event ev st = (Inr st' :: ('http, string) ProviderError + AnthropicStreamState)"
    and "get_str ev ''type'' = Some ''content_block_delta''"
  shows "stream_wf st' \<and> stream_next (phase_of st) ev (phase_of st') \<and> \<not> an_message_stopped st'"
proof -
  from assms(3) obtain n b b' where b: "an_message_started st" "an_terminal_stop_reason st = None"
    "anthropic_stream_index ev ''content_block_delta'' = (Inr n :: ('http, string) ProviderError + nat)"
    "an_active_content_block st = Some (n, b)" "st' = st\<lparr>an_active_content_block := Some (n, b')\<rparr>"
    by (auto simp: block_delta_event_def require_content_phase_def apply_content_delta_def and_then_def provider_error_def
        split: sum.splits if_splits option.splits)
  then have "block_event_of ''content_block_delta'' n ev"
    using assms(4) anthropic_stream_index_Inr by (auto simp: block_event_of_def)
  from stream_next.block_delta [OF this] assms(1,2) b show ?thesis by (simp add: stream_wf_def phase_of_def)
qed

lemma push_one_record:
  "push_anthropic_content_block codec block items replay = Inr (items', replay') \<Longrightarrow> length replay' = Suc (length replay)"
  by (auto simp: push_anthropic_content_block_def and_then_def provider_error_def Let_def split: sum.splits if_splits option.splits)

lemma step_block_stop:
  assumes "stream_wf st" "\<not> an_message_stopped st" and "block_stop_event codec ev st = (Inr st' :: ('http, string) ProviderError + AnthropicStreamState)"
    and "get_str ev ''type'' = Some ''content_block_stop''"
  shows "stream_wf st' \<and> stream_next (phase_of st) ev (phase_of st') \<and> \<not> an_message_stopped st'"
proof -
  from assms(3) obtain n b b' items replay where b: "an_message_started st" "an_terminal_stop_reason st = None"
    "anthropic_stream_index ev ''content_block_stop'' = (Inr n :: ('http, string) ProviderError + nat)"
    "an_active_content_block st = Some (n, b)"
    "push_anthropic_content_block codec b' (an_items st) (an_provider_replay st)
       = (Inr (items, replay) :: ('http, string) ProviderError + AssistantItem list \<times> ProviderReplayItem list)"
    "st' = st\<lparr>an_active_content_block := None, an_items := items, an_provider_replay := replay,
               an_next_content_block_index := an_next_content_block_index st + 1\<rparr>"
    by (auto simp: block_stop_event_def require_content_phase_def finish_content_block_def and_then_def provider_error_def
        split: sum.splits if_splits option.splits)
  then have "block_event_of ''content_block_stop'' n ev"
    using assms(4) anthropic_stream_index_Inr by (auto simp: block_event_of_def)
  from stream_next.block_stop [OF this] assms(1,2) b push_one_record [OF b(5)] show ?thesis
    by (simp add: stream_wf_def phase_of_def)
qed
text \<open>A \<open>message_delta\<close> leaves the blocks alone, and a reason that is set stays.\<close>

definition same_blocks :: "AnthropicStreamState \<Rightarrow> AnthropicStreamState \<Rightarrow> bool" where
  "same_blocks st st' \<longleftrightarrow>
     an_message_started st' = an_message_started st \<and> an_message_stopped st' = an_message_stopped st
     \<and> an_active_content_block st' = an_active_content_block st
     \<and> an_next_content_block_index st' = an_next_content_block_index st
     \<and> an_provider_replay st' = an_provider_replay st
     \<and> (an_terminal_stop_reason st \<noteq> None \<longrightarrow> an_terminal_stop_reason st' \<noteq> None)"

lemma terminal_stop_same_blocks:
  "terminal_stop codec reason details st = Inr st' \<Longrightarrow> same_blocks st st'"
  by (auto simp: terminal_stop_def same_blocks_def and_then_def provider_error_def split: sum.splits if_splits)

lemma message_delta_same_blocks:
  assumes "message_delta codec ev st = (Inr st' :: ('http, string) ProviderError + AnthropicStreamState)"
  shows "an_message_started st" "an_active_content_block st = None" "same_blocks st st'"
proof -
  from assms show started: "an_message_started st" and active: "an_active_content_block st = None"
    by (auto simp: message_delta_def provider_error_def split: if_splits option.splits)
  have usage: "same_blocks st (st\<lparr>an_usage := u\<rparr>)" for u by (simp add: same_blocks_def)
  have terminal: "same_blocks st y" if "terminal_stop codec reason details (st\<lparr>an_usage := u\<rparr>)
      = (Inr y :: ('http, string) ProviderError + AnthropicStreamState)" for u y reason details
    using terminal_stop_same_blocks [OF that] by (simp add: same_blocks_def)
  have terminal0: "same_blocks st y" if "terminal_stop codec reason details st
      = (Inr y :: ('http, string) ProviderError + AnthropicStreamState)" for y reason details
    using terminal_stop_same_blocks [OF that] .
  have refl: "same_blocks x x" for x by (simp add: same_blocks_def)
  from assms started active show "same_blocks st st'"
    unfolding message_delta_def
    by (auto simp: and_then_def provider_error_def Let_def usage refl
        dest: terminal terminal0 split: sum.splits if_splits option.splits Value.splits)
qed

lemma step_message_delta:
  assumes "stream_wf st" "\<not> an_message_stopped st"
    and "message_delta codec ev st = (Inr st' :: ('http, string) ProviderError + AnthropicStreamState)"
    and "get_str ev ''type'' = Some ''message_delta''"
  shows "stream_wf st' \<and> stream_next (phase_of st) ev (phase_of st') \<and> \<not> an_message_stopped st'"
proof -
  note d = message_delta_same_blocks [OF assms(3)]
  have "stream_wf st'" "\<not> an_message_stopped st'" using assms(1,2) d by (simp_all add: stream_wf_def same_blocks_def)
  moreover have "stream_next (phase_of st) ev (phase_of st')"
    using assms(2,4) d stream_next.usage [of ev] stream_next.reason [of ev]
    by (cases "an_terminal_stop_reason st"; cases "an_terminal_stop_reason st'")
      (auto simp: phase_of_def same_blocks_def)
  ultimately show ?thesis by simp
qed

definition stream_inv :: "Value list \<Rightarrow> AnthropicStreamState \<Rightarrow> bool" where
  "stream_inv seen st \<longleftrightarrow> stream_wf st \<and> stream_path AwaitStart seen (phase_of st)"

lemma step_message_stop:
  assumes "stream_wf st" "\<not> an_message_stopped st"
    and "message_stop st = (Inr st' :: ('http, string) ProviderError + AnthropicStreamState)"
    and "get_str ev ''type'' = Some ''message_stop''"
  shows "stream_wf st' \<and> stream_next (phase_of st) ev (phase_of st') \<and> an_message_stopped st'"
proof -
  from assms(3) have s: "an_message_started st" "an_active_content_block st = None" "an_terminal_stop_reason st \<noteq> None"
    "st' = st\<lparr>an_message_stopped := True\<rparr>"
    by (auto simp: message_stop_def provider_error_def split: if_splits option.splits)
  with assms(1,2) stream_next.stop [OF assms(4)] show ?thesis by (simp add: stream_wf_def phase_of_def)
qed

lemma step_process_event:
  assumes "stream_wf st" "\<not> an_message_stopped st"
    and "process_event codec ev st = (Inr (control, st') :: ('http, string) ProviderError + SseControl \<times> AnthropicStreamState)"
  shows "stream_wf st' \<and> stream_next (phase_of st) ev (phase_of st') \<and> an_message_stopped st' = (control = Stop)"
proof (cases "ignorable ev")
  case True
  then have "process_event codec ev st = (Inr (Continue, st) :: ('http, string) ProviderError + SseControl \<times> AnthropicStreamState)"
    by (rule process_ignorable)
  with assms stream_next.other [OF True] show ?thesis by auto
next
  case False
  then obtain t where t: "get_str ev ''type'' = Some t" "t \<in> set structural_types \<or> t = ''error''"
    by (auto simp: ignorable_def split: option.splits)
  from assms(3) t show ?thesis
    by (auto simp: process_event_def structural_types_def and_then_def split: sum.splits
        dest: step_start [OF assms(1)] step_block_start [OF assms(1,2)] step_block_delta [OF assms(1,2)]
          step_block_stop [OF assms(1,2)] step_message_delta [OF assms(1,2)] step_message_stop [OF assms(1,2)])
qed

interpretation ordinary: event_reader "process_event codec" stream_inv an_message_stopped
  for codec :: json_codec
  by unfold_locales (auto simp: stream_inv_def intro: stream_path.path_snoc dest: step_process_event)

lemma stream_inv_init: "stream_inv [] AnthropicStreamState_default" "\<not> an_message_stopped AnthropicStreamState_default"
  by (simp_all add: stream_inv_def stream_wf_def phase_of_def AnthropicStreamState_default_def stream_path.path_none)

lemma stream_finish_Inr:
  assumes "stream_finish codec st = (Inr r :: ('http, string) ProviderError + ModelResponse)"
  shows "an_message_stopped st"
    and "mr_stop_reason r = StopRefusal \<and> mr_provider_replay r = [] \<and> am_items (mr_assistant r) = []
      \<or> mr_provider_replay r = an_provider_replay st \<and> am_items (mr_assistant r) = an_items st"
  using assms by (auto simp: stream_finish_def Let_def provider_error_def split: if_splits)

lemma message_ordered:
  assumes "and_then (run_events (process_event codec) events AnthropicStreamState_default) (stream_finish codec)
      = (Inr r :: ('http, string) ProviderError + ModelResponse)"
  shows "\<exists>pre post n. events = pre @ post \<and> stream_path AwaitStart pre (StreamClosed n)
    \<and> (mr_stop_reason r = StopRefusal \<and> mr_provider_replay r = [] \<and> am_items (mr_assistant r) = []
       \<or> length (mr_provider_replay r) = n)"
proof -
  from assms obtain st where run: "run_events (process_event codec) events AnthropicStreamState_default
      = (Inr st :: ('http, string) ProviderError + AnthropicStreamState)"
    and fin: "stream_finish codec st = (Inr r :: ('http, string) ProviderError + ModelResponse)"
    by (auto simp: and_then_def split: sum.splits)
  from ordinary.run_inv [OF stream_inv_init run] obtain pre post where "events = pre @ post" "stream_inv pre st" by auto
  moreover from this(2) stream_finish_Inr(1) [OF fin] have
    "stream_path AwaitStart pre (StreamClosed (an_next_content_block_index st))"
    "length (an_provider_replay st) = an_next_content_block_index st"
    by (simp_all add: stream_inv_def phase_of_def stream_wf_def)
  ultimately show ?thesis using stream_finish_Inr(2) [OF fin] by (intro exI conjI) auto
qed
subsection \<open>Compaction streams\<close>

definition frames :: "Value list \<Rightarrow> Value list" where
  "frames events = filter (\<lambda>ev. case get_str ev ''type'' of Some t \<Rightarrow> t \<in> set structural_types | None \<Rightarrow> False) events"

text \<open>The block after its delta: the delta's content is the block's.\<close>

definition block_from :: "Value \<Rightarrow> Value option \<Rightarrow> bool" where
  "block_from ev block \<longleftrightarrow>
     (\<exists>delta kvs. get_object ev ''delta'' = Some delta \<and> block = Some (JObject kvs)
        \<and> map_of kvs ''content'' = map_of delta ''content'' \<and> map_of kvs ''type'' = Some (JString ''compaction''))"

fun frame_types :: "AnthropicCompactionFrame \<Rightarrow> string list" where
  "frame_types CfMessageStart = []"
| "frame_types CfContentBlockStart = [''message_start'']"
| "frame_types CfContentBlockDelta = [''message_start'', ''content_block_start'']"
| "frame_types CfContentBlockStop = [''message_start'', ''content_block_start'', ''content_block_delta'']"
| "frame_types _ = [''message_start'', ''content_block_start'', ''content_block_delta'', ''content_block_stop'']"

definition frame_tail :: "AnthropicCompactionFrame \<Rightarrow> string list \<Rightarrow> bool" where
  "frame_tail f ts \<longleftrightarrow>
     (case f of
        CfMessageDelta \<Rightarrow> set ts \<subseteq> {''message_delta''}
      | CfTerminal \<Rightarrow> ts \<noteq> [] \<and> set (butlast ts) = {''message_delta''} \<and> last ts = ''message_stop''
      | _ \<Rightarrow> ts = [])"

definition compaction_inv :: "Value list \<Rightarrow> AnthropicCompactionStreamState \<Rightarrow> bool" where
  "compaction_inv seen st \<longleftrightarrow>
     (\<exists>tail. map (\<lambda>ev. get_str ev ''type'') (frames seen) = map Some (frame_types (cf_expected st) @ tail)
        \<and> frame_tail (cf_expected st) tail
        \<and> (cf_saw_compaction_stop_reason st \<longrightarrow> tail \<noteq> []))
     \<and> (cf_saw_compaction_stop_reason st \<longrightarrow> cf_expected st \<in> {CfMessageDelta, CfTerminal})
     \<and> (cf_expected st = CfContentBlockDelta \<longrightarrow>
          (\<exists>kvs. cf_compaction_block st = Some (JObject kvs) \<and> map_of kvs ''type'' = Some (JString ''compaction'')))
     \<and> (cf_expected st \<in> {CfContentBlockStop, CfMessageDelta, CfTerminal} \<longrightarrow>
          block_from (frames seen ! 2) (cf_compaction_block st))"

lemma merge_delta_fields_keeps:
  "k \<in> {''type'', ''content'', ''encrypted_content''} \<Longrightarrow> map_of (merge_delta_fields delta block) k = map_of block k"
  unfolding merge_delta_fields_def by (induction delta arbitrary: block) auto

lemma frames_snoc:
  "frames (seen @ [ev]) = frames seen
     @ (case get_str ev ''type'' of Some t \<Rightarrow> if t \<in> set structural_types then [ev] else [] | None \<Rightarrow> [])"
  by (simp add: frames_def split: option.split)

lemma compaction_delta_block:
  assumes "compaction_block_delta ev st = (Inr st' :: ('http, string) ProviderError + AnthropicCompactionStreamState)"
    and "cf_compaction_block st = Some (JObject kvs)" and "map_of kvs ''type'' = Some (JString ''compaction'')"
  shows "\<exists>block. st' = st\<lparr>cf_compaction_block := block, cf_expected := CfContentBlockStop\<rparr> \<and> block_from ev block"
  using assms
  by (auto simp: compaction_block_delta_def and_then_def Let_def unwrap_or_def ok_or_def block_from_def merge_delta_fields_keeps
      split: sum.splits if_splits option.splits)

lemma Value_as_str_Some: "Value_as_str v = Some s \<longleftrightarrow> v = JString s"
  by (cases v) auto

lemma compaction_message_delta_result:
  assumes "compaction_message_delta codec ev st = (Inr st' :: ('http, string) ProviderError + AnthropicCompactionStreamState)"
  shows "cf_expected st' = cf_expected st" "cf_compaction_block st' = cf_compaction_block st"
  using assms by (auto simp: compaction_message_delta_def and_then_def split: sum.splits if_splits option.splits Value.splits)

lemma compaction_start_result:
  assumes "compaction_block_start ev st = (Inr st' :: ('http, string) ProviderError + AnthropicCompactionStreamState)"
  shows "cf_expected st' = CfContentBlockDelta" "cf_saw_compaction_stop_reason st' = cf_saw_compaction_stop_reason st"
    "\<exists>kvs. cf_compaction_block st' = Some (JObject kvs) \<and> map_of kvs ''type'' = Some (JString ''compaction'')"
  using assms by (auto simp: compaction_block_start_def and_then_def ok_or_def bind_eq_Some_conv Value_as_str_Some
      split: sum.splits if_splits option.splits)

lemma compaction_tail_inv:
  assumes inv: "compaction_inv seen st" and md: "cf_expected st = CfMessageDelta"
    and t: "get_str ev ''type'' = Some t" "t \<in> set structural_types"
    and step: "compaction_step codec t ev st = (Inr st' :: ('http, string) ProviderError + AnthropicCompactionStreamState)"
  shows "compaction_inv (seen @ [ev]) st'"
proof -
  have fr: "frames (seen @ [ev]) = frames seen @ [ev]" using t by (simp add: frames_snoc)
  from inv md obtain tail where tail: "map (\<lambda>ev. get_str ev ''type'') (frames seen) = map Some (frame_types CfMessageDelta @ tail)"
    "frame_tail CfMessageDelta tail" "cf_saw_compaction_stop_reason st \<longrightarrow> tail \<noteq> []"
    and block: "block_from (frames seen ! 2) (cf_compaction_block st)"
    unfolding compaction_inv_def by auto
  have len: "length (frames seen) = length (frame_types CfMessageDelta @ tail)" using tail(1) by (metis length_map)
  have "\<not> length (frames seen) < 3" using md len by simp
  then have nth: "(frames seen @ [ev]) ! 2 = frames seen ! 2" by (simp add: nth_append)
  have types: "map (\<lambda>ev. get_str ev ''type'') (frames seen @ [ev]) = map Some (frame_types CfMessageDelta @ tail @ [t])"
    using tail(1) md t(1) by simp
  have old: "set tail \<subseteq> {''message_delta''}" using tail(2) md by (simp add: frame_tail_def)
  have inv': "compaction_inv (seen @ [ev]) x" if "cf_expected x = f" "f = CfMessageDelta \<or> f = CfTerminal"
    "cf_compaction_block x = cf_compaction_block st" "frame_tail f (tail @ [t])" for x f
    unfolding compaction_inv_def fr nth
    using that types block by (intro conjI exI [of _ "tail @ [t]"]) auto
  from md step consider (delta) "t = ''message_delta''" "compaction_message_delta codec ev st = (Inr st' :: ('http, string) ProviderError + AnthropicCompactionStreamState)"
    | (stop) "t = ''message_stop''" "cf_saw_compaction_stop_reason st" "st' = st\<lparr>cf_expected := CfTerminal\<rparr>"
    by (auto simp: compaction_step_def split: if_splits)
  then show ?thesis
  proof cases
    case delta
    have "frame_tail CfMessageDelta (tail @ [t])" using old delta(1) by (simp add: frame_tail_def)
    then show ?thesis using inv' compaction_message_delta_result [OF delta(2)] md by simp
  next
    case stop
    have "set tail = {''message_delta''}" using old tail(3) stop(2) by (cases tail) auto
    then have "frame_tail CfTerminal (tail @ [t])" using stop(1) by (simp add: frame_tail_def)
    then show ?thesis using inv' stop(3) by simp
  qed
qed

lemma compaction_step_inv:
  assumes inv: "compaction_inv seen st" and t: "get_str ev ''type'' = Some t" "t \<in> set structural_types"
    and step: "compaction_step codec t ev st = (Inr st' :: ('http, string) ProviderError + AnthropicCompactionStreamState)"
  shows "compaction_inv (seen @ [ev]) st'"
proof -
  have fr: "frames (seen @ [ev]) = frames seen @ [ev]" using t by (simp add: frames_snoc)
  from inv obtain tail where tail: "map (\<lambda>ev. get_str ev ''type'') (frames seen) = map Some (frame_types (cf_expected st) @ tail)"
    "frame_tail (cf_expected st) tail" "cf_saw_compaction_stop_reason st \<longrightarrow> tail \<noteq> []"
    and rest: "cf_saw_compaction_stop_reason st \<longrightarrow> cf_expected st \<in> {CfMessageDelta, CfTerminal}"
    "cf_expected st = CfContentBlockDelta \<longrightarrow>
          (\<exists>kvs. cf_compaction_block st = Some (JObject kvs) \<and> map_of kvs ''type'' = Some (JString ''compaction''))"
    "cf_expected st \<in> {CfContentBlockStop, CfMessageDelta, CfTerminal} \<longrightarrow>
          block_from (frames seen ! 2) (cf_compaction_block st)"
    unfolding compaction_inv_def by blast
  have len: "length (frames seen) = length (frame_types (cf_expected st) @ tail)"
    using tail(1) by (metis length_map)
  show ?thesis
  proof (cases "cf_expected st")
    case CfMessageStart
    with step have "t = ''message_start''" "cf_expected st' = CfContentBlockStart"
      "cf_saw_compaction_stop_reason st' = cf_saw_compaction_stop_reason st"
      by (auto simp: compaction_step_def compaction_message_start_def and_then_def split: if_splits sum.splits)
    with CfMessageStart tail rest t show ?thesis by (simp add: compaction_inv_def fr frame_tail_def)
  next
    case CfContentBlockStart
    with step have "t = ''content_block_start''" "compaction_block_start ev st = (Inr st' :: ('http, string) ProviderError + AnthropicCompactionStreamState)"
      by (auto simp: compaction_step_def split: if_splits)
    with CfContentBlockStart tail rest t compaction_start_result [OF this(2)] show ?thesis
      by (simp add: compaction_inv_def fr frame_tail_def)
  next
    case CfContentBlockDelta
    with step have d: "t = ''content_block_delta''" "compaction_block_delta ev st = (Inr st' :: ('http, string) ProviderError + AnthropicCompactionStreamState)"
      by (auto simp: compaction_step_def split: if_splits)
    with CfContentBlockDelta rest(2) compaction_delta_block obtain block where
      b: "st' = st\<lparr>cf_compaction_block := block, cf_expected := CfContentBlockStop\<rparr>" "block_from ev block" by blast
    from CfContentBlockDelta tail(2) len have "length (frames seen) = 2" by (simp add: frame_tail_def)
    with CfContentBlockDelta tail rest t b d(1) show ?thesis
      by (simp add: compaction_inv_def fr frame_tail_def nth_append)
  next
    case CfContentBlockStop
    with step have d: "t = ''content_block_stop''" "st' = st\<lparr>cf_expected := CfMessageDelta\<rparr>"
      by (auto simp: compaction_step_def and_then_def split: if_splits sum.splits)
    from CfContentBlockStop tail(2) len have "length (frames seen) = 3" by (simp add: frame_tail_def)
    with CfContentBlockStop tail rest t d show ?thesis
      by (simp add: compaction_inv_def fr frame_tail_def nth_append)
  next
    case CfMessageDelta
    from inv this t step show ?thesis by (rule compaction_tail_inv)
  next
    case CfTerminal
    with step show ?thesis by (simp add: compaction_step_def)
  qed
qed

interpretation compaction: event_reader "compaction_process_event codec" compaction_inv "\<lambda>_. False"
  for codec :: json_codec
proof (unfold_locales, goal_cases)
  case (1 seen st ev control st')
  then obtain t where t: "get_str ev ''type'' = Some t"
    by (auto simp: compaction_process_event_def and_then_def ok_or_def split: option.splits)
  show ?case
  proof (cases "t \<in> set structural_types")
    case True
    with 1 t show ?thesis
      by (auto simp: compaction_process_event_def structural_types_def and_then_def split: sum.splits dest: compaction_step_inv)
  next
    case False
    with 1 t show ?thesis
      by (auto simp: compaction_process_event_def compaction_inv_def frames_snoc split: if_splits)
  qed
next
  case (2 seen st ev control st')
  then show ?case by (auto simp: compaction_process_event_def and_then_def ok_or_def split: sum.splits if_splits option.splits)
qed

lemma compaction_inv_init: "compaction_inv [] AnthropicCompactionStreamState_default"
  by (simp add: compaction_inv_def AnthropicCompactionStreamState_default_def frames_def frame_tail_def)

lemma frame_tail_terminal:
  assumes "frame_tail CfTerminal ts"
  shows "\<exists>n. ts = replicate (Suc n) ''message_delta'' @ [''message_stop'']"
proof (cases ts rule: rev_cases)
  case Nil
  with assms show ?thesis by (simp add: frame_tail_def)
next
  case (snoc ys y)
  with assms have ys: "set ys = {''message_delta''}" "y = ''message_stop''" by (simp_all add: frame_tail_def)
  from ys(1) obtain z zs where zs: "ys = z # zs" by (cases ys) auto
  with ys(1) have "ys = replicate (Suc (length zs)) ''message_delta''"
    by (metis length_Cons replicate_length_same singletonD)
  with snoc ys(2) show ?thesis by metis
qed

lemma compaction_frames:
  assumes "and_then (run_events (compaction_process_event codec) events AnthropicCompactionStreamState_default)
      (compaction_finish codec) = (Inr r :: ('http, string) ProviderError + ProviderCompactionResponse)"
  shows "\<exists>block n delta text.
      map (\<lambda>ev. get_str ev ''type'') (frames events)
        = map Some ([''message_start'', ''content_block_start'', ''content_block_delta'', ''content_block_stop'']
            @ replicate (Suc n) ''message_delta'' @ [''message_stop''])
    \<and> get_object (frames events ! 2) ''delta'' = Some delta \<and> map_of delta ''content'' = Some (JString text) \<and> text \<noteq> []
    \<and> get_str block ''type'' = Some ''compaction'' \<and> get_str block ''content'' = Some text
    \<and> cr_summary r = None
    \<and> cr_provider_replay r = [\<lparr>pr_provider = Claude, pr_raw_json = jc_to_string codec block, pr_display = None\<rparr>]"
proof -
  from assms obtain st where run: "run_events (compaction_process_event codec) events AnthropicCompactionStreamState_default
      = (Inr st :: ('http, string) ProviderError + AnthropicCompactionStreamState)"
    and fin: "compaction_finish codec st = (Inr r :: ('http, string) ProviderError + ProviderCompactionResponse)"
    by (auto simp: and_then_def split: sum.splits)
  from compaction.run_inv [OF compaction_inv_init _ run] have inv: "compaction_inv events st" by auto
  from fin have fin_st: "cf_expected st = CfTerminal" by (auto simp: compaction_finish_def split: if_splits)
  from inv fin_st obtain tail where types: "map (\<lambda>ev. get_str ev ''type'') (frames events) = map Some (frame_types CfTerminal @ tail)"
    and tail: "frame_tail CfTerminal tail" and from_delta: "block_from (frames events ! 2) (cf_compaction_block st)"
    unfolding compaction_inv_def by auto
  from frame_tail_terminal [OF tail] obtain n where n: "tail = replicate (Suc n) ''message_delta'' @ [''message_stop'']" ..
  from from_delta obtain delta kvs where d: "get_object (frames events ! 2) ''delta'' = Some delta"
    "cf_compaction_block st = Some (JObject kvs)" "map_of kvs ''content'' = map_of delta ''content''"
    by (auto simp: block_from_def)
  from fin fin_st d(2) have valid: "validate_anthropic_compaction_block (JObject kvs) = Inr ()"
    and r: "cr_summary r = None"
    "cr_provider_replay r = [\<lparr>pr_provider = Claude, pr_raw_json = jc_to_string codec (JObject kvs), pr_display = None\<rparr>]"
    by (auto simp: compaction_finish_def Let_def and_then_def unwrap_or_def ProviderReplayItem_new_with_display_def
        map_err_def split: sum.splits)
  from valid obtain summary where content: "map_of kvs ''content'' = Some (JString summary)" "summary \<noteq> []"
    "get_str (JObject kvs) ''type'' = Some ''compaction''"
    by (auto simp: validate_anthropic_compaction_block_def and_then_def ok_or_def Value_as_str_Some split: if_splits option.splits sum.splits)
  have c: "get_str (JObject kvs) ''content'' = Some summary" using content(1) by (simp add: get_str_def)
  show ?thesis
  proof (intro exI conjI)
    show "map_of delta ''content'' = Some (JString summary)" using d(3) content(1) by simp
  qed (use types n d(1) content(2,3) c r in simp_all)
qed
section \<open>Whole responses\<close>

lemma callbacks: "on_stream_event codec = callback (process_sse_event codec)"
  "on_compaction_event codec = callback (compaction_process_sse_event codec)"
  by (simp_all add: fun_eq_iff on_stream_event_def on_compaction_event_def callback_def)

lemma parse_complete_response:
  assumes "complete_response response"
  shows "parse_anthropic_stream codec response =
      and_then (run_events (process_sse_event codec) (response_events codec response) AnthropicStreamState_default)
        (stream_finish codec)"
    and "parse_anthropic_compaction_stream codec response =
      and_then (run_events (compaction_process_sse_event codec) (response_events codec response)
          AnthropicCompactionStreamState_default) (compaction_finish codec)"
  unfolding parse_anthropic_stream_def parse_anthropic_compaction_stream_def callbacks response_events_def
  by (intro read_outcome_case read_complete_response assms)+

lemma sse_handlers [simp]:
  "process_sse_event codec (SseJson v) st = process_event codec v st"
  "process_sse_event codec SseDone st = Inr (Continue, st)"
  "compaction_process_sse_event codec (SseJson v) st' = compaction_process_event codec v st'"
  by (simp_all add: process_sse_event_def compaction_process_sse_event_def)

interpretation anthropic_json: json_reader "process_sse_event codec" "process_event codec" for codec
  by unfold_locales (simp_all add: process_sse_event_def provider_error_def)

lemma run_compaction_json:
  "run_events (compaction_process_sse_event codec) evs st
      = (Inr st' :: ('http, string) ProviderError + AnthropicCompactionStreamState) \<Longrightarrow>
     evs = map SseJson (json_events evs) \<and> run_events (compaction_process_event codec) (json_events evs) st
        = (Inr st' :: ('http, string) ProviderError + AnthropicCompactionStreamState)"
proof (induction evs arbitrary: st rule: json_events.induct)
  case (2 v evs)
  then obtain st1 where "compaction_process_event codec v st
      = (Inr (Continue, st1) :: ('http, string) ProviderError + SseControl \<times> AnthropicCompactionStreamState)"
    by (auto simp: compaction_process_event_def and_then_def split: sum.splits if_splits)
  with 2 show ?case by simp
qed (simp_all add: compaction_process_sse_event_def)

section \<open>Two responses\<close>

text \<open>
  Responses whose frames hold one letter each; the parser of the example takes the letters for
  the events of a stream.
\<close>

definition demo_contents :: "content list" where
  "demo_contents = [ThinkingContent [''let'', '' me''] ''sig'', TextContent [''I '', ''will''],
     ToolContent ''c1'' ''Bash'' [''{'', ''}'']]"

definition demo_codec :: json_codec where
  "demo_codec = \<lparr>jc_from_str = (\<lambda>s.
       if s = ''{}'' then Inr (JObject [])
       else case s of
         [c] \<Rightarrow> (case drop (byte c - 65) (message_events demo_contents ''tool_use'') of v # _ \<Rightarrow> Inr v | [] \<Rightarrow> Inl ''?'')
       | _ \<Rightarrow> Inl ''?''),
     jc_to_string = (\<lambda>_. []), jc_to_string_pretty = (\<lambda>_. []), jc_debug_str = (\<lambda>_. [])\<rparr>"

definition demo_body :: "string \<Rightarrow> string" where
  "demo_body names = concat (map (\<lambda>c. ''data: '' @ c # lf2) names)"

definition demo_name :: "char \<Rightarrow> bool" where
  "demo_name c \<longleftrightarrow> byte c < 128 \<and> c \<notin> set [CHR 0x09, CHR 0x0A, CHR 0x0B, CHR 0x0C, CHR 0x0D, CHR '' '']"

lemma demo_body_events:
  "list_all demo_name names \<Longrightarrow>
     body_events json (demo_body names) = map (\<lambda>c. case json [c] of None \<Rightarrow> SseMalformedJson | Some v \<Rightarrow> SseJson v) names"
proof (induction names)
  case Nil
  then show ?case by (simp add: demo_body_def body_events.simps sse_frame_boundary_def)
next
  case (Cons c names)
  then show ?case
    using body_events_line [of "''data: '' @ [c]" json "demo_body names"] sse_frame_data_line [of "[c]"] trim_char [of c]
    by (auto simp: demo_body_def demo_name_def frame_events_def one_line_def)
qed

definition demo_response :: "string \<Rightarrow> nat response" where
  "demo_response names = \<lparr>rsp_status = 200, rsp_is_success = True, rsp_body = Inr [],
     rsp_chunks = [take 3 (demo_body names), drop 3 (demo_body names)], rsp_tail = TailEof\<rparr>"

lemma demo_response_events:
  "list_all demo_name names \<Longrightarrow>
     response_events codec (demo_response names)
       = map (\<lambda>c. case codec_parser codec [c] of None \<Rightarrow> SseMalformedJson | Some v \<Rightarrow> SseJson v) names"
  by (simp add: response_events_def demo_response_def demo_body_events)

definition demo_names :: string where
  "demo_names = ''ABCDEFGHIJKLMNOP''"

lemma demo_events: "response_events demo_codec (demo_response demo_names) = map SseJson (message_events demo_contents ''tool_use'')"
proof -
  have "list_all demo_name demo_names" by code_simp
  moreover have "map (\<lambda>c. case codec_parser demo_codec [c] of None \<Rightarrow> SseMalformedJson | Some v \<Rightarrow> SseJson v) demo_names
      = map SseJson (message_events demo_contents ''tool_use'')"
    by (simp add: demo_names_def codec_parser_def demo_codec_def message_events_def demo_contents_def block_events_def byte_def)
  ultimately show ?thesis by (simp add: demo_response_events)
qed

lemma demo_complete: "complete_response (demo_response names)"
  by (simp add: complete_response_def demo_response_def)

lemma demo_hyps:
  "filter (\<lambda>ev. \<not> ignorable ev) (message_events demo_contents ''tool_use'') = message_events demo_contents ''tool_use''"
  "list_all (content_ok demo_codec) demo_contents" "length demo_contents < 2 ^ 64" "reparse_keeps_type demo_codec"
  "stop_reason_of ''tool_use'' = (Inr StopComplete :: (nat, string) ProviderError + ModelStopReason)"
  by (simp_all add: demo_contents_def demo_codec_def message_events_def block_events_def block_event_def ignorable_def get_str_def
      structural_types_def reparse_keeps_type_def stop_reason_of_def)

lemma demo_parses:
  "\<exists>r. parse_anthropic_stream demo_codec (demo_response demo_names) = (Inr r :: (nat, string) ProviderError + ModelResponse)"
proof -
  have "SseMalformedJson \<notin> set (map SseJson (message_events demo_contents ''tool_use''))" by auto
  note json = anthropic_json.run_json [OF this, unfolded json_events_map]
  have "StopComplete \<noteq> StopRefusal" by simp
  from message_decodes [OF demo_hyps(2-5) this demo_hyps(1)] show ?thesis
    unfolding parse_complete_response(1) [OF demo_complete] demo_events json by blast
qed

definition demo_compaction_events :: "Value list" where
  "demo_compaction_events =
     [typed ''message_start'' [(''message'', json_object [])],
      block_event ''content_block_start'' 0 [(''content_block'', typed ''compaction'' [])],
      block_event ''content_block_delta'' 0 [(''delta'', typed ''compaction_delta'' [(''content'', JString ''sum'')])],
      block_event ''content_block_stop'' 0 [],
      typed ''message_delta'' [(''delta'', json_object [(''stop_reason'', JString ''compaction'')])],
      typed ''message_stop'' []]"

definition demo_compaction_codec :: json_codec where
  "demo_compaction_codec = \<lparr>jc_from_str = (\<lambda>s.
       case s of
         [c] \<Rightarrow> (case drop (byte c - 65) demo_compaction_events of v # _ \<Rightarrow> Inr v | [] \<Rightarrow> Inl ''?'')
       | _ \<Rightarrow> Inl ''?''),
     jc_to_string = (\<lambda>_. []), jc_to_string_pretty = (\<lambda>_. []), jc_debug_str = (\<lambda>_. [])\<rparr>"

lemma demo_compaction_response:
  "response_events demo_compaction_codec (demo_response ''ABCDEF'') = map SseJson demo_compaction_events"
proof -
  have "list_all demo_name ''ABCDEF''" by code_simp
  moreover have "map (\<lambda>c. case codec_parser demo_compaction_codec [c] of None \<Rightarrow> SseMalformedJson | Some v \<Rightarrow> SseJson v) ''ABCDEF''
      = map SseJson demo_compaction_events"
    by (simp add: codec_parser_def demo_compaction_codec_def demo_compaction_events_def byte_def)
  ultimately show ?thesis by (simp add: demo_response_events)
qed

lemma demo_compaction_parses:
  "\<exists>r. parse_anthropic_compaction_stream demo_compaction_codec (demo_response ''ABCDEF'')
     = (Inr r :: (nat, string) ProviderError + ProviderCompactionResponse)"
  unfolding parse_complete_response(2) [OF demo_complete] demo_compaction_response demo_compaction_events_def
  by (simp add: compaction_process_event_def compaction_step_def compaction_message_start_def compaction_block_start_def
      compaction_block_delta_def compaction_message_delta_def require_matching_index_def compaction_finish_def
      validate_anthropic_compaction_block_def merge_delta_fields_def AnthropicCompactionStreamState_default_def
      ProviderReplayItem_new_with_display_def structural_types_def block_event_def typed_def json_object_def btree_of_def
      less_char_def get_str_def get_u64_def get_object_def)

text \<open>
  A compaction response is accepted only if its frames are exactly those prescribed, it has
  no malformed event, and the single record is a compaction block with the text of its delta.
\<close>

lemma compaction_stream_frames:
  assumes "complete_response response"
    and "parse_anthropic_compaction_stream codec response = (Inr r :: ('http, string) ProviderError + ProviderCompactionResponse)"
  shows "\<exists>events block n delta text.
      response_events codec response = map SseJson events
    \<and> map (\<lambda>ev. get_str ev ''type'') (frames events)
        = map Some ([''message_start'', ''content_block_start'', ''content_block_delta'', ''content_block_stop'']
            @ replicate (Suc n) ''message_delta'' @ [''message_stop''])
    \<and> get_object (frames events ! 2) ''delta'' = Some delta \<and> map_of delta ''content'' = Some (JString text) \<and> text \<noteq> []
    \<and> get_str block ''type'' = Some ''compaction'' \<and> get_str block ''content'' = Some text
    \<and> cr_summary r = None
    \<and> cr_provider_replay r = [\<lparr>pr_provider = Claude, pr_raw_json = jc_to_string codec block, pr_display = None\<rparr>]"
proof -
  let ?events = "json_events (response_events codec response)"
  from assms(2) obtain st where run: "run_events (compaction_process_sse_event codec) (response_events codec response)
      AnthropicCompactionStreamState_default = (Inr st :: ('http, string) ProviderError + AnthropicCompactionStreamState)"
    and fin: "compaction_finish codec st = (Inr r :: ('http, string) ProviderError + ProviderCompactionResponse)"
    unfolding parse_complete_response(2) [OF assms(1)] by (auto simp: and_then_def split: sum.splits)
  note json = run_compaction_json [OF run]
  from json fin have "and_then (run_events (compaction_process_event codec) ?events AnthropicCompactionStreamState_default)
      (compaction_finish codec) = (Inr r :: ('http, string) ProviderError + ProviderCompactionResponse)" by simp
  from compaction_frames [OF this] json show ?thesis by blast
qed

end
