(* ===== verification/Anthropic_Request.thy ===== *)
theory Anthropic_Request
  imports Anthropic_Stream
begin

text \<open>
  The requests of \<open>agent-provider/src/anthropic.rs\<close>: what is known of a model, how a transcript
  becomes messages, where cache markers go, and the bodies of the three kinds of requests. The
  table of built-in tools, \<open>serde_json\<close>, the clock and the HTTP client are parameters.
\<close>

section \<open>Models\<close>

definition DEFAULT_MAX_OUTPUT_BUDGET :: u32 where
  "DEFAULT_MAX_OUTPUT_BUDGET = 64000"

definition UNKNOWN_MODEL_MAX_OUTPUT_TOKENS :: u32 where
  "UNKNOWN_MODEL_MAX_OUTPUT_TOKENS = 64000"

definition COMPACTION_TRIGGER_TOKENS :: u64 where
  "COMPACTION_TRIGGER_TOKENS = 50000"

definition TRANSCRIPT_LOOKBACK_BLOCKS :: nat where
  "TRANSCRIPT_LOOKBACK_BLOCKS = 18"

definition anthropic_auto_compact_limit :: "u64 \<Rightarrow> u64" where
  "anthropic_auto_compact_limit window =
     (if window = 1000000 then 500000
      else window div 100 * 85 + window mod 100 * 85 div 100)"

record AnthropicModelCapabilities =
  mc_adaptive_thinking :: bool
  mc_adaptive_thinking_default :: bool
  mc_effort :: bool
  mc_low_effort :: bool
  mc_medium_effort :: bool
  mc_high_effort :: bool
  mc_xhigh_effort :: bool
  mc_max_effort :: bool
  mc_native_compaction :: bool

definition AnthropicModelCapabilities_default :: AnthropicModelCapabilities where
  "AnthropicModelCapabilities_default =
     \<lparr>mc_adaptive_thinking = False, mc_adaptive_thinking_default = False, mc_effort = False, mc_low_effort = False,
      mc_medium_effort = False, mc_high_effort = False, mc_xhigh_effort = False, mc_max_effort = False,
      mc_native_compaction = False\<rparr>"

definition adaptive_with_all_efforts :: "bool \<Rightarrow> AnthropicModelCapabilities" where
  "adaptive_with_all_efforts adaptive_thinking_default =
     \<lparr>mc_adaptive_thinking = True, mc_adaptive_thinking_default = adaptive_thinking_default, mc_effort = True,
      mc_low_effort = True, mc_medium_effort = True, mc_high_effort = True, mc_xhigh_effort = True, mc_max_effort = True,
      mc_native_compaction = True\<rparr>"

fun supports_effort :: "AnthropicModelCapabilities \<Rightarrow> ReasoningEffort \<Rightarrow> bool" where
  "supports_effort c EffortLow = mc_low_effort c"
| "supports_effort c EffortMedium = mc_medium_effort c"
| "supports_effort c EffortHigh = mc_high_effort c"
| "supports_effort c EffortXHigh = mc_xhigh_effort c"
| "supports_effort c EffortMax = mc_max_effort c"
| "supports_effort c EffortNone = False"
| "supports_effort c EffortMinimal = False"

record AnthropicModelMetadata =
  md_id :: string
  md_max_input_tokens :: "u64 option"
  md_max_tokens :: u32
  md_capabilities :: AnthropicModelCapabilities

text \<open>The answer of the models endpoint, after \<open>serde\<close>; a capability is whether it is supported.\<close>

record ModelsApiEffortCapability =
  mf_supported :: bool
  mf_low :: bool
  mf_medium :: bool
  mf_high :: bool
  mf_xhigh :: "bool option"
  mf_max :: bool

record ModelsApiContextManagementCapability =
  mx_supported :: bool
  mx_compact_20260112 :: "bool option"

record ModelsApiThinkingCapability =
  mt_supported :: bool
  mt_adaptive :: bool

record ModelsApiCapabilities =
  ma_context_management :: "ModelsApiContextManagementCapability option"
  ma_effort :: ModelsApiEffortCapability
  ma_thinking :: ModelsApiThinkingCapability

record ModelsApiModel =
  mo_id :: string
  mo_max_input_tokens :: "u64 option"
  mo_max_tokens :: "u32 option"
  mo_capabilities :: "ModelsApiCapabilities option"

definition static_anthropic_model_metadata :: "string \<Rightarrow> AnthropicModelMetadata" where
  "static_anthropic_model_metadata model =
     (let normalized = ascii_lowercase model;
          (max_input_tokens, max_tokens, capabilities) =
            (if normalized \<in> {''claude-opus-5'', ''claude-sonnet-5'', ''claude-fable-5-1''}
             then (Some 1000000, 128000, adaptive_with_all_efforts True)
             else if normalized = ''claude-opus-4-7''
             then (Some 1000000, 128000, adaptive_with_all_efforts False)
             else if normalized \<in> {''claude-opus-4-6'', ''claude-sonnet-4-6''}
             then (None, UNKNOWN_MODEL_MAX_OUTPUT_TOKENS, adaptive_with_all_efforts False)
             else if normalized = ''claude-sonnet-4-5''
             then (Some 200000, UNKNOWN_MODEL_MAX_OUTPUT_TOKENS, AnthropicModelCapabilities_default)
             else (None, UNKNOWN_MODEL_MAX_OUTPUT_TOKENS,
                   AnthropicModelCapabilities_default\<lparr>mc_native_compaction :=
                     normalized \<in> {''claude-mythos-5'', ''claude-mythos-preview''}\<rparr>))
      in \<lparr>md_id = model, md_max_input_tokens = max_input_tokens, md_max_tokens = max_tokens,
          md_capabilities = capabilities\<rparr>)"

definition merge_capabilities :: "AnthropicModelCapabilities \<Rightarrow> ModelsApiCapabilities \<Rightarrow> AnthropicModelCapabilities" where
  "merge_capabilities c d =
     (let c = (case ma_context_management d of
            Some cm \<Rightarrow> c\<lparr>mc_native_compaction := mx_supported cm \<and> mx_compact_20260112 cm = Some True\<rparr>
          | None \<Rightarrow> c);
          effort = ma_effort d;
          thinking = ma_thinking d
      in c\<lparr>mc_effort := mf_supported effort, mc_low_effort := mf_low effort, mc_medium_effort := mf_medium effort,
           mc_high_effort := mf_high effort, mc_xhigh_effort := mf_xhigh effort = Some True, mc_max_effort := mf_max effort,
           mc_adaptive_thinking := mt_supported thinking \<and> mt_adaptive thinking\<rparr>)"

definition merge_models_api_metadata :: "AnthropicModelMetadata \<Rightarrow> ModelsApiModel \<Rightarrow> AnthropicModelMetadata" where
  "merge_models_api_metadata fallback discovered =
     \<lparr>md_id = mo_id discovered,
      md_max_input_tokens =
        (case option_filter (\<lambda>v. v > 0) (mo_max_input_tokens discovered) of
           Some v \<Rightarrow> Some v
         | None \<Rightarrow> md_max_input_tokens fallback),
      md_max_tokens = unwrap_or (option_filter (\<lambda>v. v > 0) (mo_max_tokens discovered)) (md_max_tokens fallback),
      md_capabilities =
        (case mo_capabilities discovered of
           Some d \<Rightarrow> merge_capabilities (md_capabilities fallback) d
         | None \<Rightarrow> md_capabilities fallback)\<rparr>"

definition CLAUDE_CODE_BETA :: string where
  "CLAUDE_CODE_BETA = ''claude-code-20250219''"

definition COMPACTION_BETA :: string where
  "COMPACTION_BETA = ''compact-2026-01-12''"

definition anthropic_beta_header :: string where
  "anthropic_beta_header = CLAUDE_CODE_BETA"

definition anthropic_compaction_beta_header :: string where
  "anthropic_compaction_beta_header = CLAUDE_CODE_BETA @ '','' @ COMPACTION_BETA"

definition anthropic_wire_tool_name :: "string \<Rightarrow> string" where
  "anthropic_wire_tool_name canonical_name =
     (if canonical_name = ''Edit'' then ''str_replace_based_edit_tool''
      else if canonical_name = ''WebFetch'' then ''web_fetch''
      else if canonical_name = ''WebSearch'' then ''web_search''
      else canonical_name)"

record ProviderTokenCountResponse =
  tk_input_tokens :: u64
  tk_original_input_tokens :: "u64 option"

definition parse_anthropic_count_tokens ::
  "json_codec \<Rightarrow> string \<Rightarrow> ('http, string) ProviderError + ProviderTokenCountResponse" where
  "parse_anthropic_count_tokens codec text =
     (case jc_from_str codec text of
        Inl error \<Rightarrow> provider_error (''failed to parse Anthropic count_tokens response JSON: '' @ error @ ''; body: ''
          @ response_excerpt text)
      | Inr response \<Rightarrow>
          and_then (ok_or (get_u64 response ''input_tokens'')
              (Provider ''Anthropic count_tokens response missing input_tokens'')) (\<lambda>input_tokens.
            Inr \<lparr>tk_input_tokens = input_tokens,
                 tk_original_input_tokens = Option.bind
                   (Value_pointer response [''context_management'', ''original_input_tokens'']) Value_as_u64\<rparr>))"

definition anthropic_reasoning_effort ::
  "AnthropicModelCapabilities \<Rightarrow> ReasoningEffort \<Rightarrow> ('http, string) ProviderError + string" where
  "anthropic_reasoning_effort capabilities effort =
     (let effort = (if effort \<in> {EffortNone, EffortMinimal} then EffortLow else effort)
      in if supports_effort capabilities effort then Inr (ReasoningEffort_as_str effort)
         else provider_error (''reasoning effort '' @ ReasoningEffort_as_str effort
           @ '' is not supported by this Claude model''))"

section \<open>Messages\<close>

abbreviation user_message :: "Value list \<Rightarrow> Value" where
  "user_message blocks \<equiv> json_object [(''role'', JString ''user''), (''content'', JArray blocks)]"

abbreviation assistant_message :: "Value list \<Rightarrow> Value" where
  "assistant_message blocks \<equiv> json_object [(''role'', JString ''assistant''), (''content'', JArray blocks)]"

definition text_block :: "string \<Rightarrow> Value" where
  "text_block text = json_object [(''type'', JString ''text''), (''text'', JString text)]"

fun anthropic_user_block :: "ContentBlock \<Rightarrow> Value" where
  "anthropic_user_block (TextBlock text) = text_block text"
| "anthropic_user_block (ImageBlock img) =
     (case ic_source img of
        Base64 data \<Rightarrow> json_object [(''type'', JString ''image''),
          (''source'', json_object [(''type'', JString ''base64''), (''media_type'', JString (ic_mime_type img)),
             (''data'', JString data)])]
      | Url url \<Rightarrow> text_block (''[image url: '' @ url @ '']''))"

definition anthropic_user_content :: "UserMessage \<Rightarrow> Value list" where
  "anthropic_user_content message = map anthropic_user_block (um_content message)"

definition malformed_replay :: "string \<Rightarrow> ('http, string) ProviderError" where
  "malformed_replay message = Provider (''refusing malformed persisted Anthropic compaction replay: '' @ message)"

definition validate_replay_block :: "Value \<Rightarrow> ('http, string) ProviderError + unit" where
  "validate_replay_block block =
     map_err (\<lambda>e. malformed_replay (AnthropicCompactionBlockError_message e)) (validate_anthropic_compaction_block block)"

fun replay_blocks_compact :: "Value list \<Rightarrow> ('http, string) ProviderError + bool" where
  "replay_blocks_compact [] = Inr False"
| "replay_blocks_compact (block # blocks) =
     and_then (anthropic_block_type block ''persisted Anthropic replay block'') (\<lambda>block_type.
     and_then (if block_type = ''compaction'' then validate_replay_block block else Inr ()) (\<lambda>_.
     and_then (replay_blocks_compact blocks) (\<lambda>has_compaction. Inr (block_type = ''compaction'' \<or> has_compaction))))"

definition emitted_anthropic_replay ::
  "json_codec \<Rightarrow> ModelTranscriptEntry \<Rightarrow> bool \<Rightarrow> ('http, string) ProviderError + Value list \<times> bool" where
  "emitted_anthropic_replay codec entry compaction_summary =
     and_then (map_err Json (provider_replay_values_for codec Claude entry)) (\<lambda>blocks.
       if compaction_summary then
         (if blocks = [] then Inr (blocks, False)
          else if length blocks \<noteq> 1 then Inl (malformed_replay ''expected exactly one Claude block'')
          else and_then (validate_replay_block (hd blocks)) (\<lambda>_. Inr (blocks, True)))
       else and_then (replay_blocks_compact blocks) (\<lambda>has_compaction. Inr (blocks, has_compaction)))"

fun assistant_item_block :: "json_codec \<Rightarrow> AssistantItem \<Rightarrow> Value" where
  "assistant_item_block codec (TextItem text) = text_block text"
| "assistant_item_block codec (ToolCallItem call) =
     json_object [(''type'', JString ''tool_use''), (''id'', JString (tool_call_id_0 (tc_id call))),
       (''name'', JString (anthropic_wire_tool_name (tc_tool_name call))),
       (''input'', case jc_from_str codec (tc_args_json call) of Inr v \<Rightarrow> v | Inl _ \<Rightarrow> JObject [])]"

definition tool_result_block :: "ToolResultMessage \<Rightarrow> Value" where
  "tool_result_block result =
     json_object [(''type'', JString ''tool_result''), (''tool_use_id'', JString (tool_call_id_0 (tr_tool_call_id result))),
       (''content'', JString (tr_output result)),
       (''is_error'', JBool (tr_status result \<in> {Error, Interrupted, Crashed}))]"

text \<open>The messages of one entry, and whether a compaction block is among them.\<close>

definition render_entry ::
  "json_codec \<Rightarrow> PromptSections \<Rightarrow> ModelTranscriptEntry \<Rightarrow> ('http, string) ProviderError + Value list \<times> bool" where
  "render_entry codec prompt entry =
     (case me_item entry of
        UserMessageItem message \<Rightarrow> Inr ([user_message (anthropic_user_content message)], False)
      | CompactionSummaryItem summary \<Rightarrow>
          and_then (emitted_anthropic_replay codec entry True) (\<lambda>r.
            Inr ((if fst r = [] then [] else [assistant_message (fst r)])
                   @ [user_message [text_block (compaction_summary_text summary prompt)]],
                 fst r \<noteq> [] \<and> snd r))
      | AssistantMessageItem message \<Rightarrow>
          and_then (emitted_anthropic_replay codec entry False) (\<lambda>r.
            let content = (if fst r = [] then map (assistant_item_block codec) (am_items message) else fst r)
            in Inr (if content = [] then [] else [assistant_message content], snd r))
      | ToolResultItem result \<Rightarrow> Inr ([user_message [tool_result_block result]], False)
      | DaemonToolObservationItem observation \<Rightarrow>
          and_then (map_err Json (DaemonToolObservation_render_text (\<lambda>v. Inr (jc_to_string_pretty codec v))
              (\<lambda>v. Inr (jc_to_string codec v)) (jc_from_str codec) observation)) (\<lambda>text.
            Inr ([user_message [text_block text]], False))
      | TurnStarted _ \<Rightarrow> Inr ([], False)
      | ToolCallStarted _ _ \<Rightarrow> Inr ([], False)
      | TurnFinished _ _ \<Rightarrow> Inr ([], False))"

definition render_transcript_messages ::
  "json_codec \<Rightarrow> PromptSections \<Rightarrow> ModelTranscriptEntry list \<Rightarrow> ('http, string) ProviderError + Value list \<times> bool" where
  "render_transcript_messages codec prompt entries =
     and_then (try_map (render_entry codec prompt) entries) (\<lambda>rs. Inr (concat (map fst rs), list_ex snd rs))"

section \<open>Cache markers\<close>

definition cache_control_1h :: Value where
  "cache_control_1h = json_object [(''type'', JString ''ephemeral''), (''ttl'', JString ''1h'')]"

definition cache_control_5m :: Value where
  "cache_control_5m = json_object [(''type'', JString ''ephemeral'')]"

definition is_cacheable_transcript_block :: "Value \<Rightarrow> bool" where
  "is_cacheable_transcript_block block =
     (case Value_as_object block of
        None \<Rightarrow> False
      | Some object \<Rightarrow>
          map_of object ''cache_control'' = None
          \<and> Option.bind (map_of object ''type'') Value_as_str \<in> {Some ''text'', Some ''tool_use'', Some ''tool_result''})"

text \<open>The first block of a list that can be marked, marked; the code walks the blocks in reverse.\<close>

fun mark_first_block :: "Value \<Rightarrow> Value list \<Rightarrow> Value list option" where
  "mark_first_block cc [] = None"
| "mark_first_block cc (block # blocks) =
     (if is_cacheable_transcript_block block then Some (Value_set block ''cache_control'' cc # blocks)
      else map_option (Cons block) (mark_first_block cc blocks))"

definition latest_cacheable_content_block :: "Value \<Rightarrow> Value list \<Rightarrow> Value list option" where
  "latest_cacheable_content_block cc blocks = map_option rev (mark_first_block cc (rev blocks))"

fun mark_first_message :: "Value \<Rightarrow> Value list \<Rightarrow> Value list option" where
  "mark_first_message cc [] = None"
| "mark_first_message cc (message # messages) =
     (case Option.bind (get_array message ''content'') (latest_cacheable_content_block cc) of
        Some blocks \<Rightarrow> Some (Value_set message ''content'' (JArray blocks) # messages)
      | None \<Rightarrow> map_option (Cons message) (mark_first_message cc messages))"

definition message_blocks :: "Value \<Rightarrow> Value list" where
  "message_blocks message = unwrap_or (get_array message ''content'') []"

definition mark_latest_cacheable_block :: "Value \<Rightarrow> Value list \<Rightarrow> nat option \<times> Value list" where
  "mark_latest_cacheable_block cc messages =
     (let total_cacheable = sum_list (map (\<lambda>m. length (filter is_cacheable_transcript_block (message_blocks m))) messages)
      in if total_cacheable = 0 then (None, messages)
         else case mark_first_message cc (rev messages) of
             Some marked \<Rightarrow> (Some total_cacheable, rev marked)
           | None \<Rightarrow> (None, messages))"

text \<open>\<open>Inl\<close> is the count of blocks seen when the block was not reached.\<close>

fun mark_block_at :: "Value \<Rightarrow> nat \<Rightarrow> nat \<Rightarrow> Value list \<Rightarrow> nat + Value list" where
  "mark_block_at cc target seen [] = Inl seen"
| "mark_block_at cc target seen (block # blocks) =
     (if \<not> is_cacheable_transcript_block block
      then (case mark_block_at cc target seen blocks of Inl n \<Rightarrow> Inl n | Inr bs \<Rightarrow> Inr (block # bs))
      else if seen + 1 = target then Inr (Value_set block ''cache_control'' cc # blocks)
      else case mark_block_at cc target (seen + 1) blocks of Inl n \<Rightarrow> Inl n | Inr bs \<Rightarrow> Inr (block # bs))"

fun mark_message_at :: "Value \<Rightarrow> nat \<Rightarrow> nat \<Rightarrow> Value list \<Rightarrow> Value list" where
  "mark_message_at cc target seen [] = []"
| "mark_message_at cc target seen (message # messages) =
     (case get_array message ''content'' of
        None \<Rightarrow> message # mark_message_at cc target seen messages
      | Some blocks \<Rightarrow>
          (case mark_block_at cc target seen blocks of
             Inr marked \<Rightarrow> Value_set message ''content'' (JArray marked) # messages
           | Inl n \<Rightarrow> message # mark_message_at cc target n messages))"

definition mark_cacheable_block_at_index :: "nat \<Rightarrow> Value \<Rightarrow> Value list \<Rightarrow> Value list" where
  "mark_cacheable_block_at_index target cc messages =
     (if target = 0 then messages else mark_message_at cc target 0 messages)"

definition add_transcript_cache_breakpoints :: "Value list \<Rightarrow> Value list" where
  "add_transcript_cache_breakpoints messages =
     (case mark_latest_cacheable_block cache_control_5m messages of
        (None, messages) \<Rightarrow> messages
      | (Some total_cacheable, messages) \<Rightarrow>
          if total_cacheable \<le> TRANSCRIPT_LOOKBACK_BLOCKS then messages
          else mark_cacheable_block_at_index (total_cacheable - TRANSCRIPT_LOOKBACK_BLOCKS) cache_control_5m messages)"

section \<open>System blocks\<close>

definition CLAUDE_CODE_VERSION :: string where
  "CLAUDE_CODE_VERSION = ''2.1.268''"

definition ATTRIBUTION_FINGERPRINT_SALT :: string where
  "ATTRIBUTION_FINGERPRINT_SALT = ''59cf53e54c78''"

definition first_user_text :: "ModelTranscriptEntry list \<Rightarrow> string option" where
  "first_user_text transcript =
     find_map (\<lambda>entry. case me_item entry of UserMessageItem message \<Rightarrow> UserMessage_as_text message | _ \<Rightarrow> None) transcript"

definition char_nth_or_0 :: "string \<Rightarrow> nat \<Rightarrow> string" where
  "char_nth_or_0 text n = (let chars = utf8_chars text in if n < length chars then chars ! n else ''0'')"

definition fingerprint_hash :: "string \<Rightarrow> u32" where
  "fingerprint_hash input = foldl (\<lambda>hash c. hash * 31 + of_nat (byte c)) 0 input"

definition hex_digit :: "nat \<Rightarrow> char" where
  "hex_digit n = char_of (if n < 10 then 48 + n else 87 + n)"

definition hex8 :: "u32 \<Rightarrow> string" where
  "hex8 w = map (\<lambda>i. hex_digit (unat w div 16 ^ i mod 16)) [7, 6, 5, 4, 3, 2, 1, 0]"

definition attribution_fingerprint :: "PromptSections \<Rightarrow> ModelTranscriptEntry list \<Rightarrow> string" where
  "attribution_fingerprint prompt transcript =
     (let text = unwrap_or (case ps_stable_prefix prompt of
              Some stable_text \<Rightarrow> Some stable_text
            | None \<Rightarrow> first_user_text transcript) [];
          chars = char_nth_or_0 text 4 @ char_nth_or_0 text 7 @ char_nth_or_0 text 20
      in take 3 (hex8 (fingerprint_hash (ATTRIBUTION_FINGERPRINT_SALT @ chars @ CLAUDE_CODE_VERSION))))"

definition attribution_header :: "PromptSections \<Rightarrow> ModelTranscriptEntry list \<Rightarrow> string" where
  "attribution_header prompt transcript =
     ''x-anthropic-billing-header: cc_version='' @ CLAUDE_CODE_VERSION @ ''.''
       @ attribution_fingerprint prompt transcript @ ''; cc_entrypoint=cli;''"

definition anthropic_system_blocks :: "PromptSections \<Rightarrow> ModelTranscriptEntry list \<Rightarrow> Value list" where
  "anthropic_system_blocks prompt transcript =
     text_block (attribution_header prompt transcript)
       # (case ps_stable_prefix prompt of
            Some stable_text \<Rightarrow>
              [json_object [(''type'', JString ''text''), (''text'', JString stable_text), (''cache_control'', cache_control_1h)]]
          | None \<Rightarrow> [])"

definition anthropic_tools :: "ProviderToolProfile \<Rightarrow> ProviderTool list \<Rightarrow> ('http, string) ProviderError + Value list" where
  "anthropic_tools profile tools =
     (case profile of
        NoTools \<Rightarrow> Inr []
      | CustomDefinitions \<Rightarrow> Inr (map pt_declaration tools)
      | AnthropicCoding \<Rightarrow> Inr (map pt_declaration tools)
      | OpenAiCoding \<Rightarrow> provider_error ''OpenAI coding tools cannot be sent to Claude'')"

section \<open>Bodies\<close>

record AnthropicRequestBodyInput =
  bi_model :: string
  bi_prompt :: PromptSections
  bi_transcript :: "ModelTranscriptEntry list"
  bi_tool_profile :: ProviderToolProfile
  bi_tools :: "ProviderTool list"
  bi_max_tokens :: "u32 option"
  bi_reasoning_effort :: "ReasoningEffort option"
  bi_capabilities :: AnthropicModelCapabilities
  bi_cache_transcript :: bool
  bi_transcript_cache_prefix_len :: "nat option"

definition append_dynamic_context_message :: "PromptSections \<Rightarrow> Value list \<Rightarrow> Value list" where
  "append_dynamic_context_message prompt messages =
     (case option_filter (\<lambda>v. trim v \<noteq> []) (ps_dynamic_context prompt) of
        Some dynamic \<Rightarrow> messages @ [user_message [text_block dynamic]]
      | None \<Rightarrow> messages)"

definition transcript_to_messages_for_request ::
  "json_codec \<Rightarrow> AnthropicRequestBodyInput \<Rightarrow> ('http, string) ProviderError + Value list \<times> bool" where
  "transcript_to_messages_for_request codec input =
     (let render = render_transcript_messages codec (bi_prompt input);
          dynamic = append_dynamic_context_message (bi_prompt input)
      in if \<not> bi_cache_transcript input
         then and_then (render (bi_transcript input)) (\<lambda>r. Inr (dynamic (fst r), snd r))
         else case bi_transcript_cache_prefix_len input of
             None \<Rightarrow> and_then (render (bi_transcript input)) (\<lambda>r.
               Inr (dynamic (add_transcript_cache_breakpoints (fst r)), snd r))
           | Some n \<Rightarrow>
               let prefix_len = min n (length (bi_transcript input))
               in and_then (render (take prefix_len (bi_transcript input))) (\<lambda>r.
                  let messages = add_transcript_cache_breakpoints (fst r)
                  in and_then (render (drop prefix_len (bi_transcript input))) (\<lambda>suffix.
                    Inr (dynamic (messages @ fst suffix), snd r \<or> snd suffix))))"

definition set_if :: "bool \<Rightarrow> string \<Rightarrow> Value \<Rightarrow> Value \<Rightarrow> Value" where
  "set_if c k x body = (if c then Value_set body k x else body)"

definition effort_config ::
  "AnthropicRequestBodyInput \<Rightarrow> Value \<Rightarrow> ('http, string) ProviderError + Value" where
  "effort_config input body =
     (let capabilities = bi_capabilities input
      in case option_filter (\<lambda>_. mc_effort capabilities) (bi_reasoning_effort input) of
           None \<Rightarrow> Inr body
         | Some reasoning_effort \<Rightarrow>
             and_then (anthropic_reasoning_effort capabilities reasoning_effort) (\<lambda>effort.
               Inr (Value_set (set_if (mc_adaptive_thinking capabilities \<and> \<not> mc_adaptive_thinking_default capabilities)
                       ''thinking'' (json_object [(''type'', JString ''adaptive'')]) body)
                     ''output_config'' (json_object [(''effort'', JString effort)]))))"

definition base_body :: "AnthropicRequestBodyInput \<Rightarrow> Value list \<Rightarrow> Value" where
  "base_body input messages =
     (let body = json_object [(''model'', JString (bi_model input)), (''messages'', JArray messages)]
      in case bi_max_tokens input of
           Some max_tokens \<Rightarrow> Value_set body ''max_tokens'' (json_nat (unat max_tokens))
         | None \<Rightarrow> body)"

definition add_tools :: "Value list \<Rightarrow> Value \<Rightarrow> Value" where
  "add_tools tools body =
     (if tools = [] then body
      else Value_set (Value_set body ''tools'' (JArray tools)) ''tool_choice'' (json_object [(''type'', JString ''auto'')]))"

definition anthropic_request_body ::
  "json_codec \<Rightarrow> AnthropicRequestBodyInput \<Rightarrow> ('http, string) ProviderError + Value \<times> bool" where
  "anthropic_request_body codec input =
     and_then (transcript_to_messages_for_request codec input) (\<lambda>rendered.
     and_then (effort_config input (base_body input (fst rendered))) (\<lambda>body.
       let body = Value_set body ''system'' (JArray (anthropic_system_blocks (bi_prompt input) (bi_transcript input)))
       in and_then (anthropic_tools (bi_tool_profile input) (bi_tools input)) (\<lambda>tools.
         Inr (set_if (bi_max_tokens input \<noteq> None) ''stream'' (JBool True) (add_tools tools body), snd rendered))))"

record PreparedAnthropicRequest =
  pa_body :: Value
  pa_beta_header :: string

definition RenderedAnthropicRequest_prepare :: "Value \<times> bool \<Rightarrow> PreparedAnthropicRequest" where
  "RenderedAnthropicRequest_prepare rendered =
     \<lparr>pa_body = fst rendered,
      pa_beta_header = (if snd rendered then anthropic_compaction_beta_header else anthropic_beta_header)\<rparr>"

definition compact_edit :: "(string \<times> Value) list \<Rightarrow> Value" where
  "compact_edit kvs =
     json_object [(''edits'', JArray [json_object ((''type'', JString ''compact_20260112'') # kvs)])]"

definition input_tokens_trigger :: "u64 \<Rightarrow> Value" where
  "input_tokens_trigger n = json_object [(''type'', JString ''input_tokens''), (''value'', json_u64 n)]"

definition apply_messages_compaction_replay_strategy ::
  "AnthropicModelMetadata \<Rightarrow> bool \<Rightarrow> Value \<Rightarrow> ('http, string) ProviderError + Value" where
  "apply_messages_compaction_replay_strategy metadata replays_compaction body =
     (if replays_compaction
      then and_then (ok_or (md_max_input_tokens metadata)
             (Provider (''safe Anthropic compaction replay for '' @ md_id metadata
                @ '' requires a resolved max_input_tokens ceiling''))) (\<lambda>trigger.
           Inr (Value_set body ''context_management''
             (compact_edit [(''trigger'', input_tokens_trigger (max trigger COMPACTION_TRIGGER_TOKENS)),
                (''pause_after_compaction'', JBool True)])))
      else Inr body)"

definition apply_count_compaction_replay_strategy :: "bool \<Rightarrow> Value \<Rightarrow> Value" where
  "apply_count_compaction_replay_strategy replays_compaction body =
     set_if replays_compaction ''context_management'' (compact_edit []) body"

definition prepare_messages_request ::
  "json_codec \<Rightarrow> (ProviderKind \<Rightarrow> ProviderTool list) \<Rightarrow> ModelRequest \<Rightarrow> AnthropicModelMetadata
     \<Rightarrow> ('http, string) ProviderError + PreparedAnthropicRequest" where
  "prepare_messages_request codec builtin request metadata =
     and_then (anthropic_request_body codec
         \<lparr>bi_model = rq_model request, bi_prompt = rq_prompt request, bi_transcript = rq_transcript request,
          bi_tool_profile = rq_tool_profile request,
          bi_tools = effective_provider_tools builtin (rq_tool_profile request) (rq_tools request),
          bi_max_tokens = Some (min (unwrap_or (rq_max_tokens request) DEFAULT_MAX_OUTPUT_BUDGET) (md_max_tokens metadata)),
          bi_reasoning_effort = Some (rq_reasoning_effort request), bi_capabilities = md_capabilities metadata,
          bi_cache_transcript = True, bi_transcript_cache_prefix_len = rq_transcript_cache_prefix_len request\<rparr>) (\<lambda>rendered.
       and_then (apply_messages_compaction_replay_strategy metadata (snd rendered) (fst rendered)) (\<lambda>body.
         Inr (RenderedAnthropicRequest_prepare (body, snd rendered))))"

definition prepare_count_tokens_request ::
  "json_codec \<Rightarrow> (ProviderKind \<Rightarrow> ProviderTool list) \<Rightarrow> ProviderTokenCountRequest \<Rightarrow> AnthropicModelMetadata
     \<Rightarrow> ('http, string) ProviderError + PreparedAnthropicRequest" where
  "prepare_count_tokens_request codec builtin request metadata =
     and_then (anthropic_request_body codec
         \<lparr>bi_model = tq_model request, bi_prompt = tq_prompt request, bi_transcript = tq_transcript request,
          bi_tool_profile = tq_tool_profile request,
          bi_tools = effective_provider_tools builtin (tq_tool_profile request) (tq_tools request),
          bi_max_tokens = None, bi_reasoning_effort = Some (tq_reasoning_effort request),
          bi_capabilities = md_capabilities metadata,
          bi_cache_transcript = False, bi_transcript_cache_prefix_len = None\<rparr>) (\<lambda>rendered.
       Inr (RenderedAnthropicRequest_prepare
         (apply_count_compaction_replay_strategy (snd rendered) (fst rendered), snd rendered)))"

section \<open>Compaction requests\<close>

definition COMPACTION_TERMINAL_USER_INSTRUCTION :: string where
  "COMPACTION_TERMINAL_USER_INSTRUCTION = ''Proceed with the configured context-management compaction.''"

definition synthetic_tool_result :: "string \<Rightarrow> Value" where
  "synthetic_tool_result tool_use_id =
     json_object [(''type'', JString ''tool_result''), (''tool_use_id'', JString tool_use_id),
       (''content'', JString ''Tool result unavailable at the compaction boundary.''), (''is_error'', JBool True)]"

definition rposition :: "('a \<Rightarrow> bool) \<Rightarrow> 'a list \<Rightarrow> nat option" where
  "rposition P xs = map_option (\<lambda>i. length xs - 1 - i) (position P (rev xs))"

text \<open>\<open>retain\<close> with a set of what was seen: the first occurrences.\<close>

fun retain_new :: "'a list \<Rightarrow> 'a list \<Rightarrow> 'a list" where
  "retain_new seen [] = []"
| "retain_new seen (x # xs) = (if x \<in> set seen then retain_new seen xs else x # retain_new (x # seen) xs)"

definition has_role :: "string \<Rightarrow> Value \<Rightarrow> bool" where
  "has_role role message \<longleftrightarrow> get_str message ''role'' = Some role"

definition tool_use_ids :: "Value list \<Rightarrow> string list" where
  "tool_use_ids blocks =
     List.map_filter (\<lambda>block. get_str block ''id'') (filter (\<lambda>block. get_str block ''type'' = Some ''tool_use'') blocks)"

text \<open>The results among the blocks, the first of each id, and the blocks that are no results.\<close>

fun collect_results :: "string list \<Rightarrow> Value list \<Rightarrow> (string \<rightharpoonup> Value) \<times> Value list \<Rightarrow> (string \<rightharpoonup> Value) \<times> Value list" where
  "collect_results ids [] acc = acc"
| "collect_results ids (block # blocks) (existing, others) =
     (if get_str block ''type'' = Some ''tool_result''
      then (case option_filter (\<lambda>i. i \<in> set ids) (get_str block ''tool_use_id'') of
              Some i \<Rightarrow> collect_results ids blocks (if existing i = None then existing(i \<mapsto> block) else existing, others)
            | None \<Rightarrow> collect_results ids blocks (existing, others))
      else collect_results ids blocks (existing, others @ [block]))"

fun take_results :: "(string \<rightharpoonup> Value) \<Rightarrow> string list \<Rightarrow> Value list" where
  "take_results existing [] = []"
| "take_results existing (i # ids) =
     (case existing i of Some block \<Rightarrow> block | None \<Rightarrow> synthetic_tool_result i) # take_results (existing(i := None)) ids"

definition terminal_user_messages :: "Value list \<Rightarrow> Value list" where
  "terminal_user_messages messages =
     (let last_assistant = rposition (has_role ''assistant'') messages;
          required = retain_new [] (tool_use_ids
            (case last_assistant of Some i \<Rightarrow> message_blocks (messages ! i) | None \<Rightarrow> []));
          start = (case last_assistant of Some i \<Rightarrow> i + 1 | None \<Rightarrow> 0);
          trailing = drop start messages
      in if trailing \<noteq> [] \<and> list_all (has_role ''user'') trailing
         then if required = [] then messages
              else
                let (existing, others) = collect_results required (concat (map message_blocks trailing)) (Map.empty, [])
                in take start messages @ [user_message (take_results existing required @ others)]
         else messages @ [user_message (map synthetic_tool_result required
                @ [text_block COMPACTION_TERMINAL_USER_INSTRUCTION])])"

text \<open>Every body has an array of messages, so the call of \<open>expect\<close> does not panic.\<close>

definition ensure_compaction_terminal_user_message :: "Value \<Rightarrow> Value" where
  "ensure_compaction_terminal_user_message body =
     (case get_array body ''messages'' of
        Some messages \<Rightarrow> Value_set body ''messages'' (JArray (terminal_user_messages messages))
      | None \<Rightarrow> body)"

definition compaction_body_with_metadata ::
  "json_codec \<Rightarrow> ProviderCompactionRequest \<Rightarrow> AnthropicModelMetadata \<Rightarrow> ('http, string) ProviderError + Value" where
  "compaction_body_with_metadata codec request metadata =
     (if \<not> mc_native_compaction (md_capabilities metadata)
      then Inl (native_compaction Unsupported
        (''Anthropic model '' @ md_id metadata @ '' does not advertise compact_20260112 support''))
      else and_then (ok_or (option_filter (\<lambda>v. trim v \<noteq> []) (pq_compaction_instructions request))
             (Provider ''Anthropic native compaction requires non-empty custom instructions'')) (\<lambda>instructions.
        and_then (anthropic_request_body codec
            \<lparr>bi_model = pq_model request, bi_prompt = pq_prompt request, bi_transcript = pq_transcript request,
             bi_tool_profile = NoTools, bi_tools = [],
             bi_max_tokens = Some (min (md_max_tokens metadata) DEFAULT_MAX_OUTPUT_BUDGET),
             bi_reasoning_effort = Some (pq_reasoning_effort request), bi_capabilities = md_capabilities metadata,
             bi_cache_transcript = True, bi_transcript_cache_prefix_len = None\<rparr>) (\<lambda>rendered.
          Inr (Value_set (ensure_compaction_terminal_user_message (fst rendered)) ''context_management''
            (compact_edit [(''trigger'', input_tokens_trigger COMPACTION_TRIGGER_TOKENS),
               (''pause_after_compaction'', JBool True), (''instructions'', JString instructions)])))))"

section \<open>Calls\<close>

text \<open>
  What a call sends: the endpoint, the beta header, the session header and the body. The other
  headers are constants or the clock. The client is the argument \<open>send\<close>.
\<close>

record anthropic_call =
  ac_path :: string
  ac_beta_header :: string
  ac_session_header :: string
  ac_body :: Value

definition anthropic_session_id :: "string option \<Rightarrow> string option \<Rightarrow> string" where
  "anthropic_session_id session_id prompt_cache_key =
     unwrap_or (case session_id of Some s \<Rightarrow> Some s | None \<Rightarrow> prompt_cache_key) ''pi-relay''"

definition anthropic_complete ::
  "json_codec \<Rightarrow> (ProviderKind \<Rightarrow> ProviderTool list) \<Rightarrow> (anthropic_call \<Rightarrow> ('http, string) ProviderError + 'http response)
     \<Rightarrow> AnthropicModelMetadata \<Rightarrow> ModelRequest \<Rightarrow> ('http, string) ProviderError + ModelResponse" where
  "anthropic_complete codec builtin send metadata request =
     and_then (prepare_messages_request codec builtin request metadata) (\<lambda>prepared.
     and_then (send \<lparr>ac_path = ''/messages'', ac_beta_header = pa_beta_header prepared,
         ac_session_header = anthropic_session_id (rq_session_id request) (rq_prompt_cache_key request),
         ac_body = pa_body prepared\<rparr>) (parse_anthropic_stream codec))"

definition anthropic_compact ::
  "json_codec \<Rightarrow> (anthropic_call \<Rightarrow> ('http, string) ProviderError + 'http response)
     \<Rightarrow> AnthropicModelMetadata \<Rightarrow> ProviderCompactionRequest \<Rightarrow> ('http, string) ProviderError + ProviderCompactionResponse" where
  "anthropic_compact codec send metadata request =
     and_then (compaction_body_with_metadata codec request metadata) (\<lambda>body.
     and_then (send \<lparr>ac_path = ''/messages'', ac_beta_header = anthropic_compaction_beta_header,
         ac_session_header = anthropic_session_id (pq_session_id request) (pq_prompt_cache_key request),
         ac_body = body\<rparr>) (parse_anthropic_compaction_stream codec))"

definition ensure_success ::
  "16 word \<times> bool \<Rightarrow> string \<Rightarrow> (string \<Rightarrow> string) \<Rightarrow> ('http, string) ProviderError + unit" where
  "ensure_success status text error_message =
     (if snd status then Inr () else Inl (Status (fst status) (error_message text)))"

definition anthropic_count_tokens ::
  "json_codec \<Rightarrow> (ProviderKind \<Rightarrow> ProviderTool list)
     \<Rightarrow> (anthropic_call \<Rightarrow> ('http, string) ProviderError + (16 word \<times> bool) \<times> string)
     \<Rightarrow> AnthropicModelMetadata \<Rightarrow> ProviderTokenCountRequest \<Rightarrow> ('http, string) ProviderError + ProviderTokenCountResponse" where
  "anthropic_count_tokens codec builtin send metadata request =
     and_then (prepare_count_tokens_request codec builtin request metadata) (\<lambda>prepared.
     and_then (send \<lparr>ac_path = ''/messages/count_tokens'', ac_beta_header = pa_beta_header prepared,
         ac_session_header = anthropic_session_id (tq_session_id request) (tq_prompt_cache_key request),
         ac_body = pa_body prepared\<rparr>) (\<lambda>answer.
     and_then (ensure_success (fst answer) (snd answer) (response_error_message codec)) (\<lambda>_.
       parse_anthropic_count_tokens codec (snd answer))))"

definition anthropic_model_metadata :: "AnthropicModelMetadata \<Rightarrow> ProviderModelMetadata" where
  "anthropic_model_metadata metadata =
     \<lparr>pm_max_input_tokens = md_max_input_tokens metadata,
      pm_recommended_auto_compact_tokens = map_option anthropic_auto_compact_limit (md_max_input_tokens metadata)\<rparr>"

definition anthropic_model_available ::
  "('http \<Rightarrow> 16 word option) \<Rightarrow> ('http, string) ProviderError + ModelsApiModel \<Rightarrow> ('http, string) ProviderError + bool" where
  "anthropic_model_available http_status retrieved =
     (case retrieved of
        Inr _ \<Rightarrow> Inr True
      | Inl error \<Rightarrow> if status_code http_status error = Some 404 then Inr False else Inl error)"

end
