(* ===== verification/Anthropic_Request_Proofs.thy ===== *)
theory Anthropic_Request_Proofs
  imports Anthropic_Request
begin

text \<open>
  What the requests of \<open>Anthropic_Request\<close> guarantee: the compaction threshold is the intended
  fraction at machine precision, cache markers go to the intended blocks and stay within the
  vendor's limit, and a compaction request answers every tool call.
\<close>

section \<open>The compaction threshold\<close>

lemma unat_limit:
  fixes w :: u64
  shows "unat (w div 100 * 85 + w mod 100 * 85 div 100) = unat w * 85 div 100"
proof -
  let ?n = "unat w"
  have n: "?n < 2 ^ 64" using unsigned_less [of w, where 'a = nat] by simp
  have d: "unat (w div 100) = ?n div 100" "unat (w mod 100) = ?n mod 100" by (simp_all add: unat_div unat_mod)
  have a: "unat (w div 100 * 85) = ?n div 100 * 85" using n by (simp add: unat_word_ariths d take_bit_nat_eq_self)
  have "unat (w mod 100 * 85) = ?n mod 100 * 85" by (simp add: unat_word_ariths d take_bit_nat_eq_self)
  then have b: "unat (w mod 100 * 85 div 100) = ?n mod 100 * 85 div 100" by (simp add: unat_div)
  have sum: "?n div 100 * 85 + ?n mod 100 * 85 div 100 = ?n * 85 div 100"
  proof -
    have "?n * 85 = (?n div 100 * 85) * 100 + ?n mod 100 * 85" using div_mult_mod_eq [of ?n 100] by linarith
    then show ?thesis by simp
  qed
  have "?n * 85 div 100 < 2 ^ 64" using n by simp
  then show ?thesis using sum a b by (simp add: unat_word_ariths take_bit_nat_eq_self)
qed

section \<open>Cache markers\<close>

text \<open>Reference: the chosen ones of the markable blocks, numbered from 1, get the marker.\<close>

fun mark_chosen :: "Value \<Rightarrow> nat set \<Rightarrow> nat \<Rightarrow> Value list \<Rightarrow> Value list" where
  "mark_chosen cc chosen n [] = []"
| "mark_chosen cc chosen n (block # blocks) =
     (if is_cacheable_transcript_block block
      then (if Suc n \<in> chosen then Value_set block ''cache_control'' cc else block) # mark_chosen cc chosen (Suc n) blocks
      else block # mark_chosen cc chosen n blocks)"

abbreviation markable :: "Value list \<Rightarrow> nat" where
  "markable blocks \<equiv> length (filter is_cacheable_transcript_block blocks)"

definition all_blocks :: "Value list \<Rightarrow> Value list" where
  "all_blocks messages = concat (map message_blocks messages)"

lemma mark_chosen_append:
  "mark_chosen cc S n (xs @ ys) = mark_chosen cc S n xs @ mark_chosen cc S (n + markable xs) ys"
  by (induction xs arbitrary: n) auto

lemma mark_chosen_outside: "S \<inter> {n <.. n + markable xs} = {} \<Longrightarrow> mark_chosen cc S n xs = xs"
proof (induction xs arbitrary: n)
  case (Cons x xs)
  show ?case
  proof (cases "is_cacheable_transcript_block x")
    case True
    with Cons.prems have "Suc n \<notin> S" "S \<inter> {Suc n <.. Suc n + markable xs} = {}" by auto
    with True Cons.IH show ?thesis by simp
  qed (use Cons in simp)
qed simp

lemma mark_first_block_chosen:
  "mark_first_block cc xs = (if markable xs = 0 then None else Some (rev (mark_chosen cc {markable xs} 0 (rev xs))))"
proof (induction xs)
  case (Cons x xs)
  have "mark_chosen cc {markable xs} 0 (rev xs) = rev xs" if "markable xs = 0"
    using that by (intro mark_chosen_outside) auto
  moreover have "mark_chosen cc {Suc (markable xs)} 0 (rev xs) = rev xs"
    by (intro mark_chosen_outside) (auto simp: rev_filter [symmetric])
  ultimately show ?case using Cons
    by (auto simp: mark_chosen_append rev_filter [symmetric])
qed simp

lemma latest_chosen:
  "latest_cacheable_content_block cc xs = (if markable xs = 0 then None else Some (mark_chosen cc {markable xs} 0 xs))"
  by (simp add: latest_cacheable_content_block_def mark_first_block_chosen rev_filter [symmetric])

lemma message_blocks_set:
  "get_array message ''content'' = Some bs \<Longrightarrow> message_blocks (Value_set message ''content'' (JArray xs)) = xs"
  by (cases message) (auto simp: message_blocks_def get_array_def unwrap_or_def)

lemma all_blocks_simps [simp]:
  "all_blocks [] = []" "all_blocks (m # ms) = message_blocks m @ all_blocks ms" "all_blocks (ms @ ms') = all_blocks ms @ all_blocks ms'"
  by (simp_all add: all_blocks_def)

lemma content_latest:
  "Option.bind (get_array message ''content'') (latest_cacheable_content_block cc)
     = (if markable (message_blocks message) = 0 then None
        else Some (mark_chosen cc {markable (message_blocks message)} 0 (message_blocks message)))"
  by (cases "get_array message ''content''") (simp_all add: latest_chosen message_blocks_def unwrap_or_def)

lemma mark_first_message_chosen:
  "mark_first_message cc (rev ms) = None \<longleftrightarrow> markable (all_blocks ms) = 0"
  "mark_first_message cc (rev ms) = Some marked \<Longrightarrow>
     all_blocks (rev marked) = mark_chosen cc {markable (all_blocks ms)} 0 (all_blocks ms)"
proof (induction ms arbitrary: marked rule: rev_induct)
  case (snoc m ms)
  {
    case 1
    then show ?case using snoc(1) by (simp add: content_latest split: option.splits if_splits)
  next
    case 2
    let ?n = "markable (message_blocks m)"
    show ?case
    proof (cases "?n = 0")
      case True
      with 2 obtain marked' where m: "mark_first_message cc (rev ms) = Some marked'" "marked = m # marked'"
        by (auto simp: content_latest)
      have "mark_chosen cc {markable (all_blocks ms)} (markable (all_blocks ms)) (message_blocks m) = message_blocks m"
        using True by (intro mark_chosen_outside) auto
      with snoc(2) [OF m(1)] m True show ?thesis by (simp add: mark_chosen_append)
    next
      case False
      then have blocks: "get_array m ''content'' = Some (message_blocks m)"
        by (cases "get_array m ''content''") (simp_all add: message_blocks_def unwrap_or_def)
      have shift: "mark_chosen cc {k + j} (k + i) xs = mark_chosen cc {j} i xs" for k j i xs
        by (induction xs arbitrary: i) (auto simp flip: add_Suc_right)
      have "mark_chosen cc {markable (all_blocks ms) + ?n} 0 (all_blocks ms) = all_blocks ms"
        using False by (intro mark_chosen_outside) auto
      with 2 False message_blocks_set [OF blocks] shift [of "markable (all_blocks ms)" ?n 0] show ?thesis
        by (auto simp: content_latest mark_chosen_append)
    qed
  }
qed simp_all

lemma total_markable:
  "sum_list (map (\<lambda>m. markable (message_blocks m)) ms) = markable (all_blocks ms)"
  by (induction ms) simp_all

lemma mark_latest_chosen:
  "\<exists>ms'. mark_latest_cacheable_block cc ms =
      (if markable (all_blocks ms) = 0 then None else Some (markable (all_blocks ms)), ms')
    \<and> all_blocks ms' = mark_chosen cc {markable (all_blocks ms)} 0 (all_blocks ms)"
proof (cases "markable (all_blocks ms) = 0")
  case True
  then have "mark_chosen cc {markable (all_blocks ms)} 0 (all_blocks ms) = all_blocks ms"
    by (intro mark_chosen_outside) auto
  with True show ?thesis by (simp add: mark_latest_cacheable_block_def total_markable)
next
  case False
  then obtain marked where m: "mark_first_message cc (rev ms) = Some marked"
    using mark_first_message_chosen(1) [of cc ms] by auto
  from mark_first_message_chosen(2) [OF this] False m show ?thesis
    by (simp add: mark_latest_cacheable_block_def total_markable)
qed

lemma mark_block_at_chosen:
  "mark_block_at cc target seen xs =
     (if seen < target \<and> target \<le> seen + markable xs then Inr (mark_chosen cc {target} seen xs)
      else Inl (seen + markable xs))"
proof (induction xs arbitrary: seen)
  case (Cons x xs)
  have "mark_chosen cc {n} n xs = xs" for n by (intro mark_chosen_outside) auto
  from this [of "Suc seen"] this [of target] show ?case using Cons by (auto simp: le_less_Suc_eq)
qed simp

lemma mark_message_at_chosen:
  "all_blocks (mark_message_at cc target seen ms) = mark_chosen cc {target} seen (all_blocks ms)"
proof (induction ms arbitrary: seen)
  case (Cons m ms)
  show ?case
  proof (cases "get_array m ''content''")
    case None
    with Cons show ?thesis by (simp add: message_blocks_def unwrap_or_def)
  next
    case (Some bs)
    then have bs: "message_blocks m = bs" by (simp add: message_blocks_def unwrap_or_def)
    have "mark_chosen cc {target} (seen + markable bs) (all_blocks ms) = all_blocks ms" if "target \<le> seen + markable bs"
      using that by (intro mark_chosen_outside) auto
    moreover have "mark_chosen cc {target} seen bs = bs" if "\<not> (seen < target \<and> target \<le> seen + markable bs)"
      using that by (intro mark_chosen_outside) auto
    ultimately show ?thesis
      using Cons Some bs message_blocks_set [OF Some] by (simp add: mark_block_at_chosen mark_chosen_append)
  qed
qed simp

lemma marked_not_markable: "\<not> is_cacheable_transcript_block (Value_set block ''cache_control'' cc)"
  by (cases block) (simp_all add: is_cacheable_transcript_block_def)

lemma mark_chosen_twice:
  "j < i \<Longrightarrow> mark_chosen cc {j} n (mark_chosen cc {i} n xs) = mark_chosen cc {i, j} n xs"
proof (induction xs arbitrary: n)
  case (Cons x xs)
  have "mark_chosen cc {i} (Suc n) xs = xs" "mark_chosen cc {j} n xs = xs" "mark_chosen cc {i, j} (Suc n) xs = xs" if "Suc n = i"
    using that Cons.prems by (auto intro!: mark_chosen_outside)
  then show ?case using Cons by (auto simp: marked_not_markable)
qed simp

definition chosen_markers :: "nat \<Rightarrow> nat set" where
  "chosen_markers n = (if n \<le> 18 then {n} else {n, n - 18})"

lemma breakpoints_chosen:
  "all_blocks (add_transcript_cache_breakpoints ms)
     = mark_chosen cache_control_5m (chosen_markers (markable (all_blocks ms))) 0 (all_blocks ms)"
proof -
  let ?n = "markable (all_blocks ms)"
  obtain ms' where ms': "mark_latest_cacheable_block cache_control_5m ms = (if ?n = 0 then None else Some ?n, ms')"
    "all_blocks ms' = mark_chosen cache_control_5m {?n} 0 (all_blocks ms)"
    using mark_latest_chosen by blast
  show ?thesis
  proof (cases "?n \<le> 18")
    case True
    with ms' show ?thesis by (simp add: add_transcript_cache_breakpoints_def chosen_markers_def TRANSCRIPT_LOOKBACK_BLOCKS_def)
  next
    case False
    then have "all_blocks (mark_message_at cache_control_5m (?n - 18) 0 ms')
        = mark_chosen cache_control_5m {?n, ?n - 18} 0 (all_blocks ms)"
      unfolding mark_message_at_chosen ms'(2) by (intro mark_chosen_twice) simp
    moreover from False ms'(1) have "mark_latest_cacheable_block cache_control_5m ms = (Some ?n, ms')" by auto
    ultimately show ?thesis using False
      by (simp add: add_transcript_cache_breakpoints_def chosen_markers_def TRANSCRIPT_LOOKBACK_BLOCKS_def
          mark_cacheable_block_at_index_def)
  qed
qed

definition marked :: "Value list \<Rightarrow> nat" where
  "marked blocks = length (filter (\<lambda>block. Value_get block ''cache_control'' \<noteq> None) blocks)"

lemma marked_append [simp]: "marked (xs @ ys) = marked xs + marked ys" "marked [] = 0"
  by (simp_all add: marked_def)

lemma marked_chosen: "finite S \<Longrightarrow> marked (mark_chosen cc S n xs) \<le> marked xs + card (S \<inter> {n <..})"
proof (induction xs arbitrary: n)
  case (Cons x xs)
  have sub: "card (S \<inter> {Suc n <..}) \<le> card (S \<inter> {n <..})" using Cons.prems by (intro card_mono) auto
  have "card (S \<inter> {n <..}) = Suc (card (S \<inter> {Suc n <..}))" if "Suc n \<in> S"
  proof -
    have "S \<inter> {n <..} = insert (Suc n) (S \<inter> {Suc n <..})" using that by auto
    with Cons.prems show ?thesis by simp
  qed
  with Cons.IH [of n] Cons.IH [of "Suc n"] Cons.prems sub show ?case by (auto simp: marked_def)
qed simp

lemma marked_breakpoints: "marked (all_blocks (add_transcript_cache_breakpoints ms)) \<le> marked (all_blocks ms) + 2"
proof -
  have "card (chosen_markers n \<inter> {0 <..}) \<le> 2" for n
  proof -
    have "card (chosen_markers n \<inter> {0 <..}) \<le> card (chosen_markers n)"
      by (intro card_mono) (auto simp: chosen_markers_def)
    also have "\<dots> \<le> 2" by (auto simp: chosen_markers_def card_insert_if)
    finally show ?thesis .
  qed
  moreover have "finite (chosen_markers n)" for n by (simp add: chosen_markers_def)
  ultimately show ?thesis unfolding breakpoints_chosen using marked_chosen by (meson add_le_mono le_refl order_trans)
qed

section \<open>Bodies\<close>

definition is_object :: "Value \<Rightarrow> bool" where
  "is_object v \<longleftrightarrow> (\<exists>kvs. v = JObject kvs)"

lemma is_object_simps [simp]: "is_object (json_object kvs)" "is_object v \<Longrightarrow> is_object (Value_set v k x)"
  by (auto simp: is_object_def json_object_def)

lemma object_get_set: "is_object v \<Longrightarrow> Value_get (Value_set v k x) j = (if j = k then Some x else Value_get v j)"
  by (auto simp: is_object_def)

lemma set_if_object: "is_object v \<Longrightarrow> is_object (set_if c k x v)"
  "is_object v \<Longrightarrow> j \<noteq> k \<Longrightarrow> Value_get (set_if c k x v) j = Value_get v j"
  by (simp_all add: set_if_def object_get_set)

lemma effort_config_keeps:
  assumes "effort_config input body = Inr body'" and "is_object body"
  shows "is_object body'" and "k \<notin> {''thinking'', ''output_config''} \<Longrightarrow> Value_get body' k = Value_get body k"
  using assms by (auto simp: effort_config_def and_then_Inr_iff Let_def object_get_set set_if_object split: option.splits)

lemma request_body_parts:
  assumes "anthropic_request_body codec input = (Inr (body, replays) :: ('http, string) ProviderError + Value \<times> bool)"
  shows "is_object body"
    and "get_array body ''system'' = Some (anthropic_system_blocks (bi_prompt input) (bi_transcript input))"
    and "\<exists>ms. transcript_to_messages_for_request codec input = (Inr (ms, replays) :: ('http, string) ProviderError + Value list \<times> bool)
      \<and> get_array body ''messages'' = Some ms"
proof -
  from assms obtain ms body2 tools where
    ms: "transcript_to_messages_for_request codec input = (Inr (ms, replays) :: ('http, string) ProviderError + Value list \<times> bool)"
    and body2: "effort_config input (base_body input ms) = (Inr body2 :: ('http, string) ProviderError + Value)"
    and body: "body = set_if (bi_max_tokens input \<noteq> None) ''stream'' (JBool True) (add_tools tools
      (Value_set body2 ''system'' (JArray (anthropic_system_blocks (bi_prompt input) (bi_transcript input)))))"
    by (auto simp: anthropic_request_body_def and_then_Inr_iff)
  have "is_object (base_body input ms)" "Value_get (base_body input ms) ''messages'' = Some (JArray ms)"
    by (auto simp: base_body_def Let_def object_get_set split: option.split)
  with effort_config_keeps [OF body2] have b2: "is_object body2" "Value_get body2 ''messages'' = Some (JArray ms)" by simp_all
  show "is_object body" unfolding body using b2(1) by (simp add: set_if_object add_tools_def)
  show "get_array body ''system'' = Some (anthropic_system_blocks (bi_prompt input) (bi_transcript input))"
    unfolding body using b2(1) by (simp add: get_array_def set_if_object object_get_set add_tools_def)
  have "get_array body ''messages'' = Some ms"
    unfolding body using b2 by (simp add: get_array_def set_if_object object_get_set add_tools_def)
  with ms show "\<exists>ms. transcript_to_messages_for_request codec input = (Inr (ms, replays) :: ('http, string) ProviderError + Value list \<times> bool)
      \<and> get_array body ''messages'' = Some ms" by blast
qed

lemma try_map_append:
  "try_map f (xs @ ys) = and_then (try_map f xs) (\<lambda>a. and_then (try_map f ys) (\<lambda>b. Inr (a @ b)))"
  by (induction xs) (auto simp: and_then_def split: sum.splits)

lemma render_append:
  assumes "render_transcript_messages codec prompt xs = (Inr r :: ('http, string) ProviderError + Value list \<times> bool)"
    and "render_transcript_messages codec prompt ys = (Inr s :: ('http, string) ProviderError + Value list \<times> bool)"
  shows "render_transcript_messages codec prompt (xs @ ys)
    = (Inr (fst r @ fst s, snd r \<or> snd s) :: ('http, string) ProviderError + Value list \<times> bool)"
  using assms by (auto simp: render_transcript_messages_def try_map_append and_then_Inr_iff)

lemma message_blocks_user [simp]:
  "message_blocks (user_message bs) = bs" "message_blocks (assistant_message bs) = bs"
  by (simp_all add: message_blocks_def get_array_def unwrap_or_def)

lemma marked_text_block [simp]: "marked [text_block t] = 0"
  by (simp add: marked_def text_block_def)

lemma marked_dynamic: "marked (all_blocks (append_dynamic_context_message prompt ms)) = marked (all_blocks ms)"
  by (simp add: append_dynamic_context_message_def split: option.split)

lemma messages_for_request_marked:
  assumes "transcript_to_messages_for_request codec input = (Inr (ms, replays) :: ('http, string) ProviderError + Value list \<times> bool)"
  shows "\<exists>rendered. render_transcript_messages codec (bi_prompt input) (bi_transcript input)
      = (Inr (rendered, replays) :: ('http, string) ProviderError + Value list \<times> bool)
    \<and> marked (all_blocks ms) \<le> marked (all_blocks rendered) + 2"
proof (cases "bi_cache_transcript input \<and> bi_transcript_cache_prefix_len input \<noteq> None")
  case False
  with assms show ?thesis
    using marked_breakpoints
    by (auto simp: transcript_to_messages_for_request_def Let_def and_then_Inr_iff marked_dynamic split: if_splits option.splits)
next
  case True
  then obtain n where n: "bi_transcript_cache_prefix_len input = Some n" by auto
  let ?k = "min n (length (bi_transcript input))"
  from assms True n obtain r s where
    rs: "render_transcript_messages codec (bi_prompt input) (take ?k (bi_transcript input))
          = (Inr r :: ('http, string) ProviderError + Value list \<times> bool)"
      "render_transcript_messages codec (bi_prompt input) (drop ?k (bi_transcript input))
          = (Inr s :: ('http, string) ProviderError + Value list \<times> bool)"
    and ms: "ms = append_dynamic_context_message (bi_prompt input) (add_transcript_cache_breakpoints (fst r) @ fst s)"
      "replays = (snd r \<or> snd s)"
    by (simp add: transcript_to_messages_for_request_def Let_def and_then_Inr_iff) (metis fst_conv snd_conv)
  from render_append [OF rs] ms(2) have "render_transcript_messages codec (bi_prompt input) (bi_transcript input)
      = (Inr (fst r @ fst s, replays) :: ('http, string) ProviderError + Value list \<times> bool)" by simp
  with ms(1) marked_breakpoints [of "fst r"] show ?thesis by (simp add: marked_dynamic)
qed

lemma system_blocks_marked: "marked (anthropic_system_blocks prompt transcript) \<le> 1"
  by (auto simp: anthropic_system_blocks_def marked_def text_block_def split: option.split)

section \<open>Compaction requests\<close>

lemma retain_new_set: "set (retain_new seen xs) = set xs - set seen"
  by (induction seen xs rule: retain_new.induct) auto

lemma retain_new_distinct: "distinct (retain_new seen xs)"
  by (induction seen xs rule: retain_new.induct) (auto simp: retain_new_set)

definition result_id :: "Value \<Rightarrow> string option" where
  "result_id block = (if get_str block ''type'' = Some ''tool_result'' then get_str block ''tool_use_id'' else None)"

lemma synthetic_result_id [simp]: "result_id (synthetic_tool_result i) = Some i"
  by (simp add: result_id_def synthetic_tool_result_def get_str_def)

definition no_result :: "Value \<Rightarrow> bool" where
  "no_result block \<longleftrightarrow> get_str block ''type'' \<noteq> Some ''tool_result''"

lemma collect_results_eq:
  "collect_results ids blocks (existing, others) =
     (\<lambda>i. case existing i of Some b \<Rightarrow> Some b
        | None \<Rightarrow> if i \<in> set ids then find (\<lambda>b. result_id b = Some i) blocks else None,
      others @ filter no_result blocks)"
proof (induction blocks arbitrary: existing others)
  case Nil
  then show ?case by (auto simp: fun_eq_iff split: option.split)
next
  case (Cons b blocks)
  show ?case
  proof (cases "get_str b ''type'' = Some ''tool_result''")
    case False
    then have "result_id b = None" "no_result b" by (simp_all add: result_id_def no_result_def)
    with False Cons show ?thesis by (simp add: fun_eq_iff split: option.split)
  next
    case True
    then have "result_id b = get_str b ''tool_use_id''" "\<not> no_result b" by (simp_all add: result_id_def no_result_def)
    with True Cons show ?thesis
      by (cases "get_str b ''tool_use_id''") (auto simp: fun_eq_iff option_filter_def split: option.split)
  qed
qed

lemma take_results_eq:
  "distinct ids \<Longrightarrow> take_results existing ids = map (\<lambda>i. case existing i of Some b \<Rightarrow> b | None \<Rightarrow> synthetic_tool_result i) ids"
  by (induction existing ids rule: take_results.induct) (auto intro!: map_cong split: option.split)

text \<open>The result for an id: the first one among the blocks, or one that says it is unavailable.\<close>

definition result_for :: "Value list \<Rightarrow> string \<Rightarrow> Value" where
  "result_for blocks i = (case find (\<lambda>b. result_id b = Some i) blocks of Some b \<Rightarrow> b | None \<Rightarrow> synthetic_tool_result i)"

lemma result_for_id [simp]: "result_id (result_for blocks i) = Some i"
  by (auto simp: result_for_def find_Some_iff split: option.split)

lemma take_collected:
  assumes "collect_results ids blocks (Map.empty, []) = (existing, others)" and "distinct ids"
  shows "take_results existing ids = map (result_for blocks) ids" and "others = filter no_result blocks"
  using assms by (auto simp: collect_results_eq take_results_eq result_for_def)

lemma rposition_Some:
  assumes "rposition P xs = Some i"
  shows "i < length xs" "P (xs ! i)" "list_all (\<lambda>x. \<not> P x) (drop (Suc i) xs)"
proof -
  from assms obtain j where j: "position P (rev xs) = Some j" "i = length xs - 1 - j"
    by (auto simp: rposition_def)
  note p = position_SomeD [OF j(1)]
  then have jl: "j < length xs" by simp
  with j(2) show "i < length xs" by simp
  with p j(2) jl show "P (xs ! i)" by (simp add: rev_nth)
  have "\<not> P (xs ! k)" if "k > i" "k < length xs" for k
  proof -
    have "length xs - Suc k < j" using that j(2) jl by linarith
    with p have "\<not> P (rev xs ! (length xs - Suc k))" by blast
    with that show ?thesis by (simp add: rev_nth)
  qed
  then show "list_all (\<lambda>x. \<not> P x) (drop (Suc i) xs)" by (auto simp: list_all_length)
qed

lemma rposition_None: "rposition P xs = None \<Longrightarrow> list_all (\<lambda>x. \<not> P x) xs"
  by (auto simp: rposition_def position_None_iff list_all_iff)

definition open_calls :: "Value list \<Rightarrow> string list" where
  "open_calls ms = (case rposition (has_role ''assistant'') ms of
     Some i \<Rightarrow> retain_new [] (tool_use_ids (message_blocks (ms ! i))) | None \<Rightarrow> [])"

definition tail_start :: "Value list \<Rightarrow> nat" where
  "tail_start ms = (case rposition (has_role ''assistant'') ms of Some i \<Rightarrow> i + 1 | None \<Rightarrow> 0)"

definition conversation :: "Value list \<Rightarrow> bool" where
  "conversation ms \<longleftrightarrow> list_all (\<lambda>m. has_role ''user'' m \<or> has_role ''assistant'' m) ms"

lemma tail_is_user: "conversation ms \<Longrightarrow> list_all (has_role ''user'') (drop (tail_start ms) ms)"
proof (cases "rposition (has_role ''assistant'') ms")
  case None
  assume "conversation ms"
  with None rposition_None [OF None] show ?thesis by (auto simp: tail_start_def conversation_def list_all_iff)
next
  case (Some i)
  assume "conversation ms"
  moreover have "list_all (\<lambda>x. \<not> has_role ''assistant'' x) (drop (tail_start ms) ms)"
    using rposition_Some(3) [OF Some] Some by (simp add: tail_start_def)
  ultimately show ?thesis by (auto simp: conversation_def list_all_iff dest: in_set_dropD)
qed

lemma tail_start_le: "tail_start ms \<le> length ms"
  by (auto simp: tail_start_def dest: rposition_Some(1) split: option.split)

lemma has_role_messages [simp]:
  "has_role role (user_message bs) \<longleftrightarrow> role = ''user''" "has_role role (assistant_message bs) \<longleftrightarrow> role = ''assistant''"
  by (auto simp: has_role_def get_str_def)

lemma terminal_user_messages_eq:
  assumes "conversation ms"
  shows "terminal_user_messages ms =
    (let tail = drop (tail_start ms) ms in
     if tail = [] then ms @ [user_message (map synthetic_tool_result (open_calls ms) @ [text_block COMPACTION_TERMINAL_USER_INSTRUCTION])]
     else if open_calls ms = [] then ms
     else take (tail_start ms) ms
       @ [user_message (map (result_for (all_blocks tail)) (open_calls ms) @ filter no_result (all_blocks tail))])"
proof -
  have dist: "distinct (open_calls ms)" by (simp add: open_calls_def retain_new_distinct split: option.split)
  have req: "retain_new [] (tool_use_ids (case rposition (has_role ''assistant'') ms of Some i \<Rightarrow> message_blocks (ms ! i) | None \<Rightarrow> []))
      = open_calls ms" by (simp add: open_calls_def tool_use_ids_def List.map_filter_def split: option.split)
  have start: "(case rposition (has_role ''assistant'') ms of Some i \<Rightarrow> i + 1 | None \<Rightarrow> 0) = tail_start ms"
    by (simp add: tail_start_def)
  obtain existing others where c: "collect_results (open_calls ms) (all_blocks (drop (tail_start ms) ms)) (Map.empty, []) = (existing, others)"
    by fastforce
  show ?thesis
    unfolding terminal_user_messages_def Let_def req start all_blocks_def [symmetric] c
    using tail_is_user [OF assms] take_collected [OF c dist] by simp
qed

lemma terminal_user_messages_ok:
  assumes "conversation ms"
  defines "out \<equiv> terminal_user_messages ms"
  shows "take (tail_start ms) out = take (tail_start ms) ms"
    and "drop (tail_start ms) out \<noteq> []" and "list_all (has_role ''user'') (drop (tail_start ms) out)"
    and "open_calls ms \<noteq> [] \<Longrightarrow> \<exists>others. all_blocks (drop (tail_start ms) out)
      = map (result_for (all_blocks (drop (tail_start ms) ms))) (open_calls ms) @ others \<and> list_all no_result others"
    and "filter no_result (all_blocks (drop (tail_start ms) out)) = filter no_result (all_blocks (drop (tail_start ms) ms))
      @ (if drop (tail_start ms) ms = [] then [text_block COMPACTION_TERMINAL_USER_INSTRUCTION] else [])"
proof -
  let ?tail = "drop (tail_start ms) ms"
  have res: "\<not> no_result (result_for bs i)" "\<not> no_result (synthetic_tool_result i)" for bs i
    using result_for_id [of bs i] synthetic_result_id [of i] by (auto simp: no_result_def result_id_def split: if_splits)
  have none: "result_for [] = synthetic_tool_result" by (simp add: fun_eq_iff result_for_def)
  have plain: "no_result (text_block t)" for t by (simp add: no_result_def text_block_def get_str_def)
  note eq = terminal_user_messages_eq [OF assms(1), folded out_def]
  consider (empty) "?tail = []" "out = ms @ [user_message (map synthetic_tool_result (open_calls ms) @ [text_block COMPACTION_TERMINAL_USER_INSTRUCTION])]"
    | (same) "?tail \<noteq> []" "open_calls ms = []" "out = ms"
    | (answered) "?tail \<noteq> []" "open_calls ms \<noteq> []" "out = take (tail_start ms) ms
       @ [user_message (map (result_for (all_blocks ?tail)) (open_calls ms) @ filter no_result (all_blocks ?tail))]"
    using eq by (auto simp: Let_def split: if_splits)
  note kinds = this
  have le: "tail_start ms \<le> length ms" by (rule tail_start_le)
  show "take (tail_start ms) out = take (tail_start ms) ms" using kinds le by cases auto
  show "drop (tail_start ms) out \<noteq> []" using kinds le by cases auto
  show "list_all (has_role ''user'') (drop (tail_start ms) out)" using kinds le tail_is_user [OF assms(1)] by cases auto
  show "\<exists>others. all_blocks (drop (tail_start ms) out)
      = map (result_for (all_blocks ?tail)) (open_calls ms) @ others \<and> list_all no_result others" if "open_calls ms \<noteq> []"
    using kinds le that by cases (auto simp: none plain list_all_iff)
  show "filter no_result (all_blocks (drop (tail_start ms) out)) = filter no_result (all_blocks ?tail)
      @ (if ?tail = [] then [text_block COMPACTION_TERMINAL_USER_INSTRUCTION] else [])"
    using kinds le by cases (auto simp: res plain filter_empty_conv)
qed

lemma terminal_answers:
  assumes "conversation ms"
  shows "\<exists>pre post. terminal_user_messages ms = pre @ post \<and> post \<noteq> [] \<and> list_all (has_role ''user'') post
    \<and> (pre = [] \<or> has_role ''assistant'' (last pre))
    \<and> (let calls = (if pre = [] then [] else retain_new [] (tool_use_ids (message_blocks (last pre))))
       in calls \<noteq> [] \<longrightarrow> (\<exists>results others. all_blocks post = results @ others
            \<and> map result_id results = map Some calls \<and> list_all no_result others))"
proof -
  let ?out = "terminal_user_messages ms"
  let ?k = "tail_start ms"
  note ok = terminal_user_messages_ok [OF assms]
  have split: "?out = take ?k ms @ drop ?k ?out" using ok(1) by (metis append_take_drop_id)
  have pre: "take ?k ms = [] \<and> open_calls ms = []
      \<or> has_role ''assistant'' (last (take ?k ms))
        \<and> open_calls ms = retain_new [] (tool_use_ids (message_blocks (last (take ?k ms))))"
  proof (cases "rposition (has_role ''assistant'') ms")
    case None
    then show ?thesis by (simp add: tail_start_def open_calls_def)
  next
    case (Some i)
    with rposition_Some [OF Some] have "take ?k ms = take i ms @ [ms ! i]"
      by (simp add: tail_start_def take_Suc_conv_app_nth)
    with Some rposition_Some(2) [OF Some] show ?thesis by (simp add: open_calls_def)
  qed
  show ?thesis
  proof (intro exI conjI)
    show "?out = take ?k ms @ drop ?k ?out" by (rule split)
    show "take ?k ms = [] \<or> has_role ''assistant'' (last (take ?k ms))" using pre by blast
    show "let calls = (if take ?k ms = [] then [] else retain_new [] (tool_use_ids (message_blocks (last (take ?k ms)))))
       in calls \<noteq> [] \<longrightarrow> (\<exists>results others. all_blocks (drop ?k ?out) = results @ others
            \<and> map result_id results = map Some calls \<and> list_all no_result others)"
    proof (cases "take ?k ms = []")
      case False
      with pre have calls: "open_calls ms = retain_new [] (tool_use_ids (message_blocks (last (take ?k ms))))"
        by (auto simp: open_calls_def)
      have "\<exists>results others. all_blocks (drop ?k ?out) = results @ others
            \<and> map result_id results = map Some (open_calls ms) \<and> list_all no_result others" if "open_calls ms \<noteq> []"
      proof -
        from ok(4) [OF that] obtain others where
          o: "all_blocks (drop ?k ?out) = map (result_for (all_blocks (drop ?k ms))) (open_calls ms) @ others" "list_all no_result others"
          by blast
        have "map result_id (map (result_for (all_blocks (drop ?k ms))) (open_calls ms)) = map Some (open_calls ms)" by simp
        with o show ?thesis by blast
      qed
      with False calls show ?thesis by (simp add: Let_def)
    qed simp
  qed (use ok(2,3) in simp_all)
qed

abbreviation roles :: "Value list \<Rightarrow> string option list" where
  "roles ms \<equiv> map (\<lambda>m. get_str m ''role'') ms"

lemma conversation_roles: "conversation ms \<longleftrightarrow> set (roles ms) \<subseteq> {Some ''user'', Some ''assistant''}"
  by (auto simp: conversation_def has_role_def list_all_iff)

lemma role_set_content: "get_str (Value_set m ''content'' x) ''role'' = get_str m ''role''" if "get_array m ''content'' = Some bs"
  using that by (cases m) (auto simp: get_str_def get_array_def)

lemma mark_first_message_roles: "mark_first_message cc ms = Some ms' \<Longrightarrow> roles ms' = roles ms"
  by (induction ms arbitrary: ms') (auto simp: role_set_content bind_eq_Some_conv split: option.splits)

lemma mark_message_at_roles: "roles (mark_message_at cc target seen ms) = roles ms"
  by (induction ms arbitrary: seen) (auto simp: role_set_content split: option.split sum.split)

lemma breakpoints_roles: "roles (add_transcript_cache_breakpoints ms) = roles ms"
proof -
  obtain r ms' where l: "mark_latest_cacheable_block cache_control_5m ms = (r, ms')" by fastforce
  then have "roles ms' = roles ms"
    using mark_first_message_roles [of cache_control_5m "rev ms"]
    by (auto simp: mark_latest_cacheable_block_def Let_def rev_map [symmetric] split: if_splits option.splits)
  with l show ?thesis
    by (simp add: add_transcript_cache_breakpoints_def mark_cacheable_block_at_index_def mark_message_at_roles split: option.split)
qed

lemma conversation_append [simp]: "conversation (xs @ ys) \<longleftrightarrow> conversation xs \<and> conversation ys" "conversation []"
  by (simp_all add: conversation_def)

lemma conversation_messages [simp]: "conversation [user_message bs]" "conversation [assistant_message bs]"
  by (simp_all add: conversation_def)

lemma render_entry_conversation:
  "render_entry codec prompt entry = (Inr r :: ('http, string) ProviderError + Value list \<times> bool) \<Longrightarrow> conversation (fst r)"
  by (cases "me_item entry")
    (auto simp: render_entry_def and_then_Inr_iff Let_def conversation_def split: if_splits)

lemma render_conversation:
  assumes "render_transcript_messages codec prompt entries = (Inr r :: ('http, string) ProviderError + Value list \<times> bool)"
  shows "conversation (fst r)"
proof -
  from assms obtain rs where rs: "list_all2 (\<lambda>x y. render_entry codec prompt x = (Inr y :: ('http, string) ProviderError + Value list \<times> bool)) entries rs"
    and r: "fst r = concat (map fst rs)"
    by (auto simp: render_transcript_messages_def and_then_Inr_iff try_map_Inr_iff)
  from rs have "conversation (concat (map fst rs))"
    by (induction rule: list_all2_induct) (auto dest: render_entry_conversation)
  with r show ?thesis by simp
qed

lemma messages_for_request_conversation:
  assumes "transcript_to_messages_for_request codec input = (Inr (ms, replays) :: ('http, string) ProviderError + Value list \<times> bool)"
  shows "conversation ms"
proof -
  have dyn: "conversation (append_dynamic_context_message prompt xs) = conversation xs" for prompt xs
    by (simp add: append_dynamic_context_message_def split: option.split)
  have bp: "conversation (add_transcript_cache_breakpoints xs) = conversation xs" for xs
    by (simp add: conversation_roles breakpoints_roles del: set_map)
  have render: "conversation xs" if "render_transcript_messages codec prompt entries
      = (Inr (xs, c) :: ('http, string) ProviderError + Value list \<times> bool)" for prompt entries xs c
    using render_conversation [OF that] by simp
  from assms show ?thesis
    by (auto simp: transcript_to_messages_for_request_def Let_def and_then_Inr_iff dyn bp
        dest: render split: if_splits option.splits)
qed

lemma compaction_request_answers:
  assumes "compaction_body_with_metadata codec request metadata = (Inr body :: ('http, string) ProviderError + Value)"
  shows "\<exists>pre post. get_array body ''messages'' = Some (pre @ post) \<and> post \<noteq> [] \<and> list_all (has_role ''user'') post
    \<and> (pre = [] \<or> has_role ''assistant'' (last pre))
    \<and> (let calls = (if pre = [] then [] else retain_new [] (tool_use_ids (message_blocks (last pre))))
       in calls \<noteq> [] \<longrightarrow> (\<exists>results others. all_blocks post = results @ others
            \<and> map result_id results = map Some calls \<and> list_all no_result others))"
proof -
  from assms obtain input body0 replays ctx where
    b: "anthropic_request_body codec input = (Inr (body0, replays) :: ('http, string) ProviderError + Value \<times> bool)"
    and body: "body = Value_set (ensure_compaction_terminal_user_message body0) ''context_management'' ctx"
    by (auto simp: compaction_body_with_metadata_def and_then_Inr_iff split: if_splits)
  from request_body_parts(1,3) [OF b] obtain ms where
    ms: "is_object body0" "get_array body0 ''messages'' = Some ms"
    "transcript_to_messages_for_request codec input = (Inr (ms, replays) :: ('http, string) ProviderError + Value list \<times> bool)" by blast
  then have "get_array body ''messages'' = Some (terminal_user_messages ms)"
    unfolding body ensure_compaction_terminal_user_message_def by (simp add: get_array_def object_get_set)
  with terminal_answers [OF messages_for_request_conversation [OF ms(3)]] show ?thesis by metis
qed

text \<open>
  The threshold at which a transcript is compacted is 85 per cent of the model's window,
  rounded down, for every 64-bit window: no intermediate result overflows. Windows of a
  million tokens use half.
\<close>

lemma auto_compact_limit_exact:
  "unat (anthropic_auto_compact_limit window) = (if window = 1000000 then 500000 else unat window * 85 div 100)"
  by (simp add: anthropic_auto_compact_limit_def unat_limit)

end
