(* ===== verification/Anthropic_Cache.thy ===== *)
theory Anthropic_Cache
  imports Anthropic_Request
begin

text \<open>
  The cache of model metadata of \<open>agent-provider/src/anthropic.rs\<close> and the tasks that refresh it,
  as a transition system: every stretch of code under the lock of the cache is one step, and so
  are the end of a task and a waiter's reaction to it. A \<open>HashMap\<close> is a list of entries, whose
  order stands for the unspecified order of its iteration. Instants are nanoseconds.
\<close>

section \<open>The cache\<close>

definition MODEL_CACHE_CAPACITY :: nat where
  "MODEL_CACHE_CAPACITY = 64"

definition MODEL_CACHE_SUCCESS_TTL :: nat where
  "MODEL_CACHE_SUCCESS_TTL = 6 * 60 * 60 * 10 ^ 9"

definition MODEL_CACHE_FAILURE_TTL :: nat where
  "MODEL_CACHE_FAILURE_TTL = 60 * 10 ^ 9"

record CachedAnthropicModel =
  ca_fetched_at :: "nat option"
  ca_retry_after :: "nat option"
  ca_model :: "AnthropicModelMetadata option"
  ca_refresh :: "u64 option"
  ca_last_access :: u64

record AnthropicModelCacheState =
  kc_entries :: "(string \<times> CachedAnthropicModel) list"
  kc_next_generation :: u64
  kc_access_counter :: u64

definition AnthropicModelCacheState_default :: AnthropicModelCacheState where
  "AnthropicModelCacheState_default = \<lparr>kc_entries = [], kc_next_generation = 0, kc_access_counter = 0\<rparr>"

definition saturating_inc :: "u64 \<Rightarrow> u64" where
  "saturating_inc n = (if n = - 1 then n else n + 1)"

datatype ModelCacheDecision = ReturnModel "AnthropicModelMetadata option" | WaitFor u64 | StartRefresh u64

text \<open>\<open>min_by_key\<close>: the first of the smallest.\<close>

fun min_by_key :: "('a \<Rightarrow> 'k::linorder) \<Rightarrow> 'a list \<Rightarrow> 'a option" where
  "min_by_key f [] = None"
| "min_by_key f (x # xs) =
     (case min_by_key f xs of
        None \<Rightarrow> Some x
      | Some y \<Rightarrow> if f y < f x then Some y else Some x)"

definition evict_oldest_settled ::
  "(string \<times> CachedAnthropicModel) list \<Rightarrow> (string \<times> CachedAnthropicModel) list option" where
  "evict_oldest_settled entries =
     map_option (\<lambda>oldest. filter (\<lambda>e. fst e \<noteq> fst oldest) entries)
       (min_by_key (\<lambda>e. ca_last_access (snd e)) (filter (\<lambda>e. ca_refresh (snd e) = None) entries))"

lemma min_by_key_in: "min_by_key f xs = Some x \<Longrightarrow> x \<in> set xs"
  by (induction xs arbitrary: x) (auto split: option.splits if_splits)

lemma evict_shorter: "evict_oldest_settled entries = Some entries' \<Longrightarrow> length entries' < length entries"
  by (auto simp: evict_oldest_settled_def dest!: min_by_key_in intro!: length_filter_less)

text \<open>Evicts while there are at least \<open>n\<close> entries and one of them is settled.\<close>

function evict_while :: "nat \<Rightarrow> (string \<times> CachedAnthropicModel) list \<Rightarrow> (string \<times> CachedAnthropicModel) list" where
  "evict_while n entries =
     (if length entries \<ge> n
      then case evict_oldest_settled entries of None \<Rightarrow> entries | Some entries' \<Rightarrow> evict_while n entries'
      else entries)"
  by pat_completeness auto
termination
  by (relation "measure (\<lambda>(_, entries). length entries)") (auto dest: evict_shorter)

declare evict_while.simps [simp del]

definition evict_for_insert :: "AnthropicModelCacheState \<Rightarrow> AnthropicModelCacheState" where
  "evict_for_insert st = st\<lparr>kc_entries := evict_while MODEL_CACHE_CAPACITY (kc_entries st)\<rparr>"

definition trim_to_capacity :: "AnthropicModelCacheState \<Rightarrow> AnthropicModelCacheState" where
  "trim_to_capacity st = st\<lparr>kc_entries := evict_while (MODEL_CACHE_CAPACITY + 1) (kc_entries st)\<rparr>"

definition set_entry :: "string \<Rightarrow> CachedAnthropicModel \<Rightarrow> AnthropicModelCacheState \<Rightarrow> AnthropicModelCacheState" where
  "set_entry model e st =
     st\<lparr>kc_entries := map (\<lambda>kv. if fst kv = model then (model, e) else kv) (kc_entries st)\<rparr>"

definition start_refresh :: "string \<Rightarrow> CachedAnthropicModel \<Rightarrow> AnthropicModelCacheState \<Rightarrow> ModelCacheDecision \<times> AnthropicModelCacheState" where
  "start_refresh model cached st =
     (let generation = saturating_inc (kc_next_generation st);
          st = st\<lparr>kc_next_generation := generation\<rparr>
      in (StartRefresh generation, set_entry model (cached\<lparr>ca_retry_after := None, ca_refresh := Some generation\<rparr>) st))"

definition decision :: "string \<Rightarrow> nat \<Rightarrow> AnthropicModelCacheState \<Rightarrow> ModelCacheDecision \<times> AnthropicModelCacheState" where
  "decision model now st =
     (let st = st\<lparr>kc_access_counter := saturating_inc (kc_access_counter st)\<rparr>;
          last_access = kc_access_counter st
      in case map_of (kc_entries st) model of
           Some cached \<Rightarrow>
             let cached = cached\<lparr>ca_last_access := last_access\<rparr>;
                 st = set_entry model cached st
             in if (case (ca_model cached, ca_fetched_at cached) of
                      (Some _, Some fetched_at) \<Rightarrow> now - fetched_at < MODEL_CACHE_SUCCESS_TTL
                    | _ \<Rightarrow> False)
                then (ReturnModel (ca_model cached), st)
                else if (case ca_retry_after cached of Some retry_after \<Rightarrow> now < retry_after | None \<Rightarrow> False)
                then (ReturnModel (ca_model cached), st)
                else (case ca_refresh cached of
                        Some refresh \<Rightarrow> (WaitFor refresh, st)
                      | None \<Rightarrow> start_refresh model cached st)
         | None \<Rightarrow>
             let cached = \<lparr>ca_fetched_at = None, ca_retry_after = None, ca_model = None, ca_refresh = None,
                   ca_last_access = last_access\<rparr>;
                 st = evict_for_insert st
             in start_refresh model cached (st\<lparr>kc_entries := kc_entries st @ [(model, cached)]\<rparr>))"

definition commit_refresh ::
  "string \<Rightarrow> u64 \<Rightarrow> AnthropicModelMetadata option \<Rightarrow> nat \<Rightarrow> AnthropicModelCacheState
     \<Rightarrow> AnthropicModelMetadata option \<times> AnthropicModelCacheState" where
  "commit_refresh model generation resolved now st =
     (let st = st\<lparr>kc_access_counter := saturating_inc (kc_access_counter st)\<rparr>;
          last_access = kc_access_counter st
      in case map_of (kc_entries st) model of
           None \<Rightarrow> (resolved, st)
         | Some cached \<Rightarrow>
             if ca_refresh cached \<noteq> Some generation then (ca_model cached, st)
             else
               let cached = cached\<lparr>ca_refresh := None, ca_last_access := last_access\<rparr>;
                   cached = (case resolved of
                       Some metadata \<Rightarrow> cached\<lparr>ca_model := Some metadata, ca_fetched_at := Some now, ca_retry_after := None\<rparr>
                     | None \<Rightarrow> cached\<lparr>ca_retry_after := Some (now + MODEL_CACHE_FAILURE_TTL)\<rparr>)
               in (ca_model cached, trim_to_capacity (set_entry model cached st)))"

definition abandon_refresh :: "string \<Rightarrow> u64 \<Rightarrow> AnthropicModelCacheState \<Rightarrow> AnthropicModelCacheState" where
  "abandon_refresh model generation st =
     (case map_of (kc_entries st) model of
        None \<Rightarrow> st
      | Some cached \<Rightarrow>
          if ca_refresh cached = Some generation
          then trim_to_capacity (set_entry model (cached\<lparr>ca_refresh := None\<rparr>) st)
          else st)"

section \<open>The tasks\<close>

text \<open>
  The state of a refresh as its watch channel shows it: running, committed to the cache but not
  yet announced, announced, or ended without an announcement.
\<close>

datatype refresh_status =
    Running
  | Committed "AnthropicModelMetadata option"
  | Finished "AnthropicModelMetadata option"
  | ChannelClosed

record refresh_world =
  rw_cache :: AnthropicModelCacheState
  rw_refreshes :: "u64 \<rightharpoonup> string \<times> refresh_status"

definition refresh_world_init :: refresh_world where
  "refresh_world_init = \<lparr>rw_cache = AnthropicModelCacheState_default, rw_refreshes = Map.empty\<rparr>"

text \<open>\<open>resolved_model_metadata\<close> asks the cache and spawns a task if it has to.\<close>

definition ask :: "string \<Rightarrow> nat \<Rightarrow> refresh_world \<Rightarrow> refresh_world" where
  "ask model now w =
     (case decision model now (rw_cache w) of
        (StartRefresh generation, cache) \<Rightarrow>
          w\<lparr>rw_cache := cache, rw_refreshes := (rw_refreshes w)(generation \<mapsto> (model, Running))\<rparr>
      | (_, cache) \<Rightarrow> w\<lparr>rw_cache := cache\<rparr>)"

text \<open>Fewer than \<open>2 ^ 64\<close> refreshes are ever started, so that generations do not repeat.\<close>

inductive world_step :: "refresh_world \<Rightarrow> refresh_world \<Rightarrow> bool" where
  asked: "kc_next_generation (rw_cache w) \<noteq> - 1 \<Longrightarrow> world_step w (ask model now w)"
| committed: "rw_refreshes w generation = Some (model, Running) \<Longrightarrow>
     commit_refresh model generation resolved now (rw_cache w) = (effective, cache) \<Longrightarrow>
     world_step w (w\<lparr>rw_cache := cache, rw_refreshes := (rw_refreshes w)(generation \<mapsto> (model, Committed effective))\<rparr>)"
| announced: "rw_refreshes w generation = Some (model, Committed effective) \<Longrightarrow>
     world_step w (w\<lparr>rw_refreshes := (rw_refreshes w)(generation \<mapsto> (model, Finished effective))\<rparr>)"
| ended: "rw_refreshes w generation = Some (model, status) \<Longrightarrow> status = Running \<or> (\<exists>e. status = Committed e) \<Longrightarrow>
     world_step w (w\<lparr>rw_refreshes := (rw_refreshes w)(generation \<mapsto> (model, ChannelClosed))\<rparr>)"
| abandoned: "rw_refreshes w generation = Some (model, ChannelClosed) \<Longrightarrow>
     world_step w (w\<lparr>rw_cache := abandon_refresh model generation (rw_cache w)\<rparr>)"

inductive world_reachable :: "refresh_world \<Rightarrow> bool" where
  world_init: "world_reachable refresh_world_init"
| world_next: "world_reachable w \<Longrightarrow> world_step w w' \<Longrightarrow> world_reachable w'"

section \<open>One refresh at a time\<close>

lemma map_of_drop_key: "map_of (filter (\<lambda>e. fst e \<noteq> k) es) m = (if m = k then None else map_of es m)"
  by (induction es) auto

definition evicts :: "(string \<times> CachedAnthropicModel) list \<Rightarrow> (string \<times> CachedAnthropicModel) list \<Rightarrow> bool" where
  "evicts es es' \<longleftrightarrow> (distinct (map fst es) \<longrightarrow> distinct (map fst es'))
     \<and> (\<forall>m e. map_of es' m = Some e \<longrightarrow> map_of es m = Some e)
     \<and> (\<forall>m e. distinct (map fst es) \<longrightarrow> map_of es m = Some e \<longrightarrow> ca_refresh e \<noteq> None \<longrightarrow> map_of es' m = Some e)"

lemma evicts_refl [simp]: "evicts es es"
  by (simp add: evicts_def)

lemma evicts_trans: "evicts es es1 \<Longrightarrow> evicts es1 es2 \<Longrightarrow> evicts es es2"
  unfolding evicts_def by blast

lemma evict_oldest_evicts: "evict_oldest_settled es = Some es' \<Longrightarrow> evicts es es'"
proof -
  assume "evict_oldest_settled es = Some es'"
  then obtain k e where k: "(k, e) \<in> set es" "ca_refresh e = None" "es' = filter (\<lambda>x. fst x \<noteq> k) es"
    by (auto simp: evict_oldest_settled_def dest!: min_by_key_in)
  have "m \<noteq> k" if "distinct (map fst es)" "map_of es m = Some x" "ca_refresh x \<noteq> None" for m x
    using that k by (metis map_of_eq_Some_iff option.inject)
  with k(3) show ?thesis
    by (auto simp: evicts_def map_of_drop_key distinct_map inj_on_def split: if_splits)
qed

definition all_refreshing :: "(string \<times> CachedAnthropicModel) list \<Rightarrow> bool" where
  "all_refreshing es \<longleftrightarrow> list_all (\<lambda>e. ca_refresh (snd e) \<noteq> None) es"

lemma evict_oldest_None: "evict_oldest_settled es = None \<Longrightarrow> all_refreshing es"
proof -
  have "min_by_key f xs = None \<longleftrightarrow> xs = []" for f :: "string \<times> CachedAnthropicModel \<Rightarrow> u64" and xs
    by (cases xs) (auto split: option.splits)
  then show "evict_oldest_settled es = None \<Longrightarrow> ?thesis"
    by (auto simp: evict_oldest_settled_def filter_empty_conv all_refreshing_def list_all_iff)
qed

lemma evict_while_ok:
  "evicts es (evict_while n es) \<and> (length (evict_while n es) < n \<or> all_refreshing (evict_while n es))"
proof (induction n es rule: evict_while.induct)
  case (1 n es)
  then show ?case
    by (cases "evict_oldest_settled es")
      (auto simp: evict_while.simps [of n es] evict_oldest_None dest: evict_oldest_evicts intro: evicts_trans)
qed

abbreviation entry :: "AnthropicModelCacheState \<Rightarrow> string \<Rightarrow> CachedAnthropicModel option" where
  "entry c m \<equiv> map_of (kc_entries c) m"

text \<open>The refresh in flight for a model.\<close>

definition in_flight :: "AnthropicModelCacheState \<Rightarrow> string \<rightharpoonup> u64" where
  "in_flight c m = Option.bind (entry c m) ca_refresh"

definition cache_ok :: "AnthropicModelCacheState \<Rightarrow> bool" where
  "cache_ok c \<longleftrightarrow> distinct (map fst (kc_entries c))
     \<and> (length (kc_entries c) \<le> MODEL_CACHE_CAPACITY \<or> all_refreshing (kc_entries c))"

lemma entry_set_entry [simp]:
  "entry (set_entry model e c) m = (if m = model \<and> entry c model \<noteq> None then Some e else entry c m)"
proof -
  have "map_of (map (\<lambda>kv. if fst kv = model then (model, e) else kv) es) m
      = (if m = model \<and> map_of es model \<noteq> None then Some e else map_of es m)" for es
    by (induction es) auto
  then show ?thesis by (simp add: set_entry_def)
qed

lemma set_entry_keys [simp]:
  "map fst (kc_entries (set_entry model e c)) = map fst (kc_entries c)"
  "length (kc_entries (set_entry model e c)) = length (kc_entries c)"
  "kc_next_generation (set_entry model e c) = kc_next_generation c"
  by (auto simp: set_entry_def)

lemma all_refreshing_iff:
  "distinct (map fst (kc_entries c)) \<Longrightarrow>
     all_refreshing (kc_entries c) \<longleftrightarrow> (\<forall>m. entry c m \<noteq> None \<longrightarrow> in_flight c m \<noteq> None)"
proof -
  assume d: "distinct (map fst (kc_entries c))"
  have "all_refreshing (kc_entries c) \<longleftrightarrow> (\<forall>m e. (m, e) \<in> set (kc_entries c) \<longrightarrow> ca_refresh e \<noteq> None)"
    by (auto simp: all_refreshing_def list_all_iff)
  also have "\<dots> \<longleftrightarrow> (\<forall>m e. entry c m = Some e \<longrightarrow> ca_refresh e \<noteq> None)"
    using d by (simp only: map_of_eq_Some_iff)
  also have "\<dots> \<longleftrightarrow> (\<forall>m. entry c m \<noteq> None \<longrightarrow> in_flight c m \<noteq> None)"
    by (auto simp: in_flight_def)
  finally show ?thesis .
qed

lemma in_flight_evicts:
  assumes "evicts (kc_entries c) (kc_entries c')" and "distinct (map fst (kc_entries c))"
  shows "in_flight c' = in_flight c"
proof
  fix m
  show "in_flight c' m = in_flight c m"
  proof (cases "entry c m")
    case None
    with assms(1) have "entry c' m = None" unfolding evicts_def by (metis option.exhaust option.simps(3))
    with None show ?thesis by (simp add: in_flight_def)
  next
    case (Some e)
    with assms(1) have "entry c' m = None \<or> entry c' m = Some e" unfolding evicts_def by (metis option.exhaust option.inject)
    moreover have "entry c' m = Some e" if "ca_refresh e \<noteq> None"
      using assms Some that unfolding evicts_def by blast
    ultimately show ?thesis using Some by (cases "ca_refresh e") (auto simp: in_flight_def)
  qed
qed

lemma in_flight_set_entry:
  "entry c m = Some e \<Longrightarrow> in_flight (set_entry m e' c) = (in_flight c)(m := ca_refresh e')"
  by (auto simp: in_flight_def fun_eq_iff)

lemma cache_ok_set_entry:
  assumes "cache_ok c" and "entry c m = Some e" and "ca_refresh e \<noteq> None \<Longrightarrow> ca_refresh e' \<noteq> None"
  shows "cache_ok (set_entry m e' c)"
proof -
  have d: "distinct (map fst (kc_entries c))" using assms(1) by (simp add: cache_ok_def)
  have "all_refreshing (kc_entries (set_entry m e' c))" if "all_refreshing (kc_entries c)"
  proof -
    have "distinct (map fst (kc_entries (set_entry m e' c)))" using d by simp
    from all_refreshing_iff [OF this] that assms(2,3) show ?thesis
      unfolding all_refreshing_iff [OF d] in_flight_set_entry [OF assms(2)]
      by (auto simp: in_flight_def split: if_splits)
  qed
  with assms(1) show ?thesis by (auto simp: cache_ok_def)
qed

lemma trim_ok:
  assumes "distinct (map fst (kc_entries c))"
  shows "cache_ok (trim_to_capacity c)" and "in_flight (trim_to_capacity c) = in_flight c"
    and "kc_next_generation (trim_to_capacity c) = kc_next_generation c"
proof -
  note ok = evict_while_ok [of "kc_entries c" "MODEL_CACHE_CAPACITY + 1"]
  with assms show "cache_ok (trim_to_capacity c)" by (auto simp: cache_ok_def trim_to_capacity_def evicts_def)
  show "in_flight (trim_to_capacity c) = in_flight c"
    using ok assms by (intro in_flight_evicts) (simp_all add: trim_to_capacity_def)
qed (simp add: trim_to_capacity_def)

lemma start_refresh_ok:
  assumes "distinct (map fst (kc_entries c))" and "entry c m = Some e"
    and "length (kc_entries c) \<le> MODEL_CACHE_CAPACITY \<or> (\<forall>m'. m' \<noteq> m \<longrightarrow> entry c m' \<noteq> None \<longrightarrow> in_flight c m' \<noteq> None)"
    and "start_refresh m e c = (d, c')"
  shows "cache_ok c'" and "d = StartRefresh (saturating_inc (kc_next_generation c))"
    and "in_flight c' = (in_flight c)(m \<mapsto> saturating_inc (kc_next_generation c))"
    and "kc_next_generation c' = saturating_inc (kc_next_generation c)"
proof -
  let ?g = "saturating_inc (kc_next_generation c)"
  let ?c = "c\<lparr>kc_next_generation := ?g\<rparr>"
  let ?e = "e\<lparr>ca_retry_after := None, ca_refresh := Some ?g\<rparr>"
  from assms(4) have c': "c' = set_entry m ?e ?c" and "d = StartRefresh ?g" by (simp_all add: start_refresh_def Let_def)
  then show "d = StartRefresh ?g" "kc_next_generation c' = ?g" by simp_all
  have e: "entry ?c m = Some e" using assms(2) by simp
  have same: "in_flight ?c = in_flight c" by (simp add: in_flight_def fun_eq_iff)
  show fl: "in_flight c' = (in_flight c)(m \<mapsto> ?g)" unfolding c' in_flight_set_entry [OF e] same by simp
  have d: "distinct (map fst (kc_entries c'))" using assms(1) by (simp add: c')
  have "all_refreshing (kc_entries c')" if "\<forall>m'. m' \<noteq> m \<longrightarrow> entry c m' \<noteq> None \<longrightarrow> in_flight c m' \<noteq> None"
    unfolding all_refreshing_iff [OF d] fl using that by (auto simp: c' split: if_splits)
  with assms(1,3) d show "cache_ok c'" by (auto simp: cache_ok_def c')
qed

lemma touch_ok:
  "cache_ok (c\<lparr>kc_access_counter := n\<rparr>) = cache_ok c" "in_flight (c\<lparr>kc_access_counter := n\<rparr>) = in_flight c"
  by (simp_all add: cache_ok_def in_flight_def fun_eq_iff)

text \<open>A refresh starts only where none is in flight, under a new generation.\<close>

definition starts :: "string \<Rightarrow> AnthropicModelCacheState \<Rightarrow> ModelCacheDecision \<Rightarrow> AnthropicModelCacheState \<Rightarrow> bool" where
  "starts m c d c' \<longleftrightarrow> (let g = saturating_inc (kc_next_generation c) in
     d = StartRefresh g \<and> kc_next_generation c' = g \<and> in_flight c m = None \<and> in_flight c' = (in_flight c)(m \<mapsto> g))"

lemma start_new_ok:
  assumes "cache_ok c" and "entry c m = None" and "ca_refresh e = None"
    and "start_refresh m e ((evict_for_insert c)\<lparr>kc_entries := kc_entries (evict_for_insert c) @ [(m, e)]\<rparr>) = (d, c')"
  shows "cache_ok c'" and "starts m c d c'"
proof -
  let ?c2 = "evict_for_insert c"
  let ?c3 = "?c2\<lparr>kc_entries := kc_entries ?c2 @ [(m, e)]\<rparr>"
  have dc: "distinct (map fst (kc_entries c))" using assms(1) by (simp add: cache_ok_def)
  have ev: "evicts (kc_entries c) (kc_entries ?c2)"
    "length (kc_entries ?c2) < MODEL_CACHE_CAPACITY \<or> all_refreshing (kc_entries ?c2)"
    using evict_while_ok [of "kc_entries c" MODEL_CACHE_CAPACITY] by (simp_all add: evict_for_insert_def)
  have gen: "kc_next_generation ?c3 = kc_next_generation c" by (simp add: evict_for_insert_def)
  from ev(1) assms(2) have none: "entry ?c2 m = None" unfolding evicts_def by (metis option.exhaust option.simps(3))
  from ev(1) dc have d2: "distinct (map fst (kc_entries ?c2))" by (simp add: evicts_def)
  with none have d3: "distinct (map fst (kc_entries ?c3))" by (auto simp: map_of_eq_None_iff)
  have e3: "entry ?c3 m = Some e" and other: "m' \<noteq> m \<Longrightarrow> entry ?c3 m' = entry ?c2 m'" for m'
    using none by (auto simp: map_add_def split: option.split)
  have fl: "in_flight ?c3 = in_flight c"
  proof
    fix m'
    show "in_flight ?c3 m' = in_flight c m'"
      using e3 other [of m'] assms(2,3) in_flight_evicts [OF ev(1) dc]
      by (cases "m' = m") (auto simp: in_flight_def fun_eq_iff)
  qed
  have cap: "length (kc_entries ?c3) \<le> MODEL_CACHE_CAPACITY
      \<or> (\<forall>m'. m' \<noteq> m \<longrightarrow> entry ?c3 m' \<noteq> None \<longrightarrow> in_flight ?c3 m' \<noteq> None)"
    using ev(2) all_refreshing_iff [OF d2] other by (auto simp: in_flight_def)
  note start = start_refresh_ok [OF d3 e3 cap assms(4)]
  show "cache_ok c'" by (rule start(1))
  have "in_flight c m = None" using assms(2) by (simp add: in_flight_def)
  with start(2-4) show "starts m c d c'" by (simp add: starts_def gen fl)
qed

lemma decision_ok:
  assumes ok: "cache_ok c" and dec: "decision m now c = (d, c')"
  shows "cache_ok c'" and "starts m c d c' \<or> ((\<forall>g. d \<noteq> StartRefresh g) \<and> kc_next_generation c' = kc_next_generation c
    \<and> in_flight c' = in_flight c \<and> (\<forall>g. d = WaitFor g \<longrightarrow> in_flight c m = Some g))"
proof -
  let ?c1 = "c\<lparr>kc_access_counter := saturating_inc (kc_access_counter c)\<rparr>"
  have ok1: "cache_ok ?c1" using ok by (simp add: touch_ok)
  have "cache_ok c' \<and> (starts m c d c' \<or> ((\<forall>g. d \<noteq> StartRefresh g) \<and> kc_next_generation c' = kc_next_generation c
    \<and> in_flight c' = in_flight c \<and> (\<forall>g. d = WaitFor g \<longrightarrow> in_flight c m = Some g)))"
  proof (cases "entry c m")
    case None
    with dec have st: "start_refresh m
        \<lparr>ca_fetched_at = None, ca_retry_after = None, ca_model = None, ca_refresh = None,
         ca_last_access = saturating_inc (kc_access_counter c)\<rparr>
        ((evict_for_insert ?c1)\<lparr>kc_entries := kc_entries (evict_for_insert ?c1)
          @ [(m, \<lparr>ca_fetched_at = None, ca_retry_after = None, ca_model = None, ca_refresh = None,
              ca_last_access = saturating_inc (kc_access_counter c)\<rparr>)]\<rparr>) = (d, c')"
      by (simp add: decision_def Let_def)
    have "entry ?c1 m = None" using None by simp
    from start_new_ok [OF ok1 this _ st] show ?thesis by (simp add: starts_def touch_ok Let_def)
  next
    case (Some e)
    let ?e = "e\<lparr>ca_last_access := saturating_inc (kc_access_counter c)\<rparr>"
    let ?c2 = "set_entry m ?e ?c1"
    have e1: "entry ?c1 m = Some e" using Some by simp
    have ok2: "cache_ok ?c2" by (rule cache_ok_set_entry [OF ok1 e1]) simp
    have fl: "in_flight ?c2 = in_flight c"
      unfolding in_flight_set_entry [OF e1] touch_ok using Some by (auto simp: fun_eq_iff in_flight_def)
    have e2: "entry ?c2 m = Some ?e" using Some by simp
    have st: "cache_ok x \<and> starts m c y x" if "start_refresh m ?e ?c2 = (y, x)" "ca_refresh e = None" for x y
    proof -
      have d2: "distinct (map fst (kc_entries ?c2))" using ok2 by (simp only: cache_ok_def)
      have "length (kc_entries ?c2) \<le> MODEL_CACHE_CAPACITY
        \<or> (\<forall>m'. m' \<noteq> m \<longrightarrow> entry ?c2 m' \<noteq> None \<longrightarrow> in_flight ?c2 m' \<noteq> None)"
        using ok2 all_refreshing_iff [OF d2] unfolding cache_ok_def by blast
      note start = start_refresh_ok [OF d2 e2 this that(1)]
      have "in_flight c m = None" using Some that(2) by (simp add: in_flight_def)
      with start show ?thesis by (simp add: starts_def fl Let_def)
    qed
    from dec Some consider "(\<exists>v. d = ReturnModel v) \<and> c' = ?c2" | g where "d = WaitFor g" "ca_refresh e = Some g" "c' = ?c2"
      | "start_refresh m ?e ?c2 = (d, c')" "ca_refresh e = None"
      by (auto simp: decision_def Let_def split: if_splits option.splits)
    then show ?thesis
      by cases (use ok2 fl st Some in \<open>auto simp: in_flight_def\<close>)
  qed
  then show "cache_ok c'" "starts m c d c' \<or> ((\<forall>g. d \<noteq> StartRefresh g) \<and> kc_next_generation c' = kc_next_generation c
    \<and> in_flight c' = in_flight c \<and> (\<forall>g. d = WaitFor g \<longrightarrow> in_flight c m = Some g))" by blast+
qed

lemma settle_ok:
  assumes "cache_ok c" and "entry c m = Some e" and "ca_refresh e' = None"
  shows "cache_ok (trim_to_capacity (set_entry m e' c))"
    and "in_flight (trim_to_capacity (set_entry m e' c)) = (in_flight c)(m := None)"
    and "kc_next_generation (trim_to_capacity (set_entry m e' c)) = kc_next_generation c"
proof -
  have d: "distinct (map fst (kc_entries (set_entry m e' c)))" using assms(1) by (simp add: cache_ok_def)
  note t = trim_ok [OF d]
  show "cache_ok (trim_to_capacity (set_entry m e' c))" by (rule t(1))
  show "in_flight (trim_to_capacity (set_entry m e' c)) = (in_flight c)(m := None)"
    unfolding t(2) in_flight_set_entry [OF assms(2)] assms(3) ..
  show "kc_next_generation (trim_to_capacity (set_entry m e' c)) = kc_next_generation c" unfolding t(3) by simp
qed

definition settles :: "string \<Rightarrow> u64 \<Rightarrow> AnthropicModelCacheState \<Rightarrow> AnthropicModelCacheState \<Rightarrow> bool" where
  "settles m g c c' \<longleftrightarrow> cache_ok c' \<and> kc_next_generation c' = kc_next_generation c
     \<and> in_flight c' = (if in_flight c m = Some g then (in_flight c)(m := None) else in_flight c)"

lemma abandon_ok: "cache_ok c \<Longrightarrow> settles m g c (abandon_refresh m g c)"
  by (cases "entry c m") (auto simp: abandon_refresh_def settles_def settle_ok in_flight_def)

lemma commit_ok:
  assumes "cache_ok c" and "commit_refresh m g resolved now c = (effective, c')"
  shows "settles m g c c'"
proof (cases "in_flight c m = Some g")
  case True
  let ?c1 = "c\<lparr>kc_access_counter := saturating_inc (kc_access_counter c)\<rparr>"
  from True obtain e where e: "entry c m = Some e" "ca_refresh e = Some g" by (auto simp: in_flight_def bind_eq_Some_conv)
  define e' where "e' = (let e' = e\<lparr>ca_refresh := None, ca_last_access := saturating_inc (kc_access_counter c)\<rparr> in case resolved of
      Some metadata \<Rightarrow> e'\<lparr>ca_model := Some metadata, ca_fetched_at := Some now, ca_retry_after := None\<rparr>
    | None \<Rightarrow> e'\<lparr>ca_retry_after := Some (now + MODEL_CACHE_FAILURE_TTL)\<rparr>)"
  have e': "ca_refresh e' = None" "c' = trim_to_capacity (set_entry m e' ?c1)"
    using assms(2) e by (simp_all add: e'_def commit_refresh_def Let_def split: option.splits)
  have "cache_ok ?c1" "entry ?c1 m = Some e" using assms(1) e(1) by (simp_all add: touch_ok)
  from settle_ok [OF this e'(1)] True e'(2) show ?thesis by (simp add: settles_def touch_ok)
next
  case False
  with assms show ?thesis
    by (cases "entry c m") (auto simp: commit_refresh_def Let_def settles_def touch_ok in_flight_def)
qed

definition world_ok :: "refresh_world \<Rightarrow> bool" where
  "world_ok w \<longleftrightarrow> cache_ok (rw_cache w)
     \<and> (\<forall>g m. rw_refreshes w g = Some (m, Running) \<longrightarrow> in_flight (rw_cache w) m = Some g)
     \<and> (\<forall>m g. in_flight (rw_cache w) m = Some g \<longrightarrow>
          rw_refreshes w g = Some (m, Running) \<or> rw_refreshes w g = Some (m, ChannelClosed))
     \<and> (\<forall>g. rw_refreshes w g \<noteq> None \<longrightarrow> g \<le> kc_next_generation (rw_cache w))"

lemma world_okD:
  assumes "world_ok w"
  shows "cache_ok (rw_cache w)"
    and "rw_refreshes w g = Some (m, Running) \<Longrightarrow> in_flight (rw_cache w) m = Some g"
    and "in_flight (rw_cache w) m = Some g \<Longrightarrow> rw_refreshes w g = Some (m, Running) \<or> rw_refreshes w g = Some (m, ChannelClosed)"
    and "rw_refreshes w g = Some r \<Longrightarrow> g \<le> kc_next_generation (rw_cache w)"
  using assms unfolding world_ok_def by blast+

lemma new_generation:
  assumes "world_ok w" and "kc_next_generation (rw_cache w) \<noteq> - 1"
  defines "g \<equiv> saturating_inc (kc_next_generation (rw_cache w))"
  shows "rw_refreshes w g = None" and "kc_next_generation (rw_cache w) < g"
proof -
  show less: "kc_next_generation (rw_cache w) < g"
  proof -
    let ?n = "kc_next_generation (rw_cache w)"
    have "unat ?n \<noteq> unat (- 1 :: u64)" using assms(2) by (simp only: word_unat_eq_iff [symmetric] not_False_eq_True)
    moreover have "unat (- 1 :: u64) = 2 ^ 64 - 1" by (simp add: unsigned_minus_1_eq_mask mask_eq_exp_minus_1)
    moreover have "unat ?n < 2 ^ 64" using unsigned_less [of ?n, where 'a = nat] by simp
    ultimately have "unat ?n < 2 ^ 64 - 1" by simp
    then show ?thesis using assms(2) by (simp add: g_def saturating_inc_def word_less_nat_alt unat_Suc_u64)
  qed
  show "rw_refreshes w g = None"
  proof (rule ccontr)
    assume "rw_refreshes w g \<noteq> None"
    then obtain r where "rw_refreshes w g = Some r" by auto
    from world_okD(4) [OF assms(1) this] less show False by simp
  qed
qed

lemma ask_ok:
  assumes ok: "world_ok w" and bound: "kc_next_generation (rw_cache w) \<noteq> - 1"
  shows "world_ok (ask m now w)"
proof -
  obtain d c where dec: "decision m now (rw_cache w) = (d, c)" by fastforce
  note dok = decision_ok [OF world_okD(1) [OF ok] dec]
  show ?thesis
  proof (cases "starts m (rw_cache w) d c")
    case False
    with dok(2) have "ask m now w = w\<lparr>rw_cache := c\<rparr>" "kc_next_generation c = kc_next_generation (rw_cache w)"
      "in_flight c = in_flight (rw_cache w)"
      by (cases d; simp add: ask_def dec)+
    with ok dok(1) show ?thesis by (simp add: world_ok_def)
  next
    case True
    define g where "g = saturating_inc (kc_next_generation (rw_cache w))"
    from True have s: "d = StartRefresh g" "kc_next_generation c = g" "in_flight (rw_cache w) m = None"
      "in_flight c = (in_flight (rw_cache w))(m \<mapsto> g)"
      by (simp_all add: starts_def Let_def g_def)
    then have w': "ask m now w = w\<lparr>rw_cache := c, rw_refreshes := (rw_refreshes w)(g \<mapsto> (m, Running))\<rparr>"
      by (simp add: ask_def dec)
    note new = new_generation [OF ok bound, folded g_def]
    show ?thesis unfolding w' world_ok_def
    proof (intro conjI allI impI)
      show "cache_ok (rw_cache (w\<lparr>rw_cache := c, rw_refreshes := (rw_refreshes w)(g \<mapsto> (m, Running))\<rparr>))" using dok(1) by simp
    next
      fix g' m' assume "rw_refreshes (w\<lparr>rw_cache := c, rw_refreshes := (rw_refreshes w)(g \<mapsto> (m, Running))\<rparr>) g' = Some (m', Running)"
      then show "in_flight (rw_cache (w\<lparr>rw_cache := c, rw_refreshes := (rw_refreshes w)(g \<mapsto> (m, Running))\<rparr>)) m' = Some g'"
        using s world_okD(2) [OF ok, of g' m'] by (auto split: if_splits)
    next
      fix m' g' assume "in_flight (rw_cache (w\<lparr>rw_cache := c, rw_refreshes := (rw_refreshes w)(g \<mapsto> (m, Running))\<rparr>)) m' = Some g'"
      then show "rw_refreshes (w\<lparr>rw_cache := c, rw_refreshes := (rw_refreshes w)(g \<mapsto> (m, Running))\<rparr>) g' = Some (m', Running)
        \<or> rw_refreshes (w\<lparr>rw_cache := c, rw_refreshes := (rw_refreshes w)(g \<mapsto> (m, Running))\<rparr>) g' = Some (m', ChannelClosed)"
        using s new(1) world_okD(3) [OF ok, of m' g'] by (auto split: if_splits)
    next
      fix g' assume "rw_refreshes (w\<lparr>rw_cache := c, rw_refreshes := (rw_refreshes w)(g \<mapsto> (m, Running))\<rparr>) g' \<noteq> None"
      then show "g' \<le> kc_next_generation (rw_cache (w\<lparr>rw_cache := c, rw_refreshes := (rw_refreshes w)(g \<mapsto> (m, Running))\<rparr>))"
        using s(2) new(2) world_okD(4) [OF ok, of g'] by (auto split: if_splits)
    qed
  qed
qed

lemma settled_world_ok:
  assumes ok: "world_ok w" and s: "settles m g (rw_cache w) c"
    and r: "rw_refreshes w g = Some (m, status)" and "status = Running \<or> status = ChannelClosed" and "status' \<noteq> Running"
    and "in_flight (rw_cache w) m \<noteq> Some g \<Longrightarrow> status' = ChannelClosed"
  shows "world_ok (w\<lparr>rw_cache := c, rw_refreshes := (rw_refreshes w)(g \<mapsto> (m, status'))\<rparr>)"
  unfolding world_ok_def
proof (intro conjI allI impI)
  let ?w = "w\<lparr>rw_cache := c, rw_refreshes := (rw_refreshes w)(g \<mapsto> (m, status'))\<rparr>"
  show "cache_ok (rw_cache ?w)" using s by (simp add: settles_def)
  fix g' m'
  {
    assume "rw_refreshes ?w g' = Some (m', Running)"
    then have "rw_refreshes w g' = Some (m', Running)" "g' \<noteq> g" using assms(5) by (auto split: if_splits)
    with world_okD(2) [OF ok this(1)] s show "in_flight (rw_cache ?w) m' = Some g'" by (auto simp: settles_def)
  }
  {
    assume "in_flight (rw_cache ?w) m' = Some g'"
    then have f: "in_flight (rw_cache w) m' = Some g'" "in_flight (rw_cache w) m = Some g \<longrightarrow> m' \<noteq> m"
      using s by (auto simp: settles_def split: if_splits)
    from world_okD(3) [OF ok f(1)] r f assms(6)
    show "rw_refreshes ?w g' = Some (m', Running) \<or> rw_refreshes ?w g' = Some (m', ChannelClosed)" by auto
  }
  assume "rw_refreshes ?w g' \<noteq> None"
  with r have "rw_refreshes w g' \<noteq> None" by (auto split: if_splits)
  then show "g' \<le> kc_next_generation (rw_cache ?w)" using world_okD(4) [OF ok] s by (auto simp: settles_def)
qed

lemma status_world_ok:
  assumes ok: "world_ok w" and r: "rw_refreshes w g = Some (m, status)" and "status' \<noteq> Running"
    and "status = Running \<Longrightarrow> status' = ChannelClosed" and "status \<noteq> ChannelClosed"
  shows "world_ok (w\<lparr>rw_refreshes := (rw_refreshes w)(g \<mapsto> (m, status'))\<rparr>)"
  unfolding world_ok_def
proof (intro conjI allI impI)
  let ?w = "w\<lparr>rw_refreshes := (rw_refreshes w)(g \<mapsto> (m, status'))\<rparr>"
  show "cache_ok (rw_cache ?w)" using world_okD(1) [OF ok] by simp
  fix g' m'
  {
    assume "rw_refreshes ?w g' = Some (m', Running)"
    with assms(3) show "in_flight (rw_cache ?w) m' = Some g'" using world_okD(2) [OF ok] by (auto split: if_splits)
  }
  {
    assume "in_flight (rw_cache ?w) m' = Some g'"
    then have "in_flight (rw_cache w) m' = Some g'" by simp
    from world_okD(3) [OF ok this] r assms(4,5)
    show "rw_refreshes ?w g' = Some (m', Running) \<or> rw_refreshes ?w g' = Some (m', ChannelClosed)" by auto
  }
  assume "rw_refreshes ?w g' \<noteq> None"
  with r have "rw_refreshes w g' \<noteq> None" by (auto split: if_splits)
  then show "g' \<le> kc_next_generation (rw_cache ?w)" using world_okD(4) [OF ok] by auto
qed

lemma world_step_ok:
  assumes "world_step w w'" and "world_ok w"
  shows "world_ok w'"
  using assms
proof (induction rule: world_step.induct)
  case (asked w model now)
  then show ?case by (simp add: ask_ok)
next
  case (committed w g m resolved now effective c)
  from commit_ok [OF world_okD(1) [OF committed.prems] committed.hyps(2)] committed show ?case
    by (intro settled_world_ok [where status = Running]) (auto dest: world_okD(2))
next
  case (announced w g m effective)
  then show ?case by (intro status_world_ok) auto
next
  case (ended w g m status)
  then show ?case by (intro status_world_ok) auto
next
  case (abandoned w g m)
  have "w\<lparr>rw_cache := abandon_refresh m g (rw_cache w)\<rparr>
      = w\<lparr>rw_cache := abandon_refresh m g (rw_cache w), rw_refreshes := (rw_refreshes w)(g \<mapsto> (m, ChannelClosed))\<rparr>"
    using abandoned.hyps by (simp add: fun_upd_idem)
  then show ?case
    using settled_world_ok [OF abandoned.prems abandon_ok [OF world_okD(1) [OF abandoned.prems]] abandoned.hyps, of ChannelClosed]
    by simp
qed

lemma world_reachable_ok: "world_reachable w \<Longrightarrow> world_ok w"
proof (induction rule: world_reachable.induct)
  case world_init
  then show ?case
    by (simp add: world_ok_def refresh_world_init_def AnthropicModelCacheState_default_def cache_ok_def in_flight_def)
qed (rule world_step_ok)

lemma single_flight:
  assumes "world_reachable w"
  shows "rw_refreshes w g = Some (m, Running) \<Longrightarrow> rw_refreshes w g' = Some (m, Running) \<Longrightarrow> g = g'"
    and "length (kc_entries (rw_cache w)) \<le> MODEL_CACHE_CAPACITY
      \<or> list_all (\<lambda>e. ca_refresh (snd e) \<noteq> None) (kc_entries (rw_cache w))"
    and "fst (decision m now (rw_cache w)) = WaitFor g \<Longrightarrow>
      rw_refreshes w g = Some (m, Running) \<or> rw_refreshes w g = Some (m, ChannelClosed)"
proof -
  note ok = world_reachable_ok [OF assms]
  show "g = g'" if "rw_refreshes w g = Some (m, Running)" "rw_refreshes w g' = Some (m, Running)"
    using world_okD(2) [OF ok that(1)] world_okD(2) [OF ok that(2)] by simp
  show "length (kc_entries (rw_cache w)) \<le> MODEL_CACHE_CAPACITY
      \<or> list_all (\<lambda>e. ca_refresh (snd e) \<noteq> None) (kc_entries (rw_cache w))"
    using world_okD(1) [OF ok] by (simp add: cache_ok_def all_refreshing_def)
  show "rw_refreshes w g = Some (m, Running) \<or> rw_refreshes w g = Some (m, ChannelClosed)"
    if "fst (decision m now (rw_cache w)) = WaitFor g"
  proof -
    obtain d c where dec: "decision m now (rw_cache w) = (d, c)" by fastforce
    with decision_ok(2) [OF world_okD(1) [OF ok] dec] that have "in_flight (rw_cache w) m = Some g"
      by (auto simp: starts_def Let_def)
    then show ?thesis by (rule world_okD(3) [OF ok])
  qed
qed

end
