(* ===== verification/Openai_Stream.thy ===== *)
theory Openai_Stream
  imports Provider_Types Event_Readers
begin

text \<open>
  Reading a response of OpenAI's Responses API (\<open>agent-provider/src/openai.rs\<close>): which output
  items are accepted, and the state machine that collects them by output index. As in the other
  adapter an error ends the reading and drops the state.
\<close>

section \<open>Output items\<close>

definition openai_replay_item_type :: "Value \<Rightarrow> string \<Rightarrow> ('http, string) ProviderError + string" where
  "openai_replay_item_type item context_text =
     and_then (ok_or (Value_as_object item) (Provider (context_text @ '' was not an object''))) (\<lambda>object.
       ok_or (option_filter (\<lambda>t. t \<noteq> []) (Option.bind (map_of object ''type'') Value_as_str))
         (Provider (context_text @ '' missing nonempty string type'')))"

definition openai_required_string :: "Value \<Rightarrow> string \<Rightarrow> string \<Rightarrow> ('http, string) ProviderError + string" where
  "openai_required_string item item_type field =
     ok_or (option_filter (\<lambda>v. v \<noteq> []) (get_str item field))
       (Provider (''OpenAI '' @ item_type @ '' missing nonempty string '' @ field))"

definition openai_required_array :: "Value \<Rightarrow> string \<Rightarrow> string \<Rightarrow> ('http, string) ProviderError + Value list" where
  "openai_required_array item item_type field =
     ok_or (get_array item field) (Provider (''OpenAI '' @ item_type @ '' missing '' @ field @ '' array''))"

text \<open>A loop that stops at the first error.\<close>

fun try_all :: "('a \<Rightarrow> 'e + unit) \<Rightarrow> 'a list \<Rightarrow> 'e + unit" where
  "try_all f [] = Inr ()"
| "try_all f (x # xs) = and_then (f x) (\<lambda>_. try_all f xs)"

definition validate_agent_message_part :: "Value \<Rightarrow> ('http, string) ProviderError + unit" where
  "validate_agent_message_part part =
     and_then (openai_replay_item_type part ''OpenAI agent_message content part'') (\<lambda>part_type.
       if part_type = ''input_text''
       then if get_str part ''text'' = None then provider_error ''OpenAI agent_message input_text missing text'' else Inr ()
       else if part_type = ''encrypted_content''
       then and_then (openai_required_string part ''agent_message encrypted_content'' ''encrypted_content'') (\<lambda>_. Inr ())
       else provider_error (''OpenAI agent_message contained unsupported content part type '' @ part_type))"

definition validate_openai_agent_message :: "Value \<Rightarrow> ('http, string) ProviderError + unit" where
  "validate_openai_agent_message item =
     and_then (openai_required_string item ''agent_message'' ''author'') (\<lambda>_.
     and_then (openai_required_string item ''agent_message'' ''recipient'') (\<lambda>_.
     and_then (openai_required_array item ''agent_message'' ''content'') (try_all validate_agent_message_part)))"

definition validate_openai_function_call :: "Value \<Rightarrow> ('http, string) ProviderError + unit" where
  "validate_openai_function_call item =
     and_then (openai_required_string item ''function_call'' ''call_id'') (\<lambda>_.
     and_then (openai_required_string item ''function_call'' ''name'') (\<lambda>_.
       if get_str item ''arguments'' = None then provider_error ''OpenAI function_call missing string arguments''
       else Inr ()))"

definition validate_openai_custom_tool_call :: "Value \<Rightarrow> ('http, string) ProviderError + unit" where
  "validate_openai_custom_tool_call item =
     and_then (openai_required_string item ''custom_tool_call'' ''call_id'') (\<lambda>_.
     and_then (openai_required_string item ''custom_tool_call'' ''name'') (\<lambda>_.
       if get_str item ''input'' = None then provider_error ''OpenAI custom_tool_call missing string input''
       else Inr ()))"

datatype OpenAiOrdinaryItemClass =
  Message | AgentMessage | FunctionCall | CustomToolCall | HostedOrPassive | ClientExecuted

definition client_executed_types :: "string list" where
  "client_executed_types =
     [''local_shell_call'', ''shell_call'', ''apply_patch_call'', ''computer_call'', ''mcp_approval_request'']"

definition hosted_types :: "string list" where
  "hosted_types =
     [''reasoning'', ''web_search_call'', ''file_search_call'', ''code_interpreter_call'', ''image_generation_call'',
      ''mcp_call'', ''mcp_list_tools'', ''tool_search_output'', ''additional_tools'', ''compaction'',
      ''context_compaction'', ''function_call_output'', ''custom_tool_call_output'', ''local_shell_call_output'',
      ''shell_call_output'', ''apply_patch_call_output'', ''computer_call_output'', ''mcp_approval_response'']"

definition classify_openai_ordinary_item ::
  "string \<Rightarrow> Value \<Rightarrow> ('http, string) ProviderError + OpenAiOrdinaryItemClass" where
  "classify_openai_ordinary_item item_type item =
     (if item_type = ''message'' then Inr Message
      else if item_type = ''agent_message'' then Inr AgentMessage
      else if item_type = ''function_call'' then Inr FunctionCall
      else if item_type = ''custom_tool_call'' then Inr CustomToolCall
      else if item_type = ''tool_search_call''
      then (case get_str item ''execution'' of
          Some execution \<Rightarrow>
            if execution = ''server'' then Inr HostedOrPassive
            else if execution = ''client'' then Inr ClientExecuted
            else provider_error (''OpenAI tool_search_call had unknown execution mode '' @ execution)
        | None \<Rightarrow> provider_error ''OpenAI tool_search_call missing string execution mode'')
      else if item_type \<in> set client_executed_types then Inr ClientExecuted
      else if item_type \<in> set hosted_types then Inr HostedOrPassive
      else provider_error (''OpenAI returned unknown output item type '' @ item_type
             @ ''; refusing to assume it requires no client response''))"

definition validate_openai_added_item_policy :: "string \<Rightarrow> Value \<Rightarrow> ('http, string) ProviderError + unit" where
  "validate_openai_added_item_policy item_type item =
     and_then (if item_type = ''tool_search_call'' \<and> get_str item ''execution'' = None then Inr HostedOrPassive
               else classify_openai_ordinary_item item_type item) (\<lambda>item_class.
       if item_class = ClientExecuted
       then provider_error (''OpenAI returned unsupported client-executed action type '' @ item_type)
       else Inr ())"

definition validate_message_part :: "Value \<Rightarrow> ('http, string) ProviderError + unit" where
  "validate_message_part part =
     and_then (openai_replay_item_type part ''OpenAI message content part'') (\<lambda>part_type.
       if part_type = ''output_text''
       then if get_str part ''text'' = None then provider_error ''OpenAI output_text content missing text'' else Inr ()
       else if part_type = ''refusal''
       then (case get_str part ''refusal'' of
           Some message \<Rightarrow>
             if message \<noteq> [] then Inr ()
             else provider_error ''OpenAI refusal content missing nonempty refusal text''
         | None \<Rightarrow> provider_error ''OpenAI refusal content missing nonempty refusal text'')
       else provider_error (''OpenAI message contained unsupported content part type '' @ part_type))"

definition validate_openai_output_message :: "Value \<Rightarrow> ('http, string) ProviderError + unit" where
  "validate_openai_output_message item =
     (if get_str item ''role'' \<noteq> Some ''assistant''
      then provider_error ''OpenAI message output missing assistant role''
      else and_then (ok_or (get_array item ''content'') (Provider ''OpenAI message output missing content array''))
             (try_all validate_message_part))"

definition validate_openai_ordinary_item_policy ::
  "string \<Rightarrow> Value \<Rightarrow> ('http, string) ProviderError + OpenAiOrdinaryItemClass" where
  "validate_openai_ordinary_item_policy item_type item =
     and_then (classify_openai_ordinary_item item_type item) (\<lambda>item_class.
     and_then (case item_class of
         Message \<Rightarrow> validate_openai_output_message item
       | AgentMessage \<Rightarrow> validate_openai_agent_message item
       | FunctionCall \<Rightarrow> validate_openai_function_call item
       | CustomToolCall \<Rightarrow> validate_openai_custom_tool_call item
       | HostedOrPassive \<Rightarrow> Inr ()
       | ClientExecuted \<Rightarrow> provider_error (''OpenAI returned unsupported client-executed action type '' @ item_type))
       (\<lambda>_. Inr item_class))"

section \<open>Identities\<close>

definition nonempty_str :: "Value \<Rightarrow> string \<Rightarrow> string option" where
  "nonempty_str item field = option_filter (\<lambda>v. v \<noteq> []) (get_str item field)"

definition identity_fields :: "string list" where
  "identity_fields = [''id'', ''call_id'']"

definition reconcile_openai_item_identity ::
  "nat \<Rightarrow> string \<Rightarrow> Value \<Rightarrow> string \<Rightarrow> Value \<Rightarrow> ('http, string) ProviderError + unit" where
  "reconcile_openai_item_identity index earlier_label earlier later_label later =
     and_then (openai_replay_item_type earlier (''OpenAI '' @ earlier_label @ '' output item'')) (\<lambda>earlier_type.
     and_then (openai_replay_item_type later (''OpenAI '' @ later_label @ '' output item'')) (\<lambda>later_type.
       if later_type \<noteq> earlier_type
       then provider_error (''OpenAI output item type changed at output_index '' @ dec_string index @ '': ''
              @ earlier_label @ '' '' @ earlier_type @ '', '' @ later_label @ '' '' @ later_type)
       else try_all (\<lambda>field.
              case nonempty_str earlier field of
                Some earlier_id \<Rightarrow>
                  if get_str later field \<noteq> Some earlier_id
                  then provider_error (''OpenAI output item '' @ field @ '' changed at output_index '' @ dec_string index
                         @ '' between '' @ earlier_label @ '' and '' @ later_label)
                  else Inr ()
              | None \<Rightarrow> Inr ()) identity_fields))"

definition reconcile_openai_added_item :: "nat \<Rightarrow> Value \<Rightarrow> Value \<Rightarrow> ('http, string) ProviderError + unit" where
  "reconcile_openai_added_item index added finished =
     reconcile_openai_item_identity index ''added'' added ''done'' finished"

section \<open>Decoding an item\<close>

definition openai_provider_replay_display :: "json_codec \<Rightarrow> Value \<Rightarrow> ReplayDisplay option" where
  "openai_provider_replay_display codec item =
     Option.bind (get_str item ''type'') (\<lambda>item_type.
       if item_type = ''web_search_call''
       then Option.bind (Value_get item ''action'') (\<lambda>action.
              Option.bind (get_str action ''type'') (\<lambda>action_type.
                if action_type = ''search'' then tool_display ''WebSearch'' HostedTool (Some action)
                else if action_type = ''open_page'' then tool_display ''OpenPage'' HostedTool (Some action)
                else None))
       else if item_type = ''function_call''
       then Option.bind (get_str item ''name'') (\<lambda>name.
              Option.bind (Option.bind (get_str item ''arguments'') (codec_parser codec)) (\<lambda>arguments.
                tool_display (canonical_tool_name_for_provider OpenAi name) LocalTool (Some arguments)))
       else if item_type = ''custom_tool_call''
       then Option.bind (get_str item ''name'') (\<lambda>name.
              tool_display (canonical_tool_name_for_provider OpenAi name) LocalTool None)
       else None)"

text \<open>
  The fields read here were validated before, so the calls of \<open>expect\<close> do not panic and the
  defaults that stand for them are never used.
\<close>

definition str_field :: "Value \<Rightarrow> string \<Rightarrow> string" where
  "str_field item field = unwrap_or (get_str item field) []"

fun message_parts :: "Value list \<Rightarrow> AssistantItem list \<Rightarrow> string option \<Rightarrow> AssistantItem list \<times> string option" where
  "message_parts [] items refusal = (items, refusal)"
| "message_parts (part # parts) items refusal =
     (if str_field part ''type'' = ''output_text''
      then let text = str_field part ''text''
           in message_parts parts (if text \<noteq> [] then push_text_item text items else items) refusal
      else message_parts parts items (Some (str_field part ''refusal'')))"

definition item_tool_call :: "ProviderKind \<Rightarrow> Value \<Rightarrow> string \<Rightarrow> AssistantItem" where
  "item_tool_call provider item args_json =
     ToolCallItem \<lparr>tc_id = ToolCallId (str_field item ''call_id''),
       tc_tool_name = canonical_tool_name_for_provider provider (str_field item ''name''),
       tc_args_json = args_json\<rparr>"

definition agent_message_text :: "Value list \<Rightarrow> AssistantItem list \<Rightarrow> AssistantItem list" where
  "agent_message_text parts items =
     (if list_all (\<lambda>part. get_str part ''type'' = Some ''input_text'') parts
      then let text = join_with [nl] (map (\<lambda>part. str_field part ''text'') parts)
           in if trim text \<noteq> [] then push_text_item text items else items
      else items)"

text \<open>The items with what an item of a class adds to them, and its refusal when it has one.\<close>

definition item_output ::
  "json_codec \<Rightarrow> ProviderKind \<Rightarrow> OpenAiOrdinaryItemClass \<Rightarrow> Value \<Rightarrow> AssistantItem list
     \<Rightarrow> AssistantItem list \<times> string option" where
  "item_output codec provider item_class item items =
     (case item_class of
        Message \<Rightarrow> message_parts (unwrap_or (get_array item ''content'') []) items None
      | FunctionCall \<Rightarrow> (items @ [item_tool_call provider item (str_field item ''arguments'')], None)
      | CustomToolCall \<Rightarrow>
          (items @ [item_tool_call provider item
             (jc_to_string codec (json_object [(''input'', JString (str_field item ''input''))]))], None)
      | AgentMessage \<Rightarrow> (agent_message_text (unwrap_or (get_array item ''content'') []) items, None)
      | HostedOrPassive \<Rightarrow> (items, None)
      | ClientExecuted \<Rightarrow> (items, None))"

definition parse_response_output_item ::
  "json_codec \<Rightarrow> ProviderKind \<Rightarrow> Value \<Rightarrow> AssistantItem list \<Rightarrow> ProviderReplayItem list
     \<Rightarrow> ('http, string) ProviderError + string option \<times> AssistantItem list \<times> ProviderReplayItem list" where
  "parse_response_output_item codec provider item items provider_replay =
     and_then (openai_replay_item_type item ''OpenAI output item'') (\<lambda>item_type.
     and_then (validate_openai_ordinary_item_policy item_type item) (\<lambda>item_class.
     and_then (ProviderReplayItem_new_with_display (\<lambda>v. Inr (jc_to_string codec v)) provider item
         (openai_provider_replay_display codec item)) (\<lambda>record.
       let (items', refusal) = item_output codec provider item_class item items
       in Inr (refusal, items', provider_replay @ [record]))))"

definition openai_usage :: "Value \<Rightarrow> ProviderUsage option" where
  "openai_usage v =
     Some (ProviderUsage_default
       \<lparr>pu_input_tokens := map_option unat (get_u64 v ''input_tokens''),
        pu_output_tokens := map_option unat (get_u64 v ''output_tokens''),
        pu_total_tokens := map_option unat (get_u64 v ''total_tokens''),
        pu_cache_read_input_tokens := map_option unat
          (Option.bind (Value_pointer v [''input_tokens_details'', ''cached_tokens'']) Value_as_u64)\<rparr>)"

section \<open>Collecting the output\<close>

record ResponsesMaterializedOutput =
  mo_items :: "AssistantItem list"
  mo_provider_replay :: "ProviderReplayItem list"
  mo_stop_reason :: ModelStopReason
  mo_stop_details :: "ModelStopDetails option"

text \<open>The two maps are lists of entries in the order of their indexes.\<close>

record ResponsesStreamState =
  ro_provider :: ProviderKind
  ro_added_items :: "(nat \<times> Value) list"
  ro_output_items :: "(nat \<times> Value) list"
  ro_usage :: "ProviderUsage option"
  ro_materialized :: "ResponsesMaterializedOutput option"
  ro_completed :: bool

definition ResponsesStreamState_new :: "ProviderKind \<Rightarrow> ResponsesStreamState" where
  "ResponsesStreamState_new provider =
     \<lparr>ro_provider = provider, ro_added_items = [], ro_output_items = [], ro_usage = None, ro_materialized = None,
      ro_completed = False\<rparr>"

definition responses_finish :: "ResponsesStreamState \<Rightarrow> ('http, string) ProviderError + ModelResponse" where
  "responses_finish st =
     (if \<not> ro_completed st then provider_error ''OpenAI response stream ended before response.completed''
      else let materialized = the (ro_materialized st)
           in Inr \<lparr>mr_assistant = \<lparr>am_items = mo_items materialized\<rparr>,
                   mr_provider_replay = mo_provider_replay materialized,
                   mr_usage = ro_usage st, mr_stop_reason = mo_stop_reason materialized,
                   mr_stop_details = mo_stop_details materialized\<rparr>)"

fun validate_output_indices :: "nat \<Rightarrow> (nat \<times> Value) list \<Rightarrow> ('http, string) ProviderError + unit" where
  "validate_output_indices expected [] = Inr ()"
| "validate_output_indices expected ((actual, item) # output_items) =
     (if actual \<noteq> expected
      then provider_error (''OpenAI response output indices were not contiguous: expected '' @ dec_string expected
             @ '', found '' @ dec_string actual)
      else validate_output_indices (expected + 1) output_items)"

text \<open>The table maps a type, a field and an identity to the index that has them.\<close>

type_synonym identities = "string \<times> string \<times> string \<rightharpoonup> nat"

fun insert_identities ::
  "nat \<Rightarrow> string \<Rightarrow> Value \<Rightarrow> string list \<Rightarrow> identities \<Rightarrow> ('http, string) ProviderError + identities" where
  "insert_identities index item_type item [] identities = Inr identities"
| "insert_identities index item_type item (field # more_fields) identities =
     (case nonempty_str item field of
        None \<Rightarrow> insert_identities index item_type item more_fields identities
      | Some ident \<Rightarrow>
          (case identities (item_type, field, ident) of
             Some previous_index \<Rightarrow>
               provider_error (''OpenAI output item type '' @ item_type @ '' duplicated stable '' @ field @ '' '' @ ident
                 @ '' at output indices '' @ dec_string previous_index @ '' and '' @ dec_string index)
           | None \<Rightarrow> insert_identities index item_type item more_fields (identities((item_type, field, ident) \<mapsto> index))))"

fun validate_output_identities :: "(nat \<times> Value) list \<Rightarrow> identities \<Rightarrow> ('http, string) ProviderError + unit" where
  "validate_output_identities [] identities = Inr ()"
| "validate_output_identities ((index, item) # output_items) identities =
     and_then (openai_replay_item_type item ''OpenAI output item'') (\<lambda>item_type.
     and_then (insert_identities index item_type item identity_fields identities) (\<lambda>identities.
       validate_output_identities output_items identities))"

definition validate_output_items :: "(nat \<times> Value) list \<Rightarrow> ('http, string) ProviderError + unit" where
  "validate_output_items output_items =
     and_then (validate_output_indices 0 output_items) (\<lambda>_. validate_output_identities output_items Map.empty)"

fun materialize_items ::
  "json_codec \<Rightarrow> ProviderKind \<Rightarrow> Value list \<Rightarrow> ResponsesMaterializedOutput
     \<Rightarrow> ('http, string) ProviderError + ResponsesMaterializedOutput" where
  "materialize_items codec provider [] out = Inr out"
| "materialize_items codec provider (item # items) out =
     and_then (parse_response_output_item codec provider item (mo_items out) (mo_provider_replay out))
       (\<lambda>(refusal, parsed, provider_replay).
          let out = out\<lparr>mo_items := parsed, mo_provider_replay := provider_replay\<rparr>
          in materialize_items codec provider items
               (case refusal of
                  Some message \<Rightarrow> out\<lparr>mo_stop_reason := StopRefusal,
                    mo_stop_details := Some \<lparr>sd_category = None, sd_explanation = Some message\<rparr>\<rparr>
                | None \<Rightarrow> out))"

definition materialize_output_items ::
  "json_codec \<Rightarrow> (nat \<times> Value) list \<Rightarrow> ProviderKind \<Rightarrow> ('http, string) ProviderError + ResponsesMaterializedOutput" where
  "materialize_output_items codec output_items provider =
     and_then (validate_output_items output_items) (\<lambda>_.
     and_then (materialize_items codec provider (map snd output_items)
         \<lparr>mo_items = [], mo_provider_replay = [], mo_stop_reason = StopComplete, mo_stop_details = None\<rparr>) (\<lambda>out.
       Inr (if mo_stop_reason out = StopRefusal then out\<lparr>mo_items := [], mo_provider_replay := []\<rparr> else out)))"

definition output_item_event :: "Value \<Rightarrow> string \<Rightarrow> ('http, string) ProviderError + nat \<times> Value \<times> string" where
  "output_item_event event event_type =
     and_then (ok_or (map_option unat (get_u64 event ''output_index''))
         (Provider (''OpenAI '' @ event_type @ '' missing valid output_index''))) (\<lambda>index.
     and_then (ok_or (Value_get event ''item'') (Provider (''OpenAI '' @ event_type @ '' missing item''))) (\<lambda>item.
     and_then (openai_replay_item_type item (''OpenAI '' @ event_type @ '' item'')) (\<lambda>item_type.
       Inr (index, item, item_type))))"

definition record_added_item ::
  "Value \<Rightarrow> ResponsesStreamState \<Rightarrow> ('http, string) ProviderError + ResponsesStreamState" where
  "record_added_item event st =
     and_then (output_item_event event ''response.output_item.added'') (\<lambda>(index, item, item_type).
     and_then (validate_openai_added_item_policy item_type item) (\<lambda>_.
       if map_of (ro_output_items st) index \<noteq> None
       then provider_error (''OpenAI response.output_item.added arrived after done at output_index '' @ dec_string index)
       else if map_of (ro_added_items st) index \<noteq> None
       then provider_error (''OpenAI response.output_item.added duplicated output_index '' @ dec_string index)
       else Inr (st\<lparr>ro_added_items := btree_insert index item (ro_added_items st)\<rparr>)))"

definition record_done_item ::
  "Value \<Rightarrow> ResponsesStreamState \<Rightarrow> ('http, string) ProviderError + ResponsesStreamState" where
  "record_done_item event st =
     and_then (output_item_event event ''response.output_item.done'') (\<lambda>(index, item, _).
     and_then (case map_of (ro_added_items st) index of
         Some added_item \<Rightarrow> reconcile_openai_added_item index added_item item
       | None \<Rightarrow> Inr ()) (\<lambda>_.
       if map_of (ro_output_items st) index \<noteq> None
       then provider_error (''OpenAI response.output_item.done duplicated output_index '' @ dec_string index)
       else Inr (st\<lparr>ro_output_items := btree_insert index item (ro_output_items st)\<rparr>)))"

definition reconcile_added_items :: "ResponsesStreamState \<Rightarrow> ('http, string) ProviderError + unit" where
  "reconcile_added_items st =
     try_all (\<lambda>(index, added_item).
       and_then (ok_or (map_of (ro_output_items st) index)
           (Provider (''OpenAI response completed with pending output item at output_index '' @ dec_string index)))
         (reconcile_openai_added_item index added_item)) (ro_added_items st)"

fun reconcile_terminal_items ::
  "(nat \<times> Value) list \<Rightarrow> nat \<Rightarrow> Value list \<Rightarrow> (nat \<times> Value) list
     \<Rightarrow> ('http, string) ProviderError + (nat \<times> Value) list" where
  "reconcile_terminal_items output_items index [] reconciled_items = Inr reconciled_items"
| "reconcile_terminal_items output_items index (item # terminal) reconciled_items =
     (case map_of output_items index of
        Some done_item \<Rightarrow>
          and_then (reconcile_openai_item_identity index ''done'' done_item ''terminal'' item) (\<lambda>_.
            reconcile_terminal_items output_items (index + 1) terminal reconciled_items)
      | None \<Rightarrow> reconcile_terminal_items output_items (index + 1) terminal (btree_insert index item reconciled_items))"

definition reconcile_terminal_output ::
  "ResponsesStreamState \<Rightarrow> Value \<Rightarrow> ('http, string) ProviderError + (nat \<times> Value) list" where
  "reconcile_terminal_output st terminal =
     and_then (ok_or (Value_as_array terminal)
         (Provider ''OpenAI response.completed response.output was not an array'')) (\<lambda>terminal.
       reconcile_terminal_items (ro_output_items st) 0 terminal (ro_output_items st))"

section \<open>Events\<close>

definition openai_error_message :: "json_codec \<Rightarrow> string option \<Rightarrow> string option \<Rightarrow> Value \<Rightarrow> string" where
  "openai_error_message codec code message event =
     (let message = unwrap_or message (jc_to_string codec event)
      in case code of
           Some c \<Rightarrow> if \<not> str_contains message c then c @ '': '' @ message else message
         | None \<Rightarrow> message)"

definition openai_provider_error_from_code :: "string option \<Rightarrow> string \<Rightarrow> ('http, string) ProviderError" where
  "openai_provider_error_from_code code message =
     (if code = Some ''rate_limit_exceeded'' then Status 429 message
      else if code \<in> {Some ''internal_error'', Some ''server_error''} then Status 500 message
      else if code \<in> {Some ''overloaded_error'', Some ''server_is_overloaded'', Some ''slow_down''} then Status 529 message
      else if code \<in> {Some ''context_length_exceeded'', Some ''cyber_policy'', Some ''insufficient_quota'',
          Some ''invalid_prompt'', Some ''usage_not_included''} then Provider message
      else Transient message)"

definition response_failed :: "json_codec \<Rightarrow> Value \<Rightarrow> ('http, string) ProviderError" where
  "response_failed codec event =
     (let code = Option.bind (Value_pointer event [''response'', ''error'', ''code'']) Value_as_str;
          message = Some (unwrap_or (Option.bind (Value_pointer event [''response'', ''error'', ''message'']) Value_as_str)
            ''response.failed'')
      in openai_provider_error_from_code code (openai_error_message codec code message event))"

definition response_incomplete :: "Value \<Rightarrow> ('http, string) ProviderError" where
  "response_incomplete event =
     Incomplete (unwrap_or (Option.bind (Value_pointer event [''response'', ''status'']) Value_as_str) ''incomplete'')
       (unwrap_or (Option.bind (Value_pointer event [''response'', ''incomplete_details'', ''reason'']) Value_as_str) ''unknown'')"

definition response_error_event :: "json_codec \<Rightarrow> Value \<Rightarrow> ('http, string) ProviderError" where
  "response_error_event codec event =
     (let code = get_str event ''code'';
          raw = (case Value_get event ''message'' of Some v \<Rightarrow> Some v | None \<Rightarrow> Value_get event ''code'');
          message = openai_error_message codec code (Option.bind raw Value_as_str) event
      in openai_provider_error_from_code code (''Codex error: '' @ message))"

definition complete_output ::
  "json_codec \<Rightarrow> (string \<times> Value) list \<Rightarrow> ResponsesStreamState
     \<Rightarrow> ('http, string) ProviderError + ResponsesStreamState" where
  "complete_output codec response st =
     and_then (reconcile_added_items st) (\<lambda>_.
     and_then (case map_of response ''output'' of
         Some terminal \<Rightarrow> reconcile_terminal_output st terminal
       | None \<Rightarrow> Inr (ro_output_items st)) (\<lambda>output_items.
     and_then (materialize_output_items codec output_items (ro_provider st)) (\<lambda>materialized.
       Inr (st\<lparr>ro_output_items := output_items, ro_usage := Option.bind (map_of response ''usage'') openai_usage,
               ro_materialized := Some materialized, ro_completed := True\<rparr>))))"

definition response_completed ::
  "json_codec \<Rightarrow> Value \<Rightarrow> ResponsesStreamState \<Rightarrow> ('http, string) ProviderError + ResponsesStreamState" where
  "response_completed codec event st =
     and_then (ok_or (get_object event ''response'') (Provider ''OpenAI response.completed missing response object''))
     (\<lambda>response.
       if (case Option.bind (map_of response ''id'') Value_as_str of None \<Rightarrow> True | Some i \<Rightarrow> i = [])
       then provider_error ''OpenAI response.completed missing response id''
       else case map_of response ''status'' of
           Some status \<Rightarrow>
             if Value_as_str status \<noteq> Some ''completed''
             then provider_error (''OpenAI response.completed had invalid status '' @ jc_to_string codec status)
             else complete_output codec response st
         | None \<Rightarrow> complete_output codec response st)"

definition responses_process_event ::
  "json_codec \<Rightarrow> Value \<Rightarrow> ResponsesStreamState \<Rightarrow> ('http, string) ProviderError + SseControl \<times> ResponsesStreamState" where
  "responses_process_event codec event st =
     (let t = get_str event ''type'' in
      if t = Some ''response.output_item.added'' then and_then (record_added_item event st) (\<lambda>st. Inr (Continue, st))
      else if t = Some ''response.output_item.done'' then and_then (record_done_item event st) (\<lambda>st. Inr (Continue, st))
      else if t = Some ''response.failed'' then Inl (response_failed codec event)
      else if t = Some ''response.incomplete'' then Inl (response_incomplete event)
      else if t = Some ''response.completed'' then and_then (response_completed codec event st) (\<lambda>st. Inr (Stop, st))
      else if t = Some ''error'' then Inl (response_error_event codec event)
      else Inr (Continue, st))"

definition responses_process_sse_event ::
  "json_codec \<Rightarrow> SseEvent \<Rightarrow> ResponsesStreamState \<Rightarrow> ('http, string) ProviderError + SseControl \<times> ResponsesStreamState" where
  "responses_process_sse_event codec event st =
     (case event of
        SseJson v \<Rightarrow> responses_process_event codec v st
      | SseMalformedJson \<Rightarrow> provider_error ''OpenAI response stream contained malformed JSON event data''
      | SseDone \<Rightarrow> Inr (Continue, st))"

definition openai_response_error_message :: "json_codec \<Rightarrow> string \<Rightarrow> string" where
  "openai_response_error_message codec body =
     unwrap_or (Option.bind (codec_parser codec body) (\<lambda>v.
        Option.bind (case Value_pointer v [''error'', ''message''] of
            Some m \<Rightarrow> Some m
          | None \<Rightarrow> Value_pointer v [''detail'']) Value_as_str)) (response_excerpt body)"

definition parse_responses_stream ::
  "json_codec \<Rightarrow> 'http response \<Rightarrow> ProviderKind \<Rightarrow> ('http, string) ProviderError + ModelResponse" where
  "parse_responses_stream codec response provider =
     (case read_provider_json_sse_response (codec_parser codec) response ''OpenAI response stream''
             (openai_response_error_message codec) (callback (responses_process_sse_event codec))
             (ResponsesStreamState_new provider) of
        (Inl e, _) \<Rightarrow> Inl e
      | (Inr _, st) \<Rightarrow> responses_finish st)"

end
