(* ===== verification/Openai_Stream_Proofs.thy ===== *)
theory Openai_Stream_Proofs
  imports Openai_Stream Anthropic_Order
begin

text \<open>
  Which streams of OpenAI's API are accepted, and what they decode to. An item is accepted when
  it has every field the adapter reads and asks for nothing the client cannot do; a stream is,
  when its items fill the output indexes and every event fits what came before it.
\<close>

section \<open>What an accepted item is\<close>

definition message_part_ok :: "Value \<Rightarrow> bool" where
  "message_part_ok part \<longleftrightarrow>
     nonempty_str part ''type'' = Some ''output_text'' \<and> get_str part ''text'' \<noteq> None
     \<or> nonempty_str part ''type'' = Some ''refusal'' \<and> nonempty_str part ''refusal'' \<noteq> None"

definition agent_part_ok :: "Value \<Rightarrow> bool" where
  "agent_part_ok part \<longleftrightarrow>
     nonempty_str part ''type'' = Some ''input_text'' \<and> get_str part ''text'' \<noteq> None
     \<or> nonempty_str part ''type'' = Some ''encrypted_content'' \<and> nonempty_str part ''encrypted_content'' \<noteq> None"

definition parts_of :: "Value \<Rightarrow> Value list" where
  "parts_of item = unwrap_or (get_array item ''content'') []"

definition call_ok :: "Value \<Rightarrow> string \<Rightarrow> bool" where
  "call_ok item payload \<longleftrightarrow> nonempty_str item ''call_id'' \<noteq> None \<and> nonempty_str item ''name'' \<noteq> None
     \<and> get_str item payload \<noteq> None"

text \<open>
  A typed item that asks nothing of the client but the calls it can answer, with every field
  that is read from it.
\<close>

definition item_ok :: "Value \<Rightarrow> bool" where
  "item_ok item \<longleftrightarrow>
     (case nonempty_str item ''type'' of
        None \<Rightarrow> False
      | Some t \<Rightarrow>
          if t = ''message''
          then get_str item ''role'' = Some ''assistant'' \<and> get_array item ''content'' \<noteq> None
            \<and> list_all message_part_ok (parts_of item)
          else if t = ''agent_message''
          then nonempty_str item ''author'' \<noteq> None \<and> nonempty_str item ''recipient'' \<noteq> None
            \<and> get_array item ''content'' \<noteq> None \<and> list_all agent_part_ok (parts_of item)
          else if t = ''function_call'' then call_ok item ''arguments''
          else if t = ''custom_tool_call'' then call_ok item ''input''
          else if t = ''tool_search_call'' then get_str item ''execution'' = Some ''server''
          else t \<in> set hosted_types)"

lemma replay_item_type_iff: "openai_replay_item_type item context_text = Inr t \<longleftrightarrow> nonempty_str item ''type'' = Some t"
  by (cases item) (auto simp: openai_replay_item_type_def nonempty_str_def get_str_def ok_or_def and_then_def
      split: option.splits if_splits)

lemma nonempty_strD: "nonempty_str item field = Some s \<Longrightarrow> get_str item field = Some s \<and> s \<noteq> []"
  by (auto simp: nonempty_str_def option_filter_def split: option.splits if_splits)

lemma nonempty_str_iff: "nonempty_str item field = Some s \<longleftrightarrow> get_str item field = Some s \<and> s \<noteq> []"
  by (auto simp: nonempty_str_def option_filter_def split: option.splits if_splits)

lemma required_string_iff [simp]:
  "openai_required_string item t field = Inr s \<longleftrightarrow> nonempty_str item field = Some s"
  by (auto simp: openai_required_string_def nonempty_str_def)

lemma try_all_iff: "try_all f xs = Inr () \<longleftrightarrow> (\<forall>x \<in> set xs. f x = Inr ())"
  by (induction xs) (auto simp: and_then_Inr_iff)

lemma unit_Inr: "r = Inr u \<longleftrightarrow> r = Inr ()"
  by simp

lemma replay_item_type_then:
  "and_then (openai_replay_item_type item context_text) f = Inr y \<longleftrightarrow>
     (\<exists>t. nonempty_str item ''type'' = Some t \<and> f t = Inr y)"
  by (simp add: and_then_Inr_iff replay_item_type_iff)

lemma validate_message_part_iff: "validate_message_part part = Inr () \<longleftrightarrow> message_part_ok part"
  unfolding validate_message_part_def message_part_ok_def replay_item_type_then provider_error_def
  by (cases "nonempty_str part ''type''"; cases "get_str part ''refusal''")
    (simp_all add: nonempty_str_def [of part "''refusal''"])

lemma validate_agent_part_iff: "validate_agent_message_part part = Inr () \<longleftrightarrow> agent_part_ok part"
  unfolding validate_agent_message_part_def agent_part_ok_def replay_item_type_then provider_error_def
  by (cases "nonempty_str part ''type''") (simp_all add: and_then_Inr_iff)

lemma validate_parts_iff:
  "try_all validate_message_part parts = Inr () \<longleftrightarrow> list_all message_part_ok parts"
  "try_all validate_agent_message_part parts = Inr () \<longleftrightarrow> list_all agent_part_ok parts"
  by (simp_all add: try_all_iff list_all_iff validate_message_part_iff validate_agent_part_iff)

lemma validate_message_iff:
  "validate_openai_output_message item = Inr () \<longleftrightarrow>
     get_str item ''role'' = Some ''assistant'' \<and> get_array item ''content'' \<noteq> None \<and> list_all message_part_ok (parts_of item)"
  by (auto simp: validate_openai_output_message_def provider_error_def and_then_Inr_iff validate_parts_iff parts_of_def)

lemma validate_agent_message_iff:
  "validate_openai_agent_message item = Inr () \<longleftrightarrow>
     nonempty_str item ''author'' \<noteq> None \<and> nonempty_str item ''recipient'' \<noteq> None
       \<and> get_array item ''content'' \<noteq> None \<and> list_all agent_part_ok (parts_of item)"
  by (auto simp: validate_openai_agent_message_def and_then_Inr_iff validate_parts_iff parts_of_def openai_required_array_def)

lemma validate_calls_iff:
  "validate_openai_function_call item = Inr () \<longleftrightarrow> call_ok item ''arguments''"
  "validate_openai_custom_tool_call item = Inr () \<longleftrightarrow> call_ok item ''input''"
  by (auto simp: validate_openai_function_call_def validate_openai_custom_tool_call_def call_ok_def and_then_Inr_iff
      provider_error_def)

lemmas validate_iffs = validate_message_iff validate_agent_message_iff validate_calls_iff

lemma policy_iff:
  assumes "nonempty_str item ''type'' = Some t"
  shows "(\<exists>c. validate_openai_ordinary_item_policy t item = Inr c) \<longleftrightarrow> item_ok item"
  using assms
  by (auto simp: validate_openai_ordinary_item_policy_def classify_openai_ordinary_item_def item_ok_def and_then_Inr_iff
      provider_error_def validate_iffs client_executed_types_def hosted_types_def
      split: option.splits OpenAiOrdinaryItemClass.splits if_splits)

section \<open>What an item contributes\<close>

definition part_text :: "Value \<Rightarrow> string" where
  "part_text part = (if str_field part ''type'' = ''output_text'' then str_field part ''text'' else [])"

definition agent_text :: "Value \<Rightarrow> string" where
  "agent_text item =
     (let text = join_with [nl] (map (\<lambda>part. str_field part ''text'') (parts_of item))
      in if list_all (\<lambda>part. get_str part ''type'' = Some ''input_text'') (parts_of item) \<and> trim text \<noteq> []
         then text else [])"

definition item_text :: "Value \<Rightarrow> string" where
  "item_text item =
     (if str_field item ''type'' = ''message'' then concat (map part_text (parts_of item))
      else if str_field item ''type'' = ''agent_message'' then agent_text item
      else [])"

definition response_item_calls :: "json_codec \<Rightarrow> ProviderKind \<Rightarrow> Value \<Rightarrow> ToolCall list" where
  "response_item_calls codec provider item =
     (if str_field item ''type'' = ''function_call''
      then [\<lparr>tc_id = ToolCallId (str_field item ''call_id''),
             tc_tool_name = canonical_tool_name_for_provider provider (str_field item ''name''),
             tc_args_json = str_field item ''arguments''\<rparr>]
      else if str_field item ''type'' = ''custom_tool_call''
      then [\<lparr>tc_id = ToolCallId (str_field item ''call_id''),
             tc_tool_name = canonical_tool_name_for_provider provider (str_field item ''name''),
             tc_args_json = jc_to_string codec (json_object [(''input'', JString (str_field item ''input''))])\<rparr>]
      else [])"

definition item_refusals :: "Value \<Rightarrow> string list" where
  "item_refusals item =
     (if str_field item ''type'' = ''message''
      then map (\<lambda>part. str_field part ''refusal'') (filter (\<lambda>part. str_field part ''type'' \<noteq> ''output_text'') (parts_of item))
      else [])"

definition item_record :: "json_codec \<Rightarrow> ProviderKind \<Rightarrow> Value \<Rightarrow> ProviderReplayItem" where
  "item_record codec provider item =
     \<lparr>pr_provider = provider, pr_raw_json = jc_to_string codec item, pr_display = openai_provider_replay_display codec item\<rparr>"

definition last_refusal :: "string list \<Rightarrow> string option" where
  "last_refusal rs = (if rs = [] then None else Some (last rs))"

definition text_of :: "AssistantItem list \<Rightarrow> string" where
  "text_of items = AssistantMessage_text \<lparr>am_items = items\<rparr>"

definition calls_of :: "AssistantItem list \<Rightarrow> ToolCall list" where
  "calls_of items = AssistantMessage_tool_calls \<lparr>am_items = items\<rparr>"

lemma of_push_text [simp]:
  "text_of (push_text_item t items) = text_of items @ t" "calls_of (push_text_item t items) = calls_of items"
  by (simp_all add: text_of_def calls_of_def push_text_item_text)

lemma of_append [simp]:
  "text_of (items @ [ToolCallItem c]) = text_of items" "calls_of (items @ [ToolCallItem c]) = calls_of items @ [c]"
  by (simp_all add: text_of_def calls_of_def AssistantMessage_text_def AssistantMessage_tool_calls_def List.map_filter_def)

lemma of_Nil [simp]: "text_of [] = []" "calls_of [] = []"
  by (simp_all add: text_of_def calls_of_def AssistantMessage_text_def AssistantMessage_tool_calls_def)

lemma message_parts_result:
  assumes "message_parts parts items refusal = (items', refusal')"
  shows "text_of items' = text_of items @ concat (map part_text parts) \<and> calls_of items' = calls_of items
    \<and> refusal' = (let rs = map (\<lambda>part. str_field part ''refusal'') (filter (\<lambda>part. str_field part ''type'' \<noteq> ''output_text'') parts)
        in if rs = [] then refusal else Some (last rs))"
  using assms
  by (induction parts items refusal rule: message_parts.induct)
    (auto simp: part_text_def Let_def split: if_splits)

lemma classify_type:
  assumes "nonempty_str item ''type'' = Some t" and "validate_openai_ordinary_item_policy t item = Inr c"
  shows "c = (if t = ''message'' then Message else if t = ''agent_message'' then AgentMessage
    else if t = ''function_call'' then FunctionCall else if t = ''custom_tool_call'' then CustomToolCall
    else HostedOrPassive)"
  using assms(2)
  by (cases "get_str item ''execution''"; cases c)
    (simp_all add: validate_openai_ordinary_item_policy_def classify_openai_ordinary_item_def and_then_Inr_iff
      provider_error_def client_executed_types_def hosted_types_def split: if_splits)

lemma agent_message_text_result:
  "text_of (agent_message_text (parts_of item) items) = text_of items @ agent_text item"
  "calls_of (agent_message_text (parts_of item) items) = calls_of items"
  by (simp_all add: agent_message_text_def agent_text_def Let_def)

lemma item_output_result:
  assumes "nonempty_str item ''type'' = Some t" and "validate_openai_ordinary_item_policy t item = Inr c"
    and "item_output codec provider c item items = (items', refusal)"
  shows "refusal = last_refusal (item_refusals item) \<and> text_of items' = text_of items @ item_text item
    \<and> calls_of items' = calls_of items @ response_item_calls codec provider item"
proof -
  have type: "str_field item ''type'' = t" using assms(1) by (simp add: str_field_def nonempty_str_iff)
  note cl = classify_type [OF assms(1,2)]
  show ?thesis
  proof (cases "t = ''message''")
    case True
    with assms(3) cl have "message_parts (parts_of item) items None = (items', refusal)"
      by (simp add: item_output_def parts_of_def)
    from message_parts_result [OF this] type True show ?thesis
      by (simp add: item_text_def response_item_calls_def item_refusals_def last_refusal_def Let_def)
  next
    case False
    with cl assms(3) type show ?thesis
      by (auto simp: item_output_def item_text_def response_item_calls_def item_refusals_def last_refusal_def
          item_tool_call_def agent_message_text_result simp flip: parts_of_def split: if_splits)
  qed
qed

text \<open>Decoding succeeds on exactly the accepted items, and adds what the item contributes.\<close>

lemma parse_item_iff:
  "parse_response_output_item codec provider item items replay = (Inr (refusal, items', replay') :: ('http, string) ProviderError + _)
     \<longleftrightarrow> (\<exists>t c. nonempty_str item ''type'' = Some t
           \<and> validate_openai_ordinary_item_policy t item = (Inr c :: ('http, string) ProviderError + _)
           \<and> item_output codec provider c item items = (items', refusal) \<and> replay' = replay @ [item_record codec provider item])"
  unfolding parse_response_output_item_def and_then_Inr_iff replay_item_type_iff
  by (auto simp: ProviderReplayItem_new_with_display_def item_record_def case_prod_beta prod_eq_iff)

lemma parse_item:
  "(\<exists>r. parse_response_output_item codec provider item items replay = (Inr r :: ('http, string) ProviderError + _)) \<longleftrightarrow> item_ok item"
proof -
  have "(\<exists>r. parse_response_output_item codec provider item items replay = (Inr r :: ('http, string) ProviderError + _)) \<longleftrightarrow>
      (\<exists>t c. nonempty_str item ''type'' = Some t
        \<and> validate_openai_ordinary_item_policy t item = (Inr c :: ('http, string) ProviderError + _))"
    unfolding split_paired_Ex parse_item_iff by (metis surj_pair)
  also have "\<dots> \<longleftrightarrow> item_ok item"
    using policy_iff [of item] by (cases "nonempty_str item ''type''") (auto simp: item_ok_def)
  finally show ?thesis .
qed

lemma parse_item_result:
  assumes "parse_response_output_item codec provider item items replay = (Inr (refusal, items', replay') :: ('http, string) ProviderError + _)"
  shows "refusal = last_refusal (item_refusals item) \<and> text_of items' = text_of items @ item_text item
    \<and> calls_of items' = calls_of items @ response_item_calls codec provider item \<and> replay' = replay @ [item_record codec provider item]"
  using assms unfolding parse_item_iff by (metis item_output_result)

text \<open>A whole output.\<close>

definition refused :: "Value list \<Rightarrow> string option" where
  "refused items = last_refusal (concat (map item_refusals items))"

lemma last_refusal_append:
  "last_refusal (rs @ rs') = (case last_refusal rs' of Some r \<Rightarrow> Some r | None \<Rightarrow> last_refusal rs)"
  by (simp add: last_refusal_def)

lemma materialize_items_ok:
  "(\<exists>out'. materialize_items codec provider items out = (Inr out' :: ('http, string) ProviderError + _)) \<longleftrightarrow> list_all item_ok items"
proof (induction items arbitrary: out)
  case (Cons item items)
  show ?case
  proof (cases "parse_response_output_item codec provider item (mo_items out) (mo_provider_replay out) :: ('http, string) ProviderError + _")
    case (Inl e)
    then have "\<not> item_ok item" by (metis parse_item sum.distinct(1))
    with Inl show ?thesis by simp
  next
    case (Inr r)
    then have "item_ok item" by (metis parse_item)
    with Inr Cons show ?thesis by (simp add: Let_def split: prod.split)
  qed
qed simp

lemma materialize_items_result:
  "materialize_items codec provider items out = (Inr out' :: ('http, string) ProviderError + _) \<Longrightarrow>
     text_of (mo_items out') = text_of (mo_items out) @ concat (map item_text items)
     \<and> calls_of (mo_items out') = calls_of (mo_items out) @ concat (map (response_item_calls codec provider) items)
     \<and> mo_provider_replay out' = mo_provider_replay out @ map (item_record codec provider) items
     \<and> mo_stop_reason out' = (if refused items = None then mo_stop_reason out else StopRefusal)
     \<and> mo_stop_details out' = (case refused items of None \<Rightarrow> mo_stop_details out
         | Some message \<Rightarrow> Some \<lparr>sd_category = None, sd_explanation = Some message\<rparr>)"
proof (induction items arbitrary: out)
  case (Cons item items)
  from Cons.prems obtain refusal parsed replay where
    p: "parse_response_output_item codec provider item (mo_items out) (mo_provider_replay out)
        = (Inr (refusal, parsed, replay) :: ('http, string) ProviderError + _)"
    and m: "materialize_items codec provider items
        (case refusal of
           Some message \<Rightarrow> out\<lparr>mo_items := parsed, mo_provider_replay := replay, mo_stop_reason := StopRefusal,
             mo_stop_details := Some \<lparr>sd_category = None, sd_explanation = Some message\<rparr>\<rparr>
         | None \<Rightarrow> out\<lparr>mo_items := parsed, mo_provider_replay := replay\<rparr>) = (Inr out' :: ('http, string) ProviderError + _)"
    by (auto simp: and_then_Inr_iff Let_def)
  from parse_item_result [OF p] Cons.IH [OF m] show ?case
    by (simp add: refused_def last_refusal_append split: option.splits)
qed (simp add: refused_def last_refusal_def)

section \<open>Identities and indexes\<close>

text \<open>The later of two versions of an item has its type and the ids it had.\<close>

definition same_item :: "Value \<Rightarrow> Value \<Rightarrow> bool" where
  "same_item earlier later \<longleftrightarrow>
     nonempty_str earlier ''type'' \<noteq> None \<and> nonempty_str later ''type'' = nonempty_str earlier ''type''
     \<and> list_all (\<lambda>field. nonempty_str earlier field = None \<or> get_str later field = nonempty_str earlier field) identity_fields"

lemma reconcile_iff:
  "reconcile_openai_item_identity index l earlier l' later = Inr () \<longleftrightarrow> same_item earlier later"
proof (cases "nonempty_str earlier ''type''")
  case (Some t)
  show ?thesis
  proof (cases "nonempty_str later ''type''")
    case None
    with Some show ?thesis
      by (simp add: reconcile_openai_item_identity_def replay_item_type_then same_item_def)
  next
    case (Some t')
    with \<open>nonempty_str earlier ''type'' = Some t\<close> show ?thesis
      by (auto simp: reconcile_openai_item_identity_def replay_item_type_then same_item_def provider_error_def
          try_all_iff list_all_iff split: option.splits) (metis not_None_eq)+
  qed
qed (simp add: reconcile_openai_item_identity_def replay_item_type_then same_item_def)

definition item_identities :: "Value \<Rightarrow> (string \<times> string \<times> string) list" where
  "item_identities item =
     List.map_filter (\<lambda>field. map_option (\<lambda>ident. (str_field item ''type'', field, ident)) (nonempty_str item field)) identity_fields"

text \<open>Accepted items, no two of one type with an id in common.\<close>

definition output_ok :: "Value list \<Rightarrow> bool" where
  "output_ok items \<longleftrightarrow> list_all item_ok items \<and> distinct (concat (map item_identities items))"

lemma validate_indices_iff: "validate_output_indices k os = Inr () \<longleftrightarrow> map fst os = [k..<k + length os]"
proof (induction k os rule: validate_output_indices.induct)
  case (2 k i item os)
  have "[k..<k + length ((i, item) # os)] = k # [k + 1..<k + 1 + length os]" by (simp add: upt_conv_Cons del: upt_Suc)
  with 2 show ?case by (auto simp: provider_error_def simp del: upt_Suc)
qed simp

lemma insert_identities_iff:
  "(\<exists>ids'. insert_identities i t item fs ids = (Inr ids' :: ('http, string) ProviderError + _)) \<longleftrightarrow>
     (let keys = List.map_filter (\<lambda>field. map_option (\<lambda>ident. (t, field, ident)) (nonempty_str item field)) fs
      in distinct keys \<and> set keys \<inter> dom ids = {})"
  by (induction fs arbitrary: ids)
    (auto simp: Let_def provider_error_def dom_def List.map_filter_simps split: option.splits if_splits)

lemma insert_identities_dom:
  "insert_identities i t item fs ids = (Inr ids' :: ('http, string) ProviderError + _) \<Longrightarrow>
     dom ids' = dom ids \<union> set (List.map_filter (\<lambda>field. map_option (\<lambda>ident. (t, field, ident)) (nonempty_str item field)) fs)"
  by (induction fs arbitrary: ids)
    (auto simp: provider_error_def List.map_filter_simps split: option.splits)

lemma validate_identities_iff:
  "validate_output_identities os ids = (Inr () :: ('http, string) ProviderError + unit) \<longleftrightarrow>
     list_all (\<lambda>item. nonempty_str item ''type'' \<noteq> None) (map snd os)
     \<and> distinct (concat (map item_identities (map snd os))) \<and> set (concat (map item_identities (map snd os))) \<inter> dom ids = {}"
proof (induction os arbitrary: ids)
  case (Cons e os)
  obtain i item where e: "e = (i, item)" by fastforce
  show ?case
  proof (cases "nonempty_str item ''type''")
    case None
    then show ?thesis by (simp add: e replay_item_type_then)
  next
    case (Some t)
    then have type: "str_field item ''type'' = t" by (simp add: str_field_def nonempty_str_iff)
    let ?ins = "insert_identities i t item identity_fields ids :: ('http, string) ProviderError + _"
    show ?thesis
    proof (cases ?ins)
      case (Inl x)
      then have "\<not> (\<exists>ids'. ?ins = Inr ids')" by simp
      then have "\<not> (distinct (item_identities item) \<and> set (item_identities item) \<inter> dom ids = {})"
        unfolding insert_identities_iff Let_def item_identities_def type .
      with Inl Some show ?thesis by (auto simp: e replay_item_type_then)
    next
      case (Inr ids')
      then have "\<exists>ids'. ?ins = Inr ids'" by simp
      then have "distinct (item_identities item) \<and> set (item_identities item) \<inter> dom ids = {}"
        unfolding insert_identities_iff Let_def item_identities_def type .
      moreover have "dom ids' = dom ids \<union> set (item_identities item)"
        using insert_identities_dom [OF Inr] by (simp add: item_identities_def type)
      ultimately show ?thesis using Inr Some Cons.IH [of ids'] by (auto simp: e replay_item_type_then)
    qed
  qed
qed simp

lemma item_ok_typed: "item_ok item \<Longrightarrow> nonempty_str item ''type'' \<noteq> None"
  by (auto simp: item_ok_def split: option.splits)

lemma validate_output_items_iff:
  "validate_output_items os = (Inr () :: ('http, string) ProviderError + unit) \<longleftrightarrow>
     map fst os = [0..<length os] \<and> list_all (\<lambda>item. nonempty_str item ''type'' \<noteq> None) (map snd os)
     \<and> distinct (concat (map item_identities (map snd os)))"
  by (simp add: validate_output_items_def and_then_Inr_iff validate_indices_iff validate_identities_iff)

lemma enumerate_iff: "map fst os = [0..<length os] \<longleftrightarrow> os = enumerate 0 (map snd os)"
  by (metis add_0 enumerate_eq_zip length_map map_fst_enumerate zip_map_fst_snd)

lemma materialize_ok:
  "(\<exists>out. materialize_output_items codec os provider = (Inr out :: ('http, string) ProviderError + _)) \<longleftrightarrow>
     os = enumerate 0 (map snd os) \<and> output_ok (map snd os)"
proof -
  have typed: "list_all (\<lambda>item. nonempty_str item ''type'' \<noteq> None) items" if "list_all item_ok items" for items
    using that item_ok_typed by (auto simp: list_all_iff)
  have "(\<exists>out. materialize_output_items codec os provider = (Inr out :: ('http, string) ProviderError + _)) \<longleftrightarrow>
      validate_output_items os = (Inr () :: ('http, string) ProviderError + unit) \<and> list_all item_ok (map snd os)"
    by (simp add: materialize_output_items_def and_then_Inr_iff materialize_items_ok)
  with typed [of "map snd os"] show ?thesis
    unfolding validate_output_items_iff enumerate_iff [symmetric] output_ok_def by blast
qed

text \<open>The response that stands for a whole output.\<close>

definition decodes_to :: "json_codec \<Rightarrow> ProviderKind \<Rightarrow> Value list \<Rightarrow> ResponsesMaterializedOutput \<Rightarrow> bool" where
  "decodes_to codec provider items out \<longleftrightarrow>
     (case refused items of
        Some message \<Rightarrow> mo_items out = [] \<and> mo_provider_replay out = [] \<and> mo_stop_reason out = StopRefusal
          \<and> mo_stop_details out = Some \<lparr>sd_category = None, sd_explanation = Some message\<rparr>
      | None \<Rightarrow> text_of (mo_items out) = concat (map item_text items)
          \<and> calls_of (mo_items out) = concat (map (response_item_calls codec provider) items)
          \<and> mo_provider_replay out = map (item_record codec provider) items
          \<and> mo_stop_reason out = StopComplete \<and> mo_stop_details out = None)"

lemma materialize_result:
  assumes "materialize_output_items codec os provider = (Inr out :: ('http, string) ProviderError + _)"
  shows "decodes_to codec provider (map snd os) out"
proof -
  from assms obtain out' where
    m: "materialize_items codec provider (map snd os)
         \<lparr>mo_items = [], mo_provider_replay = [], mo_stop_reason = StopComplete, mo_stop_details = None\<rparr>
       = (Inr out' :: ('http, string) ProviderError + _)"
    and out: "out = (if mo_stop_reason out' = StopRefusal then out'\<lparr>mo_items := [], mo_provider_replay := []\<rparr> else out')"
    by (auto simp: materialize_output_items_def and_then_Inr_iff)
  from materialize_items_result [OF m] out show ?thesis
    by (cases "refused (map snd os)") (simp_all add: decodes_to_def)
qed

section \<open>The order of events\<close>

definition item_event :: "string \<Rightarrow> Value \<Rightarrow> (nat \<times> Value) option" where
  "item_event t ev =
     (if get_str ev ''type'' = Some t
      then Option.bind (get_u64 ev ''output_index'') (\<lambda>i.
             Option.bind (Value_get ev ''item'') (\<lambda>item.
               if nonempty_str item ''type'' = None then None else Some (unat i, item)))
      else None)"

definition added_events :: "Value list \<Rightarrow> (nat \<times> Value) list" where
  "added_events evs = List.map_filter (item_event ''response.output_item.added'') evs"

definition done_events :: "Value list \<Rightarrow> (nat \<times> Value) list" where
  "done_events evs = List.map_filter (item_event ''response.output_item.done'') evs"

text \<open>An announced item may still lack fields, but not ask for something the client cannot do.\<close>

definition announce_ok :: "Value \<Rightarrow> bool" where
  "announce_ok item \<longleftrightarrow>
     (case nonempty_str item ''type'' of
        None \<Rightarrow> False
      | Some t \<Rightarrow>
          if t = ''tool_search_call'' then get_str item ''execution'' \<in> {None, Some ''server''}
          else t \<in> {''message'', ''agent_message'', ''function_call'', ''custom_tool_call''} \<union> set hosted_types)"

definition response_event_ok :: "Value list \<Rightarrow> Value \<Rightarrow> bool" where
  "response_event_ok seen ev \<longleftrightarrow>
     (if get_str ev ''type'' = Some ''response.output_item.added''
      then (case item_event ''response.output_item.added'' ev of
          None \<Rightarrow> False
        | Some (i, item) \<Rightarrow> announce_ok item \<and> i \<notin> fst ` set (done_events seen) \<and> i \<notin> fst ` set (added_events seen))
      else if get_str ev ''type'' = Some ''response.output_item.done''
      then (case item_event ''response.output_item.done'' ev of
          None \<Rightarrow> False
        | Some (i, item) \<Rightarrow> i \<notin> fst ` set (done_events seen)
            \<and> list_all (\<lambda>(j, added). j = i \<longrightarrow> same_item added item) (added_events seen))
      else get_str ev ''type'' \<notin> {Some ''response.failed'', Some ''response.incomplete'', Some ''response.completed'', Some ''error''})"

text \<open>Every event fits what came before it.\<close>

definition orderly :: "Value list \<Rightarrow> bool" where
  "orderly evs \<longleftrightarrow> (\<forall>i < length evs. response_event_ok (take i evs) (evs ! i))"

lemma orderly_Nil [simp]: "orderly []"
  by (simp add: orderly_def)

lemma orderly_snoc: "orderly (evs @ [ev]) \<longleftrightarrow> orderly evs \<and> response_event_ok evs ev"
  by (auto simp: orderly_def less_Suc_eq nth_append)

lemma orderly_at: "orderly (seen @ ev # rest) \<Longrightarrow> response_event_ok seen ev"
  by (auto simp: orderly_def dest: spec [of _ "length seen"])

lemma events_snoc:
  "added_events (evs @ [ev]) = added_events evs @ (case item_event ''response.output_item.added'' ev of None \<Rightarrow> [] | Some e \<Rightarrow> [e])"
  "done_events (evs @ [ev]) = done_events evs @ (case item_event ''response.output_item.done'' ev of None \<Rightarrow> [] | Some e \<Rightarrow> [e])"
  by (simp_all add: added_events_def done_events_def List.map_filter_def split: option.split)

lemma events_Nil [simp]: "added_events [] = []" "done_events [] = []"
  by (simp_all add: added_events_def done_events_def)

lemma orderly_distinct: "orderly evs \<Longrightarrow> distinct (map fst (added_events evs)) \<and> distinct (map fst (done_events evs))"
proof (induction evs rule: rev_induct)
  case (snoc ev evs)
  then have "orderly evs" "response_event_ok evs ev" by (simp_all add: orderly_snoc)
  with snoc.IH show ?case
    by (auto simp: events_snoc response_event_ok_def item_event_def split: option.splits if_splits)
qed simp

section \<open>The state after some events\<close>

definition state_after :: "ProviderKind \<Rightarrow> Value list \<Rightarrow> ResponsesStreamState" where
  "state_after provider evs = (ResponsesStreamState_new provider)
     \<lparr>ro_added_items := btree_of (added_events evs), ro_output_items := btree_of (done_events evs)\<rparr>"

lemma state_after_Nil: "state_after provider [] = ResponsesStreamState_new provider"
  by (simp add: state_after_def ResponsesStreamState_new_def btree_of_def)

lemma btree_of_snoc: "btree_of (kvs @ [(k, v)]) = btree_insert k v (btree_of kvs)"
  by (simp add: btree_of_def)

lemma btree_of_lookup:
  "distinct (map fst kvs) \<Longrightarrow> map_of (btree_of kvs) = map_of kvs"
  by (simp add: btree_of_map_of map_of_inject_set rev_map [symmetric])

lemma btree_of_None: "map_of (btree_of kvs) k = None \<longleftrightarrow> k \<notin> fst ` set kvs"
  by (simp add: btree_of_map_of map_of_eq_None_iff)

lemma output_item_event_iff:
  "output_item_event ev t = Inr (i, item, item_type) \<longleftrightarrow>
     map_option unat (get_u64 ev ''output_index'') = Some i \<and> Value_get ev ''item'' = Some item
     \<and> nonempty_str item ''type'' = Some item_type"
  by (auto simp: output_item_event_def and_then_Inr_iff replay_item_type_iff)

lemma item_event_iff:
  "get_str ev ''type'' = Some t \<Longrightarrow> item_event t ev = Some (i, item) \<longleftrightarrow>
     map_option unat (get_u64 ev ''output_index'') = Some i \<and> Value_get ev ''item'' = Some item
     \<and> nonempty_str item ''type'' \<noteq> None"
  by (auto simp: item_event_def bind_eq_Some_conv)

lemma added_policy_iff:
  assumes "nonempty_str item ''type'' = Some t"
  shows "validate_openai_added_item_policy t item = Inr () \<longleftrightarrow> announce_ok item"
  using assms
  by (cases "get_str item ''execution''")
    (simp_all add: validate_openai_added_item_policy_def classify_openai_ordinary_item_def announce_ok_def
      provider_error_def client_executed_types_def hosted_types_def)

lemma output_item_event_cases:
  assumes "get_str ev ''type'' = Some t"
  shows "item_event t ev = None \<Longrightarrow> \<exists>e. output_item_event ev t' = (Inl e :: ('http, string) ProviderError + _)"
    and "item_event t ev = Some (i, item) \<Longrightarrow>
      output_item_event ev t' = (Inr (i, item, str_field item ''type'') :: ('http, string) ProviderError + _)
        \<and> nonempty_str item ''type'' = Some (str_field item ''type'')"
proof -
  show "\<exists>e. output_item_event ev t' = (Inl e :: ('http, string) ProviderError + _)" if n: "item_event t ev = None"
  proof (cases "output_item_event ev t' :: ('http, string) ProviderError + _")
    case (Inr r)
    obtain i item item_type where "r = (i, item, item_type)" by (cases r)
    with Inr have "item_event t ev = Some (i, item)"
      unfolding item_event_iff [OF assms] by (simp add: output_item_event_iff)
    with n show ?thesis by simp
  qed simp
  show "output_item_event ev t' = (Inr (i, item, str_field item ''type'') :: ('http, string) ProviderError + _)
      \<and> nonempty_str item ''type'' = Some (str_field item ''type'')" if "item_event t ev = Some (i, item)"
    using that unfolding item_event_iff [OF assms] output_item_event_iff
    by (auto simp: str_field_def nonempty_str_iff)
qed

lemma step_added:
  assumes t: "get_str ev ''type'' = Some ''response.output_item.added''"
  shows "record_added_item ev (state_after provider seen) = (Inr st :: ('http, string) ProviderError + _) \<longleftrightarrow>
     response_event_ok seen ev \<and> st = state_after provider (seen @ [ev])"
proof (cases "item_event ''response.output_item.added'' ev")
  case None
  with output_item_event_cases(1) [OF t None, of "''response.output_item.added''", where 'http = 'http] t show ?thesis
    by (auto simp: record_added_item_def response_event_ok_def)
next
  case (Some e)
  obtain i item where e: "e = (i, item)" by fastforce
  note ev = output_item_event_cases(2) [OF t Some [unfolded e], of "''response.output_item.added''", where 'http = 'http]
  have "item_event ''response.output_item.done'' ev = None" using t by (simp add: item_event_def)
  with ev Some t added_policy_iff [of item "str_field item ''type''"] show ?thesis
    by (auto simp: record_added_item_def and_then_Inr_iff provider_error_def e response_event_ok_def events_snoc state_after_def
        btree_of_snoc btree_of_None)
qed

lemma step_done:
  assumes "orderly seen" and t: "get_str ev ''type'' = Some ''response.output_item.done''"
  shows "record_done_item ev (state_after provider seen) = (Inr st :: ('http, string) ProviderError + _) \<longleftrightarrow>
     response_event_ok seen ev \<and> st = state_after provider (seen @ [ev])"
proof (cases "item_event ''response.output_item.done'' ev")
  case None
  with output_item_event_cases(1) [OF t None, of "''response.output_item.done''", where 'http = 'http] t show ?thesis
    by (auto simp: record_done_item_def response_event_ok_def)
next
  case (Some e)
  obtain i item where e: "e = (i, item)" by fastforce
  note ev = output_item_event_cases(2) [OF t Some [unfolded e], of "''response.output_item.done''", where 'http = 'http]
  have dist: "distinct (map fst (added_events seen))" using orderly_distinct [OF assms(1)] by simp
  have none: "item_event ''response.output_item.added'' ev = None" using t by (simp add: item_event_def)
  show ?thesis
  proof (cases "map_of (added_events seen) i")
    case None
    then have "list_all (\<lambda>(j, added). j = i \<longrightarrow> same_item added item) (added_events seen)"
      by (force simp: list_all_iff map_of_eq_None_iff)
    with ev Some t none None show ?thesis
      by (auto simp: record_done_item_def provider_error_def e response_event_ok_def events_snoc state_after_def
          btree_of_snoc btree_of_None btree_of_lookup [OF dist])
  next
    case (Some added)
    then have "list_all (\<lambda>(j, added). j = i \<longrightarrow> same_item added item) (added_events seen) \<longleftrightarrow> same_item added item"
      using eq_key_imp_eq_value [OF dist] by (auto simp: list_all_iff dest: map_of_SomeD)
    with ev t none Some \<open>item_event _ ev = Some e\<close> show ?thesis
      by (auto simp: record_done_item_def and_then_Inr_iff provider_error_def e response_event_ok_def events_snoc state_after_def
          btree_of_snoc btree_of_None btree_of_lookup [OF dist] reconcile_openai_added_item_def reconcile_iff)
  qed
qed

lemma step_other:
  assumes "get_str ev ''type'' \<noteq> Some ''response.completed''" and "orderly seen"
  shows "responses_process_event codec ev (state_after provider seen) = (Inr (control, st) :: ('http, string) ProviderError + _) \<longleftrightarrow>
     response_event_ok seen ev \<and> control = Continue \<and> st = state_after provider (seen @ [ev])"
proof -
  consider "get_str ev ''type'' = Some ''response.output_item.added''" | "get_str ev ''type'' = Some ''response.output_item.done''"
    | "get_str ev ''type'' \<notin> {Some ''response.output_item.added'', Some ''response.output_item.done''}" by blast
  then show ?thesis
  proof cases
    case 1
    with step_added [OF 1] show ?thesis by (auto simp: responses_process_event_def and_then_Inr_iff)
  next
    case 2
    with step_done [OF assms(2) 2] show ?thesis by (auto simp: responses_process_event_def and_then_Inr_iff)
  next
    case 3
    then have "item_event ''response.output_item.added'' ev = None" "item_event ''response.output_item.done'' ev = None"
      by (simp_all add: item_event_def)
    then have "state_after provider (seen @ [ev]) = state_after provider seen" by (simp add: state_after_def events_snoc)
    with 3 assms(1) show ?thesis by (auto simp: responses_process_event_def response_event_ok_def Let_def)
  qed
qed

lemma split_Cons_iff:
  "(\<exists>pre final post. x # xs = pre @ final # post \<and> Q pre final) \<longleftrightarrow>
     Q [] x \<or> (\<exists>pre final post. xs = pre @ final # post \<and> Q (x # pre) final)"
  by (auto simp: Cons_eq_append_conv)

text \<open>A run ends at the first \<open>response.completed\<close>, and only an orderly stream gets there.\<close>

lemma run_responses:
  assumes "orderly seen"
  shows "run_events (responses_process_event codec) evs (state_after provider seen) = (Inr st :: ('http, string) ProviderError + _) \<longleftrightarrow>
     (\<exists>pre final post. evs = pre @ final # post \<and> orderly (seen @ pre) \<and> get_str final ''type'' = Some ''response.completed''
        \<and> response_completed codec final (state_after provider (seen @ pre)) = (Inr st :: ('http, string) ProviderError + _))
     \<or> orderly (seen @ evs) \<and> st = state_after provider (seen @ evs)"
  using assms
proof (induction evs arbitrary: seen)
  case (Cons ev evs)
  show ?case
  proof (cases "get_str ev ''type'' = Some ''response.completed''")
    case True
    have none: "\<not> orderly (seen @ ev # rest)" for rest
    proof
      assume "orderly (seen @ ev # rest)"
      then have "response_event_ok seen ev" by (rule orderly_at)
      with True show False by (simp add: response_event_ok_def)
    qed
    have "run_events (responses_process_event codec) (ev # evs) (state_after provider seen)
        = (response_completed codec ev (state_after provider seen) :: ('http, string) ProviderError + _)"
      using True by (cases "response_completed codec ev (state_after provider seen) :: ('http, string) ProviderError + _")
        (simp_all add: responses_process_event_def)
    with none True Cons.prems show ?thesis unfolding split_Cons_iff by simp
  next
    case False
    note step = step_other [OF False Cons.prems]
    show ?thesis
    proof (cases "response_event_ok seen ev")
      case True
      with Cons.prems have "orderly (seen @ [ev])" by (simp add: orderly_snoc)
      moreover have "responses_process_event codec ev (state_after provider seen)
          = (Inr (Continue, state_after provider (seen @ [ev])) :: ('http, string) ProviderError + _)"
        using True by (simp add: step)
      ultimately show ?thesis using Cons.IH [of "seen @ [ev]"] False unfolding split_Cons_iff by simp
    next
      case notok: False
      then have "\<not> orderly (seen @ ev # rest)" for rest by (auto dest: orderly_at)
      moreover from notok step obtain e where "responses_process_event codec ev (state_after provider seen) = (Inl e :: ('http, string) ProviderError + _)"
        by (metis sumE surj_pair)
      ultimately show ?thesis using False unfolding split_Cons_iff by simp
    qed
  qed
qed auto

section \<open>The last event\<close>

text \<open>A completed response with an id; what it lists as output, when it does.\<close>

definition final_ok :: "Value \<Rightarrow> bool" where
  "final_ok ev \<longleftrightarrow> get_str ev ''type'' = Some ''response.completed''
     \<and> (case get_object ev ''response'' of
          None \<Rightarrow> False
        | Some response \<Rightarrow> nonempty_str (JObject response) ''id'' \<noteq> None
            \<and> map_of response ''status'' \<in> {None, Some (JString ''completed'')}
            \<and> (map_of response ''output'' = None \<or> get_array (JObject response) ''output'' \<noteq> None))"

definition terminal_items :: "Value \<Rightarrow> Value list" where
  "terminal_items ev = unwrap_or (get_array (unwrap_or (Value_get ev ''response'') JNull) ''output'') []"

definition final_usage :: "Value \<Rightarrow> ProviderUsage option" where
  "final_usage ev = Option.bind (Value_get (unwrap_or (Value_get ev ''response'') JNull) ''usage'') openai_usage"

text \<open>
  The item at an output index: the one that was finished there, or else the one that the last
  event lists there. Announced items must have been finished, and what the last event repeats
  must be the same items.
\<close>

definition item_at :: "Value list \<Rightarrow> Value \<Rightarrow> nat \<Rightarrow> Value option" where
  "item_at evs final i =
     (case map_of (done_events evs) i of
        Some item \<Rightarrow> Some item
      | None \<Rightarrow> if i < length (terminal_items final) then Some (terminal_items final ! i) else None)"

definition collected :: "Value list \<Rightarrow> Value \<Rightarrow> Value list \<Rightarrow> bool" where
  "collected evs final items \<longleftrightarrow>
     (\<forall>i. item_at evs final i = (if i < length items then Some (items ! i) else None))
     \<and> fst ` set (added_events evs) \<subseteq> fst ` set (done_events evs)
     \<and> (\<forall>i < length (terminal_items final). \<forall>item. map_of (done_events evs) i = Some item \<longrightarrow>
          same_item item (terminal_items final ! i))"

lemma terminal_items_result:
  assumes "btree_ok rec"
  shows "reconcile_terminal_items outs k ts rec = (Inr os :: ('http, string) ProviderError + _) \<Longrightarrow>
      btree_ok os \<and> (\<forall>j < length ts. \<forall>d. map_of outs (k + j) = Some d \<longrightarrow> same_item d (ts ! j))
      \<and> (\<forall>i. map_of os i = (if map_of outs i = None \<and> k \<le> i \<and> i < k + length ts then Some (ts ! (i - k)) else map_of rec i))"
  using assms
proof (induction ts arbitrary: k rec)
  case (Cons t ts)
  show ?case
  proof (cases "map_of outs k")
    case None
    with Cons.IH [of "k + 1" "btree_insert k t rec"] Cons.prems have
      ih: "btree_ok os" "\<forall>j < length ts. \<forall>d. map_of outs (k + 1 + j) = Some d \<longrightarrow> same_item d (ts ! j)"
        "\<forall>i. map_of os i = (if map_of outs i = None \<and> k + 1 \<le> i \<and> i < k + 1 + length ts then Some (ts ! (i - (k + 1)))
          else map_of (btree_insert k t rec) i)"
      by (simp_all add: btree_insert_ok)
    have "map_of os i = (if map_of outs i = None \<and> k \<le> i \<and> i < k + length (t # ts) then Some ((t # ts) ! (i - k)) else map_of rec i)" for i
      using ih(3) [rule_format, of i] None by (auto simp: nth_Cons' Suc_diff_Suc less_Suc_eq)
    with ih(1,2) None show ?thesis by (auto simp: nth_Cons split: nat.split)
  next
    case (Some d)
    with Cons.prems have same: "same_item d t"
      and rest: "reconcile_terminal_items outs (k + 1) ts rec = (Inr os :: ('http, string) ProviderError + _)"
      by (simp_all add: and_then_Inr_iff reconcile_iff)
    note ih = Cons.IH [OF rest Cons.prems(2)]
    have "map_of os i = (if map_of outs i = None \<and> k \<le> i \<and> i < k + length (t # ts) then Some ((t # ts) ! (i - k)) else map_of rec i)" for i
      using conjunct2 [OF conjunct2 [OF ih], rule_format, of i] Some by (cases "i = k") (auto simp: nth_Cons' Suc_diff_Suc less_Suc_eq)
    with ih same Some show ?thesis by (auto simp: nth_Cons split: nat.split)
  qed
qed auto

lemma terminal_items_succeeds:
  "(\<forall>j < length ts. \<forall>d. map_of outs (k + j) = Some d \<longrightarrow> same_item d (ts ! j)) \<Longrightarrow>
     \<exists>os. reconcile_terminal_items outs k ts rec = (Inr os :: ('http, string) ProviderError + _)"
proof (induction ts arbitrary: k rec)
  case (Cons t ts)
  from Cons.prems have "\<forall>j < length ts. \<forall>d. map_of outs (k + 1 + j) = Some d \<longrightarrow> same_item d (ts ! j)"
    by (auto dest: spec [of _ "Suc _"])
  from Cons.IH [OF this] Cons.prems [rule_format, of 0] show ?case
    by (auto simp: and_then_Inr_iff reconcile_iff split: option.split)
qed simp

text \<open>A sorted map whose lookups are those of a list is the numbered list.\<close>

lemma enumerate_unique:
  assumes "btree_ok os"
  shows "os = enumerate 0 items \<longleftrightarrow> (\<forall>i. map_of os i = (if i < length items then Some (items ! i) else None))"
proof -
  have lookup: "map_of (enumerate 0 items) i = (if i < length items then Some (items ! i) else None)" for i
    by (auto simp: enumerate_eq_zip map_of_eq_None_iff set_zip image_iff) (metis add_0 nth_upt)
  have "btree_ok (enumerate 0 items)" by (simp add: btree_ok_def)
  with assms lookup show ?thesis using btree.lookup_ext by (metis ext)
qed

section \<open>Whole streams\<close>

lemma added_done_same:
  "orderly evs \<Longrightarrow> (i, a) \<in> set (added_events evs) \<Longrightarrow> (i, d) \<in> set (done_events evs) \<Longrightarrow> same_item a d"
proof (induction evs rule: rev_induct)
  case (snoc ev evs)
  then have ok: "orderly evs" "response_event_ok evs ev" by (simp_all add: orderly_snoc)
  consider (ad) "get_str ev ''type'' = Some ''response.output_item.added''" | (dn) "get_str ev ''type'' = Some ''response.output_item.done''"
    | (no) "item_event ''response.output_item.added'' ev = None" "item_event ''response.output_item.done'' ev = None"
    unfolding item_event_def by metis
  then show ?case
  proof cases
    case ad
    then have "item_event ''response.output_item.done'' ev = None" by (simp add: item_event_def)
    with snoc.prems(2,3) ok ad snoc.IH show ?thesis
      by (force simp: events_snoc response_event_ok_def split: option.splits)
  next
    case dn
    then have "item_event ''response.output_item.added'' ev = None" by (simp add: item_event_def)
    with snoc.prems(2,3) ok dn snoc.IH show ?thesis
      by (auto simp: events_snoc response_event_ok_def list_all_iff split: option.splits)
  next
    case no
    with snoc ok show ?thesis by (simp add: events_snoc)
  qed
qed simp

lemma reconcile_added_iff:
  assumes "orderly evs"
  shows "reconcile_added_items (state_after provider evs) = (Inr () :: ('http, string) ProviderError + unit) \<longleftrightarrow>
     fst ` set (added_events evs) \<subseteq> fst ` set (done_events evs)"
proof -
  have dist: "distinct (map fst (added_events evs))" "distinct (map fst (done_events evs))"
    using orderly_distinct [OF assms] by simp_all
  have "e \<in> set (btree_of (added_events evs)) \<longleftrightarrow> e \<in> set (added_events evs)" for e
    using map_of_eq_Some_iff [OF dist(1), of "fst e" "snd e"]
      map_of_eq_Some_iff [OF btree_ok_distinct [OF btree_of_ok], of "added_events evs" "fst e" "snd e"]
    by (simp add: btree_of_lookup [OF dist(1)])
  then have "set (btree_of (added_events evs)) = set (added_events evs)" by blast
  then have "reconcile_added_items (state_after provider evs) = (Inr () :: ('http, string) ProviderError + unit) \<longleftrightarrow>
      (\<forall>(i, a) \<in> set (added_events evs). \<exists>d. map_of (done_events evs) i = Some d \<and> same_item a d)"
    by (simp add: reconcile_added_items_def try_all_iff and_then_Inr_iff state_after_def btree_of_lookup dist
        reconcile_openai_added_item_def reconcile_iff split_beta)
  also have "\<dots> \<longleftrightarrow> (\<forall>(i, a) \<in> set (added_events evs). i \<in> fst ` set (done_events evs))"
  proof -
    have "(\<exists>d. map_of (done_events evs) i = Some d \<and> same_item a d) \<longleftrightarrow> i \<in> fst ` set (done_events evs)"
      if "(i, a) \<in> set (added_events evs)" for i a
      using added_done_same [OF assms that] by (metis dist(2) dom_map_of_conv_image_fst domD domI map_of_SomeD)
    then show ?thesis by fastforce
  qed
  also have "\<dots> \<longleftrightarrow> fst ` set (added_events evs) \<subseteq> fst ` set (done_events evs)" by force
  finally show ?thesis .
qed

text \<open>The map of finished items, completed by what the last event lists.\<close>

lemma terminal_output_iff:
  assumes "orderly evs" and r: "Value_get final ''response'' = Some (JObject response)"
  shows "(case map_of response ''output'' of
         Some terminal \<Rightarrow> reconcile_terminal_output (state_after provider evs) terminal
       | None \<Rightarrow> Inr (ro_output_items (state_after provider evs))) = (Inr output_items :: ('http, string) ProviderError + _) \<longleftrightarrow>
      (map_of response ''output'' = None \<or> get_array (JObject response) ''output'' \<noteq> None)
      \<and> btree_ok output_items \<and> map_of output_items = item_at evs final
      \<and> (\<forall>i < length (terminal_items final). \<forall>item. map_of (done_events evs) i = Some item \<longrightarrow>
          same_item item (terminal_items final ! i))" (is "?os = _ \<longleftrightarrow> ?R output_items")
proof -
  have dist: "map_of (btree_of (done_events evs)) = map_of (done_events evs)"
    using orderly_distinct [OF assms(1)] by (simp add: btree_of_lookup)
  have unique: "x = y" if "?R x" "?R y" for x y
    using that btree.lookup_ext [of x y] by auto
  have sound: "?R x" if "?os = Inr x" for x
  proof (cases "map_of response ''output''")
    case None
    with that have "x = btree_of (done_events evs)" by (simp add: state_after_def)
    with None show ?thesis
      by (auto simp: dist item_at_def terminal_items_def r get_array_def fun_eq_iff split: option.split)
  next
    case (Some terminal)
    with that obtain ts where "terminal = JArray ts"
      and rec: "reconcile_terminal_items (btree_of (done_events evs)) 0 ts (btree_of (done_events evs)) = (Inr x :: ('http, string) ProviderError + _)"
      by (auto simp: reconcile_terminal_output_def and_then_Inr_iff state_after_def elim!: Value_as_array.elims)
    with Some have "terminal_items final = ts" "get_array (JObject response) ''output'' = Some ts"
      by (simp_all add: terminal_items_def r get_array_def)
    with terminal_items_result [OF btree_of_ok rec] show ?thesis
      by (auto simp: dist item_at_def fun_eq_iff split: option.split)
  qed
  have "\<exists>x. ?os = Inr x" if "?R output_items"
  proof (cases "map_of response ''output''")
    case (Some terminal)
    with that obtain ts where ts: "terminal = JArray ts" "terminal_items final = ts"
      by (auto simp: terminal_items_def r get_array_def elim!: Value_as_array.elims)
    with that have "\<exists>x. reconcile_terminal_items (btree_of (done_events evs)) 0 ts (btree_of (done_events evs))
        = (Inr x :: ('http, string) ProviderError + _)" by (intro terminal_items_succeeds) (simp add: dist)
    with Some ts show ?thesis by (simp add: reconcile_terminal_output_def state_after_def)
  qed simp
  with sound unique show ?thesis by metis
qed

lemma completed_items_iff:
  "(\<exists>output_items. btree_ok output_items \<and> map_of output_items = item_at evs final
       \<and> materialize_output_items codec output_items provider = (Inr out :: ('http, string) ProviderError + _) \<and> P output_items)
   \<longleftrightarrow> (\<exists>items. (\<forall>i. item_at evs final i = (if i < length items then Some (items ! i) else None))
       \<and> materialize_output_items codec (enumerate 0 items) provider = (Inr out :: ('http, string) ProviderError + _)
       \<and> P (enumerate 0 items))" (is "?L \<longleftrightarrow> ?R")
proof
  assume ?L
  then obtain os where os: "btree_ok os" "map_of os = item_at evs final"
    "materialize_output_items codec os provider = (Inr out :: ('http, string) ProviderError + _)" "P os" by blast
  then have "os = enumerate 0 (map snd os)" using materialize_ok [of codec os provider, where 'http = 'http] by blast
  with os show ?R using enumerate_unique [OF os(1), of "map snd os"] by metis
next
  assume ?R
  then obtain items where items: "\<forall>i. item_at evs final i = (if i < length items then Some (items ! i) else None)"
    "materialize_output_items codec (enumerate 0 items) provider = (Inr out :: ('http, string) ProviderError + _)"
    "P (enumerate 0 items)" by blast
  have ok: "btree_ok (enumerate 0 items)" by (simp add: btree_ok_def)
  have "map_of (enumerate 0 items) = item_at evs final"
    using enumerate_unique [OF ok, of items] items(1) by (simp add: fun_eq_iff)
  with ok items(2,3) show ?L by blast
qed

lemma completed_guards:
  "(if (case i of None \<Rightarrow> True | Some i \<Rightarrow> i = []) then provider_error m
    else case status of Some s \<Rightarrow> if Value_as_str s \<noteq> Some done_status then provider_error (m' s) else next | None \<Rightarrow> next)
     = Inr st \<longleftrightarrow>
   option_filter (\<lambda>v. v \<noteq> []) i \<noteq> None \<and> status \<in> {None, Some (JString done_status)} \<and> next = Inr st"
  by (cases i; cases status) (simp_all add: provider_error_def Value_as_str_Some)

lemma response_completed_iff:
  assumes "orderly evs" and "get_str final ''type'' = Some ''response.completed''"
  shows "response_completed codec final (state_after provider evs) = (Inr st :: ('http, string) ProviderError + _) \<longleftrightarrow>
     (\<exists>items out. final_ok final \<and> collected evs final items
        \<and> materialize_output_items codec (enumerate 0 items) provider = (Inr out :: ('http, string) ProviderError + _)
        \<and> st = (state_after provider evs)\<lparr>ro_output_items := enumerate 0 items, ro_usage := final_usage final,
             ro_materialized := Some out, ro_completed := True\<rparr>)"
proof (cases "get_object final ''response''")
  case None
  then show ?thesis by (simp add: response_completed_def final_ok_def)
next
  case (Some response)
  have r: "Value_get final ''response'' = Some (JObject response)"
    using Some by (auto simp: get_object_def bind_eq_Some_conv elim!: Value_as_object.elims)
  have usage: "Option.bind (map_of response ''usage'') openai_usage = final_usage final" by (simp add: final_usage_def r)
  have ex_unit: "(\<exists>u :: unit. Q u) \<longleftrightarrow> Q ()" for Q by auto
  have prov: "ro_provider (state_after provider evs) = provider" by (simp add: state_after_def ResponsesStreamState_new_def)
  have regroup: "A \<and> (\<exists>os. (B \<and> K os \<and> M os \<and> C) \<and> (\<exists>out. N os out \<and> f os out = st))
      \<longleftrightarrow> A \<and> B \<and> C \<and> (\<exists>out os. K os \<and> M os \<and> N os out \<and> st = f os out)"
    for A B C K M N and f :: "(nat \<times> Value) list \<Rightarrow> ResponsesMaterializedOutput \<Rightarrow> ResponsesStreamState" by blast
  have head: "response_completed codec final (state_after provider evs) = (Inr st :: ('http, string) ProviderError + _) \<longleftrightarrow>
      nonempty_str (JObject response) ''id'' \<noteq> None \<and> map_of response ''status'' \<in> {None, Some (JString ''completed'')}
      \<and> complete_output codec response (state_after provider evs) = (Inr st :: ('http, string) ProviderError + _)"
    unfolding response_completed_def Some ok_or_simps and_then_simps completed_guards nonempty_str_def get_str_def
      Value_get.simps ..
  have complete: "complete_output codec response (state_after provider evs) = (Inr st :: ('http, string) ProviderError + _) \<longleftrightarrow>
      fst ` set (added_events evs) \<subseteq> fst ` set (done_events evs) \<and>
      (map_of response ''output'' = None \<or> get_array (JObject response) ''output'' \<noteq> None) \<and>
      (\<forall>i < length (terminal_items final). \<forall>item. map_of (done_events evs) i = Some item \<longrightarrow>
          same_item item (terminal_items final ! i)) \<and>
      (\<exists>out output_items. btree_ok output_items \<and> map_of output_items = item_at evs final
        \<and> materialize_output_items codec output_items provider = (Inr out :: ('http, string) ProviderError + _)
        \<and> st = (state_after provider evs)\<lparr>ro_output_items := output_items, ro_usage := final_usage final,
             ro_materialized := Some out, ro_completed := True\<rparr>)"
    unfolding complete_output_def and_then_Inr_iff terminal_output_iff [OF assms(1) r] usage ex_unit prov sum.inject
      reconcile_added_iff [OF assms(1)]
    by (rule regroup)
  have ok: "final_ok final \<longleftrightarrow> nonempty_str (JObject response) ''id'' \<noteq> None
      \<and> map_of response ''status'' \<in> {None, Some (JString ''completed'')}
      \<and> (map_of response ''output'' = None \<or> get_array (JObject response) ''output'' \<noteq> None)"
    unfolding final_ok_def assms(2) Some option.case simp_thms ..
  have regroup': "D \<and> E \<and> A \<and> B \<and> C \<and> (\<exists>out items. I items \<and> N items out)
      \<longleftrightarrow> (\<exists>items out. (D \<and> E \<and> B) \<and> (I items \<and> A \<and> C) \<and> N items out)"
    for A B C D E and I :: "Value list \<Rightarrow> bool" and N :: "Value list \<Rightarrow> ResponsesMaterializedOutput \<Rightarrow> bool" by blast
  show ?thesis unfolding head complete completed_items_iff ok collected_def by (rule regroup')
qed

interpretation responses_json: json_reader "responses_process_sse_event codec" "responses_process_event codec" for codec
  by unfold_locales (simp_all add: responses_process_sse_event_def provider_error_def)

lemma parse_responses_complete:
  assumes "complete_response response"
  shows "parse_responses_stream codec response provider =
      and_then (run_events (responses_process_sse_event codec) (response_events codec response) (ResponsesStreamState_new provider))
        responses_finish"
  unfolding parse_responses_stream_def response_events_def
  by (intro read_outcome_case read_complete_response assms)

text \<open>The response that a whole output decodes to.\<close>

definition response_of :: "ResponsesMaterializedOutput \<Rightarrow> ProviderUsage option \<Rightarrow> ModelResponse" where
  "response_of out usage =
     \<lparr>mr_assistant = \<lparr>am_items = mo_items out\<rparr>, mr_provider_replay = mo_provider_replay out, mr_usage = usage,
      mr_stop_reason = mo_stop_reason out, mr_stop_details = mo_stop_details out\<rparr>"

definition response_decodes :: "json_codec \<Rightarrow> ProviderKind \<Rightarrow> Value list \<Rightarrow> ModelResponse \<Rightarrow> bool" where
  "response_decodes codec provider items r \<longleftrightarrow>
     (case refused items of
        Some message \<Rightarrow> am_items (mr_assistant r) = [] \<and> mr_provider_replay r = [] \<and> mr_stop_reason r = StopRefusal
          \<and> mr_stop_details r = Some \<lparr>sd_category = None, sd_explanation = Some message\<rparr>
      | None \<Rightarrow> AssistantMessage_text (mr_assistant r) = concat (map item_text items)
          \<and> AssistantMessage_tool_calls (mr_assistant r) = concat (map (response_item_calls codec provider) items)
          \<and> mr_provider_replay r = map (item_record codec provider) items
          \<and> mr_stop_reason r = StopComplete \<and> mr_stop_details r = None)"

lemma run_finish_iff:
  "and_then (run_events (responses_process_event codec) evs (ResponsesStreamState_new provider)) responses_finish
       = (Inr r :: ('http, string) ProviderError + _) \<longleftrightarrow>
     (\<exists>pre final post items out. evs = pre @ final # post \<and> orderly pre \<and> final_ok final \<and> collected pre final items
        \<and> materialize_output_items codec (enumerate 0 items) provider = (Inr out :: ('http, string) ProviderError + _)
        \<and> r = response_of out (final_usage final))"
proof -
  have run: "run_events (responses_process_event codec) evs (ResponsesStreamState_new provider) = (Inr st :: ('http, string) ProviderError + _) \<longleftrightarrow>
      (\<exists>pre final post. evs = pre @ final # post \<and> orderly pre \<and> get_str final ''type'' = Some ''response.completed''
        \<and> response_completed codec final (state_after provider pre) = (Inr st :: ('http, string) ProviderError + _))
      \<or> orderly evs \<and> st = state_after provider evs" for st
    using run_responses [OF orderly_Nil, of codec evs provider st, where 'http = 'http] by (simp add: state_after_Nil)
  have type: "final_ok final \<Longrightarrow> get_str final ''type'' = Some ''response.completed''" for final by (simp add: final_ok_def)
  have unfinished: "responses_finish (state_after provider evs) \<noteq> (Inr r :: ('http, string) ProviderError + _)"
    by (simp add: responses_finish_def state_after_def ResponsesStreamState_new_def provider_error_def)
  have finished: "responses_finish (st\<lparr>ro_output_items := os, ro_usage := u, ro_materialized := Some out, ro_completed := True\<rparr>)
      = (Inr (response_of out u) :: ('http, string) ProviderError + _)" for st os u out
    by (simp add: responses_finish_def response_of_def Let_def)
  show ?thesis
  proof
    assume "and_then (run_events (responses_process_event codec) evs (ResponsesStreamState_new provider)) responses_finish
       = (Inr r :: ('http, string) ProviderError + _)"
    then obtain st where "run_events (responses_process_event codec) evs (ResponsesStreamState_new provider) = (Inr st :: ('http, string) ProviderError + _)"
      and fin: "responses_finish st = (Inr r :: ('http, string) ProviderError + _)" by (auto simp: and_then_Inr_iff)
    with unfinished obtain pre final post where p: "evs = pre @ final # post" "orderly pre"
      "get_str final ''type'' = Some ''response.completed''"
      and c: "response_completed codec final (state_after provider pre) = (Inr st :: ('http, string) ProviderError + _)"
      unfolding run by blast
    from c obtain items out where
      "final_ok final" "collected pre final items"
      "materialize_output_items codec (enumerate 0 items) provider = (Inr out :: ('http, string) ProviderError + _)"
      "st = (state_after provider pre)\<lparr>ro_output_items := enumerate 0 items, ro_usage := final_usage final,
             ro_materialized := Some out, ro_completed := True\<rparr>"
      unfolding response_completed_iff [OF p(2,3)] by blast
    with p fin show "\<exists>pre final post items out. evs = pre @ final # post \<and> orderly pre \<and> final_ok final \<and> collected pre final items
        \<and> materialize_output_items codec (enumerate 0 items) provider = (Inr out :: ('http, string) ProviderError + _)
        \<and> r = response_of out (final_usage final)"
      by (metis finished sum.inject(2))
  next
    assume "\<exists>pre final post items out. evs = pre @ final # post \<and> orderly pre \<and> final_ok final \<and> collected pre final items
        \<and> materialize_output_items codec (enumerate 0 items) provider = (Inr out :: ('http, string) ProviderError + _)
        \<and> r = response_of out (final_usage final)"
    then obtain pre final post items out where e: "evs = pre @ final # post" "orderly pre" "final_ok final" "collected pre final items"
      "materialize_output_items codec (enumerate 0 items) provider = (Inr out :: ('http, string) ProviderError + _)"
      "r = response_of out (final_usage final)" by blast
    have "response_completed codec final (state_after provider pre) = (Inr ((state_after provider pre)\<lparr>ro_output_items := enumerate 0 items,
        ro_usage := final_usage final, ro_materialized := Some out, ro_completed := True\<rparr>) :: ('http, string) ProviderError + _)"
      unfolding response_completed_iff [OF e(2) type [OF e(3)]] using e(3-5) by blast
    with e type [OF e(3)] have "run_events (responses_process_event codec) evs (ResponsesStreamState_new provider)
        = (Inr ((state_after provider pre)\<lparr>ro_output_items := enumerate 0 items,
        ro_usage := final_usage final, ro_materialized := Some out, ro_completed := True\<rparr>) :: ('http, string) ProviderError + _)"
      unfolding run by blast
    then show "and_then (run_events (responses_process_event codec) evs (ResponsesStreamState_new provider)) responses_finish
       = (Inr r :: ('http, string) ProviderError + _)" by (simp add: finished e(6))
  qed
qed

lemma materialize_enumerate:
  "(\<exists>out. materialize_output_items codec (enumerate 0 items) provider = (Inr out :: ('http, string) ProviderError + _)) \<longleftrightarrow> output_ok items"
  using materialize_ok [of codec "enumerate 0 items" provider, where 'http = 'http] by simp

lemma materialize_decodes:
  assumes "materialize_output_items codec (enumerate 0 items) provider = (Inr out :: ('http, string) ProviderError + _)"
  shows "response_decodes codec provider items (response_of out usage)"
  using materialize_result [OF assms]
  by (cases "refused items") (simp_all add: decodes_to_def response_decodes_def response_of_def text_of_def calls_of_def)

lemma responses_accepted:
  "(\<exists>r. and_then (run_events (responses_process_event codec) evs (ResponsesStreamState_new provider)) responses_finish
       = (Inr r :: ('http, string) ProviderError + _)) \<longleftrightarrow>
     (\<exists>pre final post items. evs = pre @ final # post \<and> orderly pre \<and> final_ok final \<and> collected pre final items \<and> output_ok items)"
  unfolding run_finish_iff materialize_enumerate [of codec _ provider, where 'http = 'http, symmetric] by blast

lemma responses_decoded:
  assumes "and_then (run_events (responses_process_event codec) evs (ResponsesStreamState_new provider)) responses_finish
       = (Inr r :: ('http, string) ProviderError + _)"
  shows "\<exists>pre final post items. evs = pre @ final # post \<and> orderly pre \<and> final_ok final \<and> collected pre final items \<and> output_ok items
     \<and> response_decodes codec provider items r \<and> mr_usage r = final_usage final"
proof -
  from assms obtain pre final post items out where e: "evs = pre @ final # post" "orderly pre" "final_ok final" "collected pre final items"
    and m: "materialize_output_items codec (enumerate 0 items) provider = (Inr out :: ('http, string) ProviderError + _)"
    and r: "r = response_of out (final_usage final)"
    unfolding run_finish_iff by blast
  have "output_ok items" using m materialize_enumerate by blast
  moreover have "mr_usage r = final_usage final" by (simp add: r response_of_def)
  ultimately show ?thesis using e materialize_decodes [OF m] r by blast
qed

section \<open>A response\<close>

text \<open>A message and a call; the call is finished before the message, which was announced.\<close>

definition demo_message :: Value where
  "demo_message = json_object [(''type'', JString ''message''), (''id'', JString ''m''), (''role'', JString ''assistant''),
     (''content'', JArray [json_object [(''type'', JString ''output_text''), (''text'', JString ''I will'')]])]"

definition demo_response_call :: Value where
  "demo_response_call = json_object [(''type'', JString ''function_call''), (''call_id'', JString ''c''), (''name'', JString ''Bash''),
     (''arguments'', JString ''{}'')]"

definition demo_output_events :: "Value list" where
  "demo_output_events =
     [json_object [(''type'', JString ''response.output_item.done''), (''output_index'', json_u64 1), (''item'', demo_response_call)],
      json_object [(''type'', JString ''response.output_item.added''), (''output_index'', json_u64 0),
        (''item'', json_object [(''type'', JString ''message''), (''id'', JString ''m'')])],
      json_object [(''type'', JString ''response.output_item.done''), (''output_index'', json_u64 0), (''item'', demo_message)]]"

definition demo_final :: Value where
  "demo_final = json_object [(''type'', JString ''response.completed''),
     (''response'', json_object [(''id'', JString ''r''), (''output'', JArray [demo_message])])]"

definition demo_responses_codec :: json_codec where
  "demo_responses_codec = \<lparr>jc_from_str = (\<lambda>s.
       case s of
         [c] \<Rightarrow> (case drop (byte c - 65) (demo_output_events @ [demo_final]) of v # _ \<Rightarrow> Inr v | [] \<Rightarrow> Inl ''?'')
       | _ \<Rightarrow> Inl ''?''),
     jc_to_string = (\<lambda>_. []), jc_to_string_pretty = (\<lambda>_. []), jc_debug_str = (\<lambda>_. [])\<rparr>"

lemma demo_output_response:
  "response_events demo_responses_codec (demo_response ''ABCD'') = map SseJson (demo_output_events @ [demo_final])"
proof -
  have "list_all demo_name ''ABCD''" by code_simp
  moreover have "map (\<lambda>c. case codec_parser demo_responses_codec [c] of None \<Rightarrow> SseMalformedJson | Some v \<Rightarrow> SseJson v) ''ABCD''
      = map SseJson (demo_output_events @ [demo_final])"
    by (simp add: codec_parser_def demo_responses_codec_def demo_output_events_def byte_def)
  ultimately show ?thesis by (simp add: demo_response_events)
qed

lemma demo_output_events_of:
  "added_events demo_output_events = [(0, json_object [(''type'', JString ''message''), (''id'', JString ''m'')])]"
  "done_events demo_output_events = [(1, demo_response_call), (0, demo_message)]"
  by (simp_all add: added_events_def done_events_def demo_output_events_def item_event_def get_str_def get_u64_def
      List.map_filter_def nonempty_str_def demo_response_call_def demo_message_def)

lemma demo_orderly: "orderly demo_output_events"
  by (simp add: demo_output_events_def orderly_def less_Suc_eq all_conj_distrib response_event_ok_def item_event_def get_str_def get_u64_def
      nonempty_str_def demo_response_call_def demo_message_def announce_ok_def same_item_def identity_fields_def added_events_def
      done_events_def List.map_filter_def)

lemma demo_final_ok: "final_ok demo_final"
  by (simp add: final_ok_def demo_final_def get_str_def get_object_def get_array_def nonempty_str_def json_object_def btree_of_def less_char_def)

lemma demo_collected: "collected demo_output_events demo_final [demo_message, demo_response_call]"
proof -
  have t: "terminal_items demo_final = [demo_message]" by (simp add: terminal_items_def demo_final_def get_array_def)
  have "same_item demo_message demo_message"
    by (simp add: same_item_def demo_message_def nonempty_str_def get_str_def identity_fields_def)
  then show ?thesis
    by (auto simp: collected_def item_at_def t demo_output_events_of less_Suc_eq nth_Cons split: nat.split)
qed

lemma demo_output_ok: "output_ok [demo_message, demo_response_call]"
  by (simp add: output_ok_def item_ok_def demo_message_def demo_response_call_def nonempty_str_def get_str_def get_array_def parts_of_def
      message_part_ok_def call_ok_def item_identities_def identity_fields_def List.map_filter_def str_field_def)

lemma demo_responses_parse:
  "\<exists>r. parse_responses_stream demo_responses_codec (demo_response ''ABCD'') OpenAi = (Inr r :: (nat, string) ProviderError + _)"
proof -
  have "SseMalformedJson \<notin> set (map SseJson (demo_output_events @ [demo_final]))" by auto
  note json = responses_json.run_json [OF this, unfolded json_events_map]
  show ?thesis
    unfolding parse_responses_complete [OF demo_complete] demo_output_response json responses_accepted
    using demo_orderly demo_final_ok demo_collected demo_output_ok by blast
qed

end
