(* ===== verification/Openai_Catalog.thy ===== *)
theory Openai_Catalog
  imports Openai_Stream "HOL-Library.Multiset"
begin

text \<open>
  The catalog of models of \<open>agent-provider/src/openai.rs\<close>: reading it, and its cache with the
  tasks that refresh it. Accounts share the cache one after the other, so the transition system
  below lets callers of several accounts interleave; every stretch of code under the lock of the
  cache is one step. Instants are nanoseconds.
\<close>

section \<open>Reading a catalog\<close>

type_synonym i64 = "64 word"

record CatalogError =
  ce_status :: "16 word option"
  ce_message :: string

definition CatalogError_new :: "string \<Rightarrow> CatalogError" where
  "CatalogError_new message = \<lparr>ce_status = None, ce_message = message\<rparr>"

definition into_provider_error :: "CatalogError \<Rightarrow> ('http, string) ProviderError" where
  "into_provider_error e = ModelCatalog (ce_status e) (ce_message e)"

record OpenAiModelMetadata =
  om_slug :: string
  om_max_input_tokens :: "nat option"
  om_recommended_auto_compact_tokens :: "nat option"
  om_supported_reasoning_efforts :: "string set"
  om_reasoning_summary :: "string option"
  om_supports_parallel_tool_calls :: bool
  om_use_responses_lite :: bool

type_synonym OpenAiModelCatalog = "string \<rightharpoonup> OpenAiModelMetadata"

record CodexModel =
  cm_slug :: string
  cm_context_window :: "i64 option"
  cm_max_context_window :: "i64 option"
  cm_auto_compact_token_limit :: "i64 option"
  cm_supported_reasoning_levels :: "string list"
  cm_supports_reasoning_summary_parameter :: bool
  cm_default_reasoning_summary :: "string option"
  cm_supports_parallel_tool_calls :: bool
  cm_use_responses_lite :: bool

definition CODEX_MODELS_MAX_BODY_BYTES :: nat where
  "CODEX_MODELS_MAX_BODY_BYTES = 4 * 1024 * 1024"

definition CODEX_MODELS_MAX_MODELS :: nat where
  "CODEX_MODELS_MAX_MODELS = 256"

definition CODEX_MODELS_MAX_SLUG_BYTES :: nat where
  "CODEX_MODELS_MAX_SLUG_BYTES = 256"

definition CODEX_MODELS_MAX_EFFORTS :: nat where
  "CODEX_MODELS_MAX_EFFORTS = 16"

definition CODEX_MODELS_MAX_EFFORT_BYTES :: nat where
  "CODEX_MODELS_MAX_EFFORT_BYTES = 64"

text \<open>A positive \<open>i64\<close> is a \<open>usize\<close>.\<close>

definition positive_limit :: "i64 option \<Rightarrow> string \<Rightarrow> string \<Rightarrow> CatalogError + nat option" where
  "positive_limit v field slug =
     (case v of
        None \<Rightarrow> Inr None
      | Some n \<Rightarrow>
          if sint n \<le> 0 then Inl (CatalogError_new (''Codex model '' @ slug @ '' has non-positive '' @ field))
          else Inr (Some (nat (sint n))))"

definition ninety_percent :: "nat \<Rightarrow> nat" where
  "ninety_percent v = v div 10 * 9 + v mod 10 * 9 div 10"

fun collect_efforts :: "string \<Rightarrow> string list \<Rightarrow> string set \<Rightarrow> CatalogError + string set" where
  "collect_efforts slug [] efforts = Inr efforts"
| "collect_efforts slug (effort # levels) efforts =
     (if effort = [] \<or> length effort > CODEX_MODELS_MAX_EFFORT_BYTES
      then Inl (CatalogError_new (''Codex model '' @ slug @ '' advertised an invalid reasoning effort''))
      else if effort \<in> efforts
      then Inl (CatalogError_new (''Codex model '' @ slug @ '' advertised duplicate reasoning effort '' @ effort))
      else collect_efforts slug levels (insert effort efforts))"

definition recommended_limit :: "nat option \<Rightarrow> nat option \<Rightarrow> nat option" where
  "recommended_limit explicit derived =
     (case (explicit, derived) of
        (Some e, Some d) \<Rightarrow> Some (min e d)
      | (Some e, None) \<Rightarrow> Some e
      | (None, d) \<Rightarrow> d)"

definition summary_of :: "CodexModel \<Rightarrow> string option" where
  "summary_of model =
     option_filter (\<lambda>summary. summary \<noteq> ''none'')
       (if cm_supports_reasoning_summary_parameter model
        then Some (unwrap_or (cm_default_reasoning_summary model) ''auto'') else None)"

definition model_metadata :: "CodexModel \<Rightarrow> CatalogError + OpenAiModelMetadata" where
  "model_metadata model =
     (let slug = cm_slug model in
      and_then (positive_limit (cm_context_window model) ''context_window'' slug) (\<lambda>context_window.
      and_then (positive_limit (cm_max_context_window model) ''max_context_window'' slug) (\<lambda>max_context_window.
      and_then (positive_limit (cm_auto_compact_token_limit model) ''auto_compact_token_limit'' slug) (\<lambda>explicit_auto_limit.
        let max_input_tokens = (case context_window of Some n \<Rightarrow> Some n | None \<Rightarrow> max_context_window) in
        if length (cm_supported_reasoning_levels model) > CODEX_MODELS_MAX_EFFORTS
        then Inl (CatalogError_new (''Codex model '' @ slug @ '' advertised more than ''
               @ dec_string CODEX_MODELS_MAX_EFFORTS @ '' reasoning efforts''))
        else and_then (collect_efforts slug (cm_supported_reasoning_levels model) {}) (\<lambda>efforts.
          let reasoning_summary = summary_of model in
          if (case reasoning_summary of Some s \<Rightarrow> s \<notin> {''auto'', ''concise'', ''detailed''} | None \<Rightarrow> False)
          then Inl (CatalogError_new (''Codex model '' @ slug @ '' advertised an invalid default reasoning summary''))
          else Inr \<lparr>om_slug = slug, om_max_input_tokens = max_input_tokens,
                 om_recommended_auto_compact_tokens =
                   recommended_limit explicit_auto_limit (map_option ninety_percent max_input_tokens),
                 om_supported_reasoning_efforts = efforts, om_reasoning_summary = reasoning_summary,
                 om_supports_parallel_tool_calls = cm_supports_parallel_tool_calls model,
                 om_use_responses_lite = cm_use_responses_lite model\<rparr>)))))"

fun collect_models :: "CodexModel list \<Rightarrow> OpenAiModelCatalog \<Rightarrow> CatalogError + OpenAiModelCatalog" where
  "collect_models [] models = Inr models"
| "collect_models (model # response_models) models =
     (if trim (cm_slug model) = [] \<or> length (cm_slug model) > CODEX_MODELS_MAX_SLUG_BYTES
      then Inl (CatalogError_new ''Codex models response contained an invalid slug'')
      else if models (cm_slug model) \<noteq> None
      then Inl (CatalogError_new (''Codex models response contained duplicate slug '' @ cm_slug model))
      else and_then (model_metadata model) (\<lambda>metadata.
        collect_models response_models (models(cm_slug model \<mapsto> metadata))))"

text \<open>The derived reader of the response is the argument \<open>from_slice\<close>.\<close>

definition parse_codex_models_response ::
  "(string \<Rightarrow> string + CodexModel list) \<Rightarrow> string \<Rightarrow> CatalogError + OpenAiModelCatalog" where
  "parse_codex_models_response from_slice bytes =
     (if length bytes > CODEX_MODELS_MAX_BODY_BYTES
      then Inl (CatalogError_new (''Codex models response exceeded '' @ dec_string CODEX_MODELS_MAX_BODY_BYTES @ '' bytes''))
      else and_then (map_err (\<lambda>e. CatalogError_new (''failed to parse Codex models response JSON: '' @ e)) (from_slice bytes))
        (\<lambda>response_models.
          if length response_models > CODEX_MODELS_MAX_MODELS
          then Inl (CatalogError_new (''Codex models response contained more than ''
                 @ dec_string CODEX_MODELS_MAX_MODELS @ '' models''))
          else collect_models response_models Map.empty))"

text \<open>The body is read in chunks up to the limit; a failed read has its message.\<close>

fun read_catalog_chunks ::
  "16 word \<Rightarrow> string list \<Rightarrow> string option \<Rightarrow> string \<Rightarrow> ('http, string) ProviderError + string" where
  "read_catalog_chunks status [] failure body =
     (case failure of
        Some e \<Rightarrow> Inl (ModelCatalog (Some status) (''failed to read Codex models response: '' @ e))
      | None \<Rightarrow> Inr body)"
| "read_catalog_chunks status (chunk # chunks) failure body =
     (if saturating_add (length body) (length chunk) > CODEX_MODELS_MAX_BODY_BYTES
      then Inl (ModelCatalog (Some status)
             (''Codex models response exceeded '' @ dec_string CODEX_MODELS_MAX_BODY_BYTES @ '' bytes''))
      else read_catalog_chunks status chunks failure (body @ chunk))"

record catalog_response =
  cp_status :: "16 word"
  cp_is_success :: bool
  cp_content_length :: "u64 option"
  cp_chunks :: "string list"
  cp_failure :: "string option"

definition read_bounded_catalog_response :: "catalog_response \<Rightarrow> ('http, string) ProviderError + string" where
  "read_bounded_catalog_response response =
     (if (case cp_content_length response of Some n \<Rightarrow> n > of_nat CODEX_MODELS_MAX_BODY_BYTES | None \<Rightarrow> False)
      then Inl (ModelCatalog (Some (cp_status response))
             (''Codex models response exceeded '' @ dec_string CODEX_MODELS_MAX_BODY_BYTES @ '' bytes''))
      else read_catalog_chunks (cp_status response) (cp_chunks response) (cp_failure response) [])"

text \<open>The request may time out, fail with a status or without one, or be answered.\<close>

datatype catalog_sent = SendTimeout string | SendFailed "16 word option" string | Sent catalog_response

definition retrieve_catalog ::
  "json_codec \<Rightarrow> (string \<Rightarrow> string + CodexModel list) \<Rightarrow> catalog_sent \<Rightarrow> ('http, string) ProviderError + OpenAiModelCatalog" where
  "retrieve_catalog codec from_slice sent =
     (case sent of
        SendTimeout seconds \<Rightarrow> Inl (ModelCatalog None (''Codex models request timed out after '' @ seconds @ '' seconds''))
      | SendFailed status e \<Rightarrow> Inl (ModelCatalog status (''Codex models request failed: '' @ e))
      | Sent response \<Rightarrow>
          and_then (read_bounded_catalog_response response) (\<lambda>bytes.
            if \<not> cp_is_success response
            then Inl (ModelCatalog (Some (cp_status response)) (openai_response_error_message codec (from_utf8_lossy bytes)))
            else map_err into_provider_error (parse_codex_models_response from_slice bytes)))"

section \<open>The cache\<close>

definition CODEX_MODELS_SUCCESS_TTL :: nat where
  "CODEX_MODELS_SUCCESS_TTL = 5 * 60 * 10 ^ 9"

definition CODEX_MODELS_FAILURE_TTL :: nat where
  "CODEX_MODELS_FAILURE_TTL = 30 * 10 ^ 9"

text \<open>A fingerprint of the access token stands for an account without an id.\<close>

datatype OpenAiCatalogIdentity = Account string | TokenFingerprint string

record OpenAiCatalogKey =
  ok_base_url :: string
  ok_identity :: OpenAiCatalogIdentity

type_synonym catalog_result = "CatalogError + OpenAiModelCatalog"

record CachedCatalogFailure =
  cf_retry_after :: nat
  cf_error :: CatalogError

record CatalogRefresh =
  rf_key :: OpenAiCatalogKey
  rf_generation :: u64

record OpenAiModelCatalogCacheState =
  oc_active_key :: "OpenAiCatalogKey option"
  oc_catalog :: "OpenAiModelCatalog option"
  oc_fetched_at :: "nat option"
  oc_failure :: "CachedCatalogFailure option"
  oc_refresh :: "CatalogRefresh option"
  oc_next_generation :: u64

definition OpenAiModelCatalogCacheState_default :: OpenAiModelCatalogCacheState where
  "OpenAiModelCatalogCacheState_default =
     \<lparr>oc_active_key = None, oc_catalog = None, oc_fetched_at = None, oc_failure = None, oc_refresh = None,
      oc_next_generation = 0\<rparr>"

datatype CatalogCacheDecision =
  CatalogReturn catalog_result | CatalogWait CatalogRefresh | CatalogStart CatalogRefresh

definition activate_key :: "OpenAiCatalogKey \<Rightarrow> OpenAiModelCatalogCacheState \<Rightarrow> OpenAiModelCatalogCacheState" where
  "activate_key key st =
     (if oc_active_key st \<noteq> Some key
      then st\<lparr>oc_active_key := Some key, oc_catalog := None, oc_fetched_at := None, oc_failure := None, oc_refresh := None\<rparr>
      else st)"

definition start_catalog_refresh ::
  "OpenAiCatalogKey \<Rightarrow> OpenAiModelCatalogCacheState \<Rightarrow> CatalogCacheDecision \<times> OpenAiModelCatalogCacheState" where
  "start_catalog_refresh key st =
     (let generation = (if oc_next_generation st = - 1 then - 1 else oc_next_generation st + 1);
          refresh = \<lparr>rf_key = key, rf_generation = generation\<rparr>
      in (CatalogStart refresh,
          st\<lparr>oc_next_generation := generation, oc_failure := None, oc_refresh := Some refresh\<rparr>))"

text \<open>No fresh catalog: a recent failure, a refresh that runs, or a new one.\<close>

definition stale_decision ::
  "OpenAiCatalogKey \<Rightarrow> nat \<Rightarrow> OpenAiModelCatalogCacheState \<Rightarrow> CatalogCacheDecision \<times> OpenAiModelCatalogCacheState" where
  "stale_decision key now st =
     (case option_filter (\<lambda>failure. now < cf_retry_after failure) (oc_failure st) of
        Some failure \<Rightarrow> (CatalogReturn (Inl (cf_error failure)), st)
      | None \<Rightarrow>
          (case oc_refresh st of
             Some refresh \<Rightarrow> (CatalogWait refresh, st)
           | None \<Rightarrow> start_catalog_refresh key st))"

definition catalog_decision ::
  "OpenAiCatalogKey \<Rightarrow> nat \<Rightarrow> OpenAiModelCatalogCacheState \<Rightarrow> CatalogCacheDecision \<times> OpenAiModelCatalogCacheState" where
  "catalog_decision key now st =
     (let st = activate_key key st in
      case (oc_catalog st, oc_fetched_at st) of
        (Some catalog, Some fetched_at) \<Rightarrow>
          if now - fetched_at < CODEX_MODELS_SUCCESS_TTL then (CatalogReturn (Inr catalog), st)
          else stale_decision key now st
      | _ \<Rightarrow> stale_decision key now st)"

definition current_refresh :: "OpenAiCatalogKey \<Rightarrow> u64 \<Rightarrow> OpenAiModelCatalogCacheState \<Rightarrow> bool" where
  "current_refresh key generation st \<longleftrightarrow>
     oc_active_key st = Some key
     \<and> (case oc_refresh st of
          Some refresh \<Rightarrow> rf_generation refresh = generation \<and> rf_key refresh = key
        | None \<Rightarrow> False)"

definition commit_catalog_refresh ::
  "OpenAiCatalogKey \<Rightarrow> u64 \<Rightarrow> catalog_result \<Rightarrow> nat \<Rightarrow> OpenAiModelCatalogCacheState
     \<Rightarrow> bool \<times> OpenAiModelCatalogCacheState" where
  "commit_catalog_refresh key generation result now st =
     (if \<not> current_refresh key generation st then (False, st)
      else let st = st\<lparr>oc_refresh := None\<rparr>
           in (True,
               case result of
                 Inr catalog \<Rightarrow> st\<lparr>oc_catalog := Some catalog, oc_fetched_at := Some now, oc_failure := None\<rparr>
               | Inl error \<Rightarrow>
                   if ce_status error = Some 401 then st\<lparr>oc_failure := None\<rparr>
                   else st\<lparr>oc_failure := Some \<lparr>cf_retry_after = now + CODEX_MODELS_FAILURE_TTL, cf_error = error\<rparr>\<rparr>))"

definition abandon_catalog_refresh ::
  "OpenAiCatalogKey \<Rightarrow> u64 \<Rightarrow> OpenAiModelCatalogCacheState \<Rightarrow> OpenAiModelCatalogCacheState" where
  "abandon_catalog_refresh key generation st =
     (if current_refresh key generation st then st\<lparr>oc_refresh := None\<rparr> else st)"

section \<open>Callers and refreshes\<close>

definition SUPERSEDED :: CatalogError where
  "SUPERSEDED = CatalogError_new ''Codex model catalog refresh was superseded by an account identity change''"

datatype CatalogRefreshStatus =
  Pending | CommittedCatalog catalog_result | FinishedCatalog catalog_result | ClosedChannel

text \<open>
  Beside the cache and the watch channels of the refreshes, the world has the callers that wait,
  and two histories: every result that a request of an account had, with its time, and what was
  given to callers, with the time for those that were served from the cache.
\<close>

record catalog_world =
  cw_cache :: OpenAiModelCatalogCacheState
  cw_refreshes :: "u64 \<rightharpoonup> OpenAiCatalogKey \<times> CatalogRefreshStatus"
  cw_waiting :: "(OpenAiCatalogKey \<times> CatalogRefresh) multiset"
  cw_results :: "(OpenAiCatalogKey \<times> catalog_result \<times> nat) set"
  cw_given :: "(OpenAiCatalogKey \<times> nat option \<times> catalog_result) list"

definition catalog_world_init :: catalog_world where
  "catalog_world_init =
     \<lparr>cw_cache = OpenAiModelCatalogCacheState_default, cw_refreshes = Map.empty, cw_waiting = {#}, cw_results = {}, cw_given = []\<rparr>"

text \<open>One round of \<open>resolved_catalog\<close>: ask the cache, spawn a refresh if it says so.\<close>

definition ask_catalog :: "OpenAiCatalogKey \<Rightarrow> nat \<Rightarrow> catalog_world \<Rightarrow> catalog_world" where
  "ask_catalog key now w =
     (case catalog_decision key now (cw_cache w) of
        (CatalogReturn result, cache) \<Rightarrow> w\<lparr>cw_cache := cache, cw_given := cw_given w @ [(key, Some now, result)]\<rparr>
      | (CatalogWait refresh, cache) \<Rightarrow> w\<lparr>cw_cache := cache, cw_waiting := add_mset (key, refresh) (cw_waiting w)\<rparr>
      | (CatalogStart refresh, cache) \<Rightarrow>
          w\<lparr>cw_cache := cache, cw_waiting := add_mset (key, refresh) (cw_waiting w),
            cw_refreshes := (cw_refreshes w)(rf_generation refresh \<mapsto> (key, Pending))\<rparr>)"

text \<open>What a refresh keeps of an error of its request, whose text is \<open>display\<close>.\<close>

definition catalog_error_of ::
  "(('http, string) ProviderError \<Rightarrow> string) \<Rightarrow> ('http, string) ProviderError \<Rightarrow> CatalogError" where
  "catalog_error_of display e =
     (case e of
        ModelCatalog status message \<Rightarrow> \<lparr>ce_status = status, ce_message = message\<rparr>
      | _ \<Rightarrow> CatalogError_new (display e))"

text \<open>The task of a refresh has its result, and offers it to the cache.\<close>

definition finish_refresh :: "OpenAiCatalogKey \<Rightarrow> u64 \<Rightarrow> catalog_result \<Rightarrow> nat \<Rightarrow> catalog_world \<Rightarrow> catalog_world" where
  "finish_refresh key generation result now w =
     (let (committed, cache) = commit_catalog_refresh key generation result now (cw_cache w);
          published = (if committed then result else Inl SUPERSEDED)
      in w\<lparr>cw_cache := cache, cw_results := insert (key, result, now) (cw_results w),
           cw_refreshes := (cw_refreshes w)(generation \<mapsto> (key, CommittedCatalog published))\<rparr>)"

text \<open>Fewer than \<open>2 ^ 64\<close> refreshes are started, so that a generation never repeats.\<close>

inductive catalog_step :: "catalog_world \<Rightarrow> catalog_world \<Rightarrow> bool" where
  asked: "oc_next_generation (cw_cache w) \<noteq> - 1 \<Longrightarrow> catalog_step w (ask_catalog key now w)"
| committed: "cw_refreshes w generation = Some (key, Pending) \<Longrightarrow>
     catalog_step w (finish_refresh key generation result now w)"
| announced: "cw_refreshes w generation = Some (key, CommittedCatalog result) \<Longrightarrow>
     catalog_step w (w\<lparr>cw_refreshes := (cw_refreshes w)(generation \<mapsto> (key, FinishedCatalog result))\<rparr>)"
| ended: "cw_refreshes w generation = Some (key, status) \<Longrightarrow> status = Pending \<or> (\<exists>r. status = CommittedCatalog r) \<Longrightarrow>
     catalog_step w (w\<lparr>cw_refreshes := (cw_refreshes w)(generation \<mapsto> (key, ClosedChannel))\<rparr>)"
| answered: "(key, refresh) \<in># cw_waiting w \<Longrightarrow>
     cw_refreshes w (rf_generation refresh) = Some (k, FinishedCatalog result) \<Longrightarrow>
     catalog_step w (w\<lparr>cw_waiting := cw_waiting w - {#(key, refresh)#}, cw_given := cw_given w @ [(key, None, result)]\<rparr>)"
| retried: "(key, refresh) \<in># cw_waiting w \<Longrightarrow> cw_refreshes w (rf_generation refresh) = Some (k, ClosedChannel) \<Longrightarrow>
     catalog_step w (w\<lparr>cw_waiting := cw_waiting w - {#(key, refresh)#},
       cw_cache := abandon_catalog_refresh key (rf_generation refresh) (cw_cache w)\<rparr>)"
| cancelled: "catalog_step w (w\<lparr>cw_waiting := cw_waiting w - {#caller#}\<rparr>)"

inductive catalog_reachable :: "catalog_world \<Rightarrow> bool" where
  catalog_init: "catalog_reachable catalog_world_init"
| catalog_next: "catalog_reachable w \<Longrightarrow> catalog_step w w' \<Longrightarrow> catalog_reachable w'"

text \<open>The key of a provider's account: its id, or a fingerprint of the token (\<open>sha256\<close>).\<close>

definition catalog_key :: "(string \<Rightarrow> string) \<Rightarrow> string \<Rightarrow> string option \<Rightarrow> string \<Rightarrow> OpenAiCatalogKey" where
  "catalog_key sha256 base_url account_id access_token =
     \<lparr>ok_base_url = rev (dropWhile (\<lambda>c. c = CHR ''/'') (rev base_url)),
      ok_identity = (case account_id of
          Some account \<Rightarrow> Account account
        | None \<Rightarrow> TokenFingerprint (sha256 (''pi-relay codex model catalog identity'' @ [CHR 0x00] @ access_token)))\<rparr>"

definition resolved_model_metadata ::
  "catalog_result \<Rightarrow> string \<Rightarrow> ('http, string) ProviderError + OpenAiModelMetadata" where
  "resolved_model_metadata result model =
     and_then (map_err into_provider_error result) (\<lambda>catalog.
       ok_or (catalog model)
         (ModelCatalog None (''Codex model catalog does not contain exact model slug '' @ model)))"

end
