(* ===== verification/Openai_Catalog_Proofs.thy ===== *)
theory Openai_Catalog_Proofs
  imports Openai_Catalog
begin

text \<open>
  Callers of different accounts share the cache of the catalog, and each is given results of its
  own account only; the models of a catalog have usable limits.
\<close>

section \<open>Accounts stay apart\<close>

text \<open>A result that a request of the account had, within the time it may be used for.\<close>

definition served :: "(OpenAiCatalogKey \<times> catalog_result \<times> nat) set \<Rightarrow> OpenAiCatalogKey \<Rightarrow> nat option \<Rightarrow> catalog_result \<Rightarrow> bool" where
  "served results key at result \<longleftrightarrow>
     (\<exists>t. (key, result, t) \<in> results
        \<and> (case (at, result) of
             (Some now, Inr _) \<Rightarrow> now - t < CODEX_MODELS_SUCCESS_TTL
           | (Some now, Inl e) \<Rightarrow> now < t + CODEX_MODELS_FAILURE_TTL \<and> ce_status e \<noteq> Some 401
           | (None, _) \<Rightarrow> True))"

lemma served_mono: "served results key at result \<Longrightarrow> results \<subseteq> results' \<Longrightarrow> served results' key at result"
  by (auto simp: served_def)

definition cache_for :: "(OpenAiCatalogKey \<times> catalog_result \<times> nat) set \<Rightarrow> OpenAiCatalogKey \<Rightarrow> OpenAiModelCatalogCacheState \<Rightarrow> bool" where
  "cache_for results key st \<longleftrightarrow>
     (\<forall>catalog t. oc_catalog st = Some catalog \<longrightarrow> oc_fetched_at st = Some t \<longrightarrow> (key, Inr catalog, t) \<in> results)
     \<and> (\<forall>failure. oc_failure st = Some failure \<longrightarrow> ce_status (cf_error failure) \<noteq> Some 401
          \<and> (\<exists>t. (key, Inl (cf_error failure), t) \<in> results \<and> cf_retry_after failure = t + CODEX_MODELS_FAILURE_TTL))
     \<and> (\<forall>refresh. oc_refresh st = Some refresh \<longrightarrow> rf_key refresh = key)"

definition active_ok :: "(OpenAiCatalogKey \<times> catalog_result \<times> nat) set \<Rightarrow> OpenAiModelCatalogCacheState \<Rightarrow> bool" where
  "active_ok results st \<longleftrightarrow>
     (case oc_active_key st of
        Some key \<Rightarrow> cache_for results key st
      | None \<Rightarrow> oc_refresh st = None \<and> oc_catalog st = None \<and> oc_failure st = None)"

definition announcement_ok :: "(OpenAiCatalogKey \<times> catalog_result \<times> nat) set \<Rightarrow> OpenAiCatalogKey \<Rightarrow> CatalogRefreshStatus \<Rightarrow> bool" where
  "announcement_ok results key status \<longleftrightarrow>
     (case status of
        CommittedCatalog r \<Rightarrow> r = Inl SUPERSEDED \<or> served results key None r
      | FinishedCatalog r \<Rightarrow> r = Inl SUPERSEDED \<or> served results key None r
      | _ \<Rightarrow> True)"

definition catalog_inv :: "catalog_world \<Rightarrow> bool" where
  "catalog_inv w \<longleftrightarrow>
     active_ok (cw_results w) (cw_cache w)
     \<and> (\<forall>refresh. oc_refresh (cw_cache w) = Some refresh \<longrightarrow>
          (\<exists>status. cw_refreshes w (rf_generation refresh) = Some (rf_key refresh, status)))
     \<and> (\<forall>g key status. cw_refreshes w g = Some (key, status) \<longrightarrow>
          unat g \<le> unat (oc_next_generation (cw_cache w)) \<and> announcement_ok (cw_results w) key status)
     \<and> (\<forall>key refresh. (key, refresh) \<in># cw_waiting w \<longrightarrow>
          (\<exists>status. cw_refreshes w (rf_generation refresh) = Some (key, status)))
     \<and> (\<forall>key at result. (key, at, result) \<in> set (cw_given w) \<longrightarrow> result = Inl SUPERSEDED \<or> served (cw_results w) key at result)"

lemma activate_for:
  assumes "active_ok results st"
  shows "oc_active_key (activate_key key st) = Some key" and "cache_for results key (activate_key key st)"
    and "oc_next_generation (activate_key key st) = oc_next_generation st"
    and "oc_refresh (activate_key key st) = Some refresh \<Longrightarrow> oc_refresh st = Some refresh"
  using assms by (auto simp: activate_key_def active_ok_def cache_for_def split: option.splits if_splits)

text \<open>What a decision does to the cache whose active key is the caller's.\<close>

definition decided ::
  "(OpenAiCatalogKey \<times> catalog_result \<times> nat) set \<Rightarrow> OpenAiCatalogKey \<Rightarrow> nat \<Rightarrow> OpenAiModelCatalogCacheState
     \<Rightarrow> CatalogCacheDecision \<times> OpenAiModelCatalogCacheState \<Rightarrow> bool" where
  "decided results key now st decision \<longleftrightarrow>
     (case decision of
        (CatalogReturn result, st') \<Rightarrow> st' = st \<and> served results key (Some now) result
      | (CatalogWait refresh, st') \<Rightarrow> st' = st \<and> oc_refresh st = Some refresh \<and> rf_key refresh = key
      | (CatalogStart refresh, st') \<Rightarrow> rf_key refresh = key
          \<and> rf_generation refresh = (if oc_next_generation st = - 1 then - 1 else oc_next_generation st + 1)
          \<and> st' = st\<lparr>oc_next_generation := rf_generation refresh, oc_failure := None, oc_refresh := Some refresh\<rparr>)"

lemma start_decided: "decided results key now st (start_catalog_refresh key st)"
  by (simp add: decided_def start_catalog_refresh_def Let_def)

lemma stale_decided:
  assumes "cache_for results key st"
  shows "decided results key now st (stale_decision key now st)"
proof (cases "option_filter (\<lambda>failure. now < cf_retry_after failure) (oc_failure st)")
  case (Some failure)
  then have "oc_failure st = Some failure" "now < cf_retry_after failure"
    by (auto simp: option_filter_def split: option.splits if_splits)
  with assms have "served results key (Some now) (Inl (cf_error failure))" by (auto simp: cache_for_def served_def)
  with Some show ?thesis by (simp add: stale_decision_def decided_def)
next
  case None
  show ?thesis
  proof (cases "oc_refresh st")
    case (Some refresh)
    with None assms show ?thesis by (simp add: stale_decision_def decided_def cache_for_def)
  next
    case r: None
    with None start_decided show ?thesis by (simp add: stale_decision_def)
  qed
qed

lemma catalog_decided:
  assumes "cache_for results key (activate_key key st)"
  shows "decided results key now (activate_key key st) (catalog_decision key now st)"
proof (cases "\<exists>catalog t. oc_catalog (activate_key key st) = Some catalog \<and> oc_fetched_at (activate_key key st) = Some t
    \<and> now - t < CODEX_MODELS_SUCCESS_TTL")
  case True
  then obtain catalog t where c: "oc_catalog (activate_key key st) = Some catalog" "oc_fetched_at (activate_key key st) = Some t"
    "now - t < CODEX_MODELS_SUCCESS_TTL" by blast
  with assms have "served results key (Some now) (Inr catalog)" by (auto simp: cache_for_def served_def)
  with c show ?thesis by (simp add: catalog_decision_def Let_def decided_def)
next
  case False
  then have "catalog_decision key now st = stale_decision key now (activate_key key st)"
    by (auto simp: catalog_decision_def Let_def split: option.splits)
  with stale_decided [OF assms] show ?thesis by simp
qed

lemma fresh_generation:
  assumes "catalog_inv w" and "oc_next_generation (cw_cache w) \<noteq> - 1"
  shows "cw_refreshes w (oc_next_generation (cw_cache w) + 1) = None"
    and "unat (oc_next_generation (cw_cache w) + 1) = Suc (unat (oc_next_generation (cw_cache w)))"
proof -
  let ?n = "oc_next_generation (cw_cache w)"
  have "?n + 1 \<noteq> 0" using assms(2) by (metis add_eq_0_iff add.commute)
  then show u: "unat (?n + 1) = Suc (unat ?n)" by (metis Suc_eq_plus1 add.commute unatSuc)
  show "cw_refreshes w (?n + 1) = None"
  proof (rule ccontr)
    assume "cw_refreshes w (?n + 1) \<noteq> None"
    then obtain k s where "cw_refreshes w (?n + 1) = Some (k, s)" by fastforce
    with assms(1) have "unat (?n + 1) \<le> unat ?n" unfolding catalog_inv_def by blast
    with u show False by simp
  qed
qed

lemma ask_inv:
  assumes "catalog_inv w" and "oc_next_generation (cw_cache w) \<noteq> - 1"
  shows "catalog_inv (ask_catalog key now w)"
proof -
  let ?st = "activate_key key (cw_cache w)"
  obtain d st' where dec: "catalog_decision key now (cw_cache w) = (d, st')" by fastforce
  have "active_ok (cw_results w) (cw_cache w)"
    using assms(1) by (simp add: catalog_inv_def)
  note act = activate_for [OF this]
  from catalog_decided [OF act(2)] have d: "decided (cw_results w) key now ?st (d, st')" by (simp flip: dec)
  show ?thesis
  proof (cases d)
    case (CatalogReturn result)
    with d assms(1) act show ?thesis by (auto simp: ask_catalog_def dec decided_def catalog_inv_def active_ok_def)
  next
    case (CatalogWait refresh)
    with d assms(1) act show ?thesis by (auto simp: ask_catalog_def dec decided_def catalog_inv_def active_ok_def)
  next
    case (CatalogStart refresh)
    with d act(3) assms(2) have r: "rf_key refresh = key" "rf_generation refresh = oc_next_generation (cw_cache w) + 1"
      "st' = ?st\<lparr>oc_next_generation := rf_generation refresh, oc_failure := None, oc_refresh := Some refresh\<rparr>"
      by (simp_all add: decided_def)
    note fresh = fresh_generation [OF assms, folded r(2)]
    have "cache_for (cw_results w) key st'" using act(2) r by (simp add: cache_for_def)
    moreover have "unat g \<le> unat (rf_generation refresh)" if "cw_refreshes w g = Some (k, s)" for g k s
      using assms(1) that fresh(2) unfolding catalog_inv_def by fastforce
    moreover have "rf_generation r \<noteq> rf_generation refresh" if "(k, r) \<in># cw_waiting w" for k r
      using assms(1) that fresh(1) unfolding catalog_inv_def by fastforce
    ultimately show ?thesis using assms(1) act(1) fresh(1)
      by (auto simp: ask_catalog_def dec CatalogStart r catalog_inv_def active_ok_def announcement_ok_def)
  qed
qed

text \<open>A new status of a refresh keeps everything when it announces a result of its account.\<close>

lemma status_inv:
  assumes "catalog_inv w" and "cw_refreshes w g = Some (key, old)" and "announcement_ok (cw_results w) key new"
  shows "catalog_inv (w\<lparr>cw_refreshes := (cw_refreshes w)(g \<mapsto> (key, new))\<rparr>)"
proof -
  have "rf_key r = key" if "oc_refresh (cw_cache w) = Some r" "rf_generation r = g" for r
    using assms(1,2) that unfolding catalog_inv_def by fastforce
  moreover have "k = key" if "(k, r) \<in># cw_waiting w" "rf_generation r = g" for k r
    using assms(1,2) that unfolding catalog_inv_def by fastforce
  ultimately show ?thesis using assms by (auto simp: catalog_inv_def)
qed

lemma inv_mono:
  assumes "catalog_inv w" and "cw_results w \<subseteq> results"
  shows "catalog_inv (w\<lparr>cw_results := results\<rparr>)"
proof -
  have "announcement_ok results key status" if "announcement_ok (cw_results w) key status" for key status
    using that served_mono [OF _ assms(2)] by (auto simp: announcement_ok_def split: CatalogRefreshStatus.splits)
  moreover have "cache_for results key st" if "cache_for (cw_results w) key st" for key st
    using that assms(2) unfolding cache_for_def by blast
  then have "active_ok results (cw_cache w)" if "active_ok (cw_results w) (cw_cache w)"
    using that by (auto simp: active_ok_def split: option.splits)
  ultimately show ?thesis
    using assms(1) served_mono [OF _ assms(2)] by (fastforce simp: catalog_inv_def)
qed

lemma commit_inv:
  assumes "catalog_inv w" and "(key, result, now) \<in> cw_results w"
    and "commit_catalog_refresh key g result now (cw_cache w) = (committed, cache)"
  shows "catalog_inv (w\<lparr>cw_cache := cache\<rparr>)"
proof (cases "current_refresh key g (cw_cache w)")
  case True
  then have k: "oc_active_key (cw_cache w) = Some key" by (simp add: current_refresh_def)
  with assms(1) have "cache_for (cw_results w) key (cw_cache w)" by (simp add: catalog_inv_def active_ok_def)
  with assms(2,3) True have "cache_for (cw_results w) key cache"
    by (auto simp: commit_catalog_refresh_def Let_def cache_for_def split: sum.splits if_splits)
  moreover have "oc_active_key cache = Some key" "oc_refresh cache = None" "oc_next_generation cache = oc_next_generation (cw_cache w)"
    using assms(3) True k by (auto simp: commit_catalog_refresh_def Let_def split: sum.splits if_splits)
  ultimately show ?thesis using assms(1) by (auto simp: catalog_inv_def active_ok_def)
next
  case False
  with assms show ?thesis by (cases w) (auto simp: commit_catalog_refresh_def)
qed

lemma finish_inv:
  assumes "catalog_inv w" and "cw_refreshes w g = Some (key, Pending)"
  shows "catalog_inv (finish_refresh key g result now w)"
proof -
  obtain committed cache where c: "commit_catalog_refresh key g result now (cw_cache w) = (committed, cache)" by fastforce
  let ?w = "w\<lparr>cw_results := insert (key, result, now) (cw_results w)\<rparr>"
  have "catalog_inv ?w" by (rule inv_mono [OF assms(1)]) blast
  then have "catalog_inv (?w\<lparr>cw_cache := cache\<rparr>)" by (rule commit_inv [where key = key and result = result and now = now and g = g]) (simp_all add: c)
  moreover have "announcement_ok (insert (key, result, now) (cw_results w)) key
      (CommittedCatalog (if committed then result else Inl SUPERSEDED))"
    by (auto simp: announcement_ok_def served_def)
  ultimately have "catalog_inv (?w\<lparr>cw_cache := cache, cw_refreshes := (cw_refreshes w)(g \<mapsto>
      (key, CommittedCatalog (if committed then result else Inl SUPERSEDED)))\<rparr>)"
    using status_inv [of "?w\<lparr>cw_cache := cache\<rparr>" g key Pending] assms(2) by simp
  with c show ?thesis by (cases w) (simp add: finish_refresh_def)
qed

lemma abandon_inv:
  assumes "catalog_inv w"
  shows "catalog_inv (w\<lparr>cw_cache := abandon_catalog_refresh key g (cw_cache w)\<rparr>)"
  using assms
  by (auto simp: abandon_catalog_refresh_def catalog_inv_def active_ok_def cache_for_def split: option.splits)

lemma waiting_inv:
  assumes "catalog_inv w"
  shows "catalog_inv (w\<lparr>cw_waiting := cw_waiting w - {#caller#}\<rparr>)"
  using assms by (auto simp: catalog_inv_def dest: in_diffD)

lemma step_inv:
  assumes "catalog_step w w'" and "catalog_inv w"
  shows "catalog_inv w'"
  using assms
proof cases
  case (asked key now)
  with assms(2) show ?thesis by (simp add: ask_inv)
next
  case (committed generation key result now)
  with assms(2) show ?thesis by (simp add: finish_inv)
next
  case (announced generation key result)
  then have "announcement_ok (cw_results w) key (FinishedCatalog result)"
    using assms(2) unfolding catalog_inv_def by (fastforce simp: announcement_ok_def)
  with announced assms(2) show ?thesis by (simp add: status_inv)
next
  case (ended generation key status)
  with assms(2) show ?thesis by (simp add: status_inv announcement_ok_def)
next
  case (answered key refresh k result)
  with assms(2) have "k = key" "announcement_ok (cw_results w) k (FinishedCatalog result)"
    unfolding catalog_inv_def by fastforce+
  with waiting_inv [OF assms(2)] answered show ?thesis
    by (auto simp: catalog_inv_def announcement_ok_def)
next
  case (retried key refresh k)
  with abandon_inv [OF waiting_inv [OF assms(2)]] show ?thesis by simp
next
  case (cancelled caller)
  with waiting_inv [OF assms(2)] show ?thesis by simp
qed

lemma catalog_reachable_inv: "catalog_reachable w \<Longrightarrow> catalog_inv w"
proof (induction rule: catalog_reachable.induct)
  case catalog_init
  then show ?case by (simp add: catalog_inv_def active_ok_def catalog_world_init_def OpenAiModelCatalogCacheState_default_def)
next
  case (catalog_next w w')
  then show ?case using step_inv by blast
qed

section \<open>The models of a catalog\<close>

text \<open>90 per cent of a window at machine precision.\<close>

lemma ninety_percent_exact: "ninety_percent n = n * 9 div 10"
proof -
  have "n * 9 = 10 * (n div 10 * 9) + n mod 10 * 9" by (metis add_mult_distrib mult.assoc mult_div_mod_eq)
  then show ?thesis by (simp add: ninety_percent_def)
qed

definition limits_ok :: "OpenAiModelMetadata \<Rightarrow> bool" where
  "limits_ok m \<longleftrightarrow>
     (\<forall>n. om_max_input_tokens m = Some n \<longrightarrow> 0 < n \<and> n < 2 ^ 63
        \<and> (\<exists>r. om_recommended_auto_compact_tokens m = Some r \<and> r \<le> n * 9 div 10))
     \<and> finite (om_supported_reasoning_efforts m) \<and> card (om_supported_reasoning_efforts m) \<le> CODEX_MODELS_MAX_EFFORTS
     \<and> [] \<notin> om_supported_reasoning_efforts m
     \<and> om_reasoning_summary m \<in> {None, Some ''auto'', Some ''concise'', Some ''detailed''}"

lemma positive_limit_Inr:
  assumes "positive_limit v field slug = Inr l"
  shows "\<forall>n. l = Some n \<longrightarrow> 0 < n \<and> n < 2 ^ 63"
proof (cases v)
  case (Some w)
  have "sint w < 2 ^ 63" using sint_lt [of w] by simp
  with Some assms show ?thesis by (auto simp: positive_limit_def nat_less_iff split: if_splits)
qed (use assms in \<open>simp add: positive_limit_def\<close>)

lemma collect_efforts_Inr:
  "collect_efforts slug levels efforts = Inr es \<Longrightarrow> finite efforts \<Longrightarrow> [] \<notin> efforts \<Longrightarrow>
     finite es \<and> card es \<le> card efforts + length levels \<and> [] \<notin> es"
proof (induction levels arbitrary: efforts)
  case (Cons level levels)
  then have "level \<noteq> []" "level \<notin> efforts" and c: "collect_efforts slug levels (insert level efforts) = Inr es"
    by (auto split: if_splits)
  with Cons.IH [OF c] Cons.prems(2,3) show ?case by simp
qed simp

lemma model_metadata_Inr:
  assumes "model_metadata model = Inr m"
  shows "om_slug m = cm_slug model" and "limits_ok m"
proof -
  from assms obtain cw mw al es where
    l: "positive_limit (cm_context_window model) ''context_window'' (cm_slug model) = Inr cw"
      "positive_limit (cm_max_context_window model) ''max_context_window'' (cm_slug model) = Inr mw"
      "positive_limit (cm_auto_compact_token_limit model) ''auto_compact_token_limit'' (cm_slug model) = Inr al"
    and n: "length (cm_supported_reasoning_levels model) \<le> CODEX_MODELS_MAX_EFFORTS"
    and es: "collect_efforts (cm_slug model) (cm_supported_reasoning_levels model) {} = Inr es"
    and s: "case summary_of model of Some s \<Rightarrow> s \<in> {''auto'', ''concise'', ''detailed''} | None \<Rightarrow> True"
    and m: "m = \<lparr>om_slug = cm_slug model, om_max_input_tokens = (case cw of Some n \<Rightarrow> Some n | None \<Rightarrow> mw),
                 om_recommended_auto_compact_tokens =
                   recommended_limit al (map_option ninety_percent (case cw of Some n \<Rightarrow> Some n | None \<Rightarrow> mw)),
                 om_supported_reasoning_efforts = es, om_reasoning_summary = summary_of model,
                 om_supports_parallel_tool_calls = cm_supports_parallel_tool_calls model,
                 om_use_responses_lite = cm_use_responses_lite model\<rparr>"
    unfolding model_metadata_def Let_def and_then_Inr_iff
    by (auto simp: and_then_Inr_iff split: if_splits option.splits)
  show "om_slug m = cm_slug model" by (simp add: m)
  have e: "finite es" "card es \<le> CODEX_MODELS_MAX_EFFORTS" "[] \<notin> es" using collect_efforts_Inr [OF es] n by simp_all
  have sm: "om_reasoning_summary m \<in> {None, Some ''auto'', Some ''concise'', Some ''detailed''}"
    using s by (cases "summary_of model") (simp_all add: m)
  have w: "0 < k \<and> k < 2 ^ 63" "\<exists>r. om_recommended_auto_compact_tokens m = Some r \<and> r \<le> k * 9 div 10"
    if "om_max_input_tokens m = Some k" for k
  proof -
    show "0 < k \<and> k < 2 ^ 63" using that positive_limit_Inr [OF l(1)] positive_limit_Inr [OF l(2)]
      by (auto simp: m split: option.splits)
    show "\<exists>r. om_recommended_auto_compact_tokens m = Some r \<and> r \<le> k * 9 div 10"
      using that by (cases al) (auto simp: m recommended_limit_def ninety_percent_exact)
  qed
  from e sm w show "limits_ok m" by (simp add: limits_ok_def m)
qed

lemma collect_models_Inr:
  assumes "collect_models ms catalog = Inr catalog'"
    and "\<forall>slug m. catalog slug = Some m \<longrightarrow> om_slug m = slug \<and> limits_ok m"
  shows "(\<forall>slug m. catalog' slug = Some m \<longrightarrow> om_slug m = slug \<and> limits_ok m)
    \<and> dom catalog' = dom catalog \<union> set (map cm_slug ms) \<and> distinct (map cm_slug ms)
    \<and> set (map cm_slug ms) \<inter> dom catalog = {}"
  using assms
proof (induction ms arbitrary: catalog)
  case (Cons model ms)
  from Cons.prems(1) have fresh: "catalog (cm_slug model) = None" by (auto split: if_splits)
  with Cons.prems(1) obtain m where m: "model_metadata model = Inr m"
    and c: "collect_models ms (catalog(cm_slug model \<mapsto> m)) = Inr catalog'"
    by (auto simp: and_then_Inr_iff split: if_splits)
  have "\<forall>slug m'. (catalog(cm_slug model \<mapsto> m)) slug = Some m' \<longrightarrow> om_slug m' = slug \<and> limits_ok m'"
    using Cons.prems(2) model_metadata_Inr [OF m] by simp
  from Cons.IH [OF c this] fresh show ?case by auto
qed simp

end
