(* ===== verification/Openai_Request.thy ===== *)
theory Openai_Request
  imports Openai_Catalog
begin

text \<open>
  Requests to OpenAI's Responses API (\<open>agent-provider/src/openai.rs\<close>, \<open>openai/session_state.rs\<close>,
  \<open>token_estimator.rs\<close>): the state that a session keeps for the API, the rendering of a transcript,
  bodies, what is kept across a compaction, and the estimate of tokens. Fresh identifiers, the
  HTTP client and the table of built-in tools are parameters.
\<close>

section \<open>The state of a session\<close>

record CodexTurnState =
  cv_turn_id :: TurnId
  cv_value :: string

record OpenAiCodexSessionState =
  cx_session_id :: string
  cx_window_generation :: u64
  cx_turn_state :: "CodexTurnState option"

definition OpenAiCodexSessionState_new :: "string \<Rightarrow> OpenAiCodexSessionState" where
  "OpenAiCodexSessionState_new session_id =
     \<lparr>cx_session_id = session_id, cx_window_generation = 0, cx_turn_state = None\<rparr>"

definition set_window_generation :: "u64 \<Rightarrow> OpenAiCodexSessionState \<Rightarrow> OpenAiCodexSessionState" where
  "set_window_generation generation st = st\<lparr>cx_window_generation := generation\<rparr>"

text \<open>The loop of compare-and-exchange: it retries with what another thread wrote meanwhile.\<close>

fun observe_loop :: "u64 \<Rightarrow> u64 list \<Rightarrow> u64 \<Rightarrow> u64" where
  "observe_loop generation [] current = (if generation > current then generation else current)"
| "observe_loop generation (actual # interference) current =
     (if generation > current then observe_loop generation interference actual else current)"

definition observe_transcript_generation :: "u64 \<Rightarrow> OpenAiCodexSessionState \<Rightarrow> OpenAiCodexSessionState" where
  "observe_transcript_generation generation st =
     st\<lparr>cx_window_generation := observe_loop generation [] (cx_window_generation st)\<rparr>"

definition window_id :: "OpenAiCodexSessionState \<Rightarrow> string" where
  "window_id st = cx_session_id st @ '':'' @ u64_to_string (cx_window_generation st)"

definition turn_state_for_request :: "TurnId option \<Rightarrow> OpenAiCodexSessionState \<Rightarrow> string option" where
  "turn_state_for_request turn_id st =
     Option.bind turn_id (\<lambda>turn.
       map_option cv_value (option_filter (\<lambda>state. cv_turn_id state = turn) (cx_turn_state st)))"

definition record_turn_state :: "TurnId option \<Rightarrow> string \<Rightarrow> OpenAiCodexSessionState \<Rightarrow> OpenAiCodexSessionState" where
  "record_turn_state turn_id v st =
     (case turn_id of
        None \<Rightarrow> st
      | Some turn \<Rightarrow> st\<lparr>cx_turn_state := Some \<lparr>cv_turn_id = turn, cv_value = v\<rparr>\<rparr>)"

definition openai_session_id :: "string \<Rightarrow> string option \<Rightarrow> OpenAiCodexSessionState option \<Rightarrow> string" where
  "openai_session_id fresh request_session_id session_state =
     unwrap_or (case request_session_id of
         Some s \<Rightarrow> Some s
       | None \<Rightarrow> map_option cx_session_id session_state) fresh"

fun compacted_turns :: "ModelTranscriptEntry list \<Rightarrow> u64 list" where
  "compacted_turns [] = []"
| "compacted_turns (entry # transcript) =
     (case me_item entry of
        CompactionSummaryItem summary \<Rightarrow> (turn_id_0 (cs_last_turn_id summary)) # compacted_turns transcript
      | _ \<Rightarrow> compacted_turns transcript)"

definition codex_window_generation :: "ModelTranscriptEntry list \<Rightarrow> u64" where
  "codex_window_generation transcript = foldl max 0 (compacted_turns transcript)"

definition openai_window_id ::
  "string \<Rightarrow> OpenAiCodexSessionState option \<Rightarrow> ModelTranscriptEntry list \<Rightarrow> string \<times> OpenAiCodexSessionState option" where
  "openai_window_id session_id session_state transcript =
     (let transcript_generation = codex_window_generation transcript
      in case option_filter (\<lambda>st. cx_session_id st = session_id) session_state of
           Some st \<Rightarrow>
             let st = observe_transcript_generation transcript_generation st in (window_id st, Some st)
         | None \<Rightarrow> (session_id @ '':'' @ u64_to_string transcript_generation, session_state))"

section \<open>Rendering a transcript\<close>

definition openai_wire_tool_name :: "string \<Rightarrow> string" where
  "openai_wire_tool_name canonical_name =
     (if canonical_name = ''Edit'' then ''apply_patch''
      else if canonical_name = ''WebFetch'' then ''web_fetch''
      else if canonical_name = ''WebSearch'' then ''web_search''
      else canonical_name)"

definition is_openai_compaction_item :: "Value \<Rightarrow> bool" where
  "is_openai_compaction_item item \<longleftrightarrow> get_str item ''type'' \<in> {Some ''compaction'', Some ''compaction_summary''}"

definition message_item :: "string \<Rightarrow> Value list \<Rightarrow> Value" where
  "message_item role content =
     json_object [(''type'', JString ''message''), (''role'', JString role), (''content'', JArray content)]"

definition input_text :: "string \<Rightarrow> Value" where
  "input_text text = json_object [(''type'', JString ''input_text''), (''text'', JString text)]"

fun responses_user_block :: "ContentBlock \<Rightarrow> Value" where
  "responses_user_block (TextBlock text) = input_text text"
| "responses_user_block (ImageBlock img) =
     json_object [(''type'', JString ''input_image''),
       (''image_url'', JString (case ic_source img of
            Url url \<Rightarrow> url
          | Base64 data \<Rightarrow> ''data:'' @ ic_mime_type img @ '';base64,'' @ data))]"

definition responses_user_content :: "UserMessage \<Rightarrow> Value list" where
  "responses_user_content message = map responses_user_block (um_content message)"

definition response_tool_call_item :: "json_codec \<Rightarrow> ToolCall \<Rightarrow> Value" where
  "response_tool_call_item codec call =
     (if tc_tool_name call = ''Edit''
      then json_object [(''type'', JString ''custom_tool_call''), (''call_id'', JString (tool_call_id_0 (tc_id call))),
             (''name'', JString (openai_wire_tool_name (tc_tool_name call))),
             (''input'', JString (unwrap_or (Option.bind (codec_parser codec (tc_args_json call)) (\<lambda>v. get_str v ''input''))
                (tc_args_json call)))]
      else json_object [(''type'', JString ''function_call''), (''call_id'', JString (tool_call_id_0 (tc_id call))),
             (''name'', JString (openai_wire_tool_name (tc_tool_name call))),
             (''arguments'', JString (tc_args_json call))])"

definition response_tool_result_item :: "ToolResultMessage \<Rightarrow> Value" where
  "response_tool_result_item result =
     json_object [(''type'', JString (if tr_tool_name result = ''Edit'' then ''custom_tool_call_output'' else ''function_call_output'')),
       (''call_id'', JString (tool_call_id_0 (tr_tool_call_id result))), (''output'', JString (tr_output result))]"

definition openai_replay_items ::
  "json_codec \<Rightarrow> ModelTranscriptEntry \<Rightarrow> bool \<Rightarrow> ('http, string) ProviderError + Value list" where
  "openai_replay_items codec entry allow_unknown_compact_items =
     and_then (map_err Json (provider_replay_values_for codec OpenAi entry)) (\<lambda>replay.
     and_then (if allow_unknown_compact_items then Inr ()
       else try_all (\<lambda>item.
         and_then (openai_replay_item_type item ''persisted OpenAI replay item'') (\<lambda>item_type.
         and_then (validate_openai_ordinary_item_policy item_type item) (\<lambda>_. Inr ()))) replay) (\<lambda>_.
       Inr replay))"

definition validate_openai_compaction_replay :: "Value list \<Rightarrow> ('http, string) ProviderError + unit" where
  "validate_openai_compaction_replay replay =
     (if replay = [] then provider_error ''refusing missing persisted OpenAI compaction replay''
      else and_then (try_all (\<lambda>item.
          and_then (openai_replay_item_type item ''persisted OpenAI compaction replay item'') (\<lambda>_. Inr ())) replay) (\<lambda>_.
        let compaction_count = length (filter is_openai_compaction_item replay)
        in if compaction_count \<noteq> 1
           then provider_error (''refusing malformed persisted OpenAI compaction replay: expected exactly one native compaction item, found ''
                  @ dec_string compaction_count)
           else Inr ()))"

definition response_items_of ::
  "json_codec \<Rightarrow> PromptSections \<Rightarrow> ModelTranscriptEntry \<Rightarrow> ('http, string) ProviderError + Value list" where
  "response_items_of codec prompt entry =
     (case me_item entry of
        UserMessageItem message \<Rightarrow> Inr [message_item ''user'' (responses_user_content message)]
      | CompactionSummaryItem summary \<Rightarrow>
          and_then (openai_replay_items codec entry True) (\<lambda>replay.
            if replay = [] then Inr [message_item ''user'' [input_text (compaction_summary_text summary prompt)]]
            else and_then (validate_openai_compaction_replay replay) (\<lambda>_. Inr replay))
      | AssistantMessageItem message \<Rightarrow>
          and_then (openai_replay_items codec entry False) (\<lambda>replay_items.
            if replay_items \<noteq> [] then Inr replay_items
            else let text = AssistantMessage_text message
                 in Inr ((if text \<noteq> []
                          then [message_item ''assistant'' [json_object [(''type'', JString ''output_text''), (''text'', JString text)]]]
                          else []) @ map (response_tool_call_item codec) (AssistantMessage_tool_calls message)))
      | ToolResultItem result \<Rightarrow> Inr [response_tool_result_item result]
      | DaemonToolObservationItem observation \<Rightarrow>
          and_then (map_err Json (DaemonToolObservation_render_text (\<lambda>v. Inr (jc_to_string_pretty codec v))
              (\<lambda>v. Inr (jc_to_string codec v)) (jc_from_str codec) observation)) (\<lambda>text.
            Inr [message_item ''user'' [input_text text]])
      | TurnStarted _ \<Rightarrow> Inr []
      | ToolCallStarted _ _ \<Rightarrow> Inr []
      | TurnFinished _ _ \<Rightarrow> Inr [])"

definition transcript_to_response_items ::
  "json_codec \<Rightarrow> PromptSections \<Rightarrow> ModelTranscriptEntry list \<Rightarrow> ('http, string) ProviderError + Value list" where
  "transcript_to_response_items codec prompt items =
     and_then (try_map (response_items_of codec prompt) items) (\<lambda>rendered. Inr (concat rendered))"

definition response_input_items ::
  "json_codec \<Rightarrow> string option \<Rightarrow> PromptSections \<Rightarrow> ModelTranscriptEntry list \<Rightarrow> ('http, string) ProviderError + Value list" where
  "response_input_items codec dynamic_context prompt transcript =
     and_then (transcript_to_response_items codec prompt transcript) (\<lambda>items.
       Inr (items @ (case option_filter (\<lambda>v. trim v \<noteq> []) dynamic_context of
           Some context_text \<Rightarrow> [message_item ''user'' [input_text context_text]]
         | None \<Rightarrow> [])))"

section \<open>Bodies\<close>

definition response_tools :: "ProviderToolProfile \<Rightarrow> ProviderTool list \<Rightarrow> ('http, string) ProviderError + Value list" where
  "response_tools profile tools =
     (case profile of
        NoTools \<Rightarrow> Inr []
      | CustomDefinitions \<Rightarrow> Inr (map pt_declaration tools)
      | OpenAiCoding \<Rightarrow> Inr (map pt_declaration tools)
      | AnthropicCoding \<Rightarrow> provider_error ''Anthropic coding tools cannot be sent to OpenAI'')"

fun group_tools ::
  "Value list \<Rightarrow> Value list \<Rightarrow> Value list \<Rightarrow> nat option \<Rightarrow> Value list \<times> Value list \<times> nat option" where
  "group_tools [] grouped ungrouped insertion_index = (grouped, ungrouped, insertion_index)"
| "group_tools (tool # tools) grouped ungrouped insertion_index =
     (if get_str tool ''type'' \<in> {Some ''function'', Some ''custom''}
      then group_tools tools (grouped @ [tool]) ungrouped (Some (unwrap_or insertion_index (length ungrouped)))
      else group_tools tools grouped (ungrouped @ [tool]) insertion_index)"

definition response_tools_lite :: "Value list \<Rightarrow> Value list" where
  "response_tools_lite tools =
     (let (grouped, ungrouped, insertion_index) = group_tools tools [] [] None
      in case insertion_index of
           Some index \<Rightarrow>
             take index ungrouped
             @ json_object [(''type'', JString ''namespace''), (''name'', JString ''functions''), (''description'', JString []),
                 (''tools'', JArray grouped)]
             # drop index ungrouped
         | None \<Rightarrow> ungrouped)"

definition openai_reasoning_effort ::
  "OpenAiModelMetadata \<Rightarrow> ReasoningEffort \<Rightarrow> ('http, string) ProviderError + string" where
  "openai_reasoning_effort metadata effort =
     (if ReasoningEffort_as_str effort \<in> om_supported_reasoning_efforts metadata then Inr (ReasoningEffort_as_str effort)
      else provider_error (''reasoning effort '' @ ReasoningEffort_as_str effort @ '' is not supported by Codex model ''
             @ om_slug metadata))"

text \<open>Assignment to a field of an object that is a field itself.\<close>

definition Value_set_in :: "Value \<Rightarrow> string \<Rightarrow> string \<Rightarrow> Value \<Rightarrow> Value" where
  "Value_set_in v k j x = Value_set v k (Value_set (unwrap_or (Value_get v k) JNull) j x)"

definition responses_base_body :: "ModelRequest \<Rightarrow> string \<Rightarrow> string \<Rightarrow> OpenAiModelMetadata \<Rightarrow> Value" where
  "responses_base_body request prompt_cache_key reasoning_effort metadata =
     json_object [(''model'', JString (rq_model request)), (''tool_choice'', JString ''auto''),
       (''parallel_tool_calls'', JBool (om_supports_parallel_tool_calls metadata \<and> \<not> om_use_responses_lite metadata)),
       (''reasoning'', json_object [(''effort'', JString reasoning_effort)]), (''store'', JBool False), (''stream'', JBool True),
       (''include'', JArray [JString ''reasoning.encrypted_content'']), (''prompt_cache_key'', JString prompt_cache_key),
       (''service_tier'', JString ''priority'')]"

definition lite_prefix :: "string \<Rightarrow> Value list \<Rightarrow> Value list" where
  "lite_prefix stable_instructions tools =
     json_object [(''type'', JString ''additional_tools''), (''role'', JString ''developer''),
       (''tools'', JArray (response_tools_lite tools))]
     # (if stable_instructions \<noteq> [] then [message_item ''developer'' [input_text stable_instructions]] else [])"

definition responses_body_with_metadata ::
  "json_codec \<Rightarrow> (ProviderKind \<Rightarrow> ProviderTool list) \<Rightarrow> ModelRequest \<Rightarrow> string \<Rightarrow> OpenAiModelMetadata
     \<Rightarrow> ('http, string) ProviderError + Value" where
  "responses_body_with_metadata codec builtin request session_id metadata =
     and_then (openai_reasoning_effort metadata (rq_reasoning_effort request)) (\<lambda>reasoning_effort.
     and_then (response_tools (rq_tool_profile request)
         (effective_provider_tools builtin (rq_tool_profile request) (rq_tools request))) (\<lambda>tools.
     and_then (response_input_items codec (ps_dynamic_context (rq_prompt request)) (rq_prompt request) (rq_transcript request)) (\<lambda>input.
       let stable_instructions = unwrap_or (ps_stable_prefix (rq_prompt request)) [];
           body = responses_base_body request (unwrap_or (rq_prompt_cache_key request) session_id) reasoning_effort metadata;
           body = (case om_reasoning_summary metadata of
               Some summary \<Rightarrow> Value_set_in body ''reasoning'' ''summary'' (JString summary)
             | None \<Rightarrow> body)
       in Inr (if om_use_responses_lite metadata
               then Value_set_in (Value_set body ''input'' (JArray (lite_prefix stable_instructions tools @ input)))
                      ''reasoning'' ''context'' (JString ''all_turns'')
               else let body = Value_set body ''input'' (JArray input);
                        body = (if stable_instructions \<noteq> [] then Value_set body ''instructions'' (JString stable_instructions) else body)
                    in Value_set body ''tools'' (JArray tools)))))"

text \<open>The input of a body is always an array, so the call of \<open>expect\<close> does not panic.\<close>

definition compact_body_with_metadata ::
  "json_codec \<Rightarrow> (ProviderKind \<Rightarrow> ProviderTool list) \<Rightarrow> ProviderCompactionRequest \<Rightarrow> string \<Rightarrow> OpenAiModelMetadata
     \<Rightarrow> ('http, string) ProviderError + Value" where
  "compact_body_with_metadata codec builtin request session_id metadata =
     and_then (responses_body_with_metadata codec builtin
         \<lparr>rq_model = pq_model request, rq_prompt = pq_prompt request, rq_transcript_cache_prefix_len = None,
          rq_transcript = pq_transcript request, rq_tool_profile = pq_tool_profile request, rq_tools = pq_tools request,
          rq_max_tokens = None, rq_reasoning_effort = pq_reasoning_effort request,
          rq_prompt_cache_key = pq_prompt_cache_key request, rq_session_id = pq_session_id request, rq_turn_id = None\<rparr>
         session_id metadata) (\<lambda>body.
       Inr (Value_set body ''input''
         (JArray (unwrap_or (get_array body ''input'') [] @ [json_object [(''type'', JString ''compaction_trigger'')]]))))"

section \<open>Tokens\<close>

definition approx_tokens_from_byte_count :: "nat \<Rightarrow> nat" where
  "approx_tokens_from_byte_count bytes = saturating_add bytes 3 div 4"

section \<open>What a compaction keeps\<close>

definition CODEX_COMPACTION_RETAINED_TOKEN_BUDGET :: nat where
  "CODEX_COMPACTION_RETAINED_TOKEN_BUDGET = 64000"

definition CODEX_COMPACTION_MAX_AGENT_MESSAGE_TOKENS :: nat where
  "CODEX_COMPACTION_MAX_AGENT_MESSAGE_TOKENS = 10000"

definition compact_item_text_tokens :: "json_codec \<Rightarrow> Value \<Rightarrow> nat" where
  "compact_item_text_tokens codec item =
     (if get_str item ''type'' = Some ''agent_message''
      then approx_tokens_from_byte_count (length (jc_to_string codec item))
      else sum_list (map (\<lambda>text. approx_tokens_from_byte_count (length text))
             (List.map_filter (\<lambda>part. get_str part ''text'') (unwrap_or (get_array item ''content'') []))))"

definition is_retained_compaction_input_item :: "json_codec \<Rightarrow> Value \<Rightarrow> bool" where
  "is_retained_compaction_input_item codec item \<longleftrightarrow>
     (if get_str item ''type'' = Some ''message'' then get_str item ''role'' = Some ''user''
      else if get_str item ''type'' = Some ''agent_message''
      then compact_item_text_tokens codec item \<le> CODEX_COMPACTION_MAX_AGENT_MESSAGE_TOKENS
      else False)"

text \<open>A byte that continues a character; the ends of a text are boundaries.\<close>

definition is_char_boundary :: "string \<Rightarrow> nat \<Rightarrow> bool" where
  "is_char_boundary text i \<longleftrightarrow> i = 0 \<or>
     (if i < length text then byte (text ! i) < 128 \<or> byte (text ! i) \<ge> 192 else i = length text)"

text \<open>The two loops that move an index to a boundary. Index 0 and the length are boundaries.\<close>

fun boundary_down :: "string \<Rightarrow> nat \<Rightarrow> nat" where
  "boundary_down text 0 = 0"
| "boundary_down text (Suc i) = (if is_char_boundary text (Suc i) then Suc i else boundary_down text i)"

function boundary_up :: "string \<Rightarrow> nat \<Rightarrow> nat" where
  "boundary_up text i =
     (if i \<ge> length text \<or> is_char_boundary text i then i else boundary_up text (i + 1))"
  by pat_completeness auto
termination by (relation "measure (\<lambda>(text, i). length text - i)") auto

declare boundary_up.simps [simp del]

definition truncate_middle_to_approx_tokens :: "string \<Rightarrow> nat \<Rightarrow> string" where
  "truncate_middle_to_approx_tokens text max_tokens =
     (let max_bytes = saturating_mul max_tokens 4
      in if length text \<le> max_bytes then text
         else
           let prefix_end = boundary_down text (max_bytes div 2);
               suffix_start = boundary_up text (length text - (max_bytes - max_bytes div 2));
               removed_tokens = approx_tokens_from_byte_count (suffix_start - prefix_end)
           in take prefix_end text @ ellipsis @ dec_string removed_tokens @ '' tokens truncated'' @ ellipsis
                @ drop suffix_start text)"

fun truncate_parts :: "nat \<Rightarrow> Value list \<Rightarrow> Value list" where
  "truncate_parts remaining [] = []"
| "truncate_parts remaining (part # parts) =
     (case get_str part ''text'' of
        None \<Rightarrow> part # truncate_parts remaining parts
      | Some original \<Rightarrow>
          if remaining = 0 then truncate_parts remaining parts
          else
            let tokens = approx_tokens_from_byte_count (length original)
            in if tokens \<le> remaining then part # truncate_parts (remaining - tokens) parts
               else Value_set part ''text'' (JString (truncate_middle_to_approx_tokens original remaining))
                      # truncate_parts 0 parts)"

definition truncate_compaction_message :: "Value \<Rightarrow> nat \<Rightarrow> Value option" where
  "truncate_compaction_message item max_tokens =
     (if get_str item ''type'' \<noteq> Some ''message'' then None
      else Option.bind (get_array item ''content'') (\<lambda>content.
        let content = truncate_parts max_tokens content
        in if content = [] then None else Some (Value_set item ''content'' (JArray content))))"

text \<open>From the newest item to the oldest; the result is in reverse order.\<close>

fun retain_newest :: "json_codec \<Rightarrow> nat \<Rightarrow> Value list \<Rightarrow> Value list" where
  "retain_newest codec remaining [] = []"
| "retain_newest codec remaining (item # older) =
     (if remaining = 0 then []
      else
        let tokens = max (compact_item_text_tokens codec item) 1
        in if tokens \<le> remaining then item # retain_newest codec (remaining - tokens) older
           else case truncate_compaction_message item remaining of
               Some truncated \<Rightarrow> truncated # retain_newest codec 0 older
             | None \<Rightarrow> retain_newest codec remaining older)"

definition truncate_retained_compaction_input :: "json_codec \<Rightarrow> Value list \<Rightarrow> nat \<Rightarrow> Value list" where
  "truncate_retained_compaction_input codec items max_tokens = rev (retain_newest codec max_tokens (rev items))"

fun may_be_retained :: "TranscriptItem \<Rightarrow> bool" where
  "may_be_retained (UserMessageItem _) = True"
| "may_be_retained (AssistantMessageItem _) = True"
| "may_be_retained (CompactionSummaryItem _) = True"
| "may_be_retained _ = False"

definition retained_compaction_input ::
  "json_codec \<Rightarrow> PromptSections \<Rightarrow> ModelTranscriptEntry list \<Rightarrow> ('http, string) ProviderError + Value list" where
  "retained_compaction_input codec prompt transcript =
     and_then (try_map (\<lambda>entry.
         if may_be_retained (me_item entry)
         then and_then (transcript_to_response_items codec prompt [entry]) (\<lambda>items.
                Inr (filter (is_retained_compaction_input_item codec) items))
         else Inr []) transcript) (\<lambda>candidates.
       Inr (truncate_retained_compaction_input codec (concat candidates) CODEX_COMPACTION_RETAINED_TOKEN_BUDGET))"

definition compact_v2_response ::
  "json_codec \<Rightarrow> Value list \<Rightarrow> ModelResponse \<Rightarrow> ('http, string) ProviderError + ProviderCompactionResponse" where
  "compact_v2_response codec retained_input response =
     and_then (map_err Json (try_map (\<lambda>record. jc_from_str codec (pr_raw_json record)) (mr_provider_replay response))) (\<lambda>items.
       let compactions = filter is_openai_compaction_item items
       in if length compactions \<noteq> 1
          then provider_error (''OpenAI compaction stream expected exactly one compaction item, found ''
                 @ dec_string (length compactions))
          else Inr \<lparr>cr_summary = None,
                 cr_provider_replay = map (\<lambda>item. \<lparr>pr_provider = OpenAi, pr_raw_json = jc_to_string codec item, pr_display = None\<rparr>)
                   (retained_input @ [hd compactions]),
                 cr_usage = mr_usage response\<rparr>)"

section \<open>Calls\<close>

text \<open>
  The headers of a response are a map from names to values, \<open>None\<close> for a value that is not
  text.
\<close>

type_synonym header_map = "string \<rightharpoonup> string option"

definition header_value :: "header_map \<Rightarrow> string \<Rightarrow> string option" where
  "header_value headers name = option_filter (\<lambda>v. v \<noteq> []) (Option.bind (headers name) (\<lambda>v. v))"

record OpenAiResponseHeaders =
  rh_upstream_request_id :: "string option"
  rh_cf_ray :: "string option"
  rh_server_model :: "string option"
  rh_codex_turn_state :: "string option"
  rh_reasoning_included :: "bool option"

definition OpenAiResponseHeaders_from_headers :: "header_map \<Rightarrow> OpenAiResponseHeaders" where
  "OpenAiResponseHeaders_from_headers headers =
     \<lparr>rh_upstream_request_id = header_value headers ''x-request-id'',
      rh_cf_ray = header_value headers ''cf-ray'',
      rh_server_model = (case header_value headers ''openai-model'' of
          Some m \<Rightarrow> Some m
        | None \<Rightarrow> header_value headers ''x-openai-model''),
      rh_codex_turn_state = header_value headers ''x-codex-turn-state'',
      rh_reasoning_included = (if headers ''x-reasoning-included'' \<noteq> None then Some True else None)\<rparr>"

definition attach_to_usage :: "OpenAiResponseHeaders \<Rightarrow> ProviderUsage option \<Rightarrow> ProviderUsage option" where
  "attach_to_usage headers usage =
     map_option (\<lambda>u. u\<lparr>pu_upstream_request_id := rh_upstream_request_id headers, pu_cf_ray := rh_cf_ray headers,
       pu_server_model := rh_server_model headers, pu_codex_turn_state := rh_codex_turn_state headers,
       pu_reasoning_included := rh_reasoning_included headers\<rparr>) usage"

text \<open>The user agent depends on the operating system and is a field here.\<close>

record OpenAiProvider =
  op_access_token :: string
  op_account_id :: "string option"
  op_installation_id :: "string option"
  op_base_url :: string
  op_user_agent :: string

type_synonym headers = "(string \<times> string) list"

definition optional_header :: "string \<Rightarrow> string option \<Rightarrow> headers" where
  "optional_header name v = (case v of Some x \<Rightarrow> [(name, x)] | None \<Rightarrow> [])"

definition add_codex_common_headers :: "OpenAiProvider \<Rightarrow> headers \<Rightarrow> headers" where
  "add_codex_common_headers provider request =
     request @ [(''originator'', ''codex_cli_rs''), (''User-Agent'', op_user_agent provider),
       (''x-openai-internal-codex-residency'', ''us''), (''authorization'', ''Bearer '' @ op_access_token provider)]
     @ optional_header ''x-codex-installation-id'' (op_installation_id provider)
     @ optional_header ''ChatGPT-Account-ID'' (op_account_id provider)"

definition add_codex_headers :: "OpenAiProvider \<Rightarrow> string \<Rightarrow> string \<Rightarrow> string option \<Rightarrow> headers \<Rightarrow> headers" where
  "add_codex_headers provider session_id window turn_state request =
     add_codex_common_headers provider request
     @ [(''x-codex-window-id'', window), (''x-client-request-id'', session_id), (''session-id'', session_id),
        (''thread-id'', session_id)]
     @ optional_header ''x-codex-turn-state'' turn_state"

definition add_codex_model_headers :: "OpenAiModelMetadata \<Rightarrow> headers \<Rightarrow> headers" where
  "add_codex_model_headers metadata request =
     request @ [(''x-codex-routing-hint'', ''model='' @ om_slug metadata @ '';tier=priority'')]
     @ (if om_use_responses_lite metadata then [(''x-openai-internal-codex-responses-lite'', ''true'')] else [])"

definition optional_entry :: "string \<Rightarrow> string option \<Rightarrow> (string \<times> Value) list" where
  "optional_entry name v = (case v of Some x \<Rightarrow> [(name, JString x)] | None \<Rightarrow> [])"

definition codex_request_metadata ::
  "json_codec \<Rightarrow> OpenAiProvider \<Rightarrow> string \<Rightarrow> string \<Rightarrow> TurnId option \<Rightarrow> string \<Rightarrow> Value \<times> string" where
  "codex_request_metadata codec provider session_id window turn_id request_kind =
     (let turn = map_option (\<lambda>t. u64_to_string (turn_id_0 t)) turn_id;
          turn_metadata_json = jc_to_string codec (json_object
            (optional_entry ''installation_id'' (op_installation_id provider)
             @ [(''session_id'', JString session_id), (''thread_id'', JString session_id)]
             @ optional_entry ''turn_id'' turn
             @ [(''window_id'', JString window), (''request_kind'', JString request_kind)]))
      in (json_object
            (optional_entry ''x-codex-installation-id'' (op_installation_id provider)
             @ [(''session_id'', JString session_id), (''thread_id'', JString session_id)]
             @ optional_entry ''turn_id'' turn
             @ [(''x-codex-window-id'', JString window), (''x-codex-turn-metadata'', JString turn_metadata_json)]),
          turn_metadata_json))"

record openai_call =
  oq_url :: string
  oq_headers :: headers
  oq_bytes :: string

text \<open>The compressor is the argument \<open>zstd\<close>.\<close>

definition zstd_json_request ::
  "json_codec \<Rightarrow> (string \<Rightarrow> string + string) \<Rightarrow> string \<Rightarrow> headers \<Rightarrow> Value \<Rightarrow> ('http, string) ProviderError + openai_call" where
  "zstd_json_request codec zstd url request body =
     and_then (map_err (\<lambda>e. Provider (''failed to zstd-compress OpenAI request body: '' @ e)) (zstd (jc_to_string codec body)))
       (\<lambda>compressed.
         Inr \<lparr>oq_url = url, oq_headers = request @ [(''content-type'', ''application/json''), (''content-encoding'', ''zstd'')],
              oq_bytes = compressed\<rparr>)"

definition responses_url :: "OpenAiProvider \<Rightarrow> string" where
  "responses_url provider = rev (dropWhile (\<lambda>c. c = CHR ''/'') (rev (op_base_url provider))) @ ''/responses''"

text \<open>
  A call, from the session's state to the request. Other calls may change the state while the
  answer is awaited, so what the answer does to the state is a function of its own.
\<close>

definition prepare_responses_call ::
  "json_codec \<Rightarrow> (string \<Rightarrow> string + string) \<Rightarrow> OpenAiProvider \<Rightarrow> string \<Rightarrow> string \<Rightarrow> TurnId option \<Rightarrow> string \<Rightarrow> string option
     \<Rightarrow> OpenAiModelMetadata \<Rightarrow> Value \<Rightarrow> ('http, string) ProviderError + openai_call" where
  "prepare_responses_call codec zstd provider session_id window turn_id request_kind turn_state metadata body =
     (let (client_metadata, turn_metadata) = codex_request_metadata codec provider session_id window turn_id request_kind;
          body = Value_set body ''client_metadata'' client_metadata
      in zstd_json_request codec zstd (responses_url provider)
           (add_codex_model_headers metadata
             (add_codex_headers provider session_id window turn_state
               [(''accept'', ''text/event-stream''), (''x-codex-turn-metadata'', turn_metadata)])) body)"

definition complete_responses_request ::
  "json_codec \<Rightarrow> (ProviderKind \<Rightarrow> ProviderTool list) \<Rightarrow> (string \<Rightarrow> string + string) \<Rightarrow> OpenAiProvider \<Rightarrow> string
     \<Rightarrow> catalog_result \<Rightarrow> ModelRequest \<Rightarrow> OpenAiCodexSessionState option
     \<Rightarrow> (('http, string) ProviderError + openai_call) \<times> OpenAiCodexSessionState option" where
  "complete_responses_request codec builtin zstd provider fresh catalog request session_state =
     (let session_id = openai_session_id fresh (rq_session_id request) session_state;
          (window, session_state) = openai_window_id session_id session_state (rq_transcript request);
          turn_state = Option.bind (option_filter (\<lambda>st. cx_session_id st = session_id) session_state)
            (turn_state_for_request (rq_turn_id request))
      in (and_then (resolved_model_metadata catalog (rq_model request)) (\<lambda>metadata.
          and_then (responses_body_with_metadata codec builtin request session_id metadata) (\<lambda>body.
            prepare_responses_call codec zstd provider session_id window (rq_turn_id request) ''turn'' turn_state metadata body)),
          session_state))"

definition complete_responses_answer ::
  "json_codec \<Rightarrow> string \<Rightarrow> TurnId option \<Rightarrow> header_map \<Rightarrow> 'http response \<Rightarrow> OpenAiCodexSessionState option
     \<Rightarrow> (('http, string) ProviderError + ModelResponse) \<times> OpenAiCodexSessionState option" where
  "complete_responses_answer codec session_id turn_id headers response session_state =
     (let response_headers = OpenAiResponseHeaders_from_headers headers;
          session_state =
            (case (if rsp_is_success response then rh_codex_turn_state response_headers else None,
                   option_filter (\<lambda>st. cx_session_id st = session_id) session_state) of
               (Some turn_state, Some st) \<Rightarrow> Some (record_turn_state turn_id turn_state st)
             | _ \<Rightarrow> session_state)
      in (and_then (parse_responses_stream codec response OpenAi) (\<lambda>parsed.
            Inr (parsed\<lparr>mr_usage := attach_to_usage response_headers (mr_usage parsed)\<rparr>)),
          session_state))"

definition compact_responses_request ::
  "json_codec \<Rightarrow> (ProviderKind \<Rightarrow> ProviderTool list) \<Rightarrow> (string \<Rightarrow> string + string) \<Rightarrow> OpenAiProvider \<Rightarrow> string
     \<Rightarrow> catalog_result \<Rightarrow> ProviderCompactionRequest \<Rightarrow> OpenAiCodexSessionState option
     \<Rightarrow> (('http, string) ProviderError + openai_call \<times> Value list) \<times> OpenAiCodexSessionState option" where
  "compact_responses_request codec builtin zstd provider fresh catalog request session_state =
     (let session_id = openai_session_id fresh (pq_session_id request) session_state;
          (window, session_state) = openai_window_id session_id session_state (pq_transcript request)
      in (and_then (resolved_model_metadata catalog (pq_model request)) (\<lambda>metadata.
          and_then (retained_compaction_input codec (pq_prompt request) (pq_transcript request)) (\<lambda>retained_input.
          and_then (compact_body_with_metadata codec builtin request session_id metadata) (\<lambda>body.
          and_then (prepare_responses_call codec zstd provider session_id window None ''compaction'' None metadata body) (\<lambda>call.
            Inr (call, retained_input))))),
          session_state))"

definition compact_responses_answer ::
  "json_codec \<Rightarrow> Value list \<Rightarrow> header_map \<Rightarrow> 'http response \<Rightarrow> ('http, string) ProviderError + ProviderCompactionResponse" where
  "compact_responses_answer codec retained_input headers response =
     and_then (parse_responses_stream codec response OpenAi) (\<lambda>parsed.
     and_then (compact_v2_response codec retained_input parsed) (\<lambda>compacted.
       Inr (compacted\<lparr>cr_usage := attach_to_usage (OpenAiResponseHeaders_from_headers headers) (cr_usage compacted)\<rparr>)))"

definition openai_model_metadata :: "OpenAiModelMetadata \<Rightarrow> ProviderModelMetadata" where
  "openai_model_metadata metadata =
     \<lparr>pm_max_input_tokens = map_option of_nat (om_max_input_tokens metadata),
      pm_recommended_auto_compact_tokens = map_option of_nat (om_recommended_auto_compact_tokens metadata)\<rparr>"

end
