(* ===== verification/Openai_Request_Proofs.thy ===== *)
theory Openai_Request_Proofs
  imports "HOL-Library.Sublist" "HOL-Library.Countable" Openai_Stream_Proofs Openai_Catalog_Proofs Openai_Request
begin

text \<open>
  What OpenAI's adapter sends back of what it received: a decoded response renders to the items
  it came from, a compaction keeps the newest messages within its budget, and the stored
  compaction is what the next request begins with. A numbering of the JSON values is a printer
  and parser with the law these lemmas assume of \<open>serde_json\<close>.
\<close>

section \<open>Replaying what the provider sent\<close>

text \<open>Printing a value and parsing the text gives the value back.\<close>

definition reparses :: "json_codec \<Rightarrow> bool" where
  "reparses codec \<longleftrightarrow> (\<forall>v. jc_from_str codec (jc_to_string codec v) = Inr v)"

lemma replay_values:
  assumes "reparses codec" and "list_all (\<lambda>record. pr_provider record = OpenAi) records"
    and "map pr_raw_json records = map (jc_to_string codec) items" and "me_provider_replay entry = records"
  shows "provider_replay_values_for codec OpenAi entry = Inr items"
proof -
  have "try_map (\<lambda>record. jc_from_str codec (pr_raw_json record)) records = Inr items"
    using assms(1,3)
  proof (induction records arbitrary: items)
    case (Cons rec records)
    then show ?case by (cases items) (auto simp: reparses_def)
  qed simp
  moreover have "filter (\<lambda>record. pr_provider record = OpenAi) records = records"
    using assms(2) by (simp add: list_all_iff)
  ultimately show ?thesis by (simp add: provider_replay_values_for_def assms(4))
qed

lemma replay_items_ok:
  assumes "provider_replay_values_for codec OpenAi entry = Inr items" and "list_all item_ok items"
  shows "openai_replay_items codec entry False = (Inr items :: ('http, string) ProviderError + _)"
proof -
  have "and_then (openai_replay_item_type item c) (\<lambda>t. and_then (validate_openai_ordinary_item_policy t item) (\<lambda>_. Inr ()))
      = (Inr () :: ('http, string) ProviderError + unit)" if ok: "item_ok item" for item c
  proof -
    obtain t where t: "nonempty_str item ''type'' = Some t" using item_ok_typed [OF ok] by blast
    with ok policy_iff [OF t, where 'a = 'http] obtain k where
      "validate_openai_ordinary_item_policy t item = (Inr k :: ('http, string) ProviderError + _)" by blast
    with t show ?thesis unfolding replay_item_type_then by simp
  qed
  with assms show ?thesis by (simp add: openai_replay_items_def try_all_iff [THEN iffD2] list_all_iff)
qed

text \<open>The entry that a decoded response becomes renders to the items it was decoded from.\<close>

lemma decoded_renders:
  assumes "reparses codec" and "list_all item_ok items" and "response_decodes codec OpenAi items r"
    and "mr_stop_reason r \<noteq> StopRefusal"
  shows "transcript_to_response_items codec prompt
      [\<lparr>me_item = AssistantMessageItem (mr_assistant r), me_provider_replay = mr_provider_replay r\<rparr>]
    = (Inr items :: ('http, string) ProviderError + _)"
proof -
  let ?entry = "\<lparr>me_item = AssistantMessageItem (mr_assistant r), me_provider_replay = mr_provider_replay r\<rparr>"
  from assms(3,4) have r: "AssistantMessage_text (mr_assistant r) = concat (map item_text items)"
    "AssistantMessage_tool_calls (mr_assistant r) = concat (map (response_item_calls codec OpenAi) items)"
    "mr_provider_replay r = map (item_record codec OpenAi) items"
    by (auto simp: response_decodes_def split: option.splits)
  have "provider_replay_values_for codec OpenAi ?entry = Inr items"
    by (rule replay_values [OF assms(1)]) (simp_all add: r(3) item_record_def list_all_iff)
  from replay_items_ok [OF this assms(2), where 'http = 'http] r show ?thesis
    by (cases "items = []") (simp_all add: transcript_to_response_items_def response_items_of_def)
qed

section \<open>What a compaction keeps\<close>

lemma retain_none [simp]: "retain_newest codec 0 items = []"
  by (cases items) simp_all

text \<open>
  Unchanged items within the budget, newest first, and at most one truncated item older than
  they are.
\<close>

definition retained_of :: "json_codec \<Rightarrow> nat \<Rightarrow> Value list \<Rightarrow> Value list \<Rightarrow> Value list \<Rightarrow> bool" where
  "retained_of codec budget items kept trimmed \<longleftrightarrow>
     subseq kept items \<and> sum_list (map (\<lambda>item. max (compact_item_text_tokens codec item) 1) kept) \<le> budget
     \<and> (trimmed = [] \<or> (\<exists>item n t. trimmed = [t] \<and> item \<in> set items \<and> n \<le> budget \<and> truncate_compaction_message item n = Some t))"

lemma retained_of_keep:
  assumes "retained_of codec (budget - tokens) older kept trimmed" and "tokens = max (compact_item_text_tokens codec item) 1"
    and "tokens \<le> budget"
  shows "retained_of codec budget (item # older) (item # kept) trimmed"
proof -
  have "n \<le> budget - tokens \<Longrightarrow> n \<le> budget" for n by simp
  with assms show ?thesis unfolding retained_of_def by fastforce
qed

lemma retained_of_skip: "retained_of codec budget older kept trimmed \<Longrightarrow> retained_of codec budget (item # older) kept trimmed"
  unfolding retained_of_def by fastforce

lemma retain_newest_parts:
  "\<exists>kept trimmed. retain_newest codec budget items = kept @ trimmed \<and> retained_of codec budget items kept trimmed"
proof (induction items arbitrary: budget)
  case (Cons item older)
  let ?tokens = "max (compact_item_text_tokens codec item) 1"
  consider "budget = 0" | "0 < budget" "?tokens \<le> budget"
    | t where "0 < budget" "\<not> ?tokens \<le> budget" "truncate_compaction_message item budget = Some t"
    | "0 < budget" "\<not> ?tokens \<le> budget" "truncate_compaction_message item budget = None" by fastforce
  then show ?case
  proof cases
    case 1
    then show ?thesis by (simp add: retained_of_def)
  next
    case 2
    obtain kept trimmed where k: "retain_newest codec (budget - ?tokens) older = kept @ trimmed"
      "retained_of codec (budget - ?tokens) older kept trimmed" using Cons.IH by blast
    from 2 k(1) have "retain_newest codec budget (item # older) = (item # kept) @ trimmed" by (simp add: Let_def)
    with retained_of_keep [OF k(2) refl 2(2)] show ?thesis by blast
  next
    case 3
    then have "retain_newest codec budget (item # older) = [] @ [t]" by (simp add: Let_def)
    moreover have "retained_of codec budget (item # older) [] [t]" using 3 by (auto simp: retained_of_def)
    ultimately show ?thesis by blast
  next
    case 4
    obtain kept trimmed where k: "retain_newest codec budget older = kept @ trimmed"
      "retained_of codec budget older kept trimmed" using Cons.IH by blast
    from 4 k(1) have "retain_newest codec budget (item # older) = kept @ trimmed" by (simp add: Let_def)
    with retained_of_skip [OF k(2)] show ?thesis by blast
  qed
qed (simp add: retained_of_def)

lemma subseq_rev: "subseq xs ys \<Longrightarrow> subseq (rev xs) (rev ys)"
  by (induction xs ys rule: list_emb.induct) (auto intro: subseq_rev_drop_many list_emb_append_mono)

lemma truncate_retained_parts:
  "\<exists>kept trimmed. truncate_retained_compaction_input codec items budget = trimmed @ kept \<and> retained_of codec budget items kept trimmed"
proof -
  obtain kept trimmed where k: "retain_newest codec budget (rev items) = kept @ trimmed" "retained_of codec budget (rev items) kept trimmed"
    using retain_newest_parts by blast
  then have "retained_of codec budget items (rev kept) trimmed"
    using subseq_rev [of kept "rev items"] by (auto simp: retained_of_def rev_map [symmetric])
  moreover have "rev trimmed = trimmed" using k(2) by (auto simp: retained_of_def)
  ultimately show ?thesis using k(1) by (auto simp: truncate_retained_compaction_input_def)
qed

text \<open>A truncated text keeps a beginning and an end of whole characters within its budget.\<close>

lemma boundary_down_le: "boundary_down s i \<le> i" and boundary_down_ok: "is_char_boundary s (boundary_down s i)"
  by (induction i) (auto simp: is_char_boundary_def)

lemma boundary_up_ge: "i \<le> boundary_up s i"
proof (induction s i rule: boundary_up.induct)
  case (1 s i)
  then show ?case by (subst boundary_up.simps) fastforce
qed

lemma boundary_up_ok: "i \<le> length s \<Longrightarrow> boundary_up s i \<le> length s \<and> is_char_boundary s (boundary_up s i)"
proof (induction s i rule: boundary_up.induct)
  case (1 s i)
  show ?case
  proof (cases "i \<ge> length s \<or> is_char_boundary s i")
    case True
    with 1(2) show ?thesis by (subst (1 2) boundary_up.simps) (auto simp: is_char_boundary_def)
  next
    case False
    with 1 show ?thesis by (subst (1 2) boundary_up.simps) auto
  qed
qed

lemma truncate_middle_parts:
  assumes "4 * n < 2 ^ 64" and "4 * n < length s"
  shows "\<exists>i j. i \<le> j \<and> j \<le> length s \<and> is_char_boundary s i \<and> is_char_boundary s j \<and> i + (length s - j) \<le> 4 * n
    \<and> truncate_middle_to_approx_tokens s n
       = take i s @ ellipsis @ dec_string (approx_tokens_from_byte_count (j - i)) @ '' tokens truncated'' @ ellipsis @ drop j s"
proof -
  have m: "saturating_mul n 4 = 4 * n" using assms(1) by (simp add: saturating_mul_def min_def mult.commute)
  define i where "i = boundary_down s (4 * n div 2)"
  define j where "j = boundary_up s (length s - (4 * n - 4 * n div 2))"
  have "i \<le> 4 * n div 2" by (simp add: i_def boundary_down_le)
  moreover have "length s - (4 * n - 4 * n div 2) \<le> j" by (simp add: j_def boundary_up_ge)
  moreover have "j \<le> length s" "is_char_boundary s j" using boundary_up_ok [of "length s - (4 * n - 4 * n div 2)" s]
    by (simp_all add: j_def)
  moreover have "is_char_boundary s i" by (simp add: i_def boundary_down_ok)
  moreover have "truncate_middle_to_approx_tokens s n
      = take i s @ ellipsis @ dec_string (approx_tokens_from_byte_count (j - i)) @ '' tokens truncated'' @ ellipsis @ drop j s"
    using assms(2) by (simp add: truncate_middle_to_approx_tokens_def m Let_def i_def j_def)
  ultimately show ?thesis using assms(2) by (intro exI [of _ i] exI [of _ j]) linarith
qed

text \<open>What is kept are messages, so that the compaction item is the only one of its kind.\<close>

definition plain_item :: "Value \<Rightarrow> bool" where
  "plain_item item \<longleftrightarrow> get_str item ''type'' \<in> {Some ''message'', Some ''agent_message''}"

lemma truncate_message_plain:
  assumes "truncate_compaction_message item n = Some t"
  shows "plain_item t"
proof -
  from assms have type: "get_str item ''type'' = Some ''message''"
    and t: "\<exists>content. t = Value_set item ''content'' content"
    by (auto simp: truncate_compaction_message_def bind_eq_Some_conv Let_def split: if_splits)
  from type obtain kvs where "item = JObject kvs" by (cases item) (auto simp: get_str_def)
  with type t show ?thesis by (auto simp: plain_item_def get_str_def)
qed

text \<open>
  The candidates are the messages among what the entries with messages render to.
\<close>

lemma candidates_rendered:
  "try_map (\<lambda>entry. if P entry
       then and_then (transcript_to_response_items codec prompt [entry]) (\<lambda>items. Inr (filter Q items))
       else Inr []) transcript = (Inr candidates :: ('http, string) ProviderError + _) \<Longrightarrow>
     \<exists>items. transcript_to_response_items codec prompt (filter P transcript) = (Inr items :: ('http, string) ProviderError + _)
       \<and> concat candidates = filter Q items"
proof (induction transcript arbitrary: candidates)
  case Nil
  then show ?case by (simp add: transcript_to_response_items_def)
next
  case (Cons entry transcript)
  show ?case
  proof (cases "P entry")
    case True
    with Cons.prems obtain here rest where h: "response_items_of codec prompt entry = (Inr here :: ('http, string) ProviderError + _)"
      "candidates = filter Q here # rest"
      and r: "try_map (\<lambda>entry. if P entry
       then and_then (transcript_to_response_items codec prompt [entry]) (\<lambda>items. Inr (filter Q items))
       else Inr []) transcript = (Inr rest :: ('http, string) ProviderError + _)"
      by (auto simp: and_then_Inr_iff transcript_to_response_items_def)
    from Cons.IH [OF r] True h show ?thesis
      by (auto simp: transcript_to_response_items_def and_then_Inr_iff)
  next
    case False
    with Cons.prems obtain rest where "candidates = [] # rest"
      and r: "try_map (\<lambda>entry. if P entry
       then and_then (transcript_to_response_items codec prompt [entry]) (\<lambda>items. Inr (filter Q items))
       else Inr []) transcript = (Inr rest :: ('http, string) ProviderError + _)"
      by (auto simp: and_then_Inr_iff)
    with Cons.IH [OF r] False show ?thesis by simp
  qed
qed

lemma retained_parts:
  assumes "retained_compaction_input codec prompt transcript = (Inr retained :: ('http, string) ProviderError + _)"
  shows "\<exists>items kept trimmed. retained = trimmed @ kept
     \<and> transcript_to_response_items codec prompt (filter (\<lambda>entry. may_be_retained (me_item entry)) transcript)
         = (Inr items :: ('http, string) ProviderError + _)
     \<and> retained_of codec CODEX_COMPACTION_RETAINED_TOKEN_BUDGET (filter (is_retained_compaction_input_item codec) items) kept trimmed"
proof -
  from assms obtain candidates where
    c: "try_map (\<lambda>entry. if may_be_retained (me_item entry)
         then and_then (transcript_to_response_items codec prompt [entry]) (\<lambda>items.
                Inr (filter (is_retained_compaction_input_item codec) items))
         else Inr []) transcript = (Inr candidates :: ('http, string) ProviderError + _)"
    and r: "retained = truncate_retained_compaction_input codec (concat candidates) CODEX_COMPACTION_RETAINED_TOKEN_BUDGET"
    by (auto simp: retained_compaction_input_def and_then_Inr_iff)
  from candidates_rendered [OF c] r truncate_retained_parts [of codec "concat candidates"] show ?thesis by metis
qed

lemma retained_plain:
  assumes "retained_compaction_input codec prompt transcript = (Inr retained :: ('http, string) ProviderError + _)"
  shows "list_all plain_item retained"
proof -
  obtain items kept trimmed where kt: "retained = trimmed @ kept"
    and of: "retained_of codec CODEX_COMPACTION_RETAINED_TOKEN_BUDGET (filter (is_retained_compaction_input_item codec) items) kept trimmed"
    using retained_parts [OF assms] by blast
  have "set kept \<subseteq> set (filter (is_retained_compaction_input_item codec) items)"
    using of list_emb_set [of "(=)" kept "filter (is_retained_compaction_input_item codec) items"] unfolding retained_of_def by blast
  then have "list_all plain_item kept"
    by (fastforce simp: list_all_iff is_retained_compaction_input_item_def plain_item_def split: if_splits)
  moreover have "list_all plain_item trimmed"
    using of truncate_message_plain unfolding retained_of_def by auto
  ultimately show ?thesis using kt by simp
qed

lemma plain_not_compaction: "plain_item item \<Longrightarrow> \<not> is_openai_compaction_item item \<and> nonempty_str item ''type'' \<noteq> None"
  by (auto simp: plain_item_def is_openai_compaction_item_def nonempty_str_def)

lemma compaction_replays:
  assumes "reparses codec" and "list_all plain_item retained"
    and "compact_v2_response codec retained r = (Inr c :: ('http, string) ProviderError + _)"
  shows "\<exists>item. is_openai_compaction_item item \<and> transcript_to_response_items codec prompt
      [\<lparr>me_item = CompactionSummaryItem summary, me_provider_replay = cr_provider_replay c\<rparr>]
    = (Inr (retained @ [item]) :: ('http, string) ProviderError + _)"
proof -
  let ?entry = "\<lparr>me_item = CompactionSummaryItem summary, me_provider_replay = cr_provider_replay c\<rparr>"
  from assms(3) obtain items where l: "length (filter is_openai_compaction_item items) = 1"
    and c: "cr_provider_replay c = map (\<lambda>item. \<lparr>pr_provider = OpenAi, pr_raw_json = jc_to_string codec item, pr_display = None\<rparr>)
       (retained @ [hd (filter is_openai_compaction_item items)])"
    by (auto simp: compact_v2_response_def and_then_Inr_iff Let_def provider_error_def split: if_splits)
  define item where "item = hd (filter is_openai_compaction_item items)"
  have item: "is_openai_compaction_item item"
    using l hd_in_set [of "filter is_openai_compaction_item items"] by (fastforce simp: item_def)
  have none: "filter is_openai_compaction_item retained = []"
    using assms(2) plain_not_compaction by (auto simp: filter_empty_conv list_all_iff)
  have typed: "nonempty_str v ''type'' \<noteq> None" if "v \<in> set (retained @ [item])" for v
    using that assms(2) item plain_not_compaction
    by (auto simp: list_all_iff is_openai_compaction_item_def nonempty_str_def)
  have "provider_replay_values_for codec OpenAi ?entry = Inr (retained @ [item])"
    by (rule replay_values [OF assms(1)]) (simp_all add: c list_all_iff item_def)
  then have "openai_replay_items codec ?entry True = (Inr (retained @ [item]) :: ('http, string) ProviderError + _)"
    by (simp add: openai_replay_items_def)
  moreover have "try_all (\<lambda>v. and_then (openai_replay_item_type v ''persisted OpenAI compaction replay item'') (\<lambda>_. Inr ()))
      (retained @ [item]) = (Inr () :: ('http, string) ProviderError + unit)"
    unfolding try_all_iff replay_item_type_then using typed by blast
  then have "validate_openai_compaction_replay (retained @ [item]) = (Inr () :: ('http, string) ProviderError + unit)"
    using none item by (simp add: validate_openai_compaction_replay_def)
  ultimately show ?thesis using item by (auto simp: transcript_to_response_items_def response_items_of_def)
qed

section \<open>A codec\<close>

instance Value :: countable
  by countable_datatype

text \<open>A printer that numbers the values, and a parser that also knows some letters.\<close>

definition numbering_codec :: "(string \<rightharpoonup> Value) \<Rightarrow> json_codec" where
  "numbering_codec letters = \<lparr>jc_from_str = (\<lambda>s.
       case letters s of
         Some v \<Rightarrow> Inr v
       | None \<Rightarrow> Inr (from_nat (length s - 2))),
     jc_to_string = (\<lambda>v. ''##'' @ replicate (to_nat v) CHR ''#''), jc_to_string_pretty = (\<lambda>_. []), jc_debug_str = (\<lambda>_. [])\<rparr>"

lemma numbering_reparses: "(\<And>s. 2 \<le> length s \<Longrightarrow> letters s = None) \<Longrightarrow> reparses (numbering_codec letters)"
  by (simp add: reparses_def numbering_codec_def)

definition demo_letters :: "string \<rightharpoonup> Value" where
  "demo_letters s = (case s of [c] \<Rightarrow> Some (case drop (byte c - 65) (demo_output_events @ [demo_final]) of v # _ \<Rightarrow> v | [] \<Rightarrow> JNull) | _ \<Rightarrow> None)"

lemma demo_numbering_reparses: "reparses (numbering_codec demo_letters)"
  by (rule numbering_reparses) (auto simp: demo_letters_def split: list.split)

lemma demo_numbering_events:
  "response_events (numbering_codec demo_letters) (demo_response ''ABCD'') = map SseJson (demo_output_events @ [demo_final])"
proof -
  have "list_all demo_name ''ABCD''" by code_simp
  moreover have "map (\<lambda>c. case codec_parser (numbering_codec demo_letters) [c] of None \<Rightarrow> SseMalformedJson | Some v \<Rightarrow> SseJson v) ''ABCD''
      = map SseJson (demo_output_events @ [demo_final])"
    by (simp add: codec_parser_def numbering_codec_def demo_letters_def demo_output_events_def byte_def)
  ultimately show ?thesis by (simp add: demo_response_events)
qed

lemma accepted_decodes:
  assumes "complete_response response"
    and "parse_responses_stream codec response provider = (Inr r :: ('http, string) ProviderError + ModelResponse)"
  shows "\<exists>pre final post items. json_events (response_events codec response) = pre @ final # post
     \<and> orderly pre \<and> collected pre final items \<and> list_all item_ok items
     \<and> response_decodes codec provider items r \<and> mr_usage r = final_usage final"
proof -
  from assms(2) obtain st where run: "run_events (responses_process_sse_event codec) (response_events codec response)
      (ResponsesStreamState_new provider) = (Inr st :: ('http, string) ProviderError + _)"
    and fin: "responses_finish st = (Inr r :: ('http, string) ProviderError + _)"
    unfolding parse_responses_complete [OF assms(1)] and_then_Inr_iff by blast
  from responses_json.run_json_prefix [OF run] obtain seen rest where
    s: "response_events codec response = seen @ rest"
    "run_events (responses_process_event codec) (json_events seen) (ResponsesStreamState_new provider) = (Inr st :: ('http, string) ProviderError + _)"
    by blast
  with fin have "and_then (run_events (responses_process_event codec) (json_events seen) (ResponsesStreamState_new provider)) responses_finish
      = (Inr r :: ('http, string) ProviderError + _)" by simp
  from responses_decoded [OF this] s(1) show ?thesis by (fastforce simp: output_ok_def)
qed

lemma demo_accepted:
  assumes "response_events codec (demo_response ''ABCD'') = map SseJson (demo_output_events @ [demo_final])"
  shows "\<exists>r. parse_responses_stream codec (demo_response ''ABCD'') OpenAi = (Inr r :: (nat, string) ProviderError + ModelResponse)
     \<and> mr_stop_reason r \<noteq> StopRefusal"
proof -
  have "SseMalformedJson \<notin> set (map SseJson (demo_output_events @ [demo_final]))" by auto
  note json = responses_json.run_json [OF this, unfolded json_events_map]
  have items: "materialize_output_items codec (enumerate 0 [demo_message, demo_response_call]) OpenAi
      = (Inr out :: (nat, string) ProviderError + _) \<Longrightarrow> mo_stop_reason out = StopComplete" for out
    using materialize_result [of codec "enumerate 0 [demo_message, demo_response_call]" OpenAi out, where 'http = nat]
    by (simp add: decodes_to_def refused_def item_refusals_def demo_message_def demo_response_call_def str_field_def get_str_def parts_of_def
        get_array_def last_refusal_def)
  obtain out where out: "materialize_output_items codec (enumerate 0 [demo_message, demo_response_call]) OpenAi = (Inr out :: (nat, string) ProviderError + _)"
    using materialize_enumerate demo_output_ok by blast
  have "and_then (run_events (responses_process_event codec) (demo_output_events @ [demo_final]) (ResponsesStreamState_new OpenAi)) responses_finish
      = (Inr (response_of out (final_usage demo_final)) :: (nat, string) ProviderError + _)"
    unfolding run_finish_iff using demo_orderly demo_final_ok demo_collected out by blast
  moreover have "mr_stop_reason (response_of out (final_usage demo_final)) \<noteq> StopRefusal" using items [OF out] by (simp add: response_of_def)
  ultimately show ?thesis unfolding parse_responses_complete [OF demo_complete] assms json by blast
qed


section \<open>Examples\<close>

definition demo_prompt :: PromptSections where
  "demo_prompt = PromptSections_new None None"

definition demo_user_entry :: ModelTranscriptEntry where
  "demo_user_entry = \<lparr>me_item = UserMessageItem (UserMessage_text ''hi''), me_provider_replay = []\<rparr>"

definition demo_user_item :: Value where
  "demo_user_item = message_item ''user'' [input_text ''hi'']"

lemma demo_retained:
  "retained_compaction_input (numbering_codec demo_letters) demo_prompt [demo_user_entry] = (Inr [demo_user_item] :: (nat, string) ProviderError + _)"
proof -
  have "get_str demo_user_item ''type'' = Some ''message''" "get_str demo_user_item ''role'' = Some ''user''"
    "get_array demo_user_item ''content'' = Some [input_text ''hi'']" "get_str (input_text ''hi'') ''text'' = Some ''hi''"
    by (simp_all add: demo_user_item_def message_item_def input_text_def get_str_def get_array_def)
  then show ?thesis
    by (simp add: retained_compaction_input_def demo_user_entry_def transcript_to_response_items_def response_items_of_def
        UserMessage_text_def responses_user_content_def is_retained_compaction_input_item_def
        truncate_retained_compaction_input_def compact_item_text_tokens_def List.map_filter_def
        approx_tokens_from_byte_count_def saturating_add_def CODEX_COMPACTION_RETAINED_TOKEN_BUDGET_def
        flip: demo_user_item_def)
qed

definition demo_compaction_item :: Value where
  "demo_compaction_item = json_object [(''type'', JString ''compaction'')]"

definition demo_compacting :: ModelResponse where
  "demo_compacting =
     \<lparr>mr_assistant = \<lparr>am_items = []\<rparr>, mr_provider_replay = [item_record (numbering_codec demo_letters) OpenAi demo_compaction_item],
      mr_usage = None, mr_stop_reason = StopComplete, mr_stop_details = None\<rparr>"

definition demo_compacted :: ProviderCompactionResponse where
  "demo_compacted =
     \<lparr>cr_summary = None,
      cr_provider_replay = map (\<lambda>item. \<lparr>pr_provider = OpenAi, pr_raw_json = jc_to_string (numbering_codec demo_letters) item, pr_display = None\<rparr>)
        [demo_user_item, demo_compaction_item],
      cr_usage = None\<rparr>"

lemma demo_compacts:
  "compact_v2_response (numbering_codec demo_letters) [demo_user_item] demo_compacting = (Inr demo_compacted :: (nat, string) ProviderError + _)"
proof -
  have "jc_from_str (numbering_codec demo_letters) (jc_to_string (numbering_codec demo_letters) demo_compaction_item) = Inr demo_compaction_item"
    using demo_numbering_reparses by (simp add: reparses_def)
  moreover have "is_openai_compaction_item demo_compaction_item"
    by (simp add: is_openai_compaction_item_def demo_compaction_item_def get_str_def)
  ultimately show ?thesis by (simp add: compact_v2_response_def demo_compacting_def demo_compacted_def item_record_def)
qed

definition demo_compaction_summary :: CompactionSummary where
  "demo_compaction_summary =
     \<lparr>cs_source_session_id = ''s'', cs_source_leaf_id = ''l'', cs_summary = [], cs_tokens_before = None,
      cs_last_turn_id = TurnId_first, cs_turn_started_at_ms = None\<rparr>"

definition demo_key :: OpenAiCatalogKey where
  "demo_key = \<lparr>ok_base_url = ''https://example.org'', ok_identity = Account ''a''\<rparr>"

definition demo_catalog_world :: catalog_world where
  "demo_catalog_world =
     ask_catalog demo_key 1 (finish_refresh demo_key 1 (Inr Map.empty) 0 (ask_catalog demo_key 0 catalog_world_init))"

lemmas demo_catalog_defs = ask_catalog_def finish_refresh_def catalog_decision_def stale_decision_def activate_key_def
  start_catalog_refresh_def commit_catalog_refresh_def current_refresh_def catalog_world_init_def
  OpenAiModelCatalogCacheState_default_def CODEX_MODELS_SUCCESS_TTL_def Let_def

lemma demo_catalog_given: "cw_given demo_catalog_world = [(demo_key, Some 1, Inr Map.empty)]"
  by (simp add: demo_catalog_world_def demo_catalog_defs)

lemma demo_catalog_reachable: "catalog_reachable demo_catalog_world"
proof -
  let ?w1 = "ask_catalog demo_key 0 catalog_world_init"
  let ?w2 = "finish_refresh demo_key 1 (Inr Map.empty) 0 ?w1"
  have "catalog_reachable ?w1"
    by (rule catalog_next [OF catalog_init asked]) (simp add: catalog_world_init_def OpenAiModelCatalogCacheState_default_def)
  then have "catalog_reachable ?w2" by (rule catalog_next [OF _ committed]) (simp add: demo_catalog_defs)
  then have "catalog_reachable (ask_catalog demo_key 1 ?w2)" by (rule catalog_next [OF _ asked]) (simp add: demo_catalog_defs)
  then show ?thesis by (simp add: demo_catalog_world_def)
qed

end
