(* ===== verification/Token_Estimate.thy ===== *)
theory Token_Estimate
  imports Openai_Request
begin

text \<open>
  The estimate of a request's tokens (\<open>agent-provider/src/token_estimator.rs\<close>): a quarter of the
  bytes of the rendered request, in which the payload of an image counts a fixed size.
\<close>

record TokenEstimate =
  te_tokens :: nat
  te_model_visible_bytes :: nat

definition from_model_visible_bytes :: "nat \<Rightarrow> TokenEstimate" where
  "from_model_visible_bytes bytes = \<lparr>te_tokens = approx_tokens_from_byte_count bytes, te_model_visible_bytes = bytes\<rparr>"

definition TokenEstimate_saturating_add :: "TokenEstimate \<Rightarrow> TokenEstimate \<Rightarrow> TokenEstimate" where
  "TokenEstimate_saturating_add a b =
     from_model_visible_bytes (saturating_add (te_model_visible_bytes a) (te_model_visible_bytes b))"

definition RESIZED_IMAGE_BYTES_ESTIMATE :: nat where
  "RESIZED_IMAGE_BYTES_ESTIMATE = 7373"

definition eq_ignore_ascii_case :: "string \<Rightarrow> string \<Rightarrow> bool" where
  "eq_ignore_ascii_case a b \<longleftrightarrow> ascii_lowercase a = ascii_lowercase b"

text \<open>\<open>str::split\<close> at a character.\<close>

fun split_char :: "char \<Rightarrow> string \<Rightarrow> string list" where
  "split_char c [] = [[]]"
| "split_char c (x # xs) =
     (if x = c then [] # split_char c xs
      else case split_char c xs of
          part # parts \<Rightarrow> (x # part) # parts
        | [] \<Rightarrow> [[x]])"

definition parse_base64_image_data_url_payload_len :: "string \<Rightarrow> nat option" where
  "parse_base64_image_data_url_payload_len url =
     (if \<not> (5 \<le> length url \<and> eq_ignore_ascii_case (take 5 url) ''data:'') then None
      else Option.bind (str_find '','' url) (\<lambda>comma_index.
        let metadata = take comma_index url;
            payload = drop (comma_index + 1) url;
            metadata_parts = split_char (CHR '';'') (drop 5 metadata);
            mime_type = hd metadata_parts;
            has_base64_marker = list_ex (\<lambda>part. eq_ignore_ascii_case part ''base64'') (tl metadata_parts)
        in if \<not> (6 \<le> length mime_type \<and> eq_ignore_ascii_case (take 6 mime_type) ''image/'') then None
           else if has_base64_marker then Some (length payload) else None))"

text \<open>The bytes of payloads and of what replaces them, from here to the end of the text.\<close>

function estimate_image_data_url_adjustment :: "string \<Rightarrow> nat \<times> nat \<Rightarrow> nat \<times> nat" where
  "estimate_image_data_url_adjustment serialized adjustment =
     (case str_find ''data:'' serialized of
        None \<Rightarrow> adjustment
      | Some start \<Rightarrow>
          (case str_find ''\"'' (drop start serialized) of
             None \<Rightarrow> adjustment
           | Some relative_end \<Rightarrow>
               estimate_image_data_url_adjustment (drop (start + relative_end + 1) serialized)
                 (case parse_base64_image_data_url_payload_len (take relative_end (drop start serialized)) of
                    Some payload_len \<Rightarrow>
                      (saturating_add (fst adjustment) payload_len,
                       saturating_add (snd adjustment) RESIZED_IMAGE_BYTES_ESTIMATE)
                  | None \<Rightarrow> adjustment)))"
  by pat_completeness auto
termination
  by (relation "measure (\<lambda>(serialized, _). length serialized)") (auto dest!: str_find_SomeD)

declare estimate_image_data_url_adjustment.simps [simp del]

definition model_visible_bytes_for_serialized_json :: "string \<Rightarrow> nat" where
  "model_visible_bytes_for_serialized_json serialized =
     (let (payload_bytes, replacement_bytes) = estimate_image_data_url_adjustment serialized (0, 0)
      in saturating_add (length serialized - payload_bytes) replacement_bytes)"

definition serialized_estimate :: "string \<Rightarrow> TokenEstimate" where
  "serialized_estimate serialized = from_model_visible_bytes (model_visible_bytes_for_serialized_json serialized)"

definition estimate_transcript_tokens ::
  "json_codec \<Rightarrow> PromptSections \<Rightarrow> ModelTranscriptEntry list \<Rightarrow> ('http, string) ProviderError + TokenEstimate" where
  "estimate_transcript_tokens codec prompt transcript =
     and_then (transcript_to_response_items codec prompt transcript) (\<lambda>items.
       Inr (foldl TokenEstimate_saturating_add (from_model_visible_bytes 0)
         (map (\<lambda>item. serialized_estimate (jc_to_string codec item)) items)))"

definition prompt_estimate :: "json_codec \<Rightarrow> PromptSections \<Rightarrow> TokenEstimate" where
  "prompt_estimate codec prompt =
     (case render_joined prompt of
        Some text \<Rightarrow> serialized_estimate (jc_to_string codec (JString text))
      | None \<Rightarrow> from_model_visible_bytes 0)"

definition estimate_model_input_with_tools ::
  "json_codec \<Rightarrow> PromptSections \<Rightarrow> ModelTranscriptEntry list \<Rightarrow> ProviderTool list
     \<Rightarrow> ('http, string) ProviderError + TokenEstimate" where
  "estimate_model_input_with_tools codec prompt transcript tools =
     (let tools_estimate =
            (if tools = [] then from_model_visible_bytes 0
             else serialized_estimate (jc_to_string codec (JArray (map pt_declaration tools))))
      in and_then (estimate_transcript_tokens codec prompt transcript) (\<lambda>transcript_estimate.
           Inr (TokenEstimate_saturating_add
             (TokenEstimate_saturating_add (prompt_estimate codec prompt) transcript_estimate) tools_estimate)))"

definition estimate_model_input ::
  "json_codec \<Rightarrow> PromptSections \<Rightarrow> ModelTranscriptEntry list \<Rightarrow> ('http, string) ProviderError + TokenEstimate" where
  "estimate_model_input codec prompt transcript = estimate_model_input_with_tools codec prompt transcript []"

definition estimate_model_input_tokens_with_tools ::
  "json_codec \<Rightarrow> PromptSections \<Rightarrow> ModelTranscriptEntry list \<Rightarrow> ProviderTool list \<Rightarrow> ('http, string) ProviderError + nat" where
  "estimate_model_input_tokens_with_tools codec prompt transcript tools =
     and_then (estimate_model_input_with_tools codec prompt transcript tools) (\<lambda>estimate. Inr (te_tokens estimate))"

definition estimate_model_input_tokens ::
  "json_codec \<Rightarrow> PromptSections \<Rightarrow> ModelTranscriptEntry list \<Rightarrow> ('http, string) ProviderError + nat" where
  "estimate_model_input_tokens codec prompt transcript = estimate_model_input_tokens_with_tools codec prompt transcript []"

end
