(* ===== verification/Mcp_Catalog_Proofs.thy ===== *)
theory Mcp_Catalog_Proofs
  imports Mcp_Catalog
begin

text \<open>
  What the catalog promises: canonical JSON, names a provider accepts, an inventory that does not
  depend on the order of discovery, selections that validate, and snapshots that reload.
\<close>

section \<open>Canonical JSON is canonical\<close>

lemma canonical_json_object:
  "canonical_json (JObject kvs) = JObject (btree_of (map (\<lambda>kv. (fst kv, canonical_json (snd kv))) kvs))"
  by simp

declare canonical_json.simps(2) [simp del]

lemma canonical_json_idem [simp]: "canonical_json (canonical_json v) = canonical_json v"
proof (induction v rule: canonical_json.induct)
  case (2 kvs)
  let ?xs = "map (\<lambda>kv. (fst kv, canonical_json (snd kv))) kvs"
  have "map (\<lambda>kv. (fst kv, canonical_json (snd kv))) (btree_of ?xs) = btree_of ?xs"
  proof (rule map_idI)
    fix kv assume "kv \<in> set (btree_of ?xs)"
    then have "kv \<in> set ?xs" using btree_of_set by blast
    with 2 show "(fst kv, canonical_json (snd kv)) = kv" by auto
  qed
  then show ?case by (simp add: canonical_json_object)
qed (simp_all add: canonical_json_object)

text \<open>The order in which an object lists its entries does not matter.\<close>

lemma canonical_json_perm:
  assumes "distinct (map fst kvs)" and "mset kvs = mset kvs'"
  shows "canonical_json (JObject kvs) = canonical_json (JObject kvs')"
proof -
  let ?f = "\<lambda>kv. (fst kv, canonical_json (snd kv))"
  have "btree_of (map ?f kvs) = btree_of (map ?f kvs')"
  proof (rule btree_of_perm)
    show "distinct (map fst (map ?f kvs))" using assms(1) by (simp add: o_def)
    show "mset (map ?f kvs) = mset (map ?f kvs')" using assms(2) by simp
  qed
  then show ?thesis by (simp add: canonical_json_object)
qed

lemma max_or_eq: "max_or d xs = (if xs = [] then d else Max (set xs))"
proof -
  have "foldl max x ys = Max (set (x # ys))" for x :: nat and ys
  proof -
    have "(\<lambda>y x. max x y) = (max :: nat \<Rightarrow> _)" by (simp add: fun_eq_iff max.commute)
    then show ?thesis unfolding Max.set_eq_fold by (simp add: foldl_conv_fold)
  qed
  then show ?thesis by (cases xs) (simp_all add: max_or_def)
qed

lemma max_or_mono:
  assumes "\<And>x. x \<in> set xs \<Longrightarrow> \<exists>y \<in> set ys. x \<le> y" and "\<And>y. y \<in> set ys \<Longrightarrow> d \<le> y"
  shows "max_or d xs \<le> max_or d ys"
proof (cases "xs = []")
  case True
  with assms(2) show ?thesis by (cases ys) (auto simp: max_or_eq intro!: Max_ge_iff [THEN iffD2])
next
  case False
  with assms(1) have "ys \<noteq> []" by (metis list.set_intros(1) neq_Nil_conv empty_iff empty_set)
  have "x \<le> Max (set ys)" if "x \<in> set xs" for x
    using assms(1) [OF that] by (auto intro: order.trans [OF _ Max_ge])
  with False \<open>ys \<noteq> []\<close> show ?thesis by (simp add: max_or_eq)
qed

lemma json_depth_ge: "d \<le> json_depth v d"
proof (induction v d rule: json_depth.induct)
  case (1 vs d)
  then show ?case by (fastforce simp: max_or_eq Max_ge_iff neq_Nil_conv)
next
  case (2 kvs d)
  then show ?case by (fastforce simp: max_or_eq Max_ge_iff neq_Nil_conv)
qed simp_all

lemma json_depth_above: "d \<le> json_depth v (Suc d)"
  using json_depth_ge [of "Suc d" v] by simp

lemma json_depth_canonical: "json_depth (canonical_json v) d \<le> json_depth v d"
proof (induction v arbitrary: d rule: canonical_json.induct)
  case (1 vs)
  show ?case unfolding canonical_json.simps json_depth.simps
    by (rule max_or_mono) (use 1 json_depth_above in auto)
next
  case (2 kvs)
  have "\<exists>y \<in> set kvs. json_depth (snd kv) (d + 1) \<le> json_depth (snd y) (d + 1)"
    if "kv \<in> set (btree_of (map (\<lambda>kv. (fst kv, canonical_json (snd kv))) kvs))" for kv
  proof -
    from that have "kv \<in> set (map (\<lambda>kv. (fst kv, canonical_json (snd kv))) kvs)" using btree_of_set by blast
    then obtain y where "y \<in> set kvs" "snd kv = canonical_json (snd y)" by auto
    with 2 [of y] show ?thesis by auto
  qed
  then show ?case unfolding canonical_json_object json_depth.simps
    by (intro max_or_mono) (use json_depth_above in auto)
qed simp_all

section \<open>Names\<close>

definition is_hex_digit :: "char \<Rightarrow> bool" where
  "is_hex_digit c \<longleftrightarrow> (CHR ''0'' \<le> c \<and> c \<le> CHR ''9'') \<or> (CHR ''a'' \<le> c \<and> c \<le> CHR ''f'')"

text \<open>What the code relies on of the digest: 64 hexadecimal digits.\<close>

definition digest_ok :: "digest \<Rightarrow> bool" where
  "digest_ok sha256_hex \<longleftrightarrow> (\<forall>b. length (sha256_hex b) = 64 \<and> list_all is_hex_digit (sha256_hex b))"

lemma is_name_byte_ascii: "is_name_byte c \<Longrightarrow> is_ascii c"
  by (auto simp: is_name_byte_def is_ascii_alphanumeric_def is_ascii_def less_char_def less_eq_char_def)

lemma is_hex_digit_name_byte: "is_hex_digit c \<Longrightarrow> is_name_byte c"
proof -
  have "CHR ''f'' \<le> CHR ''z''" by (simp add: less_eq_char_def)
  then show "is_hex_digit c \<Longrightarrow> is_name_byte c"
    by (auto simp: is_hex_digit_def is_name_byte_def is_ascii_alphanumeric_def intro: order.trans)
qed

lemma sanitize_loop_bytes: "list_all is_name_byte (sanitize_loop r v)"
  by (induction r v rule: sanitize_loop.induct) (auto simp: is_name_byte_def)

lemma sanitized_component_bytes [simp]: "list_all is_name_byte (sanitized_component v)"
  by (simp add: sanitized_component_def Let_def sanitize_loop_bytes is_name_byte_def)

lemma preliminary_name_bytes: "list_all is_name_byte (preliminary_name s r)"
  by (simp add: preliminary_name_def) (simp add: is_name_byte_def is_ascii_alphanumeric_def less_eq_char_def)

lemma name_with_hash_ok:
  assumes "list_all is_name_byte base" and "list_all is_hex_digit fp" and "name_with_hash base fp = Inr name"
  shows "\<not> name_invalid name"
proof -
  have "list_all is_name_byte fp" using assms(2) by (auto simp: list_all_iff is_hex_digit_name_byte)
  with assms(1,3) have "list_all is_name_byte name \<and> name \<noteq> [] \<and> length name \<le> 64"
    by (auto simp: name_with_hash_def Let_def limit_defs list_all_iff is_name_byte_def split: if_splits
        dest!: in_set_takeD)
  then show ?thesis by (auto simp: name_invalid_def limit_defs list_all_iff is_name_byte_ascii)
qed

lemma exposed_name_ok:
  assumes "exposed_name_of counts t = Inr name" and "list_all is_hex_digit (mt_contract_fingerprint t)"
  shows "\<not> name_invalid name"
proof (cases "name_with_hash (preliminary_name (mt_server_id t) (mt_raw_name t)) (mt_contract_fingerprint t) = Inr name")
  case True
  show ?thesis by (rule name_with_hash_ok [OF preliminary_name_bytes assms(2) True])
next
  case False
  with assms(1) have "name = preliminary_name (mt_server_id t) (mt_raw_name t)" "length name \<le> MAX_PROVIDER_NAME_BYTES"
    by (auto simp: exposed_name_of_def Let_def split: if_splits)
  with preliminary_name_bytes [of "mt_server_id t" "mt_raw_name t"] show ?thesis
    by (auto simp: name_invalid_def list_all_iff is_name_byte_ascii preliminary_name_def)
qed

lemma count_preliminary_eq:
  "(case map_of (count_preliminary counts ts) p of Some n \<Rightarrow> n | None \<Rightarrow> 0) =
     (case map_of counts p of Some n \<Rightarrow> n | None \<Rightarrow> 0)
       + length (filter (\<lambda>t. preliminary_name (mt_server_id t) (mt_raw_name t) = p) ts)"
  by (induction counts ts rule: count_preliminary.induct) (auto simp: Let_def split: option.splits)

section \<open>Candidates\<close>

lemma canonical_candidate_fields:
  assumes "canonical_candidate to_vec sha t = Inr c"
  shows "mt_server_id c = dt_server_id t" "mt_raw_name c = dt_raw_name t" "mt_description c = dt_description t"
    "mt_server_config_fingerprint c = dt_server_config_fingerprint t"
    "mt_input_schema c = canonical_json (dt_input_schema t)" "mt_exposed_name c = []"
    "mt_server_id c \<noteq> []" "\<exists>b. mt_contract_fingerprint c = sha b"
  using assms by (auto simp: canonical_candidate_def Let_def fingerprint_json_def split: if_splits)

lemma canonical_candidate_stable:
  assumes "canonical_candidate to_vec sha t = Inr c"
  shows "canonical_candidate to_vec sha (discovered_of (c\<lparr>mt_exposed_name := name\<rparr>)) = Inr c"
proof -
  have "json_depth (canonical_json (dt_input_schema t)) 0 \<le> json_depth (dt_input_schema t) 0"
    by (rule json_depth_canonical)
  with assms show ?thesis
    by (auto simp: canonical_candidate_def discovered_of_def Let_def split: if_splits)
qed

lemma canonical_candidates_eq:
  "canonical_candidates to_vec sha ts = Inr cs \<longleftrightarrow>
     list_all2 (\<lambda>t c. canonical_candidate to_vec sha t = Inr c) ts cs"
proof (induction ts arbitrary: cs)
  case (Cons t ts)
  then show ?case by (cases "canonical_candidates to_vec sha ts") (auto simp: list_all2_Cons1 split: sum.splits)
qed auto

text \<open>The key that identifies a tool on its server.\<close>

definition raw_key :: "McpManifestTool \<Rightarrow> string \<times> string" where
  "raw_key t = (mt_server_id t, mt_raw_name t)"

lemma contract_key_less: "contract_key a \<le> contract_key b \<Longrightarrow> raw_key a \<le> raw_key b"
  by (auto simp: contract_key_def raw_key_def)

lemma contract_key_raw: "contract_key a = contract_key b \<Longrightarrow> raw_key a = raw_key b"
  by (simp add: contract_key_def raw_key_def)

lemma conflicting_pair_Cons2:
  "conflicting_pair (a # b # ts) \<longleftrightarrow> (raw_key a = raw_key b \<and> contract_key a \<noteq> contract_key b) \<or> conflicting_pair (b # ts)"
  by (auto simp: raw_key_def contract_key_def)

declare conflicting_pair.simps(1) [simp del]

lemma no_conflict:
  assumes "sorted (map contract_key ts)" and "\<not> conflicting_pair ts"
    and "x \<in> set ts" and "y \<in> set ts" and "raw_key x = raw_key y"
  shows "contract_key x = contract_key y"
proof -
  have head: "contract_key b = contract_key a"
    if "sorted (map contract_key (a # rest))" "\<not> conflicting_pair (a # rest)" "b \<in> set rest" "raw_key b = raw_key a"
    for a b rest using that
  proof (induction rest arbitrary: a)
    case (Cons c rest)
    have "contract_key a \<le> contract_key c" "contract_key c \<le> contract_key b" using Cons.prems(1,3) by auto
    then have "raw_key a \<le> raw_key c" "raw_key c \<le> raw_key b" by (auto dest: contract_key_less)
    with Cons.prems(4) have "raw_key c = raw_key a" by simp
    moreover from this Cons.prems(2) have "contract_key a = contract_key c" by (auto simp: conflicting_pair_Cons2)
    ultimately show ?case using Cons by (auto simp: conflicting_pair_Cons2)
  qed simp
  from assms show ?thesis
  proof (induction ts)
    case (Cons a ts)
    have rest: "\<not> conflicting_pair ts" using Cons.prems(2) by (cases ts) (auto simp: conflicting_pair_Cons2)
    have sorted_rest: "sorted (map contract_key ts)" using Cons.prems(1) by simp
    have tail: "contract_key z = contract_key a" if "z \<in> set ts" "raw_key z = raw_key a" for z
      by (rule head [OF Cons.prems(1,2) that])
    show ?case
    proof (cases "x \<in> set ts \<and> y \<in> set ts")
      case True
      with Cons.IH [OF sorted_rest rest] Cons.prems(5) show ?thesis by blast
    next
      case False
      with Cons.prems(3,4) have "x = a \<or> y = a" by auto
      with Cons.prems(3,4,5) tail [of x] tail [of y] show ?thesis by auto
    qed
  qed simp
qed

lemma dedup_contracts_set: "set (dedup_contracts ts) \<subseteq> set ts"
  by (induction ts rule: dedup_contracts.induct) auto

lemma dedup_contracts_length: "length (dedup_contracts ts) \<le> length ts"
  by (induction ts rule: dedup_contracts.induct) auto

lemma dedup_contracts_keys: "contract_key ` set (dedup_contracts ts) = contract_key ` set ts"
  by (induction ts rule: dedup_contracts.induct) auto

lemma dedup_contracts_strict:
  "sorted (map contract_key ts) \<Longrightarrow> sorted_wrt (<) (map contract_key (dedup_contracts ts))"
proof (induction ts rule: dedup_contracts.induct)
  case (1 a b ts)
  show ?case
  proof (cases "contract_key b = contract_key a")
    case False
    with 1 have "contract_key a < contract_key b" by (auto simp: order.strict_iff_order)
    moreover have "contract_key b \<le> contract_key x" if "x \<in> set (dedup_contracts (b # ts))" for x
      using that 1(3) dedup_contracts_set [of "b # ts"] by auto
    ultimately show ?thesis using False 1 by (auto intro: less_le_trans)
  qed (use 1 in auto)
qed auto

lemma unique_raw_keys:
  assumes "\<not> conflicting_pair (sort_key contract_key cs)"
  shows "distinct (map raw_key (dedup_contracts (sort_key contract_key cs)))"
proof -
  let ?ts = "sort_key contract_key cs"
  have "distinct (map contract_key (dedup_contracts ?ts))"
    using dedup_contracts_strict [of ?ts] by (simp add: strict_sorted_iff)
  moreover have "inj_on (\<lambda>k. (fst k, fst (snd k))) (set (map contract_key (dedup_contracts ?ts)))"
  proof (rule inj_onI)
    fix k l assume "k \<in> set (map contract_key (dedup_contracts ?ts))" "l \<in> set (map contract_key (dedup_contracts ?ts))"
      and eq: "(fst k, fst (snd k)) = (fst l, fst (snd l))"
    then obtain x y where "k = contract_key x" "l = contract_key y"
      "x \<in> set (dedup_contracts ?ts)" "y \<in> set (dedup_contracts ?ts)" by auto
    then have xy: "k = contract_key x" "l = contract_key y" "x \<in> set ?ts" "y \<in> set ?ts"
      using dedup_contracts_set [of ?ts] by blast+
    with eq have "raw_key x = raw_key y" by (simp add: contract_key_def raw_key_def)
    with no_conflict [OF sorted_sort_key assms xy(3,4)] xy(1,2) show "k = l" by simp
  qed
  ultimately have "distinct (map (\<lambda>k. (fst k, fst (snd k))) (map contract_key (dedup_contracts ?ts)))"
    by (simp only: distinct_map)
  then show ?thesis by (simp add: o_def contract_key_def raw_key_def [abs_def])
qed

lemma raw_key_exposed [simp]: "raw_key (t\<lparr>mt_exposed_name := name\<rparr>) = raw_key t"
  by (simp add: raw_key_def)

lemma assign_names_ok:
  "assign_names builtin counts used ts = Inr ts' \<Longrightarrow>
     list_all2 (\<lambda>t t'. exposed_name_of counts t = Inr (mt_exposed_name t')
                    \<and> t' = t\<lparr>mt_exposed_name := mt_exposed_name t'\<rparr>) ts ts'
     \<and> map raw_key ts' = map raw_key ts \<and> distinct (map mt_exposed_name ts')
     \<and> (builtin \<union> used) \<inter> set (map mt_exposed_name ts') = {}"
proof (induction builtin counts used ts arbitrary: ts' rule: assign_names.induct)
  case (2 builtin counts used t ts)
  from 2(2) obtain name rest where n: "exposed_name_of counts t = Inr name" "name \<notin> builtin" "name \<notin> used"
    "assign_names builtin counts (insert name used) ts = Inr rest" "ts' = t\<lparr>mt_exposed_name := name\<rparr> # rest"
    by (auto split: sum.splits if_splits)
  from 2(1) [OF n(1,2,3,4)] n show ?case by auto
qed simp

section \<open>The inventory\<close>

lemma build_inventory_cases:
  assumes "build_inventory_catalog to_vec sha configs discovered builtin = Inr m"
  obtains candidates named where
    "length discovered \<le> MAX_TOOLS"
    "canonical_candidates to_vec sha discovered = Inr candidates"
    "\<not> conflicting_pair (sort_key contract_key candidates)"
    "assign_names builtin (count_preliminary [] (dedup_contracts (sort_key contract_key candidates))) {}
       (dedup_contracts (sort_key contract_key candidates)) = Inr named"
    "m = inventory_manifest to_vec sha configs (sort_key tool_sort_key named)"
    "validate_catalog_bytes to_vec m = Inr ()"
  using assms by (auto simp: build_inventory_catalog_def Let_def split: if_splits sum.splits intro: that)

lemma inventory_manifest_fields [simp]:
  "mm_version (inventory_manifest to_vec sha configs ts) = MANIFEST_VERSION"
  "mm_manifest_fingerprint (inventory_manifest to_vec sha configs ts) = []"
  "mm_tools (inventory_manifest to_vec sha configs ts) = ts"
  "mm_openai_tools (inventory_manifest to_vec sha configs ts) = map (\<lambda>t. provider_tool t OpenAi) ts"
  "mm_anthropic_tools (inventory_manifest to_vec sha configs ts) = map (\<lambda>t. provider_tool t Claude) ts"
  "mm_server_revisions (inventory_manifest to_vec sha configs ts) =
     btree_of (map (\<lambda>kv. (fst kv, server_revision to_vec sha ts (fst kv) (snd kv))) configs)"
  by (simp_all add: inventory_manifest_def Let_def)

text \<open>A tool whose stored contract is canonical and whose name a provider accepts.\<close>

definition tool_ok :: "json_printer \<Rightarrow> digest \<Rightarrow> McpManifestTool \<Rightarrow> bool" where
  "tool_ok to_vec sha t \<longleftrightarrow>
     canonical_candidate to_vec sha (discovered_of t) = Inr (t\<lparr>mt_exposed_name := []\<rparr>)
     \<and> \<not> name_invalid (mt_exposed_name t)"

definition tools_listing_ok :: "json_printer \<Rightarrow> digest \<Rightarrow> McpManifestTool list \<Rightarrow> bool" where
  "tools_listing_ok to_vec sha ts \<longleftrightarrow>
     list_all (tool_ok to_vec sha) ts \<and> distinct (map mt_exposed_name ts) \<and> distinct (map raw_key ts)
     \<and> sorted_wrt (<) (map tool_sort_key ts)"

lemma tools_listing_ok_filter: "tools_listing_ok to_vec sha ts \<Longrightarrow> tools_listing_ok to_vec sha (filter P ts)"
  by (auto simp: tools_listing_ok_def list_all_iff distinct_map_filter sorted_wrt_map sorted_wrt_filter)

lemma tool_ok_raw_empty: "tool_ok to_vec sha t \<Longrightarrow> mt_server_id t \<noteq> []"
  by (auto simp: tool_ok_def dest: canonical_candidate_fields(7))

lemma inventory_tools_ok:
  assumes "build_inventory_catalog to_vec sha configs discovered builtin = Inr m" and "digest_ok sha"
  shows "tools_listing_ok to_vec sha (mm_tools m)" and "length (mm_tools m) \<le> MAX_TOOLS"
    and "builtin \<inter> set (map mt_exposed_name (mm_tools m)) = {}"
proof -
  from assms(1) obtain cs named where c: "length discovered \<le> MAX_TOOLS"
    "canonical_candidates to_vec sha discovered = Inr cs" "\<not> conflicting_pair (sort_key contract_key cs)"
    "assign_names builtin (count_preliminary [] (dedup_contracts (sort_key contract_key cs))) {}
       (dedup_contracts (sort_key contract_key cs)) = Inr named"
    "m = inventory_manifest to_vec sha configs (sort_key tool_sort_key named)"
    by (rule build_inventory_cases)
  let ?us = "dedup_contracts (sort_key contract_key cs)"
  note named = assign_names_ok [OF c(4)]
  have us: "set ?us \<subseteq> set cs" using dedup_contracts_set [of "sort_key contract_key cs"] by simp
  have cs: "\<exists>t. canonical_candidate to_vec sha t = Inr u" if "u \<in> set cs" for u
    using c(2) that by (fastforce simp: canonical_candidates_eq list_all2_conv_all_nth in_set_conv_nth)
  have "tool_ok to_vec sha t'" if "t' \<in> set named" for t'
  proof -
    from that named obtain u where u: "u \<in> set ?us"
      "exposed_name_of (count_preliminary [] ?us) u = Inr (mt_exposed_name t')"
      "t' = u\<lparr>mt_exposed_name := mt_exposed_name t'\<rparr>"
      by (fastforce simp: list_all2_conv_all_nth in_set_conv_nth)
    then obtain t where t: "canonical_candidate to_vec sha t = Inr u" using us cs by blast
    have "list_all is_hex_digit (mt_contract_fingerprint u)"
      using canonical_candidate_fields(8) [OF t] assms(2) by (auto simp: digest_ok_def)
    with u(2) have "\<not> name_invalid (mt_exposed_name t')" by (rule exposed_name_ok)
    moreover have "t'\<lparr>mt_exposed_name := []\<rparr> = u"
      using canonical_candidate_fields(6) [OF t] by (subst u(3)) simp
    ultimately show ?thesis
      using canonical_candidate_stable [OF t, of "mt_exposed_name t'"] u(3) by (simp add: tool_ok_def)
  qed
  then have ok: "list_all (tool_ok to_vec sha) named" by (simp add: list_all_iff)
  have raw: "distinct (map raw_key named)" using named unique_raw_keys [OF c(3)] by simp
  have names: "distinct (map mt_exposed_name named)" using named by blast
  then have "distinct (map tool_sort_key named)"
    by (auto simp: distinct_map tool_sort_key_def inj_on_def)
  then have "sorted_wrt (<) (map tool_sort_key (sort_key tool_sort_key named))"
    by (simp add: strict_sorted_iff distinct_map)
  moreover have "list_all (tool_ok to_vec sha) (sort_key tool_sort_key named)" using ok by (simp add: list_all_iff)
  moreover have "distinct (map mt_exposed_name (sort_key tool_sort_key named))" using names by (simp add: distinct_map)
  moreover have "distinct (map raw_key (sort_key tool_sort_key named))" using raw by (simp add: distinct_map)
  ultimately show "tools_listing_ok to_vec sha (mm_tools m)" by (simp add: tools_listing_ok_def c(5))
  have "length named = length ?us" using named by (auto simp: list_all2_lengthD)
  moreover have "length ?us \<le> length cs" using dedup_contracts_length [of "sort_key contract_key cs"] by simp
  moreover have "length cs = length discovered" using c(2) by (simp add: canonical_candidates_eq list_all2_lengthD)
  ultimately show "length (mm_tools m) \<le> MAX_TOOLS" using c(1,5) by simp
  show "builtin \<inter> set (map mt_exposed_name (mm_tools m)) = {}" using named by (auto simp: c(5))
qed

section \<open>The order of discovery does not matter\<close>

lemma sort_key_mset:
  assumes "mset xs = mset ys" and "inj_on f (set xs)"
  shows "sort_key f xs = sort_key f ys"
proof -
  have "map f (sort_key f zs) = sort (map f zs)" for zs
    by (rule properties_for_sort [symmetric]) (simp_all add: mset_map)
  moreover have "sort (map f xs) = sort (map f ys)"
    by (rule properties_for_sort) (simp_all add: mset_map assms(1))
  ultimately have "map f (sort_key f xs) = map f (sort_key f ys)" by simp
  moreover have "inj_on f (set (sort_key f xs) \<union> set (sort_key f ys))"
    using assms mset_eq_setD [OF assms(1)] by simp
  ultimately show ?thesis by (rule map_inj_on)
qed

lemma canonical_candidates_perm:
  assumes "canonical_candidates to_vec sha ts = Inr cs" and "mset ts = mset ts'"
  shows "\<exists>cs'. canonical_candidates to_vec sha ts' = Inr cs' \<and> mset cs' = mset cs"
proof -
  let ?f = "\<lambda>t. case canonical_candidate to_vec sha t of Inr c \<Rightarrow> c"
  have eq: "canonical_candidates to_vec sha us = Inr (map ?f us)"
    if "\<And>t. t \<in> set us \<Longrightarrow> \<exists>c. canonical_candidate to_vec sha t = Inr c" for us
    using that by (induction us) (auto, fastforce)
  have all: "\<exists>c. canonical_candidate to_vec sha t = Inr c" if "t \<in> set ts" for t
    using assms(1) that by (fastforce simp: canonical_candidates_eq list_all2_conv_all_nth in_set_conv_nth)
  have "cs = map ?f ts" using eq [of ts] all assms(1) by simp
  moreover have "canonical_candidates to_vec sha ts' = Inr (map ?f ts')"
    using eq [of ts'] all mset_eq_setD [OF assms(2)] by simp
  moreover have "mset (map ?f ts') = mset (map ?f ts)" using assms(2) by (simp add: mset_map)
  ultimately show ?thesis by blast
qed

lemma build_inventory_perm:
  assumes "build_inventory_catalog to_vec sha configs discovered builtin = Inr m"
    and "mset discovered = mset discovered'"
    and "\<And>t u c d. t \<in> set discovered \<Longrightarrow> u \<in> set discovered \<Longrightarrow> canonical_candidate to_vec sha t = Inr c
      \<Longrightarrow> canonical_candidate to_vec sha u = Inr d \<Longrightarrow> contract_key c = contract_key d \<Longrightarrow> c = d"
  shows "build_inventory_catalog to_vec sha configs discovered' builtin = Inr m"
proof -
  from assms(1) obtain cs named where c: "length discovered \<le> MAX_TOOLS"
    "canonical_candidates to_vec sha discovered = Inr cs" "\<not> conflicting_pair (sort_key contract_key cs)"
    "assign_names builtin (count_preliminary [] (dedup_contracts (sort_key contract_key cs))) {}
       (dedup_contracts (sort_key contract_key cs)) = Inr named"
    "m = inventory_manifest to_vec sha configs (sort_key tool_sort_key named)"
    "validate_catalog_bytes to_vec m = Inr ()"
    by (rule build_inventory_cases)
  from canonical_candidates_perm [OF c(2) assms(2)] obtain cs' where
    cs': "canonical_candidates to_vec sha discovered' = Inr cs'" "mset cs' = mset cs" by blast
  have "inj_on contract_key (set cs)"
  proof (rule inj_onI)
    fix x y assume "x \<in> set cs" "y \<in> set cs" "contract_key x = contract_key y"
    moreover from this obtain t u where "t \<in> set discovered" "u \<in> set discovered"
      "canonical_candidate to_vec sha t = Inr x" "canonical_candidate to_vec sha u = Inr y"
      using c(2) by (fastforce simp: canonical_candidates_eq list_all2_conv_all_nth in_set_conv_nth)
    ultimately show "x = y" using assms(3) by blast
  qed
  then have "sort_key contract_key cs' = sort_key contract_key cs"
    using sort_key_mset [of cs cs' contract_key] cs'(2) by simp
  moreover have "length discovered' = length discovered" using assms(2) by (metis size_mset)
  ultimately show ?thesis using c cs'(1) by (simp add: build_inventory_catalog_def Let_def)
qed

section \<open>Validation\<close>

lemma validate_tools_iff:
  "validate_tools to_vec sha revisions exposed raws prior ts = Inr () \<longleftrightarrow>
     list_all (\<lambda>t. map_of revisions (mt_server_id t) \<noteq> None) ts
     \<and> list_all (tool_ok to_vec sha) ts
     \<and> distinct (map mt_exposed_name ts) \<and> set (map mt_exposed_name ts) \<inter> exposed = {}
     \<and> distinct (map raw_key ts) \<and> set (map raw_key ts) \<inter> raws = {}
     \<and> sorted_wrt (<) (map tool_sort_key ts)
     \<and> (case (prior, ts) of (Some k, t # _) \<Rightarrow> k < tool_sort_key t | _ \<Rightarrow> True)"
proof (induction ts arbitrary: exposed raws prior)
  case (Cons t ts)
  have canonical: "(case canonical_candidate to_vec sha (discovered_of t) of
       Inl e \<Rightarrow> False
     | Inr c \<Rightarrow> mt_contract_fingerprint c = mt_contract_fingerprint t \<and> mt_input_schema c = mt_input_schema t)
     \<longleftrightarrow> canonical_candidate to_vec sha (discovered_of t) = Inr (t\<lparr>mt_exposed_name := []\<rparr>)"
  proof (cases "canonical_candidate to_vec sha (discovered_of t)")
    case (Inr c)
    from canonical_candidate_fields [OF Inr] show ?thesis unfolding Inr
      by (cases c; cases t) (auto simp: discovered_of_def)
  qed simp
  have one: "validate_tools to_vec sha revisions exposed raws prior (t # ts) = Inr () \<longleftrightarrow>
     map_of revisions (mt_server_id t) \<noteq> None \<and> tool_ok to_vec sha t
     \<and> mt_exposed_name t \<notin> exposed \<and> raw_key t \<notin> raws \<and> (case prior of Some k \<Rightarrow> k < tool_sort_key t | None \<Rightarrow> True)
     \<and> validate_tools to_vec sha revisions (insert (mt_exposed_name t) exposed) (insert (raw_key t) raws)
         (Some (tool_sort_key t)) ts = Inr ()"
    unfolding tool_ok_def canonical [symmetric]
    by (auto simp: raw_key_def not_le split: sum.splits option.splits)
  have sorted: "sorted_wrt (<) (tool_sort_key t # map tool_sort_key ts) \<longleftrightarrow>
     (case (Some (tool_sort_key t), ts) of (Some k, u # _) \<Rightarrow> k < tool_sort_key u | _ \<Rightarrow> True)
     \<and> sorted_wrt (<) (map tool_sort_key ts)"
    by (cases ts) (auto intro: less_trans)
  have first: "(case (prior, t # ts) of (Some k, u # _) \<Rightarrow> k < tool_sort_key u | _ \<Rightarrow> True)
     \<longleftrightarrow> (case prior of Some k \<Rightarrow> k < tool_sort_key t | None \<Rightarrow> True)" by (cases prior) auto
  show ?case unfolding one Cons.IH sorted first list.pred_inject list.map distinct.simps list.set disjoint_iff by blast
qed (auto split: option.splits)

lemma check_then_Inr:
  "(case r of Inl e \<Rightarrow> Inl e | Inr _ \<Rightarrow> r') = Inr x \<longleftrightarrow> r = Inr () \<and> r' = Inr x"
  "(if b then Inl e else r') = Inr x \<longleftrightarrow> \<not> b \<and> r' = Inr x"
  by (cases r; auto)+

definition revisions_ok :: "McpSessionManifest \<Rightarrow> bool" where
  "revisions_ok m \<longleftrightarrow>
     list_all (\<lambda>t. map_of (mm_server_revisions m) (mt_server_id t) \<noteq> None) (mm_tools m)
     \<and> list_all (\<lambda>kv. fst kv \<noteq> [] \<and> snd kv \<noteq> [] \<and> list_ex (\<lambda>t. mt_server_id t = fst kv) (mm_tools m))
         (mm_server_revisions m)"

lemma validate_persisted_iff:
  "validate_persisted_manifest to_vec sha m check = Inr () \<longleftrightarrow>
     mm_version m = MANIFEST_VERSION \<and> mm_inventory_revision m \<noteq> [] \<and> length (mm_tools m) \<le> MAX_TOOLS
     \<and> revisions_ok m \<and> tools_listing_ok to_vec sha (mm_tools m)
     \<and> mm_openai_tools m = map (\<lambda>t. provider_tool t OpenAi) (mm_tools m)
     \<and> mm_anthropic_tools m = map (\<lambda>t. provider_tool t Claude) (mm_tools m)
     \<and> validate_catalog_bytes to_vec m = Inr ()
     \<and> (check \<longrightarrow> manifest_fingerprint to_vec sha m = mm_manifest_fingerprint m)"
proof -
  have "validate_tools to_vec sha (mm_server_revisions m) {} {} None (mm_tools m) = Inr () \<longleftrightarrow>
     list_all (\<lambda>t. map_of (mm_server_revisions m) (mt_server_id t) \<noteq> None) (mm_tools m)
     \<and> tools_listing_ok to_vec sha (mm_tools m)"
    unfolding validate_tools_iff tools_listing_ok_def by (auto split: list.splits)
  moreover have "\<not> list_ex (\<lambda>kv. fst kv = [] \<or> snd kv = []) (mm_server_revisions m)
      \<and> \<not> list_ex (\<lambda>kv. \<not> list_ex (\<lambda>t. mt_server_id t = fst kv) (mm_tools m)) (mm_server_revisions m)
    \<longleftrightarrow> list_all (\<lambda>kv. fst kv \<noteq> [] \<and> snd kv \<noteq> [] \<and> list_ex (\<lambda>t. mt_server_id t = fst kv) (mm_tools m))
         (mm_server_revisions m)"
    unfolding list_all_iff list_ex_iff by blast
  ultimately show ?thesis
    unfolding validate_persisted_manifest_def validate_provider_pairings_def provider_tools_def revisions_ok_def
      check_then_Inr ProviderKind.case by (simp only: de_Morgan_disj not_not not_less simp_thms) blast
qed

section \<open>Selection\<close>

lemma saturating_add_le: "b < 2 ^ 64 - 1 \<Longrightarrow> saturating_add m n \<le> b \<longleftrightarrow> m + n \<le> b"
  by (simp add: saturating_add_def min_le_iff_disj)

lemma declarations_total_eq:
  "declarations_total to_vec n tools = Inr total_bytes \<longleftrightarrow>
     list_all (\<lambda>t. declaration_bytes to_vec t \<le> MAX_MODEL_DECLARATION_BYTES) tools
     \<and> total_bytes = foldl (\<lambda>n t. saturating_add n (declaration_bytes to_vec t)) n tools"
  by (induction to_vec n tools rule: declarations_total.induct) (auto simp: Let_def)

lemma saturating_sum_le:
  assumes "b < 2 ^ 64 - 1"
  shows "foldl (\<lambda>n t. saturating_add n (f t)) n ts \<le> b \<longleftrightarrow> n + sum_list (map f ts) \<le> b"
proof (induction ts arbitrary: n)
  case (Cons t ts)
  have "saturating_add n (f t) + sum_list (map f ts) \<le> b \<longleftrightarrow> n + f t + sum_list (map f ts) \<le> b"
    using assms by (auto simp: saturating_add_def min_def)
  with Cons show ?case by (simp add: add.assoc)
qed simp

lemma validate_declarations_iff:
  "validate_declarations to_vec tools = Inr () \<longleftrightarrow>
     list_all (\<lambda>t. declaration_bytes to_vec t \<le> MAX_MODEL_DECLARATION_BYTES) tools
     \<and> sum_list (map (declaration_bytes to_vec) tools) \<le> MAX_PROVIDER_MCP_DECLARATIONS_BYTES"
proof (cases "declarations_total to_vec 0 tools")
  case (Inl e)
  then have "\<not> list_all (\<lambda>t. declaration_bytes to_vec t \<le> MAX_MODEL_DECLARATION_BYTES) tools"
    using declarations_total_eq [of to_vec 0 tools] by auto
  with Inl show ?thesis by (simp add: validate_declarations_def)
next
  case (Inr n)
  have "MAX_PROVIDER_MCP_DECLARATIONS_BYTES < 2 ^ 64 - 1" by (simp add: limit_defs)
  from saturating_sum_le [OF this, of "declaration_bytes to_vec" 0 tools] Inr [unfolded declarations_total_eq] Inr
  show ?thesis by (auto simp: validate_declarations_def)
qed

lemma validate_declarations_filter:
  assumes "validate_declarations to_vec (map f ts) = Inr ()"
  shows "validate_declarations to_vec (map f (filter P ts)) = Inr ()"
  using assms sum_list_filter_le_nat [of "declaration_bytes to_vec \<circ> f" P ts]
  by (auto simp: validate_declarations_iff list_all_iff)

lemma validate_catalog_bytes_iff:
  "validate_catalog_bytes to_vec m = Inr () \<longleftrightarrow>
     length (to_vec (canonical_json (manifest_json m))) \<le> MAX_CATALOG_BYTES
     \<and> validate_declarations to_vec (mm_openai_tools m) = Inr ()
     \<and> validate_declarations to_vec (mm_anthropic_tools m) = Inr ()"
  by (auto simp: validate_catalog_bytes_def validate_mcp_declaration_bounds_def check_then_Inr)

lemma selected_revisions_eq:
  "selected_revisions revisions selection = Inr rs \<longleftrightarrow>
     (\<forall>sel \<in> set selection. map_of revisions (fst sel) \<noteq> None)
     \<and> rs = map (\<lambda>sel. (fst sel, the (map_of revisions (fst sel)))) selection"
proof (induction selection arbitrary: rs)
  case (Cons sel selection)
  show ?case
  proof (cases "selected_revisions revisions selection")
    case (Inl e)
    then have "\<not> (\<forall>sel \<in> set selection. map_of revisions (fst sel) \<noteq> None)" using Cons.IH by auto
    with Inl show ?thesis by (auto split: option.splits)
  next
    case (Inr r)
    with Cons.IH [of r] show ?thesis by (auto split: option.splits)
  qed
qed auto

lemma first_unknown_None:
  "first_unknown tools selection = None \<longleftrightarrow>
     (\<forall>sel \<in> set selection. \<forall>name \<in> set (snd sel). (fst sel, name) \<in> raw_key ` set tools)"
  by (fastforce simp: first_unknown_def find_None_iff list_ex_iff raw_key_def)

text \<open>The selections a user can make of an inventory: known servers, each with known tools.\<close>

definition selection_ok :: "McpSessionManifest \<Rightarrow> (string \<times> string list) list \<Rightarrow> bool" where
  "selection_ok inventory selection \<longleftrightarrow>
     btree_ok selection
     \<and> (\<forall>sel \<in> set selection. map_of (mm_server_revisions inventory) (fst sel) \<noteq> None \<and> snd sel \<noteq> []
          \<and> (\<forall>name \<in> set (snd sel). (fst sel, name) \<in> raw_key ` set (mm_tools inventory)))"

lemma is_selected_iff:
  assumes "btree_ok selection"
  shows "is_selected selection t \<longleftrightarrow> (\<exists>names. (mt_server_id t, names) \<in> set selection \<and> mt_raw_name t \<in> set names)"
proof -
  have "is_selected selection t \<longleftrightarrow> (\<exists>names. map_of selection (mt_server_id t) = Some names \<and> mt_raw_name t \<in> set names)"
    by (auto simp: is_selected_def split: option.splits)
  then show ?thesis using btree_ok_distinct [OF assms] by simp
qed

lemma select_manifest_eq:
  assumes "selection_ok inventory selection"
  shows "select_manifest inventory selection = Inr
    \<lparr>mm_version = MANIFEST_VERSION, mm_inventory_revision = mm_inventory_revision inventory,
     mm_server_revisions = map (\<lambda>sel. (fst sel, the (map_of (mm_server_revisions inventory) (fst sel)))) selection,
     mm_manifest_fingerprint = [], mm_tools = filter (is_selected selection) (mm_tools inventory),
     mm_openai_tools = map (\<lambda>t. provider_tool t OpenAi) (filter (is_selected selection) (mm_tools inventory)),
     mm_anthropic_tools = map (\<lambda>t. provider_tool t Claude) (filter (is_selected selection) (mm_tools inventory))\<rparr>"
proof -
  let ?rs = "map (\<lambda>sel. (fst sel, the (map_of (mm_server_revisions inventory) (fst sel)))) selection"
  have sel: "btree_ok selection" using assms by (simp add: selection_ok_def)
  have "selected_revisions (mm_server_revisions inventory) selection = Inr ?rs"
    using assms by (auto simp: selected_revisions_eq selection_ok_def)
  moreover have "first_unknown (filter (is_selected selection) (mm_tools inventory)) selection = None"
    using assms by (fastforce simp: first_unknown_None selection_ok_def is_selected_iff [OF sel] raw_key_def)
  moreover have "btree_of ?rs = ?rs" using sel by (simp add: btree_ok_def o_def)
  ultimately show ?thesis by (simp add: select_manifest_def Let_def)
qed

lemma selected_manifest_valid:
  assumes "build_inventory_catalog to_vec sha configs discovered builtin = Inr inventory" and "digest_ok sha"
    and "selection_ok inventory selection" and "select_manifest inventory selection = Inr m"
    and "length (to_vec (canonical_json (manifest_json m))) \<le> MAX_CATALOG_BYTES"
  shows "validate_persisted_manifest to_vec sha m False = Inr ()"
proof -
  let ?ts = "filter (is_selected selection) (mm_tools inventory)"
  note m = assms(4) [unfolded select_manifest_eq [OF assms(3)], simplified]
  note listing = inventory_tools_ok [OF assms(1,2)]
  from assms(1) obtain ts where inv: "inventory = inventory_manifest to_vec sha configs ts"
    "validate_catalog_bytes to_vec inventory = Inr ()" by (rule build_inventory_cases)
  have sel: "btree_ok selection" using assms(3) by (simp add: selection_ok_def)
  have nonempty: "sha b \<noteq> []" for b using assms(2) by (metis digest_ok_def length_0_conv zero_neq_numeral)
  have tools: "mm_tools m = ?ts" using m by auto
  have "revisions_ok m" unfolding revisions_ok_def tools
  proof (intro conjI)
    have keys: "fst ` set (mm_server_revisions m) = fst ` set selection" using m by force
    have "map_of (mm_server_revisions m) (mt_server_id t) \<noteq> None" if "t \<in> set ?ts" for t
    proof -
      from that obtain names where "(mt_server_id t, names) \<in> set selection" by (auto simp: is_selected_iff [OF sel])
      then have "mt_server_id t \<in> fst ` set selection" by force
      with keys show ?thesis by (simp add: map_of_eq_None_iff)
    qed
    then show "list_all (\<lambda>t. map_of (mm_server_revisions m) (mt_server_id t) \<noteq> None) ?ts"
      by (simp add: list_all_iff)
    have "fst kv \<noteq> [] \<and> snd kv \<noteq> [] \<and> list_ex (\<lambda>t. mt_server_id t = fst kv) ?ts"
      if kv: "kv \<in> set (mm_server_revisions m)" for kv
    proof -
      from kv m obtain sl where sl: "sl \<in> set selection" "fst kv = fst sl"
        "snd kv = the (map_of (mm_server_revisions inventory) (fst sl))" by auto
      with assms(3) obtain name t where t: "name \<in> set (snd sl)" "t \<in> set (mm_tools inventory)"
        "raw_key t = (fst sl, name)" by (fastforce simp: selection_ok_def neq_Nil_conv)
      then have "t \<in> set ?ts" using sl(1) by (auto simp: is_selected_iff [OF sel] raw_key_def intro!: exI [of _ "snd sl"])
      moreover have "mt_server_id t \<noteq> []"
        using listing(1) t(2) by (auto simp: tools_listing_ok_def list_all_iff dest: tool_ok_raw_empty)
      moreover have "snd kv \<noteq> []"
      proof -
        from assms(3) sl(1) obtain r where "map_of (mm_server_revisions inventory) (fst sl) = Some r"
          by (auto simp: selection_ok_def)
        moreover from this have "\<exists>b. r = sha b" unfolding inv(1)
          by (auto simp: server_revision_def fingerprint_json_def Let_def dest!: map_of_SomeD btree_of_set [THEN subsetD])
        ultimately show ?thesis using sl(3) nonempty by (metis option.sel)
      qed
      ultimately show ?thesis using sl(2) t(3) by (auto simp: list_ex_iff raw_key_def)
    qed
    then show "list_all (\<lambda>kv. fst kv \<noteq> [] \<and> snd kv \<noteq> [] \<and> list_ex (\<lambda>t. mt_server_id t = fst kv) ?ts)
       (mm_server_revisions m)" by (simp add: list_all_iff)
  qed
  moreover have "length ?ts \<le> MAX_TOOLS" using listing(2) length_filter_le order.trans by blast
  moreover have "mm_inventory_revision m \<noteq> []" using m inv(1) nonempty
    by (auto simp: inventory_manifest_def Let_def fingerprint_json_def)
  moreover have "validate_catalog_bytes to_vec m = Inr ()"
    using inv(2) assms(5) m unfolding validate_catalog_bytes_iff inv(1)
    by (auto intro: validate_declarations_filter)
  ultimately show ?thesis using m tools_listing_ok_filter [OF listing(1)]
    by (auto simp: validate_persisted_iff)
qed

section \<open>Snapshots\<close>

lemma fingerprint_ignores_itself:
  "manifest_fingerprint to_vec sha (m\<lparr>mm_manifest_fingerprint := f\<rparr>) = manifest_fingerprint to_vec sha m"
  "validate_catalog_bytes to_vec (m\<lparr>mm_manifest_fingerprint := f\<rparr>) = validate_catalog_bytes to_vec m"
  by (simp_all add: manifest_fingerprint_def manifest_json_def validate_catalog_bytes_def
      validate_mcp_declaration_bounds_def split: sum.split)

lemma snapshot_roundtrip:
  assumes "McpSessionSnapshot_new to_vec sha m = Inr s"
  shows "from_persisted to_vec sha (ss_manifest s) = Inr s"
proof -
  have v: "validate_persisted_manifest to_vec sha m False = Inr ()"
    and s: "s = \<lparr>ss_manifest = m\<lparr>mm_manifest_fingerprint := manifest_fingerprint to_vec sha m\<rparr>\<rparr>"
    using assms by (auto simp: McpSessionSnapshot_new_def split: sum.splits)
  have "validate_persisted_manifest to_vec sha (ss_manifest s) True = Inr ()"
    using v by (simp add: s validate_persisted_iff fingerprint_ignores_itself revisions_ok_def)
  then show ?thesis by (simp add: from_persisted_def s)
qed

lemma manifest_tool_found:
  assumes "distinct (map mt_exposed_name (mm_tools m))" and "t \<in> set (mm_tools m)"
  shows "manifest_tool m (mt_exposed_name t) = Some t"
proof (cases "manifest_tool m (mt_exposed_name t)")
  case (Some u)
  then have "u \<in> set (mm_tools m)" "mt_exposed_name u = mt_exposed_name t"
    by (auto simp: manifest_tool_def find_Some_iff)
  with assms Some show ?thesis by (auto simp: distinct_map inj_on_def)
qed (use assms(2) in \<open>auto simp: manifest_tool_def find_None_iff\<close>)

end
