(* ===== verification/File_Locks.thy ===== *)
theory File_Locks
  imports Apply_Patch "HOL-Library.List_Lexorder" "HOL-Library.Char_ord" "HOL-Library.Product_Lexorder"
begin

text \<open>
  The locks that serialize file mutations (\<open>agent-tools/src/file_mutation.rs\<close>). A tool call
  locks its paths one by one, in key order, and drops all guards at the end, or at any point
  when it is aborted. Every stretch of code between two \<open>await\<close>s is one step; the table of
  locks forgets locks that nobody refers to. Paths are Unix paths; \<open>canonicalize\<close>, a call of
  the operating system, is a parameter.
\<close>

section \<open>Keys\<close>

datatype Component = RootDir | CurDir | ParentDir | Normal string

text \<open>The derived order: by constructor, then by name.\<close>

fun component_rank :: "Component \<Rightarrow> nat \<times> string" where
  "component_rank RootDir = (0, [])"
| "component_rank CurDir = (1, [])"
| "component_rank ParentDir = (2, [])"
| "component_rank (Normal part) = (3, part)"

lemma component_rank_inject [simp]: "component_rank a = component_rank b \<longleftrightarrow> a = b"
  by (cases a; cases b) auto

instantiation Component :: linorder
begin

definition less_eq_Component :: "Component \<Rightarrow> Component \<Rightarrow> bool" where
  "less_eq_Component a b \<longleftrightarrow> component_rank a \<le> component_rank b"

definition less_Component :: "Component \<Rightarrow> Component \<Rightarrow> bool" where
  "less_Component a b \<longleftrightarrow> component_rank a < component_rank b"

instance
proof
  fix a b c :: Component
  show "a < b \<longleftrightarrow> a \<le> b \<and> \<not> b \<le> a" by (simp add: less_eq_Component_def less_Component_def less_le_not_le)
  show "a \<le> a" by (simp add: less_eq_Component_def)
  show "a \<le> b \<Longrightarrow> b \<le> c \<Longrightarrow> a \<le> c" unfolding less_eq_Component_def by (rule order.trans)
  show "a \<le> b \<Longrightarrow> b \<le> a \<Longrightarrow> a = b"
    unfolding less_eq_Component_def by (metis antisym component_rank_inject)
  show "a \<le> b \<or> b \<le> a" unfolding less_eq_Component_def by (rule linear)
qed

end

text \<open>
  Rust compares, orders and hashes paths by their components: repeated separators and inner
  dots are skipped, a leading dot is kept.
\<close>

type_synonym path = "Component list"

fun split_slash :: "string \<Rightarrow> string list" where
  "split_slash [] = [[]]"
| "split_slash (c # cs) =
     (if c = CHR ''/'' then [] # split_slash cs
      else case split_slash cs of [] \<Rightarrow> [[c]] | p # ps \<Rightarrow> (c # p) # ps)"

definition part_component :: "string \<Rightarrow> path" where
  "part_component p = (if p = [] \<or> p = ''.'' then [] else if p = ''..'' then [ParentDir] else [Normal p])"

definition components :: "string \<Rightarrow> path" where
  "components path =
     (let parts = split_slash path
      in (if starts_with path ''/'' then [RootDir] else if hd parts = ''.'' then [CurDir] else [])
           @ concat (map part_component parts))"

text \<open>\<open>PathBuf::push\<close> and \<open>PathBuf::pop\<close>: a root replaces the path, and is never popped.\<close>

fun push_component :: "path \<Rightarrow> Component \<Rightarrow> path" where
  "push_component out RootDir = [RootDir]"
| "push_component out CurDir = out"
| "push_component out ParentDir = (if out = [] \<or> last out = RootDir then out else butlast out)"
| "push_component out (Normal part) = out @ [Normal part]"

definition normalize_path :: "string \<Rightarrow> path" where
  "normalize_path path =
     (let out = foldl push_component [] (components path)
      in if out = [] then [CurDir] else out)"

definition mutation_lock_key :: "(path \<Rightarrow> path option) \<Rightarrow> string \<Rightarrow> path" where
  "mutation_lock_key canonicalize path =
     (let normalized = normalize_path path
      in case canonicalize normalized of Some real \<Rightarrow> real | None \<Rightarrow> normalized)"

definition lock_keys :: "(path \<Rightarrow> path option) \<Rightarrow> string list \<Rightarrow> path list" where
  "lock_keys canonicalize paths = remdups_adj (sort (map (mutation_lock_key canonicalize) paths))"

section \<open>The table of locks\<close>

text \<open>
  A call that is locking: the keys it still has to ask for, the lock it waits for, and the
  guards it holds.
\<close>

record locker =
  lk_keys :: "path list"
  lk_waiting :: "(path \<times> nat) option"
  lk_guards :: "(path \<times> nat) list"

text \<open>Locks are numbered; \<open>fm_owner\<close> says who holds the mutex of a lock.\<close>

record FileMutationLocks =
  fm_locks :: "path \<rightharpoonup> nat"
  fm_owner :: "nat \<rightharpoonup> nat"
  fm_lockers :: "nat \<rightharpoonup> locker"
  fm_next :: nat

definition FileMutationLocks_new :: FileMutationLocks where
  "FileMutationLocks_new = \<lparr>fm_locks = Map.empty, fm_owner = Map.empty, fm_lockers = Map.empty, fm_next = 0\<rparr>"

definition refs :: "locker \<Rightarrow> (path \<times> nat) list" where
  "refs lk = lk_guards lk @ (case lk_waiting lk of Some r \<Rightarrow> [r] | None \<Rightarrow> [])"

text \<open>\<open>Arc::strong_count\<close> is above 1 when someone besides the table refers to the lock.\<close>

definition referenced :: "FileMutationLocks \<Rightarrow> nat \<Rightarrow> bool" where
  "referenced s l \<longleftrightarrow> (\<exists>lk \<in> ran (fm_lockers s). l \<in> snd ` set (refs lk))"

definition retain_locks :: "FileMutationLocks \<Rightarrow> FileMutationLocks" where
  "retain_locks s =
     s\<lparr>fm_locks := (\<lambda>k. case fm_locks s k of Some l \<Rightarrow> if referenced s l then Some l else None | None \<Rightarrow> None)\<rparr>"

definition start_locking :: "(path \<Rightarrow> path option) \<Rightarrow> string list \<Rightarrow> nat \<Rightarrow> FileMutationLocks \<Rightarrow> FileMutationLocks" where
  "start_locking canonicalize paths t s =
     s\<lparr>fm_lockers := (fm_lockers s)(t \<mapsto>
         \<lparr>lk_keys = lock_keys canonicalize paths, lk_waiting = None, lk_guards = []\<rparr>)\<rparr>"

text \<open>Looking the next lock up, or making it, under the table's own mutex.\<close>

definition fetch_lock :: "nat \<Rightarrow> locker \<Rightarrow> path \<Rightarrow> path list \<Rightarrow> FileMutationLocks \<Rightarrow> FileMutationLocks" where
  "fetch_lock t lk k ks s =
     (let s1 = retain_locks s
      in case fm_locks s1 k of
           Some l \<Rightarrow> s1\<lparr>fm_lockers := (fm_lockers s1)(t \<mapsto> lk\<lparr>lk_keys := ks, lk_waiting := Some (k, l)\<rparr>)\<rparr>
         | None \<Rightarrow>
             s1\<lparr>fm_locks := (fm_locks s1)(k \<mapsto> fm_next s1), fm_next := Suc (fm_next s1),
                fm_lockers := (fm_lockers s1)(t \<mapsto> lk\<lparr>lk_keys := ks, lk_waiting := Some (k, fm_next s1)\<rparr>)\<rparr>)"

definition acquire_lock :: "nat \<Rightarrow> locker \<Rightarrow> path \<times> nat \<Rightarrow> FileMutationLocks \<Rightarrow> FileMutationLocks" where
  "acquire_lock t lk r s =
     s\<lparr>fm_owner := (fm_owner s)(snd r \<mapsto> t),
       fm_lockers := (fm_lockers s)(t \<mapsto> lk\<lparr>lk_waiting := None, lk_guards := lk_guards lk @ [r]\<rparr>)\<rparr>"

text \<open>Dropping a call with all its guards, whether it is done or aborted.\<close>

definition drop_locker :: "nat \<Rightarrow> FileMutationLocks \<Rightarrow> FileMutationLocks" where
  "drop_locker t s =
     s\<lparr>fm_owner := (\<lambda>l. if fm_owner s l = Some t then None else fm_owner s l), fm_lockers := (fm_lockers s)(t := None)\<rparr>"

inductive progress_step :: "nat \<Rightarrow> FileMutationLocks \<Rightarrow> FileMutationLocks \<Rightarrow> bool" where
  step_fetch: "fm_lockers s t = Some lk \<Longrightarrow> lk_waiting lk = None \<Longrightarrow> lk_keys lk = k # ks
    \<Longrightarrow> progress_step t s (fetch_lock t lk k ks s)"
| step_acquire: "fm_lockers s t = Some lk \<Longrightarrow> lk_waiting lk = Some r \<Longrightarrow> fm_owner s (snd r) = None
    \<Longrightarrow> progress_step t s (acquire_lock t lk r s)"
| step_done: "fm_lockers s t = Some lk \<Longrightarrow> lk_waiting lk = None \<Longrightarrow> lk_keys lk = []
    \<Longrightarrow> progress_step t s (drop_locker t s)"

inductive locks_reachable :: "FileMutationLocks \<Rightarrow> bool" where
  locks_new: "locks_reachable FileMutationLocks_new"
| locks_start: "locks_reachable s \<Longrightarrow> fm_lockers s t = None
    \<Longrightarrow> locks_reachable (start_locking canonicalize paths t s)"
| locks_progress: "locks_reachable s \<Longrightarrow> progress_step t s s' \<Longrightarrow> locks_reachable s'"
| locks_abort: "locks_reachable s \<Longrightarrow> locks_reachable (drop_locker t s)"

inductive_cases progress_stepE: "progress_step t s s'"

section \<open>Invariant\<close>

text \<open>
  The keys of a call ascend from its guards over the lock it waits for to those still to be
  asked for; whatever it refers to is in the table; and exactly the guards own their locks.
\<close>

definition locks_ok :: "FileMutationLocks \<Rightarrow> bool" where
  "locks_ok s \<longleftrightarrow>
     finite (dom (fm_lockers s))
     \<and> (\<forall>t lk. fm_lockers s t = Some lk \<longrightarrow>
          sorted_wrt (<) (map fst (refs lk) @ lk_keys lk) \<and> (\<forall>r \<in> set (refs lk). fm_locks s (fst r) = Some (snd r)))
     \<and> (\<forall>k l. fm_locks s k = Some l \<longrightarrow> l < fm_next s) \<and> inj_on (fm_locks s) (dom (fm_locks s))
     \<and> (\<forall>l t. fm_owner s l = Some t \<longleftrightarrow> (\<exists>lk. fm_lockers s t = Some lk \<and> l \<in> snd ` set (lk_guards lk)))"

lemma locks_okD:
  assumes "locks_ok s"
  shows "finite (dom (fm_lockers s))"
    and "fm_lockers s t = Some lk \<Longrightarrow> sorted_wrt (<) (map fst (refs lk) @ lk_keys lk)"
    and "fm_lockers s t = Some lk \<Longrightarrow> r \<in> set (refs lk) \<Longrightarrow> fm_locks s (fst r) = Some (snd r)"
    and "fm_locks s k = Some l \<Longrightarrow> l < fm_next s"
    and "fm_locks s k = Some l \<Longrightarrow> fm_locks s k' = Some l \<Longrightarrow> k = k'"
    and "fm_owner s l = Some t' \<longleftrightarrow> (\<exists>lk. fm_lockers s t' = Some lk \<and> l \<in> snd ` set (lk_guards lk))"
proof -
  show "finite (dom (fm_lockers s))" using assms by (simp add: locks_ok_def)
  show "fm_lockers s t = Some lk \<Longrightarrow> sorted_wrt (<) (map fst (refs lk) @ lk_keys lk)"
    using assms unfolding locks_ok_def by blast
  show "fm_lockers s t = Some lk \<Longrightarrow> r \<in> set (refs lk) \<Longrightarrow> fm_locks s (fst r) = Some (snd r)"
    using assms unfolding locks_ok_def by blast
  show "fm_locks s k = Some l \<Longrightarrow> l < fm_next s" using assms unfolding locks_ok_def by blast
  have "inj_on (fm_locks s) (dom (fm_locks s))" using assms unfolding locks_ok_def by blast
  then show "fm_locks s k = Some l \<Longrightarrow> fm_locks s k' = Some l \<Longrightarrow> k = k'" by (metis domI inj_onD)
  show "fm_owner s l = Some t' \<longleftrightarrow> (\<exists>lk. fm_lockers s t' = Some lk \<and> l \<in> snd ` set (lk_guards lk))"
    using assms unfolding locks_ok_def by blast
qed

lemma lock_keys_strict: "sorted_wrt (<) (lock_keys canonicalize paths)"
proof -
  have "sorted_wrt (<) (remdups_adj ks)" if "sorted ks" for ks :: "path list"
    using that by (induction ks rule: remdups_adj.induct) (auto simp: order.strict_iff_order)
  then show ?thesis by (simp add: lock_keys_def)
qed

lemma guard_ref: "r \<in> set (lk_guards lk) \<Longrightarrow> r \<in> set (refs lk)"
  by (simp add: refs_def)

lemma locks_ok_new: "locks_ok FileMutationLocks_new"
  by (simp add: locks_ok_def FileMutationLocks_new_def)

lemma locks_ok_start:
  assumes "locks_ok s" and "fm_lockers s t = None"
  shows "locks_ok (start_locking canonicalize paths t s)"
  using assms lock_keys_strict [of canonicalize paths]
  by (auto simp: locks_ok_def start_locking_def refs_def)

lemma retain_locks_ok:
  assumes "locks_ok s"
  shows "locks_ok (retain_locks s)"
proof -
  have keep: "fm_locks (retain_locks s) (fst r) = Some (snd r)" if "fm_lockers s t = Some lk" "r \<in> set (refs lk)" for t lk r
    using that locks_okD(3) [OF assms that]
    by (auto simp: retain_locks_def referenced_def ran_def)
  have sub: "fm_locks s k = Some l" if "fm_locks (retain_locks s) k = Some l" for k l
    using that by (auto simp: retain_locks_def split: option.splits if_splits)
  have "inj_on (fm_locks (retain_locks s)) (dom (fm_locks (retain_locks s)))"
  proof (rule inj_onI)
    fix j k assume "j \<in> dom (fm_locks (retain_locks s))" "fm_locks (retain_locks s) j = fm_locks (retain_locks s) k"
    then obtain l where "fm_locks s j = Some l" "fm_locks s k = Some l" using sub by (auto simp: dom_def)
    then show "j = k" by (rule locks_okD(5) [OF assms])
  qed
  moreover have "fm_lockers (retain_locks s) = fm_lockers s" "fm_owner (retain_locks s) = fm_owner s"
    "fm_next (retain_locks s) = fm_next s" by (simp_all add: retain_locks_def)
  ultimately show ?thesis
    using assms keep sub by (auto simp: locks_ok_def) blast
qed

text \<open>A call that waits for a lock of the table, with its guards as they were.\<close>

lemma locks_ok_wait:
  assumes "locks_ok s" and "fm_lockers s t = Some lk" and "lk_waiting lk = None" and "lk_keys lk = k # ks"
    and "fm_locks s k = Some l"
  shows "locks_ok (s\<lparr>fm_lockers := (fm_lockers s)(t \<mapsto> lk\<lparr>lk_keys := ks, lk_waiting := Some (k, l)\<rparr>)\<rparr>)"
proof -
  let ?lk = "lk\<lparr>lk_keys := ks, lk_waiting := Some (k, l)\<rparr>"
  have "sorted_wrt (<) (map fst (refs ?lk) @ lk_keys ?lk)"
    using locks_okD(2) [OF assms(1,2)] assms(3,4) by (simp add: refs_def)
  moreover have "fm_locks s (fst r) = Some (snd r)" if "r \<in> set (refs ?lk)" for r
    using that assms(5) locks_okD(3) [OF assms(1,2), of r] by (auto simp: refs_def)
  moreover have "(\<exists>lk'. ((fm_lockers s)(t \<mapsto> ?lk)) t' = Some lk' \<and> l' \<in> snd ` set (lk_guards lk'))
      \<longleftrightarrow> (\<exists>lk'. fm_lockers s t' = Some lk' \<and> l' \<in> snd ` set (lk_guards lk'))" for t' l'
    using assms(2) by auto
  ultimately show ?thesis using assms(1) unfolding locks_ok_def by simp
qed

lemma locks_ok_add:
  assumes "locks_ok s" and "fm_locks s k = None"
  shows "locks_ok (s\<lparr>fm_locks := (fm_locks s)(k \<mapsto> fm_next s), fm_next := Suc (fm_next s)\<rparr>)"
proof -
  let ?m = "(fm_locks s)(k \<mapsto> fm_next s)"
  have "inj_on ?m (dom ?m)"
  proof (rule inj_onI)
    fix i j assume "i \<in> dom ?m" "j \<in> dom ?m" "?m i = ?m j"
    then show "i = j"
      using locks_okD(4,5) [OF assms(1)] by (fastforce split: if_splits)
  qed
  moreover have "?m (fst r) = Some (snd r)" if "fm_lockers s t = Some lk" "r \<in> set (refs lk)" for t lk r
    using locks_okD(3) [OF assms(1) that] assms(2) by auto
  moreover have "?m j = Some l \<Longrightarrow> l < Suc (fm_next s)" for j l
    using locks_okD(4) [OF assms(1), of j l] by (auto split: if_splits)
  ultimately show ?thesis using assms(1) unfolding locks_ok_def by simp
qed

lemma locks_ok_fetch:
  assumes "locks_ok s" and "fm_lockers s t = Some lk" and "lk_waiting lk = None" and "lk_keys lk = k # ks"
  shows "locks_ok (fetch_lock t lk k ks s)"
proof -
  let ?s = "retain_locks s"
  have ok: "locks_ok ?s" by (rule retain_locks_ok [OF assms(1)])
  have lk: "fm_lockers ?s t = Some lk" using assms(2) by (simp add: retain_locks_def)
  show ?thesis
  proof (cases "fm_locks ?s k")
    case None
    let ?s' = "?s\<lparr>fm_locks := (fm_locks ?s)(k \<mapsto> fm_next ?s), fm_next := Suc (fm_next ?s)\<rparr>"
    from locks_ok_wait [OF locks_ok_add [OF ok None], of t lk k ks "fm_next ?s"] lk assms(3,4) None
    show ?thesis by (simp add: fetch_lock_def Let_def)
  next
    case (Some l)
    with locks_ok_wait [OF ok lk assms(3,4) Some] show ?thesis by (simp add: fetch_lock_def Let_def)
  qed
qed

lemma locks_ok_acquire:
  assumes "locks_ok s" and "fm_lockers s t = Some lk" and "lk_waiting lk = Some r" and "fm_owner s (snd r) = None"
  shows "locks_ok (acquire_lock t lk r s)"
proof -
  let ?lk = "lk\<lparr>lk_waiting := None, lk_guards := lk_guards lk @ [r]\<rparr>"
  have refs: "refs ?lk = refs lk" using assms(3) by (simp add: refs_def)
  have "((fm_owner s)(snd r \<mapsto> t)) l = Some t' \<longleftrightarrow>
      (\<exists>lk'. ((fm_lockers s)(t \<mapsto> ?lk)) t' = Some lk' \<and> l \<in> snd ` set (lk_guards lk'))" for l t'
    using assms(2,4) locks_okD(6) [OF assms(1), of l t'] by auto
  with refs assms(1,2) show ?thesis unfolding acquire_lock_def locks_ok_def by simp
qed

lemma locks_ok_drop:
  assumes "locks_ok s"
  shows "locks_ok (drop_locker t s)"
proof -
  have "(if fm_owner s l = Some t then None else fm_owner s l) = Some t' \<longleftrightarrow>
      (\<exists>lk. ((fm_lockers s)(t := None)) t' = Some lk \<and> l \<in> snd ` set (lk_guards lk))" for l t'
    using locks_okD(6) [OF assms, of l t'] by auto
  with assms show ?thesis unfolding drop_locker_def locks_ok_def by simp
qed

lemma locks_reachable_ok: "locks_reachable s \<Longrightarrow> locks_ok s"
proof (induction rule: locks_reachable.induct)
  case (locks_progress s t s')
  from locks_progress(2) show ?case
    by (rule progress_stepE)
      (use locks_progress.IH locks_ok_fetch locks_ok_acquire locks_ok_drop in auto)
qed (auto intro: locks_ok_new locks_ok_start locks_ok_drop)

section \<open>Mutual exclusion and progress\<close>

lemma mutual_exclusion:
  assumes "locks_ok s" and "fm_lockers s t = Some lk" and "fm_lockers s u = Some lk'"
    and "(k, l) \<in> set (lk_guards lk)" and "(k, l') \<in> set (lk_guards lk')"
  shows "t = u \<and> l = l'"
proof -
  have "fm_locks s k = Some l" "fm_locks s k = Some l'"
    using locks_okD(3) [OF assms(1,2) guard_ref [OF assms(4)]] locks_okD(3) [OF assms(1,3) guard_ref [OF assms(5)]] by simp_all
  then have eq: "l = l'" by simp
  have "fm_owner s l = Some t" "fm_owner s l' = Some u"
    using assms(2-5) unfolding locks_okD(6) [OF assms(1)] by force+
  with eq show ?thesis by simp
qed

lemma no_deadlock:
  assumes "locks_ok s" and "fm_lockers s \<noteq> Map.empty"
  shows "\<exists>t s'. progress_step t s s'"
proof (rule ccontr)
  assume stuck: "\<nexists>t s'. progress_step t s s'"
  have waits: "\<exists>r u. lk_waiting lk = Some r \<and> fm_owner s (snd r) = Some u" if "fm_lockers s t = Some lk" for t lk
    using stuck that step_fetch [OF that] step_acquire [OF that] step_done [OF that]
    by (cases "lk_waiting lk"; cases "lk_keys lk") (fastforce simp: not_Some_eq)+
  let ?wanted = "{fst r | r t lk. fm_lockers s t = Some lk \<and> lk_waiting lk = Some r}"
  have "?wanted \<subseteq> (\<lambda>t. fst (the (lk_waiting (the (fm_lockers s t))))) ` dom (fm_lockers s)" by force
  then have fin: "finite ?wanted" using locks_okD(1) [OF assms(1)] finite_surj by blast
  obtain t lk where "fm_lockers s t = Some lk" using assms(2) by fastforce
  with waits [OF this] have "?wanted \<noteq> {}" by auto
  from Max_in [OF fin this] obtain r t lk where
    r: "fst r = Max ?wanted" "fm_lockers s t = Some lk" "lk_waiting lk = Some r" by auto
  from waits [OF r(2)] r(3) obtain u where "fm_owner s (snd r) = Some u" by auto
  then obtain lk' g where u: "fm_lockers s u = Some lk'" "g \<in> set (lk_guards lk')" "snd g = snd r"
    using locks_okD(6) [OF assms(1)] by force
  from waits [OF u(1)] obtain q where q: "lk_waiting lk' = Some q" by blast
  have "fm_locks s (fst g) = Some (snd r)" using locks_okD(3) [OF assms(1) u(1) guard_ref [OF u(2)]] u(3) by simp
  moreover have "fm_locks s (fst r) = Some (snd r)"
    using locks_okD(3) [OF assms(1) r(2)] r(3) by (simp add: refs_def)
  ultimately have "fst g = fst r" using locks_okD(5) [OF assms(1)] by blast
  moreover have "fst g < fst q" using locks_okD(2) [OF assms(1) u(1)] q u(2) by (auto simp: refs_def sorted_wrt_append)
  moreover have "fst q \<le> Max ?wanted" using u(1) q by (intro Max_ge [OF fin]) blast
  ultimately show False using r(1) by simp
qed

end
