(* ===== verification/Mcp_Stream.thy ===== *)
theory Mcp_Stream
  imports Provider_Stream Btree_Map
begin

text \<open>
  What the client of the model context protocol reads from a server
  (\<open>agent-mcp/src/http_sse.rs\<close>, with \<open>SecretScrubber\<close> of \<open>http_transport.rs\<close> and the flags
  of \<open>ClientNotifications\<close> in \<open>client.rs\<close>): a parser of event streams whose memory is
  bounded, which removes the bearer token from everything it passes on. The JSON parser and
  printer and the decoder of JSON-RPC messages are parameters.
\<close>

section \<open>The scrubber\<close>

definition redacted :: string where
  "redacted = ''<redacted>''"

text \<open>\<open>str::replace\<close>: the occurrences from the left, without overlap.\<close>

function replace_from :: "string \<Rightarrow> string \<Rightarrow> string \<Rightarrow> string" where
  "replace_from needle new s =
     (if needle = [] then s
      else case str_find needle s of
             None \<Rightarrow> s
           | Some i \<Rightarrow> take i s @ new @ replace_from needle new (drop (i + length needle) s))"
  by pat_completeness auto
termination
  by (relation "measure (\<lambda>(needle, new, s). length s)") (auto dest!: str_find_bound simp: Suc_le_eq [symmetric] neq_Nil_conv)

declare replace_from.simps [simp del]

text \<open>The empty pattern matches around every character.\<close>

definition str_replace :: "string \<Rightarrow> string \<Rightarrow> string \<Rightarrow> string" where
  "str_replace needle new s =
     (if needle = [] then new @ concat (map (\<lambda>c. c @ new) (utf8_chars s)) else replace_from needle new s)"

definition scrub :: "string \<Rightarrow> string \<Rightarrow> string" where
  "scrub secret v = str_replace secret redacted v"

fun scrub_value :: "string \<Rightarrow> Value \<Rightarrow> Value" where
  "scrub_value secret (JString v) = JString (scrub secret v)"
| "scrub_value secret (JArray vs) = JArray (map (scrub_value secret) vs)"
| "scrub_value secret (JObject kvs) =
     JObject (btree_of (map (\<lambda>kv. (scrub secret (fst kv), scrub_value secret (snd kv))) kvs))"
| "scrub_value secret JNull = (if secret = ''null'' then JString redacted else JNull)"
| "scrub_value secret (JBool b) =
     (if secret = (if b then ''true'' else ''false'') then JString redacted else JBool b)"
| "scrub_value secret (JNumber n) = (if secret = n then JString redacted else JNumber n)"

definition scrub_json_text :: "(string \<Rightarrow> Value option) \<Rightarrow> (Value \<Rightarrow> string) \<Rightarrow> string \<Rightarrow> string \<Rightarrow> string" where
  "scrub_json_text json to_string secret v =
     (case json v of Some j \<Rightarrow> to_string (scrub_value secret j) | None \<Rightarrow> scrub secret v)"

section \<open>Notifications\<close>

record ClientNotifications =
  cn_tools_revision :: u64
  cn_tools_uncertain :: bool
  cn_accepts_tools_changed :: bool

definition ClientNotifications_default :: ClientNotifications where
  "ClientNotifications_default =
     \<lparr>cn_tools_revision = 0, cn_tools_uncertain = False, cn_accepts_tools_changed = False\<rparr>"

definition set_accepts_tools_changed :: "bool \<Rightarrow> ClientNotifications \<Rightarrow> ClientNotifications" where
  "set_accepts_tools_changed accepted n = n\<lparr>cn_accepts_tools_changed := accepted\<rparr>"

definition mark_tools_changed_received :: "ClientNotifications \<Rightarrow> bool \<times> ClientNotifications" where
  "mark_tools_changed_received n =
     (if \<not> cn_accepts_tools_changed n then (False, n)
      else (True, n\<lparr>cn_tools_uncertain := True, cn_tools_revision := cn_tools_revision n + 1\<rparr>))"

definition mark_tools_uncertain :: "ClientNotifications \<Rightarrow> ClientNotifications" where
  "mark_tools_uncertain n =
     (if cn_accepts_tools_changed n
      then n\<lparr>cn_tools_uncertain := True, cn_tools_revision := cn_tools_revision n + 1\<rparr> else n)"

definition on_tool_list_changed :: "ClientNotifications \<Rightarrow> ClientNotifications" where
  "on_tool_list_changed n = (if \<not> cn_accepts_tools_changed n then n else n\<lparr>cn_tools_uncertain := False\<rparr>)"

section \<open>The parser\<close>

definition SSE_LINE_LIMIT :: nat where "SSE_LINE_LIMIT = 256 * 1024"
definition SSE_EVENT_LIMIT :: nat where "SSE_EVENT_LIMIT = 2 * 1024 * 1024"
definition SSE_DATA_LIMIT :: nat where "SSE_DATA_LIMIT = 2 * 1024 * 1024"
definition SSE_FIELD_LIMIT :: nat where "SSE_FIELD_LIMIT = 16 * 1024"
definition SSE_EVENTS_PER_RESPONSE_LIMIT :: nat where "SSE_EVENTS_PER_RESPONSE_LIMIT = 1024"
definition MAX_SERVER_RETRY_MS :: nat where "MAX_SERVER_RETRY_MS = 5000"

lemmas sse_limit_defs = SSE_LINE_LIMIT_def SSE_EVENT_LIMIT_def SSE_DATA_LIMIT_def SSE_FIELD_LIMIT_def
  SSE_EVENTS_PER_RESPONSE_LIMIT_def MAX_SERVER_RETRY_MS_def

datatype BoundedHttpError =
    HttpRequest | HeaderTimeout | BodyTimeout | BodyTooLarge | InvalidJson | HttpStatus "16 word" | Aborted | InvalidHeader

record Sse =
  sse_event :: "string option"
  sse_data :: "string option"
  sse_id :: "string option"
  sse_retry :: "u64 option"

record PartialSse = Sse +
  ps_bytes :: nat

definition PartialSse_default :: PartialSse where
  "PartialSse_default = \<lparr>sse_event = None, sse_data = None, sse_id = None, sse_retry = None, ps_bytes = 0\<rparr>"

definition PartialSse_is_empty :: "PartialSse \<Rightarrow> bool" where
  "PartialSse_is_empty p \<longleftrightarrow> sse_event p = None \<and> sse_data p = None \<and> sse_id p = None \<and> sse_retry p = None"

datatype SseDispatch = DispatchInitialize | DispatchResponse | DispatchCommon | DispatchDiscard

text \<open>
  A decoded message: a response says whether it is the result of an initialization and then
  whether the server announces changes of its tools, a notification whether it is one.
\<close>

datatype server_message =
    ServerRequest
  | ServerResponse "bool option"
  | ServerNotification bool
  | ServerErrorMessage

record BoundedSseParser =
  bp_line :: string
  bp_skip_lf :: bool
  bp_event :: PartialSse
  bp_events :: nat
  bp_scrubber :: "string option"
  bp_notifications :: ClientNotifications
  bp_dispatch :: SseDispatch
  bp_response_seen :: bool

definition BoundedSseParser_new :: "string option \<Rightarrow> ClientNotifications \<Rightarrow> SseDispatch \<Rightarrow> BoundedSseParser" where
  "BoundedSseParser_new scrubber notifications dispatch =
     \<lparr>bp_line = [], bp_skip_lf = False, bp_event = PartialSse_default, bp_events = 0, bp_scrubber = scrubber,
      bp_notifications = notifications, bp_dispatch = dispatch, bp_response_seen = False\<rparr>"

text \<open>The code outside \<open>src\<close> that the parser calls: JSON text, and JSON-RPC messages.\<close>

record decoders =
  dc_json :: "string \<Rightarrow> Value option"
  dc_to_string :: "Value \<Rightarrow> string"
  dc_message :: "string \<Rightarrow> server_message option"

definition parser_scrub :: "BoundedSseParser \<Rightarrow> string \<Rightarrow> string" where
  "parser_scrub p v = (case bp_scrubber p of Some secret \<Rightarrow> scrub secret v | None \<Rightarrow> v)"

definition parser_scrub_data :: "decoders \<Rightarrow> BoundedSseParser \<Rightarrow> string \<Rightarrow> string" where
  "parser_scrub_data dc p data =
     (case bp_scrubber p of Some secret \<Rightarrow> scrub_json_text (dc_json dc) (dc_to_string dc) secret data | None \<Rightarrow> data)"

definition note_initialize :: "server_message \<Rightarrow> BoundedSseParser \<Rightarrow> BoundedSseParser" where
  "note_initialize message p =
     (case (bp_dispatch p, message) of
        (DispatchInitialize, ServerResponse (Some list_changed)) \<Rightarrow>
          p\<lparr>bp_notifications := set_accepts_tools_changed list_changed (bp_notifications p)\<rparr>
      | _ \<Rightarrow> p)"

definition note_tools_changed :: "server_message \<Rightarrow> BoundedSseParser \<Rightarrow> BoundedSseParser" where
  "note_tools_changed message p =
     (let dispatched = (case bp_dispatch p of
            DispatchCommon \<Rightarrow> True
          | DispatchResponse \<Rightarrow> \<not> bp_response_seen p
          | DispatchInitialize \<Rightarrow> False
          | DispatchDiscard \<Rightarrow> False)
      in if dispatched \<and> message = ServerNotification True
         then p\<lparr>bp_notifications := snd (mark_tools_changed_received (bp_notifications p))\<rparr> else p)"

definition note_response :: "server_message \<Rightarrow> BoundedSseParser \<Rightarrow> BoundedSseParser" where
  "note_response message p =
     (case message of
        ServerResponse _ \<Rightarrow> p\<lparr>bp_response_seen := True\<rparr>
      | ServerErrorMessage \<Rightarrow> p\<lparr>bp_response_seen := True\<rparr>
      | _ \<Rightarrow> p)"

definition finish_event :: "decoders \<Rightarrow> BoundedSseParser \<Rightarrow> (BoundedHttpError + Sse list) \<times> BoundedSseParser" where
  "finish_event dc p =
     (let event = bp_event p; p1 = p\<lparr>bp_event := PartialSse_default\<rparr>
      in if PartialSse_is_empty event then (Inr [], p1)
         else let p2 = p1\<lparr>bp_events := bp_events p1 + 1\<rparr>
              in if bp_events p2 > SSE_EVENTS_PER_RESPONSE_LIMIT then (Inl BodyTooLarge, p2)
                 else let data = map_option (parser_scrub_data dc p2) (sse_data event);
                          out = \<lparr>sse_event = sse_event event, sse_data = data, sse_id = sse_id event,
                                 sse_retry = sse_retry event\<rparr>
                      in if sse_event event = None \<or> sse_event event = Some [] \<or> sse_event event = Some ''message''
                         then (case Option.bind data (dc_message dc) of
                                 None \<Rightarrow> (Inr [out], p2)
                               | Some message \<Rightarrow>
                                   (Inr [out], note_response message (note_tools_changed message (note_initialize message p2))))
                         else (Inr [out], p2))"

definition strip_space :: "string \<Rightarrow> string" where
  "strip_space v = (case v of c # cs \<Rightarrow> if c = CHR '' '' then cs else v | [] \<Rightarrow> v)"

definition append_data :: "string \<Rightarrow> BoundedSseParser \<Rightarrow> (BoundedHttpError + unit) \<times> BoundedSseParser" where
  "append_data v p =
     (let event = bp_event p;
          separator = (if sse_data event = None then 0 else 1);
          current = (case sse_data event of Some d \<Rightarrow> length d | None \<Rightarrow> 0)
      in if saturating_add (saturating_add current separator) (length v) > SSE_DATA_LIMIT then (Inl BodyTooLarge, p)
         else let data = (case sse_data event of Some d \<Rightarrow> d | None \<Rightarrow> []);
                  data1 = (if data = [] then data else data @ [nl])
              in (Inr (), p\<lparr>bp_event := event\<lparr>sse_data := Some (data1 @ v)\<rparr>\<rparr>))"

definition set_retry :: "string \<Rightarrow> BoundedSseParser \<Rightarrow> (BoundedHttpError + unit) \<times> BoundedSseParser" where
  "set_retry v p =
     (if bp_scrubber p = Some v then (Inl InvalidJson, p)
      else case parse_u64 v of
             None \<Rightarrow> (Inl InvalidJson, p)
           | Some retry \<Rightarrow>
               if unat retry > MAX_SERVER_RETRY_MS then (Inl InvalidJson, p)
               else (Inr (), p\<lparr>bp_event := (bp_event p)\<lparr>sse_retry := Some retry\<rparr>\<rparr>))"

definition process_field :: "string \<Rightarrow> string \<Rightarrow> BoundedSseParser \<Rightarrow> (BoundedHttpError + unit) \<times> BoundedSseParser" where
  "process_field field v p =
     (if length v > SSE_FIELD_LIMIT \<and> field \<noteq> ''data'' then (Inl BodyTooLarge, p)
      else if \<not> utf8_valid v then (Inl InvalidJson, p)
      else if field = ''data'' then append_data v p
      else if field = ''event'' then (Inr (), p\<lparr>bp_event := (bp_event p)\<lparr>sse_event := Some (parser_scrub p v)\<rparr>\<rparr>)
      else if field = ''id'' \<and> CHR 0x00 \<notin> set v
        then (Inr (), p\<lparr>bp_event := (bp_event p)\<lparr>sse_id := Some (parser_scrub p v)\<rparr>\<rparr>)
      else if field = ''retry'' then set_retry v p
      else (Inr (), p))"

text \<open>A line: what it adds to the queue of events, and the parser after it.\<close>

definition finish_line :: "decoders \<Rightarrow> BoundedSseParser \<Rightarrow> (BoundedHttpError + Sse list) \<times> BoundedSseParser" where
  "finish_line dc p =
     (let line = bp_line p; p1 = p\<lparr>bp_line := []\<rparr>
      in if line = [] then finish_event dc p1
         else let bytes = saturating_add (ps_bytes (bp_event p1)) (length line);
                  p2 = p1\<lparr>bp_event := (bp_event p1)\<lparr>ps_bytes := bytes\<rparr>\<rparr>
              in if bytes > SSE_EVENT_LIMIT then (Inl BodyTooLarge, p2)
                 else case position (\<lambda>c. c = CHR '':'') line of
                        None \<Rightarrow> (Inr [], p2)
                      | Some colon \<Rightarrow>
                          (case process_field (take colon line) (strip_space (drop (colon + 1) line)) p2 of
                             (Inl e, p3) \<Rightarrow> (Inl e, p3)
                           | (Inr _, p3) \<Rightarrow> (Inr [], p3)))"

definition push_byte :: "decoders \<Rightarrow> char \<Rightarrow> BoundedSseParser \<Rightarrow> (BoundedHttpError + Sse list) \<times> BoundedSseParser" where
  "push_byte dc b p =
     (if bp_skip_lf p \<and> b = nl then (Inr [], p\<lparr>bp_skip_lf := False\<rparr>)
      else let p1 = p\<lparr>bp_skip_lf := False\<rparr>
           in if b = CHR 0x0D
              then (case finish_line dc p1 of
                      (Inl e, p2) \<Rightarrow> (Inl e, p2)
                    | (Inr events, p2) \<Rightarrow> (Inr events, p2\<lparr>bp_skip_lf := True\<rparr>))
              else if b = nl then finish_line dc p1
              else if length (bp_line p1) = SSE_LINE_LIMIT then (Inl BodyTooLarge, p1)
              else (Inr [], p1\<lparr>bp_line := bp_line p1 @ [b]\<rparr>))"

fun push_chunk ::
  "decoders \<Rightarrow> string \<Rightarrow> BoundedSseParser \<Rightarrow> Sse list \<Rightarrow> (BoundedHttpError + unit) \<times> BoundedSseParser \<times> Sse list" where
  "push_chunk dc [] p pending = (Inr (), p, pending)"
| "push_chunk dc (b # chunk) p pending =
     (case push_byte dc b p of
        (Inl e, p1) \<Rightarrow> (Inl e, p1, pending)
      | (Inr events, p1) \<Rightarrow> push_chunk dc chunk p1 (pending @ events))"

definition parser_finish :: "BoundedSseParser \<Rightarrow> BoundedHttpError + unit" where
  "parser_finish p = (if bp_line p = [] \<and> PartialSse_is_empty (bp_event p) then Inr () else Inl InvalidJson)"

text \<open>
  The stream of a response: what the chunks of its body yield, and how the body ends. When
  a chunk fails, the error comes first, and then the events of that chunk that came before it.
\<close>

datatype body_end = BodyEof | BodyError BoundedHttpError

fun bounded_sse_stream ::
  "decoders \<Rightarrow> BoundedSseParser \<Rightarrow> string list \<Rightarrow> body_end \<Rightarrow> (BoundedHttpError + Sse) list" where
  "bounded_sse_stream dc p [] body_end =
     (case body_end of
        BodyError e \<Rightarrow> [Inl e]
      | BodyEof \<Rightarrow> (case parser_finish p of Inl e \<Rightarrow> [Inl e] | Inr _ \<Rightarrow> []))"
| "bounded_sse_stream dc p (chunk # chunks) body_end =
     (case push_chunk dc chunk p [] of
        (Inl e, p1, pending) \<Rightarrow> Inl e # map Inr pending
      | (Inr _, p1, pending) \<Rightarrow> map Inr pending @ bounded_sse_stream dc p1 chunks body_end)"

section \<open>Nothing of the secret gets through\<close>

lemma replace_from_None: "str_find needle s = None \<Longrightarrow> replace_from needle new s = s"
  by (simp add: replace_from.simps)

lemma replace_from_Some:
  "needle \<noteq> [] \<Longrightarrow> str_find needle s = Some i \<Longrightarrow>
     replace_from needle new s = take i s @ new @ replace_from needle new (drop (i + length needle) s)"
  by (subst replace_from.simps) simp

text \<open>
  An occurrence that avoids two characters lies before the first, between them, or after the
  second.
\<close>

lemma occurrence_avoiding:
  assumes "xs @ l # ys @ r # zs = a @ needle @ b" and "l \<notin> set needle" and "r \<notin> set needle"
  shows "(\<exists>b'. xs = a @ needle @ b') \<or> (\<exists>a' b'. ys = a' @ needle @ b') \<or> (\<exists>a'. zs = a' @ needle @ b)"
proof -
  have one: "(\<exists>b'. us = a @ needle @ b') \<or> (\<exists>a'. vs = a' @ needle @ b)"
    if "us @ c # vs = a @ needle @ b" "c \<notin> set needle" for us vs a b and c :: 'a
  proof (cases "length us < length a + length needle")
    case True
    have "length us < length a"
    proof (rule ccontr)
      assume "\<not> length us < length a"
      with True have "(a @ needle @ b) ! length us \<in> set needle" by (auto simp: nth_append)
      with that show False by (metis nth_append_length)
    qed
    with that(1) have "\<exists>a'. vs = a' @ needle @ b"
      by (auto simp: append_eq_append_conv2 Cons_eq_append_conv)
    then show ?thesis ..
  next
    case False
    then have "length (a @ needle) \<le> length us" by simp
    with that(1) have "us = (a @ needle) @ drop (length (a @ needle)) us"
      by (metis append_assoc append_eq_append_conv_if append_take_drop_id)
    then show ?thesis by (metis append_assoc)
  qed
  from one [OF assms(1,2)] show ?thesis
  proof
    assume "\<exists>a'. ys @ r # zs = a' @ needle @ b"
    then obtain a' where "ys @ r # zs = a' @ needle @ b" ..
    from one [OF this assms(3)] show ?thesis by blast
  qed blast
qed

definition secret_ok :: "string \<Rightarrow> bool" where
  "secret_ok secret \<longleftrightarrow>
     secret \<noteq> [] \<and> CHR ''<'' \<notin> set secret \<and> CHR ''>'' \<notin> set secret \<and> \<not> (\<exists>a b. ''redacted'' = a @ secret @ b)"

lemma scrub_removes:
  assumes "secret_ok secret"
  shows "scrub secret v \<noteq> a @ secret @ b"
proof -
  have ne: "secret \<noteq> []" using assms by (simp add: secret_ok_def)
  have "replace_from secret redacted v \<noteq> a @ secret @ b" for a
  proof (induction "length v" arbitrary: v a rule: less_induct)
    case less
    show ?case
    proof (cases "str_find secret v")
      case None
      then show ?thesis using str_find_NoneD [OF None] by (simp add: replace_from_None)
    next
      case (Some i)
      let ?rest = "replace_from secret redacted (drop (i + length secret) v)"
      have split: "replace_from secret redacted v = take i v @ CHR ''<'' # ''redacted'' @ CHR ''>'' # ?rest"
        using replace_from_Some [OF ne Some] by (simp add: redacted_def)
      have first: "take i v \<noteq> a' @ secret @ b'" for a' b'
      proof
        assume t: "take i v = a' @ secret @ b'"
        have "v = take i v @ drop i v" by simp
        also have "\<dots> = a' @ secret @ b' @ drop i v" by (simp only: t append_assoc)
        finally have "v = a' @ secret @ b' @ drop i v" .
        from str_find_first [OF Some this] have "i \<le> length a'" .
        moreover have "length a' + length secret \<le> i" using arg_cong [OF t, of length] by simp
        ultimately show False using ne by (cases secret) auto
      qed
      have shorter: "length (drop (i + length secret) v) < length v"
        using str_find_bound [OF Some] ne by (cases secret) auto
      show ?thesis
      proof
        assume "replace_from secret redacted v = a @ secret @ b"
        with split have "take i v @ CHR ''<'' # ''redacted'' @ CHR ''>'' # ?rest = a @ secret @ b" by simp
        from occurrence_avoiding [OF this] assms first less(1) [OF shorter] show False
          unfolding secret_ok_def by blast
      qed
    qed
  qed
  with ne show ?thesis by (simp add: scrub_def str_replace_def)
qed

fun value_strings :: "Value \<Rightarrow> string list" where
  "value_strings (JString v) = [v]"
| "value_strings (JArray vs) = concat (map value_strings vs)"
| "value_strings (JObject kvs) = concat (map (\<lambda>kv. fst kv # value_strings (snd kv)) kvs)"
| "value_strings _ = []"

lemma redacted_clean: "secret_ok secret \<Longrightarrow> redacted \<noteq> a @ secret @ b"
  using occurrence_avoiding [of "[]" "CHR ''<''" "''redacted''" "CHR ''>''" "[]" a secret b]
  by (auto simp: secret_ok_def redacted_def)

lemma scrub_value_removes:
  assumes "secret_ok secret"
  shows "v' \<in> set (value_strings (scrub_value secret v)) \<Longrightarrow> v' \<noteq> a @ secret @ b"
proof (induction v rule: value_strings.induct)
  case (3 kvs)
  from 3(2) obtain kv where "kv \<in> set (btree_of (map (\<lambda>kv. (scrub secret (fst kv), scrub_value secret (snd kv))) kvs))"
    and v': "v' = fst kv \<or> v' \<in> set (value_strings (snd kv))" by auto
  then obtain e where e: "e \<in> set kvs" "kv = (scrub secret (fst e), scrub_value secret (snd e))"
    using btree_of_set by fastforce
  have "scrub secret (fst e) \<noteq> a @ secret @ b" by (rule scrub_removes [OF assms])
  with v' 3(1) [OF e(1)] e(2) show ?case by auto
qed (use scrub_removes [OF assms] redacted_clean [OF assms, of a b] in \<open>auto split: if_splits\<close>)

section \<open>The parser's memory is bounded\<close>

definition parser_ok :: "BoundedSseParser \<Rightarrow> bool" where
  "parser_ok p \<longleftrightarrow>
     length (bp_line p) \<le> SSE_LINE_LIMIT \<and> ps_bytes (bp_event p) \<le> SSE_EVENT_LIMIT
     \<and> (case sse_data (bp_event p) of Some d \<Rightarrow> length d \<le> SSE_DATA_LIMIT | None \<Rightarrow> True)
     \<and> bp_events p \<le> SSE_EVENTS_PER_RESPONSE_LIMIT"

lemma parser_ok_new: "parser_ok (BoundedSseParser_new scrubber notifications dispatch)"
  by (simp add: parser_ok_def BoundedSseParser_new_def PartialSse_default_def)

lemma note_fields [simp]:
  "bp_line (note_initialize m p) = bp_line p" "bp_event (note_initialize m p) = bp_event p"
  "bp_events (note_initialize m p) = bp_events p"
  "bp_line (note_tools_changed m p) = bp_line p" "bp_event (note_tools_changed m p) = bp_event p"
  "bp_events (note_tools_changed m p) = bp_events p"
  "bp_line (note_response m p) = bp_line p" "bp_event (note_response m p) = bp_event p"
  "bp_events (note_response m p) = bp_events p"
  by (simp_all add: note_initialize_def note_tools_changed_def note_response_def Let_def
      split: SseDispatch.split server_message.split option.split)

lemma finish_event_ok:
  assumes "parser_ok p" and "finish_event dc p = (Inr events, p')"
  shows "parser_ok p' \<and> bp_events p' = bp_events p + length events"
  using assms
  by (auto simp: finish_event_def Let_def parser_ok_def PartialSse_default_def split: if_splits option.splits)

lemma saturating_le: "saturating_add a b \<le> c \<Longrightarrow> c < 2 ^ 64 - 1 \<Longrightarrow> a + b \<le> c"
  by (auto simp: saturating_add_def min_def split: if_splits)

lemma process_field_ok:
  assumes "parser_ok p" and "process_field field v p = (Inr (), p')"
  shows "parser_ok p' \<and> bp_events p' = bp_events p"
proof (cases "field = ''data''")
  case True
  have lim: "SSE_DATA_LIMIT < 2 ^ 64 - 1" by (simp add: sse_limit_defs)
  let ?n = "case sse_data (bp_event p) of Some d \<Rightarrow> length d | None \<Rightarrow> 0"
  let ?sep = "if sse_data (bp_event p) = None then 0 else 1 :: nat"
  from assms(2) True have le: "saturating_add (saturating_add ?n ?sep) (length v) \<le> SSE_DATA_LIMIT"
    and p': "p' = p\<lparr>bp_event := (bp_event p)\<lparr>sse_data := Some
        ((let d = (case sse_data (bp_event p) of Some d \<Rightarrow> d | None \<Rightarrow> []) in if d = [] then d else d @ [nl]) @ v)\<rparr>\<rparr>"
    by (auto simp: process_field_def append_data_def Let_def split: if_splits)
  have "saturating_add ?n ?sep + length v \<le> SSE_DATA_LIMIT" by (rule saturating_le [OF le lim])
  moreover from this have "?n + ?sep \<le> SSE_DATA_LIMIT" by (intro saturating_le [OF _ lim]) simp
  ultimately have "?n + ?sep + length v \<le> SSE_DATA_LIMIT" using lim
    by (simp add: saturating_add_def min_def split: if_splits)
  with assms(1) show ?thesis by (auto simp: p' parser_ok_def Let_def split: option.splits)
next
  case False
  with assms show ?thesis
    by (auto simp: process_field_def set_retry_def parser_ok_def split: if_splits option.splits)
qed

lemma finish_line_ok:
  assumes "parser_ok p" and "finish_line dc p = (Inr events, p')"
  shows "parser_ok p' \<and> bp_events p' = bp_events p + length events"
proof (cases "bp_line p = []")
  case True
  with assms finish_event_ok [of "p\<lparr>bp_line := []\<rparr>" dc events p'] show ?thesis
    by (simp add: finish_line_def Let_def parser_ok_def)
next
  case False
  let ?bytes = "saturating_add (ps_bytes (bp_event p)) (length (bp_line p))"
  let ?p = "p\<lparr>bp_line := [], bp_event := (bp_event p)\<lparr>ps_bytes := ?bytes\<rparr>\<rparr>"
  from assms(2) False have le: "?bytes \<le> SSE_EVENT_LIMIT" and cases: "p' = ?p \<and> events = []
      \<or> (\<exists>field v. process_field field v ?p = (Inr (), p') \<and> events = [])"
    by (auto simp: finish_line_def Let_def not_less split: if_splits option.splits sum.splits prod.splits)
  have "parser_ok ?p" using assms(1) le by (simp add: parser_ok_def)
  with cases process_field_ok [of ?p _ _ p'] show ?thesis by auto
qed

lemma push_byte_ok:
  assumes "parser_ok p" and "push_byte dc b p = (Inr events, p')"
  shows "parser_ok p' \<and> bp_events p' = bp_events p + length events"
proof -
  let ?p = "p\<lparr>bp_skip_lf := False\<rparr>"
  have ok: "parser_ok ?p" using assms(1) by (simp add: parser_ok_def)
  consider "p' = ?p \<and> events = []"
    | q where "finish_line dc ?p = (Inr events, q)" "p' = q \<or> p' = q\<lparr>bp_skip_lf := True\<rparr>"
    | "length (bp_line p) < SSE_LINE_LIMIT" "p' = ?p\<lparr>bp_line := bp_line p @ [b]\<rparr>" "events = []"
    using assms ok
    by (auto simp: push_byte_def Let_def parser_ok_def split: if_splits sum.splits prod.splits)
  then show ?thesis
  proof cases
    case 1
    with ok show ?thesis by simp
  next
    case 2
    with finish_line_ok [OF ok 2(1)] show ?thesis by (auto simp: parser_ok_def)
  next
    case 3
    with assms(1) show ?thesis by (simp add: parser_ok_def)
  qed
qed

lemma push_chunk_ok:
  "push_chunk dc chunk p pending = (Inr (), p', pending') \<Longrightarrow> parser_ok p \<Longrightarrow>
     parser_ok p' \<and> bp_events p' + length pending = bp_events p + length pending'"
proof (induction dc chunk p pending rule: push_chunk.induct)
  case (2 dc b chunk p pending)
  from 2(2) obtain events p1 where b: "push_byte dc b p = (Inr events, p1)"
    "push_chunk dc chunk p1 (pending @ events) = (Inr (), p', pending')" by (auto split: prod.splits sum.splits)
  from push_byte_ok [OF 2(3) b(1)] 2(1) [OF b(1) [symmetric] refl b(2)] show ?case by auto
qed simp

lemma push_chunk_append:
  "push_chunk dc (xs @ ys) p pending =
     (case push_chunk dc xs p pending of
        (Inl e, r) \<Rightarrow> (Inl e, r)
      | (Inr _, p1, pending1) \<Rightarrow> push_chunk dc ys p1 pending1)"
  by (induction dc xs p pending rule: push_chunk.induct) (auto split: sum.split prod.split)

lemma push_chunk_pending:
  "push_chunk dc xs p (pre @ pending) =
     (case push_chunk dc xs p pending of (r, p1, out) \<Rightarrow> (r, p1, pre @ out))"
  by (induction dc xs p pending rule: push_chunk.induct) (auto split: sum.split prod.split)

section \<open>Chunks\<close>

text \<open>The events and the errors of a stream's items.\<close>

fun stream_event :: "BoundedHttpError + Sse \<Rightarrow> Sse option" where
  "stream_event (Inl e) = None"
| "stream_event (Inr ev) = Some ev"

fun stream_error :: "BoundedHttpError + Sse \<Rightarrow> BoundedHttpError option" where
  "stream_error (Inl e) = Some e"
| "stream_error (Inr ev) = None"

lemma stream_parts [simp]:
  "List.map_filter stream_event (Inl e # xs) = List.map_filter stream_event xs"
  "List.map_filter stream_event (map Inr evs @ xs) = evs @ List.map_filter stream_event xs"
  "List.map_filter stream_event (map Inr evs) = evs"
  "List.map_filter stream_error (Inl e # xs) = e # List.map_filter stream_error xs"
  "List.map_filter stream_error (map Inr evs @ xs) = List.map_filter stream_error xs"
  "List.map_filter stream_error (map Inr evs) = []"
  by (simp_all add: List.map_filter_def o_def)

lemma stream_concat:
  "List.map_filter stream_event (bounded_sse_stream dc p chunks body_end)
     = List.map_filter stream_event (bounded_sse_stream dc p [concat chunks] body_end)
   \<and> List.map_filter stream_error (bounded_sse_stream dc p chunks body_end)
     = List.map_filter stream_error (bounded_sse_stream dc p [concat chunks] body_end)"
proof (induction chunks arbitrary: p)
  case (Cons chunk chunks)
  obtain r p1 out where c: "push_chunk dc chunk p [] = (r, p1, out)" by (metis prod_cases3)
  show ?case
  proof (cases r)
    case (Inl e)
    with c show ?thesis by (simp add: push_chunk_append)
  next
    case (Inr u)
    obtain r2 p2 out2 where c2: "push_chunk dc (concat chunks) p1 [] = (r2, p2, out2)" by (metis prod_cases3)
    have "push_chunk dc (concat chunks) p1 out = (r2, p2, out @ out2)"
      using push_chunk_pending [of dc "concat chunks" p1 out "[]"] c2 by simp
    with c Inr c2 Cons [of p1] show ?thesis
      by (cases r2) (simp_all add: push_chunk_append)
  qed
qed simp

lemma stream_no_error:
  assumes "List.map_filter stream_error xs = []"
  shows "xs = map Inr (List.map_filter stream_event xs)"
  using assms
proof (induction xs)
  case (Cons x xs) then show ?case by (cases x) (simp_all add: List.map_filter_simps)
qed simp

end
