(* ===== verification/Store_Query.thy ===== *)
theory Store_Query
  imports Prelude
begin

text \<open>
  The recursive queries of the Postgres store (\<open>agent-store/src/postgres\<close>): how the database
  evaluates them, the two forms in which the store walks from an entry to the root of its branch,
  and that both end on every finite table.
\<close>

section \<open>Recursive queries\<close>

text \<open>
  A recursive query starts with the rows of its first term and adds, round after round, what its
  second term makes of the rows of the round before. In the store's queries the second term joins
  on a primary key, so it makes at most one row of each: it is the function \<open>step\<close>. With
  \<^verbatim>\<open>union\<close> a row that was already found is dropped, with \<^verbatim>\<open>union all\<close> it is kept, and the
  query may then run forever.
\<close>

partial_function (option) union_rounds :: "('a \<Rightarrow> 'a option) \<Rightarrow> 'a list \<Rightarrow> 'a list \<Rightarrow> 'a list option" where
  "union_rounds step result working =
     (if working = [] then Some result
      else
        let fresh = remdups (filter (\<lambda>row. row \<notin> set result) (List.map_filter step working))
        in union_rounds step (result @ fresh) fresh)"

declare union_rounds.simps [code]

definition recursive_union :: "('a \<Rightarrow> 'a option) \<Rightarrow> 'a list \<Rightarrow> 'a list option" where
  "recursive_union step start = union_rounds step (remdups start) (remdups start)"

partial_function (option) union_all_rounds :: "('a \<Rightarrow> 'a option) \<Rightarrow> 'a list \<Rightarrow> 'a list \<Rightarrow> 'a list option" where
  "union_all_rounds step result working =
     (if working = [] then Some result
      else
        let found = List.map_filter step working
        in union_all_rounds step (result @ found) found)"

declare union_all_rounds.simps [code]

definition recursive_union_all :: "('a \<Rightarrow> 'a option) \<Rightarrow> 'a list \<Rightarrow> 'a list option" where
  "recursive_union_all step start = union_all_rounds step start start"

section \<open>Trails\<close>

text \<open>The rows from a row to the end of its chain; there is no trail when the chain is a cycle.\<close>

inductive trail :: "('a \<Rightarrow> 'a option) \<Rightarrow> 'a \<Rightarrow> 'a list \<Rightarrow> bool" for step where
  trail_end: "step x = None \<Longrightarrow> trail step x [x]"
| trail_step: "step x = Some y \<Longrightarrow> trail step y ys \<Longrightarrow> trail step x (x # ys)"

inductive_simps trail_iff_step: "trail step x ys"

lemma trail_unique: "trail step x ys \<Longrightarrow> trail step x zs \<Longrightarrow> ys = zs"
proof (induction arbitrary: zs rule: trail.induct)
  case (trail_end x)
  then show ?case by (simp add: trail_iff_step [of step x zs])
next
  case (trail_step x y ys)
  from trail_step.prems trail_step.hyps(1) obtain us where "zs = x # us" "trail step y us"
    unfolding trail_iff_step [of step x zs] by fastforce
  with trail_step.IH [of us] show ?case by simp
qed

lemma trail_head: "trail step x ys \<Longrightarrow> \<exists>zs. ys = x # zs"
  unfolding trail_iff_step [of step x ys] by blast

lemma trail_last: "trail step x ys \<Longrightarrow> step (last ys) = None"
proof (induction rule: trail.induct)
  case (trail_step x y ys)
  then show ?case using trail_head [of step y ys] by auto
qed simp

abbreviation follows :: "('a \<Rightarrow> 'a option) \<Rightarrow> ('a \<times> 'a) set" where
  "follows step \<equiv> {(a, b). step a = Some b}"

lemma trail_reaches: "trail step x ys \<Longrightarrow> y \<in> set ys \<Longrightarrow> (x, y) \<in> (follows step)\<^sup>*"
proof (induction rule: trail.induct)
  case (trail_step x z ys)
  then show ?case by (auto intro: converse_rtrancl_into_rtrancl)
qed simp

lemma reaches_end_trail:
  assumes "(x, y) \<in> (follows step)\<^sup>*" and "step y = None"
  shows "\<exists>ys. trail step x ys"
  using assms by (induction rule: converse_rtrancl_induct) (auto intro: trail.intros)

lemma trail_iff: "(\<exists>ys. trail step x ys) \<longleftrightarrow> (\<exists>y. (x, y) \<in> (follows step)\<^sup>* \<and> step y = None)"
  using reaches_end_trail trail_reaches trail_last trail_head by (metis last_in_set list.distinct(1))

text \<open>The chain counted in steps.\<close>

primrec steps :: "('a \<Rightarrow> 'a option) \<Rightarrow> nat \<Rightarrow> 'a \<Rightarrow> 'a option" where
  "steps step 0 x = Some x"
| "steps step (Suc n) x = Option.bind (steps step n x) step"

lemma steps_reaches: "steps step n x = Some y \<Longrightarrow> (x, y) \<in> (follows step)\<^sup>*"
proof (induction n arbitrary: y)
  case (Suc n)
  then show ?case by (auto simp: bind_eq_Some_conv intro: rtrancl_into_rtrancl)
qed simp

lemma steps_ends_trail: "steps step n x = None \<Longrightarrow> \<exists>ys. trail step x ys"
proof (induction n)
  case (Suc n)
  then show ?case
  proof (cases "steps step n x")
    case (Some y)
    with Suc.prems have "step y = None" by simp
    with steps_reaches [OF Some] show ?thesis by (rule reaches_end_trail)
  qed auto
qed simp

lemma trail_endless: "\<nexists>ys. trail step x ys \<Longrightarrow> \<exists>y. steps step n x = Some y"
  using steps_ends_trail by fastforce

section \<open>When the queries end\<close>

lemma map_filter_single [simp]: "List.map_filter f [x] = (case f x of None \<Rightarrow> [] | Some y \<Rightarrow> [y])"
  by (auto simp: map_filter_def split: option.splits)

lemma union_all_trail:
  "trail step x ys \<Longrightarrow> union_all_rounds step acc [x] = Some (acc @ tl ys)"
proof (induction arbitrary: acc rule: trail.induct)
  case (trail_end x)
  then show ?case by (simp add: union_all_rounds.simps)
next
  case (trail_step x y ys)
  obtain zs where "ys = y # zs" using trail_head [OF trail_step.hyps(2)] by blast
  with trail_step show ?case by (subst union_all_rounds.simps) simp
qed

lemma recursive_union_all_trail: "trail step x ys \<Longrightarrow> recursive_union_all step [x] = Some ys"
  using union_all_trail [of step x ys "[x]"] trail_head [of step x ys] by (auto simp: recursive_union_all_def)

lemma recursive_Nil [simp]: "recursive_union step [] = Some []" "recursive_union_all step [] = Some []"
  by (simp_all add: recursive_union_def recursive_union_all_def union_rounds.simps union_all_rounds.simps)

lemma reach_trans: "A \<subseteq> r\<^sup>* `` B \<Longrightarrow> r\<^sup>* `` A \<subseteq> r\<^sup>* `` B"
  by (meson Image_iff rtrancl_trans subset_iff)

lemma union_rounds_end:
  assumes "finite U" and "set result \<subseteq> U" and "set working \<subseteq> set result" and "\<And>x y. x \<in> U \<Longrightarrow> step x = Some y \<Longrightarrow> y \<in> U"
    and "\<And>x y. x \<in> set result - set working \<Longrightarrow> step x = Some y \<Longrightarrow> y \<in> set result"
  shows "\<exists>found. union_rounds step result working = Some found \<and> set result \<subseteq> set found
    \<and> (\<forall>x y. x \<in> set found \<longrightarrow> step x = Some y \<longrightarrow> y \<in> set found)
    \<and> set found \<subseteq> (follows step)\<^sup>* `` set result"
  using assms
proof (induction "card (U - set result)" arbitrary: result working rule: less_induct)
  case less
  let ?fresh = "remdups (filter (\<lambda>row. row \<notin> set result) (List.map_filter step working))"
  have set_fresh: "set ?fresh = {y. y \<notin> set result \<and> (\<exists>x \<in> set working. step x = Some y)}"
    by (force simp: map_filter_def)
  show ?case
  proof (cases "?fresh = []")
    case True
    then have none: "\<And>x y. x \<in> set working \<Longrightarrow> step x = Some y \<Longrightarrow> y \<in> set result"
      using set_fresh by fastforce
    have "union_rounds step result working = Some result"
      by (subst union_rounds.simps) (simp add: True [simplified] union_rounds.simps Let_def True)
    moreover have "\<And>x y. x \<in> set result \<Longrightarrow> step x = Some y \<Longrightarrow> y \<in> set result"
      using none less.prems(5) by blast
    ultimately show ?thesis by blast
  next
    case False
    have sub: "set (result @ ?fresh) \<subseteq> U" using less.prems(2,3,4) set_fresh by auto
    obtain z where z: "z \<in> set ?fresh" using False by fastforce
    then have "z \<in> U - set result" "z \<notin> U - set (result @ ?fresh)" using set_fresh sub by auto
    then have "card (U - set (result @ ?fresh)) < card (U - set result)"
      using less.prems(1) by (intro psubset_card_mono) auto
    moreover have "\<And>x y. x \<in> set (result @ ?fresh) - set ?fresh \<Longrightarrow> step x = Some y \<Longrightarrow> y \<in> set (result @ ?fresh)"
      using less.prems(5) set_fresh by auto
    ultimately obtain found where found: "union_rounds step (result @ ?fresh) ?fresh = Some found"
      "set (result @ ?fresh) \<subseteq> set found" "\<forall>x y. x \<in> set found \<longrightarrow> step x = Some y \<longrightarrow> y \<in> set found"
      "set found \<subseteq> (follows step)\<^sup>* `` set (result @ ?fresh)"
      using less.hyps [of "result @ ?fresh" ?fresh] less.prems(1,4) sub by auto
    have "working \<noteq> []" using False by auto
    then have "union_rounds step result working = Some found"
      using found(1) by (subst union_rounds.simps) (simp add: Let_def)
    moreover have "set (result @ ?fresh) \<subseteq> (follows step)\<^sup>* `` set result"
      using set_fresh less.prems(3) by auto
    from reach_trans [OF this] have "set found \<subseteq> (follows step)\<^sup>* `` set result"
      using found(4) by (rule order_trans [rotated])
    moreover have "set result \<subseteq> set found" using found(2) by simp
    ultimately show ?thesis using found(3) by blast
  qed
qed

section \<open>Walks to the root\<close>

text \<open>
  The store reads a branch with two recursive queries. The first finds the rows that can be
  reached, without repetition. When every one of them has a successor the chain is a cycle, and
  the second query, which numbers the rows of the branch by their depth, stops at its first row.
\<close>

definition ancestry_invalid :: "('a \<Rightarrow> 'a option) \<Rightarrow> 'a list \<Rightarrow> bool" where
  "ancestry_invalid step reachable \<longleftrightarrow> reachable \<noteq> [] \<and> list_all (\<lambda>row. step row \<noteq> None) reachable"

definition ancestry_path :: "('a \<Rightarrow> 'a option) \<Rightarrow> 'a list \<Rightarrow> (bool \<times> ('a \<times> nat) list) option" where
  "ancestry_path step start =
     Option.bind (recursive_union step start) (\<lambda>reachable.
       let invalid = ancestry_invalid step reachable
       in map_option (Pair invalid)
            (recursive_union_all
              (\<lambda>(child, depth). if invalid then None else map_option (\<lambda>parent. (parent, depth + 1)) (step child))
              (map (\<lambda>row. (row, 0)) start)))"

lemma numbered_trail:
  "trail step x ys \<Longrightarrow>
     trail (\<lambda>(child, depth). map_option (\<lambda>parent. (parent, depth + 1)) (step child)) (x, d) (zip ys [d..<d + length ys])"
proof (induction arbitrary: d rule: trail.induct)
  case (trail_end x)
  then show ?case by (auto intro: trail.trail_end)
next
  case (trail_step x y ys)
  have "zip (x # ys) [d..<d + length (x # ys)] = (x, d) # zip ys [Suc d..<Suc d + length ys]"
    by (simp add: upt_conv_Cons del: upt_Suc)
  with trail_step trail_step.IH [of "Suc d"] show ?case by (auto intro: trail.trail_step)
qed

text \<open>A finite table in which a step leads from row to row.\<close>

definition finite_table :: "'a set \<Rightarrow> ('a \<Rightarrow> 'a option) \<Rightarrow> bool" where
  "finite_table U step \<longleftrightarrow> finite U \<and> (\<forall>a \<in> U. \<forall>b. step a = Some b \<longrightarrow> b \<in> U)"

lemma finite_reachable:
  assumes "finite_table U step" and "x \<in> U"
  shows "\<exists>found. recursive_union step [x] = Some found \<and> set found = (follows step)\<^sup>* `` {x}"
proof -
  obtain found where f: "union_rounds step [x] [x] = Some found" "x \<in> set found"
    "\<forall>a b. a \<in> set found \<longrightarrow> step a = Some b \<longrightarrow> b \<in> set found" "set found \<subseteq> (follows step)\<^sup>* `` {x}"
    using union_rounds_end [of U "[x]" "[x]" step] assms by (auto simp: finite_table_def)
  have "(x, y) \<in> (follows step)\<^sup>* \<Longrightarrow> y \<in> set found" for y
    by (induction rule: rtrancl_induct) (use f in auto)
  with f show ?thesis by (auto simp: recursive_union_def)
qed

text \<open>
  On a finite table the walk always ends. It gives the trail with its depths, or it reports that
  there is none.
\<close>

lemma ancestry_path_one:
  assumes "finite_table U step" and "x \<in> U"
  shows "trail step x ys \<Longrightarrow> ancestry_path step [x] = Some (False, zip ys [0..<length ys])"
    and "\<nexists>ys. trail step x ys \<Longrightarrow> ancestry_path step [x] = Some (True, [(x, 0)])"
proof -
  obtain found where f: "recursive_union step [x] = Some found" "set found = (follows step)\<^sup>* `` {x}"
    using finite_reachable [OF assms] by blast
  then have "x \<in> set found" by auto
  then have ne: "found \<noteq> []" by auto
  have bad: "ancestry_invalid step found \<longleftrightarrow> (\<nexists>ys. trail step x ys)"
    using f(2) ne unfolding ancestry_invalid_def trail_iff list_all_iff by auto
  show "ancestry_path step [x] = Some (False, zip ys [0..<length ys])" if "trail step x ys"
  proof -
    have "\<not> ancestry_invalid step found" using bad that by blast
    then show ?thesis using recursive_union_all_trail [OF numbered_trail [OF that, of 0]] f(1)
      by (simp add: ancestry_path_def)
  qed
  show "ancestry_path step [x] = Some (True, [(x, 0)])" if "\<nexists>ys. trail step x ys"
  proof -
    have "ancestry_invalid step found" using bad that by blast
    then show ?thesis using recursive_union_all_trail [OF trail.trail_end, of "\<lambda>_. None" "(x, 0)"] f(1)
      by (simp add: ancestry_path_def case_prod_unfold)
  qed
qed

lemma ancestry_path_Nil [simp]: "ancestry_path step [] = Some (False, [])"
  by (simp add: ancestry_path_def ancestry_invalid_def)

section \<open>A walk that looks for cycles on the way\<close>

text \<open>
  The query of turn cards finds a cycle while it walks: it compares each row with an anchor that
  it moves to the current row after 1, 2, 4, ... steps, so that it needs no table of visited rows.
\<close>

record ('a, 'id) walk_row =
  wr_row :: 'a
  wr_depth :: nat
  wr_boundary_count :: nat
  wr_cycle_anchor_id :: 'id
  wr_cycle_power :: nat
  wr_cycle_length :: nat
  wr_ancestry_invalid :: bool

definition walk_start :: "('a \<Rightarrow> 'id) \<Rightarrow> ('a \<Rightarrow> bool) \<Rightarrow> 'a \<Rightarrow> ('a, 'id) walk_row" where
  "walk_start ident boundary x =
     \<lparr>wr_row = x, wr_depth = 0, wr_boundary_count = (if boundary x then 1 else 0), wr_cycle_anchor_id = ident x,
      wr_cycle_power = 1, wr_cycle_length = 0, wr_ancestry_invalid = False\<rparr>"

definition walk_step ::
  "('a \<Rightarrow> 'id) \<Rightarrow> ('a \<Rightarrow> bool) \<Rightarrow> ('a \<Rightarrow> 'a option) \<Rightarrow> nat \<Rightarrow> ('a, 'id) walk_row \<Rightarrow> ('a, 'id) walk_row option" where
  "walk_step ident boundary step limit child =
     (if wr_boundary_count child < limit \<and> \<not> wr_ancestry_invalid child
      then map_option (\<lambda>parent.
          let moved = wr_cycle_power child = wr_cycle_length child;
              anchor_id = (if moved then ident (wr_row child) else wr_cycle_anchor_id child)
          in \<lparr>wr_row = parent, wr_depth = wr_depth child + 1,
              wr_boundary_count = wr_boundary_count child + (if boundary parent then 1 else 0),
              wr_cycle_anchor_id = anchor_id,
              wr_cycle_power = (if moved then wr_cycle_power child * 2 else wr_cycle_power child),
              wr_cycle_length = (if moved then 1 else wr_cycle_length child + 1),
              wr_ancestry_invalid = (ident parent = anchor_id)\<rparr>)
        (step (wr_row child))
      else None)"

text \<open>Where the anchor is after \<open>n\<close> steps.\<close>

definition walk_inv :: "('a \<Rightarrow> 'id) \<Rightarrow> ('a \<Rightarrow> 'a option) \<Rightarrow> 'a \<Rightarrow> nat \<Rightarrow> ('a, 'id) walk_row \<Rightarrow> bool" where
  "walk_inv ident step x n w \<longleftrightarrow> steps step n x = Some (wr_row w) \<and> wr_depth w = n
     \<and> (\<exists>k a. wr_cycle_power w = 2 ^ k \<and> Suc n = 2 ^ k + wr_cycle_length w \<and> wr_cycle_length w \<le> 2 ^ k
          \<and> (0 < n \<longrightarrow> 0 < wr_cycle_length w)
          \<and> steps step (2 ^ k - 1) x = Some a \<and> wr_cycle_anchor_id w = ident a)
     \<and> (wr_ancestry_invalid w \<longleftrightarrow> 0 < n \<and> ident (wr_row w) = wr_cycle_anchor_id w)"

lemma walk_inv_start: "walk_inv ident step x 0 (walk_start ident boundary x)"
  unfolding walk_inv_def walk_start_def by (auto intro!: exI [of _ 0])

lemma walk_inv_step:
  assumes "walk_inv ident step x n w" and "walk_step ident boundary step limit w = Some w'"
  shows "walk_inv ident step x (Suc n) w'"
proof -
  obtain k a where w: "steps step n x = Some (wr_row w)" "wr_depth w = n" "wr_cycle_power w = 2 ^ k"
    "Suc n = 2 ^ k + wr_cycle_length w" "wr_cycle_length w \<le> 2 ^ k" "steps step (2 ^ k - 1) x = Some a"
    "wr_cycle_anchor_id w = ident a"
    using assms(1) unfolding walk_inv_def by blast
  from assms(2) obtain parent where p: "step (wr_row w) = Some parent"
    by (auto simp: walk_step_def split: if_splits)
  have s: "steps step (Suc n) x = Some parent" using w(1) p by simp
  have w': "wr_row w' = parent" "wr_depth w' = Suc n" "wr_ancestry_invalid w' \<longleftrightarrow> ident parent = wr_cycle_anchor_id w'"
    using assms(2) p w(2) by (auto simp: walk_step_def Let_def split: if_splits)
  show ?thesis
  proof (cases "2 ^ k = wr_cycle_length w")
    case True
    then have n: "n = 2 ^ Suc k - 1" using w(4) by simp
    have "wr_cycle_power w' = 2 ^ Suc k" "wr_cycle_length w' = 1" "wr_cycle_anchor_id w' = ident (wr_row w)"
      using assms(2) p w(3) True by (auto simp: walk_step_def Let_def split: if_splits)
    then show ?thesis using s w' n w(1) unfolding walk_inv_def
      by (intro conjI exI [of _ "Suc k"] exI [of _ "wr_row w"]) simp_all
  next
    case False
    have "wr_cycle_power w' = 2 ^ k" "wr_cycle_length w' = Suc (wr_cycle_length w)" "wr_cycle_anchor_id w' = ident a"
      using assms(2) p w(3,7) False by (auto simp: walk_step_def Let_def split: if_splits)
    then show ?thesis using s w' w(4,5,6) False unfolding walk_inv_def
      by (intro conjI exI [of _ k] exI [of _ a]) simp_all
  qed
qed

lemma walk_inv_steps:
  "steps (walk_step ident boundary step limit) n (walk_start ident boundary x) = Some w \<Longrightarrow> walk_inv ident step x n w"
proof (induction n arbitrary: w)
  case 0
  then show ?case by (auto simp: walk_inv_start)
next
  case (Suc n)
  then show ?case by (auto simp: bind_eq_Some_conv intro: walk_inv_step)
qed

lemma steps_add: "steps step (m + n) x = Option.bind (steps step m x) (steps step n)"
proof (induction n)
  case 0
  then show ?case by (cases "steps step m x") auto
next
  case (Suc n)
  then show ?case by (cases "steps step m x") auto
qed

lemma steps_repeat:
  assumes "finite_table U step" and "x \<in> U" and "\<And>n. steps step n x \<noteq> None"
  shows "\<exists>i d. 0 < d \<and> (\<forall>n \<ge> i. steps step (n + d) x = steps step n x)"
proof -
  have "the (steps step n x) \<in> U" for n
  proof (induction n)
    case (Suc n)
    obtain y z where "steps step n x = Some y" "step y = Some z"
      using assms(3) [of n] assms(3) [of "Suc n"] by (cases "steps step n x"; auto)
    with Suc assms(1) show ?case by (auto simp: finite_table_def)
  qed (use assms(2) in simp)
  then have "finite (range (\<lambda>n. the (steps step n x)))" using assms(1) unfolding finite_table_def by (meson finite_subset image_subset_iff)
  then obtain i j where "the (steps step i x) = the (steps step j x)" "i \<noteq> j"
    using finite_imageD [of "\<lambda>n. the (steps step n x)" UNIV] by (auto simp: inj_on_def)
  then obtain i j where ij: "steps step i x = steps step j x" "i < j"
    using assms(3) by (metis linorder_neqE_nat option.expand)
  have "steps step (n + (j - i)) x = steps step n x" if "i \<le> n" for n
    using steps_add [of step j "n - i" x] steps_add [of step i "n - i" x] ij that by (simp add: add.commute)
  with ij(2) show ?thesis by (meson zero_less_diff)
qed

lemma pow2_unique:
  fixes n k l :: nat
  assumes "2 ^ k \<le> n" "n < 2 ^ Suc k" "2 ^ l \<le> n" "n < 2 ^ Suc l"
  shows "k = l"
proof (rule ccontr)
  assume "k \<noteq> l"
  then consider "Suc k \<le> l" | "Suc l \<le> k" by linarith
  then show False
  proof cases
    case 1
    then have "(2::nat) ^ Suc k \<le> 2 ^ l" by (rule power_increasing) simp
    with assms show False by linarith
  next
    case 2
    then have "(2::nat) ^ Suc l \<le> 2 ^ k" by (rule power_increasing) simp
    with assms show False by linarith
  qed
qed

text \<open>The walk ends on every finite table, whatever its limit.\<close>

lemma walk_ends:
  assumes "finite_table U step" and "x \<in> U"
  shows "\<exists>ws. trail (walk_step ident boundary step limit) (walk_start ident boundary x) ws"
proof (rule ccontr)
  let ?w = "\<lambda>n. steps (walk_step ident boundary step limit) n (walk_start ident boundary x)"
  assume "\<not> ?thesis"
  then have all: "\<exists>w. ?w n = Some w" for n by (rule trail_endless)
  then have "steps step n x \<noteq> None" for n using walk_inv_steps unfolding walk_inv_def by (metis option.distinct(1))
  from steps_repeat [OF assms this] obtain i d where d: "0 < d" "\<And>n. i \<le> n \<Longrightarrow> steps step (n + d) x = steps step n x"
    by blast
  define k where "k = i + d"
  have big: "i \<le> 2 ^ k - 1" "d \<le> 2 ^ k" using less_exp [of k] unfolding k_def by linarith+
  define n where "n = 2 ^ k - 1 + d"
  have pos: "0 < n" using d(1) unfolding n_def by linarith
  obtain w where w: "?w n = Some w" using all by blast
  then have inv: "walk_inv ident step x n w" by (rule walk_inv_steps)
  then obtain l a where l: "Suc n = 2 ^ l + wr_cycle_length w" "wr_cycle_length w \<le> 2 ^ l" "0 < wr_cycle_length w"
    "steps step (2 ^ l - 1) x = Some a" "wr_cycle_anchor_id w = ident a"
    using pos unfolding walk_inv_def by blast
  have "Suc n = 2 ^ k + d" using big by (simp add: n_def)
  then have "k = l" using l(1-3) d(1) big(2) by (intro pow2_unique [of k n]) auto
  then have "steps step n x = Some a" using d(2) [OF big(1)] l(4) by (simp add: n_def)
  then have "wr_ancestry_invalid w" using inv l(5) pos unfolding walk_inv_def by simp
  then have "?w (Suc n) = None" using w by (simp add: walk_step_def)
  with all show False by (metis option.distinct(1))
qed

lemma steps_None_mono: "steps step m x = None \<Longrightarrow> m \<le> n \<Longrightarrow> steps step n x = None"
  using steps_add [of step m "n - m" x] by simp

lemma trail_steps: "trail step x ys \<Longrightarrow> steps step (length ys) x = None"
proof (induction rule: trail.induct)
  case (trail_step x y ys)
  then show ?case using steps_add [of step 1 "length ys" x] by simp
qed simp

lemma trail_nth: "trail step x ys \<Longrightarrow> i < length ys \<Longrightarrow> steps step i x = Some (ys ! i)"
proof (induction arbitrary: i rule: trail.induct)
  case (trail_step x y ys)
  then show ?case
  proof (cases i)
    case (Suc j)
    with trail_step show ?thesis using steps_add [of step 1 j x] by simp
  qed simp
qed simp

lemma repeated_no_trail:
  assumes "steps step m x = Some y" and "steps step n x = Some y" and "m < n"
  shows "\<nexists>ys. trail step x ys"
proof
  assume "\<exists>ys. trail step x ys"
  then obtain ys where ys: "trail step x ys" by blast
  have again: "steps step (n - m) y = Some y" using steps_add [of step m "n - m" x] assms by simp
  have "steps step (m + k * (n - m)) x = Some y" for k
  proof (induction k)
    case (Suc k)
    then show ?case using steps_add [of step "m + k * (n - m)" "n - m" x] again by (simp add: ac_simps)
  qed (simp add: assms(1))
  moreover have "length ys \<le> m + length ys * (n - m)" using mult_le_mono2 [of 1 "n - m" "length ys"] assms(3) by linarith
  ultimately show False using steps_None_mono [OF trail_steps [OF ys]] by fastforce
qed

text \<open>What the walk delivers: the rows of the chain with their depths, the last of them possibly a repetition.\<close>

lemma walk_trail_nth:
  assumes "trail (walk_step ident boundary step limit) (walk_start ident boundary x) ws" and "i < length ws"
  shows "walk_inv ident step x i (ws ! i)"
  using trail_nth [OF assms] by (rule walk_inv_steps)

lemma walk_invalid_no_trail:
  assumes "trail (walk_step ident boundary step limit) (walk_start ident boundary x) ws" and "w \<in> set ws"
    and "wr_ancestry_invalid w" and "\<And>a b. ident a = ident b \<Longrightarrow> (x, a) \<in> (follows step)\<^sup>* \<Longrightarrow> (x, b) \<in> (follows step)\<^sup>* \<Longrightarrow> a = b"
  shows "\<nexists>ys. trail step x ys"
proof -
  obtain i where i: "i < length ws" "w = ws ! i" using assms(2) by (metis in_set_conv_nth)
  with walk_trail_nth [OF assms(1) i(1)] assms(3) obtain k a where
    w: "steps step i x = Some (wr_row w)" "0 < i" "Suc i = 2 ^ k + wr_cycle_length w" "0 < wr_cycle_length w"
      "steps step (2 ^ k - 1) x = Some a" "wr_cycle_anchor_id w = ident a" "ident (wr_row w) = wr_cycle_anchor_id w"
    unfolding walk_inv_def by auto
  then have "a = wr_row w" using assms(4) steps_reaches by metis
  moreover have "(0::nat) < 2 ^ k" by simp
  then have "2 ^ k - 1 < i" using w(3,4) by linarith
  ultimately show ?thesis using repeated_no_trail [of step "2 ^ k - 1" x a i] w(1,5) by simp
qed

lemma walk_boundaries:
  "steps (walk_step ident boundary step limit) n (walk_start ident boundary x) = Some w \<Longrightarrow>
     steps (walk_step ident boundary step limit) (Suc n) (walk_start ident boundary x) = Some w' \<Longrightarrow>
     \<not> wr_ancestry_invalid w \<and> wr_boundary_count w < limit
       \<and> wr_boundary_count w' = wr_boundary_count w + (if boundary (wr_row w') then 1 else 0)
       \<and> step (wr_row w) = Some (wr_row w')"
  by (auto simp: walk_step_def Let_def split: if_splits)

lemma walk_trail_inner:
  assumes "trail (walk_step ident boundary step limit) (walk_start ident boundary x) ws" and "Suc i < length ws"
  shows "\<not> wr_ancestry_invalid (ws ! i) \<and> wr_boundary_count (ws ! i) < limit
    \<and> wr_boundary_count (ws ! Suc i) = wr_boundary_count (ws ! i) + (if boundary (wr_row (ws ! Suc i)) then 1 else 0)
    \<and> step (wr_row (ws ! i)) = Some (wr_row (ws ! Suc i))"
  by (rule walk_boundaries [OF trail_nth [OF assms(1)] trail_nth [OF assms]]) (use assms(2) in simp)

end
