(* ===== verification/Task_Registry.thy ===== *)
theory Task_Registry
  imports Vocab
begin

text \<open>
  The daemon's registry of running tasks (\<open>agent-daemon/src/runtime/tasks.rs\<close>, with the
  records of \<open>agent-daemon/src/state.rs\<close> and \<open>agent-store/src/lib.rs\<close>). Every operation runs
  under the registry's locks, so it is one step. A join handle is a number; which tasks have
  finished by the time of a call is the argument \<open>finished\<close>. The fields \<open>tr_started\<close> and
  \<open>tr_aborted\<close> record the start signals and aborts the code sends. A \<open>HashMap\<close> is a list of
  entries with distinct keys in some order.
\<close>

section \<open>Data\<close>

datatype ActionKind = ModelAction | ToolAction | CompactionAction

record PostCompactionDispatchLease =
  pl_owner_id :: string
  pl_generation :: u64
  pl_context_leaf_id :: string

datatype TaskRegistrationId = TaskRegistrationId string

record RunningTask =
  rn_session_id :: string
  rn_action_row_id :: string
  rn_registration_id :: TaskRegistrationId
  rn_lease :: "PostCompactionDispatchLease option"
  rn_kind :: ActionKind
  rn_handle :: nat

datatype TaskRegistrationRejected = TaskRegistrationRejected

record task_registry =
  tr_tasks :: "(string \<times> RunningTask) list"
  tr_auxiliary :: "nat list"
  tr_recovery :: "nat option"
  tr_shutting_down :: bool
  tr_started :: "nat list"
  tr_aborted :: "nat list"

definition task_registry_new :: task_registry where
  "task_registry_new =
     \<lparr>tr_tasks = [], tr_auxiliary = [], tr_recovery = None, tr_shutting_down = False, tr_started = [], tr_aborted = []\<rparr>"

section \<open>Operations\<close>

definition remove_key :: "'k \<Rightarrow> ('k \<times> 'v) list \<Rightarrow> ('k \<times> 'v) list" where
  "remove_key k m = filter (\<lambda>e. fst e \<noteq> k) m"

definition retain_live :: "(nat \<Rightarrow> bool) \<Rightarrow> (string \<times> RunningTask) list \<Rightarrow> (string \<times> RunningTask) list" where
  "retain_live finished tasks = filter (\<lambda>e. \<not> finished (rn_handle (snd e))) tasks"

definition remove_session_tasks ::
  "(nat \<Rightarrow> bool) \<Rightarrow> string \<Rightarrow> (string \<times> RunningTask) list \<Rightarrow> RunningTask list \<times> (string \<times> RunningTask) list" where
  "remove_session_tasks finished session_id tasks =
     (let live = retain_live finished tasks
      in (map snd (filter (\<lambda>e. rn_session_id (snd e) = session_id) live),
          filter (\<lambda>e. rn_session_id (snd e) \<noteq> session_id) live))"

definition abort_session_tasks :: "(nat \<Rightarrow> bool) \<Rightarrow> string \<Rightarrow> task_registry \<Rightarrow> ActionKind list \<times> task_registry" where
  "abort_session_tasks finished session_id s =
     (let (tasks, rest) = remove_session_tasks finished session_id (tr_tasks s)
      in (map rn_kind tasks, s\<lparr>tr_tasks := rest, tr_aborted := tr_aborted s @ map rn_handle tasks\<rparr>))"

definition register_auxiliary_task ::
  "(nat \<Rightarrow> bool) \<Rightarrow> nat \<Rightarrow> task_registry \<Rightarrow> (TaskRegistrationRejected + unit) \<times> task_registry" where
  "register_auxiliary_task finished handle s =
     (if tr_shutting_down s then (Inl TaskRegistrationRejected, s\<lparr>tr_aborted := tr_aborted s @ [handle]\<rparr>)
      else (Inr (), s\<lparr>tr_auxiliary := filter (\<lambda>h. \<not> finished h) (tr_auxiliary s) @ [handle],
                      tr_started := tr_started s @ [handle]\<rparr>))"

definition register_recovery_task :: "nat \<Rightarrow> task_registry \<Rightarrow> (TaskRegistrationRejected + unit) \<times> task_registry" where
  "register_recovery_task handle s =
     (if tr_shutting_down s then (Inl TaskRegistrationRejected, s\<lparr>tr_aborted := tr_aborted s @ [handle]\<rparr>)
      else (Inr (), s\<lparr>tr_recovery := Some handle, tr_started := tr_started s @ [handle]\<rparr>))"

definition take_tasks :: "task_registry \<Rightarrow> nat list \<times> task_registry" where
  "take_tasks s =
     (map (rn_handle \<circ> snd) (tr_tasks s) @ tr_auxiliary s @ (case tr_recovery s of Some h \<Rightarrow> [h] | None \<Rightarrow> []),
      s\<lparr>tr_shutting_down := True, tr_tasks := [], tr_auxiliary := [], tr_recovery := None\<rparr>)"

definition session_has_live_tasks :: "(nat \<Rightarrow> bool) \<Rightarrow> string \<Rightarrow> task_registry \<Rightarrow> bool \<times> task_registry" where
  "session_has_live_tasks finished session_id s =
     (let tasks = retain_live finished (tr_tasks s)
      in (list_ex (\<lambda>e. rn_session_id (snd e) = session_id) tasks, s\<lparr>tr_tasks := tasks\<rparr>))"

definition task_owns_lease :: "RunningTask \<Rightarrow> PostCompactionDispatchLease \<Rightarrow> bool" where
  "task_owns_lease task lease \<longleftrightarrow> rn_lease task = Some lease"

definition action_has_live_task_for_lease ::
  "(nat \<Rightarrow> bool) \<Rightarrow> string \<Rightarrow> PostCompactionDispatchLease \<Rightarrow> task_registry \<Rightarrow> bool \<times> task_registry" where
  "action_has_live_task_for_lease finished action_row_id lease s =
     (let tasks = retain_live finished (tr_tasks s)
      in (case map_of tasks action_row_id of Some task \<Rightarrow> task_owns_lease task lease | None \<Rightarrow> False,
          s\<lparr>tr_tasks := tasks\<rparr>))"

definition task_registration_is_live ::
  "(nat \<Rightarrow> bool) \<Rightarrow> string \<Rightarrow> TaskRegistrationId \<Rightarrow> task_registry \<Rightarrow> bool \<times> task_registry" where
  "task_registration_is_live finished action_row_id registration_id s =
     (let tasks = retain_live finished (tr_tasks s)
      in (case map_of tasks action_row_id of Some task \<Rightarrow> rn_registration_id task = registration_id | None \<Rightarrow> False,
          s\<lparr>tr_tasks := tasks\<rparr>))"

definition register_task :: "RunningTask \<Rightarrow> task_registry \<Rightarrow> (TaskRegistrationRejected + unit) \<times> task_registry" where
  "register_task task s =
     (if tr_shutting_down s then (Inl TaskRegistrationRejected, s\<lparr>tr_aborted := tr_aborted s @ [rn_handle task]\<rparr>)
      else let replaced = map_of (tr_tasks s) (rn_action_row_id task);
               aborts = (case replaced of
                   Some old \<Rightarrow> if rn_lease old \<noteq> None then [rn_handle old] else []
                 | None \<Rightarrow> [])
           in (Inr (), s\<lparr>tr_tasks := (rn_action_row_id task, task) # remove_key (rn_action_row_id task) (tr_tasks s),
                         tr_aborted := tr_aborted s @ aborts, tr_started := tr_started s @ [rn_handle task]\<rparr>))"

definition remove_task_if_owner ::
  "string \<Rightarrow> TaskRegistrationId \<Rightarrow> (string \<times> RunningTask) list \<Rightarrow> RunningTask option \<times> (string \<times> RunningTask) list" where
  "remove_task_if_owner action_row_id registration_id tasks =
     (case map_of tasks action_row_id of
        Some task \<Rightarrow>
          if rn_registration_id task = registration_id then (Some task, remove_key action_row_id tasks) else (None, tasks)
      | None \<Rightarrow> (None, tasks))"

definition unregister_task :: "string \<Rightarrow> TaskRegistrationId \<Rightarrow> task_registry \<Rightarrow> bool \<times> task_registry" where
  "unregister_task action_row_id registration_id s =
     (let (removed, tasks) = remove_task_if_owner action_row_id registration_id (tr_tasks s)
      in (removed \<noteq> None, s\<lparr>tr_tasks := tasks\<rparr>))"

definition prune_finished_tasks :: "(nat \<Rightarrow> bool) \<Rightarrow> task_registry \<Rightarrow> task_registry" where
  "prune_finished_tasks finished s = s\<lparr>tr_tasks := retain_live finished (tr_tasks s)\<rparr>"

inductive registry_step :: "task_registry \<Rightarrow> task_registry \<Rightarrow> bool" where
  step_register: "registry_step s (snd (register_task task s))"
| step_register_auxiliary: "registry_step s (snd (register_auxiliary_task finished handle s))"
| step_register_recovery: "registry_step s (snd (register_recovery_task handle s))"
| step_unregister: "registry_step s (snd (unregister_task row reg s))"
| step_abort_session: "registry_step s (snd (abort_session_tasks finished session_id s))"
| step_prune: "registry_step s (prune_finished_tasks finished s)"
| step_take: "registry_step s (snd (take_tasks s))"

inductive_cases registry_stepE: "registry_step s s'"

definition registered :: "task_registry \<Rightarrow> nat list" where
  "registered s = map (rn_handle \<circ> snd) (tr_tasks s) @ tr_auxiliary s @ (case tr_recovery s of Some h \<Rightarrow> [h] | None \<Rightarrow> [])"

section \<open>Shutdown\<close>

text \<open>
  Keys are distinct and name their task's action; nothing is registered once the daemon shuts
  down; and only started tasks are registered.
\<close>

definition registry_ok :: "task_registry \<Rightarrow> bool" where
  "registry_ok s \<longleftrightarrow>
     distinct (map fst (tr_tasks s)) \<and> list_all (\<lambda>e. rn_action_row_id (snd e) = fst e) (tr_tasks s)
     \<and> (tr_shutting_down s \<longrightarrow> registered s = []) \<and> set (registered s) \<subseteq> set (tr_started s)"

lemma registry_ok_new: "registry_ok task_registry_new"
  by (simp add: registry_ok_def task_registry_new_def registered_def)

lemma registry_ok_sub:
  assumes "registry_ok s"
  shows "registry_ok (s\<lparr>tr_tasks := filter P (tr_tasks s)\<rparr>)"
    and "registry_ok (s\<lparr>tr_tasks := filter P (tr_tasks s), tr_aborted := aborted\<rparr>)"
  using assms by (auto simp: registry_ok_def registered_def list_all_iff distinct_map_filter)

lemma registry_ok_register: "registry_ok s \<Longrightarrow> registry_ok (snd (register_task task s))"
  by (auto simp: registry_ok_def register_task_def registered_def Let_def remove_key_def list_all_iff
      distinct_map_filter split: if_splits)

lemma registry_ok_step: "registry_ok s \<Longrightarrow> registry_step s s' \<Longrightarrow> registry_ok s'"
proof (erule registry_stepE)
  assume ok: "registry_ok s"
  show "registry_ok s'" if "s' = snd (register_task task s)" for task
    using registry_ok_register [OF ok] that by simp
  show "registry_ok s'" if "s' = snd (register_auxiliary_task finished handle s)" for finished handle
    using ok that by (auto simp: registry_ok_def register_auxiliary_task_def registered_def)
  show "registry_ok s'" if "s' = snd (register_recovery_task handle s)" for handle
    using ok that by (auto simp: registry_ok_def register_recovery_task_def registered_def)
  show "registry_ok s'" if "s' = snd (unregister_task row reg s)" for row reg
    using registry_ok_sub(1) [OF ok] ok that
    by (auto simp: unregister_task_def remove_task_if_owner_def remove_key_def split: option.splits)
  show "registry_ok s'" if "s' = snd (abort_session_tasks finished session_id s)" for finished session_id
    using registry_ok_sub(2) [OF ok] that
    by (simp add: abort_session_tasks_def remove_session_tasks_def retain_live_def Let_def filter_filter)
  show "registry_ok s'" if "s' = prune_finished_tasks finished s" for finished
    using registry_ok_sub(1) [OF ok] that by (simp add: prune_finished_tasks_def retain_live_def)
  show "registry_ok s'" if "s' = snd (take_tasks s)"
    using ok that by (simp add: registry_ok_def take_tasks_def registered_def)
qed

lemma registry_ok_steps: "registry_step\<^sup>*\<^sup>* s s' \<Longrightarrow> registry_ok s \<Longrightarrow> registry_ok s'"
  by (induction rule: rtranclp_induct) (auto intro: registry_ok_step)

lemma shut_down_step:
  assumes "tr_shutting_down s" and "registry_step s s'"
  shows "tr_shutting_down s' \<and> tr_started s' = tr_started s"
  using assms(2) by (rule registry_stepE)
    (use assms(1) in \<open>auto simp: register_task_def register_auxiliary_task_def register_recovery_task_def
      unregister_task_def abort_session_tasks_def prune_finished_tasks_def take_tasks_def Let_def split: prod.splits\<close>)

lemma shut_down_steps:
  "registry_step\<^sup>*\<^sup>* s s' \<Longrightarrow> tr_shutting_down s \<Longrightarrow> tr_shutting_down s' \<and> tr_started s' = tr_started s"
  by (induction rule: rtranclp_induct) (auto dest: shut_down_step)

lemma abort_session_tasks_spec:
  assumes "abort_session_tasks finished session_id s = (kinds, s')"
  shows "\<not> list_ex (\<lambda>e. rn_session_id (snd e) = session_id) (tr_tasks s')"
    and "list_all (\<lambda>e. rn_session_id (snd e) = session_id \<longrightarrow> finished (rn_handle (snd e))
           \<or> rn_handle (snd e) \<in> set (tr_aborted s')) (tr_tasks s)"
    and "\<forall>e \<in> set (tr_tasks s). rn_session_id (snd e) \<noteq> session_id \<longrightarrow> \<not> finished (rn_handle (snd e))
           \<longrightarrow> e \<in> set (tr_tasks s')"
  using assms
  by (auto simp: abort_session_tasks_def remove_session_tasks_def retain_live_def Let_def list_ex_iff list_all_iff
      image_iff) fastforce

lemma unregister_after_replacement:
  assumes "rn_registration_id new \<noteq> reg" and "register_task new s = (Inr (), s')"
  shows "unregister_task (rn_action_row_id new) reg s' = (False, s')"
  using assms by (auto simp: register_task_def unregister_task_def remove_task_if_owner_def Let_def split: if_splits)

end
