(* ===== verification/Store_Rows.thy ===== *)
theory Store_Rows
  imports Store_Query Session Task_Registry Provider_Stream Json_Value
begin

text \<open>
  The rows of the Postgres store that belong to one session (\<open>agent-store/src/postgres/schema.rs\<close>,
  the records of \<open>agent-store/src/lib.rs\<close>) and what its transactions share: the conditions of
  \<open>sql.rs\<close>, revisions (\<open>queue_projection.rs\<close>) and events (\<open>events.rs\<close>). A transaction locks its
  session's row first, so each is one step. A text column with a fixed vocabulary is a datatype, a
  \<^verbatim>\<open>jsonb\<close> column the value that was encoded in it. A time is an integer. Records of results leave
  out the id of the session, of which there is only one.
\<close>

section \<open>Columns\<close>

datatype ActionStatus =
  PendingStatus | BlockedStatus | RunningStatus | CompletedStatus | ErrorStatus | InterruptedStatus | StaleStatus

datatype InputPriority = PriorityFollowUp | PrioritySteer

datatype QueuedInputStatus = StatusQueued | StatusConsuming | StatusConsumed | StatusCancelled

datatype SessionActivity = ActivityIdle | ActivityQueued | ActivityRunning

datatype DelegationStatus =
  DelegationRunning | DelegationCancelling | DelegationDone | DelegationDoneWithFailures | DelegationCancelled
| DelegationFailed

datatype SubagentControlPhase = PhasePendingInterrupt | PhaseInterruptApplied | PhaseReady | PhaseCancelled

datatype SubagentControlKind = ControlSteer | ControlInterrupt

datatype QueuedInputContent =
  UserMessageContent UserMessage | ObservationContent DaemonToolObservation | SubagentControlContent

datatype EventType =
  EventSessionCreated | EventSessionConfigured | EventMcpToolsAdded | EventSessionRecovered | EventSessionIdle
| EventSessionWorkCancelled | EventSubagentSpawned | EventSubagentRunning | EventSubagentIdle | EventInputQueued
| EventInputPromoted | EventInputUpdated | EventInputCancelled | EventInputReordered | EventInputConsumed
| EventInputAccepted | EventInputIgnored | EventHistorySwitched | EventHistoryCompacted | EventActionRequested
| EventModelRequested | EventModelCompleted | EventModelError | EventToolRequested | EventToolStarted
| EventToolCompleted | EventToolError | EventCompactionRequested | EventCompactionCompleted | EventCompactionError
| EventTranscriptAppended | EventTurnStarted | EventTurnFinished | EventAssistantMessage | EventWorkspaceFsChanged

section \<open>Rows\<close>

record entry_row =
  er_id :: string
  er_parent_id :: "string option"
  er_timestamp_ms :: u64
  er_item :: TranscriptItem
  er_provider_replay :: "ProviderReplayItem list"
  er_sequence :: int

text \<open>
  The mark of a dispatch after a compaction in an action's payload, with the lease of the daemon
  that took it; the rest of the payload; and what is recorded when an action ends.
\<close>

record dispatch_mark =
  dm_action_row_id :: string
  dm_attempt_id :: string
  dm_context_leaf_id :: string
  dm_lease :: "(string \<times> u64 \<times> int) option"

datatype action_body = ModelBody "string option" | ToolBody ToolCall | CompactionBody

datatype action_result =
  ResultValue string | ResultError string | ResultSessionInterrupted | ResultSubagentControl string

record action_row =
  ac_id :: string
  ac_turn_id :: "int option"
  ac_action_id :: int
  ac_attempt_id :: string
  ac_kind :: ActionKind
  ac_status :: ActionStatus
  ac_content :: action_body
  ac_dispatch :: "dispatch_mark option"
  ac_result :: "action_result option"
  ac_provider_config :: "ProviderConfig option"
  ac_created_at :: int

text \<open>
  The fields of a queued input's \<^verbatim>\<open>origin\<close>; a column without an origin has none of them. The
  system column \<^verbatim>\<open>xmin\<close>, the transaction that wrote the row, is the row's version.
\<close>

record input_origin =
  og_promoted_at :: "int option"
  og_edited_at :: "int option"
  og_cancelled_at :: "int option"
  og_consumed_at :: "int option"
  og_claim_id :: "string option"
  og_claimed_at :: "int option"
  og_control_kind :: "SubagentControlKind option"
  og_control_interrupt :: bool
  og_control_phase :: "SubagentControlPhase option"
  og_control_interrupted :: "bool option"
  og_control_interrupt_outcome :: "string option"
  og_control_interrupt_applied_at :: "int option"
  og_target_active_leaf_id :: "string option"
  og_target_turn_id :: "int option"
  og_target_action_attempt_ids :: "string list option"
  og_target_action_attempt_id :: "string option"

record input_row =
  qi_id :: string
  qi_priority :: InputPriority
  qi_content :: QueuedInputContent
  qi_origin :: input_origin
  qi_status :: QueuedInputStatus
  qi_created_at :: int
  qi_updated_at :: int
  qi_follow_up_position :: "int option"
  qi_client_input_id :: "string option"
  qi_provider_config :: "ProviderConfig option"
  qi_row_version :: string

text \<open>\<open>Option::or\<close> and the \<^verbatim>\<open>coalesce\<close> of two columns.\<close>

definition option_or :: "'a option \<Rightarrow> 'a option \<Rightarrow> 'a option" where
  "option_or a b = (case a of None \<Rightarrow> b | Some x \<Rightarrow> Some x)"

definition no_origin :: input_origin where
  "no_origin =
     \<lparr>og_promoted_at = None, og_edited_at = None, og_cancelled_at = None, og_consumed_at = None, og_claim_id = None,
      og_claimed_at = None, og_control_kind = None, og_control_interrupt = False, og_control_phase = None,
      og_control_interrupted = None, og_control_interrupt_outcome = None, og_control_interrupt_applied_at = None,
      og_target_active_leaf_id = None, og_target_turn_id = None, og_target_action_attempt_ids = None,
      og_target_action_attempt_id = None\<rparr>"

text \<open>A transaction: its start, the clock while it runs (also in milliseconds), and its number as text.\<close>

record transaction =
  tx_now :: int
  tx_clock :: int
  tx_clock_ms :: int
  tx_xid :: string

section \<open>Events\<close>

record TranscriptEntryRecord =
  ter_id :: string
  ter_parent_id :: "string option"
  ter_timestamp_ms :: u64
  ter_sequence :: int
  ter_item :: TranscriptItem
  ter_provider_replay :: "ProviderReplayItem list"

record TranscriptTreeNodeRecord =
  tn_id :: string
  tn_parent_id :: "string option"
  tn_source_leaf_id :: "string option"
  tn_timestamp_ms :: u64
  tn_sequence :: int
  tn_item_type :: string
  tn_turn_id :: "TurnId option"
  tn_outcome :: "TurnOutcome option"
  tn_can_switch_to :: bool
  tn_edit_target_leaf_id :: "string option"
  tn_display_hint :: "string option"

record QueuedInputRecord =
  qr_input_id :: string
  qr_priority :: InputPriority
  qr_status :: QueuedInputStatus
  qr_content :: QueuedInputContent
  qr_client_input_id :: "string option"
  qr_created_at :: int
  qr_updated_at :: int
  qr_promoted_at :: "int option"
  qr_follow_up_position :: "int option"

record QueueState =
  qs_session_revision :: int
  qs_queue_revision :: int
  qs_transcript_revision :: int
  qs_activity :: SessionActivity
  qs_queued_inputs :: "QueuedInputRecord list"

text \<open>The fields of an event's payload, before they are written as JSON.\<close>

datatype event_field =
  FieldText "string option" | FieldInt int | FieldTime "int option" | FieldActivity SessionActivity | FieldItem TranscriptItem
| FieldEntry "TranscriptEntryRecord option" | FieldNode "TranscriptTreeNodeRecord option" | FieldTurn TurnId
| FieldOutcome TurnOutcome | FieldAssistant AssistantMessage | FieldQueue "QueuedInputRecord list"
| FieldPriority InputPriority | FieldKind ActionKind | FieldBody action_body | FieldStatus QueuedInputStatus | FieldBlocks "ContentBlock list" | FieldBool bool
| FieldIds "string list"

type_synonym payload = "(string \<times> event_field) list"

record EventFrame =
  ef_event_id :: int
  ef_event :: EventType
  ef_data :: payload

section \<open>A session\<close>

text \<open>
  The row of \<^verbatim>\<open>sessions\<close> with the rows of the other tables that refer to it; of the delegations
  whose parent it is only the statuses, and of the delegation it belongs to its id and status. The serial numbers are those the database would give next.
\<close>

record session_rows =
  se_active_leaf_id :: "string option"
  se_provider_config :: ProviderConfig
  se_session_revision :: int
  se_queue_revision :: int
  se_transcript_revision :: int
  se_last_user_message_timestamp_ms :: "int option"
  se_entries :: "entry_row list"
  se_next_sequence :: int
  se_actions :: "action_row list"
  se_inputs :: "input_row list"
  se_delegation_statuses :: "DelegationStatus list"
  se_parent_session_id :: "string option"
  se_delegation :: "(string \<times> DelegationStatus) option"
  se_events :: "EventFrame list"
  se_next_event_id :: int

datatype store_error =
  TranscriptCycle
| TranscriptLeafNotFound string
| ExpectedActiveLeafMismatch "string option" "string option"
| SourceMutationConflict
| HistoryChanged
| HistoryTargetNotTurnBoundary
| InvalidSequenceRange int int
| TurnCardDetailNotFound string
| MissingBodyItem string
| QueueMutationNotFound string
| InconsistentRoutes
| DelegationChildHasNoParent
| DelegationInputClosed string DelegationStatus
| ActiveLeafChanged "string option" "string option"
| InputAlreadyConsumed string
| InputAlreadyRecorded string
| ActionAttemptNotRunning string
| ControlInterruptNotPending string

definition insert_event :: "EventType \<Rightarrow> payload \<Rightarrow> session_rows \<Rightarrow> EventFrame \<times> session_rows" where
  "insert_event event_type data se =
     (let event = \<lparr>ef_event_id = se_next_event_id se, ef_event = event_type, ef_data = data\<rparr>
      in (event, se\<lparr>se_events := se_events se @ [event], se_next_event_id := se_next_event_id se + 1\<rparr>))"

definition bump_revisions :: "bool \<Rightarrow> bool \<Rightarrow> session_rows \<Rightarrow> session_rows" where
  "bump_revisions queue_changed transcript_changed se =
     se\<lparr>se_session_revision := se_session_revision se + 1,
        se_queue_revision := se_queue_revision se + (if queue_changed then 1 else 0),
        se_transcript_revision := se_transcript_revision se + (if transcript_changed then 1 else 0)\<rparr>"

definition action_is_unfinished :: "ActionStatus \<Rightarrow> bool" where
  "action_is_unfinished status \<longleftrightarrow> status \<in> {PendingStatus, BlockedStatus, RunningStatus}"

definition queued_input_is_active :: "QueuedInputStatus \<Rightarrow> bool" where
  "queued_input_is_active status \<longleftrightarrow> status \<in> {StatusQueued, StatusConsuming}"

definition session_has_unfinished_actions :: "session_rows \<Rightarrow> bool" where
  "session_has_unfinished_actions se \<longleftrightarrow> list_ex (\<lambda>a. action_is_unfinished (ac_status a)) (se_actions se)"

definition session_has_active_queued_inputs :: "session_rows \<Rightarrow> bool" where
  "session_has_active_queued_inputs se \<longleftrightarrow> list_ex (\<lambda>q. queued_input_is_active (qi_status q)) (se_inputs se)"

definition session_activity :: "bool \<Rightarrow> bool \<Rightarrow> SessionActivity" where
  "session_activity running queued = (if running then ActivityRunning else if queued then ActivityQueued else ActivityIdle)"

definition ensure_no_active_work :: "session_rows \<Rightarrow> store_error + unit" where
  "ensure_no_active_work se =
     (if session_has_unfinished_actions se \<or> session_has_active_queued_inputs se then Inl SourceMutationConflict else Inr ())"

definition ensure_no_running_delegation :: "session_rows \<Rightarrow> store_error + unit" where
  "ensure_no_running_delegation se =
     (if list_ex (\<lambda>d. d \<in> {DelegationRunning, DelegationCancelling}) (se_delegation_statuses se)
      then Inl SourceMutationConflict else Inr ())"

definition is_recoverable_post_compaction_dispatch :: "action_row \<Rightarrow> bool" where
  "is_recoverable_post_compaction_dispatch a \<longleftrightarrow>
     ac_status a \<in> {PendingStatus, RunningStatus} \<and> ac_kind a = ModelAction \<and> ac_dispatch a \<noteq> None"

definition stale_unfinished_actions :: "session_rows \<Rightarrow> session_rows" where
  "stale_unfinished_actions se =
     se\<lparr>se_actions := map (\<lambda>a.
         if action_is_unfinished (ac_status a) \<and> \<not> is_recoverable_post_compaction_dispatch a
         then a\<lparr>ac_status := StaleStatus, ac_dispatch := None\<rparr> else a) (se_actions se)\<rparr>"

end
