(* ===== verification/Store_Transcript.thy ===== *)
theory Store_Transcript
  imports Store_Rows
begin

text \<open>
  The transcript side of the Postgres store (\<open>agent-store/src/postgres\<close>: \<open>transcript.rs\<close>,
  \<open>history_target.rs\<close>, \<open>rows.rs\<close>): the queries over the entries of a session and the transactions
  that change them. A query that does not end is \<open>None\<close>. What the code reads in several statements
  is read at once here.
\<close>

section \<open>Queries\<close>

text \<open>A query in a transaction: it may not end, and its result may be an error that ends the transaction.\<close>

definition and_query :: "('e + 'a) option \<Rightarrow> ('a \<Rightarrow> ('e + 'b) option) \<Rightarrow> ('e + 'b) option" where
  "and_query q f = (case q of None \<Rightarrow> None | Some (Inl e) \<Rightarrow> Some (Inl e) | Some (Inr x) \<Rightarrow> f x)"

lemma and_query_simps [simp]:
  "and_query None f = None" "and_query (Some (Inl e)) f = Some (Inl e)" "and_query (Some (Inr x)) f = f x"
  by (simp_all add: and_query_def)

section \<open>Walks along a branch\<close>

definition row_by_id :: "entry_row list \<Rightarrow> string \<Rightarrow> entry_row option" where
  "row_by_id rows i = List.find (\<lambda>row. er_id row = i) rows"

fun is_switch_boundary_item :: "TranscriptItem \<Rightarrow> bool" where
  "is_switch_boundary_item (TurnFinished t outcome) = True"
| "is_switch_boundary_item (CompactionSummaryItem s) = True"
| "is_switch_boundary_item _ = False"

fun next_id :: "entry_row \<Rightarrow> string option" where
  "next_id row =
     (case er_item row of
        CompactionSummaryItem summary \<Rightarrow> Some (cs_source_leaf_id summary)
      | _ \<Rightarrow> er_parent_id row)"

definition parent_step :: "entry_row list \<Rightarrow> entry_row \<Rightarrow> entry_row option" where
  "parent_step rows row = Option.bind (er_parent_id row) (row_by_id rows)"

definition display_step :: "entry_row list \<Rightarrow> entry_row \<Rightarrow> entry_row option" where
  "display_step rows row = Option.bind (next_id row) (row_by_id rows)"

definition stop_at :: "(entry_row \<Rightarrow> bool) \<Rightarrow> (entry_row \<Rightarrow> entry_row option) \<Rightarrow> entry_row \<Rightarrow> entry_row option" where
  "stop_at stop walk row = (if stop row then None else walk row)"

definition rows_at :: "entry_row list \<Rightarrow> string option \<Rightarrow> entry_row list" where
  "rows_at rows leaf = (case Option.bind leaf (row_by_id rows) of None \<Rightarrow> [] | Some row \<Rightarrow> [row])"

text \<open>The rows of a walk, deepest first, each with the flag that its ancestry is a cycle.\<close>

definition branch_query ::
  "(entry_row \<Rightarrow> entry_row option) \<Rightarrow> entry_row list \<Rightarrow> (entry_row \<times> bool) list option" where
  "branch_query walk start =
     map_option (\<lambda>(invalid, path). map (\<lambda>(row, depth). (row, invalid)) (rev (sort_key snd path)))
       (ancestry_path walk start)"

definition ensure_valid_transcript_ancestry :: "(entry_row \<times> bool) list \<Rightarrow> store_error + unit" where
  "ensure_valid_transcript_ancestry rows = (if list_ex snd rows then Inl TranscriptCycle else Inr ())"

definition checked_rows :: "(entry_row \<Rightarrow> 'a) \<Rightarrow> (entry_row \<times> bool) list \<Rightarrow> store_error + 'a list" where
  "checked_rows f rows = (case ensure_valid_transcript_ancestry rows of Inl e \<Rightarrow> Inl e | Inr u \<Rightarrow> Inr (map (f \<circ> fst) rows))"

datatype TranscriptEntryBodyMode = UiBody | FullBody

definition row_to_transcript_entry :: "TranscriptEntryBodyMode \<Rightarrow> entry_row \<Rightarrow> TranscriptEntryRecord" where
  "row_to_transcript_entry body_mode row =
     \<lparr>ter_id = er_id row, ter_parent_id = er_parent_id row, ter_timestamp_ms = er_timestamp_ms row,
      ter_sequence = er_sequence row, ter_item = er_item row,
      ter_provider_replay = (case body_mode of FullBody \<Rightarrow> er_provider_replay row | UiBody \<Rightarrow> [])\<rparr>"

definition row_to_stored_entry :: "entry_row \<Rightarrow> StoredTranscriptEntry" where
  "row_to_stored_entry row =
     \<lparr>ste_id = er_id row, ste_parent_id = er_parent_id row, ste_timestamp_ms = er_timestamp_ms row,
      ste_item = er_item row, ste_provider_replay = er_provider_replay row\<rparr>"

definition branch_entries_to_leaf :: "session_rows \<Rightarrow> string \<Rightarrow> (store_error + StoredTranscriptEntry list) option" where
  "branch_entries_to_leaf se leaf_id =
     map_option (checked_rows row_to_stored_entry)
       (branch_query (parent_step (se_entries se)) (rows_at (se_entries se) (Some leaf_id)))"

definition model_context_from_entries :: "StoredTranscriptEntry list \<Rightarrow> ModelContext" where
  "model_context_from_entries stored =
     from_entries (map (\<lambda>e. \<lparr>mce_item = ste_item e, mce_provider_replay = ste_provider_replay e\<rparr>) stored)"

definition model_context_for_leaf :: "session_rows \<Rightarrow> string \<Rightarrow> (store_error + ModelContext) option" where
  "model_context_for_leaf se leaf_id =
     and_query (branch_entries_to_leaf se leaf_id) (\<lambda>entries.
       Some (if entries = [] then Inl (TranscriptLeafNotFound leaf_id) else Inr (model_context_from_entries entries)))"

definition active_branch_entry_records ::
  "session_rows \<Rightarrow> TranscriptEntryBodyMode \<Rightarrow> (store_error + TranscriptEntryRecord list) option" where
  "active_branch_entry_records se body_mode =
     map_option (checked_rows (row_to_transcript_entry body_mode))
       (branch_query (display_step (se_entries se)) (rows_at (se_entries se) (se_active_leaf_id se)))"

definition branch_entry_ids :: "session_rows \<Rightarrow> string option \<Rightarrow> (store_error + string list) option" where
  "branch_entry_ids se leaf_id =
     map_option (checked_rows er_id) (branch_query (display_step (se_entries se)) (rows_at (se_entries se) leaf_id))"

text \<open>
  The entries after a base on the active branch, and those between two sequence numbers: the walk
  stops at the base or at the entry with the first number, and what it found is dropped when it
  never came there.
\<close>

definition records_up_to ::
  "(entry_row \<Rightarrow> bool) \<Rightarrow> (entry_row \<Rightarrow> bool) \<Rightarrow> (entry_row \<Rightarrow> 'a) \<Rightarrow> session_rows \<Rightarrow> entry_row list
     \<Rightarrow> (store_error + 'a list) option" where
  "records_up_to stop keep f se start =
     map_option (\<lambda>rows. checked_rows f
         (filter (\<lambda>(row, invalid). (list_ex (stop \<circ> fst) rows \<and> keep row) \<or> invalid) rows))
       (branch_query (stop_at stop (display_step (se_entries se))) start)"

definition active_branch_entry_records_after ::
  "session_rows \<Rightarrow> string \<Rightarrow> TranscriptEntryBodyMode \<Rightarrow> (store_error + TranscriptEntryRecord list) option" where
  "active_branch_entry_records_after se base_leaf_id body_mode =
     records_up_to (\<lambda>row. er_id row = base_leaf_id) (\<lambda>row. er_id row \<noteq> base_leaf_id) (row_to_transcript_entry body_mode) se
       (rows_at (se_entries se) (se_active_leaf_id se))"

definition active_branch_entry_records_between ::
  "session_rows \<Rightarrow> string \<Rightarrow> int \<Rightarrow> int \<Rightarrow> TranscriptEntryBodyMode
     \<Rightarrow> (store_error + TranscriptEntryRecord list) option" where
  "active_branch_entry_records_between se leaf_id start_sequence end_sequence body_mode =
     (case List.find (\<lambda>row. er_sequence row = start_sequence) (se_entries se) of
        None \<Rightarrow> Some (Inr [])
      | Some bound \<Rightarrow>
          records_up_to (\<lambda>row. er_id row = er_id bound) (\<lambda>_. True) (row_to_transcript_entry body_mode) se
            (filter (\<lambda>row. er_sequence row = end_sequence) (rows_at (se_entries se) (Some leaf_id))))"

datatype ActiveBranchSyncStatus = SyncUnchanged | SyncExtended | SyncBranchChanged

record ActiveBranchSync =
  sy_base_leaf_id :: "string option"
  sy_active_leaf_id :: "string option"
  sy_status :: ActiveBranchSyncStatus
  sy_entries :: "TranscriptEntryRecord list"

definition sync_active_branch ::
  "session_rows \<Rightarrow> string option \<Rightarrow> TranscriptEntryBodyMode \<Rightarrow> (store_error + ActiveBranchSync) option" where
  "sync_active_branch se base_leaf_id body_mode =
     (let active_leaf_id = se_active_leaf_id se;
          answer = \<lparr>sy_base_leaf_id = base_leaf_id, sy_active_leaf_id = active_leaf_id,
                    sy_status = SyncUnchanged, sy_entries = []\<rparr>
      in if active_leaf_id = base_leaf_id then Some (Inr answer)
         else if active_leaf_id = None then Some (Inr (answer\<lparr>sy_status := SyncBranchChanged\<rparr>))
         else
           and_query (case base_leaf_id of
               Some base \<Rightarrow> active_branch_entry_records_after se base body_mode
             | None \<Rightarrow> active_branch_entry_records se body_mode) (\<lambda>entries.
             Some (Inr (answer
               \<lparr>sy_status := (if base_leaf_id \<noteq> None \<and> entries = [] then SyncBranchChanged else SyncExtended),
                sy_entries := entries\<rparr>))))"

definition active_branch :: "session_rows \<Rightarrow> (store_error + TranscriptEntryRecord list) option" where
  "active_branch se =
     (case se_active_leaf_id se of None \<Rightarrow> Some (Inr []) | Some leaf \<Rightarrow> active_branch_entry_records se UiBody)"

definition transcript_turn_detail ::
  "session_rows \<Rightarrow> string \<Rightarrow> string \<Rightarrow> int \<Rightarrow> int \<Rightarrow> TranscriptEntryBodyMode
     \<Rightarrow> (store_error + TranscriptEntryRecord list) option" where
  "transcript_turn_detail se card_id leaf_id start_sequence end_sequence body_mode =
     (if start_sequence > end_sequence then Some (Inl (InvalidSequenceRange start_sequence end_sequence))
      else
        and_query (active_branch_entry_records_between se leaf_id start_sequence end_sequence body_mode) (\<lambda>entries.
          Some (if entries = [] \<or> ter_sequence (hd entries) \<noteq> start_sequence
                  \<or> ter_sequence (last entries) \<noteq> end_sequence \<or> \<not> list_ex (\<lambda>e. ter_id e = card_id) entries
                then Inl (TurnCardDetailNotFound card_id) else Inr entries)))"

section \<open>Entries and tree nodes\<close>

definition stored_transcript_entries :: "session_rows \<Rightarrow> TranscriptEntryBodyMode \<Rightarrow> StoredTranscriptEntry list" where
  "stored_transcript_entries se body_mode =
     map (\<lambda>row. (row_to_stored_entry row)
         \<lparr>ste_provider_replay := (case body_mode of FullBody \<Rightarrow> er_provider_replay row | UiBody \<Rightarrow> [])\<rparr>)
       (sort_key er_sequence (se_entries se))"

text \<open>What is loaded to rebuild a session; the session's metadata is the argument.\<close>

definition load_stored_session ::
  "string \<Rightarrow> (string \<rightharpoonup> string) \<Rightarrow> TranscriptEntryBodyMode \<Rightarrow> session_rows \<Rightarrow> StoredSession" where
  "load_stored_session session_id metadata body_mode se =
     \<lparr>ss_session_id = session_id, ss_active_leaf_id = se_active_leaf_id se, ss_metadata = metadata,
      ss_entries = stored_transcript_entries se body_mode\<rparr>"

definition transcript_entry_records :: "session_rows \<Rightarrow> TranscriptEntryBodyMode \<Rightarrow> TranscriptEntryRecord list" where
  "transcript_entry_records se body_mode = map (row_to_transcript_entry body_mode) (sort_key er_sequence (se_entries se))"

datatype TranscriptEntryScope = FullTree | ActiveBranch

definition transcript_entries_for_scope ::
  "session_rows \<Rightarrow> TranscriptEntryScope \<Rightarrow> TranscriptEntryBodyMode \<Rightarrow> (store_error + TranscriptEntryRecord list) option" where
  "transcript_entries_for_scope se scope body_mode =
     (case scope of
        FullTree \<Rightarrow> Some (Inr (transcript_entry_records se body_mode))
      | ActiveBranch \<Rightarrow> active_branch_entry_records se body_mode)"

datatype TranscriptEntryRecordOrder = OrderSequence | OrderRequested

definition transcript_entry_records_by_id ::
  "session_rows \<Rightarrow> string list \<Rightarrow> TranscriptEntryBodyMode \<Rightarrow> TranscriptEntryRecordOrder \<Rightarrow> TranscriptEntryRecord list" where
  "transcript_entry_records_by_id se entry_ids body_mode order =
     (let found = List.map_filter (row_by_id (se_entries se)) entry_ids
      in map (row_to_transcript_entry body_mode)
           (case order of OrderSequence \<Rightarrow> sort_key er_sequence found | OrderRequested \<Rightarrow> found))"

definition transcript_entry_record :: "session_rows \<Rightarrow> string \<Rightarrow> TranscriptEntryBodyMode \<Rightarrow> TranscriptEntryRecord option" where
  "transcript_entry_record se entry_id body_mode =
     map_option (row_to_transcript_entry body_mode) (row_by_id (se_entries se) entry_id)"

fun item_type :: "TranscriptItem \<Rightarrow> string" where
  "item_type (TurnStarted t) = ''turn_started''"
| "item_type (UserMessageItem m) = ''user_message''"
| "item_type (AssistantMessageItem m) = ''assistant_message''"
| "item_type (ToolCallStarted t c) = ''tool_call_started''"
| "item_type (ToolResultItem r) = ''tool_result''"
| "item_type (TurnFinished t outcome) = ''turn_finished''"
| "item_type (CompactionSummaryItem s) = ''compaction_summary''"
| "item_type (DaemonToolObservationItem o') = ''daemon_tool_observation''"

definition truncate_chars :: "string \<Rightarrow> nat \<Rightarrow> string" where
  "truncate_chars s max_chars =
     (if length (utf8_chars s) \<le> max_chars then s else concat (take max_chars (utf8_chars s)) @ ellipsis)"

definition content_blocks_text :: "ContentBlock list \<Rightarrow> string" where
  "content_blocks_text blocks =
     join_with [CHR 0x0A] (map (\<lambda>block. case block of TextBlock t \<Rightarrow> t | ImageBlock i \<Rightarrow> ''[image]'') blocks)"

fun outcome_debug :: "TurnOutcome \<Rightarrow> string" where
  "outcome_debug GracefulOutcome = ''Graceful''"
| "outcome_debug InterruptedOutcome = ''Interrupted''"
| "outcome_debug CrashedOutcome = ''Crashed''"

fun hint_text :: "TranscriptItem \<Rightarrow> string" where
  "hint_text (TurnStarted t) = ''start turn '' @ u64_to_string (turn_id_0 t)"
| "hint_text (UserMessageItem m) = content_blocks_text (um_content m)"
| "hint_text (AssistantMessageItem m) =
     concat (map (\<lambda>i. case i of TextItem t \<Rightarrow> t | ToolCallItem c \<Rightarrow> ''tool call: '' @ tc_tool_name c) (am_items m))"
| "hint_text (ToolCallStarted t c) = ''tool call: '' @ tc_tool_name c"
| "hint_text (ToolResultItem r) = tr_tool_name r @ '': '' @ tr_output r"
| "hint_text (TurnFinished t outcome) =
     outcome_debug outcome @ '' turn boundary for turn '' @ u64_to_string (turn_id_0 t)"
| "hint_text (CompactionSummaryItem s) = cs_summary s"
| "hint_text (DaemonToolObservationItem ob) =
     (case do_summary ob of Some s \<Rightarrow> s | None \<Rightarrow> ''daemon observation: '' @ do_tool_name ob)"

definition display_hint :: "TranscriptItem \<Rightarrow> string option" where
  "display_hint item =
     (let trimmed = trim (hint_text item) in if trimmed = [] then None else Some (truncate_chars trimmed 160))"

definition tree_node_from_item ::
  "string \<Rightarrow> string option \<Rightarrow> u64 \<Rightarrow> int \<Rightarrow> TranscriptItem \<Rightarrow> TranscriptTreeNodeRecord" where
  "tree_node_from_item i parent timestamp_ms sequence item =
     \<lparr>tn_id = i, tn_parent_id = parent,
      tn_source_leaf_id = (case item of CompactionSummaryItem s \<Rightarrow> Some (cs_source_leaf_id s) | _ \<Rightarrow> None),
      tn_timestamp_ms = timestamp_ms, tn_sequence = sequence, tn_item_type = item_type item,
      tn_turn_id = TranscriptItem_turn_id item,
      tn_outcome = (case item of TurnFinished t outcome \<Rightarrow> Some outcome | _ \<Rightarrow> None),
      tn_can_switch_to = is_switch_boundary_item item, tn_edit_target_leaf_id = None,
      tn_display_hint = display_hint item\<rparr>"

definition tree_node_from_entry :: "TranscriptEntryRecord \<Rightarrow> TranscriptTreeNodeRecord" where
  "tree_node_from_entry e = tree_node_from_item (ter_id e) (ter_parent_id e) (ter_timestamp_ms e) (ter_sequence e) (ter_item e)"

record TranscriptTreeIndex =
  ti_active_leaf_id :: "string option"
  ti_session_revision :: int
  ti_transcript_revision :: int
  ti_after_sequence :: int
  ti_max_sequence :: int
  ti_complete :: bool
  ti_nodes :: "TranscriptTreeNodeRecord list"

definition DEFAULT_TRANSCRIPT_INDEX_LIMIT :: int where "DEFAULT_TRANSCRIPT_INDEX_LIMIT = 1000"

definition MAX_TRANSCRIPT_INDEX_LIMIT :: int where "MAX_TRANSCRIPT_INDEX_LIMIT = 5000"

definition clamped :: "int option \<Rightarrow> int \<Rightarrow> int \<Rightarrow> nat" where
  "clamped limit usual most = nat (min most (max 1 (unwrap_or limit usual)))"

definition max_sequence :: "session_rows \<Rightarrow> int" where
  "max_sequence se = fold max (map er_sequence (se_entries se)) 0"

definition transcript_tree_index :: "session_rows \<Rightarrow> int option \<Rightarrow> int option \<Rightarrow> TranscriptTreeIndex" where
  "transcript_tree_index se after_sequence limit =
     (let after = max 0 (unwrap_or after_sequence 0);
          rows = take (clamped limit DEFAULT_TRANSCRIPT_INDEX_LIMIT MAX_TRANSCRIPT_INDEX_LIMIT)
            (sort_key er_sequence (filter (\<lambda>row. after < er_sequence row) (se_entries se)));
          nodes = map (\<lambda>row. tree_node_from_item (er_id row) (er_parent_id row) (er_timestamp_ms row)
            (er_sequence row) (er_item row)) rows;
          last_sequence = (if nodes = [] then after else tn_sequence (last nodes))
      in \<lparr>ti_active_leaf_id = se_active_leaf_id se, ti_session_revision = se_session_revision se,
          ti_transcript_revision = se_transcript_revision se, ti_after_sequence = after, ti_max_sequence = max_sequence se, ti_complete = (max_sequence se \<le> last_sequence),
          ti_nodes = nodes\<rparr>)"

section \<open>Targets in the history\<close>

fun is_user_message :: "TranscriptItem \<Rightarrow> bool" where
  "is_user_message (UserMessageItem m) = True"
| "is_user_message _ = False"

definition ensure_leaf_is_turn_boundary :: "session_rows \<Rightarrow> string option \<Rightarrow> store_error + unit" where
  "ensure_leaf_is_turn_boundary se leaf_id =
     (case leaf_id of
        None \<Rightarrow> Inr ()
      | Some i \<Rightarrow>
          (case row_by_id (se_entries se) i of
             None \<Rightarrow> Inl HistoryTargetNotTurnBoundary
           | Some row \<Rightarrow> if is_switch_boundary_item (er_item row) then Inr () else Inl HistoryTargetNotTurnBoundary))"

definition transcript_leaf_is_turn_boundary :: "session_rows \<Rightarrow> string option \<Rightarrow> bool" where
  "transcript_leaf_is_turn_boundary se leaf_id =
     (case leaf_id of
        None \<Rightarrow> True
      | Some i \<Rightarrow> (case row_by_id (se_entries se) i of None \<Rightarrow> False | Some row \<Rightarrow> is_switch_boundary_item (er_item row)))"

definition context_step :: "session_rows \<Rightarrow> entry_row \<Rightarrow> entry_row option" where
  "context_step se = stop_at (\<lambda>row. is_switch_boundary_item (er_item row)) (parent_step (se_entries se))"

definition history_target_context_for_user :: "session_rows \<Rightarrow> string \<Rightarrow> (store_error + string option) option" where
  "history_target_context_for_user se entry_id =
     map_option (\<lambda>(invalid, path).
         if path = [] then Inl HistoryChanged
         else if invalid then Inl TranscriptCycle
         else
           let target = map_option (er_id \<circ> fst) (List.find (\<lambda>(row, depth). is_switch_boundary_item (er_item row)) (sort_key snd path));
               reached_root = list_ex (\<lambda>(row, depth). er_parent_id row = None) path
           in if target = None \<and> \<not> reached_root then Inl HistoryChanged else Inr target)
       (ancestry_path (context_step se) (filter (\<lambda>row. is_user_message (er_item row)) (rows_at (se_entries se) (Some entry_id))))"

record HistoryTarget =
  ht_leaf_id :: "string option"
  ht_source_entry_id :: "string option"
  ht_expected_active_leaf_id :: "string option option"
  ht_expected_transcript_revision :: "int option"
  ht_expected_active_branch_entry_ids :: "string list option"

definition validate_history_target :: "session_rows \<Rightarrow> HistoryTarget \<Rightarrow> (store_error + unit) option" where
  "validate_history_target se target =
     and_query (Some (ensure_no_running_delegation se)) (\<lambda>_.
     and_query (Some (ensure_no_active_work se)) (\<lambda>_.
     and_query (Some (case ht_expected_active_leaf_id target of
         Some expected \<Rightarrow> if se_active_leaf_id se \<noteq> expected
           then Inl (ExpectedActiveLeafMismatch (se_active_leaf_id se) expected) else Inr ()
       | None \<Rightarrow> Inr ())) (\<lambda>_.
     and_query (Some (case ht_expected_transcript_revision target of
         Some expected \<Rightarrow> if se_transcript_revision se \<noteq> expected then Inl HistoryChanged else Inr ()
       | None \<Rightarrow> Inr ())) (\<lambda>_.
     and_query (Some (if ht_leaf_id target = None then Inr () else ensure_leaf_is_turn_boundary se (ht_leaf_id target))) (\<lambda>_.
     and_query (case ht_source_entry_id target of
         Some source \<Rightarrow> and_query (history_target_context_for_user se source) (\<lambda>resolved.
           Some (if resolved \<noteq> ht_leaf_id target then Inl HistoryChanged else Inr ()))
       | None \<Rightarrow> Some (Inr ())) (\<lambda>_.
     (case ht_expected_active_branch_entry_ids target of
         Some expected_ids \<Rightarrow> and_query (branch_entry_ids se (ht_leaf_id target)) (\<lambda>target_ids.
           Some (if expected_ids \<noteq> target_ids then Inl HistoryChanged else Inr ()))
       | None \<Rightarrow> Some (Inr ()))))))))"

text \<open>The page of user messages that a fork or an edit can start from.\<close>

record HistoryTargetRecord =
  hr_entry_id :: string
  hr_target_leaf_id :: "string option"
  hr_timestamp_ms :: u64
  hr_turn_id :: "TurnId option"
  hr_is_on_active_branch :: bool
  hr_preview :: string

record HistoryTargetsResult =
  hs_active_leaf_id :: "string option"
  hs_session_revision :: int
  hs_transcript_revision :: int
  hs_before_sequence :: "int option"
  hs_next_before_sequence :: "int option"
  hs_has_more :: bool
  hs_targets :: "HistoryTargetRecord list"

definition DEFAULT_HISTORY_TARGET_LIMIT :: int where "DEFAULT_HISTORY_TARGET_LIMIT = 50"

definition MAX_HISTORY_TARGET_LIMIT :: int where "MAX_HISTORY_TARGET_LIMIT = 200"

definition left :: "nat \<Rightarrow> string \<Rightarrow> string" where
  "left n s = concat (take n (utf8_chars s))"

definition preview :: "TranscriptItem \<Rightarrow> string" where
  "preview item =
     (case item of
        UserMessageItem m \<Rightarrow> left 160 (join_with [CHR 0x0A]
          (map (\<lambda>block. left 160 (case block of TextBlock t \<Rightarrow> t | ImageBlock i \<Rightarrow> ''[image]'')) (take 4 (um_content m))))
      | _ \<Rightarrow> [])"

text \<open>
  What the query says of one user message: its boundary, its turn, whether its walk came to a
  boundary or the root, and whether it ran into a cycle.
\<close>

definition user_context :: "session_rows \<Rightarrow> entry_row \<Rightarrow> (string option \<times> TurnId option \<times> bool \<times> bool) option" where
  "user_context se user =
     map_option (\<lambda>(invalid, path).
         let rows = map fst (sort_key snd path)
         in (map_option er_id (List.find (\<lambda>row. is_switch_boundary_item (er_item row)) rows),
             find_map (\<lambda>row. case er_item row of TurnStarted t \<Rightarrow> Some t | _ \<Rightarrow> None) rows,
             list_ex (\<lambda>row. er_parent_id row = None \<or> is_switch_boundary_item (er_item row)) rows,
             invalid))
       (ancestry_path (context_step se) [user])"

fun option_all :: "('a \<Rightarrow> 'b option) \<Rightarrow> 'a list \<Rightarrow> 'b list option" where
  "option_all f [] = Some []"
| "option_all f (x # xs) = Option.bind (f x) (\<lambda>y. map_option ((#) y) (option_all f xs))"

definition history_targets :: "session_rows \<Rightarrow> int option \<Rightarrow> int option \<Rightarrow> (store_error + HistoryTargetsResult) option" where
  "history_targets se before_sequence limit =
     (let n = clamped limit DEFAULT_HISTORY_TARGET_LIMIT MAX_HISTORY_TARGET_LIMIT;
          users = take (n + 1) (rev (sort_key er_sequence
            (filter (\<lambda>row. is_user_message (er_item row)
                \<and> (case before_sequence of None \<Rightarrow> True | Some before \<Rightarrow> er_sequence row < before)) (se_entries se))))
      in Option.bind (option_all (\<lambda>user. map_option (Pair user) (user_context se user)) users) (\<lambda>found.
         Option.bind (recursive_union (display_step (se_entries se)) (rows_at (se_entries se) (se_active_leaf_id se))) (\<lambda>active.
           let active_invalid = ancestry_invalid (display_step (se_entries se)) active;
               page = take n found
           in Some (if list_ex (\<lambda>(user, target, turn, resolved, invalid). invalid \<or> active_invalid) found
                    then Inl TranscriptCycle
                    else Inr
                      \<lparr>hs_active_leaf_id = se_active_leaf_id se, hs_session_revision = se_session_revision se,
                       hs_transcript_revision = se_transcript_revision se, hs_before_sequence = before_sequence,
                       hs_next_before_sequence = (if n < length found then Some (er_sequence (fst (last page))) else None),
                       hs_has_more = (n < length found),
                       hs_targets = map (\<lambda>(user, target, turn, resolved, invalid).
                           \<lparr>hr_entry_id = er_id user, hr_target_leaf_id = target, hr_timestamp_ms = er_timestamp_ms user,
                            hr_turn_id = turn, hr_is_on_active_branch = (user \<in> set active), hr_preview = preview (er_item user)\<rparr>)
                         (filter (\<lambda>(user, target, turn, resolved, invalid). resolved) page)\<rparr>))))"

section \<open>Changes\<close>

record SessionEventState =
  es_active_leaf_id :: "string option"
  es_session_revision :: int
  es_queue_revision :: int
  es_transcript_revision :: int
  es_activity :: SessionActivity

definition session_state_for_event :: "session_rows \<Rightarrow> SessionEventState" where
  "session_state_for_event se =
     \<lparr>es_active_leaf_id = se_active_leaf_id se, es_session_revision = se_session_revision se,
      es_queue_revision = se_queue_revision se, es_transcript_revision = se_transcript_revision se,
      es_activity = session_activity (session_has_unfinished_actions se) (session_has_active_queued_inputs se)\<rparr>"

definition insert_stored_entry :: "StoredTranscriptEntry \<Rightarrow> session_rows \<Rightarrow> TranscriptEntryRecord option \<times> session_rows" where
  "insert_stored_entry entry se =
     (if row_by_id (se_entries se) (ste_id entry) \<noteq> None
      then (None, se\<lparr>se_next_sequence := se_next_sequence se + 1\<rparr>)
      else
        let row = \<lparr>er_id = ste_id entry, er_parent_id = ste_parent_id entry, er_timestamp_ms = ste_timestamp_ms entry,
              er_item = ste_item entry, er_provider_replay = ste_provider_replay entry, er_sequence = se_next_sequence se\<rparr>;
            last_user = (if is_user_message (ste_item entry)
              then Some (max (unwrap_or (se_last_user_message_timestamp_ms se) 0) (sint (ste_timestamp_ms entry)))
              else se_last_user_message_timestamp_ms se)
        in (Some (row_to_transcript_entry UiBody row),
            se\<lparr>se_entries := se_entries se @ [row], se_next_sequence := se_next_sequence se + 1,
               se_last_user_message_timestamp_ms := last_user\<rparr>))"

definition insert_entry :: "TranscriptStorageNode \<Rightarrow> session_rows \<Rightarrow> TranscriptEntryRecord option \<times> session_rows" where
  "insert_entry node = insert_stored_entry (stored_of_node node)"

fun insert_entries ::
  "StoredTranscriptEntry list \<Rightarrow> session_rows \<Rightarrow> (string \<rightharpoonup> TranscriptEntryRecord) \<times> session_rows" where
  "insert_entries [] se = (Map.empty, se)"
| "insert_entries (entry # rest) se =
     (let (inserted, se') = insert_stored_entry entry se;
          (records, se'') = insert_entries rest se'
      in (case inserted of None \<Rightarrow> records | Some r \<Rightarrow> [ter_id r \<mapsto> r] ++ records, se''))"

fun item_events :: "string \<Rightarrow> TranscriptItem \<Rightarrow> (EventType \<times> payload) list" where
  "item_events entry_id (TurnStarted t) = [(EventTurnStarted, [(''turn_id'', FieldTurn t), (''entry_id'', FieldText (Some entry_id))])]"
| "item_events entry_id (TurnFinished t outcome) =
     [(EventTurnFinished, [(''turn_id'', FieldTurn t), (''outcome'', FieldOutcome outcome), (''entry_id'', FieldText (Some entry_id))])]"
| "item_events entry_id (AssistantMessageItem m) =
     [(EventAssistantMessage, [(''entry_id'', FieldText (Some entry_id)), (''assistant'', FieldAssistant m)])]"
| "item_events entry_id _ = []"

fun insert_all_events :: "(EventType \<times> payload) list \<Rightarrow> session_rows \<Rightarrow> EventFrame list \<times> session_rows" where
  "insert_all_events [] se = ([], se)"
| "insert_all_events ((t, p) # events) se =
     (let (frame, se') = insert_event t p se; (frames, se'') = insert_all_events events se' in (frame # frames, se''))"

definition insert_transcript_item_events ::
  "SessionEventState \<Rightarrow> TranscriptEntryRecord option \<Rightarrow> string \<Rightarrow> TranscriptItem \<Rightarrow> session_rows \<Rightarrow> EventFrame list \<times> session_rows" where
  "insert_transcript_item_events state entry entry_id item se =
     (let found = (case entry of Some e \<Rightarrow> Some e | None \<Rightarrow> transcript_entry_record se entry_id UiBody)
      in insert_all_events
           ((EventTranscriptAppended,
             [(''entry_id'', FieldText (Some entry_id)), (''item'', FieldItem item), (''entry'', FieldEntry found),
              (''tree_node'', FieldNode (map_option tree_node_from_entry found)),
              (''active_leaf_id'', FieldText (es_active_leaf_id state)),
              (''session_revision'', FieldInt (es_session_revision state)),
              (''queue_revision'', FieldInt (es_queue_revision state)),
              (''transcript_revision'', FieldInt (es_transcript_revision state))]) # item_events entry_id item) se)"

fun insert_entries_events ::
  "SessionEventState \<Rightarrow> (string \<rightharpoonup> TranscriptEntryRecord) \<Rightarrow> StoredTranscriptEntry list \<Rightarrow> session_rows
     \<Rightarrow> EventFrame list \<times> session_rows" where
  "insert_entries_events state records [] se = ([], se)"
| "insert_entries_events state records (entry # rest) se =
     (let (frames, se') = insert_transcript_item_events state (records (ste_id entry)) (ste_id entry) (ste_item entry) se;
          (more, se'') = insert_entries_events state records rest se'
      in (frames @ more, se''))"

definition recover_session ::
  "StoredTranscriptEntry list \<Rightarrow> string option \<Rightarrow> session_rows \<Rightarrow> EventFrame list \<times> session_rows" where
  "recover_session stored active_leaf_id se =
     (let (records, se1) = insert_entries stored se;
          se2 = bump_revisions False True ((stale_unfinished_actions se1)\<lparr>se_active_leaf_id := active_leaf_id\<rparr>);
          state = session_state_for_event se2;
          (frames, se3) = insert_entries_events state records stored se2;
          (frame, se4) = insert_event EventSessionRecovered
            [(''active_leaf_id'', FieldText active_leaf_id), (''session_revision'', FieldInt (es_session_revision state)),
             (''queue_revision'', FieldInt (es_queue_revision state)),
             (''transcript_revision'', FieldInt (es_transcript_revision state)), (''activity'', FieldActivity (es_activity state))] se3
      in (frames @ [frame], se4))"

record SwitchActiveLeafResult =
  sw_active_leaf_id :: "string option"
  sw_state :: SessionEventState
  sw_last_event_id :: int
  sw_active_branch_entry_ids :: "string list option"
  sw_active_branch_entries :: "TranscriptEntryRecord list option"
  sw_events :: "EventFrame list"

text \<open>The answer to a switch, read after the change: ids and bodies only as far as they were asked for.\<close>

definition switched_branch ::
  "HistoryTarget \<Rightarrow> bool \<Rightarrow> string list option \<Rightarrow> session_rows
     \<Rightarrow> (store_error + string list option \<times> TranscriptEntryRecord list option) option" where
  "switched_branch target return_active_branch missing_body_ids se =
     and_query
       (if return_active_branch \<or> ht_expected_active_branch_entry_ids target \<noteq> None \<or> missing_body_ids \<noteq> None
        then map_option (map_sum id Some) (branch_entry_ids se (se_active_leaf_id se)) else Some (Inr None)) (\<lambda>ids.
       let asked = (case (missing_body_ids, ids) of
             (Some missing, Some branch) \<Rightarrow> Some (filter (\<lambda>i. i \<in> set branch) missing)
           | _ \<Rightarrow> if return_active_branch then Some (unwrap_or ids []) else None)
       in Some (Inr
            (if ht_expected_active_branch_entry_ids target \<noteq> None \<or> missing_body_ids \<noteq> None then ids else None,
             map_option (\<lambda>entry_ids. transcript_entry_records_by_id se entry_ids UiBody OrderRequested) asked)))"

definition switch_active_leaf ::
  "HistoryTarget \<Rightarrow> bool \<Rightarrow> string list option \<Rightarrow> session_rows \<Rightarrow> (store_error + SwitchActiveLeafResult \<times> session_rows) option" where
  "switch_active_leaf target return_active_branch missing_body_ids se =
     and_query (validate_history_target se target) (\<lambda>_.
       let se1 = bump_revisions False False (se\<lparr>se_active_leaf_id := ht_leaf_id target\<rparr>);
           state = session_state_for_event se1;
           (event, se2) = insert_event EventHistorySwitched
             [(''active_leaf_id'', FieldText (ht_leaf_id target)), (''activity'', FieldActivity (es_activity state)),
              (''session_revision'', FieldInt (es_session_revision state)),
              (''queue_revision'', FieldInt (es_queue_revision state)),
              (''transcript_revision'', FieldInt (es_transcript_revision state))] se1
       in and_query (switched_branch target return_active_branch missing_body_ids se2) (\<lambda>(ids, bodies).
            Some (Inr (\<lparr>sw_active_leaf_id = ht_leaf_id target, sw_state = state, sw_last_event_id = ef_event_id event,
                        sw_active_branch_entry_ids = ids, sw_active_branch_entries = bodies, sw_events = [event]\<rparr>, se2))))"

definition set_active_leaf :: "string option \<Rightarrow> session_rows \<Rightarrow> (store_error + EventFrame list \<times> session_rows) option" where
  "set_active_leaf leaf_id se =
     and_query (switch_active_leaf
         \<lparr>ht_leaf_id = leaf_id, ht_source_entry_id = None, ht_expected_active_leaf_id = None,
          ht_expected_transcript_revision = None, ht_expected_active_branch_entry_ids = None\<rparr> False None se)
       (\<lambda>(result, se'). Some (Inr (sw_events result, se')))"

end
