(* ===== verification/Store_Transcript_Proofs.thy ===== *)
theory Store_Transcript_Proofs
  imports Store_Transcript
begin

text \<open>
  What the queries over a session's entries give (\<open>agent-store/src/postgres/transcript.rs\<close>): they end on
  every table, and they agree with the walks of the transcript store in memory.
\<close>

section \<open>Tables\<close>

text \<open>The primary key of the entries.\<close>

definition rows_ok :: "entry_row list \<Rightarrow> bool" where
  "rows_ok rows \<longleftrightarrow> distinct (map er_id rows)"

lemma row_by_id_set: "row_by_id rows i = Some row \<Longrightarrow> row \<in> set rows \<and> er_id row = i"
  unfolding row_by_id_def by (auto simp: find_Some_iff)

lemma row_by_id_iff: "rows_ok rows \<Longrightarrow> row_by_id rows i = Some row \<longleftrightarrow> row \<in> set rows \<and> er_id row = i"
  unfolding rows_ok_def row_by_id_def by (induction rows) (auto simp: rev_image_eqI)

lemma finite_steps [simp]:
  "finite_table (set rows) (parent_step rows)" "finite_table (set rows) (display_step rows)"
  unfolding finite_table_def parent_step_def display_step_def
  by (auto simp: bind_eq_Some_conv dest: row_by_id_set)

lemma finite_stop_at [simp]: "finite_table U walk \<Longrightarrow> finite_table U (stop_at stop walk)"
  by (auto simp: finite_table_def stop_at_def)

lemma rows_at_cases: "rows_at rows leaf = [] \<or> (\<exists>x \<in> set rows. rows_at rows leaf = [x])"
  by (auto simp: rows_at_def bind_eq_Some_conv dest: row_by_id_set split: option.splits)

section \<open>What a walk delivers\<close>

lemma sort_numbered: "sort_key snd (zip ys [d..<d + length ys]) = zip ys [d..<d + length ys]"
  by (intro sort_key_id_if_sorted) simp

lemma branch_query_one:
  assumes "finite_table U walk" and "x \<in> U"
  shows "trail walk x ys \<Longrightarrow> branch_query walk [x] = Some (map (\<lambda>row. (row, False)) (rev ys))"
    and "\<nexists>ys. trail walk x ys \<Longrightarrow> branch_query walk [x] = Some [(x, True)]"
proof -
  show "branch_query walk [x] = Some (map (\<lambda>row. (row, False)) (rev ys))" if "trail walk x ys"
  proof -
    have "map (\<lambda>(row, depth). (row, False)) (zip ys [0..<length ys]) = map (\<lambda>row. (row, False)) ys"
      by (rule nth_equalityI) simp_all
    then show ?thesis using ancestry_path_one(1) [OF assms that] sort_numbered [of ys 0]
      by (simp add: branch_query_def flip: rev_map)
  qed
  show "branch_query walk [x] = Some [(x, True)]" if "\<nexists>ys. trail walk x ys"
    using ancestry_path_one(2) [OF assms that] by (simp add: branch_query_def)
qed

lemma branch_query_Nil [simp]: "branch_query walk [] = Some []"
  by (simp add: branch_query_def)

lemma checked_rows_simps [simp]:
  "checked_rows f (map (\<lambda>row. (row, False)) rows) = Inr (map f rows)" "checked_rows f [] = Inr []"
  "checked_rows f [(x, True)] = Inl TranscriptCycle"
  by (simp_all add: checked_rows_def ensure_valid_transcript_ancestry_def list_ex_iff)

lemma ancestry_in_table:
  assumes "finite_table U walk" and "x \<in> U" and "trail walk x ys"
  shows "set ys \<subseteq> U"
  using assms(3,2) by (induction rule: trail.induct) (use assms(1) in \<open>auto simp: finite_table_def\<close>)

lemma branch_query_total:
  "finite_table (set rows) walk \<Longrightarrow> start = [] \<or> (\<exists>x \<in> set rows. start = [x]) \<Longrightarrow> \<exists>found. branch_query walk start = Some found"
  using branch_query_one [of "set rows" walk] by (metis branch_query_Nil)

section \<open>The branch in memory\<close>

definition node_of_row :: "entry_row \<Rightarrow> TranscriptStorageNode" where
  "node_of_row row = node_of_stored (row_to_stored_entry row)"

lemma node_of_row_parent [simp]:
  "node_parent_id (node_of_row row) = er_parent_id row" "node_id (node_of_row row) = er_id row"
  "stored_of_node (node_of_row row) = row_to_stored_entry row"
  by (simp_all add: node_of_row_def node_of_stored_def row_to_stored_entry_def stored_of_node_def)

lemma trail_chain:
  assumes "\<And>i. m i = map_option node_of_row (row_by_id rows i)"
  shows "trail (parent_step rows) x ys \<Longrightarrow> chain m (Some (node_of_row x)) (rev (map node_of_row ys))"
proof (induction rule: trail.induct)
  case (trail_end x)
  then have "Option.bind (node_parent_id (node_of_row x)) m = None"
    by (cases "er_parent_id x") (auto simp: assms parent_step_def)
  then show ?case using chain_step [of m "node_of_row x" "[]"] by simp
next
  case (trail_step x y ys)
  then have "Option.bind (node_parent_id (node_of_row x)) m = Some (node_of_row y)"
    by (cases "er_parent_id x") (auto simp: assms parent_step_def)
  then show ?case using chain_step [of m "node_of_row x" "rev (map node_of_row ys)"] trail_step.IH by simp
qed

lemma chain_trail:
  assumes "\<And>i. m i = map_option node_of_row (row_by_id rows i)"
  shows "chain m cur p \<Longrightarrow> cur = Some (node_of_row x) \<Longrightarrow> \<exists>ys. trail (parent_step rows) x ys"
proof (induction arbitrary: x rule: chain.induct)
  case (chain_step e p)
  then have e: "e = node_of_row x" by simp
  show ?case
  proof (cases "parent_step rows x")
    case (Some y)
    then have "Option.bind (node_parent_id e) m = Some (node_of_row y)"
      by (cases "er_parent_id x") (auto simp: assms parent_step_def e)
    from chain_step.IH [OF this] Some show ?thesis by (blast intro: trail.trail_step)
  qed (blast intro: trail.trail_end)
qed simp

lemma path_loop_rows:
  assumes "\<And>i. m i = map_option node_of_row (row_by_id rows i)"
  shows "trail (parent_step rows) x ys \<Longrightarrow> path_loop m (Some (node_of_row x)) [] = Some (rev (map node_of_row ys))"
    and "\<nexists>ys. trail (parent_step rows) x ys \<Longrightarrow> path_loop m (Some (node_of_row x)) [] = None"
  using trail_chain [OF assms] chain_trail [OF assms] path_loop_iff by (metis, metis not_Some_eq)

lemma loaded_rows:
  assumes "rows_ok (se_entries se)"
    and "from_storage_entries (map node_of_stored (stored_transcript_entries se FullBody)) active = Inr st"
  shows "ts_entries_by_id st i = map_option node_of_row (row_by_id (se_entries se) i)"
proof -
  let ?es = "map node_of_stored (stored_transcript_entries se FullBody)"
  have es: "?es = map node_of_row (sort_key er_sequence (se_entries se))"
    by (simp add: stored_transcript_entries_def node_of_row_def row_to_stored_entry_def)
  have d: "distinct (map node_id ?es)" "parents_closed ?es" "leaf_known ?es active" "st = from_trusted_entries ?es active"
    using assms(2) by (simp_all add: from_storage_entries_eq split: if_splits)
  have "ts_entries_by_id st i = Some e \<longleftrightarrow> map_option node_of_row (row_by_id (se_entries se) i) = Some e" for e
    unfolding d(4) from_trusted_entries_ok(2) [OF d(1-3)] map_of_by_id [OF d(1)]
    unfolding es by (auto simp: row_by_id_iff [OF assms(1)])
  then show ?thesis by (metis not_Some_eq)
qed

text \<open>
  The branch that the database reads is the branch that the loaded transcript store walks, and the
  database reports a cycle exactly where the walk in memory would not return.
\<close>

lemma branch_entries_to_leaf_loaded:
  assumes "rows_ok (se_entries se)"
    and "from_storage_entries (map node_of_stored (stored_transcript_entries se FullBody)) active = Inr st"
  shows "branch_entries_to_leaf se leaf_id =
    Some (case path_entries_to st leaf_id of Some path \<Rightarrow> Inr (map stored_of_node path) | None \<Rightarrow> Inl TranscriptCycle)"
proof (cases "row_by_id (se_entries se) leaf_id")
  case None
  with loaded_rows [OF assms] have "path_entries_to st leaf_id = Some []"
    by (simp add: path_entries_to_def path_entries_def path_loop_iff)
  with None show ?thesis by (simp add: branch_entries_to_leaf_def rows_at_def)
next
  case (Some x)
  let ?walk = "parent_step (se_entries se)"
  have x: "x \<in> set (se_entries se)" using row_by_id_set [OF Some] by simp
  have start: "path_entries_to st leaf_id = path_loop (ts_entries_by_id st) (Some (node_of_row x)) []"
    by (simp add: path_entries_to_def path_entries_def loaded_rows [OF assms] Some)
  note db = branch_query_one [OF finite_steps(1) x] and mem = path_loop_rows [OF loaded_rows [OF assms], of x]
  show ?thesis
  proof (cases "\<exists>ys. trail ?walk x ys")
    case True
    then obtain ys where "trail ?walk x ys" by blast
    with db(1) mem(1) show ?thesis
      by (simp add: branch_entries_to_leaf_def rows_at_def Some start rev_map o_def)
  next
    case False
    with db(2) mem(2) show ?thesis by (simp add: branch_entries_to_leaf_def rows_at_def Some start)
  qed
qed

text \<open>The context of a request, read from the database or from the session that was loaded.\<close>

lemma trail_ne: "\<not> trail walk x []"
  using trail_head by fastforce

lemma model_context_for_leaf_loaded:
  assumes "rows_ok (se_entries se)"
    and "from_storage_entries (map node_of_stored (stored_transcript_entries se FullBody)) active = Inr st"
  shows "model_context_for_leaf se leaf_id =
    Some (case path_entries_to st leaf_id of
        None \<Rightarrow> Inl TranscriptCycle
      | Some path \<Rightarrow> if path = [] then Inl (TranscriptLeafNotFound leaf_id)
          else Inr (from_entries (map (\<lambda>e. \<lparr>mce_item = node_item e, mce_provider_replay = node_provider_replay e\<rparr>) path)))"
  by (simp add: model_context_for_leaf_def branch_entries_to_leaf_loaded [OF assms] model_context_from_entries_def
      stored_of_node_def o_def split: option.splits)

lemma path_entries_to_known:
  assumes "ts_entries_by_id st leaf_id \<noteq> None"
  shows "path_entries_to st leaf_id \<noteq> Some []"
  using assms by (auto simp: path_entries_to_def path_entries_def path_loop_iff chain_Some)

section \<open>Branches for display\<close>

lemma trail_suffix: "trail walk x (us @ y # vs) \<Longrightarrow> trail walk y (y # vs)"
proof (induction us arbitrary: x)
  case Nil
  then show ?case using trail_head [of walk x "y # vs"] by simp
next
  case (Cons u us)
  then show ?case unfolding trail_iff_step [of walk x "(u # us) @ y # vs"] by auto
qed

lemma trail_stop:
  "trail walk x ys \<Longrightarrow>
     trail (stop_at stop walk) x
       (takeWhile (\<lambda>y. \<not> stop y) ys @ (if list_ex stop ys then [hd (dropWhile (\<lambda>y. \<not> stop y) ys)] else []))"
proof (induction rule: trail.induct)
  case (trail_end x)
  then show ?case by (auto intro!: trail.trail_end simp: stop_at_def)
next
  case (trail_step x y ys)
  then show ?case by (auto intro: trail.intros simp: stop_at_def)
qed

lemma active_records_trail:
  assumes "row_by_id (se_entries se) a = Some x"
  shows "trail (display_step (se_entries se)) x ys \<Longrightarrow>
      map_option (checked_rows f) (branch_query (display_step (se_entries se)) (rows_at (se_entries se) (Some a)))
        = Some (Inr (map f (rev ys)))"
    and "\<nexists>ys. trail (display_step (se_entries se)) x ys \<Longrightarrow>
      map_option (checked_rows f) (branch_query (display_step (se_entries se)) (rows_at (se_entries se) (Some a)))
        = Some (Inl TranscriptCycle)"
  using branch_query_one [OF finite_steps(2), of x] row_by_id_set [OF assms] by (simp_all add: rows_at_def assms)

text \<open>A branch that can be read is a trail.\<close>

lemma active_branch_trail:
  assumes "active_branch_entry_records se body_mode = Some (Inr branch)" and "branch \<noteq> []"
  obtains a x ys where "se_active_leaf_id se = Some a" "row_by_id (se_entries se) a = Some x"
    "trail (display_step (se_entries se)) x ys" "branch = map (row_to_transcript_entry body_mode) (rev ys)"
proof -
  obtain a x where leaf: "se_active_leaf_id se = Some a" "row_by_id (se_entries se) a = Some x"
    using assms by (cases "se_active_leaf_id se"; cases "row_by_id (se_entries se) (the (se_active_leaf_id se))")
      (auto simp: active_branch_entry_records_def rows_at_def)
  show ?thesis
  proof (cases "\<exists>ys. trail (display_step (se_entries se)) x ys")
    case True
    then obtain ys where ys: "trail (display_step (se_entries se)) x ys" ..
    from that [OF leaf ys] show ?thesis
      using active_records_trail(1) [OF leaf(2) ys, of "row_to_transcript_entry body_mode"] assms(1) leaf(1)
      by (auto simp: active_branch_entry_records_def)
  next
    case False
    show ?thesis using active_records_trail(2) [OF leaf(2) False, of "row_to_transcript_entry body_mode"] assms(1) leaf(1)
      by (auto simp: active_branch_entry_records_def)
  qed
qed

lemma records_up_to_trail:
  assumes "x \<in> set (se_entries se)" and "trail (display_step (se_entries se)) x ys"
  shows "records_up_to stop keep f se [x] =
    Some (Inr (if list_ex stop ys then map f (filter keep
        (rev (takeWhile (\<lambda>y. \<not> stop y) ys @ [hd (dropWhile (\<lambda>y. \<not> stop y) ys)]))) else []))"
proof -
  let ?zs = "takeWhile (\<lambda>y. \<not> stop y) ys @ (if list_ex stop ys then [hd (dropWhile (\<lambda>y. \<not> stop y) ys)] else [])"
  have q: "branch_query (stop_at stop (display_step (se_entries se))) [x] = Some (map (\<lambda>row. (row, False)) (rev ?zs))"
    by (rule branch_query_one(1) [OF finite_stop_at [OF finite_steps(2)] assms(1) trail_stop [OF assms(2)]])
  have ex: "list_ex (stop \<circ> fst) (map (\<lambda>row. (row, False)) (rev ?zs)) \<longleftrightarrow> list_ex stop ys"
  proof (cases "list_ex stop ys")
    case True
    then have "stop (hd (dropWhile (\<lambda>y. \<not> stop y) ys))"
      using hd_dropWhile [of "\<lambda>y. \<not> stop y" ys] by (auto simp: list_ex_iff)
    then show ?thesis using True by (auto simp: list_ex_iff)
  next
    case False
    then show ?thesis by (auto simp: list_ex_iff dest: set_takeWhileD)
  qed
  have pairs: "filter (\<lambda>(row, invalid). (b \<and> keep row) \<or> invalid) (map (\<lambda>row. (row, False)) rows)
      = map (\<lambda>row. (row, False)) (if b then filter keep rows else [])" for b rows
    by (induction rows) auto
  show ?thesis unfolding records_up_to_def q option.map ex pairs checked_rows_simps by simp
qed

lemma records_after_trail:
  assumes "rows_ok (se_entries se)" and "se_active_leaf_id se = Some a" and "row_by_id (se_entries se) a = Some x"
    and "trail (display_step (se_entries se)) x ys"
  shows "active_branch_entry_records_after se base body_mode =
    Some (Inr (if base \<in> er_id ` set ys
      then map (row_to_transcript_entry body_mode) (rev (takeWhile (\<lambda>row. er_id row \<noteq> base) ys)) else []))"
proof -
  have x: "x \<in> set (se_entries se)" using row_by_id_set [OF assms(3)] by simp
  have on: "list_ex (\<lambda>row. er_id row = base) ys \<longleftrightarrow> base \<in> er_id ` set ys" by (auto simp: list_ex_iff)
  have keep: "filter (\<lambda>row. er_id row \<noteq> base) (rev (takeWhile (\<lambda>row. er_id row \<noteq> base) ys)) = rev (takeWhile (\<lambda>row. er_id row \<noteq> base) ys)"
    by (auto simp: filter_id_conv dest: set_takeWhileD)
  have "er_id (hd (dropWhile (\<lambda>row. er_id row \<noteq> base) ys)) = base" if "base \<in> er_id ` set ys"
    using hd_dropWhile [of "\<lambda>row. er_id row \<noteq> base" ys] that by auto
  then show ?thesis
    using records_up_to_trail [OF x assms(4), of "\<lambda>row. er_id row = base" "\<lambda>row. er_id row \<noteq> base" "row_to_transcript_entry body_mode"] keep
    by (simp add: active_branch_entry_records_after_def assms(2,3) rows_at_def on)
qed

lemma ter_id_row [simp]: "ter_id (row_to_transcript_entry body_mode row) = er_id row"
  by (simp add: row_to_transcript_entry_def)

text \<open>
  What a client has to add to the branch it holds: the branch of its base followed by the entries
  it is sent is the active branch, unless the base is no longer on it.
\<close>

lemma sync_active_branch_known:
  assumes ok: "rows_ok (se_entries se)" and leaf: "se_active_leaf_id se = Some a" "row_by_id (se_entries se) a = Some x"
    and tr: "trail (display_step (se_entries se)) x ys"
  shows "\<exists>sy. sync_active_branch se (Some base) body_mode = Some (Inr sy)
    \<and> (if base \<in> er_id ` set ys
       then sy_status sy \<noteq> SyncBranchChanged
         \<and> (\<exists>held. branch_entry_ids se (Some base) = Some (Inr held) \<and> held @ map ter_id (sy_entries sy) = map er_id (rev ys))
       else sy_status sy = SyncBranchChanged \<and> sy_entries sy = [])"
proof (cases "base \<in> er_id ` set ys")
  case False
  then have "base \<noteq> a" using trail_head [OF tr] row_by_id_set [OF leaf(2)] by auto
  with False records_after_trail [OF ok leaf tr, of base body_mode] show ?thesis by (simp add: sync_active_branch_def leaf(1))
next
  case True
  define us vs where "us = takeWhile (\<lambda>row. er_id row \<noteq> base) ys" and "vs = dropWhile (\<lambda>row. er_id row \<noteq> base) ys"
  have ys: "ys = us @ vs" by (simp add: us_def vs_def)
  have "vs \<noteq> []" using True by (auto simp: vs_def)
  then obtain y zs where vs: "vs = y # zs" by (cases vs) auto
  have y: "er_id y = base" using hd_dropWhile [of "\<lambda>row. er_id row \<noteq> base" ys] \<open>vs \<noteq> []\<close> vs by (simp add: vs_def)
  have "set ys \<subseteq> set (se_entries se)"
    using ancestry_in_table [OF finite_steps(2) _ tr] row_by_id_set [OF leaf(2)] by blast
  then have "row_by_id (se_entries se) base = Some y" using ys vs y by (auto simp: row_by_id_iff [OF ok])
  from active_records_trail(1) [OF this trail_suffix [of _ x us]] tr
  have held: "branch_entry_ids se (Some base) = Some (Inr (map er_id (rev vs)))"
    by (simp add: branch_entry_ids_def ys vs)
  show ?thesis
  proof (cases "base = a")
    case same: True
    have "us = []" using trail_head [OF tr] row_by_id_set [OF leaf(2)] same by (auto simp: us_def)
    with same True held show ?thesis by (simp add: sync_active_branch_def leaf(1) ys Let_def)
  next
    case False
    have "us \<noteq> []" using trail_head [OF tr] row_by_id_set [OF leaf(2)] False by (auto simp: us_def)
    moreover have "active_branch_entry_records_after se base body_mode = Some (Inr (map (row_to_transcript_entry body_mode) (rev us)))"
      using records_after_trail [OF ok leaf tr, of base body_mode] True by (simp add: us_def)
    ultimately show ?thesis using True False held
      by (simp add: sync_active_branch_def leaf(1) ys rev_map o_def)
  qed
qed

section \<open>Switching the active leaf\<close>

lemma and_query_Inr: "and_query q f = Some (Inr y) \<longleftrightarrow> (\<exists>x. q = Some (Inr x) \<and> f x = Some (Inr y))"
  by (auto simp: and_query_def split: option.splits sum.splits)

lemma and_query_None: "and_query q f = None \<longleftrightarrow> q = None \<or> (\<exists>x. q = Some (Inr x) \<and> f x = None)"
  by (auto simp: and_query_def split: option.splits sum.splits)

lemma ancestry_path_total:
  "finite_table (set rows) walk \<Longrightarrow> start = [] \<or> (\<exists>x \<in> set rows. start = [x]) \<Longrightarrow> ancestry_path walk start \<noteq> None"
  using ancestry_path_one [of "set rows" walk] by (metis ancestry_path_Nil option.distinct(1))

lemma finite_context [simp]: "finite_table (set (se_entries se)) (context_step se)"
  by (simp add: context_step_def)

lemma branch_entry_ids_total [simp]: "branch_entry_ids se leaf \<noteq> None"
  using branch_query_total [OF finite_steps(2) rows_at_cases] unfolding branch_entry_ids_def by fastforce

lemma history_target_context_total [simp]: "history_target_context_for_user se entry_id \<noteq> None"
proof -
  have "filter p (rows_at (se_entries se) leaf) = [] \<or> (\<exists>x \<in> set (se_entries se). filter p (rows_at (se_entries se) leaf) = [x])" for p leaf
    using rows_at_cases [of "se_entries se" leaf] by (metis filter.simps)
  from ancestry_path_total [OF finite_context this] show ?thesis unfolding history_target_context_for_user_def by simp
qed

lemma validate_history_target_total [simp]: "validate_history_target se target \<noteq> None"
  unfolding validate_history_target_def
  by (auto simp: and_query_None simp del: not_None_eq split: option.splits)

lemma switched_branch_total [simp]: "switched_branch target r m se \<noteq> None"
  unfolding switched_branch_def by (auto simp: and_query_None Let_def simp del: not_None_eq)

lemma switch_active_leaf_total: "switch_active_leaf target r m se \<noteq> None"
  unfolding switch_active_leaf_def
  by (auto simp: and_query_None Let_def simp del: not_None_eq split: prod.splits)

lemma ensure_simps:
  "ensure_no_active_work se = Inr u \<longleftrightarrow> \<not> session_has_unfinished_actions se \<and> \<not> session_has_active_queued_inputs se"
  "ensure_leaf_is_turn_boundary se leaf = Inr u \<longleftrightarrow> transcript_leaf_is_turn_boundary se leaf"
  by (auto simp: ensure_no_active_work_def ensure_leaf_is_turn_boundary_def transcript_leaf_is_turn_boundary_def
      split: option.splits)

lemma validate_history_target_ok:
  assumes "validate_history_target se target = Some (Inr u)"
  shows "ensure_no_running_delegation se = Inr ()" "ensure_no_active_work se = Inr ()"
    "transcript_leaf_is_turn_boundary se (ht_leaf_id target)"
    "ht_expected_active_leaf_id target \<in> {None, Some (se_active_leaf_id se)}"
    "ht_expected_transcript_revision target \<in> {None, Some (se_transcript_revision se)}"
    "ht_source_entry_id target = Some source \<Longrightarrow> history_target_context_for_user se source = Some (Inr (ht_leaf_id target))"
    "ht_expected_active_branch_entry_ids target = Some ids \<Longrightarrow> branch_entry_ids se (ht_leaf_id target) = Some (Inr ids)"
  using assms unfolding validate_history_target_def
  by (auto simp: and_query_Inr ensure_simps transcript_leaf_is_turn_boundary_def split: option.splits if_splits)

lemma insert_event_same [simp]:
  "se_entries (snd (insert_event t p se)) = se_entries se" "se_actions (snd (insert_event t p se)) = se_actions se"
  "se_inputs (snd (insert_event t p se)) = se_inputs se" "se_active_leaf_id (snd (insert_event t p se)) = se_active_leaf_id se"
  "se_next_sequence (snd (insert_event t p se)) = se_next_sequence se"
  "se_session_revision (snd (insert_event t p se)) = se_session_revision se"
  "se_queue_revision (snd (insert_event t p se)) = se_queue_revision se"
  "se_transcript_revision (snd (insert_event t p se)) = se_transcript_revision se"
  "se_events (snd (insert_event t p se)) = se_events se @ [fst (insert_event t p se)]"
  by (simp_all add: insert_event_def Let_def)

lemma bump_revisions_same [simp]:
  "se_entries (bump_revisions q t se) = se_entries se" "se_actions (bump_revisions q t se) = se_actions se"
  "se_inputs (bump_revisions q t se) = se_inputs se" "se_active_leaf_id (bump_revisions q t se) = se_active_leaf_id se"
  "se_next_sequence (bump_revisions q t se) = se_next_sequence se" "se_events (bump_revisions q t se) = se_events se"
  by (simp_all add: bump_revisions_def)

lemma switch_active_leaf_ok:
  assumes "switch_active_leaf target r m se = Some (Inr (result, se'))"
  shows "validate_history_target se target = Some (Inr ())" "se_active_leaf_id se' = ht_leaf_id target"
    "se_entries se' = se_entries se" "se_actions se' = se_actions se" "se_inputs se' = se_inputs se"
    "se_session_revision se' = se_session_revision se + 1" "se_queue_revision se' = se_queue_revision se"
    "se_transcript_revision se' = se_transcript_revision se" "se_events se' = se_events se @ sw_events result"
    "length (sw_events result) = 1"
proof -
  obtain event se2 where e: "se2 = snd (insert_event EventHistorySwitched event (bump_revisions False False (se\<lparr>se_active_leaf_id := ht_leaf_id target\<rparr>)))"
    "sw_events result = [fst (insert_event EventHistorySwitched event (bump_revisions False False (se\<lparr>se_active_leaf_id := ht_leaf_id target\<rparr>)))]"
    "validate_history_target se target = Some (Inr ())" "se' = se2"
    using assms unfolding switch_active_leaf_def by (force simp: and_query_Inr Let_def split_def)
  then show "validate_history_target se target = Some (Inr ())" "se_active_leaf_id se' = ht_leaf_id target"
    "se_entries se' = se_entries se" "se_actions se' = se_actions se" "se_inputs se' = se_inputs se"
    "se_session_revision se' = se_session_revision se + 1" "se_queue_revision se' = se_queue_revision se"
    "se_transcript_revision se' = se_transcript_revision se" "se_events se' = se_events se @ sw_events result"
    "length (sw_events result) = 1"
    by (simp_all add: bump_revisions_def)
qed

section \<open>Storing and loading\<close>

text \<open>The serial numbers of the entries: every one is below the next.\<close>

definition sequences_ok :: "session_rows \<Rightarrow> bool" where
  "sequences_ok se \<longleftrightarrow> rows_ok (se_entries se) \<and> (\<forall>row \<in> set (se_entries se). er_sequence row < se_next_sequence se)"

lemma sort_key_snoc:
  assumes "\<forall>y \<in> set xs. f y \<le> f x"
  shows "sort_key f (xs @ [x]) = sort_key f xs @ [x]"
proof (rule properties_for_sort_key)
  show "filter (\<lambda>z. f k = f z) (sort_key f xs @ [x]) = filter (\<lambda>z. f k = f z) (xs @ [x])" for k
    using sort_key_stable [of f "f k" xs] by (simp add: eq_commute)
qed (use assms in \<open>auto simp: sorted_append\<close>)

lemma insert_stored_entry_rows:
  assumes "sequences_ok se"
  shows "sequences_ok (snd (insert_stored_entry entry se))"
    and "stored_transcript_entries (snd (insert_stored_entry entry se)) FullBody =
      stored_transcript_entries se FullBody @ (if ste_id entry \<in> er_id ` set (se_entries se) then [] else [entry])"
    and "er_id ` set (se_entries (snd (insert_stored_entry entry se))) = insert (ste_id entry) (er_id ` set (se_entries se))"
    and "se_active_leaf_id (snd (insert_stored_entry entry se)) = se_active_leaf_id se"
proof -
  have known: "row_by_id (se_entries se) (ste_id entry) \<noteq> None \<longleftrightarrow> ste_id entry \<in> er_id ` set (se_entries se)"
    using row_by_id_iff [of "se_entries se" "ste_id entry"] assms unfolding sequences_ok_def image_iff by (metis not_Some_eq)
  have le: "\<forall>row \<in> set (se_entries se). er_sequence row \<le> se_next_sequence se"
    using assms by (auto simp: sequences_ok_def less_le)
  show "sequences_ok (snd (insert_stored_entry entry se))"
    using assms known by (auto simp: sequences_ok_def rows_ok_def insert_stored_entry_def Let_def)
  show "stored_transcript_entries (snd (insert_stored_entry entry se)) FullBody =
      stored_transcript_entries se FullBody @ (if ste_id entry \<in> er_id ` set (se_entries se) then [] else [entry])"
    using known sort_key_snoc [of "se_entries se" er_sequence] le
    by (auto simp: stored_transcript_entries_def insert_stored_entry_def Let_def row_to_stored_entry_def)
  show "er_id ` set (se_entries (snd (insert_stored_entry entry se))) = insert (ste_id entry) (er_id ` set (se_entries se))"
    using known by (auto simp: insert_stored_entry_def Let_def)
  show "se_active_leaf_id (snd (insert_stored_entry entry se)) = se_active_leaf_id se"
    by (simp add: insert_stored_entry_def Let_def)
qed

lemma insert_entries_rows:
  assumes "sequences_ok se" and "distinct (map ste_id stored)"
  shows "sequences_ok (snd (insert_entries stored se))
    \<and> stored_transcript_entries (snd (insert_entries stored se)) FullBody =
        stored_transcript_entries se FullBody @ filter (\<lambda>e. ste_id e \<notin> er_id ` set (se_entries se)) stored"
  using assms
proof (induction stored arbitrary: se)
  case (Cons e stored)
  let ?se = "snd (insert_stored_entry e se)"
  note I = insert_stored_entry_rows [OF Cons.prems(1), of e]
  have "filter (\<lambda>x. ste_id x \<notin> er_id ` set (se_entries ?se)) stored
      = filter (\<lambda>x. ste_id x \<notin> er_id ` set (se_entries se)) stored"
    unfolding I(3) using Cons.prems(2) by (intro filter_cong) (auto intro: rev_image_eqI)
  with Cons.IH [OF I(1)] I(2) Cons.prems(2) show ?case by (simp add: split_def Let_def)
qed simp

lemma insert_all_events_entries [simp]: "se_entries (snd (insert_all_events events se)) = se_entries se \<and>
    se_active_leaf_id (snd (insert_all_events events se)) = se_active_leaf_id se"
  by (induction events arbitrary: se) (auto simp: split_def Let_def)

lemma insert_entries_events_entries [simp]: "se_entries (snd (insert_entries_events state records stored se)) = se_entries se \<and>
    se_active_leaf_id (snd (insert_entries_events state records stored se)) = se_active_leaf_id se"
  by (induction stored arbitrary: se) (auto simp: split_def Let_def insert_transcript_item_events_def)

lemma recover_session_rows:
  "se_entries (snd (recover_session stored leaf se)) = se_entries (snd (insert_entries stored se))
   \<and> se_active_leaf_id (snd (recover_session stored leaf se)) = leaf"
  by (simp add: recover_session_def split_def Let_def stale_unfinished_actions_def)

text \<open>
  A session that is recovered and loaded again is the session in memory, whatever part of its
  entries the database already had.
\<close>

lemma recover_then_load:
  assumes ok: "sequences_ok se" and st: "indexes_ok st"
    and old: "stored_transcript_entries se FullBody = take n (map stored_of_node (entries st))"
    and new: "se' = snd (recover_session (map stored_of_node (entries st)) (ts_active_leaf_id st) se)"
  shows "from_storage_entries (map node_of_stored (ss_entries (load_stored_session i meta FullBody se')))
      (ss_active_leaf_id (load_stored_session i meta FullBody se')) = Inr st"
proof -
  let ?all = "map stored_of_node (entries st)"
  have ids: "map ste_id ?all = map node_id (entries st)" by (simp add: stored_of_node_def)
  have d: "distinct (map ste_id ?all)"
    unfolding ids using entries_by_id(1) [OF indexes_okD(1) [OF st]] base_okD(1) [OF indexes_okD(1) [OF st]] by simp
  have "er_id ` set (se_entries se) = ste_id ` set (stored_transcript_entries se FullBody)"
    by (simp add: stored_transcript_entries_def image_image row_to_stored_entry_def)
  then have known: "er_id ` set (se_entries se) = ste_id ` set (take n ?all)" by (simp add: old)
  have split: "?all = take n ?all @ drop n ?all" by simp
  have disj: "ste_id ` set (take n ?all) \<inter> ste_id ` set (drop n ?all) = {}"
    using d append_take_drop_id [of n ?all] by (metis distinct_append map_append set_map)
  have "filter (\<lambda>e. ste_id e \<notin> ste_id ` set (take n ?all)) (take n ?all) = []" by simp
  moreover have "filter (\<lambda>e. ste_id e \<notin> ste_id ` set (take n ?all)) (drop n ?all) = drop n ?all"
    using disj by (auto simp: filter_id_conv)
  ultimately have "filter (\<lambda>e. ste_id e \<notin> er_id ` set (se_entries se)) ?all = drop n ?all"
    unfolding known by (metis filter_append append_Nil split)
  then have all: "stored_transcript_entries (snd (insert_entries ?all se)) FullBody = ?all"
    using insert_entries_rows [OF ok d] old split by metis
  have "stored_transcript_entries se' FullBody = ?all"
    using all recover_session_rows by (simp add: new stored_transcript_entries_def)
  then show ?thesis using from_storage_entries_entries [OF st] recover_session_rows
    by (simp add: load_stored_session_def new o_def)
qed

end
