(* ===== verification/Store_Turn_Cards.thy ===== *)
theory Store_Turn_Cards
  imports Store_Transcript_Proofs
begin

text \<open>
  The pages of turn cards (\<open>agent-store/src/postgres/turn_cards.rs\<close>, \<open>transcript_turns\<close> of
  \<open>transcript.rs\<close>): the walk that reads the rows of a page, the cards that are folded from them,
  and what a page keeps of the branch.
\<close>

section \<open>The rows of a page\<close>

record TurnCardRow =
  cr_id :: string
  cr_parent_id :: "string option"
  cr_compaction_source_leaf_id :: "string option"
  cr_timestamp_ms :: u64
  cr_sequence :: int
  cr_entry :: "TranscriptEntryRecord option"
  cr_item_type :: string
  cr_turn_id :: "TurnId option"
  cr_compaction_turn_started_at_ms :: "u64 option"
  cr_outcome :: "TurnOutcome option"

definition display_parent_id :: "TurnCardRow \<Rightarrow> string option" where
  "display_parent_id row =
     (if cr_item_type row = ''compaction_summary'' then cr_compaction_source_leaf_id row else cr_parent_id row)"

fun is_turn_started :: "TranscriptItem \<Rightarrow> bool" where
  "is_turn_started (TurnStarted t) = True"
| "is_turn_started _ = False"

fun is_assistant_message :: "TranscriptItem \<Rightarrow> bool" where
  "is_assistant_message (AssistantMessageItem m) = True"
| "is_assistant_message _ = False"

fun is_daemon_observation :: "TranscriptItem \<Rightarrow> bool" where
  "is_daemon_observation (DaemonToolObservationItem ob) = True"
| "is_daemon_observation _ = False"

text \<open>The sum over the rows from the root: the number of the turn that each row belongs to.\<close>

fun with_ordinals :: "nat \<Rightarrow> (entry_row, string) walk_row list \<Rightarrow> ((entry_row, string) walk_row \<times> nat) list" where
  "with_ordinals n [] = []"
| "with_ordinals n (w # ws) =
     (let ordinal = n + (if is_turn_started (er_item (wr_row w)) then 1 else 0) in (w, ordinal) # with_ordinals ordinal ws)"

definition terminal_assistant :: "((entry_row, string) walk_row \<times> nat) list \<Rightarrow> nat \<Rightarrow> nat option" where
  "terminal_assistant card_rows ordinal =
     (case map (wr_depth \<circ> fst) (filter (\<lambda>(w, n). n = ordinal \<and> is_assistant_message (er_item (wr_row w))) card_rows) of
        [] \<Rightarrow> None
      | depth # depths \<Rightarrow> Some (fold min depths depth))"

definition body_item :: "((entry_row, string) walk_row \<times> nat) list \<Rightarrow> (entry_row, string) walk_row \<times> nat \<Rightarrow> TranscriptItem option" where
  "body_item card_rows row =
     (let item = er_item (wr_row (fst row))
      in if is_user_message item \<or> is_daemon_observation item
           \<or> terminal_assistant card_rows (snd row) = Some (wr_depth (fst row))
         then Some item else None)"

definition turn_card_row :: "entry_row \<Rightarrow> TranscriptItem option \<Rightarrow> store_error + TurnCardRow" where
  "turn_card_row row body =
     (let kind = item_type (er_item row);
          record_of = (\<lambda>item. \<lparr>ter_id = er_id row, ter_parent_id = er_parent_id row, ter_timestamp_ms = er_timestamp_ms row,
            ter_sequence = er_sequence row, ter_item = item, ter_provider_replay = []\<rparr>);
          make = (\<lambda>entry. Inr
            \<lparr>cr_id = er_id row, cr_parent_id = er_parent_id row,
             cr_compaction_source_leaf_id =
               (case er_item row of CompactionSummaryItem s \<Rightarrow> Some (cs_source_leaf_id s) | _ \<Rightarrow> None),
             cr_timestamp_ms = er_timestamp_ms row, cr_sequence = er_sequence row, cr_entry = entry, cr_item_type = kind,
             cr_turn_id = TranscriptItem_turn_id (er_item row),
             cr_compaction_turn_started_at_ms =
               (case er_item row of CompactionSummaryItem s \<Rightarrow> cs_turn_started_at_ms s | _ \<Rightarrow> None),
             cr_outcome = (case er_item row of TurnFinished t outcome \<Rightarrow> Some outcome | _ \<Rightarrow> None)\<rparr>)
      in if kind \<in> {''user_message'', ''assistant_message'', ''daemon_tool_observation''}
         then (case body of
             Some item \<Rightarrow> make (Some (record_of item))
           | None \<Rightarrow> if kind = ''assistant_message'' then make None else Inl (MissingBodyItem kind))
         else make None)"

fun sum_all :: "('a \<Rightarrow> 'e + 'b) \<Rightarrow> 'a list \<Rightarrow> 'e + 'b list" where
  "sum_all f [] = Inr []"
| "sum_all f (x # xs) =
     (case f x of Inl e \<Rightarrow> Inl e | Inr y \<Rightarrow> (case sum_all f xs of Inl e \<Rightarrow> Inl e | Inr ys \<Rightarrow> Inr (y # ys)))"

definition card_walk :: "session_rows \<Rightarrow> nat \<Rightarrow> (entry_row, string) walk_row \<Rightarrow> (entry_row, string) walk_row option" where
  "card_walk se = walk_step er_id (\<lambda>row. is_turn_started (er_item row)) (display_step (se_entries se))"

definition active_branch_turn_card_rows ::
  "session_rows \<Rightarrow> string option \<Rightarrow> nat \<Rightarrow> (store_error + TurnCardRow list) option" where
  "active_branch_turn_card_rows se before_entry_id limit =
     map_option (\<lambda>branch.
         let card_rows = with_ordinals 0 (rev (sort_key wr_depth branch))
         in if list_ex (\<lambda>(w, ordinal). wr_ancestry_invalid w) card_rows then Inl TranscriptCycle
            else sum_all (\<lambda>row. turn_card_row (wr_row (fst row)) (body_item card_rows row)) card_rows)
       (recursive_union_all (card_walk se limit)
         (map (walk_start er_id (\<lambda>row. is_turn_started (er_item row)))
           (rows_at (se_entries se)
             (case before_entry_id of Some i \<Rightarrow> Some i | None \<Rightarrow> se_active_leaf_id se))))"

section \<open>Cards\<close>

datatype TurnCardStatus = CardCompleted | CardOpen | CardCompacted

record MutableTurnCard =
  mt_turn_id :: "TurnId option"
  mt_start_entry_id :: "string option"
  mt_boundary_entry_id :: "string option"
  mt_active_leaf_id :: string
  mt_start_sequence :: int
  mt_end_sequence :: int
  mt_start_timestamp_ms :: u64
  mt_timestamp_ms :: u64
  mt_user_messages :: "TranscriptEntryRecord list"
  mt_daemon_observations :: "TranscriptEntryRecord list"
  mt_assistant_message :: "TranscriptEntryRecord option"
  mt_summary :: "string option"
  mt_status :: TurnCardStatus
  mt_outcome :: "TurnOutcome option"

record CompactionResumeAnchor =
  an_turn_id :: "TurnId option"
  an_start_timestamp_ms :: "u64 option"
  an_start_sequence :: "int option"

record TurnCardRecord =
  tu_id :: string
  tu_turn_id :: "TurnId option"
  tu_status :: TurnCardStatus
  tu_outcome :: "TurnOutcome option"
  tu_start_entry_id :: "string option"
  tu_boundary_entry_id :: "string option"
  tu_active_leaf_id :: string
  tu_start_sequence :: int
  tu_end_sequence :: int
  tu_start_timestamp_ms :: u64
  tu_timestamp_ms :: u64
  tu_user_messages :: "TranscriptEntryRecord list"
  tu_daemon_observations :: "TranscriptEntryRecord list"
  tu_assistant_message :: "TranscriptEntryRecord option"
  tu_summary :: "string option"
  tu_can_resume :: bool

definition visible_user :: "TranscriptEntryRecord \<Rightarrow> bool" where
  "visible_user entry \<longleftrightarrow> (case ter_item entry of UserMessageItem m \<Rightarrow> \<not> um_replayed_after_compaction m | _ \<Rightarrow> False)"

definition append_entry_to_turn_card :: "MutableTurnCard \<Rightarrow> TurnCardRow \<Rightarrow> MutableTurnCard" where
  "append_entry_to_turn_card turn row =
     (let turn = turn\<lparr>mt_active_leaf_id := cr_id row, mt_end_sequence := cr_sequence row, mt_timestamp_ms := cr_timestamp_ms row\<rparr>;
          turn = (if mt_turn_id turn = None then turn\<lparr>mt_turn_id := cr_turn_id row\<rparr> else turn);
          kind = cr_item_type row
      in if kind = ''user_message''
         then (case cr_entry row of
             Some entry \<Rightarrow> if visible_user entry then turn\<lparr>mt_user_messages := mt_user_messages turn @ [entry]\<rparr> else turn
           | None \<Rightarrow> turn)
         else if kind = ''assistant_message''
         then (case cr_entry row of Some entry \<Rightarrow> turn\<lparr>mt_assistant_message := Some entry\<rparr> | None \<Rightarrow> turn)
         else if kind = ''daemon_tool_observation''
         then (case cr_entry row of
             Some entry \<Rightarrow> turn\<lparr>mt_daemon_observations := mt_daemon_observations turn @ [entry]\<rparr>
           | None \<Rightarrow> turn)
         else if kind = ''turn_finished''
         then turn\<lparr>mt_turn_id := option_or (cr_turn_id row) (mt_turn_id turn), mt_boundary_entry_id := Some (cr_id row),
                   mt_status := CardCompleted, mt_outcome := cr_outcome row\<rparr>
         else if kind = ''turn_started''
         then turn\<lparr>mt_turn_id := option_or (cr_turn_id row) (mt_turn_id turn),
                   mt_start_entry_id := option_or (mt_start_entry_id turn) (Some (cr_id row))\<rparr>
         else if kind = ''compaction_summary''
         then turn\<lparr>mt_turn_id := option_or (cr_turn_id row) (mt_turn_id turn),
                   mt_start_timestamp_ms := unwrap_or (cr_compaction_turn_started_at_ms row) (mt_start_timestamp_ms turn)\<rparr>
         else turn)"

definition finalize_turn_card :: "MutableTurnCard \<Rightarrow> TurnCardRecord" where
  "finalize_turn_card turn =
     \<lparr>tu_id = unwrap_or (option_or (mt_boundary_entry_id turn) (mt_start_entry_id turn)) (mt_active_leaf_id turn),
      tu_turn_id = mt_turn_id turn, tu_status = mt_status turn, tu_outcome = mt_outcome turn,
      tu_start_entry_id = mt_start_entry_id turn, tu_boundary_entry_id = mt_boundary_entry_id turn,
      tu_active_leaf_id = mt_active_leaf_id turn, tu_start_sequence = mt_start_sequence turn,
      tu_end_sequence = mt_end_sequence turn, tu_start_timestamp_ms = mt_start_timestamp_ms turn,
      tu_timestamp_ms = mt_timestamp_ms turn, tu_user_messages = mt_user_messages turn,
      tu_daemon_observations = mt_daemon_observations turn, tu_assistant_message = mt_assistant_message turn,
      tu_summary = mt_summary turn,
      tu_can_resume = (mt_outcome turn \<in> {Some InterruptedOutcome, Some CrashedOutcome})\<rparr>"

definition close_open_turn_card :: "TurnCardRecord list \<Rightarrow> MutableTurnCard option \<Rightarrow> TurnCardRecord list" where
  "close_open_turn_card cards current = (case current of None \<Rightarrow> cards | Some turn \<Rightarrow> cards @ [finalize_turn_card turn])"

definition new_turn_card ::
  "TurnId option \<Rightarrow> string option \<Rightarrow> string \<Rightarrow> int \<Rightarrow> int \<Rightarrow> u64 \<Rightarrow> u64 \<Rightarrow> MutableTurnCard" where
  "new_turn_card turn start_entry leaf start_sequence end_sequence start_timestamp timestamp =
     \<lparr>mt_turn_id = turn, mt_start_entry_id = start_entry, mt_boundary_entry_id = None, mt_active_leaf_id = leaf,
      mt_start_sequence = start_sequence, mt_end_sequence = end_sequence, mt_start_timestamp_ms = start_timestamp,
      mt_timestamp_ms = timestamp, mt_user_messages = [], mt_daemon_observations = [], mt_assistant_message = None,
      mt_summary = None, mt_status = CardOpen, mt_outcome = None\<rparr>"

text \<open>One row: the finished cards, the card that is open, and the anchor of the last compaction.\<close>

type_synonym card_state = "TurnCardRecord list \<times> MutableTurnCard option \<times> CompactionResumeAnchor option"

definition turn_card_step :: "TurnCardRow \<Rightarrow> card_state \<Rightarrow> card_state" where
  "turn_card_step row state =
     (case state of (cards, current, anchor) \<Rightarrow>
        if cr_item_type row = ''compaction_summary''
        then
          let anchor = Some \<lparr>an_turn_id = cr_turn_id row, an_start_timestamp_ms = cr_compaction_turn_started_at_ms row,
                an_start_sequence = map_option (\<lambda>_. cr_sequence row) (cr_compaction_turn_started_at_ms row)\<rparr>
          in if cr_compaction_turn_started_at_ms row = None then (close_open_turn_card cards current, None, anchor)
             else (cards, map_option (\<lambda>turn. append_entry_to_turn_card turn row) current, anchor)
        else
          let started = (cr_item_type row = ''turn_started'');
              cards = (if started then close_open_turn_card cards current else cards);
              anchor = (if started then None else anchor);
              current = (if started
                then Some (new_turn_card (cr_turn_id row) (Some (cr_id row)) (cr_id row) (cr_sequence row) (cr_sequence row)
                  (cr_timestamp_ms row) (cr_timestamp_ms row))
                else current);
              start_sequence = unwrap_or (Option.bind anchor an_start_sequence) (cr_sequence row);
              turn = unwrap_or current (new_turn_card
                (option_or (cr_turn_id row) (Option.bind anchor an_turn_id)) None (cr_id row) start_sequence (cr_sequence row)
                (unwrap_or (Option.bind anchor an_start_timestamp_ms) (cr_timestamp_ms row)) (cr_timestamp_ms row));
              turn = append_entry_to_turn_card turn row
          in if cr_item_type row = ''turn_finished'' then (close_open_turn_card cards (Some turn), None, anchor)
             else (cards, Some turn, anchor))"

definition turn_cards_from_rows :: "TurnCardRow list \<Rightarrow> TurnCardRecord list" where
  "turn_cards_from_rows rows =
     (case fold turn_card_step rows ([], None, None) of (cards, current, anchor) \<Rightarrow> close_open_turn_card cards current)"

record TurnCardPage =
  pg_next_before_entry_id :: "string option"
  pg_cards :: "TurnCardRecord list"

definition active_branch_turn_card_page ::
  "session_rows \<Rightarrow> string option \<Rightarrow> nat \<Rightarrow> (store_error + TurnCardPage) option" where
  "active_branch_turn_card_page se before_entry_id limit =
     and_query (active_branch_turn_card_rows se before_entry_id limit) (\<lambda>rows.
       Some (Inr
         \<lparr>pg_next_before_entry_id = (case rows of [] \<Rightarrow> None | row # _ \<Rightarrow> display_parent_id row),
          pg_cards = turn_cards_from_rows rows\<rparr>))"

definition DEFAULT_TRANSCRIPT_TURN_LIMIT :: int where "DEFAULT_TRANSCRIPT_TURN_LIMIT = 50"

definition MAX_TRANSCRIPT_TURN_LIMIT :: int where "MAX_TRANSCRIPT_TURN_LIMIT = 200"

record TranscriptTurnsResult =
  tt_active_leaf_id :: "string option"
  tt_session_revision :: int
  tt_transcript_revision :: int
  tt_before_entry_id :: "string option"
  tt_next_before_entry_id :: "string option"
  tt_has_more_before :: bool
  tt_limit :: nat
  tt_cards :: "TurnCardRecord list"

definition transcript_turns :: "session_rows \<Rightarrow> string option \<Rightarrow> int option \<Rightarrow> (store_error + TranscriptTurnsResult) option" where
  "transcript_turns se before_entry_id limit =
     (let n = clamped limit DEFAULT_TRANSCRIPT_TURN_LIMIT MAX_TRANSCRIPT_TURN_LIMIT
      in and_query
           (if se_active_leaf_id se \<noteq> None \<or> before_entry_id \<noteq> None
            then active_branch_turn_card_page se before_entry_id n
            else Some (Inr \<lparr>pg_next_before_entry_id = None, pg_cards = []\<rparr>)) (\<lambda>page.
           Some (Inr
             \<lparr>tt_active_leaf_id = se_active_leaf_id se, tt_session_revision = se_session_revision se,
              tt_transcript_revision = se_transcript_revision se, tt_before_entry_id = before_entry_id,
              tt_next_before_entry_id = pg_next_before_entry_id page,
              tt_has_more_before = (pg_next_before_entry_id page \<noteq> None), tt_limit = n, tt_cards = pg_cards page\<rparr>)))"

end
