(* ===== verification/Store_Turn_Cards_Proofs.thy ===== *)
theory Store_Turn_Cards_Proofs
  imports Store_Turn_Cards
begin

text \<open>
  What a page of turn cards keeps of the branch (\<open>agent-store/src/postgres/turn_cards.rs\<close>).
\<close>

section \<open>The walk of a page\<close>

abbreviation starts_turn :: "entry_row \<Rightarrow> bool" where
  "starts_turn row \<equiv> is_turn_started (er_item row)"

lemma display_reaches_table:
  assumes "x \<in> set rows" and "(x, y) \<in> (follows (display_step rows))\<^sup>*"
  shows "y \<in> set rows"
  using assms(2,1) by (induction rule: rtrancl_induct) (auto simp: display_step_def bind_eq_Some_conv dest: row_by_id_set)

lemma walk_depths:
  assumes "trail (walk_step ident boundary walk limit) (walk_start ident boundary x) ws"
  shows "map wr_depth ws = [0..<length ws]"
  using walk_trail_nth [OF assms] by (intro nth_equalityI) (auto simp: walk_inv_def)

lemma sort_by_depth: "map wr_depth ws = [0..<length ws] \<Longrightarrow> sort_key wr_depth ws = ws"
  by (intro sort_key_id_if_sorted) simp

text \<open>On a valid branch the walk delivers the first rows of the trail, none of them invalid.\<close>

lemma card_walk_prefix:
  assumes ok: "rows_ok rows" and x: "x \<in> set rows" and tr: "trail (display_step rows) x ys"
    and ws: "trail (walk_step er_id starts_turn (display_step rows) limit) (walk_start er_id starts_turn x) ws"
  shows "length ws \<le> length ys" "map wr_row ws = take (length ws) ys" "\<forall>w \<in> set ws. \<not> wr_ancestry_invalid w"
proof -
  have inv: "steps (display_step rows) i x = Some (wr_row (ws ! i))" if "i < length ws" for i
    using walk_trail_nth [OF ws that] by (simp add: walk_inv_def)
  show le: "length ws \<le> length ys"
  proof (rule ccontr)
    assume "\<not> length ws \<le> length ys"
    then have "steps (display_step rows) (length ys) x = Some (wr_row (ws ! length ys))" by (intro inv) simp
    with trail_steps [OF tr] show False by simp
  qed
  show "map wr_row ws = take (length ws) ys"
    using inv trail_nth [OF tr] le by (intro nth_equalityI) (auto simp: less_le_trans)
  have key: "a = b" if "er_id a = er_id b" "(x, a) \<in> (follows (display_step rows))\<^sup>*" "(x, b) \<in> (follows (display_step rows))\<^sup>*" for a b
  proof -
    have "row_by_id rows (er_id a) = Some a" "row_by_id rows (er_id a) = Some b"
      using display_reaches_table [OF x that(2)] display_reaches_table [OF x that(3)] that(1) by (simp_all add: row_by_id_iff [OF ok])
    then show ?thesis by simp
  qed
  show "\<forall>w \<in> set ws. \<not> wr_ancestry_invalid w"
    using walk_invalid_no_trail [OF ws _ _ key] tr by blast
qed

text \<open>What a row of the page keeps of its entry.\<close>

definition card_row_of :: "entry_row \<Rightarrow> TurnCardRow \<Rightarrow> bool" where
  "card_row_of row r \<longleftrightarrow> cr_id r = er_id row \<and> display_parent_id r = next_id row
     \<and> cr_item_type r = item_type (er_item row)
     \<and> (is_user_message (er_item row) \<or> is_daemon_observation (er_item row) \<longrightarrow> cr_entry r \<noteq> None)
     \<and> cr_entry r \<in> {None, Some (row_to_transcript_entry UiBody row)}"

lemma turn_card_row_body:
  "(is_user_message (er_item row) \<or> is_daemon_observation (er_item row) \<longrightarrow> body = Some (er_item row)) \<Longrightarrow>
     body \<in> {None, Some (er_item row)} \<Longrightarrow> \<exists>r. turn_card_row row body = Inr r \<and> card_row_of row r"
  by (cases "er_item row"; cases body)
    (auto simp: turn_card_row_def display_parent_id_def card_row_of_def row_to_transcript_entry_def Let_def)

lemma sum_all_Inr:
  "(\<And>x. x \<in> set xs \<Longrightarrow> \<exists>y. f x = Inr y \<and> P x y) \<Longrightarrow> \<exists>ys. sum_all f xs = Inr ys \<and> list_all2 P xs ys"
proof (induction xs)
  case (Cons x xs)
  obtain y where "f x = Inr y" "P x y" using Cons.prems by auto
  moreover obtain ys where "sum_all f xs = Inr ys" "list_all2 P xs ys" using Cons by auto
  ultimately show ?case by auto
qed simp

lemma with_ordinals_fst [simp]: "map fst (with_ordinals n ws) = ws"
  by (induction ws arbitrary: n) (simp_all add: Let_def)

lemma trail_next: "trail walk x ys \<Longrightarrow> Suc i < length ys \<Longrightarrow> walk (ys ! i) = Some (ys ! Suc i)"
  using trail_nth [of walk x ys i] trail_nth [of walk x ys "Suc i"] by simp

lemma walk_counts:
  assumes ws: "trail (walk_step ident boundary walk limit) (walk_start ident boundary x) ws" and "i < length ws"
  shows "wr_boundary_count (ws ! i) = length (filter boundary (map wr_row (take (Suc i) ws)))"
  using assms(2)
proof (induction i)
  case 0
  obtain zs where "ws = walk_start ident boundary x # zs" using trail_head [OF ws] by blast
  then show ?case by (simp add: walk_start_def)
next
  case (Suc i)
  then show ?case using walk_trail_inner [OF ws Suc.prems] by (simp add: take_Suc_conv_app_nth)
qed

text \<open>Where the walk stops before the end of the trail: at the row that starts the last turn of the page.\<close>

lemma card_walk_stops:
  assumes ok: "rows_ok rows" and x: "x \<in> set rows" and tr: "trail (display_step rows) x ys" and pos: "0 < limit"
    and ws: "trail (walk_step er_id starts_turn (display_step rows) limit) (walk_start er_id starts_turn x) ws"
    and short: "length ws < length ys"
  shows "starts_turn (ys ! (length ws - 1))" "length (filter starts_turn (take (length ws) ys)) = limit"
proof -
  note P = card_walk_prefix [OF ok x tr ws]
  obtain zs where "ws = walk_start er_id starts_turn x # zs" using trail_head [OF ws] by blast
  then obtain k where k: "length ws = Suc k" by simp
  let ?w = "ws ! k"
  have "ws ! k \<in> set ws" using k by simp
  then have valid: "\<not> wr_ancestry_invalid ?w" using P(3) by blast
  have row: "wr_row (ws ! i) = ys ! i" if "i < length ws" for i
    using P(2) that short by (metis length_map less_trans nth_map nth_take)
  have "walk_step er_id starts_turn (display_step rows) limit ?w = None"
    using trail_last [OF ws] k last_conv_nth [of ws] by (cases ws) simp_all
  moreover have "display_step rows (wr_row ?w) = Some (ys ! Suc k)"
    using trail_next [OF tr, of k] short k row by simp
  ultimately have full: "limit \<le> wr_boundary_count ?w" using valid by (auto simp: walk_step_def split: if_splits)
  have "starts_turn (wr_row ?w) \<and> wr_boundary_count ?w = limit"
  proof (cases k)
    case 0
    have "ws ! 0 = walk_start er_id starts_turn x" using \<open>ws = walk_start er_id starts_turn x # zs\<close> by simp
    with 0 full pos show ?thesis by (simp add: walk_start_def split: if_splits)
  next
    case (Suc j)
    then show ?thesis using walk_trail_inner [OF ws, of j] k full by (auto split: if_splits)
  qed
  then show "starts_turn (ys ! (length ws - 1))" "length (filter starts_turn (take (length ws) ys)) = limit"
    using walk_counts [OF ws, of k] row k P(2) by (simp_all add: take_map flip: P(2))
qed

lemma turn_card_rows_valid:
  assumes ok: "rows_ok (se_entries se)" and tr: "trail (display_step (se_entries se)) x ys" and pos: "0 < limit"
    and start: "rows_at (se_entries se) (case before of Some i \<Rightarrow> Some i | None \<Rightarrow> se_active_leaf_id se) = [x]"
  shows "\<exists>k page. 0 < k \<and> k \<le> length ys \<and> active_branch_turn_card_rows se before limit = Some (Inr page)
    \<and> list_all2 card_row_of (rev (take k ys)) page
    \<and> (k < length ys \<longrightarrow> starts_turn (ys ! (k - 1)) \<and> length (filter starts_turn (take k ys)) = limit)"
proof -
  let ?rows = "se_entries se"
  have x: "x \<in> set ?rows" using rows_at_cases [of ?rows] start by (metis list.inject not_Cons_self2)
  obtain ws where ws: "trail (walk_step er_id starts_turn (display_step ?rows) limit) (walk_start er_id starts_turn x) ws"
    using walk_ends [OF finite_steps(2) x] by blast
  note P = card_walk_prefix [OF ok x tr ws]
  obtain zs where "ws = walk_start er_id starts_turn x # zs" using trail_head [OF ws] by blast
  then have ne: "0 < length ws" by simp
  let ?cards = "with_ordinals 0 (rev ws)"
  have valid: "\<not> list_ex (\<lambda>(w, ordinal). wr_ancestry_invalid w) ?cards"
  proof -
    have "fst ` set ?cards = set ws" using with_ordinals_fst [of 0 "rev ws"] by (metis list.set_map set_rev)
    then show ?thesis using P(3) by (force simp: list_ex_iff)
  qed
  have "\<exists>r. turn_card_row (wr_row (fst row)) (body_item ?cards row) = Inr r \<and> card_row_of (wr_row (fst row)) r" for row
    by (rule turn_card_row_body) (simp_all add: body_item_def Let_def)
  then obtain page where page: "sum_all (\<lambda>row. turn_card_row (wr_row (fst row)) (body_item ?cards row)) ?cards = Inr page"
    "list_all2 (\<lambda>row r. card_row_of (wr_row (fst row)) r) ?cards page"
    using sum_all_Inr [of ?cards "\<lambda>row. turn_card_row (wr_row (fst row)) (body_item ?cards row)"
        "\<lambda>row r. card_row_of (wr_row (fst row)) r"] by blast
  have "list_all2 card_row_of (map (wr_row \<circ> fst) ?cards) page" using page(2) by (simp add: list.rel_map)
  moreover have "map (wr_row \<circ> fst) ?cards = rev (take (length ws) ys)"
    using with_ordinals_fst [of 0 "rev ws"] P(2) by (metis map_map rev_map)
  ultimately have "list_all2 card_row_of (rev (take (length ws) ys)) page" by simp
  moreover have "active_branch_turn_card_rows se before limit = Some (Inr page)"
    using recursive_union_all_trail [OF ws] valid page(1) sort_by_depth [OF walk_depths [OF ws]]
    by (simp add: active_branch_turn_card_rows_def card_walk_def start Let_def)
  ultimately show ?thesis using ne P(1) card_walk_stops [OF ok x tr pos ws] by blast
qed

lemma turn_card_rows_total [simp]: "active_branch_turn_card_rows se before limit \<noteq> None"
proof -
  let ?start = "rows_at (se_entries se) (case before of Some i \<Rightarrow> Some i | None \<Rightarrow> se_active_leaf_id se)"
  consider "?start = []" | x where "x \<in> set (se_entries se)" "?start = [x]" using rows_at_cases by blast
  then show ?thesis
  proof cases
    case 1
    then show ?thesis by (simp add: active_branch_turn_card_rows_def)
  next
    case 2
    obtain ws where "trail (card_walk se limit) (walk_start er_id starts_turn x) ws"
      unfolding card_walk_def using walk_ends [OF finite_steps(2) 2(1)] by blast
    then show ?thesis using 2(2) by (simp add: active_branch_turn_card_rows_def recursive_union_all_trail)
  qed
qed

section \<open>The cards of a page\<close>

definition row_users :: "TurnCardRow \<Rightarrow> TranscriptEntryRecord list" where
  "row_users row =
     (if cr_item_type row = ''user_message'' then (case cr_entry row of Some e \<Rightarrow> filter visible_user [e] | None \<Rightarrow> []) else [])"

definition row_observations :: "TurnCardRow \<Rightarrow> TranscriptEntryRecord list" where
  "row_observations row =
     (if cr_item_type row = ''daemon_tool_observation'' then (case cr_entry row of Some e \<Rightarrow> [e] | None \<Rightarrow> []) else [])"

lemma append_entry_messages:
  "mt_user_messages (append_entry_to_turn_card turn row) = mt_user_messages turn @ row_users row"
  "mt_daemon_observations (append_entry_to_turn_card turn row) = mt_daemon_observations turn @ row_observations row"
  by (simp_all add: append_entry_to_turn_card_def row_users_def row_observations_def Let_def split: option.split)

definition state_users :: "card_state \<Rightarrow> TranscriptEntryRecord list" where
  "state_users st = (case st of (cards, current, anchor) \<Rightarrow>
     concat (map tu_user_messages cards) @ (case current of None \<Rightarrow> [] | Some turn \<Rightarrow> mt_user_messages turn))"

definition state_observations :: "card_state \<Rightarrow> TranscriptEntryRecord list" where
  "state_observations st = (case st of (cards, current, anchor) \<Rightarrow>
     concat (map tu_daemon_observations cards) @ (case current of None \<Rightarrow> [] | Some turn \<Rightarrow> mt_daemon_observations turn))"

lemma close_open_turn_messages:
  "concat (map tu_user_messages (close_open_turn_card cards current))
     = concat (map tu_user_messages cards) @ (case current of None \<Rightarrow> [] | Some turn \<Rightarrow> mt_user_messages turn)"
  "concat (map tu_daemon_observations (close_open_turn_card cards current))
     = concat (map tu_daemon_observations cards) @ (case current of None \<Rightarrow> [] | Some turn \<Rightarrow> mt_daemon_observations turn)"
  by (simp_all add: close_open_turn_card_def finalize_turn_card_def split: option.split)

lemma compaction_no_messages:
  "cr_item_type row = ''compaction_summary'' \<Longrightarrow> row_users row = [] \<and> row_observations row = []"
  by (simp add: row_users_def row_observations_def)

lemma turn_card_step_messages:
  "state_users (turn_card_step row st) = state_users st @ row_users row"
  "state_observations (turn_card_step row st) = state_observations st @ row_observations row"
proof -
  obtain cards current anchor where st: "st = (cards, current, anchor)" by (cases st)
  show "state_users (turn_card_step row st) = state_users st @ row_users row"
    using compaction_no_messages [of row]
    by (cases current) (simp_all add: st turn_card_step_def state_users_def Let_def append_entry_messages
        close_open_turn_messages new_turn_card_def)
  show "state_observations (turn_card_step row st) = state_observations st @ row_observations row"
    using compaction_no_messages [of row]
    by (cases current) (simp_all add: st turn_card_step_def state_observations_def Let_def append_entry_messages
        close_open_turn_messages new_turn_card_def)
qed

lemma turn_cards_messages:
  "concat (map tu_user_messages (turn_cards_from_rows rows)) = concat (map row_users rows)"
  "concat (map tu_daemon_observations (turn_cards_from_rows rows)) = concat (map row_observations rows)"
proof -
  have "state_users (fold turn_card_step rows st) = state_users st @ concat (map row_users rows)
      \<and> state_observations (fold turn_card_step rows st) = state_observations st @ concat (map row_observations rows)" for st
    by (induction rows arbitrary: st) (simp_all add: turn_card_step_messages)
  from this [of "([], None, None)"]
  show "concat (map tu_user_messages (turn_cards_from_rows rows)) = concat (map row_users rows)"
    "concat (map tu_daemon_observations (turn_cards_from_rows rows)) = concat (map row_observations rows)"
    unfolding turn_cards_from_rows_def
    by (simp_all add: close_open_turn_messages state_users_def state_observations_def split: prod.splits)
qed

lemma item_type_iff:
  "item_type item = ''user_message'' \<longleftrightarrow> is_user_message item"
  "item_type item = ''assistant_message'' \<longleftrightarrow> is_assistant_message item"
  "item_type item = ''daemon_tool_observation'' \<longleftrightarrow> is_daemon_observation item"
  by (cases item; simp)+

lemma card_row_entry:
  "card_row_of row r \<Longrightarrow> is_user_message (er_item row) \<or> is_daemon_observation (er_item row) \<Longrightarrow>
     cr_entry r = Some (row_to_transcript_entry UiBody row)"
  unfolding card_row_of_def by (metis insert_iff singletonD)

lemma visible_user_is_user: "visible_user e \<Longrightarrow> is_user_message (ter_item e)"
  by (cases "ter_item e") (simp_all add: visible_user_def)

lemma ter_item_row [simp]: "ter_item (row_to_transcript_entry mode row) = er_item row"
  by (simp add: row_to_transcript_entry_def)

lemma card_row_messages:
  assumes "card_row_of row r"
  shows "row_users r = filter visible_user [row_to_transcript_entry UiBody row]"
    and "row_observations r = filter (\<lambda>e. is_daemon_observation (ter_item e)) [row_to_transcript_entry UiBody row]"
proof -
  have kind: "cr_item_type r = item_type (er_item row)" using assms by (simp add: card_row_of_def)
  show "row_users r = filter visible_user [row_to_transcript_entry UiBody row]"
    unfolding row_users_def kind item_type_iff
    using card_row_entry [OF assms] visible_user_is_user [of "row_to_transcript_entry UiBody row"]
    by (cases "is_user_message (er_item row)") auto
  show "row_observations r = filter (\<lambda>e. is_daemon_observation (ter_item e)) [row_to_transcript_entry UiBody row]"
    unfolding row_observations_def kind item_type_iff using card_row_entry [OF assms] by simp
qed

lemma card_rows_messages:
  "list_all2 card_row_of rows rs \<Longrightarrow>
     concat (map row_users rs) = filter visible_user (map (row_to_transcript_entry UiBody) rows)
   \<and> concat (map row_observations rs) = filter (\<lambda>e. is_daemon_observation (ter_item e)) (map (row_to_transcript_entry UiBody) rows)"
  by (induction rule: list_all2_induct) (simp_all add: card_row_messages)

section \<open>Paging\<close>

text \<open>
  A page is the end of the branch it was asked for: its cards have the messages and observations of
  that end, and the branch of its next cursor is what comes before it.
\<close>

lemma page_and_rest:
  assumes ok: "rows_ok (se_entries se)" and tr: "trail (display_step (se_entries se)) x ys" and pos: "0 < limit"
    and start: "rows_at (se_entries se) (case before of Some i \<Rightarrow> Some i | None \<Rightarrow> se_active_leaf_id se) = [x]"
  shows "\<exists>page older newer. active_branch_turn_card_page se before limit = Some (Inr page)
    \<and> map (row_to_transcript_entry UiBody) (rev ys) = older @ newer \<and> newer \<noteq> []
    \<and> concat (map tu_user_messages (pg_cards page)) = filter visible_user newer
    \<and> concat (map tu_daemon_observations (pg_cards page)) = filter (\<lambda>e. is_daemon_observation (ter_item e)) newer
    \<and> branch_entry_ids se (pg_next_before_entry_id page) = Some (Inr (map ter_id older))
    \<and> (older \<noteq> [] \<longrightarrow> is_turn_started (ter_item (hd newer)) \<and> length (filter (\<lambda>e. is_turn_started (ter_item e)) newer) = limit)"
proof -
  let ?walk = "display_step (se_entries se)" and ?rec = "row_to_transcript_entry UiBody"
  obtain k rows where k: "0 < k" "k \<le> length ys" "active_branch_turn_card_rows se before limit = Some (Inr rows)"
    "list_all2 card_row_of (rev (take k ys)) rows"
    "k < length ys \<longrightarrow> starts_turn (ys ! (k - 1)) \<and> length (filter starts_turn (take k ys)) = limit"
    using turn_card_rows_valid [OF ok tr pos start] by blast
  define older newer where "older = map ?rec (rev (drop k ys))" and "newer = map ?rec (rev (take k ys))"
  have tk: "rev (take k ys) = ys ! (k - 1) # rev (take (k - 1) ys)"
    using k(1,2) take_Suc_conv_app_nth [of "k - 1" ys] by simp
  then obtain r rs where rows: "rows = r # rs" "card_row_of (ys ! (k - 1)) r"
    using k(4) by (auto simp: list_all2_Cons1)
  have "branch_entry_ids se (next_id (ys ! (k - 1))) = Some (Inr (map ter_id older))"
  proof (cases "k < length ys")
    case True
    then have nxt: "?walk (ys ! (k - 1)) = Some (ys ! k)" using trail_next [OF tr, of "k - 1"] k(1) by simp
    then obtain i where i: "next_id (ys ! (k - 1)) = Some i" "row_by_id (se_entries se) i = Some (ys ! k)"
      by (auto simp: display_step_def bind_eq_Some_conv)
    have dr: "drop k ys = ys ! k # drop (Suc k) ys" using True by (simp add: Cons_nth_drop_Suc)
    then have "trail ?walk x (take k ys @ ys ! k # drop (Suc k) ys)" using tr by (metis append_take_drop_id)
    from active_records_trail(1) [OF i(2) trail_suffix [OF this], of er_id] show ?thesis
      unfolding branch_entry_ids_def i(1) older_def dr by (simp add: o_def)
  next
    case False
    then have "ys ! (k - 1) = last ys" using k(1,2) by (cases ys rule: rev_cases) auto
    then have "?walk (ys ! (k - 1)) = None" using trail_last [OF tr] by simp
    then have "rows_at (se_entries se) (next_id (ys ! (k - 1))) = []" by (simp add: display_step_def rows_at_def)
    with False show ?thesis by (simp add: branch_entry_ids_def older_def)
  qed
  moreover have "map ?rec (rev ys) = older @ newer"
    unfolding older_def newer_def by (metis append_take_drop_id map_append rev_append)
  moreover have "newer \<noteq> []" unfolding newer_def using tk by simp
  moreover have "older \<noteq> [] \<longrightarrow> is_turn_started (ter_item (hd newer)) \<and> length (filter (\<lambda>e. is_turn_started (ter_item e)) newer) = limit"
  proof
    assume "older \<noteq> []"
    then have "starts_turn (ys ! (k - 1))" "length (filter starts_turn (take k ys)) = limit" using k(5) by (auto simp: older_def)
    then show "is_turn_started (ter_item (hd newer)) \<and> length (filter (\<lambda>e. is_turn_started (ter_item e)) newer) = limit"
      unfolding newer_def using tk by (simp add: filter_map o_def row_to_transcript_entry_def rev_filter [symmetric])
  qed
  moreover have "active_branch_turn_card_page se before limit
      = Some (Inr \<lparr>pg_next_before_entry_id = next_id (ys ! (k - 1)), pg_cards = turn_cards_from_rows rows\<rparr>)"
    using k(3) rows by (simp add: active_branch_turn_card_page_def card_row_of_def)
  ultimately show ?thesis
    using card_rows_messages [OF k(4)] unfolding newer_def [symmetric]
    by (intro exI [of _ "\<lparr>pg_next_before_entry_id = next_id (ys ! (k - 1)), pg_cards = turn_cards_from_rows rows\<rparr>"]
        exI [of _ older] exI [of _ newer]) (simp add: turn_cards_messages)
qed

section \<open>Well-formed cards\<close>

text \<open>The type of a card: what its fields may hold together.\<close>

definition card_ok :: "TurnCardRecord \<Rightarrow> bool" where
  "card_ok c \<longleftrightarrow>
     list_all visible_user (tu_user_messages c)
   \<and> list_all (\<lambda>e. is_daemon_observation (ter_item e)) (tu_daemon_observations c)
   \<and> (case tu_assistant_message c of None \<Rightarrow> True | Some e \<Rightarrow> is_assistant_message (ter_item e))
   \<and> (case tu_boundary_entry_id c of
        None \<Rightarrow> tu_status c = CardOpen \<and> tu_outcome c = None \<and> tu_id c = unwrap_or (tu_start_entry_id c) (tu_active_leaf_id c)
      | Some b \<Rightarrow> tu_status c = CardCompleted \<and> tu_id c = b \<and> tu_active_leaf_id c = b)
   \<and> (tu_can_resume c \<longleftrightarrow> tu_outcome c \<in> {Some InterruptedOutcome, Some CrashedOutcome})"

definition open_ok :: "MutableTurnCard \<Rightarrow> bool" where
  "open_ok t \<longleftrightarrow>
     list_all visible_user (mt_user_messages t)
   \<and> list_all (\<lambda>e. is_daemon_observation (ter_item e)) (mt_daemon_observations t)
   \<and> (case mt_assistant_message t of None \<Rightarrow> True | Some e \<Rightarrow> is_assistant_message (ter_item e))
   \<and> mt_boundary_entry_id t = None \<and> mt_status t = CardOpen \<and> mt_outcome t = None"

text \<open>A row's entry is of the type that the row names.\<close>

definition card_row_ok :: "TurnCardRow \<Rightarrow> bool" where
  "card_row_ok row \<longleftrightarrow> (case cr_entry row of None \<Rightarrow> True | Some e \<Rightarrow> item_type (ter_item e) = cr_item_type row)"

lemma append_entry_open_ok:
  "card_row_ok row \<Longrightarrow> open_ok t \<Longrightarrow> cr_item_type row \<noteq> ''turn_finished'' \<Longrightarrow> open_ok (append_entry_to_turn_card t row)"
  unfolding open_ok_def card_row_ok_def append_entry_to_turn_card_def Let_def
  by (simp add: item_type_iff [symmetric] split: option.splits)

lemma finish_card_ok:
  "card_row_ok row \<Longrightarrow> open_ok t \<Longrightarrow> cr_item_type row = ''turn_finished'' \<Longrightarrow>
     card_ok (finalize_turn_card (append_entry_to_turn_card t row))"
  unfolding open_ok_def card_ok_def append_entry_to_turn_card_def Let_def
  by (simp add: finalize_turn_card_def option_or_def)

lemma finalize_open_ok: "open_ok t \<Longrightarrow> card_ok (finalize_turn_card t)"
  unfolding open_ok_def card_ok_def by (simp add: finalize_turn_card_def option_or_def)

definition cards_state_ok :: "card_state \<Rightarrow> bool" where
  "cards_state_ok st = (case st of (cards, current, anchor) \<Rightarrow> list_all card_ok cards \<and> (case current of None \<Rightarrow> True | Some t \<Rightarrow> open_ok t))"

lemma close_open_turn_ok:
  "list_all card_ok cards \<Longrightarrow> (case current of None \<Rightarrow> True | Some t \<Rightarrow> card_ok (finalize_turn_card t)) \<Longrightarrow>
     list_all card_ok (close_open_turn_card cards current)"
  by (simp add: close_open_turn_card_def split: option.splits)

lemma new_turn_card_ok [simp]: "open_ok (new_turn_card a b c d e f g)"
  by (simp add: open_ok_def new_turn_card_def)

lemma turn_card_step_ok:
  assumes "card_row_ok row" and "cards_state_ok st"
  shows "cards_state_ok (turn_card_step row st)"
proof -
  obtain cards current anchor where st: "st = (cards, current, anchor)" by (cases st)
  have c: "list_all card_ok cards" "\<And>t. current = Some t \<Longrightarrow> open_ok t" using assms(2) by (auto simp: st cards_state_ok_def)
  have closed: "list_all card_ok (close_open_turn_card cards current)"
    using c finalize_open_ok by (intro close_open_turn_ok) (auto split: option.splits)
  show ?thesis
  proof (cases "cr_item_type row = ''compaction_summary''")
    case True
    then show ?thesis using closed c append_entry_open_ok [OF assms(1)]
      by (cases current) (simp_all add: st turn_card_step_def cards_state_ok_def Let_def)
  next
    case False
    have gen: "cards_state_ok (if cr_item_type row = ''turn_finished''
        then (close_open_turn_card cards' (Some (append_entry_to_turn_card t row)), None, anchor')
        else (cards', Some (append_entry_to_turn_card t row), anchor'))"
      if "list_all card_ok cards'" "open_ok t" for cards' anchor' t
      using that append_entry_open_ok [OF assms(1) that(2)] finish_card_ok [OF assms(1) that(2)] close_open_turn_ok [OF that(1)]
      by (simp add: cards_state_ok_def)
    have old: "open_ok (unwrap_or current new)" if "open_ok new" for new using c(2) that by (cases current) auto
    show ?thesis
    proof (cases "cr_item_type row = ''turn_started''")
      case True
      then show ?thesis using gen [OF closed] False by (simp add: st turn_card_step_def Let_def)
    next
      case not_started: False
      show ?thesis unfolding st turn_card_step_def Let_def prod.case if_not_P [OF False] if_not_P [OF not_started]
        by (rule gen [OF c(1) old]) simp
    qed
  qed
qed

lemma turn_cards_ok: "list_all card_row_ok rows \<Longrightarrow> list_all card_ok (turn_cards_from_rows rows)"
proof -
  have "list_all card_row_ok rows \<Longrightarrow> cards_state_ok st \<Longrightarrow> cards_state_ok (fold turn_card_step rows st)" for st
    by (induction rows arbitrary: st) (simp_all add: turn_card_step_ok)
  from this [of "([], None, None)"] show "list_all card_row_ok rows \<Longrightarrow> ?thesis"
    by (cases "fold turn_card_step rows ([], None, None)")
      (auto simp: turn_cards_from_rows_def cards_state_ok_def finalize_open_ok intro!: close_open_turn_ok split: option.splits)
qed

lemma sum_all_mem: "sum_all f xs = Inr ys \<Longrightarrow> y \<in> set ys \<Longrightarrow> \<exists>x \<in> set xs. f x = Inr y"
proof (induction xs arbitrary: ys)
  case (Cons x xs)
  then show ?case by (fastforce split: sum.splits)
qed simp

lemma turn_card_row_ok: "turn_card_row row body = Inr r \<Longrightarrow> body \<in> {None, Some (er_item row)} \<Longrightarrow> card_row_ok r"
  by (cases "er_item row"; cases body) (auto simp: turn_card_row_def card_row_ok_def Let_def split: if_splits)

lemma turn_card_rows_ok:
  assumes "active_branch_turn_card_rows se before limit = Some (Inr rows)"
  shows "list_all card_row_ok rows"
proof -
  obtain cards where "sum_all (\<lambda>row. turn_card_row (wr_row (fst row)) (body_item cards row)) cards = Inr rows"
    using assms by (auto simp: active_branch_turn_card_rows_def Let_def split: if_splits)
  then have "\<exists>row. turn_card_row (wr_row (fst row)) (body_item cards row) = Inr r" if "r \<in> set rows" for r
    using sum_all_mem that by fastforce
  moreover have "body_item cards row \<in> {None, Some (er_item (wr_row (fst row)))}" for row
    by (simp add: body_item_def Let_def)
  ultimately show ?thesis using turn_card_row_ok unfolding list_all_iff by blast
qed

lemma transcript_turns_cards_ok:
  "transcript_turns se before limit = Some (Inr result) \<Longrightarrow> list_all card_ok (tt_cards result)"
  using turn_cards_ok [OF turn_card_rows_ok]
  by (auto simp: transcript_turns_def active_branch_turn_card_page_def and_query_Inr Let_def split: if_splits)

lemma transcript_turns_total: "transcript_turns se before limit \<noteq> None"
  unfolding transcript_turns_def active_branch_turn_card_page_def Let_def
  by (auto simp: and_query_None simp del: not_None_eq)

lemma clamped_pos: "1 \<le> most \<Longrightarrow> 0 < clamped limit usual most"
  by (simp add: clamped_def)

section \<open>All pages\<close>

text \<open>Following the pages from the newest to the oldest.\<close>

inductive turn_pages :: "session_rows \<Rightarrow> int option \<Rightarrow> string option \<Rightarrow> TurnCardRecord list \<Rightarrow> bool" for se limit where
  last_page: "transcript_turns se before limit = Some (Inr result) \<Longrightarrow> tt_next_before_entry_id result = None \<Longrightarrow>
    turn_pages se limit before (tt_cards result)"
| more_pages: "transcript_turns se before limit = Some (Inr result) \<Longrightarrow> tt_next_before_entry_id result = Some i \<Longrightarrow>
    turn_pages se limit (Some i) older \<Longrightarrow> turn_pages se limit before (older @ tt_cards result)"

lemma transcript_turns_page:
  assumes "active_branch_turn_card_page se before (clamped limit DEFAULT_TRANSCRIPT_TURN_LIMIT MAX_TRANSCRIPT_TURN_LIMIT) = Some (Inr page)"
    and "before \<noteq> None \<or> se_active_leaf_id se \<noteq> None"
  shows "\<exists>result. transcript_turns se before limit = Some (Inr result) \<and> tt_cards result = pg_cards page
    \<and> tt_next_before_entry_id result = pg_next_before_entry_id page"
  using assms by (auto simp: transcript_turns_def Let_def)

lemma missing_page:
  assumes "rows_at (se_entries se) (case before of Some i \<Rightarrow> Some i | None \<Rightarrow> se_active_leaf_id se) = []"
  shows "turn_pages se limit before []"
proof -
  have "\<exists>result. transcript_turns se before limit = Some (Inr result) \<and> tt_cards result = [] \<and> tt_next_before_entry_id result = None"
    using assms by (simp add: transcript_turns_def Let_def active_branch_turn_card_page_def active_branch_turn_card_rows_def
      turn_cards_from_rows_def close_open_turn_card_def)
  then show ?thesis using last_page by fastforce
qed

lemma branch_ids_trail:
  assumes row: "row_by_id (se_entries se) i = Some x" and ids: "branch_entry_ids se (Some i) = Some (Inr ids)"
  obtains ys where "trail (display_step (se_entries se)) x ys" "map er_id (rev ys) = ids"
proof (cases "\<exists>ys. trail (display_step (se_entries se)) x ys")
  case True
  then obtain ys where ys: "trail (display_step (se_entries se)) x ys" ..
  from that [OF ys] show ?thesis using active_records_trail(1) [OF row ys, of er_id] ids unfolding branch_entry_ids_def by simp
next
  case False
  show ?thesis using active_records_trail(2) [OF row False, of er_id] ids unfolding branch_entry_ids_def by simp
qed

lemma same_ids_same_rows:
  assumes "rows_ok rows" and "set xs \<subseteq> set rows" and "set ys \<subseteq> set rows"
  shows "map er_id xs = map er_id ys \<Longrightarrow> xs = ys"
  using assms by (intro map_inj_on [of er_id]) (auto simp: rows_ok_def distinct_map intro: inj_on_subset)

text \<open>What the cursor of a page leads to: the entries before the page, or nothing.\<close>

lemma cursor_branch:
  assumes ok: "rows_ok (se_entries se)" and x: "x \<in> set (se_entries se)" "trail (display_step (se_entries se)) x ys"
    and split: "map (row_to_transcript_entry UiBody) (rev ys) = older @ newer" "newer \<noteq> []"
    and ids: "branch_entry_ids se (Some i) = Some (Inr (map ter_id older))"
  shows "row_by_id (se_entries se) i = None \<and> older = []
    \<or> (\<exists>x' ys'. rows_at (se_entries se) (Some i) = [x'] \<and> trail (display_step (se_entries se)) x' ys'
        \<and> map (row_to_transcript_entry UiBody) (rev ys') = older \<and> length ys' < length ys)"
proof (cases "row_by_id (se_entries se) i")
  case None
  then show ?thesis using ids by (simp add: branch_entry_ids_def rows_at_def)
next
  case (Some x')
  obtain ys' where nxt: "trail (display_step (se_entries se)) x' ys'" "map er_id (rev ys') = map ter_id older"
    by (rule branch_ids_trail [OF Some ids])
  obtain us vs where us: "rev ys = us @ vs" "older = map (row_to_transcript_entry UiBody) us" "newer = map (row_to_transcript_entry UiBody) vs"
    using split(1) by (auto simp: map_eq_append_conv)
  have "set (rev ys') \<subseteq> set (se_entries se)" "set us \<subseteq> set (se_entries se)"
    using ancestry_in_table [OF finite_steps(2) _ nxt(1)] row_by_id_set [OF Some]
      ancestry_in_table [OF finite_steps(2) x] us(1) by (auto simp flip: set_rev [of ys])
  moreover have "map er_id (rev ys') = map er_id us" using nxt(2) us(2) by simp
  ultimately have eq: "rev ys' = us" by (rule same_ids_same_rows [OF ok])
  have "length (rev ys') < length (rev ys)" unfolding eq us(1) using us(3) split(2) by simp
  then show ?thesis using nxt(1) Some eq us(2) by (auto simp: rows_at_def)
qed

lemma all_turn_pages:
  assumes ok: "rows_ok (se_entries se)"
  shows "trail (display_step (se_entries se)) x ys \<Longrightarrow>
    rows_at (se_entries se) (case before of Some i \<Rightarrow> Some i | None \<Rightarrow> se_active_leaf_id se) = [x] \<Longrightarrow>
    \<exists>cards. turn_pages se limit before cards
      \<and> concat (map tu_user_messages cards) = filter visible_user (map (row_to_transcript_entry UiBody) (rev ys))
      \<and> concat (map tu_daemon_observations cards)
          = filter (\<lambda>e. is_daemon_observation (ter_item e)) (map (row_to_transcript_entry UiBody) (rev ys))"
proof (induction "length ys" arbitrary: x ys before rule: less_induct)
  case less
  let ?n = "clamped limit DEFAULT_TRANSCRIPT_TURN_LIMIT MAX_TRANSCRIPT_TURN_LIMIT"
  have x: "x \<in> set (se_entries se)" using rows_at_cases less.prems(2) by (metis list.distinct(1) list.inject)
  have n: "0 < ?n" by (rule clamped_pos) (simp add: MAX_TRANSCRIPT_TURN_LIMIT_def)
  have some: "before \<noteq> None \<or> se_active_leaf_id se \<noteq> None"
    using less.prems(2) by (cases before; cases "se_active_leaf_id se") (auto simp: rows_at_def)
  obtain page older newer where page: "active_branch_turn_card_page se before ?n = Some (Inr page)"
      "map (row_to_transcript_entry UiBody) (rev ys) = older @ newer" "newer \<noteq> []"
      "concat (map tu_user_messages (pg_cards page)) = filter visible_user newer"
      "concat (map tu_daemon_observations (pg_cards page)) = filter (\<lambda>e. is_daemon_observation (ter_item e)) newer"
      "branch_entry_ids se (pg_next_before_entry_id page) = Some (Inr (map ter_id older))"
    using page_and_rest [OF ok less.prems(1) n less.prems(2)] by blast
  obtain result where result: "transcript_turns se before limit = Some (Inr result)" "tt_cards result = pg_cards page"
      "tt_next_before_entry_id result = pg_next_before_entry_id page"
    using transcript_turns_page [OF page(1) some] by blast
  show ?case
  proof (cases "pg_next_before_entry_id page")
    case None
    then have "older = []" using page(6) by (simp add: branch_entry_ids_def rows_at_def)
    then show ?thesis using last_page [OF result(1)] result None page(2,4,5) by auto
  next
    case (Some i)
    note cursor = cursor_branch [OF ok x less.prems(1) page(2,3,6) [unfolded Some]]
    have "\<exists>cards. turn_pages se limit (Some i) cards \<and> concat (map tu_user_messages cards) = filter visible_user older
        \<and> concat (map tu_daemon_observations cards) = filter (\<lambda>e. is_daemon_observation (ter_item e)) older"
      using cursor
    proof
      assume "row_by_id (se_entries se) i = None \<and> older = []"
      then show ?thesis using missing_page [of se "Some i" limit] by (intro exI [of _ "[]"]) (simp add: rows_at_def)
    qed (use less.hyps [where before = "Some i"] in auto)
    then obtain cards where "turn_pages se limit (Some i) cards" "concat (map tu_user_messages cards) = filter visible_user older"
        "concat (map tu_daemon_observations cards) = filter (\<lambda>e. is_daemon_observation (ter_item e)) older" by blast
    moreover from this(1) have "turn_pages se limit before (cards @ tt_cards result)"
      using more_pages [OF result(1)] result(3) Some by simp
    ultimately show ?thesis using result(2) page(2,4,5) by (intro exI [of _ "cards @ tt_cards result"]) simp
  qed
qed

lemma turn_pages_unique: "turn_pages se limit before cards \<Longrightarrow> turn_pages se limit before cards' \<Longrightarrow> cards' = cards"
proof (induction arbitrary: cards' rule: turn_pages.induct)
  case (last_page before result)
  show ?case using last_page(3,1,2) by cases auto
next
  case (more_pages before result i older)
  show ?case using more_pages(5,1,2) by cases (use more_pages.IH in auto)
qed

lemma turn_pages_cover:
  assumes "rows_ok (se_entries se)" and "active_branch_entry_records se UiBody = Some (Inr branch)"
  shows "\<exists>!cards. turn_pages se limit None cards
    \<and> concat (map tu_user_messages cards) = filter visible_user branch
    \<and> concat (map tu_daemon_observations cards) = filter (\<lambda>e. is_daemon_observation (ter_item e)) branch"
proof (cases "branch = []")
  case False
  from active_branch_trail [OF assms(2) this] obtain a x ys where *: "se_active_leaf_id se = Some a" "row_by_id (se_entries se) a = Some x"
    "trail (display_step (se_entries se)) x ys" "branch = map (row_to_transcript_entry UiBody) (rev ys)" .
  then show ?thesis using all_turn_pages [OF assms(1) *(3), of None limit] turn_pages_unique by (auto simp: rows_at_def)
next
  case True
  have "rows_at (se_entries se) (se_active_leaf_id se) = []"
  proof (rule ccontr)
    assume "rows_at (se_entries se) (se_active_leaf_id se) \<noteq> []"
    then obtain x where x: "x \<in> set (se_entries se)" "rows_at (se_entries se) (se_active_leaf_id se) = [x]" using rows_at_cases by blast
    then show False using assms(2) True branch_query_one [OF finite_steps(2) x(1)]
      by (cases "\<exists>ys. trail (display_step (se_entries se)) x ys") (auto simp: active_branch_entry_records_def trail_ne)
  qed
  then have "turn_pages se limit None []" by (intro missing_page) simp
  then show ?thesis using True turn_pages_unique by auto
qed

end
