(* ===== verification/Store_Queue.thy ===== *)
theory Store_Queue
  imports Store_Transcript "HOL-Library.Product_Lexorder"
begin

text \<open>
  The queue of inputs of a session (\<open>agent-store/src/postgres\<close>: \<open>queue_mutations.rs\<close>,
  \<open>queue_projection.rs\<close>, the routes of \<open>sql.rs\<close>) and the pages of its events (\<open>events.rs\<close>). Identifiers
  are compared byte by byte.
\<close>

section \<open>The order of dispatch\<close>

text \<open>A column in ascending order, with null last.\<close>

definition nulls_last :: "int option \<Rightarrow> bool \<times> int" where
  "nulls_last column = (case column of None \<Rightarrow> (True, 0) | Some n \<Rightarrow> (False, n))"

definition QUEUED_INPUT_DISPATCH_ORDER :: "input_row \<Rightarrow> nat \<times> int \<times> (bool \<times> int) \<times> int \<times> string" where
  "QUEUED_INPUT_DISPATCH_ORDER q =
     (case qi_priority q of
        PrioritySteer \<Rightarrow>
          (0, unwrap_or (og_promoted_at (qi_origin q)) (qi_created_at q), nulls_last None, qi_created_at q, qi_id q)
      | PriorityFollowUp \<Rightarrow> (1, 0, nulls_last (qi_follow_up_position q), qi_created_at q, qi_id q))"

definition input_record :: "input_row \<Rightarrow> QueuedInputRecord" where
  "input_record q =
     \<lparr>qr_input_id = qi_id q, qr_priority = qi_priority q, qr_status = qi_status q, qr_content = qi_content q,
      qr_client_input_id = qi_client_input_id q, qr_created_at = qi_created_at q, qr_updated_at = qi_updated_at q,
      qr_promoted_at = og_promoted_at (qi_origin q), qr_follow_up_position = qi_follow_up_position q\<rparr>"

definition queue_state :: "session_rows \<Rightarrow> QueueState" where
  "queue_state se =
     (let queued = sort_key QUEUED_INPUT_DISPATCH_ORDER (filter (\<lambda>q. queued_input_is_active (qi_status q)) (se_inputs se))
      in \<lparr>qs_session_revision = se_session_revision se, qs_queue_revision = se_queue_revision se,
          qs_transcript_revision = se_transcript_revision se,
          qs_activity = session_activity (session_has_unfinished_actions se) (queued \<noteq> []),
          qs_queued_inputs = map input_record queued\<rparr>)"

definition queue_state_payload :: "QueueState \<Rightarrow> payload" where
  "queue_state_payload queue =
     [(''session_revision'', FieldInt (qs_session_revision queue)), (''queue_revision'', FieldInt (qs_queue_revision queue)),
      (''transcript_revision'', FieldInt (qs_transcript_revision queue)), (''activity'', FieldActivity (qs_activity queue)),
      (''queued_inputs'', FieldQueue (qs_queued_inputs queue))]"

definition queue_event_payload :: "QueueState \<Rightarrow> payload \<Rightarrow> payload" where
  "queue_event_payload queue extra = queue_state_payload queue @ extra"

fun as_kind :: "QueuedInputContent \<Rightarrow> string" where
  "as_kind (UserMessageContent m) = ''user_message''"
| "as_kind (ObservationContent ob) = ''daemon_tool_observation''"
| "as_kind SubagentControlContent = ''subagent_control''"

fun append_queued_content_event_fields :: "payload \<Rightarrow> QueuedInputContent \<Rightarrow> payload" where
  "append_queued_content_event_fields data (UserMessageContent m) =
     data @ [(''content_type'', FieldText (Some (as_kind (UserMessageContent m)))), (''content'', FieldBlocks (um_content m)),
             (''editable'', FieldBool True)]"
| "append_queued_content_event_fields data content =
     data @ [(''content_type'', FieldText (Some (as_kind content))), (''content'', FieldBlocks []), (''editable'', FieldBool False)]"

section \<open>Rows\<close>

definition revision_mismatch :: "session_rows \<Rightarrow> int option \<Rightarrow> bool" where
  "revision_mismatch se expected = (case expected of None \<Rightarrow> False | Some n \<Rightarrow> se_queue_revision se \<noteq> n)"

definition is_queued_follow_up :: "input_row \<Rightarrow> bool" where
  "is_queued_follow_up q \<longleftrightarrow> qi_priority q = PriorityFollowUp \<and> qi_status q = StatusQueued"

definition follow_up_order :: "input_row \<Rightarrow> (bool \<times> int) \<times> int \<times> string" where
  "follow_up_order q = (nulls_last (qi_follow_up_position q), qi_created_at q, qi_id q)"

definition queued_follow_ups :: "input_row list \<Rightarrow> input_row list" where
  "queued_follow_ups inputs = sort_key follow_up_order (filter is_queued_follow_up inputs)"

definition queued_follow_up_ids :: "session_rows \<Rightarrow> string list" where
  "queued_follow_up_ids se = map qi_id (queued_follow_ups (se_inputs se))"

definition queued_follow_up_ids_from_state :: "QueueState \<Rightarrow> string list" where
  "queued_follow_up_ids_from_state queue =
     map qr_input_id (filter (\<lambda>r. qr_priority r = PriorityFollowUp \<and> qr_status r = StatusQueued) (qs_queued_inputs queue))"

text \<open>An update statement: the rows it selects are changed and get the transaction as their version.\<close>

definition update_inputs :: "transaction \<Rightarrow> (input_row \<Rightarrow> bool) \<Rightarrow> (input_row \<Rightarrow> input_row) \<Rightarrow> input_row list \<Rightarrow> input_row list" where
  "update_inputs tx selected change inputs =
     map (\<lambda>q. if selected q then (change q)\<lparr>qi_updated_at := tx_now tx, qi_row_version := tx_xid tx\<rparr> else q) inputs"

fun place_follow_ups ::
  "transaction \<Rightarrow> (int \<Rightarrow> input_row \<Rightarrow> bool) \<Rightarrow> int \<Rightarrow> string list \<Rightarrow> input_row list \<Rightarrow> input_row list" where
  "place_follow_ups tx selected n [] inputs = inputs"
| "place_follow_ups tx selected n (i # ids) inputs =
     place_follow_ups tx selected (n + 1) ids
       (update_inputs tx (\<lambda>q. qi_id q = i \<and> selected n q)
         (\<lambda>q. q\<lparr>qi_follow_up_position := Some n\<rparr>) inputs)"

definition renumber_follow_ups :: "transaction \<Rightarrow> session_rows \<Rightarrow> session_rows" where
  "renumber_follow_ups tx se =
     se\<lparr>se_inputs := place_follow_ups tx (\<lambda>n q. qi_follow_up_position q \<noteq> Some n) 0
       (queued_follow_up_ids se) (se_inputs se)\<rparr>"

section \<open>Routes\<close>

definition is_generation_action :: "action_row \<Rightarrow> bool" where
  "is_generation_action a \<longleftrightarrow> ac_kind a \<in> {ModelAction, ToolAction} \<and> action_is_unfinished (ac_status a)"

fun same_route :: "ProviderConfig option \<Rightarrow> ProviderConfig list \<Rightarrow> store_error + ProviderConfig option" where
  "same_route route [] = Inr route"
| "same_route route (candidate # rest) =
     (if (case route of None \<Rightarrow> False | Some r \<Rightarrow> r \<noteq> candidate) then Inl InconsistentRoutes
      else same_route (Some candidate) rest)"

definition unfinished_generation_route :: "session_rows \<Rightarrow> store_error + ProviderConfig option" where
  "unfinished_generation_route se =
     (let unfinished = sort_key (\<lambda>a. (ac_created_at a, ac_id a)) (filter is_generation_action (se_actions se))
      in if unfinished = [] then Inr None
         else
           let newest = last unfinished
           in same_route None (map (\<lambda>a. unwrap_or (ac_provider_config a) (se_provider_config se))
                (filter (\<lambda>a. ac_turn_id a = ac_turn_id newest) unfinished)))"

definition session_default_route :: "session_rows \<Rightarrow> ProviderConfig" where
  "session_default_route se = se_provider_config se"

definition steering_route :: "session_rows \<Rightarrow> store_error + ProviderConfig" where
  "steering_route se =
     (case unfinished_generation_route se of
        Inl e \<Rightarrow> Inl e | Inr (Some route) \<Rightarrow> Inr route | Inr None \<Rightarrow> Inr (session_default_route se))"

definition freeze_legacy_routes :: "transaction \<Rightarrow> session_rows \<Rightarrow> session_rows" where
  "freeze_legacy_routes tx se =
     se\<lparr>se_inputs := map (\<lambda>q. if queued_input_is_active (qi_status q) \<and> qi_provider_config q = None
          then q\<lparr>qi_provider_config := Some (se_provider_config se), qi_row_version := tx_xid tx\<rparr> else q) (se_inputs se),
        se_actions := map (\<lambda>a. if is_generation_action a \<and> ac_provider_config a = None
          then a\<lparr>ac_provider_config := Some (se_provider_config se)\<rparr> else a) (se_actions se)\<rparr>"

section \<open>Mutations\<close>

definition lock_user_input_scope :: "session_rows \<Rightarrow> store_error + unit" where
  "lock_user_input_scope se =
     (case se_delegation se of
        None \<Rightarrow> Inr ()
      | Some (delegation_id, status) \<Rightarrow>
          if se_parent_session_id se = None then Inl DelegationChildHasNoParent
          else if status \<noteq> DelegationRunning then Inl (DelegationInputClosed delegation_id status)
          else Inr ())"

definition ensure_expected_active_leaf :: "session_rows \<Rightarrow> string option option \<Rightarrow> store_error + unit" where
  "ensure_expected_active_leaf se expected =
     (case expected of
        None \<Rightarrow> Inr ()
      | Some leaf \<Rightarrow> if se_active_leaf_id se \<noteq> leaf then Inl (ExpectedActiveLeafMismatch (se_active_leaf_id se) leaf) else Inr ())"

record EnqueueUserInputResult =
  eq_input_id :: string
  eq_event :: "EventFrame option"
  eq_queue :: QueueState
  eq_replayed :: bool
  eq_status :: QueuedInputStatus
  eq_control_interrupt_applied :: bool
  eq_delegation_running :: bool
  eq_control_phase :: "SubagentControlPhase option"
  eq_control_interrupt_outcome :: "string option"

definition client_input :: "session_rows \<Rightarrow> string \<Rightarrow> input_row option" where
  "client_input se client_input_id = List.find (\<lambda>q. qi_client_input_id q = Some client_input_id) (se_inputs se)"

definition find_client_input :: "session_rows \<Rightarrow> string \<Rightarrow> (string \<times> QueuedInputStatus) option" where
  "find_client_input se client_input_id = map_option (\<lambda>q. (qi_id q, qi_status q)) (client_input se client_input_id)"

definition next_follow_up_position :: "session_rows \<Rightarrow> int" where
  "next_follow_up_position se =
     fold max (List.map_filter qi_follow_up_position (filter is_queued_follow_up (se_inputs se))) (- 1) + 1"

text \<open>The new row's id is the argument; the branch for a lost race of two inserts cannot run under the session's lock.\<close>

definition enqueue_user_input ::
  "transaction \<Rightarrow> string \<Rightarrow> InputPriority \<Rightarrow> UserMessage \<Rightarrow> string option \<Rightarrow> string option option \<Rightarrow> session_rows
     \<Rightarrow> store_error + EnqueueUserInputResult \<times> session_rows" where
  "enqueue_user_input tx input_id priority content client_input_id expected_active_leaf_id se =
     (case lock_user_input_scope se of
        Inl e \<Rightarrow> Inl e
      | Inr _ \<Rightarrow>
     (case Option.bind client_input_id (client_input se) of
        Some row \<Rightarrow> Inr
          (\<lparr>eq_input_id = qi_id row, eq_event = None, eq_queue = queue_state se, eq_replayed = True, eq_status = qi_status row,
            eq_control_interrupt_applied = False, eq_delegation_running = True, eq_control_phase = None,
            eq_control_interrupt_outcome = None\<rparr>, se)
      | None \<Rightarrow>
     (case ensure_expected_active_leaf se expected_active_leaf_id of
        Inl e \<Rightarrow> Inl e
      | Inr _ \<Rightarrow>
     (case (case priority of PrioritySteer \<Rightarrow> steering_route se | PriorityFollowUp \<Rightarrow> Inr (session_default_route se)) of
        Inl e \<Rightarrow> Inl e
      | Inr route \<Rightarrow>
          let row = \<lparr>qi_id = input_id, qi_priority = priority, qi_content = UserMessageContent content,
                qi_origin = (case priority of
                    PrioritySteer \<Rightarrow> no_origin\<lparr>og_promoted_at := Some (tx_clock tx)\<rparr> | PriorityFollowUp \<Rightarrow> no_origin),
                qi_status = StatusQueued, qi_created_at = tx_now tx, qi_updated_at = tx_now tx,
                qi_follow_up_position = (case priority of
                    PriorityFollowUp \<Rightarrow> Some (next_follow_up_position se) | PrioritySteer \<Rightarrow> None),
                qi_client_input_id = client_input_id, qi_provider_config = Some route, qi_row_version = tx_xid tx\<rparr>;
              se1 = bump_revisions True False (se\<lparr>se_inputs := se_inputs se @ [row]\<rparr>);
              queue = queue_state se1;
              (event, se2) = insert_event EventInputQueued (queue_event_payload queue
                [(''input_id'', FieldText (Some input_id)), (''priority'', FieldPriority priority),
                 (''client_input_id'', FieldText client_input_id), (''content'', FieldBlocks (um_content content)),
                 (''content_type'', FieldText (Some ''user_message''))]) se1
          in Inr (\<lparr>eq_input_id = input_id, eq_event = Some event, eq_queue = queue, eq_replayed = False,
                   eq_status = StatusQueued, eq_control_interrupt_applied = False, eq_delegation_running = True,
                   eq_control_phase = None, eq_control_interrupt_outcome = None\<rparr>, se2)))))"

record PromoteQueuedInputResult =
  pq_input_id :: string
  pq_priority :: InputPriority
  pq_status :: QueuedInputStatus
  pq_promoted :: bool
  pq_event :: "EventFrame option"
  pq_queue :: QueueState

definition input_by_id :: "session_rows \<Rightarrow> string \<Rightarrow> input_row option" where
  "input_by_id se input_id = List.find (\<lambda>q. qi_id q = input_id) (se_inputs se)"

definition promote_queued_input ::
  "transaction \<Rightarrow> string \<Rightarrow> session_rows \<Rightarrow> store_error + PromoteQueuedInputResult \<times> session_rows" where
  "promote_queued_input tx input_id se =
     (case unfinished_generation_route se of
        Inl e \<Rightarrow> Inl e
      | Inr generation_route \<Rightarrow>
     (case input_by_id se input_id of
        None \<Rightarrow> Inl (QueueMutationNotFound input_id)
      | Some row \<Rightarrow>
          if \<not> is_queued_follow_up row
          then Inr (\<lparr>pq_input_id = input_id, pq_priority = qi_priority row, pq_status = qi_status row, pq_promoted = False,
                     pq_event = None, pq_queue = queue_state se\<rparr>, se)
          else
            let se1 = se\<lparr>se_inputs := update_inputs tx (\<lambda>q. qi_id q = input_id \<and> is_queued_follow_up q)
                  (\<lambda>q. q\<lparr>qi_priority := PrioritySteer, qi_provider_config := option_or generation_route (qi_provider_config q),
                    qi_follow_up_position := None, qi_origin := (qi_origin q)\<lparr>og_promoted_at := Some (tx_clock tx)\<rparr>\<rparr>)
                  (se_inputs se)\<rparr>;
                se2 = bump_revisions True False (renumber_follow_ups tx se1);
                queue = queue_state se2;
                (event, se3) = insert_event EventInputPromoted (queue_event_payload queue
                  (append_queued_content_event_fields
                    [(''input_id'', FieldText (Some input_id)), (''priority'', FieldPriority PrioritySteer),
                     (''client_input_id'', FieldText (qi_client_input_id row)), (''promoted_at'', FieldTime (Some (tx_clock tx)))]
                    (qi_content row))) se2
            in Inr (\<lparr>pq_input_id = input_id, pq_priority = PrioritySteer, pq_status = StatusQueued, pq_promoted = True,
                     pq_event = Some event, pq_queue = queue\<rparr>, se3)))"

definition QUEUE_CHANGED :: string where "QUEUE_CHANGED = ''queue_changed''"

definition NOT_EDITABLE :: string where "NOT_EDITABLE = ''not_editable''"

text \<open>What an update and a cancellation answer; the flag says whether the row was changed.\<close>

record QueuedInputChange =
  ch_input_id :: string
  ch_changed :: bool
  ch_reason :: "string option"
  ch_priority :: InputPriority
  ch_status :: QueuedInputStatus
  ch_event :: "EventFrame option"
  ch_queue :: QueueState

definition unchanged_input ::
  "string \<Rightarrow> string option \<Rightarrow> InputPriority \<Rightarrow> QueuedInputStatus \<Rightarrow> session_rows \<Rightarrow> store_error + QueuedInputChange \<times> session_rows" where
  "unchanged_input input_id reason priority status se =
     Inr (\<lparr>ch_input_id = input_id, ch_changed = False, ch_reason = reason, ch_priority = priority, ch_status = status,
           ch_event = None, ch_queue = queue_state se\<rparr>, se)"

definition update_queued_input ::
  "transaction \<Rightarrow> string \<Rightarrow> UserMessage \<Rightarrow> int option \<Rightarrow> session_rows \<Rightarrow> store_error + QueuedInputChange \<times> session_rows" where
  "update_queued_input tx input_id content expected_queue_revision se =
     (if revision_mismatch se expected_queue_revision
      then unchanged_input input_id (Some QUEUE_CHANGED) PriorityFollowUp StatusQueued se
      else
        (case input_by_id se input_id of
           None \<Rightarrow> Inl (QueueMutationNotFound input_id)
         | Some row \<Rightarrow>
             if qi_priority row \<noteq> PriorityFollowUp \<or> qi_status row \<noteq> StatusQueued
             then unchanged_input input_id (Some NOT_EDITABLE) (qi_priority row) (qi_status row) se
             else if qi_content row = UserMessageContent content
             then unchanged_input input_id None (qi_priority row) (qi_status row) se
             else
               let se1 = bump_revisions True False (se\<lparr>se_inputs :=
                     update_inputs tx (\<lambda>q. qi_id q = input_id \<and> is_queued_follow_up q)
                       (\<lambda>q. q\<lparr>qi_content := UserMessageContent content, qi_origin := (qi_origin q)\<lparr>og_edited_at := Some (tx_now tx)\<rparr>\<rparr>)
                       (se_inputs se)\<rparr>);
                   queue = queue_state se1;
                   (event, se2) = insert_event EventInputUpdated (queue_event_payload queue
                     [(''input_id'', FieldText (Some input_id)), (''priority'', FieldPriority (qi_priority row)),
                      (''status'', FieldStatus (qi_status row)), (''content'', FieldBlocks (um_content content)),
                      (''content_type'', FieldText (Some ''user_message''))]) se1
               in Inr (\<lparr>ch_input_id = input_id, ch_changed = True, ch_reason = None, ch_priority = qi_priority row,
                        ch_status = qi_status row, ch_event = Some event, ch_queue = queue\<rparr>, se2)))"

definition cancel_queued_input ::
  "transaction \<Rightarrow> string \<Rightarrow> int option \<Rightarrow> session_rows \<Rightarrow> store_error + QueuedInputChange \<times> session_rows" where
  "cancel_queued_input tx input_id expected_queue_revision se =
     (if revision_mismatch se expected_queue_revision
      then unchanged_input input_id (Some QUEUE_CHANGED) PriorityFollowUp StatusQueued se
      else
        (case input_by_id se input_id of
           None \<Rightarrow> Inl (QueueMutationNotFound input_id)
         | Some row \<Rightarrow>
             if qi_priority row \<noteq> PriorityFollowUp \<or> qi_status row \<noteq> StatusQueued
             then unchanged_input input_id (Some NOT_EDITABLE) (qi_priority row) (qi_status row) se
             else
               let se1 = se\<lparr>se_inputs := update_inputs tx (\<lambda>q. qi_id q = input_id \<and> is_queued_follow_up q)
                     (\<lambda>q. q\<lparr>qi_status := StatusCancelled, qi_follow_up_position := None,
                       qi_origin := (qi_origin q)\<lparr>og_cancelled_at := Some (tx_now tx)\<rparr>\<rparr>)
                     (se_inputs se)\<rparr>;
                   se2 = bump_revisions True False (renumber_follow_ups tx se1);
                   queue = queue_state se2;
                   (event, se3) = insert_event EventInputCancelled (queue_event_payload queue
                     [(''input_id'', FieldText (Some input_id)), (''priority'', FieldPriority (qi_priority row)),
                      (''status'', FieldStatus StatusCancelled)]) se2
               in Inr (\<lparr>ch_input_id = input_id, ch_changed = True, ch_reason = None, ch_priority = qi_priority row,
                        ch_status = StatusCancelled, ch_event = Some event, ch_queue = queue\<rparr>, se3)))"

record ReorderQueuedFollowUpsResult =
  ro_reordered :: bool
  ro_reason :: "string option"
  ro_input_ids :: "string list"
  ro_event :: "EventFrame option"
  ro_queue :: QueueState

definition reorder_queued_follow_ups ::
  "transaction \<Rightarrow> string list \<Rightarrow> int option \<Rightarrow> session_rows \<Rightarrow> ReorderQueuedFollowUpsResult \<times> session_rows" where
  "reorder_queued_follow_ups tx input_ids expected_queue_revision se =
     (let queue = queue_state se;
          current = queued_follow_up_ids se;
          unchanged = (\<lambda>reason ids. (\<lparr>ro_reordered = False, ro_reason = reason, ro_input_ids = ids, ro_event = None, ro_queue = queue\<rparr>, se))
      in if revision_mismatch se expected_queue_revision
         then unchanged (Some QUEUE_CHANGED) (queued_follow_up_ids_from_state queue)
         else if current = input_ids then unchanged None current
         else if sort current \<noteq> sort input_ids then unchanged (Some QUEUE_CHANGED) current
         else
           let se1 = bump_revisions True False
                 (se\<lparr>se_inputs := place_follow_ups tx (\<lambda>n q. is_queued_follow_up q) 0 input_ids (se_inputs se)\<rparr>);
               queue = queue_state se1;
               (event, se2) = insert_event EventInputReordered (queue_event_payload queue [(''input_ids'', FieldIds input_ids)]) se1
           in (\<lparr>ro_reordered = True, ro_reason = None, ro_input_ids = input_ids, ro_event = Some event, ro_queue = queue\<rparr>, se2))"

definition has_queued_inputs :: "session_rows \<Rightarrow> bool" where
  "has_queued_inputs se \<longleftrightarrow> list_ex (\<lambda>q. queued_input_is_active (qi_status q)) (se_inputs se)"

definition reset_inputs :: "transaction \<Rightarrow> (input_row \<Rightarrow> bool) \<Rightarrow> session_rows \<Rightarrow> session_rows" where
  "reset_inputs tx selected se =
     (if list_ex selected (se_inputs se)
      then bump_revisions True False (renumber_follow_ups tx (se\<lparr>se_inputs := update_inputs tx selected
        (\<lambda>q. q\<lparr>qi_status := StatusQueued, qi_origin := (qi_origin q)\<lparr>og_claim_id := None, og_claimed_at := None\<rparr>\<rparr>)
        (se_inputs se)\<rparr>))
      else se)"

definition reset_abandoned_consuming_inputs :: "transaction \<Rightarrow> session_rows \<Rightarrow> session_rows" where
  "reset_abandoned_consuming_inputs tx = reset_inputs tx (\<lambda>q. qi_status q = StatusConsuming)"

definition reset_consuming_input :: "transaction \<Rightarrow> string \<Rightarrow> string \<Rightarrow> session_rows \<Rightarrow> session_rows" where
  "reset_consuming_input tx input_id claim_id se =
     (if claim_id = [] then se
      else reset_inputs tx (\<lambda>q. qi_id q = input_id \<and> qi_status q = StatusConsuming
        \<and> og_claim_id (qi_origin q) = Some claim_id) se)"

section \<open>Dispatch\<close>

record QueuedInput =
  qd_id :: string
  qd_priority :: InputPriority
  qd_content :: QueuedInputContent
  qd_route :: ProviderConfig
  qd_client_input_id :: "string option"
  qd_claim_id :: string
  qd_row_version :: string

text \<open>Control inputs that hold up the queue, and an input that may not leave it yet.\<close>

definition blocks_queue :: "input_row \<Rightarrow> bool" where
  "blocks_queue q \<longleftrightarrow> queued_input_is_active (qi_status q) \<and> og_control_interrupt (qi_origin q)
     \<and> og_control_phase (qi_origin q) \<in> {Some PhasePendingInterrupt, Some PhaseInterruptApplied}"

definition may_dispatch :: "session_rows \<Rightarrow> input_row \<Rightarrow> bool" where
  "may_dispatch se q \<longleftrightarrow> qi_status q = StatusQueued
     \<and> \<not> (og_control_interrupt (qi_origin q)
          \<and> unwrap_or (og_control_phase (qi_origin q)) PhasePendingInterrupt \<noteq> PhaseReady)
     \<and> \<not> list_ex blocks_queue (se_inputs se)"

definition first_in_order :: "input_row list \<Rightarrow> input_row option" where
  "first_in_order rows = (case sort_key QUEUED_INPUT_DISPATCH_ORDER rows of [] \<Rightarrow> None | q # _ \<Rightarrow> Some q)"

definition take_next_queued_input_matching :: "InputPriority option \<Rightarrow> session_rows \<Rightarrow> QueuedInput option" where
  "take_next_queued_input_matching priority se =
     map_option (\<lambda>q. \<lparr>qd_id = qi_id q, qd_priority = qi_priority q, qd_content = qi_content q,
         qd_route = unwrap_or (qi_provider_config q) (se_provider_config se), qd_client_input_id = qi_client_input_id q,
         qd_claim_id = [], qd_row_version = qi_row_version q\<rparr>)
       (first_in_order (filter (\<lambda>q. may_dispatch se q \<and> og_control_kind (qi_origin q) \<noteq> Some ControlInterrupt
           \<and> (case priority of None \<Rightarrow> True | Some p \<Rightarrow> qi_priority q = p)) (se_inputs se)))"

definition take_next_queued_input :: "session_rows \<Rightarrow> QueuedInput option" where
  "take_next_queued_input = take_next_queued_input_matching None"

definition take_next_queued_steer_input :: "session_rows \<Rightarrow> QueuedInput option" where
  "take_next_queued_steer_input = take_next_queued_input_matching (Some PrioritySteer)"

section \<open>Pages of events\<close>

record EventReplayPage =
  ep_events :: "EventFrame list"
  ep_next_after_event_id :: "int option"
  ep_has_more :: bool

definition DEFAULT_EVENT_REPLAY_PAGE_LIMIT :: int where "DEFAULT_EVENT_REPLAY_PAGE_LIMIT = 500"

definition MAX_EVENT_REPLAY_PAGE_LIMIT :: int where "MAX_EVENT_REPLAY_PAGE_LIMIT = 1000"

definition bounded_event_page :: "EventFrame list \<Rightarrow> nat \<Rightarrow> EventReplayPage" where
  "bounded_event_page events limit =
     (let page = take limit events
      in \<lparr>ep_events = page, ep_next_after_event_id = (if limit < length events then Some (ef_event_id (last page)) else None),
          ep_has_more = (limit < length events)\<rparr>)"

definition events_after_page :: "session_rows \<Rightarrow> int option \<Rightarrow> int option \<Rightarrow> EventReplayPage" where
  "events_after_page se after limit =
     (let n = clamped limit DEFAULT_EVENT_REPLAY_PAGE_LIMIT MAX_EVENT_REPLAY_PAGE_LIMIT
      in bounded_event_page
           (take (n + 1) (sort_key ef_event_id (filter (\<lambda>e. unwrap_or after 0 < ef_event_id e) (se_events se)))) n)"

partial_function (option) events_after_loop :: "session_rows \<Rightarrow> int \<Rightarrow> EventFrame list \<Rightarrow> EventFrame list option" where
  "events_after_loop se after events =
     (let page = events_after_page se (Some after) None
      in if ep_events page = [] then Some events
         else if \<not> ep_has_more page then Some (events @ ep_events page)
         else events_after_loop se (ef_event_id (last (ep_events page))) (events @ ep_events page))"

declare events_after_loop.simps [code]

definition events_after :: "session_rows \<Rightarrow> int option \<Rightarrow> EventFrame list option" where
  "events_after se after = events_after_loop se (unwrap_or after 0) []"

definition last_event_id :: "session_rows \<Rightarrow> int" where
  "last_event_id se = fold max (map ef_event_id (se_events se)) 0"

definition clear_session_events :: "session_rows \<Rightarrow> session_rows" where
  "clear_session_events se = se\<lparr>se_events := []\<rparr>"

end
