(* ===== verification/Store_Outputs.thy ===== *)
theory Store_Outputs
  imports Store_Queue
begin

text \<open>
  The transaction that stores what a session put out (\<open>agent-store/src/postgres/outputs.rs\<close>,
  \<open>action_records.rs\<close>, the session events of \<open>events.rs\<close>, \<open>OutputBatch\<close> of \<open>lib.rs\<close>): entries, events and
  actions, with the completion of the action and the consumption of the input that caused them. The
  identifiers of new rows are arguments. An error rolls the transaction back.
\<close>

section \<open>Batches\<close>

record ActionUpdate =
  au_row_id :: string
  au_attempt_id :: string
  au_post_compaction_dispatch_lease :: "PostCompactionDispatchLease option"
  au_status :: ActionStatus
  au_result :: action_result

record AcceptedInput =
  ai_priority :: InputPriority
  ai_content :: UserMessage
  ai_client_input_id :: "string option"

record PersistedAction =
  pa_row_id :: string
  pa_attempt_id :: string
  pa_action :: SessionAction

record OutputBatch =
  ob_entries :: "TranscriptStorageNode list"
  ob_active_leaf_id :: "string option"
  ob_active_leaf_unchanged :: bool
  ob_session_events :: "SessionEvent list"
  ob_actions :: "SessionAction list"
  ob_action_update :: "ActionUpdate option"
  ob_consumed_input :: "QueuedInput option"
  ob_accepted_input :: "AcceptedInput option"
  ob_control_interrupt_input_id :: "string option"
  ob_provider_route :: "ProviderConfig option"

definition OutputBatch_new ::
  "TranscriptStorageNode list \<Rightarrow> string option \<Rightarrow> SessionEvent list \<Rightarrow> SessionAction list \<Rightarrow> OutputBatch" where
  "OutputBatch_new new_entries active_leaf_id session_events actions =
     \<lparr>ob_entries = new_entries, ob_active_leaf_id = active_leaf_id, ob_active_leaf_unchanged = False,
      ob_session_events = session_events, ob_actions = actions, ob_action_update = None, ob_consumed_input = None,
      ob_accepted_input = None, ob_control_interrupt_input_id = None, ob_provider_route = None\<rparr>"

definition with_unchanged_active_leaf :: "OutputBatch \<Rightarrow> OutputBatch" where
  "with_unchanged_active_leaf outputs = outputs\<lparr>ob_active_leaf_unchanged := True\<rparr>"

definition with_action_update :: "ActionUpdate option \<Rightarrow> OutputBatch \<Rightarrow> OutputBatch" where
  "with_action_update action_update outputs = outputs\<lparr>ob_action_update := action_update\<rparr>"

definition with_consumed_input :: "QueuedInput option \<Rightarrow> OutputBatch \<Rightarrow> OutputBatch" where
  "with_consumed_input consumed_input outputs = outputs\<lparr>ob_consumed_input := consumed_input\<rparr>"

definition with_accepted_input :: "AcceptedInput option \<Rightarrow> OutputBatch \<Rightarrow> OutputBatch" where
  "with_accepted_input accepted_input outputs = outputs\<lparr>ob_accepted_input := accepted_input\<rparr>"

definition with_control_interrupt :: "string \<Rightarrow> OutputBatch \<Rightarrow> OutputBatch" where
  "with_control_interrupt input_id outputs = outputs\<lparr>ob_control_interrupt_input_id := Some input_id\<rparr>"

definition with_provider_route :: "ProviderConfig \<Rightarrow> OutputBatch \<Rightarrow> OutputBatch" where
  "with_provider_route route outputs = outputs\<lparr>ob_provider_route := Some route\<rparr>"

definition has_durable_obligations :: "OutputBatch \<Rightarrow> bool" where
  "has_durable_obligations outputs \<longleftrightarrow>
     ob_entries outputs \<noteq> [] \<or> \<not> ob_active_leaf_unchanged outputs \<or> ob_session_events outputs \<noteq> [] \<or> ob_actions outputs \<noteq> []
   \<or> ob_action_update outputs \<noteq> None \<or> ob_consumed_input outputs \<noteq> None \<or> ob_accepted_input outputs \<noteq> None
   \<or> ob_control_interrupt_input_id outputs \<noteq> None"

section \<open>Actions\<close>

definition parse_i64 :: "string \<Rightarrow> int option" where
  "parse_i64 s =
     (let (negative, digits) = (case s of
            c # rest \<Rightarrow> if c = CHR ''-'' then (True, rest) else if c = CHR ''+'' then (False, rest) else (False, s)
          | [] \<Rightarrow> (False, []))
      in if digits = [] then None
         else
           (case parse_digits 0 digits of
              None \<Rightarrow> None
            | Some n \<Rightarrow>
                let value = (if negative then - int n else int n)
                in if - (2 ^ 63) \<le> value \<and> value < 2 ^ 63 then Some value else None))"

definition action_event_matches_row :: "ActionKind \<Rightarrow> int \<Rightarrow> SessionActionKind \<Rightarrow> string \<Rightarrow> bool" where
  "action_event_matches_row row_kind row_action_id event_kind event_id \<longleftrightarrow>
     row_kind = (case event_kind of ModelKind \<Rightarrow> ModelAction | ToolKind \<Rightarrow> ToolAction)
   \<and> parse_i64 event_id = Some row_action_id"

fun action_payload :: "SessionAction \<Rightarrow> (ActionKind \<times> int \<times> int option \<times> action_body) option" where
  "action_payload (SessionRequestModel action_id turn_id c context_leaf_id) =
     Some (ModelAction, sint (action_id_0 action_id), Some (sint (turn_id_0 turn_id)), ModelBody context_leaf_id)"
| "action_payload (SessionRequestTool action_id turn_id tool_call) =
     Some (ToolAction, sint (action_id_0 action_id), Some (sint (turn_id_0 turn_id)), ToolBody tool_call)"
| "action_payload CancelSessionWork = None"

fun initial_action_status :: "ActionKind \<Rightarrow> ActionStatus" where
  "initial_action_status ModelAction = PendingStatus"
| "initial_action_status ToolAction = PendingStatus"
| "initial_action_status CompactionAction = RunningStatus"

text \<open>The attempt that an update may complete: it runs, and its dispatch is not leased to another daemon.\<close>

definition lease_matches :: "transaction \<Rightarrow> ActionUpdate \<Rightarrow> action_row \<Rightarrow> bool" where
  "lease_matches tx update a \<longleftrightarrow>
     (case (au_post_compaction_dispatch_lease update, ac_dispatch a) of
        (None, None) \<Rightarrow> True
      | (Some lease, Some mark) \<Rightarrow>
          dm_action_row_id mark = au_row_id update \<and> dm_attempt_id mark = au_attempt_id update
        \<and> dm_context_leaf_id mark = pl_context_leaf_id lease
        \<and> (case dm_lease mark of
             None \<Rightarrow> False
           | Some (owner_id, generation, expires_at_ms) \<Rightarrow>
               owner_id = pl_owner_id lease \<and> generation = pl_generation lease \<and> tx_clock_ms tx < expires_at_ms)
      | _ \<Rightarrow> False)"

definition is_running_attempt :: "transaction \<Rightarrow> ActionUpdate \<Rightarrow> action_row \<Rightarrow> bool" where
  "is_running_attempt tx update a \<longleftrightarrow>
     ac_id a = au_row_id update \<and> ac_attempt_id a = au_attempt_id update \<and> ac_status a \<in> {PendingStatus, RunningStatus}
   \<and> lease_matches tx update a"

fun completion_of :: "ActionKind \<Rightarrow> int \<Rightarrow> SessionEvent list \<Rightarrow> ActionStatus \<times> action_result \<Rightarrow> ActionStatus \<times> action_result" where
  "completion_of row_kind row_action_id [] outcome = outcome"
| "completion_of row_kind row_action_id (event # events) outcome =
     completion_of row_kind row_action_id events
       (case event of
          ActionCompleted kind i \<Rightarrow>
            if action_event_matches_row row_kind row_action_id kind i then (CompletedStatus, snd outcome) else outcome
        | ActionFailed kind i error \<Rightarrow>
            if action_event_matches_row row_kind row_action_id kind i then (ErrorStatus, ResultError error) else outcome
        | _ \<Rightarrow> outcome)"

definition complete_action ::
  "transaction \<Rightarrow> ActionUpdate \<Rightarrow> SessionEvent list \<Rightarrow> session_rows \<Rightarrow> store_error + session_rows" where
  "complete_action tx update session_events se =
     (case List.find (is_running_attempt tx update) (se_actions se) of
        None \<Rightarrow> Inl (ActionAttemptNotRunning (au_row_id update))
      | Some row \<Rightarrow>
          let (status, result) =
                (if au_status update \<noteq> ErrorStatus
                 then completion_of (ac_kind row) (ac_action_id row) session_events (au_status update, au_result update)
                 else (au_status update, au_result update))
          in Inr (se\<lparr>se_actions := map (\<lambda>a. if is_running_attempt tx update a
               then a\<lparr>ac_status := status, ac_result := Some result, ac_dispatch := None\<rparr> else a) (se_actions se)\<rparr>))"

text \<open>A cancellation interrupts everything that is unfinished; a request becomes a row. The identifiers come in pairs.\<close>

definition interrupt_unfinished :: "session_rows \<Rightarrow> session_rows" where
  "interrupt_unfinished se =
     se\<lparr>se_actions := map (\<lambda>a. if action_is_unfinished (ac_status a)
       then a\<lparr>ac_status := InterruptedStatus, ac_result := Some ResultSessionInterrupted, ac_dispatch := None\<rparr> else a) (se_actions se)\<rparr>"

type_synonym action_rows = "(ActionKind \<times> int) \<rightharpoonup> string"

fun insert_actions ::
  "transaction \<Rightarrow> ProviderConfig \<Rightarrow> (string \<times> string) list \<Rightarrow> SessionAction list \<Rightarrow> action_rows \<Rightarrow> session_rows
     \<Rightarrow> PersistedAction list \<times> action_rows \<times> session_rows" where
  "insert_actions tx route ids [] rows se = ([], rows, se)"
| "insert_actions tx route ids (action # actions) rows se =
     (case action_payload action of
        None \<Rightarrow> insert_actions tx route ids actions rows (interrupt_unfinished se)
      | Some (kind, action_id, turn_id, body) \<Rightarrow>
          let (row_id, attempt_id) = (case ids of [] \<Rightarrow> ([], []) | pair # _ \<Rightarrow> pair);
              row = \<lparr>ac_id = row_id, ac_turn_id = turn_id, ac_action_id = action_id, ac_attempt_id = attempt_id, ac_kind = kind,
                ac_status = initial_action_status kind, ac_content = body, ac_dispatch = None, ac_result = None,
                ac_provider_config = Some route, ac_created_at = tx_now tx\<rparr>;
              (dispatch, rows', se') = insert_actions tx route (tl ids) actions (rows((kind, action_id) \<mapsto> row_id))
                (se\<lparr>se_actions := se_actions se @ [row]\<rparr>)
          in (\<lparr>pa_row_id = row_id, pa_attempt_id = attempt_id, pa_action = action\<rparr> # dispatch, rows', se'))"

section \<open>Inputs\<close>

definition head_of_queue :: "session_rows \<Rightarrow> input_row option" where
  "head_of_queue se = first_in_order (filter (may_dispatch se) (se_inputs se))"

definition may_consume :: "QueuedInput \<Rightarrow> session_rows \<Rightarrow> input_row \<Rightarrow> bool" where
  "may_consume input se q \<longleftrightarrow> qi_id q = qd_id input
     \<and> (qi_status q = StatusQueued \<and> qi_row_version q = qd_row_version input \<and> map_option qi_id (head_of_queue se) = Some (qi_id q)
        \<or> qi_status q = StatusConsuming \<and> og_claim_id (qi_origin q) = Some (qd_claim_id input))"

definition consume_input :: "transaction \<Rightarrow> QueuedInput \<Rightarrow> session_rows \<Rightarrow> store_error + session_rows" where
  "consume_input tx input se =
     (if length (filter (may_consume input se) (se_inputs se)) \<noteq> 1 then Inl (InputAlreadyConsumed (qd_id input))
      else Inr (se\<lparr>se_inputs := update_inputs tx (may_consume input se)
        (\<lambda>q. q\<lparr>qi_status := StatusConsumed, qi_follow_up_position := None,
          qi_origin := (qi_origin q)\<lparr>og_consumed_at := Some (tx_now tx)\<rparr>\<rparr>) (se_inputs se)\<rparr>))"

definition consumed_payload :: "QueuedInput \<Rightarrow> payload" where
  "consumed_payload input =
     [(''input_id'', FieldText (Some (qd_id input))), (''priority'', FieldPriority (qd_priority input)),
      (''client_input_id'', FieldText (qd_client_input_id input))]"

definition accept_input ::
  "transaction \<Rightarrow> string \<Rightarrow> ProviderConfig \<Rightarrow> AcceptedInput \<Rightarrow> session_rows \<Rightarrow> store_error + payload \<times> session_rows" where
  "accept_input tx new_id route input se =
     (let data = (\<lambda>input_id. [(''input_id'', FieldText input_id), (''priority'', FieldPriority (ai_priority input)),
            (''client_input_id'', FieldText (ai_client_input_id input)), (''content'', FieldBlocks (um_content (ai_content input))),
            (''content_type'', FieldText (Some ''user_message''))])
      in (case ai_client_input_id input of
            None \<Rightarrow> Inr (data None, se)
          | Some client_input_id \<Rightarrow>
              if client_input se client_input_id \<noteq> None then Inl (InputAlreadyRecorded client_input_id)
              else
                let row = \<lparr>qi_id = new_id, qi_priority = ai_priority input, qi_content = UserMessageContent (ai_content input),
                      qi_origin = no_origin, qi_status = StatusConsumed, qi_created_at = tx_now tx, qi_updated_at = tx_now tx,
                      qi_follow_up_position = None, qi_client_input_id = Some client_input_id,
                      qi_provider_config = Some route, qi_row_version = tx_xid tx\<rparr>
                in Inr (data (Some new_id), se\<lparr>se_inputs := se_inputs se @ [row]\<rparr>)))"

section \<open>Interrupts by a parent\<close>

definition target_attempts :: "input_origin \<Rightarrow> string list" where
  "target_attempts origin =
     (case og_target_action_attempt_ids origin of
        Some ids \<Rightarrow> ids
      | None \<Rightarrow> (case og_target_action_attempt_id origin of Some i \<Rightarrow> [i] | None \<Rightarrow> []))"

definition is_target :: "input_origin \<Rightarrow> action_row \<Rightarrow> bool" where
  "is_target origin a \<longleftrightarrow> ac_turn_id a = og_target_turn_id origin \<and> ac_attempt_id a \<in> set (target_attempts origin)"

definition may_interrupt :: "string \<Rightarrow> string option \<Rightarrow> string option \<Rightarrow> session_rows \<Rightarrow> input_row \<Rightarrow> bool" where
  "may_interrupt input_id old_leaf_id new_leaf_id se q \<longleftrightarrow>
     (let origin = qi_origin q
      in qi_id q = input_id \<and> qi_status q = StatusQueued \<and> qi_priority q = PrioritySteer
       \<and> og_control_kind origin \<noteq> None \<and> og_control_interrupt origin \<and> og_control_phase origin = Some PhasePendingInterrupt
       \<and> (og_target_active_leaf_id origin = old_leaf_id
          \<or> list_ex (\<lambda>a. action_is_unfinished (ac_status a) \<and> is_target origin a) (se_actions se))
       \<and> list_ex (\<lambda>row. Some (er_id row) = new_leaf_id \<and> (case er_item row of TurnFinished t outcome \<Rightarrow> outcome = InterruptedOutcome | _ \<Rightarrow> False))
           (se_entries se)
       \<and> list_all (\<lambda>a. action_is_unfinished (ac_status a) \<longrightarrow> is_target origin a) (se_actions se))"

definition apply_control_interrupt ::
  "transaction \<Rightarrow> string \<Rightarrow> string option \<Rightarrow> string option \<Rightarrow> session_rows \<Rightarrow> store_error + session_rows" where
  "apply_control_interrupt tx input_id old_leaf_id new_leaf_id se =
     (case filter (may_interrupt input_id old_leaf_id new_leaf_id se) (se_inputs se) of
        [q] \<Rightarrow> Inr (se
          \<lparr>se_inputs := update_inputs tx (may_interrupt input_id old_leaf_id new_leaf_id se)
             (\<lambda>q. q\<lparr>qi_origin := (qi_origin q)\<lparr>og_control_phase := Some PhaseInterruptApplied, og_control_interrupted := Some True,
               og_control_interrupt_outcome := Some ''interrupted'', og_control_interrupt_applied_at := Some (tx_clock tx)\<rparr>\<rparr>) (se_inputs se),
           se_actions := map (\<lambda>a. if is_target (qi_origin q) a \<and> action_is_unfinished (ac_status a)
             then a\<lparr>ac_status := InterruptedStatus, ac_result := Some (ResultSubagentControl input_id)\<rparr> else a) (se_actions se)\<rparr>)
      | _ \<Rightarrow> Inl (ControlInterruptNotPending input_id))"

section \<open>Events of a session\<close>

definition event_activity_hint :: "EventType \<Rightarrow> SessionActivity option" where
  "event_activity_hint event_type =
     (if event_type = EventInputQueued then Some ActivityQueued
      else if event_type \<in> {EventInputAccepted, EventInputConsumed, EventActionRequested, EventModelRequested,
        EventToolRequested, EventToolStarted, EventCompactionRequested, EventCompactionCompleted, EventCompactionError}
      then Some ActivityRunning
      else if event_type = EventSessionIdle then Some ActivityIdle else None)"

definition insert_event_with_activity :: "EventType \<Rightarrow> payload \<Rightarrow> session_rows \<Rightarrow> EventFrame \<times> session_rows" where
  "insert_event_with_activity event_type data =
     insert_event event_type (case event_activity_hint event_type of
         Some activity \<Rightarrow> if ''activity'' \<in> fst ` set data then data else data @ [(''activity'', FieldActivity activity)]
       | None \<Rightarrow> data)"

fun requested_events :: "action_rows \<Rightarrow> SessionAction \<Rightarrow> (EventType \<times> payload) list" where
  "requested_events rows action =
     (case action_payload action of
        None \<Rightarrow> [(EventSessionWorkCancelled, [])]
      | Some (kind, action_id, turn_id, body) \<Rightarrow>
          [(EventActionRequested,
            [(''kind'', FieldKind kind), (''action_id'', FieldInt action_id), (''action_row_id'', FieldText (rows (kind, action_id))),
             (''payload'', FieldBody body)]),
           (if kind = ModelAction then EventModelRequested else EventToolRequested,
            [(''action_row_id'', FieldText (rows (kind, action_id))), (''action_id'', FieldInt action_id)])])"

fun insert_events_with_activity :: "(EventType \<times> payload) list \<Rightarrow> session_rows \<Rightarrow> EventFrame list \<times> session_rows" where
  "insert_events_with_activity [] se = ([], se)"
| "insert_events_with_activity ((t, p) # events) se =
     (let (frame, se') = insert_event_with_activity t p se; (frames, se'') = insert_events_with_activity events se'
      in (frame # frames, se''))"

fun insert_session_event ::
  "SessionEventState \<Rightarrow> (string \<rightharpoonup> TranscriptEntryRecord) \<Rightarrow> action_rows \<Rightarrow> SessionEvent \<Rightarrow> session_rows
     \<Rightarrow> EventFrame list \<times> session_rows" where
  "insert_session_event state records rows (TranscriptItemAppended entry_id item) se =
     insert_transcript_item_events state (records entry_id) entry_id item se"
| "insert_session_event state records rows (ActionRequested action) se =
     insert_events_with_activity (requested_events rows action) se"
| "insert_session_event state records rows (ActionCompleted kind i) se =
     insert_events_with_activity
       [(case kind of ModelKind \<Rightarrow> EventModelCompleted | ToolKind \<Rightarrow> EventToolCompleted, [(''action_id'', FieldText (Some i))])] se"
| "insert_session_event state records rows (ActionFailed kind i error) se =
     insert_events_with_activity
       [(case kind of ModelKind \<Rightarrow> EventModelError | ToolKind \<Rightarrow> EventToolError,
         [(''action_id'', FieldText (Some i)), (''error'', FieldText (Some error))])] se"

fun insert_session_events ::
  "SessionEventState \<Rightarrow> (string \<rightharpoonup> TranscriptEntryRecord) \<Rightarrow> action_rows \<Rightarrow> SessionEvent list \<Rightarrow> session_rows
     \<Rightarrow> EventFrame list \<times> session_rows" where
  "insert_session_events state records rows [] se = ([], se)"
| "insert_session_events state records rows (event # events) se =
     (let (frames, se') = insert_session_event state records rows event se;
          (more, se'') = insert_session_events state records rows events se'
      in (frames @ more, se''))"

section \<open>The transaction\<close>

definition ensure_appends :: "OutputBatch \<Rightarrow> session_rows \<Rightarrow> store_error + unit" where
  "ensure_appends outputs se =
     (case ob_entries outputs of
        [] \<Rightarrow> Inr ()
      | first # _ \<Rightarrow>
          if se_entries se \<noteq> [] \<and> se_active_leaf_id se \<noteq> node_parent_id first
          then Inl (ActiveLeafChanged (node_parent_id first) (se_active_leaf_id se)) else Inr ())"

definition queue_events ::
  "QueuedInput option \<Rightarrow> payload option \<Rightarrow> session_rows \<Rightarrow> EventFrame list \<times> session_rows" where
  "queue_events consumed accepted se =
     (let queue = queue_state se
      in insert_all_events
           ((case consumed of Some input \<Rightarrow> [(EventInputConsumed, queue_event_payload queue (consumed_payload input))] | None \<Rightarrow> [])
            @ (case accepted of Some data \<Rightarrow> [(EventInputAccepted, queue_event_payload queue data)] | None \<Rightarrow> [])) se)"

text \<open>The end of the transaction, in which nothing can fail: new actions, revisions and events.\<close>

definition finish_outputs ::
  "transaction \<Rightarrow> ProviderConfig \<Rightarrow> (string \<times> string) list \<Rightarrow> OutputBatch \<Rightarrow> bool \<Rightarrow> (string \<rightharpoonup> TranscriptEntryRecord)
     \<Rightarrow> payload option \<Rightarrow> session_rows \<Rightarrow> (EventFrame list \<times> PersistedAction list) \<times> session_rows" where
  "finish_outputs tx route new_action_ids outputs active_leaf_changed records accepted se =
     (let (dispatch, rows, se1) = insert_actions tx route new_action_ids (ob_actions outputs) Map.empty se;
          queue_changed = (ob_consumed_input outputs \<noteq> None);
          transcript_changed = (ob_entries outputs \<noteq> []);
          session_changed = (queue_changed \<or> transcript_changed \<or> active_leaf_changed \<or> ob_accepted_input outputs \<noteq> None
            \<or> ob_action_update outputs \<noteq> None \<or> ob_actions outputs \<noteq> [] \<or> ob_session_events outputs \<noteq> []
            \<or> ob_control_interrupt_input_id outputs \<noteq> None);
          se2 = (if session_changed then bump_revisions queue_changed transcript_changed se1 else se1);
          (frames, se3) = queue_events (ob_consumed_input outputs) accepted se2;
          (more, se4) = insert_session_events (session_state_for_event se3) records rows (ob_session_events outputs) se3
      in ((frames @ more, dispatch), se4))"

definition persist_outputs_tx ::
  "transaction \<Rightarrow> string \<Rightarrow> (string \<times> string) list \<Rightarrow> OutputBatch \<Rightarrow> session_rows
     \<Rightarrow> store_error + (EventFrame list \<times> PersistedAction list) \<times> session_rows" where
  "persist_outputs_tx tx new_input_id new_action_ids outputs se =
     (let route = unwrap_or (ob_provider_route outputs) (se_provider_config se);
          old_leaf_id = se_active_leaf_id se
      in and_then (ensure_appends outputs se) (\<lambda>_.
         let (records, se1) = insert_entries (map stored_of_node (ob_entries outputs)) se;
             se2 = se1\<lparr>se_active_leaf_id := ob_active_leaf_id outputs\<rparr>
         in and_then (case ob_consumed_input outputs of Some input \<Rightarrow> consume_input tx input se2 | None \<Rightarrow> Inr se2) (\<lambda>se3.
            and_then (case ob_accepted_input outputs of
                Some input \<Rightarrow> map_sum id (\<lambda>(data, se). (Some data, se)) (accept_input tx new_input_id route input se3)
              | None \<Rightarrow> Inr (None, se3)) (\<lambda>(accepted, se4).
            and_then (case ob_action_update outputs of
                Some update \<Rightarrow> complete_action tx update (ob_session_events outputs) se4 | None \<Rightarrow> Inr se4) (\<lambda>se5.
            and_then (case ob_control_interrupt_input_id outputs of
                Some input_id \<Rightarrow> apply_control_interrupt tx input_id old_leaf_id (ob_active_leaf_id outputs) se5 | None \<Rightarrow> Inr se5) (\<lambda>se6.
            Inr (finish_outputs tx route new_action_ids outputs (old_leaf_id \<noteq> ob_active_leaf_id outputs) records accepted se6)))))))"

definition persist_outputs ::
  "transaction \<Rightarrow> string \<Rightarrow> (string \<times> string) list \<Rightarrow> OutputBatch \<Rightarrow> session_rows
     \<Rightarrow> store_error + (EventFrame list \<times> PersistedAction list) \<times> session_rows" where
  "persist_outputs tx new_input_id new_action_ids outputs se =
     (if \<not> has_durable_obligations outputs then Inr (([], []), se)
      else persist_outputs_tx tx new_input_id new_action_ids outputs se)"

end
