(* ===== verification/Store_Queue_Proofs.thy ===== *)
theory Store_Queue_Proofs
  imports Store_Queue Store_Transcript_Proofs
begin

text \<open>
  What the operations on a queue do to the list of its follow-ups
  (\<open>agent-store/src/postgres/queue_mutations.rs\<close>).
\<close>

section \<open>Positions\<close>

fun place :: "int \<Rightarrow> string list \<Rightarrow> string \<Rightarrow> int option" where
  "place n [] i = None"
| "place n (j # ids) i = (if i = j then Some n else place (n + 1) ids i)"

lemma place_None: "place n ids i = None \<longleftrightarrow> i \<notin> set ids"
  by (induction ids arbitrary: n) auto

lemma place_ge: "place n ids i = Some k \<Longrightarrow> n \<le> k"
  by (induction ids arbitrary: n) (fastforce split: if_splits)+

lemma place_inj: "place n ids i = Some k \<Longrightarrow> place n ids j = Some k \<Longrightarrow> i = j"
proof (induction ids arbitrary: n)
  case (Cons x ids)
  then show ?case using place_ge [of "n + 1" ids] by (fastforce split: if_splits)
qed simp

lemma place_sorted: "distinct ids \<Longrightarrow> sorted_wrt (<) (map (\<lambda>i. the (place n ids i)) ids)"
proof (induction ids arbitrary: n)
  case (Cons x ids)
  have same: "map (\<lambda>i. the (place n (x # ids) i)) ids = map (\<lambda>i. the (place (n + 1) ids i)) ids"
    using Cons.prems by (intro map_cong) auto
  have "n < the (place (n + 1) ids i)" if "i \<in> set ids" for i
    using that place_ge [of "n + 1" ids i] by (cases "place (n + 1) ids i") (auto simp: place_None)
  then show ?case using Cons unfolding list.map(2) same by auto
qed simp

definition touch :: "transaction \<Rightarrow> int \<Rightarrow> input_row \<Rightarrow> input_row" where
  "touch tx n q = q\<lparr>qi_follow_up_position := Some n, qi_updated_at := tx_now tx, qi_row_version := tx_xid tx\<rparr>"

definition placed :: "transaction \<Rightarrow> (int \<Rightarrow> input_row \<Rightarrow> bool) \<Rightarrow> int \<Rightarrow> string list \<Rightarrow> input_row \<Rightarrow> input_row" where
  "placed tx selected n ids q =
     (case place n ids (qi_id q) of None \<Rightarrow> q | Some k \<Rightarrow> if selected k q then touch tx k q else q)"

lemma place_follow_ups_eq:
  "distinct ids \<Longrightarrow> place_follow_ups tx selected n ids inputs = map (placed tx selected n ids) inputs"
proof (induction ids arbitrary: n inputs)
  case Nil
  then show ?case by (simp add: placed_def)
next
  case (Cons i ids)
  have "placed tx selected (n + 1) ids (if qi_id q = i \<and> selected n q
        then (q\<lparr>qi_follow_up_position := Some n\<rparr>)\<lparr>qi_updated_at := tx_now tx, qi_row_version := tx_xid tx\<rparr> else q)
      = placed tx selected n (i # ids) q" for q
  proof (cases "qi_id q = i")
    case True
    then have "place (n + 1) ids (qi_id q) = None" using Cons.prems by (simp add: place_None)
    with True show ?thesis by (simp add: placed_def touch_def)
  qed (simp add: placed_def)
  with Cons show ?case by (simp add: update_inputs_def)
qed

lemma placed_same [simp]:
  "qi_id (placed tx selected n ids q) = qi_id q" "qi_content (placed tx selected n ids q) = qi_content q"
  "qi_status (placed tx selected n ids q) = qi_status q" "qi_priority (placed tx selected n ids q) = qi_priority q"
  "is_queued_follow_up (placed tx selected n ids q) = is_queued_follow_up q"
  by (simp_all add: placed_def touch_def is_queued_follow_up_def split: option.split)

section \<open>The list of follow-ups\<close>

definition follow_up_view :: "input_row list \<Rightarrow> (string \<times> QueuedInputContent) list" where
  "follow_up_view inputs = map (\<lambda>q. (qi_id q, qi_content q)) (queued_follow_ups inputs)"

definition inputs_ok :: "input_row list \<Rightarrow> bool" where
  "inputs_ok inputs \<longleftrightarrow> distinct (map qi_id inputs)
     \<and> (\<forall>q \<in> set inputs. is_queued_follow_up q \<longrightarrow> qi_follow_up_position q \<noteq> None)
     \<and> (\<forall>q \<in> set inputs. \<forall>r \<in> set inputs. is_queued_follow_up q \<longrightarrow> is_queued_follow_up r \<longrightarrow>
          qi_follow_up_position q = qi_follow_up_position r \<longrightarrow> q = r)"

lemma follow_up_view_ids: "map fst (follow_up_view inputs) = map qi_id (queued_follow_ups inputs)"
  by (simp add: follow_up_view_def)

lemma set_queued_follow_ups [simp]: "set (queued_follow_ups inputs) = {q \<in> set inputs. is_queued_follow_up q}"
  by (auto simp: queued_follow_ups_def)

lemma distinct_follow_up_ids: "distinct (map qi_id inputs) \<Longrightarrow> distinct (map qi_id (queued_follow_ups inputs))"
proof -
  have "mset (map qi_id (queued_follow_ups inputs)) = mset (map qi_id (filter is_queued_follow_up inputs))"
    by (simp add: queued_follow_ups_def)
  moreover assume "distinct (map qi_id inputs)"
  then have "distinct (map qi_id (filter is_queued_follow_up inputs))" by (rule distinct_map_filter)
  ultimately show ?thesis by (metis mset_eq_imp_distinct_iff)
qed

text \<open>Rows whose positions are those of a list of ids are dispatched in the order of that list.\<close>

lemma follow_up_order_mono:
  "follow_up_order q \<le> follow_up_order r \<Longrightarrow> qi_follow_up_position q = Some a \<Longrightarrow> qi_follow_up_position r = Some b \<Longrightarrow> a \<le> b"
  by (auto simp: follow_up_order_def nulls_last_def less_eq_prod_def less_prod_def)

lemma queued_follow_ups_placed:
  assumes d: "distinct (map qi_id inputs)" "distinct ids"
    and ids: "set ids = qi_id ` {q \<in> set inputs. is_queued_follow_up q}"
    and pos: "\<And>q. q \<in> set inputs \<Longrightarrow> is_queued_follow_up q \<Longrightarrow> qi_follow_up_position q = place n ids (qi_id q)"
  shows "map qi_id (queued_follow_ups inputs) = ids"
proof -
  let ?g = "\<lambda>i. the (place n ids i)" and ?zs = "map qi_id (queued_follow_ups inputs)"
  have zs: "distinct ?zs" "set ?zs = set ids" using distinct_follow_up_ids [OF d(1)] ids by auto
  have inj: "inj_on ?g (set ids)"
  proof (rule inj_onI)
    fix i j assume ij: "i \<in> set ids" "j \<in> set ids" "?g i = ?g j"
    then obtain a b where "place n ids i = Some a" "place n ids j = Some b" using place_None [of n ids] by (metis not_None_eq)
    with ij(3) show "i = j" using place_inj by simp
  qed
  have "sorted_wrt (\<lambda>q r. follow_up_order q \<le> follow_up_order r) (queued_follow_ups inputs)"
    unfolding queued_follow_ups_def using sorted_sort_key by (simp add: sorted_wrt_map)
  then have "sorted_wrt (\<lambda>q r. ?g (qi_id q) \<le> ?g (qi_id r)) (queued_follow_ups inputs)"
  proof (rule sorted_wrt_mono_rel [rotated])
    fix q r assume "q \<in> set (queued_follow_ups inputs)" "r \<in> set (queued_follow_ups inputs)" "follow_up_order q \<le> follow_up_order r"
    moreover from this obtain a b where "place n ids (qi_id q) = Some a" "place n ids (qi_id r) = Some b"
      using ids place_None [of n ids] by (metis (mono_tags, lifting) imageI not_None_eq set_queued_follow_ups)
    ultimately show "?g (qi_id q) \<le> ?g (qi_id r)" using follow_up_order_mono [of q r] pos by auto
  qed
  then have "sorted (map ?g ?zs)" by (simp add: sorted_wrt_map)
  moreover have "sorted (map ?g ids)" "distinct (map ?g ids)"
    using place_sorted [OF d(2), of n] by (auto simp: strict_sorted_iff)
  moreover have "distinct (map ?g ?zs)" using zs inj by (simp add: distinct_map comp_inj_on)
  moreover have "set (map ?g ?zs) = set (map ?g ids)" using zs(2) by (metis list.set_map)
  ultimately have "map ?g ?zs = map ?g ids" by (intro sorted_distinct_set_unique)
  then show ?thesis using inj zs(2) by (intro map_inj_on [of ?g]) auto
qed

definition content_of :: "input_row list \<Rightarrow> string \<Rightarrow> QueuedInputContent" where
  "content_of inputs i = the (map_of (map (\<lambda>q. (qi_id q, qi_content q)) inputs) i)"

lemma content_of_row: "distinct (map qi_id inputs) \<Longrightarrow> q \<in> set inputs \<Longrightarrow> content_of inputs (qi_id q) = qi_content q"
  unfolding content_of_def by (subst map_of_is_SomeI) (auto simp: o_def)

lemma follow_up_view_by_ids:
  "distinct (map qi_id inputs) \<Longrightarrow>
     follow_up_view inputs = map (\<lambda>i. (i, content_of inputs i)) (map qi_id (queued_follow_ups inputs))"
  by (simp add: follow_up_view_def content_of_row)

lemma placed_inputs:
  assumes d: "distinct (map qi_id inputs)" "distinct ids"
    and ids: "set ids = qi_id ` {q \<in> set inputs. is_queued_follow_up q}"
    and sel: "\<And>k q. q \<in> set inputs \<Longrightarrow> is_queued_follow_up q \<Longrightarrow> selected k q \<or> qi_follow_up_position q = Some k"
    and moved_def: "moved = place_follow_ups tx selected 0 ids inputs"
  shows "inputs_ok moved" "follow_up_view moved = map (\<lambda>i. (i, content_of inputs i)) ids"
    "map qi_id (queued_follow_ups moved) = ids"
proof -
  have moved: "moved = map (placed tx selected 0 ids) inputs" unfolding moved_def by (rule place_follow_ups_eq [OF d(2)])
  have d': "distinct (map qi_id moved)" using d(1) by (simp add: moved o_def)
  have pos: "qi_follow_up_position q = place 0 ids (qi_id q)" if q: "q \<in> set moved" "is_queued_follow_up q" for q
  proof -
    obtain r where r: "r \<in> set inputs" "q = placed tx selected 0 ids r" "is_queued_follow_up r" using q by (auto simp: moved)
    then obtain k where "place 0 ids (qi_id r) = Some k" using ids place_None [of 0 ids] by (metis (mono_tags, lifting) CollectI imageI not_None_eq)
    then show ?thesis using r sel [OF r(1,3), of k] by (auto simp: placed_def touch_def)
  qed
  have set_ids: "set ids = qi_id ` {q \<in> set moved. is_queued_follow_up q}"
  proof -
    have "{q \<in> set moved. is_queued_follow_up q} = placed tx selected 0 ids ` {q \<in> set inputs. is_queued_follow_up q}"
      by (auto simp: moved)
    then show ?thesis by (simp add: ids image_image)
  qed
  show view: "map qi_id (queued_follow_ups moved) = ids" by (rule queued_follow_ups_placed [OF d' d(2) set_ids pos])
  have "map (\<lambda>q. (qi_id q, qi_content q)) moved = map (\<lambda>q. (qi_id q, qi_content q)) inputs" by (simp add: moved)
  then have "content_of moved = content_of inputs" by (simp add: content_of_def fun_eq_iff)
  then show "follow_up_view moved = map (\<lambda>i. (i, content_of inputs i)) ids"
    by (simp only: follow_up_view_by_ids [OF d'] view)
  show "inputs_ok moved" unfolding inputs_ok_def
  proof (intro conjI ballI impI)
    show "qi_follow_up_position q \<noteq> None" if "q \<in> set moved" "is_queued_follow_up q" for q
      using pos [OF that] that set_ids place_None by auto
    show "q = r" if "q \<in> set moved" "r \<in> set moved" "is_queued_follow_up q" "is_queued_follow_up r"
      "qi_follow_up_position q = qi_follow_up_position r" for q r
    proof -
      have "place 0 ids (qi_id q) = place 0 ids (qi_id r)" "place 0 ids (qi_id q) \<noteq> None"
        using pos that set_ids place_None by auto
      then have "qi_id q = qi_id r" using place_inj by (metis not_None_eq)
      then show ?thesis using d' that(1,2) by (auto simp: distinct_map dest: inj_onD)
    qed
  qed (rule d')
qed

lemma renumber_inputs:
  assumes d: "distinct (map qi_id (se_inputs se))"
  shows "inputs_ok (se_inputs (renumber_follow_ups tx se))"
    and "follow_up_view (se_inputs (renumber_follow_ups tx se)) = follow_up_view (se_inputs se)"
proof -
  have ids: "distinct (queued_follow_up_ids se)"
      "set (queued_follow_up_ids se) = qi_id ` {q \<in> set (se_inputs se). is_queued_follow_up q}"
    using distinct_follow_up_ids [OF d] by (simp_all add: queued_follow_up_ids_def)
  note P = placed_inputs [OF d ids _ refl, of "\<lambda>n q. qi_follow_up_position q \<noteq> Some n" tx]
  show "inputs_ok (se_inputs (renumber_follow_ups tx se))" using P(1) by (simp add: renumber_follow_ups_def)
  show "follow_up_view (se_inputs (renumber_follow_ups tx se)) = follow_up_view (se_inputs se)"
    using P(2) by (simp add: renumber_follow_ups_def follow_up_view_by_ids [OF d] queued_follow_up_ids_def)
qed

section \<open>Changes of one row\<close>

lemma update_inputs_ids:
  "(\<And>q. qi_id (change q) = qi_id q) \<Longrightarrow> map qi_id (update_inputs tx selected change inputs) = map qi_id inputs"
  by (simp add: update_inputs_def)

lemma remove_follow_up:
  assumes "\<And>q. \<not> is_queued_follow_up (change q)" and "\<And>q. qi_id (change q) = qi_id q"
  shows "follow_up_view (update_inputs tx (\<lambda>q. qi_id q = i \<and> is_queued_follow_up q) change inputs)
    = filter (\<lambda>(j, c). j \<noteq> i) (follow_up_view inputs)"
proof -
  have drop: "\<not> is_queued_follow_up ((change q)\<lparr>qi_updated_at := n, qi_row_version := v\<rparr>)" for q n v
    using assms(1) [of q] by (simp add: is_queued_follow_up_def)
  have "filter is_queued_follow_up (update_inputs tx (\<lambda>q. qi_id q = i \<and> is_queued_follow_up q) change inputs)
      = filter (\<lambda>q. qi_id q \<noteq> i) (filter is_queued_follow_up inputs)"
    by (induction inputs) (auto simp: update_inputs_def drop)
  then show ?thesis
    by (simp add: follow_up_view_def queued_follow_ups_def filter_sort [symmetric] filter_map o_def)
qed

lemma sort_key_map_same: "(\<And>x. f (u x) = f x) \<Longrightarrow> sort_key f (map u xs) = map u (sort_key f xs)"
proof (induction xs)
  case (Cons x xs)
  have "insort_key f (u y) (map u ys) = map u (insort_key f y ys)" for y ys
    by (induction ys) (simp_all add: Cons.prems)
  with Cons show ?case by simp
qed simp

lemma edit_follow_up:
  assumes "\<And>q. qi_id (change q) = qi_id q" "\<And>q. qi_follow_up_position (change q) = qi_follow_up_position q"
    "\<And>q. qi_created_at (change q) = qi_created_at q" "\<And>q. qi_content (change q) = c"
    "\<And>q. qi_priority (change q) = qi_priority q" "\<And>q. qi_status (change q) = qi_status q"
  shows "follow_up_view (update_inputs tx (\<lambda>q. qi_id q = i \<and> is_queued_follow_up q) change inputs)
    = map (\<lambda>(j, d). (j, if j = i then c else d)) (follow_up_view inputs)"
    and "inputs_ok inputs \<Longrightarrow> inputs_ok (update_inputs tx (\<lambda>q. qi_id q = i \<and> is_queued_follow_up q) change inputs)"
proof -
  define u where "u q = (if qi_id q = i \<and> is_queued_follow_up q
    then (change q)\<lparr>qi_updated_at := tx_now tx, qi_row_version := tx_xid tx\<rparr> else q)" for q
  have u: "qi_id (u q) = qi_id q" "qi_follow_up_position (u q) = qi_follow_up_position q" "follow_up_order (u q) = follow_up_order q"
    "is_queued_follow_up (u q) = is_queued_follow_up q" for q
    by (simp_all add: u_def follow_up_order_def is_queued_follow_up_def assms)
  have upd: "update_inputs tx (\<lambda>q. qi_id q = i \<and> is_queued_follow_up q) change inputs = map u inputs"
    by (simp add: update_inputs_def u_def)
  have f: "filter is_queued_follow_up (map u inputs) = map u (filter is_queued_follow_up inputs)"
    by (simp add: filter_map o_def u)
  have "queued_follow_ups (map u inputs) = map u (queued_follow_ups inputs)"
    by (simp add: queued_follow_ups_def f sort_key_map_same u)
  moreover have "(qi_id (u q), qi_content (u q)) = (qi_id q, if qi_id q = i then c else qi_content q)"
    if "is_queued_follow_up q" for q using that by (simp add: u_def assms)
  ultimately show "follow_up_view (update_inputs tx (\<lambda>q. qi_id q = i \<and> is_queued_follow_up q) change inputs)
      = map (\<lambda>(j, d). (j, if j = i then c else d)) (follow_up_view inputs)"
    by (simp add: follow_up_view_def upd)
  show "inputs_ok (update_inputs tx (\<lambda>q. qi_id q = i \<and> is_queued_follow_up q) change inputs)" if "inputs_ok inputs"
    unfolding upd using that by (fastforce simp: inputs_ok_def u o_def)
qed

section \<open>Operations\<close>

text \<open>What an operation does to the list of follow-ups.\<close>

datatype queue_effect =
  KeepQueue | AppendInput string UserMessage | RemoveInput string | EditInput string UserMessage | ReorderInputs "string list"

fun apply_effect :: "queue_effect \<Rightarrow> (string \<times> QueuedInputContent) list \<Rightarrow> (string \<times> QueuedInputContent) list" where
  "apply_effect KeepQueue xs = xs"
| "apply_effect (AppendInput i m) xs = xs @ [(i, UserMessageContent m)]"
| "apply_effect (RemoveInput i) xs = filter (\<lambda>(j, c). j \<noteq> i) xs"
| "apply_effect (EditInput i m) xs = map (\<lambda>(j, c). (j, if j = i then UserMessageContent m else c)) xs"
| "apply_effect (ReorderInputs ids) xs = map (\<lambda>i. (i, the (map_of xs i))) ids"

text \<open>An operation changed the queue: a new revision and one event.\<close>

definition changed_queue :: "EventFrame option \<Rightarrow> QueueState \<Rightarrow> session_rows \<Rightarrow> session_rows \<Rightarrow> bool" where
  "changed_queue event queue se se' \<longleftrightarrow> se_queue_revision se' = se_queue_revision se + 1 \<and> queue = queue_state se'
     \<and> (\<exists>e. event = Some e \<and> se_events se' = se_events se @ [e]) \<and> se_entries se' = se_entries se
     \<and> se_transcript_revision se' = se_transcript_revision se"

definition same_queue :: "EventFrame option \<Rightarrow> QueueState \<Rightarrow> session_rows \<Rightarrow> session_rows \<Rightarrow> bool" where
  "same_queue event queue se se' \<longleftrightarrow> se' = se \<and> event = None \<and> queue = queue_state se"

lemma queue_state_event [simp]: "queue_state (snd (insert_event t p se)) = queue_state se"
  by (simp add: queue_state_def insert_event_def Let_def session_has_unfinished_actions_def)

lemma renumber_same [simp]:
  "se_events (renumber_follow_ups tx se) = se_events se" "se_entries (renumber_follow_ups tx se) = se_entries se"
  "se_queue_revision (renumber_follow_ups tx se) = se_queue_revision se"
  "se_transcript_revision (renumber_follow_ups tx se) = se_transcript_revision se"
  by (simp_all add: renumber_follow_ups_def)

lemma inputs_okD: "inputs_ok inputs \<Longrightarrow> distinct (map qi_id inputs)"
  by (simp add: inputs_ok_def)

lemma bump_queue [simp]: "se_queue_revision (bump_revisions True t se) = se_queue_revision se + 1"
    "se_transcript_revision (bump_revisions q False se) = se_transcript_revision se"
  by (simp_all add: bump_revisions_def)

lemma map_of_pairs: "i \<in> set xs \<Longrightarrow> map_of (map (\<lambda>i. (i, f i)) xs) i = Some (f i)"
  by (induction xs) auto

lemma reorder_refines:
  assumes ok: "inputs_ok (se_inputs se)" and r: "reorder_queued_follow_ups tx ids expected se = (result, se')"
  shows "if ro_reordered result
    then inputs_ok (se_inputs se') \<and> follow_up_view (se_inputs se') = apply_effect (ReorderInputs ids) (follow_up_view (se_inputs se))
      \<and> queued_follow_up_ids se' = ids \<and> changed_queue (ro_event result) (ro_queue result) se se'
    else same_queue (ro_event result) (ro_queue result) se se'"
proof (cases "revision_mismatch se expected \<or> queued_follow_up_ids se = ids \<or> sort (queued_follow_up_ids se) \<noteq> sort ids")
  case True
  then show ?thesis using r by (auto simp: reorder_queued_follow_ups_def same_queue_def Let_def split: if_splits)
next
  case False
  let ?inputs = "se_inputs se"
  note d = inputs_okD [OF ok]
  have cur: "distinct (queued_follow_up_ids se)" "set (queued_follow_up_ids se) = qi_id ` {q \<in> set ?inputs. is_queued_follow_up q}"
    using distinct_follow_up_ids [OF d] by (simp_all add: queued_follow_up_ids_def)
  have perm: "mset ids = mset (queued_follow_up_ids se)" using False by (metis mset_sort)
  then have ids: "distinct ids" "set ids = qi_id ` {q \<in> set ?inputs. is_queued_follow_up q}"
    using cur by (metis mset_eq_imp_distinct_iff, metis mset_eq_setD)
  note P = placed_inputs [OF d ids _ refl, of "\<lambda>n q. is_queued_follow_up q" tx, simplified]
  obtain p where se': "se' = snd (insert_event EventInputReordered p (bump_revisions True False
      (se\<lparr>se_inputs := place_follow_ups tx (\<lambda>n q. is_queued_follow_up q) 0 ids ?inputs\<rparr>)))"
    and res: "ro_reordered result" "ro_event result = Some (fst (insert_event EventInputReordered p (bump_revisions True False
      (se\<lparr>se_inputs := place_follow_ups tx (\<lambda>n q. is_queued_follow_up q) 0 ids ?inputs\<rparr>))))" "ro_queue result = queue_state se'"
    using r False by (auto simp: reorder_queued_follow_ups_def Let_def split_def)
  have "map_of (follow_up_view ?inputs) i = Some (content_of ?inputs i)" if "i \<in> set ids" for i
    unfolding follow_up_view_by_ids [OF d] by (rule map_of_pairs) (use that ids(2) in simp)
  then have "apply_effect (ReorderInputs ids) (follow_up_view ?inputs) = map (\<lambda>i. (i, content_of ?inputs i)) ids" by simp
  then show ?thesis using P res
    by (auto simp: se' changed_queue_def queued_follow_up_ids_def)
qed

lemma input_by_id_row: "input_by_id se i = Some row \<Longrightarrow> row \<in> set (se_inputs se) \<and> qi_id row = i"
  by (auto simp: input_by_id_def find_Some_iff)

text \<open>A removal, then the rest of the queue is numbered again.\<close>

lemma remove_then_renumber:
  assumes ok: "inputs_ok (se_inputs se)" and "\<And>q. \<not> is_queued_follow_up (change q)" "\<And>q. qi_id (change q) = qi_id q"
    and se1: "se1 = se\<lparr>se_inputs := update_inputs tx (\<lambda>q. qi_id q = i \<and> is_queued_follow_up q) change (se_inputs se)\<rparr>"
  shows "inputs_ok (se_inputs (renumber_follow_ups tx se1))
    \<and> follow_up_view (se_inputs (renumber_follow_ups tx se1)) = apply_effect (RemoveInput i) (follow_up_view (se_inputs se))"
proof -
  have d: "distinct (map qi_id (se_inputs se1))" using update_inputs_ids [of change] assms(3) inputs_okD [OF ok] by (simp add: se1)
  show ?thesis using renumber_inputs [OF d, of tx] remove_follow_up [OF assms(2,3)] by (simp add: se1)
qed

lemma cancel_refines:
  assumes ok: "inputs_ok (se_inputs se)" and r: "cancel_queued_input tx i expected se = Inr (result, se')"
  shows "if ch_changed result
    then inputs_ok (se_inputs se') \<and> follow_up_view (se_inputs se') = apply_effect (RemoveInput i) (follow_up_view (se_inputs se))
      \<and> changed_queue (ch_event result) (ch_queue result) se se'
    else same_queue (ch_event result) (ch_queue result) se se'"
proof (cases "revision_mismatch se expected \<or> (\<forall>row. input_by_id se i = Some row \<longrightarrow> \<not> is_queued_follow_up row)")
  case True
  then show ?thesis using r
    by (auto simp: cancel_queued_input_def unchanged_input_def same_queue_def is_queued_follow_up_def Let_def split: if_splits option.splits)
next
  case False
  then obtain row where row: "input_by_id se i = Some row" "qi_priority row = PriorityFollowUp" "qi_status row = StatusQueued"
    by (auto simp: is_queued_follow_up_def)
  define se1 where "se1 = se\<lparr>se_inputs := update_inputs tx (\<lambda>q. qi_id q = i \<and> is_queued_follow_up q)
    (\<lambda>q. q\<lparr>qi_status := StatusCancelled, qi_follow_up_position := None, qi_origin := (qi_origin q)\<lparr>og_cancelled_at := Some (tx_now tx)\<rparr>\<rparr>)
    (se_inputs se)\<rparr>"
  obtain p where se': "se' = snd (insert_event EventInputCancelled p (bump_revisions True False (renumber_follow_ups tx se1)))"
    and res: "ch_changed result" "ch_queue result = queue_state se'"
      "ch_event result = Some (fst (insert_event EventInputCancelled p (bump_revisions True False (renumber_follow_ups tx se1))))"
    using r False row by (auto simp: cancel_queued_input_def se1_def Let_def split_def)
  have "inputs_ok (se_inputs (renumber_follow_ups tx se1))
    \<and> follow_up_view (se_inputs (renumber_follow_ups tx se1)) = apply_effect (RemoveInput i) (follow_up_view (se_inputs se))"
    by (rule remove_then_renumber [OF ok _ _ se1_def]) (simp_all add: is_queued_follow_up_def)
  then show ?thesis using res by (simp add: se' changed_queue_def) (simp add: se1_def)
qed

lemma promote_refines:
  assumes ok: "inputs_ok (se_inputs se)" and r: "promote_queued_input tx i se = Inr (result, se')"
  shows "if pq_promoted result
    then inputs_ok (se_inputs se') \<and> follow_up_view (se_inputs se') = apply_effect (RemoveInput i) (follow_up_view (se_inputs se))
      \<and> changed_queue (pq_event result) (pq_queue result) se se'
    else same_queue (pq_event result) (pq_queue result) se se'"
proof -
  obtain route row where row: "unfinished_generation_route se = Inr route" "input_by_id se i = Some row"
    using r by (auto simp: promote_queued_input_def split: sum.splits option.splits)
  show ?thesis
  proof (cases "is_queued_follow_up row")
    case False
    then show ?thesis using r row by (auto simp: promote_queued_input_def same_queue_def)
  next
    case True
    define se1 where "se1 = se\<lparr>se_inputs := update_inputs tx (\<lambda>q. qi_id q = i \<and> is_queued_follow_up q)
      (\<lambda>q. q\<lparr>qi_priority := PrioritySteer, qi_provider_config := option_or route (qi_provider_config q),
        qi_follow_up_position := None, qi_origin := (qi_origin q)\<lparr>og_promoted_at := Some (tx_clock tx)\<rparr>\<rparr>) (se_inputs se)\<rparr>"
    obtain p where se': "se' = snd (insert_event EventInputPromoted p (bump_revisions True False (renumber_follow_ups tx se1)))"
      and res: "pq_promoted result" "pq_queue result = queue_state se'"
        "pq_event result = Some (fst (insert_event EventInputPromoted p (bump_revisions True False (renumber_follow_ups tx se1))))"
      using r True row by (auto simp: promote_queued_input_def se1_def Let_def split_def)
    have "inputs_ok (se_inputs (renumber_follow_ups tx se1))
      \<and> follow_up_view (se_inputs (renumber_follow_ups tx se1)) = apply_effect (RemoveInput i) (follow_up_view (se_inputs se))"
      by (rule remove_then_renumber [OF ok _ _ se1_def]) (simp_all add: is_queued_follow_up_def)
    then show ?thesis using res by (simp add: se' changed_queue_def) (simp add: se1_def)
  qed
qed

lemma update_refines:
  assumes ok: "inputs_ok (se_inputs se)" and r: "update_queued_input tx i m expected se = Inr (result, se')"
  shows "if ch_changed result
    then inputs_ok (se_inputs se') \<and> follow_up_view (se_inputs se') = apply_effect (EditInput i m) (follow_up_view (se_inputs se))
      \<and> changed_queue (ch_event result) (ch_queue result) se se'
    else same_queue (ch_event result) (ch_queue result) se se'"
proof (cases "revision_mismatch se expected \<or> (\<forall>row. input_by_id se i = Some row \<longrightarrow>
    \<not> is_queued_follow_up row \<or> qi_content row = UserMessageContent m)")
  case True
  then show ?thesis using r
    by (auto simp: update_queued_input_def unchanged_input_def same_queue_def is_queued_follow_up_def Let_def split: if_splits option.splits)
next
  case False
  then obtain row where row: "input_by_id se i = Some row" "qi_priority row = PriorityFollowUp" "qi_status row = StatusQueued"
    "qi_content row \<noteq> UserMessageContent m" by (auto simp: is_queued_follow_up_def)
  let ?change = "\<lambda>q. q\<lparr>qi_content := UserMessageContent m, qi_origin := (qi_origin q)\<lparr>og_edited_at := Some (tx_now tx)\<rparr>\<rparr>"
  define se1 where "se1 = bump_revisions True False (se\<lparr>se_inputs :=
    update_inputs tx (\<lambda>q. qi_id q = i \<and> is_queued_follow_up q) ?change (se_inputs se)\<rparr>)"
  obtain p where se': "se' = snd (insert_event EventInputUpdated p se1)"
    and res: "ch_changed result" "ch_queue result = queue_state se'" "ch_event result = Some (fst (insert_event EventInputUpdated p se1))"
    using r False row by (auto simp: update_queued_input_def se1_def Let_def split_def)
  have "inputs_ok (se_inputs se1)" "follow_up_view (se_inputs se1) = apply_effect (EditInput i m) (follow_up_view (se_inputs se))"
    unfolding se1_def using edit_follow_up [where change = ?change and c = "UserMessageContent m" and inputs = "se_inputs se"] ok by simp_all
  then show ?thesis using res by (simp add: se' changed_queue_def) (simp add: se1_def)
qed

lemma fold_max_ge: "a \<le> fold max xs (a :: int)"
proof (induction xs arbitrary: a)
  case (Cons x xs)
  have "max x a \<le> fold max xs (max x a)" by (rule Cons.IH)
  then show ?case by simp
qed simp

lemma fold_max_mem: "x \<in> set xs \<Longrightarrow> x \<le> fold max xs (a :: int)"
proof (induction xs arbitrary: a)
  case (Cons y xs)
  then show ?case using fold_max_ge [of "max y a" xs] by auto
qed simp

lemma next_position_above:
  "q \<in> set (se_inputs se) \<Longrightarrow> is_queued_follow_up q \<Longrightarrow> qi_follow_up_position q = Some n \<Longrightarrow> n < next_follow_up_position se"
  using fold_max_mem [of n "List.map_filter qi_follow_up_position (filter is_queued_follow_up (se_inputs se))" "-1"]
  by (force simp: next_follow_up_position_def map_filter_def)

text \<open>A new row behind all others.\<close>

lemma append_input:
  assumes ok: "inputs_ok (se_inputs se)" and new: "qi_id row \<notin> qi_id ` set (se_inputs se)"
    and pos: "is_queued_follow_up row \<Longrightarrow> qi_follow_up_position row = Some (next_follow_up_position se)"
  shows "inputs_ok (se_inputs se @ [row])"
    and "follow_up_view (se_inputs se @ [row]) =
      follow_up_view (se_inputs se) @ (if is_queued_follow_up row then [(qi_id row, qi_content row)] else [])"
proof -
  have below: "\<exists>n. qi_follow_up_position q = Some n \<and> n < next_follow_up_position se" if "q \<in> set (se_inputs se)" "is_queued_follow_up q" for q
    using next_position_above [OF that] ok that by (auto simp: inputs_ok_def)
  show "inputs_ok (se_inputs se @ [row])"
    using ok new pos below unfolding inputs_ok_def by (fastforce simp: image_iff)
  have "follow_up_order q \<le> follow_up_order row" if "q \<in> set (se_inputs se)" "is_queued_follow_up q" "is_queued_follow_up row" for q
    using below [OF that(1,2)] pos [OF that(3)] by (auto simp: follow_up_order_def nulls_last_def less_eq_prod_def less_prod_def)
  then have "is_queued_follow_up row \<Longrightarrow> queued_follow_ups (se_inputs se @ [row]) = queued_follow_ups (se_inputs se) @ [row]"
    unfolding queued_follow_ups_def filter_append by (simp add: sort_key_snoc)
  then show "follow_up_view (se_inputs se @ [row]) =
      follow_up_view (se_inputs se) @ (if is_queued_follow_up row then [(qi_id row, qi_content row)] else [])"
    by (auto simp: follow_up_view_def queued_follow_ups_def)
qed

lemma enqueue_refines:
  assumes ok: "inputs_ok (se_inputs se)" and new: "i \<notin> qi_id ` set (se_inputs se)"
    and r: "enqueue_user_input tx i priority m client expected se = Inr (result, se')"
  shows "if eq_replayed result then same_queue (eq_event result) (eq_queue result) se se'
    else inputs_ok (se_inputs se') \<and> changed_queue (eq_event result) (eq_queue result) se se' \<and> eq_input_id result = i
      \<and> follow_up_view (se_inputs se') =
          apply_effect (if priority = PriorityFollowUp then AppendInput i m else KeepQueue) (follow_up_view (se_inputs se))"
proof (cases "Option.bind client (client_input se)")
  case (Some row)
  then show ?thesis using r by (auto simp: enqueue_user_input_def same_queue_def split: sum.splits)
next
  case None
  define row where "row route = \<lparr>qi_id = i, qi_priority = priority, qi_content = UserMessageContent m,
    qi_origin = (case priority of PrioritySteer \<Rightarrow> no_origin\<lparr>og_promoted_at := Some (tx_clock tx)\<rparr> | PriorityFollowUp \<Rightarrow> no_origin),
    qi_status = StatusQueued, qi_created_at = tx_now tx, qi_updated_at = tx_now tx,
    qi_follow_up_position = (case priority of PriorityFollowUp \<Rightarrow> Some (next_follow_up_position se) | PrioritySteer \<Rightarrow> None),
    qi_client_input_id = client, qi_provider_config = Some route, qi_row_version = tx_xid tx\<rparr>" for route
  obtain route p se1 where se1: "se1 = bump_revisions True False (se\<lparr>se_inputs := se_inputs se @ [row route]\<rparr>)"
    and se': "se' = snd (insert_event EventInputQueued p se1)"
    and res: "\<not> eq_replayed result" "eq_queue result = queue_state se'" "eq_event result = Some (fst (insert_event EventInputQueued p se1))"
      "eq_input_id result = i"
    using r None by (auto simp: enqueue_user_input_def row_def [symmetric] Let_def split_def split: sum.splits)
  have row: "qi_id (row route) = i" "qi_content (row route) = UserMessageContent m"
      "priority = PriorityFollowUp \<Longrightarrow> qi_follow_up_position (row route) = Some (next_follow_up_position se)"
    by (simp_all add: row_def)
  have q: "is_queued_follow_up (row route) \<longleftrightarrow> priority = PriorityFollowUp" by (simp add: is_queued_follow_up_def row_def)
  have "inputs_ok (se_inputs se1)" "follow_up_view (se_inputs se1) =
      apply_effect (if priority = PriorityFollowUp then AppendInput i m else KeepQueue) (follow_up_view (se_inputs se))"
    using append_input [OF ok, of "row route"] new row q by (auto simp: se1)
  then show ?thesis using res by (simp add: se' changed_queue_def) (simp add: se1)
qed

text \<open>
  An edit that names the revision it expects: it changes the queue only at that revision, and
  otherwise nothing.
\<close>

definition guarded_edit :: "int option \<Rightarrow> bool \<Rightarrow> EventFrame option \<Rightarrow> QueueState \<Rightarrow> session_rows \<Rightarrow> session_rows \<Rightarrow> bool" where
  "guarded_edit expected changed event queue se se' \<longleftrightarrow>
     (if changed then expected \<in> {None, Some (se_queue_revision se)} \<and> changed_queue event queue se se'
      else same_queue event queue se se')"

lemma mismatch_iff: "\<not> revision_mismatch se expected \<longleftrightarrow> expected \<in> {None, Some (se_queue_revision se)}"
  by (auto simp: revision_mismatch_def split: option.splits)

lemma changed_matches:
  "update_queued_input tx i m expected se = Inr (change, se') \<Longrightarrow> ch_changed change \<Longrightarrow> \<not> revision_mismatch se expected"
  "cancel_queued_input tx i expected se = Inr (change, se') \<Longrightarrow> ch_changed change \<Longrightarrow> \<not> revision_mismatch se expected"
  "reorder_queued_follow_ups tx ids expected se = (order, se') \<Longrightarrow> ro_reordered order \<Longrightarrow> \<not> revision_mismatch se expected"
  by (auto simp: update_queued_input_def cancel_queued_input_def reorder_queued_follow_ups_def unchanged_input_def Let_def split: if_splits)

section \<open>Runs\<close>

inductive runs :: "('e \<Rightarrow> 's \<Rightarrow> 's \<Rightarrow> bool) \<Rightarrow> 'e list \<Rightarrow> 's \<Rightarrow> 's \<Rightarrow> bool" for step where
  runs_Nil: "runs step [] s s"
| runs_Cons: "step e s t \<Longrightarrow> runs step es t u \<Longrightarrow> runs step (e # es) s u"

text \<open>The contract of a component whose steps have an effect on an abstract view.\<close>

locale effect_simulation =
  fixes step :: "'e \<Rightarrow> 's \<Rightarrow> 's \<Rightarrow> bool" and inv :: "'s \<Rightarrow> bool" and view :: "'s \<Rightarrow> 'v" and effect :: "'e \<Rightarrow> 'v \<Rightarrow> 'v"
  assumes step_inv: "step e s t \<Longrightarrow> inv s \<Longrightarrow> inv t"
    and step_view: "step e s t \<Longrightarrow> inv s \<Longrightarrow> view t = effect e (view s)"
begin

lemma runs_simulate: "runs step es s t \<Longrightarrow> inv s \<Longrightarrow> inv t \<and> view t = fold effect es (view s)"
proof (induction rule: runs.induct)
  case (runs_Cons e s t es u)
  then show ?case using step_inv step_view by simp
qed simp

end

text \<open>
  The operations on a queue, each with its effect; one that was refused or repeated has none. The id
  of a new row is not in use.
\<close>

inductive queue_step :: "queue_effect \<Rightarrow> session_rows \<Rightarrow> session_rows \<Rightarrow> bool" where
  queue_enqueue: "enqueue_user_input tx i priority m client expected se = Inr (result, se') \<Longrightarrow> i \<notin> qi_id ` set (se_inputs se) \<Longrightarrow>
    queue_step (if eq_replayed result \<or> priority = PrioritySteer then KeepQueue else AppendInput i m) se se'"
| queue_promote: "promote_queued_input tx i se = Inr (result, se') \<Longrightarrow>
    queue_step (if pq_promoted result then RemoveInput i else KeepQueue) se se'"
| queue_update: "update_queued_input tx i m revision se = Inr (result, se') \<Longrightarrow>
    queue_step (if ch_changed result then EditInput i m else KeepQueue) se se'"
| queue_cancel: "cancel_queued_input tx i revision se = Inr (result, se') \<Longrightarrow>
    queue_step (if ch_changed result then RemoveInput i else KeepQueue) se se'"
| queue_reorder: "reorder_queued_follow_ups tx ids revision se = (result, se') \<Longrightarrow>
    queue_step (if ro_reordered result then ReorderInputs ids else KeepQueue) se se'"

lemma queue_step_refines:
  "queue_step e se se' \<Longrightarrow> inputs_ok (se_inputs se) \<Longrightarrow>
     inputs_ok (se_inputs se') \<and> follow_up_view (se_inputs se') = apply_effect e (follow_up_view (se_inputs se))"
proof (induction rule: queue_step.induct)
  case (queue_enqueue tx i priority m client expected se result se')
  then show ?case using enqueue_refines [OF queue_enqueue(3,2,1)]
    by (cases priority) (auto simp: same_queue_def split: if_splits)
next
  case (queue_promote tx i se result se')
  then show ?case using promote_refines [OF queue_promote(2,1)] by (auto simp: same_queue_def split: if_splits)
next
  case (queue_update tx i m revision se result se')
  then show ?case using update_refines [OF queue_update(2,1)] by (auto simp: same_queue_def split: if_splits)
next
  case (queue_cancel tx i revision se result se')
  then show ?case using cancel_refines [OF queue_cancel(2,1)] by (auto simp: same_queue_def split: if_splits)
next
  case (queue_reorder tx ids revision se result se')
  then show ?case using reorder_refines [OF queue_reorder(2,1)] by (auto simp: same_queue_def split: if_splits)
qed

interpretation queue: effect_simulation queue_step "\<lambda>se. inputs_ok (se_inputs se)" "\<lambda>se. follow_up_view (se_inputs se)" apply_effect
  using queue_step_refines by unfold_locales blast+

lemma reset_inputs_ok: "inputs_ok (se_inputs se) \<Longrightarrow> inputs_ok (se_inputs (reset_inputs tx selected se))"
  using renumber_inputs(1) inputs_okD update_inputs_ids by (simp add: reset_inputs_def)

section \<open>Dispatch\<close>

lemma dispatch_order_follow_ups:
  "qi_priority q = PriorityFollowUp \<Longrightarrow> qi_priority r = PriorityFollowUp \<Longrightarrow>
     QUEUED_INPUT_DISPATCH_ORDER q \<le> QUEUED_INPUT_DISPATCH_ORDER r \<longleftrightarrow> follow_up_order q \<le> follow_up_order r"
  by (simp add: QUEUED_INPUT_DISPATCH_ORDER_def follow_up_order_def less_eq_prod_def less_prod_def)

lemma sort_key_cong_le:
  assumes "\<And>x y. x \<in> set xs \<Longrightarrow> y \<in> set xs \<Longrightarrow> f x \<le> f y \<longleftrightarrow> g x \<le> g y"
  shows "sort_key f xs = sort_key g xs"
  using assms
proof (induction xs)
  case (Cons x xs)
  have ins: "insort_key f x ys = insort_key g x ys" if "set ys \<subseteq> set xs" for ys
    using that Cons.prems by (induction ys) auto
  have "sort_key f xs = sort_key g xs" using Cons by auto
  then show ?case using ins [of "sort_key g xs"] by simp
qed simp

text \<open>An input that no control holds up.\<close>

definition plain_input :: "input_row \<Rightarrow> bool" where
  "plain_input q \<longleftrightarrow> \<not> og_control_interrupt (qi_origin q) \<and> og_control_kind (qi_origin q) = None"

lemma take_next_follow_up:
  assumes "list_all plain_input (se_inputs se)" and "\<forall>q \<in> set (se_inputs se). qi_status q = StatusQueued \<longrightarrow> qi_priority q = PriorityFollowUp"
  shows "map_option (\<lambda>next. (qd_id next, qd_content next)) (take_next_queued_input se) =
    (case follow_up_view (se_inputs se) of [] \<Rightarrow> None | x # _ \<Rightarrow> Some x)"
proof -
  let ?rows = "filter (\<lambda>q. may_dispatch se q \<and> og_control_kind (qi_origin q) \<noteq> Some ControlInterrupt) (se_inputs se)"
  have rows: "?rows = filter is_queued_follow_up (se_inputs se)"
    using assms by (intro filter_cong) (auto simp: may_dispatch_def blocks_queue_def plain_input_def is_queued_follow_up_def list_all_iff list_ex_iff)
  have "sort_key QUEUED_INPUT_DISPATCH_ORDER ?rows = queued_follow_ups (se_inputs se)"
    unfolding rows queued_follow_ups_def
    by (rule sort_key_cong_le) (auto simp: is_queued_follow_up_def dispatch_order_follow_ups)
  then show ?thesis
    by (simp add: take_next_queued_input_def take_next_queued_input_matching_def first_in_order_def follow_up_view_def split: list.split)
qed

section \<open>Pages of events\<close>

definition events_from :: "session_rows \<Rightarrow> int \<Rightarrow> EventFrame list" where
  "events_from se after = sort_key ef_event_id (filter (\<lambda>e. after < ef_event_id e) (se_events se))"

lemma page_limit: "clamped None DEFAULT_EVENT_REPLAY_PAGE_LIMIT MAX_EVENT_REPLAY_PAGE_LIMIT = 500"
  by (simp add: clamped_def DEFAULT_EVENT_REPLAY_PAGE_LIMIT_def MAX_EVENT_REPLAY_PAGE_LIMIT_def)

lemma events_page:
  "events_after_page se (Some after) None =
     \<lparr>ep_events = take 500 (events_from se after),
      ep_next_after_event_id = (if 500 < length (events_from se after)
        then Some (ef_event_id (last (take 500 (events_from se after)))) else None),
      ep_has_more = (500 < length (events_from se after))\<rparr>"
  by (simp add: events_after_page_def bounded_event_page_def page_limit events_from_def Let_def min_def)

lemma events_from_rest:
  assumes "distinct (map ef_event_id (se_events se))" and "n < length (events_from se after)"
  shows "events_from se (ef_event_id (events_from se after ! n)) = drop (Suc n) (events_from se after)"
proof -
  let ?all = "events_from se after"
  have st: "sorted_wrt (\<lambda>a b. ef_event_id a < ef_event_id b) ?all"
  proof -
    have "sorted (map ef_event_id ?all)" by (simp add: events_from_def)
    moreover have "distinct (map ef_event_id ?all)"
      using assms(1) by (simp add: events_from_def distinct_map_filter mset_eq_imp_distinct_iff [of "map ef_event_id (sort_key ef_event_id (filter _ _))" "map ef_event_id (filter _ _)"])
    ultimately have "sorted_wrt (<) (map ef_event_id ?all)" by (simp add: strict_sorted_iff)
    then show ?thesis by (simp add: sorted_wrt_map)
  qed
  have after: "after < ef_event_id (?all ! n)" using nth_mem [OF assms(2)] by (simp add: events_from_def)
  have "filter (\<lambda>e. ef_event_id (?all ! n) < ef_event_id e) ?all = drop (Suc n) ?all"
  proof -
    have "filter (\<lambda>e. ef_event_id (?all ! n) < ef_event_id e) (take (Suc n) ?all) = []"
      using st assms(2) by (fastforce simp: filter_empty_conv in_set_conv_nth less_Suc_eq not_less sorted_wrt_iff_nth_less less_imp_le)
    moreover have "filter (\<lambda>e. ef_event_id (?all ! n) < ef_event_id e) (drop (Suc n) ?all) = drop (Suc n) ?all"
      using st assms(2) by (auto simp: filter_id_conv in_set_conv_nth sorted_wrt_iff_nth_less)
    ultimately show ?thesis by (metis append_Nil append_take_drop_id filter_append)
  qed
  moreover have "events_from se (ef_event_id (?all ! n)) = filter (\<lambda>e. ef_event_id (?all ! n) < ef_event_id e) ?all"
    using after by (simp add: events_from_def filter_sort) (intro arg_cong [of _ _ "sort_key ef_event_id"] filter_cong, auto)
  ultimately show ?thesis by simp
qed

lemma events_after_all:
  assumes "distinct (map ef_event_id (se_events se))"
  shows "events_after_loop se after acc = Some (acc @ events_from se after)"
proof (induction "length (events_from se after)" arbitrary: after acc rule: less_induct)
  case less
  let ?all = "events_from se after"
  show ?case
  proof (cases "500 < length ?all")
    case True
    then have "last (take 500 ?all) = ?all ! 499" by (subst last_conv_nth) auto
    moreover have "events_from se (ef_event_id (?all ! 499)) = drop 500 ?all" using events_from_rest [OF assms, of 499 after] True by simp
    moreover have "take 500 ?all \<noteq> []" using True by auto
    ultimately show ?thesis using True less [of "ef_event_id (?all ! 499)" "acc @ take 500 ?all"]
      by (subst events_after_loop.simps) (simp add: events_page Let_def)
  next
    case False
    then show ?thesis by (subst events_after_loop.simps) (simp add: events_page Let_def)
  qed
qed

end
