(* ===== verification/Store_Outputs_Proofs.thy ===== *)
theory Store_Outputs_Proofs
  imports Store_Outputs Store_Queue_Proofs
begin

text \<open>
  What the transaction of a session's outputs keeps (\<open>agent-store/src/postgres/outputs.rs\<close>): the stored
  transcript follows the one in memory, and an input is consumed once.
\<close>

section \<open>The parts of the transaction\<close>

text \<open>Steps that leave the transcript as it is.\<close>

definition same_transcript :: "session_rows \<Rightarrow> session_rows \<Rightarrow> bool" where
  "same_transcript se se' \<longleftrightarrow> se_entries se' = se_entries se \<and> se_active_leaf_id se' = se_active_leaf_id se
     \<and> se_next_sequence se' = se_next_sequence se"

definition same_inputs :: "session_rows \<Rightarrow> session_rows \<Rightarrow> bool" where
  "same_inputs se se' \<longleftrightarrow> se_inputs se' = se_inputs se"

lemma same_trans [trans]:
  "same_transcript a b \<Longrightarrow> same_transcript b c \<Longrightarrow> same_transcript a c"
  "same_inputs a b \<Longrightarrow> same_inputs b c \<Longrightarrow> same_inputs a c"
  by (simp_all add: same_transcript_def same_inputs_def)

lemma map_sum_eq_Inr: "map_sum id f r = Inr y \<longleftrightarrow> (\<exists>x. r = Inr x \<and> y = f x)"
  by (cases r) auto

lemma insert_event_frame:
  "same_transcript se (snd (insert_event t p se))" "same_inputs se (snd (insert_event t p se))"
  "same_transcript se (snd (insert_event_with_activity t p se))" "same_inputs se (snd (insert_event_with_activity t p se))"
  by (simp_all add: same_transcript_def same_inputs_def insert_event_def insert_event_with_activity_def Let_def)

lemma insert_all_events_frame:
  "same_transcript se (snd (insert_all_events events se)) \<and> same_inputs se (snd (insert_all_events events se))"
proof (induction events arbitrary: se)
  case (Cons e events)
  obtain t p where e: "e = (t, p)" by (cases e)
  show ?case using Cons.IH [of "snd (insert_event t p se)"] insert_event_frame(1,2) [of se t p] same_trans
    by (auto simp: e split_def Let_def)
qed (simp add: same_transcript_def same_inputs_def)

lemma insert_events_with_activity_frame:
  "same_transcript se (snd (insert_events_with_activity events se)) \<and> same_inputs se (snd (insert_events_with_activity events se))"
proof (induction events arbitrary: se)
  case (Cons e events)
  obtain t p where e: "e = (t, p)" by (cases e)
  show ?case using Cons.IH [of "snd (insert_event_with_activity t p se)"] insert_event_frame(3,4) [of se t p] same_trans
    by (auto simp: e split_def Let_def)
qed (simp add: same_transcript_def same_inputs_def)

lemma insert_session_event_frame:
  "same_transcript se (snd (insert_session_event state records rows event se))
   \<and> same_inputs se (snd (insert_session_event state records rows event se))"
  using insert_all_events_frame insert_events_with_activity_frame
  by (cases event) (simp_all only: insert_session_event.simps insert_transcript_item_events_def Let_def)

lemma insert_session_events_frame:
  "same_transcript se (snd (insert_session_events state records rows events se))
   \<and> same_inputs se (snd (insert_session_events state records rows events se))"
proof (induction events arbitrary: se)
  case (Cons e events)
  show ?case using Cons.IH [of "snd (insert_session_event state records rows e se)"]
      insert_session_event_frame [of se state records rows e] same_trans
    by (auto simp: split_def Let_def)
qed (simp add: same_transcript_def same_inputs_def)

lemma queue_events_frame:
  "same_transcript se (snd (queue_events consumed accepted se)) \<and> same_inputs se (snd (queue_events consumed accepted se))"
  unfolding queue_events_def Let_def by (rule insert_all_events_frame)

lemma insert_actions_frame:
  "same_transcript se (snd (snd (insert_actions tx route ids actions rows se)))
   \<and> same_inputs se (snd (snd (insert_actions tx route ids actions rows se)))"
proof (induction actions arbitrary: ids rows se)
  case (Cons action actions)
  have "same_transcript se (interrupt_unfinished se)" "same_inputs se (interrupt_unfinished se)"
    "same_transcript se (se\<lparr>se_actions := xs\<rparr>)" "same_inputs se (se\<lparr>se_actions := xs\<rparr>)" for xs
    by (simp_all add: same_transcript_def same_inputs_def interrupt_unfinished_def)
  then show ?case using Cons.IH same_trans by (fastforce simp: split_def Let_def split: option.split)
qed (simp add: same_transcript_def same_inputs_def)

lemma consume_input_frame: "consume_input tx input se = Inr se' \<Longrightarrow> same_transcript se se'"
  by (auto simp: consume_input_def same_transcript_def split: if_splits)

lemma accept_input_frame: "accept_input tx i route input se = Inr (data, se') \<Longrightarrow> same_transcript se se'"
  by (auto simp: accept_input_def same_transcript_def Let_def split: if_splits option.splits)

lemma complete_action_frame: "complete_action tx update events se = Inr se' \<Longrightarrow> same_transcript se se' \<and> same_inputs se se'"
  by (auto simp: complete_action_def same_transcript_def same_inputs_def split_def Let_def split: option.splits)

lemma control_interrupt_frame: "apply_control_interrupt tx i old new se = Inr se' \<Longrightarrow> same_transcript se se'"
  by (auto simp: apply_control_interrupt_def same_transcript_def split: list.splits)

lemma bump_frame: "same_transcript se (bump_revisions q t se)" "same_inputs se (bump_revisions q t se)"
  by (simp_all add: same_transcript_def same_inputs_def bump_revisions_def)

lemma finish_outputs_frame:
  "same_transcript se (snd (finish_outputs tx route ids outputs changed records accepted se))
   \<and> same_inputs se (snd (finish_outputs tx route ids outputs changed records accepted se))"
proof -
  let ?se1 = "snd (snd (insert_actions tx route ids (ob_actions outputs) Map.empty se))"
  have "same_transcript ?se1 (if b then bump_revisions q t ?se1 else ?se1) \<and> same_inputs ?se1 (if b then bump_revisions q t ?se1 else ?se1)" for b q t
    using bump_frame by (simp add: same_transcript_def same_inputs_def)
  then show ?thesis unfolding finish_outputs_def Let_def split_def snd_conv
    using insert_actions_frame queue_events_frame insert_session_events_frame same_trans by meson
qed

text \<open>What a transaction that succeeds went through.\<close>

lemma persist_outputs_tx_parts:
  assumes "persist_outputs_tx tx new_id ids outputs se = Inr (out, se')"
  obtains se2 se3 accepted se4 se5 se6 where
    "ensure_appends outputs se = Inr ()"
    "se2 = (snd (insert_entries (map stored_of_node (ob_entries outputs)) se))\<lparr>se_active_leaf_id := ob_active_leaf_id outputs\<rparr>"
    "(case ob_consumed_input outputs of Some input \<Rightarrow> consume_input tx input se2 | None \<Rightarrow> Inr se2) = Inr se3"
    "(case ob_accepted_input outputs of
        Some input \<Rightarrow> map_sum id (\<lambda>p. (Some (fst p), snd p))
          (accept_input tx new_id (unwrap_or (ob_provider_route outputs) (se_provider_config se)) input se3)
      | None \<Rightarrow> Inr (None, se3)) = Inr (accepted, se4)"
    "(case ob_action_update outputs of Some update \<Rightarrow> complete_action tx update (ob_session_events outputs) se4 | None \<Rightarrow> Inr se4) = Inr se5"
    "(case ob_control_interrupt_input_id outputs of
        Some i \<Rightarrow> apply_control_interrupt tx i (se_active_leaf_id se) (ob_active_leaf_id outputs) se5 | None \<Rightarrow> Inr se5) = Inr se6"
    "same_transcript se6 se'" "same_inputs se6 se'"
proof -
  define se2 where "se2 = (snd (insert_entries (map stored_of_node (ob_entries outputs)) se))\<lparr>se_active_leaf_id := ob_active_leaf_id outputs\<rparr>"
  note run = assms [unfolded persist_outputs_tx_def Let_def split_def, folded se2_def]
  from run obtain u where 1: "ensure_appends outputs se = Inr u"
    and run: "and_then (case ob_consumed_input outputs of None \<Rightarrow> Inr se2 | Some input \<Rightarrow> consume_input tx input se2)
      (\<lambda>se3. and_then (case ob_accepted_input outputs of None \<Rightarrow> Inr (None, se3)
          | Some input \<Rightarrow> map_sum id (\<lambda>p. (Some (fst p), snd p))
              (accept_input tx new_id (unwrap_or (ob_provider_route outputs) (se_provider_config se)) input se3))
        (\<lambda>p. and_then (case ob_action_update outputs of None \<Rightarrow> Inr (snd p)
            | Some update \<Rightarrow> complete_action tx update (ob_session_events outputs) (snd p))
          (\<lambda>se5. and_then (case ob_control_interrupt_input_id outputs of None \<Rightarrow> Inr se5
              | Some i \<Rightarrow> apply_control_interrupt tx i (se_active_leaf_id se) (ob_active_leaf_id outputs) se5)
            (\<lambda>se6. Inr (finish_outputs tx (unwrap_or (ob_provider_route outputs) (se_provider_config se)) ids outputs
              (se_active_leaf_id se \<noteq> ob_active_leaf_id outputs)
              (fst (insert_entries (map stored_of_node (ob_entries outputs)) se)) (fst p) se6))))) = Inr (out, se')"
    unfolding and_then_Inr_iff [of "ensure_appends outputs se"] by blast
  from run obtain se3 p se5 se6 where parts:
    "(case ob_consumed_input outputs of Some input \<Rightarrow> consume_input tx input se2 | None \<Rightarrow> Inr se2) = Inr se3"
    "(case ob_accepted_input outputs of None \<Rightarrow> Inr (None, se3)
       | Some input \<Rightarrow> map_sum id (\<lambda>p. (Some (fst p), snd p))
           (accept_input tx new_id (unwrap_or (ob_provider_route outputs) (se_provider_config se)) input se3)) = Inr p"
    "(case ob_action_update outputs of Some update \<Rightarrow> complete_action tx update (ob_session_events outputs) (snd p) | None \<Rightarrow> Inr (snd p)) = Inr se5"
    "(case ob_control_interrupt_input_id outputs of
        Some i \<Rightarrow> apply_control_interrupt tx i (se_active_leaf_id se) (ob_active_leaf_id outputs) se5 | None \<Rightarrow> Inr se5) = Inr se6"
    "finish_outputs tx (unwrap_or (ob_provider_route outputs) (se_provider_config se)) ids outputs
       (se_active_leaf_id se \<noteq> ob_active_leaf_id outputs)
       (fst (insert_entries (map stored_of_node (ob_entries outputs)) se)) (fst p) se6 = (out, se')"
    unfolding and_then_Inr_iff by (elim exE conjE) (simp only: sum.inject)
  have "same_transcript se6 se'" "same_inputs se6 se'"
    using finish_outputs_frame parts(5) by (metis snd_conv)+
  then show ?thesis using that [of se2 se3 "fst p" "snd p" se5 se6] 1 parts(1-4) by (simp add: se2_def split_def)
qed

section \<open>The stored transcript\<close>

text \<open>The rows of a session stand for a transcript store.\<close>

definition represents :: "session_rows \<Rightarrow> TranscriptStore \<Rightarrow> bool" where
  "represents se st \<longleftrightarrow> sequences_ok se \<and> stored_transcript_entries se FullBody = map stored_of_node (entries st)
     \<and> se_active_leaf_id se = ts_active_leaf_id st"

lemma same_transcript_represents: "same_transcript se se' \<Longrightarrow> represents se st \<Longrightarrow> represents se' st"
  by (simp add: same_transcript_def represents_def sequences_ok_def stored_transcript_entries_def)

lemma represents_ids: "represents se st \<Longrightarrow> er_id ` set (se_entries se) = node_id ` set (entries st)"
proof -
  assume "represents se st"
  then have "ste_id ` set (stored_transcript_entries se FullBody) = ste_id ` set (map stored_of_node (entries st))"
    by (simp add: represents_def)
  then show ?thesis by (simp add: stored_transcript_entries_def row_to_stored_entry_def image_image stored_of_node_def)
qed

lemma insert_entries_represents:
  assumes rep: "represents se st" and st': "indexes_ok st'" "entries st' = entries st @ new" "ts_active_leaf_id st' = leaf"
  shows "represents ((snd (insert_entries (map stored_of_node new) se))\<lparr>se_active_leaf_id := leaf\<rparr>) st'"
proof -
  have "map node_id (entries st') = ts_insertion_order st'" "distinct (ts_insertion_order st')"
    using entries_by_id(1) [OF indexes_okD(1) [OF st'(1)]] base_okD(1) [OF indexes_okD(1) [OF st'(1)]] by simp_all
  then have d: "distinct (map node_id (entries st @ new))" using st'(2) by simp
  have dn: "distinct (map ste_id (map stored_of_node new))" using d by (simp add: stored_of_node_def o_def)
  have "filter (\<lambda>e. ste_id e \<notin> er_id ` set (se_entries se)) (map stored_of_node new) = map stored_of_node new"
    unfolding represents_ids [OF rep] using d by (auto simp: filter_id_conv stored_of_node_def)
  then show ?thesis
    using insert_entries_rows [OF _ dn, of se] rep st'(2,3)
    by (simp add: represents_def sequences_ok_def stored_transcript_entries_def)
qed

lemma persist_outputs_represents:
  assumes run: "persist_outputs tx new_id ids outputs se = Inr (out, se')" and rep: "represents se st"
    and st': "indexes_ok st'" "entries st' = entries st @ ob_entries outputs" "ts_active_leaf_id st' = ob_active_leaf_id outputs"
    and flag: "ob_active_leaf_unchanged outputs \<longrightarrow> ts_active_leaf_id st' = ts_active_leaf_id st"
  shows "represents se' st'"
proof (cases "has_durable_obligations outputs")
  case False
  then have "entries st' = entries st" "ts_active_leaf_id st' = ts_active_leaf_id st"
    using st' flag by (auto simp: has_durable_obligations_def)
  with False run rep show ?thesis by (simp add: persist_outputs_def represents_def)
next
  case True
  then have "persist_outputs_tx tx new_id ids outputs se = Inr (out, se')" using run by (simp add: persist_outputs_def)
  then show ?thesis
  proof (cases rule: persist_outputs_tx_parts)
    case (1 se2 se3 accepted se4 se5 se6)
    have "represents se2 st'" using insert_entries_represents [OF rep st'] 1(2) by simp
    moreover have "same_transcript se2 se3" using 1(3) consume_input_frame
      by (cases "ob_consumed_input outputs") (auto simp: same_transcript_def)
    moreover have "same_transcript se3 se4" using 1(4) accept_input_frame
      by (cases "ob_accepted_input outputs") (auto simp: same_transcript_def map_sum_eq_Inr)
    moreover have "same_transcript se4 se5" using 1(5) complete_action_frame
      by (cases "ob_action_update outputs") (auto simp: same_transcript_def)
    moreover have "same_transcript se5 se6" using 1(6) control_interrupt_frame
      by (cases "ob_control_interrupt_input_id outputs") (auto simp: same_transcript_def)
    ultimately show ?thesis using 1(7) same_transcript_represents by meson
  qed
qed

text \<open>Outputs that only append are always stored.\<close>

lemma persist_appends:
  assumes "new \<noteq> [] \<longrightarrow> se_entries se = [] \<or> node_parent_id (hd new) = se_active_leaf_id se"
  shows "\<exists>out se'. persist_outputs tx new_id ids (OutputBatch_new new leaf events actions) se = Inr (out, se')"
proof -
  have "ensure_appends (OutputBatch_new new leaf events actions) se = Inr ()"
    using assms by (cases new) (auto simp: ensure_appends_def OutputBatch_new_def)
  then show ?thesis
    by (simp add: persist_outputs_def has_durable_obligations_def persist_outputs_tx_def OutputBatch_new_def and_then_def split_def Let_def)
qed

lemma represents_loads:
  assumes "represents se st" and "indexes_ok st"
  shows "from_storage_entries (map node_of_stored (ss_entries (load_stored_session i meta FullBody se)))
    (ss_active_leaf_id (load_stored_session i meta FullBody se)) = Inr st"
  using assms from_storage_entries_entries [OF assms(2)] by (simp add: represents_def load_stored_session_def o_def)

section \<open>Inputs are consumed once\<close>

definition consumed_ids :: "input_row list \<Rightarrow> string set" where
  "consumed_ids inputs = qi_id ` {q \<in> set inputs. qi_status q = StatusConsumed}"

lemma update_inputs_consumed:
  assumes "\<And>q. selected q \<Longrightarrow> qi_status q = StatusConsumed \<Longrightarrow> qi_status (change q) = StatusConsumed" "\<And>q. qi_id (change q) = qi_id q"
  shows "consumed_ids inputs \<subseteq> consumed_ids (update_inputs tx selected change inputs)"
proof
  fix i assume "i \<in> consumed_ids inputs"
  then obtain q where q: "q \<in> set inputs" "qi_status q = StatusConsumed" "i = qi_id q" by (auto simp: consumed_ids_def)
  let ?r = "if selected q then (change q)\<lparr>qi_updated_at := tx_now tx, qi_row_version := tx_xid tx\<rparr> else q"
  have "?r \<in> set (update_inputs tx selected change inputs)" unfolding update_inputs_def set_map using q(1) by (rule imageI)
  moreover have "qi_status ?r = StatusConsumed" "i = qi_id ?r" using q assms by auto
  ultimately show "i \<in> consumed_ids (update_inputs tx selected change inputs)" unfolding consumed_ids_def by blast
qed

lemma place_follow_ups_consumed: "consumed_ids inputs \<subseteq> consumed_ids (place_follow_ups tx selected n ids inputs)"
proof (induction ids arbitrary: n inputs)
  case (Cons i ids)
  show ?case unfolding place_follow_ups.simps
    by (rule order_trans [OF update_inputs_consumed Cons.IH]) simp_all
qed simp

lemma renumber_consumed:
  "consumed_ids (se_inputs se) \<subseteq> consumed_ids (update_inputs tx selected change (se_inputs se)) \<Longrightarrow>
   consumed_ids (se_inputs se) \<subseteq> consumed_ids (se_inputs (renumber_follow_ups tx (se\<lparr>se_inputs := update_inputs tx selected change (se_inputs se)\<rparr>)))"
  by (simp add: renumber_follow_ups_def) (rule order_trans [OF _ place_follow_ups_consumed])

lemma consumed_ids_append [simp]: "consumed_ids (xs @ ys) = consumed_ids xs \<union> consumed_ids ys"
  by (auto simp: consumed_ids_def)

lemma insert_event_inputs [simp]: "se_inputs (snd (insert_event t p se)) = se_inputs se"
  by (simp add: insert_event_def Let_def)

lemma queue_step_consumed: "queue_step e se se' \<Longrightarrow> consumed_ids (se_inputs se) \<subseteq> consumed_ids (se_inputs se')"
proof (induction rule: queue_step.induct)
  case (queue_enqueue tx i priority m client expected se result se')
  then show ?case by (auto simp: enqueue_user_input_def split_def Let_def split: sum.splits option.splits)
next
  case (queue_promote tx i se result se')
  have "consumed_ids (se_inputs se) \<subseteq> consumed_ids (se_inputs (renumber_follow_ups tx (se\<lparr>se_inputs :=
      update_inputs tx (\<lambda>q. qi_id q = i \<and> is_queued_follow_up q) (\<lambda>q. q\<lparr>qi_priority := PrioritySteer,
        qi_provider_config := option_or route (qi_provider_config q), qi_follow_up_position := None,
        qi_origin := (qi_origin q)\<lparr>og_promoted_at := Some (tx_clock tx)\<rparr>\<rparr>) (se_inputs se)\<rparr>)))" for route
    by (intro renumber_consumed update_inputs_consumed) (simp_all add: is_queued_follow_up_def)
  note sub = this
  obtain route row where row: "unfinished_generation_route se = Inr route" "input_by_id se i = Some row"
    using queue_promote by (auto simp: promote_queued_input_def split: sum.splits option.splits)
  show ?case
  proof (cases "is_queued_follow_up row")
    case True
    then have "se_inputs se' = se_inputs (renumber_follow_ups tx (se\<lparr>se_inputs :=
      update_inputs tx (\<lambda>q. qi_id q = i \<and> is_queued_follow_up q) (\<lambda>q. q\<lparr>qi_priority := PrioritySteer,
        qi_provider_config := option_or route (qi_provider_config q), qi_follow_up_position := None,
        qi_origin := (qi_origin q)\<lparr>og_promoted_at := Some (tx_clock tx)\<rparr>\<rparr>) (se_inputs se)\<rparr>))"
      using queue_promote row by (auto simp: promote_queued_input_def split_def Let_def)
    with sub [of route] show ?thesis by simp
  qed (use queue_promote row in \<open>auto simp: promote_queued_input_def\<close>)
next
  case (queue_update tx i m revision se result se')
  have "consumed_ids (se_inputs se) \<subseteq> consumed_ids (update_inputs tx (\<lambda>q. qi_id q = i \<and> is_queued_follow_up q)
      (\<lambda>q. q\<lparr>qi_content := UserMessageContent m, qi_origin := (qi_origin q)\<lparr>og_edited_at := Some (tx_now tx)\<rparr>\<rparr>) (se_inputs se))"
    by (rule update_inputs_consumed) (simp_all add: is_queued_follow_up_def)
  with queue_update show ?case
    by (auto simp: update_queued_input_def unchanged_input_def split_def Let_def split: option.splits if_splits)
next
  case (queue_cancel tx i revision se result se')
  have "consumed_ids (se_inputs se) \<subseteq> consumed_ids (se_inputs (renumber_follow_ups tx (se\<lparr>se_inputs :=
      update_inputs tx (\<lambda>q. qi_id q = i \<and> is_queued_follow_up q) (\<lambda>q. q\<lparr>qi_status := StatusCancelled, qi_follow_up_position := None,
        qi_origin := (qi_origin q)\<lparr>og_cancelled_at := Some (tx_now tx)\<rparr>\<rparr>) (se_inputs se)\<rparr>)))"
    by (intro renumber_consumed update_inputs_consumed) (simp_all add: is_queued_follow_up_def)
  with queue_cancel show ?case
    by (auto simp: cancel_queued_input_def unchanged_input_def split_def Let_def split: option.splits if_splits)
next
  case (queue_reorder tx ids revision se result se')
  then show ?case using place_follow_ups_consumed
    by (fastforce simp: reorder_queued_follow_ups_def split_def Let_def split: if_splits)
qed

lemma update_inputs_ok:
  assumes ok: "inputs_ok inputs" and "\<And>q. qi_id (change q) = qi_id q"
    and leave: "\<And>q. selected q \<Longrightarrow> \<not> is_queued_follow_up (change q)"
  shows "inputs_ok (update_inputs tx selected change inputs)"
proof -
  have old: "r \<in> set inputs" if "r \<in> set (update_inputs tx selected change inputs)" "is_queued_follow_up r" for r
    using that leave by (auto simp: update_inputs_def is_queued_follow_up_def split: if_splits)
  have "distinct (map qi_id (update_inputs tx selected change inputs))"
    using update_inputs_ids [of change] assms(2) inputs_okD [OF ok] by simp
  then show ?thesis using ok old unfolding inputs_ok_def by blast
qed

lemma consume_input_once:
  assumes "consume_input tx input se = Inr se'" and ok: "inputs_ok (se_inputs se)"
  shows "inputs_ok (se_inputs se')" "qd_id input \<notin> consumed_ids (se_inputs se)"
    "insert (qd_id input) (consumed_ids (se_inputs se)) \<subseteq> consumed_ids (se_inputs se')"
proof -
  let ?change = "\<lambda>q. q\<lparr>qi_status := StatusConsumed, qi_follow_up_position := None, qi_origin := (qi_origin q)\<lparr>og_consumed_at := Some (tx_now tx)\<rparr>\<rparr>"
  have se': "se_inputs se' = update_inputs tx (may_consume input se) ?change (se_inputs se)"
    and one: "length (filter (may_consume input se) (se_inputs se)) = 1"
    using assms(1) by (auto simp: consume_input_def split: if_splits)
  have "filter (may_consume input se) (se_inputs se) \<noteq> []" using one by auto
  then obtain q where q: "q \<in> set (se_inputs se)" "may_consume input se q" by (auto simp: filter_empty_conv)
  show "inputs_ok (se_inputs se')" unfolding se'
    by (rule update_inputs_ok [OF ok]) (simp_all add: is_queued_follow_up_def)
  have "r = q" if "r \<in> set (se_inputs se)" "qi_id r = qi_id q" for r
    using inputs_okD [OF ok] that q(1) by (auto simp: distinct_map dest: inj_onD)
  moreover have "qi_id q = qd_id input" "qi_status q \<noteq> StatusConsumed" using q(2) by (auto simp: may_consume_def)
  ultimately show "qd_id input \<notin> consumed_ids (se_inputs se)" by (auto simp: consumed_ids_def)
  have "consumed_ids (se_inputs se) \<subseteq> consumed_ids (se_inputs se')" unfolding se' by (rule update_inputs_consumed) simp_all
  moreover have "qd_id input \<in> consumed_ids (se_inputs se')"
  proof -
    have "(?change q)\<lparr>qi_updated_at := tx_now tx, qi_row_version := tx_xid tx\<rparr> \<in> set (se_inputs se')"
      unfolding se' update_inputs_def set_map using q by (intro rev_image_eqI [of q]) simp_all
    then show ?thesis unfolding consumed_ids_def using \<open>qi_id q = qd_id input\<close> by (intro rev_image_eqI) auto
  qed
  ultimately show "insert (qd_id input) (consumed_ids (se_inputs se)) \<subseteq> consumed_ids (se_inputs se')" by simp
qed

lemma accept_input_keeps:
  assumes "accept_input tx i route input se = Inr (data, se')" and "inputs_ok (se_inputs se)" and "i \<notin> qi_id ` set (se_inputs se)"
  shows "inputs_ok (se_inputs se') \<and> consumed_ids (se_inputs se) \<subseteq> consumed_ids (se_inputs se')"
proof (cases "ai_client_input_id input")
  case None
  then show ?thesis using assms by (simp add: accept_input_def Let_def)
next
  case (Some client)
  then obtain row where row: "se_inputs se' = se_inputs se @ [row]" "qi_id row = i" "qi_status row = StatusConsumed"
    using assms(1) by (auto simp: accept_input_def Let_def split: if_splits)
  then have "\<not> is_queued_follow_up row" by (simp add: is_queued_follow_up_def)
  then show ?thesis using append_input(1) [OF assms(2), of row] row assms(3) by auto
qed

lemma control_interrupt_keeps:
  assumes "apply_control_interrupt tx i old new se = Inr se'" and "inputs_ok (se_inputs se)"
  shows "inputs_ok (se_inputs se') \<and> consumed_ids (se_inputs se) \<subseteq> consumed_ids (se_inputs se')"
proof -
  let ?change = "\<lambda>q. q\<lparr>qi_origin := (qi_origin q)\<lparr>og_control_phase := Some PhaseInterruptApplied, og_control_interrupted := Some True,
    og_control_interrupt_outcome := Some ''interrupted'', og_control_interrupt_applied_at := Some (tx_clock tx)\<rparr>\<rparr>"
  have se': "se_inputs se' = update_inputs tx (may_interrupt i old new se) ?change (se_inputs se)"
    using assms(1) by (auto simp: apply_control_interrupt_def split: list.splits)
  show ?thesis unfolding se'
    by (intro conjI update_inputs_ok [OF assms(2)] update_inputs_consumed)
      (simp_all add: may_interrupt_def is_queued_follow_up_def Let_def)
qed

lemma same_inputs_keeps: "same_inputs se se' \<Longrightarrow> se_inputs se' = se_inputs se"
  by (simp add: same_inputs_def)

lemma insert_entries_inputs: "se_inputs (snd (insert_entries stored se)) = se_inputs se"
proof (induction stored arbitrary: se)
  case (Cons e stored)
  have "se_inputs (snd (insert_stored_entry e se)) = se_inputs se" by (simp add: insert_stored_entry_def Let_def)
  then show ?case using Cons.IH by (simp add: split_def Let_def)
qed simp

lemma persist_outputs_consumes:
  assumes run: "persist_outputs tx new_id ids outputs se = Inr (out, se')"
    and ok: "inputs_ok (se_inputs se)" and fresh: "new_id \<notin> qi_id ` set (se_inputs se)"
  shows "inputs_ok (se_inputs se') \<and> consumed_ids (se_inputs se) \<subseteq> consumed_ids (se_inputs se')
    \<and> (\<forall>input. ob_consumed_input outputs = Some input \<longrightarrow>
         qd_id input \<notin> consumed_ids (se_inputs se) \<and> qd_id input \<in> consumed_ids (se_inputs se'))"
proof (cases "has_durable_obligations outputs")
  case False
  then show ?thesis using run ok by (auto simp: persist_outputs_def has_durable_obligations_def)
next
  case True
  then have "persist_outputs_tx tx new_id ids outputs se = Inr (out, se')" using run by (simp add: persist_outputs_def)
  then show ?thesis
  proof (cases rule: persist_outputs_tx_parts)
    case (1 se2 se3 accepted se4 se5 se6)
    have i2: "se_inputs se2 = se_inputs se" by (simp add: 1(2) insert_entries_inputs)
    have s3: "inputs_ok (se_inputs se3) \<and> consumed_ids (se_inputs se) \<subseteq> consumed_ids (se_inputs se3)
        \<and> (\<forall>input. ob_consumed_input outputs = Some input \<longrightarrow>
             qd_id input \<notin> consumed_ids (se_inputs se) \<and> qd_id input \<in> consumed_ids (se_inputs se3))"
      using 1(3) consume_input_once [of tx _ se2 se3] ok i2 by (cases "ob_consumed_input outputs") auto
    have "map qi_id (se_inputs se3) = map qi_id (se_inputs se)"
      using 1(3) i2 by (cases "ob_consumed_input outputs")
        (auto simp: consume_input_def update_inputs_ids split: if_splits)
    then have "new_id \<notin> qi_id ` set (se_inputs se3)" using fresh by (metis list.set_map)
    then have s4: "inputs_ok (se_inputs se4) \<and> consumed_ids (se_inputs se3) \<subseteq> consumed_ids (se_inputs se4)"
      using 1(4) accept_input_keeps [of tx new_id _ _ se3] s3
      by (cases "ob_accepted_input outputs") (auto simp: map_sum_eq_Inr, blast+)
    have i5: "se_inputs se5 = se_inputs se4" using 1(5) complete_action_frame same_inputs_keeps
      by (cases "ob_action_update outputs") fastforce+
    have s6: "inputs_ok (se_inputs se6) \<and> consumed_ids (se_inputs se5) \<subseteq> consumed_ids (se_inputs se6)"
      using 1(6) control_interrupt_keeps s4 i5 by (cases "ob_control_interrupt_input_id outputs") fastforce+
    have "se_inputs se' = se_inputs se6" using 1(8) by (rule same_inputs_keeps)
    then show ?thesis using s3 s4 i5 s6 by fastforce
  qed
qed

text \<open>
  Everything that changes the queue of a session, labelled with the input that it consumes.
\<close>

inductive store_step :: "string option \<Rightarrow> session_rows \<Rightarrow> session_rows \<Rightarrow> bool" where
  store_queue: "queue_step e se se' \<Longrightarrow> store_step None se se'"
| store_outputs: "persist_outputs tx new_id ids outputs se = Inr (out, se') \<Longrightarrow> new_id \<notin> qi_id ` set (se_inputs se) \<Longrightarrow>
    store_step (map_option qd_id (ob_consumed_input outputs)) se se'"
| store_switch: "switch_active_leaf target r m se = Some (Inr (result, se')) \<Longrightarrow> store_step None se se'"

lemma store_step_consumes:
  assumes "store_step label se se'" and "inputs_ok (se_inputs se)"
  shows "inputs_ok (se_inputs se') \<and> consumed_ids (se_inputs se) \<subseteq> consumed_ids (se_inputs se')
    \<and> (\<forall>i. label = Some i \<longrightarrow> i \<notin> consumed_ids (se_inputs se) \<and> i \<in> consumed_ids (se_inputs se'))"
  using assms
proof (induction rule: store_step.induct)
  case (store_queue e se se')
  then show ?case using queue_step_refines queue_step_consumed by blast
next
  case (store_outputs tx new_id ids outputs se out se')
  then show ?case using persist_outputs_consumes by fastforce
next
  case (store_switch target r m se result se')
  then show ?case using switch_active_leaf_ok(5) by simp
qed

lemma runs_consume_once:
  "runs store_step labels se se' \<Longrightarrow> inputs_ok (se_inputs se) \<Longrightarrow>
     inputs_ok (se_inputs se') \<and> consumed_ids (se_inputs se) \<subseteq> consumed_ids (se_inputs se')
   \<and> distinct (List.map_filter id labels)
   \<and> set (List.map_filter id labels) \<subseteq> consumed_ids (se_inputs se') - consumed_ids (se_inputs se)"
proof (induction rule: runs.induct)
  case (runs_Cons label s t labels u)
  note now = store_step_consumes [OF runs_Cons.hyps(1) runs_Cons.prems]
  note later = runs_Cons.IH [OF now [THEN conjunct1]]
  show ?case
  proof (cases label)
    case None
    with now later show ?thesis by (auto simp: map_filter_simps)
  next
    case (Some i)
    then have "i \<notin> consumed_ids (se_inputs s)" "i \<in> consumed_ids (se_inputs t)" using now by simp_all
    with Some now later show ?thesis by (auto simp: map_filter_simps)
  qed
qed (simp add: map_filter_simps)

text \<open>What appending in memory adds to the entries.\<close>

lemma map_filter_other_key:
  "k \<notin> set xs \<Longrightarrow> List.map_filter (f(k \<mapsto> v)) xs = List.map_filter f xs"
  by (induction xs) (auto split: option.split)

lemma append_entry_appends:
  assumes "base_ok s" and "ts_entries_by_id s (node_id e) = None"
  shows "entries (snd (append_entry e s)) = entries s @ [e]"
proof -
  have "node_id e \<notin> set (ts_insertion_order s)" using base_okD(2) [OF assms(1)] assms(2) by auto
  then have "List.map_filter ((ts_entries_by_id s)(node_id e \<mapsto> e)) (ts_insertion_order s @ [node_id e])
      = List.map_filter (ts_entries_by_id s) (ts_insertion_order s) @ [e]"
    using map_filter_other_key [of "node_id e" "ts_insertion_order s" "ts_entries_by_id s" e] by (simp add: map_filter_def)
  then show ?thesis by (simp add: entries_def append_entry_def Let_def)
qed

lemma append_items_entries:
  "fresh_ids stamp \<Longrightarrow> store_ok s \<Longrightarrow>
     \<exists>new. entries (snd (append_transcript_items stamp items s)) = entries s @ new
       \<and> (new \<noteq> [] \<longrightarrow> node_parent_id (hd new) = ts_active_leaf_id s)"
proof (induction items arbitrary: s)
  case (Cons item items)
  let ?e = "\<lparr>node_id = fst (stamp s), node_parent_id = ts_active_leaf_id s, node_timestamp_ms = now_ms (snd (stamp s)),
    node_item = item, node_provider_replay = []\<rparr>"
  let ?s = "snd (append_transcript_item stamp item s)"
  have s: "?s = snd (append_entry ?e s)" by (simp add: append_transcript_item_def append_item_def)
  have ok: "indexes_ok s" using Cons.prems(2) by (simp add: store_ok_def)
  have "ts_entries_by_id s (node_id ?e) = None" using fresh_stamp [OF Cons.prems(1) ok] by simp
  then have e: "entries ?s = entries s @ [?e]" unfolding s by (rule append_entry_appends [OF indexes_okD(1) [OF ok]])
  have "store_ok ?s" using append_item_ok [OF Cons.prems] by (simp add: append_transcript_item_def)
  from Cons.IH [OF Cons.prems(1) this] obtain new where
    "entries (snd (append_transcript_items stamp items ?s)) = entries ?s @ new" by blast
  then show ?case using e by (simp add: split_def Let_def)
qed simp

text \<open>Appending in memory and storing what was added.\<close>

lemma append_then_persist:
  assumes fresh: "fresh_ids stamp" and ok: "store_ok st" and rep: "represents se st"
    and st': "st' = snd (append_transcript_items stamp items st)"
  shows "\<exists>out se'. persist_outputs tx new_id ids
        (OutputBatch_new (drop (length (entries st)) (entries st')) (ts_active_leaf_id st') events actions) se = Inr (out, se')
    \<and> represents se' st' \<and> indexes_ok st'"
proof -
  obtain new where new: "entries st' = entries st @ new" "new \<noteq> [] \<longrightarrow> node_parent_id (hd new) = ts_active_leaf_id st"
    using append_items_entries [OF fresh ok, of items] st' by blast
  have ok': "indexes_ok st'" using append_items_ok [OF fresh ok] st' by (simp add: store_ok_def)
  let ?batch = "OutputBatch_new new (ts_active_leaf_id st') events actions"
  have "\<exists>out se'. persist_outputs tx new_id ids ?batch se = Inr (out, se')"
    by (rule persist_appends) (use new(2) rep in \<open>auto simp: represents_def\<close>)
  then obtain out se' where run: "persist_outputs tx new_id ids ?batch se = Inr (out, se')" by blast
  have "represents se' st'"
    by (rule persist_outputs_represents [OF run rep ok']) (simp_all add: OutputBatch_new_def new(1))
  with run ok' new(1) show ?thesis by auto
qed

end
