(* ===== verification/Spec2Isabelle.thy ===== *)
theory Spec2Isabelle
  imports Session_Machine Apply_Patch Anthropic_Order Anthropic_Request_Proofs Anthropic_Cache Openai_Request_Proofs Token_Estimate Mcp_Catalog_Proofs File_Tools File_Locks Mcp_Stream Store_Turn_Cards_Proofs Store_Outputs_Proofs
begin

text \<open>
  A model of the agent runtime of \<open>pi-relay\<close> (the Rust workspace under \<open>src/rust/crates\<close>),
  with the theorems that make its core correct.

  \<^bold>\<open>The program.\<close> A session talks to a model provider in turns. \<open>agent-core\<close> is a pure state
  machine: a mailbox orders what arrives (interrupts, completions, user input, observations),
  \<open>AgentState::step\<close> turns one event into transcript items and requested actions, and
  \<open>AgentCoreLoop::drive\<close> runs until nothing is left to do. \<open>agent-session\<close> wraps it: it
  appends the items to a branching transcript store, keeps a ledger of the requests that are
  still outstanding, hands out actions and events, and saves and reloads the whole session.
  \<open>agent-provider\<close> reads model replies as a stream of server-sent events and classifies
  errors; \<open>agent-tools\<close> edits files and runs commands. Tool servers of the model context
  protocol extend the tools: \<open>agent-mcp-types\<close> builds a catalog of what they offer and
  checks what a session stored of it, \<open>agent-mcp\<close> reads their streams. \<open>agent-store\<close> keeps sessions
  in Postgres: their entries, the queue of inputs, actions and events. \<open>agent-daemon\<close> runs the
  requested actions as tasks. \<open>agent-vocab\<close> holds the data they share.

  \<^bold>\<open>Theories.\<close>
  \<^item> \<open>Prelude\<close>: list, string and number helpers of the Rust standard library that the code
    uses (\<open>position\<close>, \<open>find_map\<close>, \<open>str::find\<close>, \<open>trim\<close>, decimal text), and the locale
    \<open>protocol_machine\<close>: a component whose operations emit outputs that a protocol automaton
    accepts.
  \<^item> \<open>Vocab\<close> (\<open>agent-vocab/src\<close>): identifiers as 64-bit words, messages, provider settings,
    observations, transcript items, and their hand-written text and map encodings.
  \<^item> \<open>Turn_Protocol\<close>: the order of transcript items that a conversation promises, as an
    automaton with a \<open>phase\<close>; it is the specification, not code.
  \<^item> \<open>Core_State\<close>, \<open>Core_Mailbox\<close>, \<open>Core_Loop\<close> (\<open>agent-core/src\<close>: \<open>state.rs\<close>, \<open>event.rs\<close>,
    \<open>action.rs\<close>, \<open>mailbox.rs\<close>, \<open>loop.rs\<close>): one definition per handler; \<open>drive\<close> is a total
    function, its termination measure counts what the mailbox still holds. The theories show
    that the state machine simulates the protocol, that identifiers are handed out
    consecutively, and that no input is lost.
  \<^item> \<open>Model_Context\<close>, \<open>Transcript_Store\<close> (\<open>agent-session/src\<close>: \<open>model_context.rs\<close>,
    \<open>storage.rs\<close>, \<open>transcript_store.rs\<close>): repair of an open turn, and the tree of entries
    with its four indexes. The walk along parents may run forever in the code, so it is a
    \<open>partial_function (option)\<close>, and \<open>None\<close> is a walk that does not return; stores that
    the program builds are shown to be acyclic, so their walks return. The locale
    \<open>append_log\<close> is the contract of an append-only log; the store is its instance.
  \<^item> \<open>Outstanding_Actions\<close>, \<open>Session\<close> (\<open>action.rs\<close>, \<open>event.rs\<close>, \<open>input.rs\<close>,
    \<open>outstanding_actions.rs\<close>, \<open>session.rs\<close>): the ledger and every operation of a session,
    those compiled only for the crate's tests (\<open>rewind\<close>) included.
  \<^item> \<open>Session_Machine\<close>: sessions as a transition system. A step is any operation of a session,
    or a crash followed by one of the ways to load what was stored. The invariant
    \<open>session_ok\<close> holds in every reachable session.
  \<^item> \<open>Apply_Patch\<close> (\<open>agent-tools/src/tools/apply_patch.rs\<close>, \<open>context.rs\<close>): parser, lock
    paths and application of a patch to a file system.
  \<^item> \<open>Provider_Stream\<close> (\<open>agent-provider/src/sse.rs\<close>, part of \<open>lib.rs\<close>): framing and decoding
    of event streams, the error type and the context-overflow classifier; UTF-8.
  \<^item> \<open>Json_Value\<close>, \<open>Event_Readers\<close>: access to JSON values with \<open>serde_json\<close>'s text functions as
    the parameter \<open>json_codec\<close>, and what reading a response's bytes means for a handler of its
    events; the locale \<open>event_reader\<close> is the contract of such a handler, and \<open>json_reader\<close> of one
    that refuses malformed data and ignores the end mark.
  \<^item> \<open>Provider_Types\<close> (\<open>agent-provider/src\<close>: \<open>lib.rs\<close>, \<open>transcript.rs\<close>, \<open>common.rs\<close>; \<open>agent-tools/src\<close>:
    \<open>display.rs\<close>, \<open>call_description.rs\<close>): what the adapters share.
  \<^item> \<open>Anthropic_Stream\<close>, \<open>Anthropic_Decode\<close>, \<open>Anthropic_Order\<close> (the stream readers of
    \<open>agent-provider/src/anthropic.rs\<close>): the two state machines that read a response, that they
    decode what was sent, and that they accept nothing out of order.
  \<^item> \<open>Anthropic_Request\<close>, \<open>Anthropic_Request_Proofs\<close> (the rest of \<open>anthropic.rs\<close>): model metadata, the
    bodies of requests with their cache markers, and what \<open>complete\<close>, \<open>compact\<close> and
    \<open>count_tokens\<close> send; the answer to the HTTP call is a parameter.
  \<^item> \<open>Anthropic_Cache\<close>: the cache of model metadata. Its callers and refreshes are a transition
    system, one step for each stretch of code that runs under the cache's lock. Fewer than
    \<open>2 ^ 64\<close> refreshes are started in it, so that a generation never repeats.
  \<^item> \<open>Openai_Stream\<close>, \<open>Openai_Stream_Proofs\<close> (the stream reader of \<open>agent-provider/src/openai.rs\<close>): the
    state machine that collects announced and finished items, and which streams it accepts.
  \<^item> \<open>Openai_Catalog\<close>, \<open>Openai_Catalog_Proofs\<close> (\<open>openai.rs\<close>): the model catalog, its parser and its
    cache; callers, refreshes and account changes are a transition system with fewer than
    \<open>2 ^ 64\<close> refreshes.
  \<^item> \<open>Openai_Request\<close>, \<open>Openai_Request_Proofs\<close> (\<open>openai.rs\<close>, \<open>openai/session_state.rs\<close>): rendered
    transcripts, request bodies and headers, and what is kept across a compaction.
  \<^item> \<open>Token_Estimate\<close> (\<open>token_estimator.rs\<close>): estimates of the size of a request.
  \<^item> \<open>File_Locks\<close> (\<open>file_mutation.rs\<close>): the locks that serialize file mutations, as a transition
    system in which every stretch of code between two \<open>await\<close>s of a call is one step.
  \<^item> \<open>File_Tools\<close> (\<open>output.rs\<close>, \<open>error.rs\<close>, \<open>tools/text_editor.rs\<close>, \<open>tools/shell.rs\<close>): the text
    editor, the shell and the truncation of outputs.
  \<^item> \<open>Btree_Map\<close>: the ordered map of the standard library as a sorted list of entries, with the
    locale \<open>ordered_map\<close> for its contract.
  \<^item> \<open>Mcp_Catalog\<close>, \<open>Mcp_Catalog_Proofs\<close> (\<open>agent-mcp-types/src/catalog.rs\<close>, the provider tools of
    \<open>agent-tools/src/registry.rs\<close>): canonical JSON, exposed names, inventory, selection and
    validation.
  \<^item> \<open>Mcp_Stream\<close> (\<open>agent-mcp/src\<close>: \<open>http_sse.rs\<close>, the scrubber of \<open>http_transport.rs\<close>, the
    notification flags of \<open>client.rs\<close>): the bounded stream parser.
  \<^item> \<open>Task_Registry\<close> (\<open>agent-daemon/src/runtime/tasks.rs\<close>): the tables of running tasks; every
    operation is one step under its locks.
  \<^item> \<open>Store_Query\<close>: recursive queries (\<^verbatim>\<open>with recursive ... union\<close> and \<^verbatim>\<open>union all\<close>) as loops that may
    not end (\<open>None\<close>), with the cycle detection that the store's statements share; on finite
    tables they are shown to end.
  \<^item> \<open>Store_Rows\<close> (\<open>agent-store/src/lib.rs\<close>, \<open>postgres/schema.rs\<close>, \<open>sql.rs\<close>): the rows of one session as
    the record \<open>session_rows\<close>, revisions and events.
  \<^item> \<open>Store_Transcript\<close>, \<open>Store_Transcript_Proofs\<close> (\<open>transcript.rs\<close>, \<open>history_target.rs\<close>): queries over the
    entries and the transactions that change them, related to the walks of \<open>Transcript_Store\<close>.
  \<^item> \<open>Store_Turn_Cards\<close>, \<open>Store_Turn_Cards_Proofs\<close> (\<open>turn_cards.rs\<close>): pages of turn cards; \<open>turn_pages\<close>
    follows their cursors.
  \<^item> \<open>Store_Queue\<close>, \<open>Store_Queue_Proofs\<close> (\<open>queue_mutations.rs\<close>, \<open>queue_projection.rs\<close>, \<open>events.rs\<close>): the
    queue of inputs and the replay of events. The locale \<open>effect_simulation\<close> is the contract of a
    component whose steps have an effect on an abstract view; the queue is its instance with the
    list of follow-ups as the view.
  \<^item> \<open>Store_Outputs\<close>, \<open>Store_Outputs_Proofs\<close> (\<open>outputs.rs\<close>, \<open>action_records.rs\<close>): the transaction that
    persists what a session produced; \<open>represents\<close> relates rows to a store in memory.

  \<^bold>\<open>Correspondence.\<close> A struct is a record with a prefix per struct on its fields
  (\<open>cl_state\<close> is the field \<open>state\<close> of \<open>AgentCoreLoop\<close>, \<open>as_\<close> is \<open>AgentSession\<close>, \<open>ts_\<close> is
  \<open>TranscriptStore\<close>, \<open>oa_\<close> is \<open>OutstandingActions\<close>), an enum a datatype, a method with
  \<open>&mut self\<close> a function that returns the new state after its result. \<open>u64\<close> is a 64-bit word
  with wrap-around, a \<open>HashMap\<close> or \<open>BTreeMap\<close> a map, a \<open>String\<close> a list of bytes. Errors are
  the left summand of a sum type.

  \<^bold>\<open>Parameters.\<close> Fresh identifiers and the clock (\<open>Uuid::now_v7\<close>, \<open>SystemTime\<close>) are the
  argument \<open>stamp\<close>, which may depend on the whole store; where a theorem needs it,
  \<open>fresh_ids\<close> says that an identifier is not one already in use. The operating system's
  refusals of file operations are the argument \<open>fault\<close>; a refused operation leaves the
  files as they are, and directories and links are not represented. \<open>serde_json\<close>'s text
  parser and printer, the SHA-256 digest (\<open>digest_ok\<close>: 64 hexadecimal digits), \<open>canonicalize\<close>,
  the decoder of JSON-RPC messages, compression, the outcome of a process and \<open>reqwest\<close>'s
  answers and errors are arguments as well. So are the identifiers that a transaction of the store
  makes up and its clock; texts are ordered by their bytes, and what the database itself fails at
  is left out. Where a value must survive printing and parsing,
  \<open>reparses\<close> says so of the text functions.

  \<^bold>\<open>Properties.\<close> The sections below state, in this order, properties of sessions under all
  interleavings of operations and crashes, of the core loop,
  of the store, of the database, of streams and patches, of the provider's streams and requests, of file
  locks, of the catalog, of the streams of tool servers and of the task registry.
  \<open>cyclic_parents_never_return\<close>, \<open>move_onto_itself_deletes\<close>, \<open>duplicate_call_id_ignored\<close> and
  \<open>max_output_tokens_ends_turn_twice\<close> prove that the code does something its authors cannot
  have meant.

  \<^bold>\<open>Not modelled.\<close> The store's transactions over several sessions and other tables (delegations,
  sessions and projects, compaction, the dispatch of actions, forks, token usage); the rest of the
  daemon, the runtimes and the connections of the MCP client, which are asynchronous input
  and output around these components; prompt texts; the desktop and web front ends.
\<close>

section \<open>A concrete session\<close>

text \<open>Identifiers that grow with the store, and a session in the middle of a turn.\<close>

definition demo_stamp :: stamp where
  "demo_stamp st = (replicate (Suc (sum_list (map length (ts_insertion_order st)))) CHR ''u'', Some 0)"

definition demo_input :: AgentInput where
  "demo_input = AgentInput_follow_up ''hello''"

definition demo_queued :: AgentSession where
  "demo_queued = snd (enqueue_input demo_input AgentSession_new)"

definition demo_session :: AgentSession where
  "demo_session = the (session_drive demo_stamp demo_queued)"


definition demo_patch :: "PatchOp list" where
  "demo_patch =
     [Add ''a.txt'' [''one'', []], Delete ''b.txt'',
      Update ''c.txt'' (Some ''d.txt'') [\<lparr>lh_old = ''x'' @ [nl], lh_new = ''y'' @ [nl]\<rparr>]]"

definition demo_call :: ToolCall where
  "demo_call = \<lparr>tc_id = ToolCallId ''1'', tc_tool_name = ''Bash'', tc_args_json = ''{}''\<rparr>"

definition demo_batch :: "RunningTool list" where
  "demo_batch = [\<lparr>rt_call = demo_call, rt_action_id = ActionId 2, rt_result = None\<rparr>,
     \<lparr>rt_call = demo_call, rt_action_id = ActionId 3, rt_result = None\<rparr>]"


text \<open>
  Two discovered tools, their inventory under a constant digest, and a table of locks in which
  two calls hold different files; a token; and a parser of a stream.
\<close>

definition demo_tool :: "string \<Rightarrow> DiscoveredTool" where
  "demo_tool name = \<lparr>dt_server_id = ''s'', dt_server_config_fingerprint = ''c'', dt_raw_name = name,
     dt_description = ''reads'', dt_input_schema = JObject []\<rparr>"

definition demo_printer :: json_printer where
  "demo_printer v = []"

definition demo_digest :: digest where
  "demo_digest b = replicate 64 CHR ''0''"

definition demo_inventory :: "mcp_error + McpSessionManifest" where
  "demo_inventory =
     build_inventory_catalog demo_printer demo_digest [(''s'', ''c'')] [demo_tool ''b'', demo_tool ''a''] {''Bash''}"

definition demo_lock :: "nat \<Rightarrow> string \<Rightarrow> FileMutationLocks \<Rightarrow> FileMutationLocks" where
  "demo_lock t p s =
     (let s1 = start_locking (\<lambda>_. None) [p] t s;
          s2 = fetch_lock t (the (fm_lockers s1 t)) (normalize_path p) [] s1;
          lk = the (fm_lockers s2 t)
      in acquire_lock t lk (the (lk_waiting lk)) s2)"

definition demo_locks :: FileMutationLocks where
  "demo_locks = demo_lock 2 ''/w/b'' (demo_lock 1 ''/w/a'' FileMutationLocks_new)"

definition demo_entry :: "string \<Rightarrow> string \<Rightarrow> McpManifestTool" where
  "demo_entry name exposed = \<lparr>mt_server_id = ''s'', mt_server_config_fingerprint = ''c'', mt_raw_name = name, mt_exposed_name = exposed,
        mt_description = ''reads'', mt_input_schema = JObject [], mt_contract_fingerprint = replicate 64 CHR ''0''\<rparr>"


definition demo_decoders :: decoders where
  "demo_decoders = \<lparr>dc_json = (\<lambda>_. None), dc_to_string = (\<lambda>_. []), dc_message = (\<lambda>_. None)\<rparr>"

definition demo_parser :: BoundedSseParser where
  "demo_parser = BoundedSseParser_new None ClientNotifications_default DispatchCommon"

text \<open>
  A session of the database with one finished turn, the same session with an input in its queue,
  and a session without entries; a batch that consumes the input, and a target in the history.
\<close>

definition demo_entry_row :: "string \<Rightarrow> string option \<Rightarrow> TranscriptItem \<Rightarrow> int \<Rightarrow> entry_row" where
  "demo_entry_row i parent item n =
     \<lparr>er_id = i, er_parent_id = parent, er_timestamp_ms = 0, er_item = item, er_provider_replay = [], er_sequence = n\<rparr>"

definition demo_entry_rows :: "entry_row list" where
  "demo_entry_rows =
     [demo_entry_row ''a'' None (TurnStarted TurnId_first) 1,
      demo_entry_row ''b'' (Some ''a'') (UserMessageItem (UserMessage_text ''hi'')) 2,
      demo_entry_row ''c'' (Some ''b'') (TurnFinished TurnId_first GracefulOutcome) 3]"

definition demo_route :: ProviderConfig where
  "demo_route = \<lparr>pc_kind = OpenAi, pc_model = ''m'', pc_reasoning_effort = EffortHigh, pc_max_tokens = None, pc_prompt_cache = None\<rparr>"

definition demo_empty :: session_rows where
  "demo_empty =
     \<lparr>se_active_leaf_id = None, se_provider_config = demo_route, se_session_revision = 0, se_queue_revision = 0,
      se_transcript_revision = 0, se_last_user_message_timestamp_ms = None, se_entries = [], se_next_sequence = 1,
      se_actions = [], se_inputs = [], se_delegation_statuses = [], se_parent_session_id = None, se_delegation = None,
      se_events = [], se_next_event_id = 1\<rparr>"

definition demo_stored :: session_rows where
  "demo_stored = demo_empty\<lparr>se_active_leaf_id := Some ''c'', se_entries := demo_entry_rows, se_next_sequence := 4\<rparr>"

definition demo_input_row :: input_row where
  "demo_input_row =
     \<lparr>qi_id = ''q'', qi_priority = PriorityFollowUp, qi_content = UserMessageContent (UserMessage_text ''next''), qi_origin = no_origin,
      qi_status = StatusQueued, qi_created_at = 0, qi_updated_at = 0, qi_follow_up_position = Some 0, qi_client_input_id = None,
      qi_provider_config = None, qi_row_version = ''1''\<rparr>"

definition demo_waiting :: session_rows where
  "demo_waiting = demo_stored\<lparr>se_inputs := [demo_input_row]\<rparr>"

definition demo_tx :: transaction where
  "demo_tx = \<lparr>tx_now = 5, tx_clock = 6, tx_clock_ms = 6000, tx_xid = ''2''\<rparr>"


definition demo_target :: HistoryTarget where
  "demo_target = \<lparr>ht_leaf_id = None, ht_source_entry_id = None, ht_expected_active_leaf_id = Some (Some ''c''),
     ht_expected_transcript_revision = Some 0, ht_expected_active_branch_entry_ids = None\<rparr>"

lemma demo_fresh: "fresh_ids demo_stamp"
proof -
  have "length i \<le> sum_list (map length xs)" if "i \<in> set xs" for i :: string and xs
    using that by (simp add: member_le_sum_list)
  then show ?thesis unfolding fresh_ids_def demo_stamp_def
    by (metis Suc_n_not_le_n fst_conv length_replicate)
qed

lemma demo_queued_reachable: "session_reachable demo_stamp demo_queued"
  unfolding demo_queued_def by (rule reachable_step [OF reachable_new step_enqueue])

lemma demo_drives: "session_drive demo_stamp demo_queued = Some demo_session"
  using session_drive_ok [OF demo_fresh reachable_session_ok [OF demo_queued_reachable demo_fresh]]
  by (auto simp: demo_session_def)

lemma demo_reachable: "session_reachable demo_stamp demo_session"
  by (rule reachable_step [OF demo_queued_reachable step_drive [OF demo_drives]])

lemma demo_stored_simps [simp]:
  "se_entries demo_stored = demo_entry_rows" "se_active_leaf_id demo_stored = Some ''c''"
  "rows_ok demo_entry_rows" "sequences_ok demo_stored"
  by (simp_all add: demo_stored_def rows_ok_def sequences_ok_def demo_entry_rows_def demo_entry_row_def demo_empty_def)

lemma demo_trail:
  "row_by_id demo_entry_rows ''c'' = Some (last demo_entry_rows)"
  "trail (display_step demo_entry_rows) (last demo_entry_rows) (rev demo_entry_rows)"
   by (auto simp: row_by_id_def demo_entry_rows_def demo_entry_row_def display_step_def intro!: trail.intros)

lemma demo_branch:
  "active_branch_entry_records demo_stored UiBody = Some (Inr (map (row_to_transcript_entry UiBody) demo_entry_rows))"
  using active_records_trail(1) [of demo_stored "''c''" "last demo_entry_rows" "rev demo_entry_rows"] demo_trail
  by (simp add: active_branch_entry_records_def)

lemma demo_loads:
  "\<exists>st. from_storage_entries (map node_of_stored (stored_transcript_entries demo_stored FullBody)) (Some ''c'') = Inr st"
  by (simp add: from_storage_entries_eq parents_closed_def leaf_known_def stored_transcript_entries_def demo_entry_rows_def demo_entry_row_def
    row_to_stored_entry_def node_of_stored_def)


lemma demo_empty_represents: "represents demo_empty TranscriptStore_new"
  by (simp add: represents_def sequences_ok_def rows_ok_def demo_empty_def stored_transcript_entries_def entries_def TranscriptStore_new_def)


lemma demo_inputs_ok: "inputs_ok (se_inputs demo_waiting)"
  by (simp add: inputs_ok_def demo_waiting_def demo_input_row_def)


section \<open>Sessions\<close>







text \<open>
  C4. A completion is accepted only for outstanding work: a model or tool completion
  whose target is not in the ledger leaves the whole session as it was.
\<close>

theorem stale_completion_rejected:
  assumes "completion_input i" and "\<forall>t. target_from_input i = Some t \<longrightarrow> t \<notin> set (oa_pending (as_outstanding_actions s))"
  shows "accept_agent_input i s = (False, s) \<and> snd (enqueue_input i s) = s"
  using stale_input_rejected [OF assms] unfolding enqueue_input_eq by (cases i) auto

theorem stale_completion_rejected_witness:
  "accept_agent_input (ModelFailed (ActionId 9) TurnId_first ''late'') demo_session = (False, demo_session)
   \<and> snd (enqueue_input (ModelFailed (ActionId 9) TurnId_first ''late'') demo_session) = demo_session"
proof -
  have "oa_pending (as_outstanding_actions demo_session)
      = [\<lparr>ct_action_id = ActionId 1, ct_turn_id = TurnId_first, ct_tool = None\<rparr>]"
    by code_simp
  with stale_completion_rejected [of "ModelFailed (ActionId 9) TurnId_first ''late''" demo_session]
  show ?thesis by simp
qed

text \<open>
  C5. An interrupt invalidates all work at once: the ledger is empty, no request waits in
  the outbox, the only action left to hand out is the cancellation, and every completion
  that arrives before the next drive is rejected.
\<close>

theorem interrupt_invalidates:
  assumes "session_reachable stamp s" and "fresh_ids stamp"
    and "enqueue_input Interrupt s = (r, s')"
  shows "r = Inr () \<and> oa_pending (as_outstanding_actions s') = []
    \<and> oa_completion_events_pending_transcript (as_outstanding_actions s') = []
    \<and> as_action_outbox s' =
        (if as_action_outbox s = [] \<and> oa_pending (as_outstanding_actions s) = [] \<and> cl_state (as_core s) = Idle
         then [] else [CancelSessionWork])
    \<and> (completion_input i \<longrightarrow> accept_agent_input i s' = (False, s'))"
  using interrupt_invalidates_ok [OF reachable_session_ok [OF assms(1,2)] assms(3)] .

theorem interrupt_invalidates_witness:
  "fst (enqueue_input Interrupt demo_session) = Inr ()
   \<and> as_action_outbox (snd (enqueue_input Interrupt demo_session)) = [CancelSessionWork]
   \<and> accept_agent_input (ModelFailed (ActionId 1) TurnId_first ''late'') (snd (enqueue_input Interrupt demo_session))
      = (False, snd (enqueue_input Interrupt demo_session))"
proof -
  have "as_action_outbox demo_session \<noteq> []" by code_simp
  with interrupt_invalidates [OF demo_reachable demo_fresh surjective_pairing,
      of "ModelFailed (ActionId 1) TurnId_first ''late''"]
  show ?thesis by simp
qed



section \<open>The core loop\<close>

text \<open>
  C7. Whatever is enqueued, driven and drained, in any order, the transcript items a core
  loop hands out follow the turn protocol.
\<close>

theorem core_transcript_conforms:
  "\<exists>p. transcript_ok (Quiet TurnId_default) (snd (run_ops core_op_items AgentCoreLoop_new ops)) = Some p"
  using core_items.run_sim [OF loop_ok_new] by blast

text \<open>
  C8. No input is lost or made up: the user messages and daemon observations that wait in
  the mailbox or were already recorded are the same before and after a drive.
\<close>

theorem drive_conserves_inputs:
  assumes "mailbox_ok (cl_mailbox l)"
  shows "mailbox_inputs (cl_mailbox (drive l)) + items_inputs (cl_transcript_item_outbox (drive l))
    = mailbox_inputs (cl_mailbox l) + items_inputs (cl_transcript_item_outbox l)"
  using drive_inputs [OF assms] by (simp add: loop_inputs_def)

theorem drive_conserves_inputs_witness:
  "mailbox_inputs (cl_mailbox (drive (as_core demo_queued)))
     + items_inputs (cl_transcript_item_outbox (drive (as_core demo_queued)))
    = mailbox_inputs (cl_mailbox (as_core demo_queued)) + items_inputs (cl_transcript_item_outbox (as_core demo_queued))"
proof -
  have "mailbox_ok (cl_mailbox (as_core demo_queued))" by code_simp
  then show ?thesis by (rule drive_conserves_inputs)
qed

section \<open>The transcript store\<close>


section \<open>The database\<close>

text \<open>
  C10. When a session's rows load into a transcript store, the recursive query for the branch of any
  entry answers what the store's walk to it returns, and reports a cycle exactly when the walk never
  returns; the query itself always answers. The model context read from the database is built
  from the same path.
\<close>

theorem database_reads_as_memory:
  assumes "rows_ok (se_entries se)"
    and "from_storage_entries (map node_of_stored (stored_transcript_entries se FullBody)) active = Inr st"
  shows "branch_entries_to_leaf se leaf =
      Some (case path_entries_to st leaf of Some path \<Rightarrow> Inr (map stored_of_node path) | None \<Rightarrow> Inl TranscriptCycle)
    \<and> model_context_for_leaf se leaf =
      Some (case path_entries_to st leaf of
          None \<Rightarrow> Inl TranscriptCycle
        | Some path \<Rightarrow> if path = [] then Inl (TranscriptLeafNotFound leaf)
            else Inr (from_entries (map (\<lambda>e. \<lparr>mce_item = node_item e, mce_provider_replay = node_provider_replay e\<rparr>) path)))"
  using branch_entries_to_leaf_loaded [OF assms] model_context_for_leaf_loaded [OF assms] by simp

theorem database_reads_as_memory_witness:
  "\<exists>st. from_storage_entries (map node_of_stored (stored_transcript_entries demo_stored FullBody)) (Some ''c'') = Inr st
     \<and> branch_entries_to_leaf demo_stored ''b'' =
         Some (case path_entries_to st ''b'' of Some path \<Rightarrow> Inr (map stored_of_node path) | None \<Rightarrow> Inl TranscriptCycle)"
  using demo_loads database_reads_as_memory [of demo_stored "Some ''c''"] by auto

text \<open>
  C11. The rows of a session keep up with its store: when they hold a store and items are appended to it
  with fresh identifiers, persisting what was added succeeds, the rows then hold the new store, and
  loading them gives back that store with all of its indexes.
\<close>

theorem persisted_session_reloads:
  assumes "fresh_ids stamp" and "store_ok st" and "represents se st"
    and "st' = snd (append_transcript_items stamp items st)"
    and "outputs = OutputBatch_new (drop (length (entries st)) (entries st')) (ts_active_leaf_id st') session_events actions"
  shows "\<exists>out se'. persist_outputs tx new_id ids outputs se = Inr (out, se') \<and> represents se' st'
    \<and> from_storage_entries (map node_of_stored (ss_entries (load_stored_session session_id metadata FullBody se')))
        (ss_active_leaf_id (load_stored_session session_id metadata FullBody se')) = Inr st'"
  using append_then_persist [OF assms(1-4), of tx new_id ids session_events actions] represents_loads unfolding assms(5) by metis

theorem persisted_session_reloads_witness:
  "\<exists>out se'. persist_outputs demo_tx ''n'' []
      (let st' = snd (append_transcript_items demo_stamp [TurnStarted TurnId_first] TranscriptStore_new)
       in OutputBatch_new (drop (length (entries TranscriptStore_new)) (entries st')) (ts_active_leaf_id st') [] []) demo_empty = Inr (out, se')
    \<and> represents se' (snd (append_transcript_items demo_stamp [TurnStarted TurnId_first] TranscriptStore_new))"
  using persisted_session_reloads [OF demo_fresh store_ok_new demo_empty_represents refl refl] unfolding Let_def by blast






text \<open>
  C14. An edit, a cancellation or a new order either changes the queue, and then it was made for the current
  revision, raises it by one and writes one event with the new queue, or it changes nothing at all.
\<close>

theorem queue_edits_guarded:
  assumes "inputs_ok (se_inputs se)"
  shows "(\<forall>result se'. update_queued_input tx i m expected se = Inr (result, se') \<longrightarrow>
      guarded_edit expected (ch_changed result) (ch_event result) (ch_queue result) se se')
    \<and> (\<forall>result se'. cancel_queued_input tx i expected se = Inr (result, se') \<longrightarrow>
      guarded_edit expected (ch_changed result) (ch_event result) (ch_queue result) se se')
    \<and> (\<forall>result se'. reorder_queued_follow_ups tx ids expected se = (result, se') \<longrightarrow>
      guarded_edit expected (ro_reordered result) (ro_event result) (ro_queue result) se se')"
  using update_refines [OF assms] cancel_refines [OF assms] reorder_refines [OF assms] changed_matches
  unfolding guarded_edit_def mismatch_iff [symmetric] by (smt (verit))

theorem queue_edits_guarded_witness:
  "guarded_edit (Some 7) False None (queue_state demo_waiting) demo_waiting demo_waiting"
proof -
  have "se_queue_revision demo_waiting = 0" by (simp add: demo_waiting_def demo_stored_def demo_empty_def)
  then have "reorder_queued_follow_ups demo_tx [''q''] (Some 7) demo_waiting = (\<lparr>ro_reordered = False, ro_reason = Some QUEUE_CHANGED,
      ro_input_ids = queued_follow_up_ids_from_state (queue_state demo_waiting), ro_event = None, ro_queue = queue_state demo_waiting\<rparr>, demo_waiting)"
    by (simp add: reorder_queued_follow_ups_def revision_mismatch_def Let_def)
  then show ?thesis using queue_edits_guarded [OF demo_inputs_ok] by fastforce
qed

text \<open>
  C15. A client that holds the branch up to some entry gets exactly the entries that continue it to the
  active branch, when its entry is on that branch, and is told that the branch changed otherwise.
\<close>

theorem sync_extends_client:
  assumes "rows_ok (se_entries se)" and "active_branch_entry_records se body_mode = Some (Inr branch)" and "branch \<noteq> []"
  shows "\<exists>sy. sync_active_branch se (Some base) body_mode = Some (Inr sy)
    \<and> (if base \<in> ter_id ` set branch
       then sy_status sy \<noteq> SyncBranchChanged
         \<and> (\<exists>held. branch_entry_ids se (Some base) = Some (Inr held) \<and> held @ map ter_id (sy_entries sy) = map ter_id branch)
       else sy_status sy = SyncBranchChanged \<and> sy_entries sy = [])"
proof -
  from active_branch_trail [OF assms(2,3)] obtain a x ys where *: "se_active_leaf_id se = Some a" "row_by_id (se_entries se) a = Some x"
    "trail (display_step (se_entries se)) x ys" "branch = map (row_to_transcript_entry body_mode) (rev ys)" .
  then have ids: "ter_id ` set branch = er_id ` set ys" "map ter_id branch = map er_id (rev ys)" by force+
  show ?thesis unfolding ids by (rule sync_active_branch_known [OF assms(1) *(1-3)])
qed

theorem sync_extends_client_witness:
  "\<exists>sy. sync_active_branch demo_stored (Some ''a'') UiBody = Some (Inr sy) \<and> sy_status sy \<noteq> SyncBranchChanged"
proof -
  have "''a'' \<in> ter_id ` set (map (row_to_transcript_entry UiBody) demo_entry_rows)"
    by (simp add: demo_entry_rows_def demo_entry_row_def)
  moreover have "map (row_to_transcript_entry UiBody) demo_entry_rows \<noteq> []" by (simp add: demo_entry_rows_def)
  moreover have "rows_ok (se_entries demo_stored)" by simp
  ultimately show ?thesis using sync_extends_client [OF _ demo_branch, of "''a''"] by (metis (no_types, lifting))
qed

text \<open>
  C16. Switching the active leaf always answers. It happens only without unfinished actions, waiting inputs and
  running delegations, to a turn boundary and at the expected leaf and revision, and changes no
  entry, action or input.
\<close>

theorem history_switch_guarded:
  "switch_active_leaf target return_branch missing se \<noteq> None
   \<and> (\<forall>result se'. switch_active_leaf target return_branch missing se = Some (Inr (result, se')) \<longrightarrow>
        \<not> session_has_unfinished_actions se \<and> \<not> session_has_active_queued_inputs se
      \<and> ensure_no_running_delegation se = Inr ()
      \<and> transcript_leaf_is_turn_boundary se (ht_leaf_id target)
      \<and> ht_expected_active_leaf_id target \<in> {None, Some (se_active_leaf_id se)}
      \<and> ht_expected_transcript_revision target \<in> {None, Some (se_transcript_revision se)}
      \<and> se_active_leaf_id se' = ht_leaf_id target \<and> se_entries se' = se_entries se
      \<and> se_actions se' = se_actions se \<and> se_inputs se' = se_inputs se
      \<and> se_session_revision se' = se_session_revision se + 1 \<and> se_events se' = se_events se @ sw_events result)"
proof -
  have "validate_history_target se target = Some (Inr ()) \<and> se_active_leaf_id se' = ht_leaf_id target \<and> se_entries se' = se_entries se
      \<and> se_actions se' = se_actions se \<and> se_inputs se' = se_inputs se
      \<and> se_session_revision se' = se_session_revision se + 1 \<and> se_events se' = se_events se @ sw_events result"
    if "switch_active_leaf target return_branch missing se = Some (Inr (result, se'))" for result se'
    using switch_active_leaf_ok [OF that] by simp
  moreover have "\<not> session_has_unfinished_actions se \<and> \<not> session_has_active_queued_inputs se
      \<and> ensure_no_running_delegation se = Inr () \<and> transcript_leaf_is_turn_boundary se (ht_leaf_id target)
      \<and> ht_expected_active_leaf_id target \<in> {None, Some (se_active_leaf_id se)}
      \<and> ht_expected_transcript_revision target \<in> {None, Some (se_transcript_revision se)}"
    if "validate_history_target se target = Some (Inr ())"
    using validate_history_target_ok [OF that] by (simp add: ensure_simps)
  ultimately show ?thesis using switch_active_leaf_total by blast
qed

theorem history_switch_guarded_witness:
  "\<exists>result se'. switch_active_leaf demo_target False None demo_stored = Some (Inr (result, se')) \<and> se_active_leaf_id se' = None
     \<and> se_entries se' = demo_entry_rows"
proof -
  have "\<exists>result se'. switch_active_leaf demo_target False None demo_stored = Some (Inr (result, se'))"
    by (simp add: switch_active_leaf_def demo_target_def validate_history_target_def ensure_no_running_delegation_def ensure_no_active_work_def
      session_has_unfinished_actions_def session_has_active_queued_inputs_def demo_stored_def demo_empty_def switched_branch_def split_def Let_def)
  then show ?thesis using history_switch_guarded [of demo_target False None demo_stored] by (fastforce simp: demo_target_def)
qed

text \<open>
  C17. Following the cursor of the pages of turn cards ends after finitely many pages, and their cards
  together show every visible user message and every observation of the active branch once and in
  order, whatever the size of a page.
\<close>

theorem turn_pages_cover_branch:
  assumes "rows_ok (se_entries se)" and "active_branch_entry_records se UiBody = Some (Inr branch)"
  shows "\<exists>!cards. turn_pages se limit None cards
    \<and> concat (map tu_user_messages cards) = filter visible_user branch
    \<and> concat (map tu_daemon_observations cards) = filter (\<lambda>e. is_daemon_observation (ter_item e)) branch"
  by (rule turn_pages_cover [OF assms])

theorem turn_pages_cover_branch_witness:
  "\<exists>cards. turn_pages demo_stored (Some 1) None cards
    \<and> concat (map tu_user_messages cards) = filter visible_user (map (row_to_transcript_entry UiBody) demo_entry_rows)"
  using ex1_implies_ex [OF turn_pages_cover_branch [OF _ demo_branch, of "Some 1"]] by auto

text \<open>
  C18. The query for a page of turn cards always answers, and its cards are well formed: messages
  have the types of their fields, a card with a boundary is completed and identified by it, one
  without is open, and exactly those that were interrupted or crashed can be resumed.
\<close>

theorem turn_cards_well_formed:
  "transcript_turns se before limit \<noteq> None
   \<and> (\<forall>result. transcript_turns se before limit = Some (Inr result) \<longrightarrow> list_all card_ok (tt_cards result))"
  using transcript_turns_total transcript_turns_cards_ok by blast

theorem turn_cards_well_formed_witness:
  "\<exists>result. transcript_turns demo_stored None (Some 3) = Some (Inr result) \<and> list_all card_ok (tt_cards result)"
proof -
  have "\<exists>cards. turn_pages demo_stored (Some 3) None cards" using ex1_implies_ex [OF turn_pages_cover [OF _ demo_branch, of "Some 3"]] by auto
  then have "\<exists>result. transcript_turns demo_stored None (Some 3) = Some (Inr result)" by (auto elim: turn_pages.cases)
  then show ?thesis using turn_cards_well_formed [of demo_stored None "Some 3"] by auto
qed

text \<open>
  C19. Replaying events page by page ends and returns all events after the given one, in the order of their numbers.
\<close>

theorem events_after_returns_all:
  assumes "distinct (map ef_event_id (se_events se))"
  shows "events_after se after = Some (sort_key ef_event_id (filter (\<lambda>e. unwrap_or after 0 < ef_event_id e) (se_events se)))"
  using events_after_all [OF assms, of "unwrap_or after 0" "[]"] by (simp add: events_after_def events_from_def)

theorem events_after_returns_all_witness:
  "events_after (snd (insert_event EventTurnStarted [] demo_empty)) None = Some [fst (insert_event EventTurnStarted [] demo_empty)]"
  using events_after_returns_all [of "snd (insert_event EventTurnStarted [] demo_empty)" None]
  by (simp add: insert_event_def demo_empty_def unwrap_or_def Let_def)

section \<open>Streams and patches\<close>

text \<open>
  C20. How the network splits a provider's byte stream does not matter: for every way of
  cutting it into chunks, the callback sees the same events and the result is the same.
\<close>

theorem sse_chunking_irrelevant:
  "read_chunks json on_event msg chunks tail [] st = read_chunks json on_event msg [concat chunks] tail [] st"
  by (rule read_chunks_concat) (simp add: sse_frame_boundary_def)

text \<open>C30. A printed patch, with or without a final newline, parses back to its operations.\<close>

theorem patch_parse_render:
  assumes "list_all op_ok ops"
  shows "parse_patch (render_patch ops @ (if final_newline then [nl] else [])) = Inr ops"
  using assms by (rule parse_render_patch)

theorem patch_parse_render_witness: "parse_patch (render_patch demo_patch @ [nl]) = Inr demo_patch"
proof -
  have "list_all op_ok demo_patch"
    by (simp add: demo_patch_def one_line_def hunk_ok_def whole_lines_def)
  from patch_parse_render [OF this, of True] show ?thesis by simp
qed

text \<open>
  C31. Applying a patch, whether it succeeds or fails midway, changes no file outside the
  paths that were locked for it.
\<close>

theorem patch_changes_only_locked:
  assumes "p \<notin> set (patch_lock_paths cwd ops)"
  shows "snd (apply_ops fault cwd ops fs) p = fs p"
  using apply_ops_frame [OF assms surjective_pairing] .

theorem patch_changes_only_locked_witness:
  "snd (apply_ops (\<lambda>_ _ _. None) ''/w'' demo_patch [''/w/z'' \<mapsto> ''kept'']) ''/w/z'' = Some ''kept''"
proof -
  have "''/w/z'' \<notin> set (patch_lock_paths ''/w'' demo_patch)"
    by (simp add: demo_patch_def workspace_path_def path_join_def starts_with_def)
  from patch_changes_only_locked [OF this, of "\<lambda>_ _ _. None" "[''/w/z'' \<mapsto> ''kept'']"] show ?thesis by simp
qed

text \<open>
  C32. An update that moves a file onto itself reports success and leaves no file: the new
  content is written first and then removed as the source.
\<close>

theorem move_onto_itself_deletes:
  assumes "workspace_path cwd target = workspace_path cwd path" and "\<And>op p f. fault op p f = None"
    and "fs (workspace_path cwd path) = Some content" and "apply_hunks path hunks content = Inr content'"
  shows "apply_ops fault cwd [Update path (Some target) hunks] fs =
    (Inr [\<lparr>fc_marker = ''R'', fc_path = path @ '' -> '' @ target\<rparr>], fs(workspace_path cwd path := None))"
  using assms by (simp add: apply_op_def io_defs)

theorem move_onto_itself_deletes_witness:
  "apply_ops (\<lambda>_ _ _. None) ''/w'' [Update ''f'' (Some ''/w/f'') []] [''/w/f'' \<mapsto> ''text'']
     = (Inr [\<lparr>fc_marker = ''R'', fc_path = ''f -> /w/f''\<rparr>], [''/w/f'' \<mapsto> ''text''](''/w/f'' := None))"
proof -
  have path: "workspace_path ''/w'' ''f'' = ''/w/f''" "workspace_path ''/w'' ''/w/f'' = ''/w/f''" by code_simp+
  from move_onto_itself_deletes [of "''/w''" "''/w/f''" "''f''" "\<lambda>_ _ _. None" "[''/w/f'' \<mapsto> ''text'']" "''text''" "[]"]
  show ?thesis unfolding path by simp
qed

section \<open>Provider streams\<close>



text \<open>
  C22. An ordinary response is accepted only if its events follow the protocol to the end: one
  start, blocks numbered from 0 without gaps or overlap, a stop reason, one stop. Unless the
  model refused there is one replay record per block; a refusal keeps neither text nor records.
\<close>

theorem anthropic_stream_ordered:
  assumes "complete_response response" and "parse_anthropic_stream codec response = (Inr r :: ('http, string) ProviderError + ModelResponse)"
  shows "\<exists>pre post n. json_events (response_events codec response) = pre @ post \<and> stream_path AwaitStart pre (StreamClosed n)
    \<and> (mr_stop_reason r = StopRefusal \<and> mr_provider_replay r = [] \<and> am_items (mr_assistant r) = []
       \<or> length (mr_provider_replay r) = n)"
proof -
  from assms(2) obtain st where run: "run_events (process_sse_event codec) (response_events codec response) AnthropicStreamState_default
      = (Inr st :: ('http, string) ProviderError + AnthropicStreamState)"
    and fin: "stream_finish codec st = (Inr r :: ('http, string) ProviderError + ModelResponse)"
    unfolding parse_complete_response(1) [OF assms(1)] by (auto simp: and_then_def split: sum.splits)
  from anthropic_json.run_json_prefix [OF run] obtain pre post where
    seen: "response_events codec response = pre @ post"
    "and_then (run_events (process_event codec) (json_events pre) AnthropicStreamState_default) (stream_finish codec)
       = (Inr r :: ('http, string) ProviderError + ModelResponse)"
    using fin by auto
  from message_ordered [OF seen(2)] obtain pre' post' n where
    "json_events pre = pre' @ post'" and rest: "stream_path AwaitStart pre' (StreamClosed n)"
    "mr_stop_reason r = StopRefusal \<and> mr_provider_replay r = [] \<and> am_items (mr_assistant r) = []
       \<or> length (mr_provider_replay r) = n" by blast
  with seen(1) have "json_events (response_events codec response) = pre' @ post' @ json_events post" by simp
  with rest show ?thesis by blast
qed

theorem anthropic_stream_ordered_witness:
  "\<exists>pre post n. json_events (response_events demo_codec (demo_response demo_names)) = pre @ post
    \<and> stream_path AwaitStart pre (StreamClosed n)"
proof -
  obtain r where "parse_anthropic_stream demo_codec (demo_response demo_names) = (Inr r :: (nat, string) ProviderError + ModelResponse)"
    using demo_parses by blast
  from anthropic_stream_ordered [OF demo_complete this] show ?thesis by blast
qed

text \<open>
  C23. Which of OpenAI's streams are accepted: exactly those whose events are in order up to the
  event that completes the response, and whose finished items, completed by those the last event
  lists, fill the output indexes from 0 without a gap, answer every announced item, are of known
  types that ask for nothing the client cannot do, and share no id. The order in which items are
  finished is free.
\<close>

theorem openai_stream_accepts:
  assumes "complete_response response" and "SseMalformedJson \<notin> set (response_events codec response)"
  shows "(\<exists>r. parse_responses_stream codec response provider = (Inr r :: ('http, string) ProviderError + ModelResponse)) \<longleftrightarrow>
     (\<exists>pre final post items. json_events (response_events codec response) = pre @ final # post
        \<and> orderly pre \<and> final_ok final \<and> collected pre final items \<and> output_ok items)"
  unfolding parse_responses_complete [OF assms(1)] responses_json.run_json [OF assms(2)] by (rule responses_accepted)

theorem openai_stream_accepts_witness:
  "\<exists>r. parse_responses_stream demo_responses_codec (demo_response ''ABCD'') OpenAi = (Inr r :: (nat, string) ProviderError + ModelResponse)"
proof -
  have "SseMalformedJson \<notin> set (response_events demo_responses_codec (demo_response ''ABCD''))"
    by (auto simp: demo_output_response)
  from openai_stream_accepts [OF demo_complete this, of OpenAi] show ?thesis
    unfolding demo_output_response json_events_map
    using demo_orderly demo_final_ok demo_collected demo_output_ok by blast
qed

text \<open>
  C24. An accepted response of OpenAI's API decodes to its items in the order of their output
  indexes: their texts, their tool calls, a record of each for replay and the usage of the last
  event; when one of them is a refusal, to nothing but the last refusal.
\<close>

theorem openai_stream_decodes:
  assumes "complete_response response"
    and "parse_responses_stream codec response provider = (Inr r :: ('http, string) ProviderError + ModelResponse)"
  shows "\<exists>pre final post items. json_events (response_events codec response) = pre @ final # post
     \<and> orderly pre \<and> collected pre final items \<and> list_all item_ok items
     \<and> response_decodes codec provider items r \<and> mr_usage r = final_usage final"
using accepted_decodes [OF assms] by blast

theorem openai_stream_decodes_witness:
  "\<exists>pre final post items r. json_events (response_events demo_responses_codec (demo_response ''ABCD'')) = pre @ final # post
     \<and> collected pre final items \<and> response_decodes demo_responses_codec OpenAi items r \<and> orderly pre \<and> list_all item_ok items
     \<and> mr_usage r = final_usage final"
proof -
  obtain r where "parse_responses_stream demo_responses_codec (demo_response ''ABCD'') OpenAi
      = (Inr r :: (nat, string) ProviderError + ModelResponse)" using demo_responses_parse by blast
  from openai_stream_decodes [OF demo_complete this] show ?thesis by blast
qed

section \<open>Provider requests\<close>

text \<open>
  C25. A compaction request ends with messages of the user, and every tool call of the last
  message of the assistant is answered there, in order and once, before any other content.
\<close>

theorem compaction_request_answers_calls:
  assumes "compaction_body_with_metadata codec request metadata = (Inr body :: ('http, string) ProviderError + Value)"
  shows "\<exists>pre post. get_array body ''messages'' = Some (pre @ post) \<and> post \<noteq> [] \<and> list_all (has_role ''user'') post
    \<and> (pre = [] \<or> has_role ''assistant'' (last pre))
    \<and> (let calls = (if pre = [] then [] else retain_new [] (tool_use_ids (message_blocks (last pre))))
       in calls \<noteq> [] \<longrightarrow> (\<exists>results others. all_blocks post = results @ others
            \<and> map result_id results = map Some calls \<and> list_all no_result others))"
  by (rule compaction_request_answers [OF assms])

definition demo_compaction_request :: ProviderCompactionRequest where
  "demo_compaction_request =
     \<lparr>pq_model = ''claude-opus-5'', pq_prompt = PromptSections_new None None,
      pq_transcript =
        [\<lparr>me_item = UserMessageItem (UserMessage_text ''list the files''), me_provider_replay = []\<rparr>,
         \<lparr>me_item = AssistantMessageItem \<lparr>am_items = [ToolCallItem \<lparr>tc_id = ToolCallId ''c1'', tc_tool_name = ''Bash'', tc_args_json = ''{}''\<rparr>]\<rparr>,
          me_provider_replay = []\<rparr>],
      pq_tool_profile = NoTools, pq_tools = [], pq_reasoning_effort = EffortHigh, pq_prompt_cache_key = None,
      pq_session_id = None, pq_compaction_instructions = Some ''S''\<rparr>"

theorem compaction_request_answers_calls_witness:
  "\<exists>body pre post. (compaction_body_with_metadata demo_codec demo_compaction_request (static_anthropic_model_metadata ''claude-opus-5'')
      :: (nat, string) ProviderError + Value) = Inr body
    \<and> get_array body ''messages'' = Some (pre @ post) \<and> post \<noteq> [] \<and> list_all (has_role ''user'') post"
proof -
  have t: "trim ''S'' = ''S''" by (rule trim_char) simp
  obtain body where body: "compaction_body_with_metadata demo_codec demo_compaction_request
      (static_anthropic_model_metadata ''claude-opus-5'') = (Inr body :: (nat, string) ProviderError + Value)"
    by (simp add: compaction_body_with_metadata_def demo_compaction_request_def static_anthropic_model_metadata_def
        adaptive_with_all_efforts_def ascii_lowercase_def anthropic_request_body_def t option_filter_def
        transcript_to_messages_for_request_def render_transcript_messages_def render_entry_def emitted_anthropic_replay_def
        provider_replay_values_for_def effort_config_def anthropic_reasoning_effort_def anthropic_tools_def Let_def)
  from compaction_request_answers_calls [OF this] body show ?thesis by blast
qed

text \<open>
  C26. The cache of model metadata, under every interleaving of callers, refreshes and tasks that
  die: at most one refresh of a model runs at a time, the cache is within its capacity or holds
  only entries that are being refreshed, and a caller is never told to wait for a refresh that
  will neither finish nor be found closed.
\<close>

theorem model_cache_single_flight:
  assumes "world_reachable w"
  shows "(\<forall>m g g'. rw_refreshes w g = Some (m, Running) \<longrightarrow> rw_refreshes w g' = Some (m, Running) \<longrightarrow> g = g')
    \<and> (length (kc_entries (rw_cache w)) \<le> MODEL_CACHE_CAPACITY
       \<or> list_all (\<lambda>e. ca_refresh (snd e) \<noteq> None) (kc_entries (rw_cache w)))
    \<and> (\<forall>m now g. fst (decision m now (rw_cache w)) = WaitFor g \<longrightarrow>
         rw_refreshes w g = Some (m, Running) \<or> rw_refreshes w g = Some (m, ChannelClosed))"
  using single_flight [OF assms] by blast

theorem model_cache_single_flight_witness:
  "fst (decision ''claude-opus-5'' 1 (rw_cache (ask ''claude-opus-5'' 0 refresh_world_init))) = WaitFor 1
    \<and> rw_refreshes (ask ''claude-opus-5'' 0 refresh_world_init) 1 \<in> {Some (''claude-opus-5'', Running), Some (''claude-opus-5'', ChannelClosed)}"
proof -
  let ?w = "ask ''claude-opus-5'' 0 refresh_world_init"
  have "world_step refresh_world_init ?w"
    by (rule world_step.asked) (simp add: refresh_world_init_def AnthropicModelCacheState_default_def)
  then have "world_reachable ?w" by (rule world_next [OF world_init])
  from model_cache_single_flight [OF this] have "\<forall>m now g. fst (decision m now (rw_cache ?w)) = WaitFor g \<longrightarrow>
      rw_refreshes ?w g = Some (m, Running) \<or> rw_refreshes ?w g = Some (m, ChannelClosed)" by blast
  moreover have "fst (decision ''claude-opus-5'' 1 (rw_cache ?w)) = WaitFor 1"
    by (simp add: ask_def decision_def refresh_world_init_def AnthropicModelCacheState_default_def Let_def saturating_inc_def
        evict_for_insert_def evict_while.simps MODEL_CACHE_CAPACITY_def start_refresh_def set_entry_def)
  ultimately show ?thesis by blast
qed





text \<open>
  C29. The cache of OpenAI's model catalog serves each caller results of its own account only:
  whatever the order of callers, refreshes and account changes, a caller is given a result that a
  request of its account had, a cached catalog at most five minutes old, a cached failure at most
  thirty seconds old and never one for rejected credentials; or the notice that its refresh was
  superseded.
\<close>

theorem catalog_cache_isolated:
  assumes "catalog_reachable w" and "(key, at, result) \<in> set (cw_given w)"
  shows "result = Inl SUPERSEDED \<or> served (cw_results w) key at result"
  using catalog_reachable_inv [OF assms(1)] assms(2) unfolding catalog_inv_def by blast

theorem catalog_cache_isolated_witness:
  "\<exists>w. catalog_reachable w \<and> cw_given w = [(demo_key, Some 1, Inr Map.empty)]
     \<and> (Inr Map.empty = Inl SUPERSEDED \<or> served (cw_results w) demo_key (Some 1) (Inr Map.empty))"
proof -
  have g: "cw_given demo_catalog_world = [(demo_key, Some 1, Inr Map.empty)]" by (rule demo_catalog_given)
  then have "(demo_key, Some 1, Inr Map.empty) \<in> set (cw_given demo_catalog_world)" by simp
  from catalog_cache_isolated [OF demo_catalog_reachable this] g demo_catalog_reachable show ?thesis by blast
qed

section \<open>Tools\<close>

text \<open>
  C33. Under every interleaving of tool calls, aborted ones included, no two calls hold the
  lock of the same file at the same time.
\<close>

theorem locks_exclude:
  assumes "locks_reachable s" and "fm_lockers s t = Some lk" and "fm_lockers s u = Some lk'" and "t \<noteq> u"
  shows "fst ` set (lk_guards lk) \<inter> fst ` set (lk_guards lk') = {}"
  using mutual_exclusion [OF locks_reachable_ok [OF assms(1)] assms(2,3)] assms(4) by fastforce

text \<open>
  A call that takes the lock of one file nobody uses.
\<close>

lemma demo_keys: "lock_keys (\<lambda>_. None) [p] = [normalize_path p]"
  by (simp add: lock_keys_def mutation_lock_key_def)

lemma demo_lock_reachable:
  assumes "locks_reachable s" and "fm_lockers s t = None" and "fm_locks s (normalize_path p) = None"
    and "fm_owner s (fm_next s) = None"
  shows "locks_reachable (demo_lock t p s)
     \<and> fm_lockers (demo_lock t p s) = (fm_lockers s)(t \<mapsto> \<lparr>lk_keys = [], lk_waiting = None, lk_guards = [(normalize_path p, fm_next s)]\<rparr>)
     \<and> fm_owner (demo_lock t p s) = (fm_owner s)(fm_next s \<mapsto> t) \<and> fm_next (demo_lock t p s) = Suc (fm_next s)
     \<and> dom (fm_locks (demo_lock t p s)) \<subseteq> insert (normalize_path p) (dom (fm_locks s))"
proof -
  let ?s1 = "start_locking (\<lambda>_. None) [p] t s"
  have r1: "locks_reachable ?s1" by (rule locks_start [OF assms(1,2)])
  let ?l1 = "\<lparr>lk_keys = [normalize_path p], lk_waiting = None, lk_guards = []\<rparr>"
  have l1: "fm_lockers ?s1 t = Some ?l1" by (simp add: start_locking_def demo_keys)
  let ?s2 = "fetch_lock t ?l1 (normalize_path p) [] ?s1"
  have r2: "locks_reachable ?s2"
    by (rule locks_reachable.locks_progress [OF r1 step_fetch [OF l1]]) simp_all
  have none: "fm_locks (retain_locks ?s1) (normalize_path p) = None"
    using assms(3) by (simp add: retain_locks_def start_locking_def)
  have l2: "fm_lockers ?s2 = (fm_lockers s)(t \<mapsto> \<lparr>lk_keys = [], lk_waiting = Some (normalize_path p, fm_next s), lk_guards = []\<rparr>)"
    and o2: "fm_owner ?s2 = fm_owner s" and n2: "fm_next ?s2 = Suc (fm_next s)"
    by (simp_all add: fetch_lock_def Let_def none) (simp_all add: retain_locks_def start_locking_def)
  have d2: "dom (fm_locks ?s2) \<subseteq> insert (normalize_path p) (dom (fm_locks s))"
    by (auto simp: fetch_lock_def Let_def none retain_locks_def start_locking_def split: option.splits if_splits)
  let ?l2 = "\<lparr>lk_keys = [], lk_waiting = Some (normalize_path p, fm_next s), lk_guards = []\<rparr>"
  have "locks_reachable (acquire_lock t ?l2 (normalize_path p, fm_next s) ?s2)"
    by (rule locks_reachable.locks_progress [OF r2 step_acquire]) (simp_all add: l2 o2 assms(4))
  moreover have "demo_lock t p s = acquire_lock t ?l2 (normalize_path p, fm_next s) ?s2"
    by (simp add: demo_lock_def Let_def l1 l2)
  ultimately show ?thesis using d2 by (simp add: acquire_lock_def l2 o2 n2)
qed

lemma demo_locks_reachable:
  "locks_reachable demo_locks
   \<and> fm_lockers demo_locks =
       [1 \<mapsto> \<lparr>lk_keys = [], lk_waiting = None, lk_guards = [(normalize_path ''/w/a'', 0)]\<rparr>,
        2 \<mapsto> \<lparr>lk_keys = [], lk_waiting = None, lk_guards = [(normalize_path ''/w/b'', 1)]\<rparr>]"
proof -
  have n: "normalize_path ''/w/a'' \<noteq> normalize_path ''/w/b''" by code_simp
  note first = demo_lock_reachable [OF locks_new, of 1 "''/w/a''"]
  let ?s = "demo_lock 1 ''/w/a'' FileMutationLocks_new"
  have f: "locks_reachable ?s" "fm_lockers ?s = [1 \<mapsto> \<lparr>lk_keys = [], lk_waiting = None, lk_guards = [(normalize_path ''/w/a'', 0)]\<rparr>]"
    "fm_owner ?s = [0 \<mapsto> 1]" "fm_next ?s = 1" "dom (fm_locks ?s) \<subseteq> {normalize_path ''/w/a''}"
    using first by (simp_all add: FileMutationLocks_new_def)
  have "fm_locks ?s (normalize_path ''/w/b'') = None" using f(5) n by (auto simp: domIff)
  with demo_lock_reachable [OF f(1), of 2 "''/w/b''"] f show ?thesis by (simp add: demo_locks_def fun_upd_twist)
qed

theorem locks_exclude_witness:
  "\<exists>lk lk'. fm_lockers demo_locks 1 = Some lk \<and> fm_lockers demo_locks 2 = Some lk' \<and> lk_guards lk \<noteq> [] \<and> lk_guards lk' \<noteq> []
     \<and> fst ` set (lk_guards lk) \<inter> fst ` set (lk_guards lk') = {}"
proof -
  obtain lk lk' where l: "fm_lockers demo_locks 1 = Some lk" "fm_lockers demo_locks 2 = Some lk'"
    "lk_guards lk \<noteq> []" "lk_guards lk' \<noteq> []"
    using demo_locks_reachable by simp
  with locks_exclude [OF conjunct1 [OF demo_locks_reachable] l(1,2)] show ?thesis by auto
qed

text \<open>
  C34. Locking never deadlocks: as long as some call is locking or holds locks, one of the
  calls can take its next step.
\<close>

theorem locks_progress_always:
  assumes "locks_reachable s" and "fm_lockers s \<noteq> Map.empty"
  shows "\<exists>t s'. progress_step t s s' \<and> locks_reachable s'"
  using no_deadlock [OF locks_reachable_ok [OF assms(1)] assms(2)] locks_reachable.locks_progress [OF assms(1)] by blast

theorem locks_progress_always_witness:
  "\<exists>t s'. progress_step t demo_locks s' \<and> locks_reachable s'"
  using demo_locks_reachable by (intro locks_progress_always) auto

section \<open>The catalog of server tools\<close>

lemma demo_digest_ok: "digest_ok demo_digest"
proof -
  have "is_hex_digit (CHR ''0'')" by (simp add: is_hex_digit_def less_eq_char_def)
  then show ?thesis by (simp add: digest_ok_def demo_digest_def list_all_iff)
qed

lemma demo_contract:
  "canonical_candidate demo_printer demo_digest (demo_tool name) =
     (if name = [] \<or> length name > 256
      then Inl (Bail ''MCP server and tool names must be nonempty and tool names at most 256 bytes'')
      else Inr \<lparr>mt_server_id = ''s'', mt_server_config_fingerprint = ''c'', mt_raw_name = name, mt_exposed_name = [],
        mt_description = ''reads'', mt_input_schema = JObject [], mt_contract_fingerprint = replicate 64 CHR ''0''\<rparr>)"
  by (simp add: canonical_candidate_def demo_tool_def demo_printer_def demo_digest_def fingerprint_json_def
      limit_defs canonical_json_object max_or_def btree_of_def)

lemma demo_names: "preliminary_name ''s'' ''a'' = ''mcp__s__a''" "preliminary_name ''s'' ''b'' = ''mcp__s__b''"
  by (simp_all add: preliminary_name_def sanitized_component_def is_name_byte_def is_ascii_alphanumeric_def less_eq_char_def)

lemma demo_bounds: "validate_catalog_bytes demo_printer m = Inr ()"
proof -
  have z: "declarations_total demo_printer 0 ts = Inr 0" for ts
    by (induction ts) (simp_all add: declaration_bytes_def demo_printer_def saturating_add_def)
  show ?thesis
  by (simp add: validate_catalog_bytes_def validate_mcp_declaration_bounds_def validate_declarations_def z) (simp add: demo_printer_def)
qed

lemma demo_inventory_built:
  "demo_inventory = Inr (inventory_manifest demo_printer demo_digest [(''s'', ''c'')]
     [demo_entry ''a'' ''mcp__s__a'', demo_entry ''b'' ''mcp__s__b''])"
proof -
  have le: "\<not> CHR ''b'' \<le> CHR ''a''" "CHR ''a'' \<le> CHR ''b''" by (simp_all add: less_eq_char_def)
  have c: "canonical_candidates demo_printer demo_digest [demo_tool ''b'', demo_tool ''a'']
    = Inr [demo_entry ''b'' [], demo_entry ''a'' []]"
    by (simp add: demo_contract demo_entry_def)
  have s: "sort_key contract_key [demo_entry ''b'' [], demo_entry ''a'' []] = [demo_entry ''a'' [], demo_entry ''b'' []]"
    by (simp add: contract_key_def demo_entry_def less_char_def less_eq_char_def)
  have n: "assign_names {''Bash''} (count_preliminary [] [demo_entry ''a'' [], demo_entry ''b'' []]) {} [demo_entry ''a'' [], demo_entry ''b'' []]
    = Inr [demo_entry ''a'' ''mcp__s__a'', demo_entry ''b'' ''mcp__s__b'']"
    by (simp add: exposed_name_of_def count_preliminary_eq demo_names Let_def limit_defs demo_entry_def del: count_preliminary.simps)
  have d: "\<not> conflicting_pair [demo_entry ''a'' [], demo_entry ''b'' []]"
    "dedup_contracts [demo_entry ''a'' [], demo_entry ''b'' []] = [demo_entry ''a'' [], demo_entry ''b'' []]"
    by (simp_all add: contract_key_def demo_entry_def conflicting_pair.simps dedup_contracts.simps)
  have s': "sort_key tool_sort_key [demo_entry ''a'' ''mcp__s__a'', demo_entry ''b'' ''mcp__s__b'']
      = [demo_entry ''a'' ''mcp__s__a'', demo_entry ''b'' ''mcp__s__b'']"
    by (simp add: tool_sort_key_def demo_entry_def less_char_def less_eq_char_def)
  have few: "\<not> MAX_TOOLS < length [demo_tool ''b'', demo_tool ''a'']" by (simp add: limit_defs)
  show ?thesis unfolding demo_inventory_def build_inventory_catalog_def c sum.case s Let_def d n s' demo_bounds
    using few d by simp
qed

text \<open>
  C35. What a session selects of an inventory and stores is accepted when it is loaded again;
  it has exactly the selected tools, each is found by its exposed name, and no exposed name
  is one of a built-in tool. The stored text must fit the size limit.
\<close>

theorem selection_reloads:
  assumes "build_inventory_catalog to_vec sha configs discovered builtin = Inr inventory" and "digest_ok sha"
    and "selection_ok inventory selection" and "select_manifest inventory selection = Inr m"
    and "length (to_vec (canonical_json (manifest_json m))) \<le> MAX_CATALOG_BYTES"
  shows "\<exists>s. McpSessionSnapshot_new to_vec sha m = Inr s \<and> from_persisted to_vec sha (ss_manifest s) = Inr s
    \<and> mm_tools (ss_manifest s) = filter (is_selected selection) (mm_tools inventory)
    \<and> (\<forall>t \<in> set (mm_tools (ss_manifest s)).
         manifest_tool (ss_manifest s) (mt_exposed_name t) = Some t \<and> mt_exposed_name t \<notin> builtin)"
proof -
  obtain s where s: "McpSessionSnapshot_new to_vec sha m = Inr s" "mm_tools (ss_manifest s) = mm_tools m"
    using selected_manifest_valid [OF assms] by (simp add: McpSessionSnapshot_new_def)
  have m: "mm_tools m = filter (is_selected selection) (mm_tools inventory)"
    using assms(4) unfolding select_manifest_eq [OF assms(3)] by auto
  note listing = inventory_tools_ok [OF assms(1,2)]
  have "distinct (map mt_exposed_name (mm_tools (ss_manifest s)))"
    using tools_listing_ok_filter [OF listing(1), of "is_selected selection"] by (simp add: s(2) m tools_listing_ok_def)
  with listing(3) snapshot_roundtrip [OF s(1)] s m manifest_tool_found [of "ss_manifest s"] show ?thesis by auto
qed

theorem selection_reloads_witness:
  "\<exists>inventory m s. demo_inventory = Inr inventory \<and> select_manifest inventory [(''s'', [''b''])] = Inr m
     \<and> McpSessionSnapshot_new demo_printer demo_digest m = Inr s
     \<and> from_persisted demo_printer demo_digest (ss_manifest s) = Inr s
     \<and> map_option mt_raw_name (manifest_tool (ss_manifest s) ''mcp__s__b'') = Some ''b''"
proof -
  define inventory where "inventory = inventory_manifest demo_printer demo_digest [(''s'', ''c'')]
     [demo_entry ''a'' ''mcp__s__a'', demo_entry ''b'' ''mcp__s__b'']"
  have i: "demo_inventory = Inr inventory" unfolding inventory_def by (rule demo_inventory_built)
  have ok: "selection_ok inventory [(''s'', [''b''])]"
    by (simp add: selection_ok_def inventory_def inventory_manifest_def btree_ok_def raw_key_def demo_entry_def btree_of_def Let_def)
  obtain m where m: "select_manifest inventory [(''s'', [''b''])] = Inr m" using select_manifest_eq [OF ok] by blast
  have "length (demo_printer (canonical_json (manifest_json m))) \<le> MAX_CATALOG_BYTES" by (simp add: demo_printer_def)
  from selection_reloads [OF i [unfolded demo_inventory_def] demo_digest_ok ok m this] obtain s where
    s: "McpSessionSnapshot_new demo_printer demo_digest m = Inr s" "from_persisted demo_printer demo_digest (ss_manifest s) = Inr s"
      "mm_tools (ss_manifest s) = filter (is_selected [(''s'', [''b''])]) (mm_tools inventory)"
      "\<forall>t \<in> set (mm_tools (ss_manifest s)). manifest_tool (ss_manifest s) (mt_exposed_name t) = Some t"
    by blast
  have "demo_entry ''b'' ''mcp__s__b'' \<in> set (mm_tools (ss_manifest s))"
    unfolding s(3) by (simp add: inventory_def inventory_manifest_def Let_def is_selected_def demo_entry_def)
  with s(4) have "manifest_tool (ss_manifest s) ''mcp__s__b'' = Some (demo_entry ''b'' ''mcp__s__b'')"
    by (force simp: demo_entry_def)
  with i m s(1,2) show ?thesis by (auto simp: demo_entry_def)
qed

section \<open>The stream of a tool server\<close>




lemma demo_push: "\<exists>p. push_chunk demo_decoders (concat [''id: 1'', [nl, nl], ''da'']) demo_parser [] = (Inr (), p,
   [\<lparr>sse_event = None, sse_data = None, sse_id = Some ''1'', sse_retry = None\<rparr>])"
proof -
  have utf8: "utf8_head CHR ''1'' [] = (True, 0)" by code_simp
  show ?thesis
    by (simp add: demo_parser_def BoundedSseParser_new_def push_byte_def finish_line_def finish_event_def process_field_def
       Let_def sse_limit_defs saturating_add_def PartialSse_default_def PartialSse_is_empty_def strip_space_def
       utf8 parser_scrub_def demo_decoders_def)
qed

text \<open>
  C37. However long a response is, the parser buffers at most one line, one event and its data
  within their limits, and passes on at most the permitted number of events.
\<close>

theorem mcp_parser_bounded:
  assumes "push_chunk dc (concat chunks) (BoundedSseParser_new scrubber notifications dispatch) [] = (Inr (), p, events)"
  shows "length (bp_line p) \<le> SSE_LINE_LIMIT \<and> ps_bytes (bp_event p) \<le> SSE_EVENT_LIMIT
    \<and> length (case sse_data (bp_event p) of Some d \<Rightarrow> d | None \<Rightarrow> []) \<le> SSE_DATA_LIMIT
    \<and> length events \<le> SSE_EVENTS_PER_RESPONSE_LIMIT"
  using push_chunk_ok [OF assms parser_ok_new]
  by (auto simp: parser_ok_def BoundedSseParser_new_def split: option.splits)

theorem mcp_parser_bounded_witness: 
  "\<exists>p. push_chunk demo_decoders (concat [''id: 1'', [nl, nl], ''da'']) demo_parser [] = (Inr (), p,
     [\<lparr>sse_event = None, sse_data = None, sse_id = Some ''1'', sse_retry = None\<rparr>])
   \<and> length (bp_line p) \<le> SSE_LINE_LIMIT"
  using demo_push mcp_parser_bounded unfolding demo_parser_def by blast

section \<open>The task registry\<close>

text \<open>
  C38. Shutting down takes every registered task, all of them started; after that, whatever is
  called, nothing is registered or started, and registrations are refused.
\<close>

theorem shutdown_takes_all:
  assumes "registry_step\<^sup>*\<^sup>* task_registry_new s" and "take_tasks s = (handles, s1)" and "registry_step\<^sup>*\<^sup>* s1 s2"
  shows "handles = registered s \<and> set handles \<subseteq> set (tr_started s)
    \<and> registered s2 = [] \<and> tr_started s2 = tr_started s
    \<and> fst (register_task task s2) = Inl TaskRegistrationRejected"
proof -
  have ok: "registry_ok s" by (rule registry_ok_steps [OF assms(1) registry_ok_new])
  have "s1 = snd (take_tasks s)" and h: "handles = registered s" using assms(2) by (simp_all add: take_tasks_def registered_def)
  then have s1: "tr_shutting_down s1" "tr_started s1 = tr_started s" "registry_ok s1"
    using registry_ok_step [OF ok step_take] by (simp_all add: take_tasks_def)
  from shut_down_steps [OF assms(3) s1(1)] registry_ok_steps [OF assms(3) s1(3)] ok h s1(2)
  show ?thesis by (simp add: registry_ok_def register_task_def)
qed

theorem shutdown_takes_all_witness:
  "\<exists>s handles s1. registry_step\<^sup>*\<^sup>* task_registry_new s \<and> take_tasks s = (handles, s1) \<and> handles = [7]
    \<and> registered s1 = []"
proof -
  let ?s = "snd (register_recovery_task 7 task_registry_new)"
  have r: "registry_step\<^sup>*\<^sup>* task_registry_new ?s" by (rule r_into_rtranclp) (rule step_register_recovery)
  have "registered ?s = [7]" by (simp add: register_recovery_task_def task_registry_new_def registered_def)
  with shutdown_takes_all [OF r surjective_pairing rtranclp.rtrancl_refl] r show ?thesis
    by (metis surjective_pairing)
qed

section \<open>Findings\<close>

text \<open>
  C39. A reply that uses one tool call id twice with the same tool hangs its turn: while
  the batch runs, the completion of the later call is ignored in every state of the batch,
  since the handler looks the call up by id and name before it compares action ids.
\<close>

theorem duplicate_call_id_ignored:
  assumes "j < k" and "k < length tools" and "call_key (rt_call (tools ! j)) = call_key (rt_call (tools ! k))"
    and "result_key r = call_key (rt_call (tools ! k))"
    and "\<forall>l < k. rt_action_id (tools ! l) \<noteq> rt_action_id (tools ! k)"
  shows "step (RunningTools t tools i) (EvToolCompleted (rt_action_id (tools ! k)) t r) nxt
    = (RunningTools t tools i, nxt, [], [])"
  using duplicate_call_stuck [OF assms] by simp

theorem duplicate_call_id_ignored_witness:
  "step (RunningTools TurnId_first demo_batch 0)
      (EvToolCompleted (ActionId 3) TurnId_first (ToolResultMessage_success (ToolCallId ''1'') ''Bash'' ''ok'')) (ActionId 4)
    = (RunningTools TurnId_first demo_batch 0, ActionId 4, [], [])"
  using duplicate_call_id_ignored [of 0 1 demo_batch "ToolResultMessage_success (ToolCallId ''1'') ''Bash'' ''ok''"
      TurnId_first 0 "ActionId 4"]
  by (simp add: demo_batch_def demo_call_def call_key_def result_key_def ToolResultMessage_success_def)


end
